(* ===== verification/Prelude.thy ===== *)
theory Prelude
  imports Main "HOL-Library.List_Lexorder" "HOL-Library.Char_ord" "HOL-Library.Sublist"
begin

section \<open>Shared vocabulary of the model\<close>

text \<open>
  The generic part of the development: results of fallible code, ordered lists of checks,
  closed vocabularies (Python's \<open>Enum\<close> with string values), and facts about lists that
  several components share.

  A Python function that may raise is a function into \<open>error + 'a\<close>: \<open>Inl e\<close> is the raised
  exception and \<open>Inr x\<close> the returned value. A validating constructor (\<open>__post_init__\<close>) is the
  list of its checks in source order; the first violated one raises.
\<close>

subsection \<open>Collections of facts\<close>

named_theorems result_simps \<open>how results are taken apart\<close>
named_theorems vocabulary \<open>closed vocabularies: values determine members\<close>

subsection \<open>Results\<close>

fun bind_res :: "'e + 'a \<Rightarrow> ('a \<Rightarrow> 'e + 'b) \<Rightarrow> 'e + 'b" where
  "bind_res (Inl e) f = Inl e"
| "bind_res (Inr x) f = f x"

fun map_res :: "('a \<Rightarrow> 'b) \<Rightarrow> 'e + 'a \<Rightarrow> 'e + 'b" where
  "map_res f (Inl e) = Inl e"
| "map_res f (Inr x) = Inr (f x)"

fun map_err :: "('e \<Rightarrow> 'f) \<Rightarrow> 'e + 'a \<Rightarrow> 'f + 'a" where
  "map_err f (Inl e) = Inl (f e)"
| "map_err f (Inr x) = Inr x"

definition of_option :: "'e \<Rightarrow> 'a option \<Rightarrow> 'e + 'a" where
  "of_option e r = (case r of None \<Rightarrow> Inl e | Some x \<Rightarrow> Inr x)"

fun is_ok :: "'e + 'a \<Rightarrow> bool" where
  "is_ok (Inl e) = False"
| "is_ok (Inr x) = True"

text \<open>Checks in source order: \<open>(violated, error)\<close>.\<close>

fun guards :: "(bool \<times> 'e) list \<Rightarrow> 'e + unit" where
  "guards [] = Inr ()"
| "guards ((bad, e) # gs) = (if bad then Inl e else guards gs)"

text \<open>Evaluation of a list of fallible items from left to right.\<close>

fun map_all :: "('a \<Rightarrow> 'e + 'b) \<Rightarrow> 'a list \<Rightarrow> 'e + 'b list" where
  "map_all f [] = Inr []"
| "map_all f (x # xs) = bind_res (f x) (\<lambda>y. map_res (Cons y) (map_all f xs))"

lemma bind_res_Inr [result_simps]:
  "bind_res m f = Inr y \<longleftrightarrow> (\<exists>x. m = Inr x \<and> f x = Inr y)"
  by (cases m) auto

lemma bind_res_Inl [result_simps]:
  "bind_res m f = Inl e \<longleftrightarrow> m = Inl e \<or> (\<exists>x. m = Inr x \<and> f x = Inl e)"
  by (cases m) auto

lemma map_res_Inr [result_simps]: "map_res f m = Inr y \<longleftrightarrow> (\<exists>x. m = Inr x \<and> y = f x)"
  by (cases m) auto

lemma map_res_Inl [result_simps]: "map_res f m = Inl e \<longleftrightarrow> m = Inl e"
  by (cases m) auto

lemma map_err_Inr [result_simps]: "map_err f m = Inr y \<longleftrightarrow> m = Inr y"
  by (cases m) auto

lemma of_option_Inr [result_simps]: "of_option e r = Inr x \<longleftrightarrow> r = Some x"
  by (auto simp: of_option_def split: option.splits)

lemma of_option_Inl [result_simps]: "of_option e r = Inl e' \<longleftrightarrow> r = None \<and> e' = e"
  by (auto simp: of_option_def split: option.splits)

lemma of_option_simps [simp]: "of_option e None = Inl e" "of_option e (Some x) = Inr x"
  by (simp_all add: of_option_def)

lemma guards_Inr [result_simps]: "guards gs = Inr u \<longleftrightarrow> (\<forall>g \<in> set gs. \<not> fst g)"
  by (induction gs rule: guards.induct) auto

lemma guards_append: "guards (xs @ ys) = bind_res (guards xs) (\<lambda>_. guards ys)"
  by (induction xs rule: guards.induct) auto

lemma map_all_Inr_iff:
  "map_all f xs = Inr ys \<longleftrightarrow> list_all2 (\<lambda>x y. f x = Inr y) xs ys"
  by (induction xs arbitrary: ys) (auto simp: result_simps list_all2_Cons1)

lemma map_all_InrI: "(\<And>x. x \<in> set xs \<Longrightarrow> f x = Inr (g x)) \<Longrightarrow> map_all f xs = Inr (map g xs)"
  by (induction xs) auto

lemma map_all_map: "map_all f (map g xs) = map_all (f \<circ> g) xs"
  by (induction xs) auto

subsection \<open>Closed vocabularies\<close>

text \<open>
  \<open>E(value)\<close> for an \<open>Enum\<close> class \<open>E\<close>: the member whose value is the string, if any.
\<close>

definition parse_member :: "'k list \<Rightarrow> ('k \<Rightarrow> string) \<Rightarrow> string \<Rightarrow> 'k option" where
  "parse_member ms val s = find (\<lambda>k. val k = s) ms"

lemma parse_member_value:
  assumes "distinct (map val ms)" and "k \<in> set ms"
  shows "parse_member ms val (val k) = Some k"
proof -
  have "find (\<lambda>k'. val k' = val k) ms = Some k" using assms
    by (induction ms) (auto simp: rev_image_eqI)
  then show ?thesis by (simp add: parse_member_def)
qed

lemma parse_member_Some: "parse_member ms val s = Some k \<Longrightarrow> val k = s"
  by (auto simp: parse_member_def find_Some_iff)

subsection \<open>Lists\<close>

lemma map_of_filter_other: "k \<noteq> k' \<Longrightarrow> map_of (filter (\<lambda>p. fst p \<noteq> k') xs) k = map_of xs k"
  by (induction xs) auto

lemma sorted_distinct_eq:
  fixes xs ys :: "'a::linorder list"
  assumes "sorted xs" "distinct xs" "sorted ys" "distinct ys" "set xs = set ys"
  shows "xs = ys"
  using assms by (metis sorted_distinct_set_unique)

end
