(* ===== verification/Vocabulary.thy ===== *)
theory Vocabulary
  imports Prelude
begin

section \<open>Closed vocabularies of the V3 contracts\<close>

text \<open>
  The \<open>Enum\<close> classes of \<open>contracts/statuses.py\<close>, \<open>contracts/events.py\<close> and
  \<open>contracts/commands.py\<close>: a datatype with the members of the class (prefixed, since two
  classes share member names), the persisted string value of each member, the members in
  declaration order, and \<open>parse_\<dots>\<close>, the lookup \<open>Class(value)\<close> that raises for an unknown
  string (\<open>None\<close>).
\<close>

subsection \<open>PredictionEngine\<close>

datatype (plugins only: code size) prediction_engine =
    PE_V2
  | PE_V3

primrec prediction_engine_value :: "prediction_engine \<Rightarrow> string" where
  "prediction_engine_value PE_V2 = ''v2''"
| "prediction_engine_value PE_V3 = ''v3''"

definition prediction_engines :: "prediction_engine list" where
  "prediction_engines = [PE_V2, PE_V3]"

lemma prediction_engines_complete [vocabulary]: "x \<in> set prediction_engines"
  by (cases x) (simp_all add: prediction_engines_def)

lemma prediction_engine_values_distinct [vocabulary]: "distinct (map prediction_engine_value prediction_engines)"
  by code_simp

definition parse_prediction_engine :: "string \<Rightarrow> prediction_engine option" where
  "parse_prediction_engine = parse_member prediction_engines prediction_engine_value"

lemma parse_prediction_engine_value [simp]: "parse_prediction_engine (prediction_engine_value x) = Some x"
  by (simp add: parse_prediction_engine_def parse_member_value vocabulary)

lemma prediction_engine_value_inj [simp]: "prediction_engine_value x = prediction_engine_value y \<longleftrightarrow> x = y"
  by (metis option.inject parse_prediction_engine_value)

subsection \<open>EngineExecutionMode\<close>

datatype (plugins only: code size) engine_execution_mode =
    EM_PRODUCTION
  | EM_REHEARSAL

primrec engine_execution_mode_value :: "engine_execution_mode \<Rightarrow> string" where
  "engine_execution_mode_value EM_PRODUCTION = ''production''"
| "engine_execution_mode_value EM_REHEARSAL = ''rehearsal''"

definition engine_execution_modes :: "engine_execution_mode list" where
  "engine_execution_modes = [EM_PRODUCTION, EM_REHEARSAL]"

lemma engine_execution_modes_complete [vocabulary]: "x \<in> set engine_execution_modes"
  by (cases x) (simp_all add: engine_execution_modes_def)

lemma engine_execution_mode_values_distinct [vocabulary]: "distinct (map engine_execution_mode_value engine_execution_modes)"
  by code_simp

definition parse_engine_execution_mode :: "string \<Rightarrow> engine_execution_mode option" where
  "parse_engine_execution_mode = parse_member engine_execution_modes engine_execution_mode_value"

lemma parse_engine_execution_mode_value [simp]: "parse_engine_execution_mode (engine_execution_mode_value x) = Some x"
  by (simp add: parse_engine_execution_mode_def parse_member_value vocabulary)

lemma engine_execution_mode_value_inj [simp]: "engine_execution_mode_value x = engine_execution_mode_value y \<longleftrightarrow> x = y"
  by (metis option.inject parse_engine_execution_mode_value)

subsection \<open>ResultStatus\<close>

datatype (plugins only: code size) result_status =
    RS_COMPLETION
  | RS_DNF
  | RS_DQ
  | RS_DNS
  | RS_VOID
  | RS_PENALTY

primrec result_status_value :: "result_status \<Rightarrow> string" where
  "result_status_value RS_COMPLETION = ''completion''"
| "result_status_value RS_DNF = ''dnf''"
| "result_status_value RS_DQ = ''dq''"
| "result_status_value RS_DNS = ''dns''"
| "result_status_value RS_VOID = ''void''"
| "result_status_value RS_PENALTY = ''penalty''"

definition result_statuss :: "result_status list" where
  "result_statuss = [RS_COMPLETION, RS_DNF, RS_DQ, RS_DNS, RS_VOID, RS_PENALTY]"

lemma result_statuss_complete [vocabulary]: "x \<in> set result_statuss"
  by (cases x) (simp_all add: result_statuss_def)

lemma result_status_values_distinct [vocabulary]: "distinct (map result_status_value result_statuss)"
  by code_simp

definition parse_result_status :: "string \<Rightarrow> result_status option" where
  "parse_result_status = parse_member result_statuss result_status_value"

lemma parse_result_status_value [simp]: "parse_result_status (result_status_value x) = Some x"
  by (simp add: parse_result_status_def parse_member_value vocabulary)

lemma result_status_value_inj [simp]: "result_status_value x = result_status_value y \<longleftrightarrow> x = y"
  by (metis option.inject parse_result_status_value)

subsection \<open>LifecycleAggregateKind\<close>

datatype (plugins only: code size) lifecycle_aggregate_kind =
    LAK_TOURNAMENT_INGRESS
  | LAK_ROUND_INGRESS
  | LAK_FIELD_INGRESS
  | LAK_RESULT
  | LAK_SETTLEMENT
  | LAK_EPOCH
  | LAK_REACTION
  | LAK_DERIVATION
  | LAK_TOURNAMENT
  | LAK_ROUND
  | LAK_FIELD
  | LAK_JOB
  | LAK_BUNDLE
  | LAK_ISSUE_BATCH
  | LAK_COMPETITOR
  | LAK_FORECAST
  | LAK_SCORE
  | LAK_WEIGHTS
  | LAK_APPROVAL_DECISION
  | LAK_AUDIT_GENERATION
  | LAK_MONITORING
  | LAK_SERVICE_CREDENTIAL

primrec lifecycle_aggregate_kind_value :: "lifecycle_aggregate_kind \<Rightarrow> string" where
  "lifecycle_aggregate_kind_value LAK_TOURNAMENT_INGRESS = ''tournament_ingress''"
| "lifecycle_aggregate_kind_value LAK_ROUND_INGRESS = ''round_ingress''"
| "lifecycle_aggregate_kind_value LAK_FIELD_INGRESS = ''field_ingress''"
| "lifecycle_aggregate_kind_value LAK_RESULT = ''result''"
| "lifecycle_aggregate_kind_value LAK_SETTLEMENT = ''settlement''"
| "lifecycle_aggregate_kind_value LAK_EPOCH = ''epoch''"
| "lifecycle_aggregate_kind_value LAK_REACTION = ''reaction''"
| "lifecycle_aggregate_kind_value LAK_DERIVATION = ''derivation''"
| "lifecycle_aggregate_kind_value LAK_TOURNAMENT = ''tournament''"
| "lifecycle_aggregate_kind_value LAK_ROUND = ''round''"
| "lifecycle_aggregate_kind_value LAK_FIELD = ''field''"
| "lifecycle_aggregate_kind_value LAK_JOB = ''job''"
| "lifecycle_aggregate_kind_value LAK_BUNDLE = ''bundle''"
| "lifecycle_aggregate_kind_value LAK_ISSUE_BATCH = ''issue_batch''"
| "lifecycle_aggregate_kind_value LAK_COMPETITOR = ''competitor''"
| "lifecycle_aggregate_kind_value LAK_FORECAST = ''forecast''"
| "lifecycle_aggregate_kind_value LAK_SCORE = ''score''"
| "lifecycle_aggregate_kind_value LAK_WEIGHTS = ''weights''"
| "lifecycle_aggregate_kind_value LAK_APPROVAL_DECISION = ''approval_decision''"
| "lifecycle_aggregate_kind_value LAK_AUDIT_GENERATION = ''audit_generation''"
| "lifecycle_aggregate_kind_value LAK_MONITORING = ''monitoring''"
| "lifecycle_aggregate_kind_value LAK_SERVICE_CREDENTIAL = ''service_credential''"

definition lifecycle_aggregate_kinds :: "lifecycle_aggregate_kind list" where
  "lifecycle_aggregate_kinds = [LAK_TOURNAMENT_INGRESS, LAK_ROUND_INGRESS, LAK_FIELD_INGRESS, LAK_RESULT, LAK_SETTLEMENT, LAK_EPOCH, LAK_REACTION, LAK_DERIVATION, LAK_TOURNAMENT, LAK_ROUND, LAK_FIELD, LAK_JOB, LAK_BUNDLE, LAK_ISSUE_BATCH, LAK_COMPETITOR, LAK_FORECAST, LAK_SCORE, LAK_WEIGHTS, LAK_APPROVAL_DECISION, LAK_AUDIT_GENERATION, LAK_MONITORING, LAK_SERVICE_CREDENTIAL]"

lemma lifecycle_aggregate_kinds_complete [vocabulary]: "x \<in> set lifecycle_aggregate_kinds"
  by (cases x) (simp_all add: lifecycle_aggregate_kinds_def)

lemma lifecycle_aggregate_kind_values_distinct [vocabulary]: "distinct (map lifecycle_aggregate_kind_value lifecycle_aggregate_kinds)"
  by code_simp

definition parse_lifecycle_aggregate_kind :: "string \<Rightarrow> lifecycle_aggregate_kind option" where
  "parse_lifecycle_aggregate_kind = parse_member lifecycle_aggregate_kinds lifecycle_aggregate_kind_value"

lemma parse_lifecycle_aggregate_kind_value [simp]: "parse_lifecycle_aggregate_kind (lifecycle_aggregate_kind_value x) = Some x"
  by (simp add: parse_lifecycle_aggregate_kind_def parse_member_value vocabulary)

lemma lifecycle_aggregate_kind_value_inj [simp]: "lifecycle_aggregate_kind_value x = lifecycle_aggregate_kind_value y \<longleftrightarrow> x = y"
  by (metis option.inject parse_lifecycle_aggregate_kind_value)

subsection \<open>LifecycleStatus\<close>

datatype (plugins only: code size) lifecycle_status =
    LS_TOURNAMENT_INGRESS_CURRENT
  | LS_ROUND_INGRESS_CURRENT
  | LS_FIELD_INGRESS_CURRENT
  | LS_RESULT_ACTIVE
  | LS_SETTLEMENT_RECORDED
  | LS_EPOCH_FROZEN
  | LS_REACTION_COMPLETED
  | LS_DERIVATION_COMPLETED
  | LS_TOURNAMENT_CONFIGURED
  | LS_TOURNAMENT_OPEN
  | LS_TOURNAMENT_CLOSED
  | LS_ROUND_CONFIGURED
  | LS_ROUND_FROZEN
  | LS_ROUND_CLOSING
  | LS_ROUND_CLOSED
  | LS_FIELD_PREPARED
  | LS_FIELD_ISSUED
  | LS_FIELD_SETTLED
  | LS_FIELD_SUPERSEDED
  | LS_JOB_QUEUED
  | LS_JOB_LEASED
  | LS_JOB_SUCCEEDED
  | LS_JOB_INVALID
  | LS_JOB_RETRYABLE_FAILED
  | LS_JOB_STALE
  | LS_JOB_PERMANENT_FAILED
  | LS_JOB_CANCELLED
  | LS_BUNDLE_CANDIDATE
  | LS_BUNDLE_EVALUATED
  | LS_BUNDLE_PROMOTED
  | LS_BUNDLE_ROLLED_BACK
  | LS_AUDIT_GENERATION_CONSUMED
  | LS_MONITORING_RECORDED
  | LS_ISSUE_BATCH_ISSUED
  | LS_COMPETITOR_CAPABILITY_CURRENT
  | LS_FORECAST_CURRENT
  | LS_SCORE_CURRENT
  | LS_SCORE_REVERSED
  | LS_WEIGHTS_CURRENT
  | LS_APPROVAL_DECISION_RECORDED
  | LS_SERVICE_CREDENTIAL_ACTIVE

primrec lifecycle_status_value :: "lifecycle_status \<Rightarrow> string" where
  "lifecycle_status_value LS_TOURNAMENT_INGRESS_CURRENT = ''tournament_ingress_current''"
| "lifecycle_status_value LS_ROUND_INGRESS_CURRENT = ''round_ingress_current''"
| "lifecycle_status_value LS_FIELD_INGRESS_CURRENT = ''field_ingress_current''"
| "lifecycle_status_value LS_RESULT_ACTIVE = ''result_active''"
| "lifecycle_status_value LS_SETTLEMENT_RECORDED = ''settlement_recorded''"
| "lifecycle_status_value LS_EPOCH_FROZEN = ''epoch_frozen''"
| "lifecycle_status_value LS_REACTION_COMPLETED = ''reaction_completed''"
| "lifecycle_status_value LS_DERIVATION_COMPLETED = ''derivation_completed''"
| "lifecycle_status_value LS_TOURNAMENT_CONFIGURED = ''tournament_configured''"
| "lifecycle_status_value LS_TOURNAMENT_OPEN = ''tournament_open''"
| "lifecycle_status_value LS_TOURNAMENT_CLOSED = ''tournament_closed''"
| "lifecycle_status_value LS_ROUND_CONFIGURED = ''round_configured''"
| "lifecycle_status_value LS_ROUND_FROZEN = ''round_frozen''"
| "lifecycle_status_value LS_ROUND_CLOSING = ''round_closing''"
| "lifecycle_status_value LS_ROUND_CLOSED = ''round_closed''"
| "lifecycle_status_value LS_FIELD_PREPARED = ''field_prepared''"
| "lifecycle_status_value LS_FIELD_ISSUED = ''field_issued''"
| "lifecycle_status_value LS_FIELD_SETTLED = ''field_settled''"
| "lifecycle_status_value LS_FIELD_SUPERSEDED = ''field_superseded''"
| "lifecycle_status_value LS_JOB_QUEUED = ''job_queued''"
| "lifecycle_status_value LS_JOB_LEASED = ''job_leased''"
| "lifecycle_status_value LS_JOB_SUCCEEDED = ''job_succeeded''"
| "lifecycle_status_value LS_JOB_INVALID = ''job_invalid''"
| "lifecycle_status_value LS_JOB_RETRYABLE_FAILED = ''job_retryable_failed''"
| "lifecycle_status_value LS_JOB_STALE = ''job_stale''"
| "lifecycle_status_value LS_JOB_PERMANENT_FAILED = ''job_permanent_failed''"
| "lifecycle_status_value LS_JOB_CANCELLED = ''job_cancelled''"
| "lifecycle_status_value LS_BUNDLE_CANDIDATE = ''bundle_candidate''"
| "lifecycle_status_value LS_BUNDLE_EVALUATED = ''bundle_evaluated''"
| "lifecycle_status_value LS_BUNDLE_PROMOTED = ''bundle_promoted''"
| "lifecycle_status_value LS_BUNDLE_ROLLED_BACK = ''bundle_rolled_back''"
| "lifecycle_status_value LS_AUDIT_GENERATION_CONSUMED = ''audit_generation_consumed''"
| "lifecycle_status_value LS_MONITORING_RECORDED = ''monitoring_recorded''"
| "lifecycle_status_value LS_ISSUE_BATCH_ISSUED = ''issue_batch_issued''"
| "lifecycle_status_value LS_COMPETITOR_CAPABILITY_CURRENT = ''competitor_capability_current''"
| "lifecycle_status_value LS_FORECAST_CURRENT = ''forecast_current''"
| "lifecycle_status_value LS_SCORE_CURRENT = ''score_current''"
| "lifecycle_status_value LS_SCORE_REVERSED = ''score_reversed''"
| "lifecycle_status_value LS_WEIGHTS_CURRENT = ''weights_current''"
| "lifecycle_status_value LS_APPROVAL_DECISION_RECORDED = ''approval_decision_recorded''"
| "lifecycle_status_value LS_SERVICE_CREDENTIAL_ACTIVE = ''service_credential_active''"

definition lifecycle_statuss :: "lifecycle_status list" where
  "lifecycle_statuss = [LS_TOURNAMENT_INGRESS_CURRENT, LS_ROUND_INGRESS_CURRENT, LS_FIELD_INGRESS_CURRENT, LS_RESULT_ACTIVE, LS_SETTLEMENT_RECORDED, LS_EPOCH_FROZEN, LS_REACTION_COMPLETED, LS_DERIVATION_COMPLETED, LS_TOURNAMENT_CONFIGURED, LS_TOURNAMENT_OPEN, LS_TOURNAMENT_CLOSED, LS_ROUND_CONFIGURED, LS_ROUND_FROZEN, LS_ROUND_CLOSING, LS_ROUND_CLOSED, LS_FIELD_PREPARED, LS_FIELD_ISSUED, LS_FIELD_SETTLED, LS_FIELD_SUPERSEDED, LS_JOB_QUEUED, LS_JOB_LEASED, LS_JOB_SUCCEEDED, LS_JOB_INVALID, LS_JOB_RETRYABLE_FAILED, LS_JOB_STALE, LS_JOB_PERMANENT_FAILED, LS_JOB_CANCELLED, LS_BUNDLE_CANDIDATE, LS_BUNDLE_EVALUATED, LS_BUNDLE_PROMOTED, LS_BUNDLE_ROLLED_BACK, LS_AUDIT_GENERATION_CONSUMED, LS_MONITORING_RECORDED, LS_ISSUE_BATCH_ISSUED, LS_COMPETITOR_CAPABILITY_CURRENT, LS_FORECAST_CURRENT, LS_SCORE_CURRENT, LS_SCORE_REVERSED, LS_WEIGHTS_CURRENT, LS_APPROVAL_DECISION_RECORDED, LS_SERVICE_CREDENTIAL_ACTIVE]"

lemma lifecycle_statuss_complete [vocabulary]: "x \<in> set lifecycle_statuss"
  by (cases x) (simp_all add: lifecycle_statuss_def)

lemma lifecycle_status_values_distinct [vocabulary]: "distinct (map lifecycle_status_value lifecycle_statuss)"
  by code_simp

definition parse_lifecycle_status :: "string \<Rightarrow> lifecycle_status option" where
  "parse_lifecycle_status = parse_member lifecycle_statuss lifecycle_status_value"

lemma parse_lifecycle_status_value [simp]: "parse_lifecycle_status (lifecycle_status_value x) = Some x"
  by (simp add: parse_lifecycle_status_def parse_member_value vocabulary)

lemma lifecycle_status_value_inj [simp]: "lifecycle_status_value x = lifecycle_status_value y \<longleftrightarrow> x = y"
  by (metis option.inject parse_lifecycle_status_value)

subsection \<open>AggregateKind\<close>

datatype (plugins only: code size) aggregate_kind =
    AK_TOURNAMENT_INGRESS
  | AK_ROUND_INGRESS
  | AK_FIELD_INGRESS
  | AK_RESULT
  | AK_SETTLEMENT
  | AK_EPOCH
  | AK_REACTION
  | AK_DERIVATION
  | AK_TOURNAMENT
  | AK_ROUND
  | AK_FIELD
  | AK_COMPETITOR
  | AK_FORECAST
  | AK_JOB
  | AK_BUNDLE
  | AK_SCORE
  | AK_WEIGHTS
  | AK_SYSTEM
  | AK_ISSUE_BATCH
  | AK_APPROVAL_DECISION
  | AK_AUDIT_GENERATION
  | AK_MONITORING
  | AK_SERVICE_CREDENTIAL

primrec aggregate_kind_value :: "aggregate_kind \<Rightarrow> string" where
  "aggregate_kind_value AK_TOURNAMENT_INGRESS = ''tournament_ingress''"
| "aggregate_kind_value AK_ROUND_INGRESS = ''round_ingress''"
| "aggregate_kind_value AK_FIELD_INGRESS = ''field_ingress''"
| "aggregate_kind_value AK_RESULT = ''result''"
| "aggregate_kind_value AK_SETTLEMENT = ''settlement''"
| "aggregate_kind_value AK_EPOCH = ''epoch''"
| "aggregate_kind_value AK_REACTION = ''reaction''"
| "aggregate_kind_value AK_DERIVATION = ''derivation''"
| "aggregate_kind_value AK_TOURNAMENT = ''tournament''"
| "aggregate_kind_value AK_ROUND = ''round''"
| "aggregate_kind_value AK_FIELD = ''field''"
| "aggregate_kind_value AK_COMPETITOR = ''competitor''"
| "aggregate_kind_value AK_FORECAST = ''forecast''"
| "aggregate_kind_value AK_JOB = ''job''"
| "aggregate_kind_value AK_BUNDLE = ''bundle''"
| "aggregate_kind_value AK_SCORE = ''score''"
| "aggregate_kind_value AK_WEIGHTS = ''weights''"
| "aggregate_kind_value AK_SYSTEM = ''system''"
| "aggregate_kind_value AK_ISSUE_BATCH = ''issue_batch''"
| "aggregate_kind_value AK_APPROVAL_DECISION = ''approval_decision''"
| "aggregate_kind_value AK_AUDIT_GENERATION = ''audit_generation''"
| "aggregate_kind_value AK_MONITORING = ''monitoring''"
| "aggregate_kind_value AK_SERVICE_CREDENTIAL = ''service_credential''"

definition aggregate_kinds :: "aggregate_kind list" where
  "aggregate_kinds = [AK_TOURNAMENT_INGRESS, AK_ROUND_INGRESS, AK_FIELD_INGRESS, AK_RESULT, AK_SETTLEMENT, AK_EPOCH, AK_REACTION, AK_DERIVATION, AK_TOURNAMENT, AK_ROUND, AK_FIELD, AK_COMPETITOR, AK_FORECAST, AK_JOB, AK_BUNDLE, AK_SCORE, AK_WEIGHTS, AK_SYSTEM, AK_ISSUE_BATCH, AK_APPROVAL_DECISION, AK_AUDIT_GENERATION, AK_MONITORING, AK_SERVICE_CREDENTIAL]"

lemma aggregate_kinds_complete [vocabulary]: "x \<in> set aggregate_kinds"
  by (cases x) (simp_all add: aggregate_kinds_def)

lemma aggregate_kind_values_distinct [vocabulary]: "distinct (map aggregate_kind_value aggregate_kinds)"
  by code_simp

definition parse_aggregate_kind :: "string \<Rightarrow> aggregate_kind option" where
  "parse_aggregate_kind = parse_member aggregate_kinds aggregate_kind_value"

lemma parse_aggregate_kind_value [simp]: "parse_aggregate_kind (aggregate_kind_value x) = Some x"
  by (simp add: parse_aggregate_kind_def parse_member_value vocabulary)

lemma aggregate_kind_value_inj [simp]: "aggregate_kind_value x = aggregate_kind_value y \<longleftrightarrow> x = y"
  by (metis option.inject parse_aggregate_kind_value)

subsection \<open>EventKind\<close>

datatype (plugins only: code size) event_kind =
    EK_TOURNAMENT_SNAPSHOT_REVISED
  | EK_ROUND_SNAPSHOT_REVISED
  | EK_FIELD_ROSTER_REVISED
  | EK_TOURNAMENT_CONFIGURED
  | EK_TOURNAMENT_OPENED
  | EK_TOURNAMENT_CLOSED
  | EK_ROUND_CONFIGURED
  | EK_ROUND_FROZEN
  | EK_ROUND_CLOSING_STARTED
  | EK_ROUND_CLOSED
  | EK_RESULT_RECORDED
  | EK_RESULT_CORRECTED
  | EK_RESULT_VOIDED
  | EK_RESULT_SUPERSEDED
  | EK_LIVE_RACE_SETTLED
  | EK_ROUND_EPOCH_FROZEN
  | EK_DERIVATION_REACTION_COMPLETED
  | EK_DERIVATION_SEQUENCE_COMPLETED
  | EK_COMPONENT_FORECAST_COMMITTED
  | EK_COMPONENT_FORECAST_REJECTED
  | EK_COUNCIL_MEMBER_COMMITTED
  | EK_CAPABILITY_UPDATED
  | EK_CAPABILITY_STATE_REBASED
  | EK_SCORE_RECORDED
  | EK_SCORE_REVERSED
  | EK_WEIGHTS_CHANGED
  | EK_FORECASTS_POOLED
  | EK_DISAGREEMENT_CLASSIFIED
  | EK_OVERRIDE_RECORDED
  | EK_APPROVAL_DECISION_RECORDED
  | EK_FIELD_OPTIMIZED
  | EK_FIELD_RECEIPT_PREPARED
  | EK_FIELD_SUPERSEDED
  | EK_FIELD_REGENERATED
  | EK_FIELD_ISSUED
  | EK_ISSUE_BATCH_ISSUED
  | EK_FIELD_SETTLED
  | EK_HISTORY_IMPORTED
  | EK_JOB_QUEUED
  | EK_JOB_LEASED
  | EK_JOB_SUCCEEDED
  | EK_JOB_INVALID
  | EK_JOB_RETRYABLE_FAILED
  | EK_JOB_REQUEUED
  | EK_JOB_STALE
  | EK_JOB_PERMANENT_FAILED
  | EK_JOB_CANCELLED
  | EK_MODEL_CANDIDATE_CREATED
  | EK_MODEL_CANDIDATE_EVALUATED
  | EK_AUDIT_GENERATION_CONSUMED
  | EK_BUNDLE_PROMOTED
  | EK_BUNDLE_ROLLED_BACK
  | EK_MONITORING_RECORDED
  | EK_LIVE_SUSPENDED
  | EK_LIVE_RESUMED
  | EK_EMERGENCY_STOPPED
  | EK_CHECKPOINT_ANCHORED
  | EK_SERVICE_CREDENTIAL_BOOTSTRAPPED
  | EK_SERVICE_CREDENTIAL_ROTATED
  | EK_SERVICE_CREDENTIAL_REVOKED
  | EK_SERVICE_CREDENTIAL_RECOVERED

primrec event_kind_value :: "event_kind \<Rightarrow> string" where
  "event_kind_value EK_TOURNAMENT_SNAPSHOT_REVISED = ''tournament_snapshot_revised''"
| "event_kind_value EK_ROUND_SNAPSHOT_REVISED = ''round_snapshot_revised''"
| "event_kind_value EK_FIELD_ROSTER_REVISED = ''field_roster_revised''"
| "event_kind_value EK_TOURNAMENT_CONFIGURED = ''tournament_configured''"
| "event_kind_value EK_TOURNAMENT_OPENED = ''tournament_opened''"
| "event_kind_value EK_TOURNAMENT_CLOSED = ''tournament_closed''"
| "event_kind_value EK_ROUND_CONFIGURED = ''round_configured''"
| "event_kind_value EK_ROUND_FROZEN = ''round_frozen''"
| "event_kind_value EK_ROUND_CLOSING_STARTED = ''round_closing_started''"
| "event_kind_value EK_ROUND_CLOSED = ''round_closed''"
| "event_kind_value EK_RESULT_RECORDED = ''result_recorded''"
| "event_kind_value EK_RESULT_CORRECTED = ''result_corrected''"
| "event_kind_value EK_RESULT_VOIDED = ''result_voided''"
| "event_kind_value EK_RESULT_SUPERSEDED = ''result_superseded''"
| "event_kind_value EK_LIVE_RACE_SETTLED = ''live_race_settled''"
| "event_kind_value EK_ROUND_EPOCH_FROZEN = ''round_epoch_frozen''"
| "event_kind_value EK_DERIVATION_REACTION_COMPLETED = ''derivation_reaction_completed''"
| "event_kind_value EK_DERIVATION_SEQUENCE_COMPLETED = ''derivation_sequence_completed''"
| "event_kind_value EK_COMPONENT_FORECAST_COMMITTED = ''component_forecast_committed''"
| "event_kind_value EK_COMPONENT_FORECAST_REJECTED = ''component_forecast_rejected''"
| "event_kind_value EK_COUNCIL_MEMBER_COMMITTED = ''council_member_committed''"
| "event_kind_value EK_CAPABILITY_UPDATED = ''capability_updated''"
| "event_kind_value EK_CAPABILITY_STATE_REBASED = ''capability_state_rebased''"
| "event_kind_value EK_SCORE_RECORDED = ''score_recorded''"
| "event_kind_value EK_SCORE_REVERSED = ''score_reversed''"
| "event_kind_value EK_WEIGHTS_CHANGED = ''weights_changed''"
| "event_kind_value EK_FORECASTS_POOLED = ''forecasts_pooled''"
| "event_kind_value EK_DISAGREEMENT_CLASSIFIED = ''disagreement_classified''"
| "event_kind_value EK_OVERRIDE_RECORDED = ''override_recorded''"
| "event_kind_value EK_APPROVAL_DECISION_RECORDED = ''approval_decision_recorded''"
| "event_kind_value EK_FIELD_OPTIMIZED = ''field_optimized''"
| "event_kind_value EK_FIELD_RECEIPT_PREPARED = ''field_receipt_prepared''"
| "event_kind_value EK_FIELD_SUPERSEDED = ''field_superseded''"
| "event_kind_value EK_FIELD_REGENERATED = ''field_regenerated''"
| "event_kind_value EK_FIELD_ISSUED = ''field_issued''"
| "event_kind_value EK_ISSUE_BATCH_ISSUED = ''issue_batch_issued''"
| "event_kind_value EK_FIELD_SETTLED = ''field_settled''"
| "event_kind_value EK_HISTORY_IMPORTED = ''history_imported''"
| "event_kind_value EK_JOB_QUEUED = ''job_queued''"
| "event_kind_value EK_JOB_LEASED = ''job_leased''"
| "event_kind_value EK_JOB_SUCCEEDED = ''job_succeeded''"
| "event_kind_value EK_JOB_INVALID = ''job_invalid''"
| "event_kind_value EK_JOB_RETRYABLE_FAILED = ''job_retryable_failed''"
| "event_kind_value EK_JOB_REQUEUED = ''job_requeued''"
| "event_kind_value EK_JOB_STALE = ''job_stale''"
| "event_kind_value EK_JOB_PERMANENT_FAILED = ''job_permanent_failed''"
| "event_kind_value EK_JOB_CANCELLED = ''job_cancelled''"
| "event_kind_value EK_MODEL_CANDIDATE_CREATED = ''model_candidate_created''"
| "event_kind_value EK_MODEL_CANDIDATE_EVALUATED = ''model_candidate_evaluated''"
| "event_kind_value EK_AUDIT_GENERATION_CONSUMED = ''audit_generation_consumed''"
| "event_kind_value EK_BUNDLE_PROMOTED = ''bundle_promoted''"
| "event_kind_value EK_BUNDLE_ROLLED_BACK = ''bundle_rolled_back''"
| "event_kind_value EK_MONITORING_RECORDED = ''monitoring_recorded''"
| "event_kind_value EK_LIVE_SUSPENDED = ''live_suspended''"
| "event_kind_value EK_LIVE_RESUMED = ''live_resumed''"
| "event_kind_value EK_EMERGENCY_STOPPED = ''emergency_stopped''"
| "event_kind_value EK_CHECKPOINT_ANCHORED = ''checkpoint_anchored''"
| "event_kind_value EK_SERVICE_CREDENTIAL_BOOTSTRAPPED = ''service_credential_bootstrapped''"
| "event_kind_value EK_SERVICE_CREDENTIAL_ROTATED = ''service_credential_rotated''"
| "event_kind_value EK_SERVICE_CREDENTIAL_REVOKED = ''service_credential_revoked''"
| "event_kind_value EK_SERVICE_CREDENTIAL_RECOVERED = ''service_credential_recovered''"

definition event_kinds :: "event_kind list" where
  "event_kinds = [EK_TOURNAMENT_SNAPSHOT_REVISED, EK_ROUND_SNAPSHOT_REVISED, EK_FIELD_ROSTER_REVISED, EK_TOURNAMENT_CONFIGURED, EK_TOURNAMENT_OPENED, EK_TOURNAMENT_CLOSED, EK_ROUND_CONFIGURED, EK_ROUND_FROZEN, EK_ROUND_CLOSING_STARTED, EK_ROUND_CLOSED, EK_RESULT_RECORDED, EK_RESULT_CORRECTED, EK_RESULT_VOIDED, EK_RESULT_SUPERSEDED, EK_LIVE_RACE_SETTLED, EK_ROUND_EPOCH_FROZEN, EK_DERIVATION_REACTION_COMPLETED, EK_DERIVATION_SEQUENCE_COMPLETED, EK_COMPONENT_FORECAST_COMMITTED, EK_COMPONENT_FORECAST_REJECTED, EK_COUNCIL_MEMBER_COMMITTED, EK_CAPABILITY_UPDATED, EK_CAPABILITY_STATE_REBASED, EK_SCORE_RECORDED, EK_SCORE_REVERSED, EK_WEIGHTS_CHANGED, EK_FORECASTS_POOLED, EK_DISAGREEMENT_CLASSIFIED, EK_OVERRIDE_RECORDED, EK_APPROVAL_DECISION_RECORDED, EK_FIELD_OPTIMIZED, EK_FIELD_RECEIPT_PREPARED, EK_FIELD_SUPERSEDED, EK_FIELD_REGENERATED, EK_FIELD_ISSUED, EK_ISSUE_BATCH_ISSUED, EK_FIELD_SETTLED, EK_HISTORY_IMPORTED, EK_JOB_QUEUED, EK_JOB_LEASED, EK_JOB_SUCCEEDED, EK_JOB_INVALID, EK_JOB_RETRYABLE_FAILED, EK_JOB_REQUEUED, EK_JOB_STALE, EK_JOB_PERMANENT_FAILED, EK_JOB_CANCELLED, EK_MODEL_CANDIDATE_CREATED, EK_MODEL_CANDIDATE_EVALUATED, EK_AUDIT_GENERATION_CONSUMED, EK_BUNDLE_PROMOTED, EK_BUNDLE_ROLLED_BACK, EK_MONITORING_RECORDED, EK_LIVE_SUSPENDED, EK_LIVE_RESUMED, EK_EMERGENCY_STOPPED, EK_CHECKPOINT_ANCHORED, EK_SERVICE_CREDENTIAL_BOOTSTRAPPED, EK_SERVICE_CREDENTIAL_ROTATED, EK_SERVICE_CREDENTIAL_REVOKED, EK_SERVICE_CREDENTIAL_RECOVERED]"

lemma event_kinds_complete [vocabulary]: "x \<in> set event_kinds"
  by (cases x) (simp_all add: event_kinds_def)

lemma event_kind_values_distinct [vocabulary]: "distinct (map event_kind_value event_kinds)"
  by code_simp

definition parse_event_kind :: "string \<Rightarrow> event_kind option" where
  "parse_event_kind = parse_member event_kinds event_kind_value"

lemma parse_event_kind_value [simp]: "parse_event_kind (event_kind_value x) = Some x"
  by (simp add: parse_event_kind_def parse_member_value vocabulary)

lemma event_kind_value_inj [simp]: "event_kind_value x = event_kind_value y \<longleftrightarrow> x = y"
  by (metis option.inject parse_event_kind_value)

subsection \<open>CommandKind\<close>

datatype (plugins only: code size) command_kind =
    CK_REVISE_TOURNAMENT_SNAPSHOT
  | CK_REVISE_ROUND_SNAPSHOT
  | CK_REVISE_FIELD_ROSTER
  | CK_CONFIGURE_TOURNAMENT
  | CK_OPEN_TOURNAMENT
  | CK_CLOSE_TOURNAMENT
  | CK_CONFIGURE_ROUND
  | CK_FREEZE_ROUND
  | CK_BEGIN_ROUND_CLOSING
  | CK_CLOSE_ROUND
  | CK_SUPERSEDE_FIELD
  | CK_REGENERATE_FIELD
  | CK_RECORD_RESULT
  | CK_CORRECT_RESULT
  | CK_VOID_RESULT
  | CK_SUPERSEDE_AND_SETTLE_RESULT
  | CK_SETTLE_LIVE_RACE
  | CK_FREEZE_EVIDENCE_EPOCH
  | CK_COMPLETE_DERIVATION_REACTION
  | CK_COMPLETE_DERIVATION_SEQUENCE
  | CK_PREPARE_FORECAST
  | CK_COMMIT_FORECAST
  | CK_RECORD_CAPABILITY_UPDATE
  | CK_REBASE_CAPABILITY_STATE
  | CK_RECORD_SCORE
  | CK_CHANGE_WEIGHTS
  | CK_POOL_FORECASTS
  | CK_CLASSIFY_DISAGREEMENT
  | CK_APPLY_OVERRIDE
  | CK_RECORD_APPROVAL_DECISION
  | CK_OPTIMIZE_FIELD
  | CK_ACKNOWLEDGE_ISSUE
  | CK_ACKNOWLEDGE_BATCH_ISSUE
  | CK_SETTLE_FIELD
  | CK_IMPORT_HISTORY
  | CK_CREATE_MODEL_CANDIDATE
  | CK_EVALUATE_MODEL_CANDIDATE
  | CK_PROMOTE_BUNDLE
  | CK_ROLLBACK_BUNDLE
  | CK_RECORD_MONITORING
  | CK_SUSPEND_LIVE
  | CK_RESUME_LIVE
  | CK_EMERGENCY_STOP
  | CK_QUEUE_JOB
  | CK_LEASE_JOB
  | CK_SUCCEED_JOB
  | CK_INVALIDATE_JOB
  | CK_RECORD_RETRYABLE_JOB_FAILURE
  | CK_REQUEUE_JOB
  | CK_MARK_JOB_STALE
  | CK_RECORD_PERMANENT_JOB_FAILURE
  | CK_CANCEL_JOB
  | CK_BOOTSTRAP_SERVICE_CREDENTIAL
  | CK_ROTATE_SERVICE_CREDENTIAL
  | CK_REVOKE_SERVICE_CREDENTIAL
  | CK_RECOVER_SERVICE_CREDENTIAL

primrec command_kind_value :: "command_kind \<Rightarrow> string" where
  "command_kind_value CK_REVISE_TOURNAMENT_SNAPSHOT = ''revise_tournament_snapshot''"
| "command_kind_value CK_REVISE_ROUND_SNAPSHOT = ''revise_round_snapshot''"
| "command_kind_value CK_REVISE_FIELD_ROSTER = ''revise_field_roster''"
| "command_kind_value CK_CONFIGURE_TOURNAMENT = ''configure_tournament''"
| "command_kind_value CK_OPEN_TOURNAMENT = ''open_tournament''"
| "command_kind_value CK_CLOSE_TOURNAMENT = ''close_tournament''"
| "command_kind_value CK_CONFIGURE_ROUND = ''configure_round''"
| "command_kind_value CK_FREEZE_ROUND = ''freeze_round''"
| "command_kind_value CK_BEGIN_ROUND_CLOSING = ''begin_round_closing''"
| "command_kind_value CK_CLOSE_ROUND = ''close_round''"
| "command_kind_value CK_SUPERSEDE_FIELD = ''supersede_field''"
| "command_kind_value CK_REGENERATE_FIELD = ''regenerate_field''"
| "command_kind_value CK_RECORD_RESULT = ''record_result''"
| "command_kind_value CK_CORRECT_RESULT = ''correct_result''"
| "command_kind_value CK_VOID_RESULT = ''void_result''"
| "command_kind_value CK_SUPERSEDE_AND_SETTLE_RESULT = ''supersede_and_settle_result''"
| "command_kind_value CK_SETTLE_LIVE_RACE = ''settle_live_race''"
| "command_kind_value CK_FREEZE_EVIDENCE_EPOCH = ''freeze_evidence_epoch''"
| "command_kind_value CK_COMPLETE_DERIVATION_REACTION = ''complete_derivation_reaction''"
| "command_kind_value CK_COMPLETE_DERIVATION_SEQUENCE = ''complete_derivation_sequence''"
| "command_kind_value CK_PREPARE_FORECAST = ''prepare_forecast''"
| "command_kind_value CK_COMMIT_FORECAST = ''commit_forecast''"
| "command_kind_value CK_RECORD_CAPABILITY_UPDATE = ''record_capability_update''"
| "command_kind_value CK_REBASE_CAPABILITY_STATE = ''rebase_capability_state''"
| "command_kind_value CK_RECORD_SCORE = ''record_score''"
| "command_kind_value CK_CHANGE_WEIGHTS = ''change_weights''"
| "command_kind_value CK_POOL_FORECASTS = ''pool_forecasts''"
| "command_kind_value CK_CLASSIFY_DISAGREEMENT = ''classify_disagreement''"
| "command_kind_value CK_APPLY_OVERRIDE = ''apply_override''"
| "command_kind_value CK_RECORD_APPROVAL_DECISION = ''record_approval_decision''"
| "command_kind_value CK_OPTIMIZE_FIELD = ''optimize_field''"
| "command_kind_value CK_ACKNOWLEDGE_ISSUE = ''acknowledge_issue''"
| "command_kind_value CK_ACKNOWLEDGE_BATCH_ISSUE = ''acknowledge_batch_issue''"
| "command_kind_value CK_SETTLE_FIELD = ''settle_field''"
| "command_kind_value CK_IMPORT_HISTORY = ''import_history''"
| "command_kind_value CK_CREATE_MODEL_CANDIDATE = ''create_model_candidate''"
| "command_kind_value CK_EVALUATE_MODEL_CANDIDATE = ''evaluate_model_candidate''"
| "command_kind_value CK_PROMOTE_BUNDLE = ''promote_bundle''"
| "command_kind_value CK_ROLLBACK_BUNDLE = ''rollback_bundle''"
| "command_kind_value CK_RECORD_MONITORING = ''record_monitoring''"
| "command_kind_value CK_SUSPEND_LIVE = ''suspend_live''"
| "command_kind_value CK_RESUME_LIVE = ''resume_live''"
| "command_kind_value CK_EMERGENCY_STOP = ''emergency_stop''"
| "command_kind_value CK_QUEUE_JOB = ''queue_job''"
| "command_kind_value CK_LEASE_JOB = ''lease_job''"
| "command_kind_value CK_SUCCEED_JOB = ''succeed_job''"
| "command_kind_value CK_INVALIDATE_JOB = ''invalidate_job''"
| "command_kind_value CK_RECORD_RETRYABLE_JOB_FAILURE = ''record_retryable_job_failure''"
| "command_kind_value CK_REQUEUE_JOB = ''requeue_job''"
| "command_kind_value CK_MARK_JOB_STALE = ''mark_job_stale''"
| "command_kind_value CK_RECORD_PERMANENT_JOB_FAILURE = ''record_permanent_job_failure''"
| "command_kind_value CK_CANCEL_JOB = ''cancel_job''"
| "command_kind_value CK_BOOTSTRAP_SERVICE_CREDENTIAL = ''bootstrap_service_credential''"
| "command_kind_value CK_ROTATE_SERVICE_CREDENTIAL = ''rotate_service_credential''"
| "command_kind_value CK_REVOKE_SERVICE_CREDENTIAL = ''revoke_service_credential''"
| "command_kind_value CK_RECOVER_SERVICE_CREDENTIAL = ''recover_service_credential''"

definition command_kinds :: "command_kind list" where
  "command_kinds = [CK_REVISE_TOURNAMENT_SNAPSHOT, CK_REVISE_ROUND_SNAPSHOT, CK_REVISE_FIELD_ROSTER, CK_CONFIGURE_TOURNAMENT, CK_OPEN_TOURNAMENT, CK_CLOSE_TOURNAMENT, CK_CONFIGURE_ROUND, CK_FREEZE_ROUND, CK_BEGIN_ROUND_CLOSING, CK_CLOSE_ROUND, CK_SUPERSEDE_FIELD, CK_REGENERATE_FIELD, CK_RECORD_RESULT, CK_CORRECT_RESULT, CK_VOID_RESULT, CK_SUPERSEDE_AND_SETTLE_RESULT, CK_SETTLE_LIVE_RACE, CK_FREEZE_EVIDENCE_EPOCH, CK_COMPLETE_DERIVATION_REACTION, CK_COMPLETE_DERIVATION_SEQUENCE, CK_PREPARE_FORECAST, CK_COMMIT_FORECAST, CK_RECORD_CAPABILITY_UPDATE, CK_REBASE_CAPABILITY_STATE, CK_RECORD_SCORE, CK_CHANGE_WEIGHTS, CK_POOL_FORECASTS, CK_CLASSIFY_DISAGREEMENT, CK_APPLY_OVERRIDE, CK_RECORD_APPROVAL_DECISION, CK_OPTIMIZE_FIELD, CK_ACKNOWLEDGE_ISSUE, CK_ACKNOWLEDGE_BATCH_ISSUE, CK_SETTLE_FIELD, CK_IMPORT_HISTORY, CK_CREATE_MODEL_CANDIDATE, CK_EVALUATE_MODEL_CANDIDATE, CK_PROMOTE_BUNDLE, CK_ROLLBACK_BUNDLE, CK_RECORD_MONITORING, CK_SUSPEND_LIVE, CK_RESUME_LIVE, CK_EMERGENCY_STOP, CK_QUEUE_JOB, CK_LEASE_JOB, CK_SUCCEED_JOB, CK_INVALIDATE_JOB, CK_RECORD_RETRYABLE_JOB_FAILURE, CK_REQUEUE_JOB, CK_MARK_JOB_STALE, CK_RECORD_PERMANENT_JOB_FAILURE, CK_CANCEL_JOB, CK_BOOTSTRAP_SERVICE_CREDENTIAL, CK_ROTATE_SERVICE_CREDENTIAL, CK_REVOKE_SERVICE_CREDENTIAL, CK_RECOVER_SERVICE_CREDENTIAL]"

lemma command_kinds_complete [vocabulary]: "x \<in> set command_kinds"
  by (cases x) (simp_all add: command_kinds_def)

lemma command_kind_values_distinct [vocabulary]: "distinct (map command_kind_value command_kinds)"
  by code_simp

definition parse_command_kind :: "string \<Rightarrow> command_kind option" where
  "parse_command_kind = parse_member command_kinds command_kind_value"

lemma parse_command_kind_value [simp]: "parse_command_kind (command_kind_value x) = Some x"
  by (simp add: parse_command_kind_def parse_member_value vocabulary)

lemma command_kind_value_inj [simp]: "command_kind_value x = command_kind_value y \<longleftrightarrow> x = y"
  by (metis option.inject parse_command_kind_value)

end
