(* ===== verification/Values.thy ===== *)
theory Values
  imports Complex_Main Vocabulary
begin

section \<open>Python values that cross the contract boundary\<close>

text \<open>
  The value language of the V3 contracts: what \<open>to_dict\<close> returns, what \<open>from_dict\<close> and
  \<open>canonical_bytes\<close> receive. A \<open>str\<close> is a list of characters whose code points lie between
  0 and 255 (one \<open>char\<close> is one code point), where \<open>unicodedata.normalize("NFC", s)\<close> is the
  identity. A mapping is its items in insertion order. A \<open>bool\<close> is kept apart from an \<open>int\<close>,
  as every check of the code keeps it.

  The exceptions are those of \<open>contracts/errors.py\<close>, with their messages; the classes are
  all subclasses of \<open>ContractError\<close>.
\<close>

datatype v3_error =
    ContractError string
  | CanonicalTypeError string
  | CanonicalNumberError string
  | CanonicalBoundsError string
  | IdentifierError string

text \<open>
  \<open>decimal.Decimal\<close>: sign, coefficient and exponent of \<open>as_tuple()\<close> (the digits of the
  coefficient carry no leading zero), or a non-finite value.
\<close>

datatype pydec = Dec bool nat int | DecSpecial

datatype py =
    PNone
  | PBool bool
  | PInt int
  | PDec pydec
  | PFloat "pydec option" \<comment> \<open>\<open>Decimal(str(x))\<close> of a finite float, \<open>None\<close> for a non-finite one\<close>
  | PStr string
  | PSeq "py list"
  | PMap "(py \<times> py) list"
  | POther string \<comment> \<open>a value of any other type, by the name of its type\<close>

definition obj :: "(string \<times> py) list \<Rightarrow> py" where
  "obj kvs = PMap (map (\<lambda>(k, v). (PStr k, v)) kvs)"

text \<open>\<open>value[k]\<close> after \<open>_require_fields\<close> has checked that the key is there.\<close>

definition fld :: "py \<Rightarrow> string \<Rightarrow> py" where
  "fld v k = (case v of PMap kvs \<Rightarrow> (case map_of kvs (PStr k) of Some x \<Rightarrow> x | None \<Rightarrow> PNone) | _ \<Rightarrow> PNone)"

definition fields_are :: "py \<Rightarrow> string list \<Rightarrow> bool" where
  "fields_are v expected = (case v of PMap kvs \<Rightarrow> set (map fst kvs) = set (map PStr expected) | _ \<Rightarrow> False)"

lemma fields_are_obj [simp]: "fields_are (obj kvs) ks \<longleftrightarrow> set (map fst kvs) = set ks"
proof -
  have "set (map fst (map (\<lambda>(k, v). (PStr k, v)) kvs)) = PStr ` set (map fst kvs)"
    by (induction kvs) auto
  moreover have "inj PStr" by (simp add: inj_def)
  ultimately show ?thesis by (simp add: fields_are_def obj_def inj_image_eq_iff)
qed

lemma map_of_obj: "map_of (map (\<lambda>(k, v). (PStr k, v)) kvs) (PStr k) = map_of kvs k"
  by (induction kvs) auto

lemma fld_obj [simp]: "fld (obj kvs) k = (case map_of kvs k of Some x \<Rightarrow> x | None \<Rightarrow> PNone)"
  by (simp add: fld_def obj_def map_of_obj)

subsection \<open>Integer checks shared by the contracts\<close>

text \<open>\<open>_require_fields\<close>, \<open>_require_schema\<close>, \<open>_require_positive_int\<close> and
  \<open>_require_nonnegative_int\<close> of \<open>contracts/statuses.py\<close>.\<close>

definition require_fields :: "py \<Rightarrow> string list \<Rightarrow> v3_error + unit" where
  "require_fields v expected = guards
     [(\<not> fields_are v expected, ContractError ''contract fields are missing, unknown, or extra'')]"

definition require_schema :: "py \<Rightarrow> string \<Rightarrow> v3_error + unit" where
  "require_schema actual expected = guards
     [(actual \<noteq> PStr expected, ContractError (''unsupported schema version; expected '' @ expected))]"

definition require_positive_int :: "py \<Rightarrow> string \<Rightarrow> v3_error + int" where
  "require_positive_int v label =
     (case v of PInt n \<Rightarrow> if n \<le> 0 then Inl (ContractError (label @ '' must be a positive integer'')) else Inr n
      | _ \<Rightarrow> Inl (ContractError (label @ '' must be a positive integer'')))"

definition require_nonnegative_int :: "py \<Rightarrow> string \<Rightarrow> v3_error + int" where
  "require_nonnegative_int v label =
     (case v of PInt n \<Rightarrow> if n < 0 then Inl (ContractError (label @ '' must be a non-negative integer'')) else Inr n
      | _ \<Rightarrow> Inl (ContractError (label @ '' must be a non-negative integer'')))"

lemma require_positive_int_Inr [result_simps]:
  "require_positive_int v l = Inr n \<longleftrightarrow> v = PInt n \<and> 0 < n"
  by (auto simp: require_positive_int_def split: py.splits if_splits)

lemma require_nonnegative_int_Inr [result_simps]:
  "require_nonnegative_int v l = Inr n \<longleftrightarrow> v = PInt n \<and> 0 \<le> n"
  by (auto simp: require_nonnegative_int_def split: py.splits if_splits)

lemma require_fields_Inr [result_simps]: "require_fields v ks = Inr u \<longleftrightarrow> fields_are v ks"
  by (simp add: require_fields_def)

lemma require_schema_Inr [result_simps]: "require_schema v s = Inr u \<longleftrightarrow> v = PStr s"
  by (simp add: require_schema_def)

text \<open>\<open>None\<close> or an integer, the fields typed \<open>int | None\<close>.\<close>

definition opt_int :: "int option \<Rightarrow> py" where
  "opt_int x = (case x of None \<Rightarrow> PNone | Some n \<Rightarrow> PInt n)"

definition opt_str :: "string option \<Rightarrow> py" where
  "opt_str x = (case x of None \<Rightarrow> PNone | Some s \<Rightarrow> PStr s)"

lemma opt_int_eq [simp]:
  "opt_int x = PNone \<longleftrightarrow> x = None" "opt_int x = PInt n \<longleftrightarrow> x = Some n"
  "opt_int x = opt_int y \<longleftrightarrow> x = y"
  by (auto simp: opt_int_def split: option.splits)

lemma opt_str_eq [simp]:
  "opt_str x = PNone \<longleftrightarrow> x = None" "opt_str x = PStr s \<longleftrightarrow> x = Some s"
  "opt_str x = opt_str y \<longleftrightarrow> x = y"
  by (auto simp: opt_str_def split: option.splits)

subsection \<open>Patterns over characters\<close>

text \<open>The character classes the contracts' regular expressions are built from.\<close>

definition is_lower :: "char \<Rightarrow> bool" where
  "is_lower c \<longleftrightarrow> CHR ''a'' \<le> c \<and> c \<le> CHR ''z''"

definition is_upper :: "char \<Rightarrow> bool" where
  "is_upper c \<longleftrightarrow> CHR ''A'' \<le> c \<and> c \<le> CHR ''Z''"

definition is_digit :: "char \<Rightarrow> bool" where
  "is_digit c \<longleftrightarrow> CHR ''0'' \<le> c \<and> c \<le> CHR ''9''"

definition is_alnum :: "char \<Rightarrow> bool" where
  "is_alnum c \<longleftrightarrow> is_lower c \<or> is_upper c \<or> is_digit c"

text \<open>\<open>^[first][rest]{0,n}$\<close> with \<open>fullmatch\<close>.\<close>

definition head_tail_pattern :: "(char \<Rightarrow> bool) \<Rightarrow> (char \<Rightarrow> bool) \<Rightarrow> nat \<Rightarrow> string \<Rightarrow> bool" where
  "head_tail_pattern first rest n s =
     (case s of [] \<Rightarrow> False | c # cs \<Rightarrow> first c \<and> list_all rest cs \<and> length cs \<le> n)"

text \<open>\<open>^[0-9a-f]{64}$\<close>: a lower-case SHA-256 digest (\<open>_require_digest\<close>).\<close>

definition is_digest :: "string \<Rightarrow> bool" where
  "is_digest s \<longleftrightarrow> length s = 64 \<and> list_all (\<lambda>c. c \<in> set ''0123456789abcdef'') s"

definition zero_digest :: string where
  "zero_digest = replicate 64 (CHR ''0'')"

lemma zero_digest_is_digest [simp]: "is_digest zero_digest"
  by (simp add: is_digest_def zero_digest_def list_all_iff)

end
