(* ===== verification/Statuses.thy ===== *)
theory Statuses
  imports Values
begin

section \<open>Official results and the status lifecycle (contracts/statuses.py)\<close>

text \<open>
  One immutable official result revision, its validation, its canonical dictionary and the one
  rule that admits a raw time as evidence; then the table of lifecycle statuses and the
  \<open>AggregateLifecycle\<close> value that walks it.
\<close>

subsection \<open>Official results\<close>

definition status_schema_version :: string where
  "status_schema_version = ''strathmark-v3-official-result-v1''"

record official_result =
  or_status :: result_status
  raw_time_ms :: "int option"
  penalty_ms :: "int option"
  revision :: int
  supersedes_revision :: "int option"

text \<open>An optional integer field: \<open>None\<close>, or a checked positive integer.\<close>

definition optional_positive :: "py \<Rightarrow> string \<Rightarrow> v3_error + int option" where
  "optional_positive v label =
     (if v = PNone then Inr None else map_res Some (require_positive_int v label))"

text \<open>\<open>OfficialResult.__post_init__\<close>.\<close>

definition mk_official_result :: "result_status \<Rightarrow> py \<Rightarrow> py \<Rightarrow> py \<Rightarrow> py \<Rightarrow> v3_error + official_result" where
  "mk_official_result st raw pen rv sp =
     bind_res (require_positive_int rv ''revision'') (\<lambda>r.
     bind_res (guards [(r = 1 \<and> sp \<noteq> PNone,
       ContractError ''revision 1 cannot supersede an earlier revision'')]) (\<lambda>_.
     bind_res (optional_positive sp ''supersedes_revision'') (\<lambda>s.
     bind_res (guards [(case s of None \<Rightarrow> False | Some n \<Rightarrow> n \<ge> r,
       ContractError ''supersedes_revision must be lower than revision'')]) (\<lambda>_.
     if st = RS_COMPLETION then
       bind_res (require_positive_int raw ''raw_time_ms'') (\<lambda>t.
       bind_res (guards [(pen \<noteq> PNone,
         ContractError ''penalty_ms is only valid for penalty status'')]) (\<lambda>_.
       Inr \<lparr>or_status = st, raw_time_ms = Some t, penalty_ms = None,
            revision = r, supersedes_revision = s\<rparr>))
     else if st = RS_PENALTY then
       bind_res (require_positive_int raw ''raw_time_ms'') (\<lambda>t.
       bind_res (require_positive_int pen ''penalty_ms'') (\<lambda>p.
       Inr \<lparr>or_status = st, raw_time_ms = Some t, penalty_ms = Some p,
            revision = r, supersedes_revision = s\<rparr>))
     else
       bind_res (guards
         [(raw \<noteq> PNone, ContractError (''raw_time_ms must be absent for '' @ result_status_value st)),
          (pen \<noteq> PNone, ContractError ''penalty_ms is only valid for penalty status'')]) (\<lambda>_.
       Inr \<lparr>or_status = st, raw_time_ms = None, penalty_ms = None,
            revision = r, supersedes_revision = s\<rparr>)))))"

definition official_result_to_dict :: "official_result \<Rightarrow> py" where
  "official_result_to_dict r = obj
     [(''schema_version'', PStr status_schema_version),
      (''status'', PStr (result_status_value (or_status r))),
      (''raw_time_ms'', opt_int (raw_time_ms r)),
      (''penalty_ms'', opt_int (penalty_ms r)),
      (''revision'', PInt (revision r)),
      (''supersedes_revision'', opt_int (supersedes_revision r))]"

definition parse_status_field :: "py \<Rightarrow> result_status option" where
  "parse_status_field v = (case v of PStr s \<Rightarrow> parse_result_status s | _ \<Rightarrow> None)"

definition official_result_from_dict :: "py \<Rightarrow> v3_error + official_result" where
  "official_result_from_dict v =
     bind_res (require_fields v [''schema_version'', ''status'', ''raw_time_ms'', ''penalty_ms'',
       ''revision'', ''supersedes_revision'']) (\<lambda>_.
     bind_res (require_schema (fld v ''schema_version'') status_schema_version) (\<lambda>_.
     bind_res (of_option (ContractError ''unknown official result status code'')
       (parse_status_field (fld v ''status''))) (\<lambda>st.
     mk_official_result st (fld v ''raw_time_ms'') (fld v ''penalty_ms'') (fld v ''revision'')
       (fld v ''supersedes_revision''))))"

text \<open>The contract a constructed result satisfies.\<close>

definition or_wf :: "official_result \<Rightarrow> bool" where
  "or_wf r \<longleftrightarrow> 0 < revision r
     \<and> (revision r = 1 \<longrightarrow> supersedes_revision r = None)
     \<and> (\<forall>s. supersedes_revision r = Some s \<longrightarrow> 0 < s \<and> s < revision r)
     \<and> (case or_status r of
          RS_COMPLETION \<Rightarrow> (\<exists>t > 0. raw_time_ms r = Some t) \<and> penalty_ms r = None
        | RS_PENALTY \<Rightarrow> (\<exists>t > 0. raw_time_ms r = Some t) \<and> (\<exists>p > 0. penalty_ms r = Some p)
        | _ \<Rightarrow> raw_time_ms r = None \<and> penalty_ms r = None)"

lemma optional_positive_Inr [result_simps]:
  "optional_positive v l = Inr x \<longleftrightarrow> (v = PNone \<and> x = None) \<or> (\<exists>n > 0. v = PInt n \<and> x = Some n)"
  by (auto simp: optional_positive_def result_simps)

lemma mk_official_result_wf: "mk_official_result st raw pen rv sp = Inr r \<Longrightarrow> or_wf r"
  by (auto simp: mk_official_result_def or_wf_def result_simps
      split: if_splits result_status.splits option.splits)

lemma mk_official_result_args:
  "mk_official_result st raw pen rv sp = Inr r \<Longrightarrow>
     st = or_status r \<and> raw = opt_int (raw_time_ms r) \<and> pen = opt_int (penalty_ms r)
     \<and> rv = PInt (revision r) \<and> sp = opt_int (supersedes_revision r)"
  by (auto simp: mk_official_result_def result_simps opt_int_def split: if_splits option.splits)

lemma mk_official_result_complete:
  assumes "or_wf r"
  shows "mk_official_result (or_status r) (opt_int (raw_time_ms r)) (opt_int (penalty_ms r))
    (PInt (revision r)) (opt_int (supersedes_revision r)) = Inr r"
  using assms
  by (cases r; cases "or_status r")
     (auto simp: mk_official_result_def or_wf_def optional_positive_def require_positive_int_def
        opt_int_def split: option.splits)

text \<open>The dictionary form is faithful: exactly the results that satisfy the contract survive
  \<open>from_dict(to_dict(r))\<close>, and they survive unchanged.\<close>

theorem official_result_roundtrip:
  "official_result_from_dict (official_result_to_dict r) = Inr r \<longleftrightarrow> or_wf r"
proof
  assume "official_result_from_dict (official_result_to_dict r) = Inr r"
  then show "or_wf r"
    by (auto simp: official_result_from_dict_def result_simps dest: mk_official_result_wf)
next
  assume "or_wf r"
  then show "official_result_from_dict (official_result_to_dict r) = Inr r"
    by (auto simp: official_result_from_dict_def official_result_to_dict_def parse_status_field_def
        require_fields_def require_schema_def mk_official_result_complete)
qed

subsection \<open>Admission of a raw completion\<close>

record admitted_completion =
  ac_raw_time_ms :: int
  ac_source_revision :: int

definition admit_raw_completion :: "official_result \<Rightarrow> admitted_completion option" where
  "admit_raw_completion r =
     (if or_status r \<noteq> RS_COMPLETION then None
      else (case raw_time_ms r of None \<Rightarrow> None
            | Some t \<Rightarrow> Some \<lparr>ac_raw_time_ms = t, ac_source_revision = revision r\<rparr>))"

lemma admit_raw_completion_wf:
  "or_wf r \<Longrightarrow> admit_raw_completion r = (if or_status r = RS_COMPLETION
     then Some \<lparr>ac_raw_time_ms = the (raw_time_ms r), ac_source_revision = revision r\<rparr> else None)"
  by (auto simp: admit_raw_completion_def or_wf_def)

lemma admit_raw_completion_Some:
  "admit_raw_completion r = Some a \<longleftrightarrow> or_status r = RS_COMPLETION
     \<and> raw_time_ms r = Some (ac_raw_time_ms a) \<and> ac_source_revision a = revision r"
  by (cases a) (auto simp: admit_raw_completion_def split: option.splits if_splits)

subsection \<open>The status lifecycle table\<close>

primrec lifecycle_transitions :: "lifecycle_status \<Rightarrow> lifecycle_status list" where
  "lifecycle_transitions LS_TOURNAMENT_INGRESS_CURRENT = [LS_TOURNAMENT_INGRESS_CURRENT]"
| "lifecycle_transitions LS_ROUND_INGRESS_CURRENT = [LS_ROUND_INGRESS_CURRENT]"
| "lifecycle_transitions LS_FIELD_INGRESS_CURRENT = [LS_FIELD_INGRESS_CURRENT]"
| "lifecycle_transitions LS_RESULT_ACTIVE = [LS_RESULT_ACTIVE]"
| "lifecycle_transitions LS_SETTLEMENT_RECORDED = []"
| "lifecycle_transitions LS_EPOCH_FROZEN = []"
| "lifecycle_transitions LS_REACTION_COMPLETED = []"
| "lifecycle_transitions LS_DERIVATION_COMPLETED = []"
| "lifecycle_transitions LS_TOURNAMENT_CONFIGURED = [LS_TOURNAMENT_OPEN]"
| "lifecycle_transitions LS_TOURNAMENT_OPEN = [LS_TOURNAMENT_CLOSED]"
| "lifecycle_transitions LS_TOURNAMENT_CLOSED = []"
| "lifecycle_transitions LS_ROUND_CONFIGURED = [LS_ROUND_FROZEN]"
| "lifecycle_transitions LS_ROUND_FROZEN = [LS_ROUND_CLOSING]"
| "lifecycle_transitions LS_ROUND_CLOSING = [LS_ROUND_CLOSED]"
| "lifecycle_transitions LS_ROUND_CLOSED = []"
| "lifecycle_transitions LS_FIELD_PREPARED = [LS_FIELD_ISSUED, LS_FIELD_SUPERSEDED]"
| "lifecycle_transitions LS_FIELD_SUPERSEDED = [LS_FIELD_PREPARED]"
| "lifecycle_transitions LS_FIELD_ISSUED = [LS_FIELD_SETTLED]"
| "lifecycle_transitions LS_FIELD_SETTLED = []"
| "lifecycle_transitions LS_JOB_QUEUED = [LS_JOB_LEASED, LS_JOB_CANCELLED]"
| "lifecycle_transitions LS_JOB_LEASED = [LS_JOB_SUCCEEDED, LS_JOB_INVALID, LS_JOB_RETRYABLE_FAILED, LS_JOB_STALE, LS_JOB_PERMANENT_FAILED]"
| "lifecycle_transitions LS_JOB_RETRYABLE_FAILED = [LS_JOB_QUEUED]"
| "lifecycle_transitions LS_JOB_SUCCEEDED = []"
| "lifecycle_transitions LS_JOB_INVALID = []"
| "lifecycle_transitions LS_JOB_STALE = []"
| "lifecycle_transitions LS_JOB_PERMANENT_FAILED = []"
| "lifecycle_transitions LS_JOB_CANCELLED = []"
| "lifecycle_transitions LS_BUNDLE_CANDIDATE = [LS_BUNDLE_EVALUATED]"
| "lifecycle_transitions LS_BUNDLE_EVALUATED = [LS_BUNDLE_PROMOTED]"
| "lifecycle_transitions LS_BUNDLE_PROMOTED = [LS_BUNDLE_ROLLED_BACK]"
| "lifecycle_transitions LS_BUNDLE_ROLLED_BACK = []"
| "lifecycle_transitions LS_AUDIT_GENERATION_CONSUMED = []"
| "lifecycle_transitions LS_MONITORING_RECORDED = []"
| "lifecycle_transitions LS_ISSUE_BATCH_ISSUED = []"
| "lifecycle_transitions LS_COMPETITOR_CAPABILITY_CURRENT = [LS_COMPETITOR_CAPABILITY_CURRENT]"
| "lifecycle_transitions LS_FORECAST_CURRENT = []"
| "lifecycle_transitions LS_SCORE_CURRENT = [LS_SCORE_REVERSED]"
| "lifecycle_transitions LS_SCORE_REVERSED = []"
| "lifecycle_transitions LS_WEIGHTS_CURRENT = [LS_WEIGHTS_CURRENT]"
| "lifecycle_transitions LS_APPROVAL_DECISION_RECORDED = []"
| "lifecycle_transitions LS_SERVICE_CREDENTIAL_ACTIVE = [LS_SERVICE_CREDENTIAL_ACTIVE]"

record aggregate_lifecycle =
  al_kind :: lifecycle_aggregate_kind
  al_status :: lifecycle_status

text \<open>\<open>status.value.startswith(f"{kind.value}_")\<close>.\<close>

definition status_belongs :: "string \<Rightarrow> lifecycle_status \<Rightarrow> bool" where
  "status_belongs kind_value st \<longleftrightarrow> prefix (kind_value @ ''_'') (lifecycle_status_value st)"

definition mk_aggregate_lifecycle ::
    "lifecycle_aggregate_kind \<Rightarrow> lifecycle_status \<Rightarrow> v3_error + aggregate_lifecycle" where
  "mk_aggregate_lifecycle k st =
     bind_res (guards [(\<not> status_belongs (lifecycle_aggregate_kind_value k) st,
       ContractError ''lifecycle status does not belong to aggregate kind'')]) (\<lambda>_.
     Inr \<lparr>al_kind = k, al_status = st\<rparr>)"

definition transition_to :: "aggregate_lifecycle \<Rightarrow> lifecycle_status \<Rightarrow> v3_error + aggregate_lifecycle" where
  "transition_to a nxt =
     (if nxt \<notin> set (lifecycle_transitions (al_status a))
      then Inl (ContractError (''illegal lifecycle transition '' @ lifecycle_status_value (al_status a)
        @ '' -> '' @ lifecycle_status_value nxt))
      else mk_aggregate_lifecycle (al_kind a) nxt)"

definition lifecycle_schema_version :: string where
  "lifecycle_schema_version = ''strathmark-v3-aggregate-lifecycle-v1''"

definition aggregate_lifecycle_to_dict :: "aggregate_lifecycle \<Rightarrow> py" where
  "aggregate_lifecycle_to_dict a = obj
     [(''schema_version'', PStr lifecycle_schema_version),
      (''aggregate_kind'', PStr (lifecycle_aggregate_kind_value (al_kind a))),
      (''status'', PStr (lifecycle_status_value (al_status a)))]"

definition aggregate_lifecycle_from_dict :: "py \<Rightarrow> v3_error + aggregate_lifecycle" where
  "aggregate_lifecycle_from_dict v =
     bind_res (require_fields v [''schema_version'', ''aggregate_kind'', ''status'']) (\<lambda>_.
     bind_res (require_schema (fld v ''schema_version'') lifecycle_schema_version) (\<lambda>_.
     (case (fld v ''aggregate_kind'', fld v ''status'') of
        (PStr k, PStr s) \<Rightarrow>
          (case (parse_lifecycle_aggregate_kind k, parse_lifecycle_status s) of
             (Some k', Some s') \<Rightarrow> mk_aggregate_lifecycle k' s'
           | _ \<Rightarrow> Inl (ContractError ''unknown aggregate lifecycle kind or status''))
      | _ \<Rightarrow> Inl (ContractError ''unknown aggregate lifecycle kind or status''))))"

end
