(* ===== verification/Digest.thy ===== *)
theory Digest
  imports Values "HOL-Library.Word"
begin

unbundle bit_operations_syntax

section \<open>Bytes, UTF-8 and SHA-256\<close>

text \<open>
  The parts of the Python standard library the contracts hash with: \<open>str.encode("utf-8")\<close> on the
  code points of the model (0 to 255) and \<open>hashlib.sha256(b).hexdigest()\<close> as FIPS 180-4 defines
  it, over 32-bit words. Nothing in the development relies on more than that the digest is a
  function into lower-case 64-digit hexadecimal strings (locale \<open>digest_function\<close>); where equal
  digests have to mean equal contents, the statements name the two byte strings that would have
  to collide.
\<close>

type_synonym bytes = "8 word list"

subsection \<open>UTF-8\<close>

definition utf8_char :: "char \<Rightarrow> bytes" where
  "utf8_char c = (let n = (of_char c :: nat) in
     if n < 128 then [word_of_nat n]
     else [word_of_nat (192 + n div 64), word_of_nat (128 + n mod 64)])"

definition utf8 :: "string \<Rightarrow> bytes" where
  "utf8 s = concat (map utf8_char s)"

lemma utf8_char_nonempty [simp]: "utf8_char c \<noteq> []"
  by (simp add: utf8_char_def Let_def)

lemma byte_of_nat_eq: "m < 256 \<Longrightarrow> n < 256 \<Longrightarrow> (word_of_nat m :: 8 word) = word_of_nat n \<longleftrightarrow> m = n"
  by (simp add: word_of_nat_eq_iff take_bit_eq_mod)

lemma two_byte_eq:
  assumes "(m::nat) < 256" "(n::nat) < 256" "m div 64 = n div 64" "m mod 64 = n mod 64"
  shows "m = n"
  using assms by (metis div_mod_decomp)

lemma utf8_char_prefix_free:
  assumes "utf8_char c @ xs = utf8_char d @ ys"
  shows "c = d \<and> xs = ys"
proof -
  define m where "m = (of_char c :: nat)"
  define n where "n = (of_char d :: nat)"
  have mn: "m < 256" "n < 256" by (simp_all add: m_def n_def)
  have q: "m div 64 < 4" "n div 64 < 4" "m mod 64 < 64" "n mod 64 < 64" using mn by auto
  have "m = n \<and> xs = ys"
  proof (cases "m < 128"; cases "n < 128")
    assume "m < 128" "n < 128"
    then show ?thesis using assms mn by (simp add: utf8_char_def m_def [symmetric] n_def [symmetric] byte_of_nat_eq)
  next
    assume "m < 128" "\<not> n < 128"
    then show ?thesis using assms mn q
      by (simp add: utf8_char_def m_def [symmetric] n_def [symmetric] byte_of_nat_eq del: of_nat_add)
  next
    assume "\<not> m < 128" "n < 128"
    then show ?thesis using assms mn q
      by (simp add: utf8_char_def m_def [symmetric] n_def [symmetric] byte_of_nat_eq del: of_nat_add)
  next
    assume "\<not> m < 128" "\<not> n < 128"
    then have "192 + m div 64 = 192 + n div 64 \<and> 128 + m mod 64 = 128 + n mod 64 \<and> xs = ys"
      using assms mn q
      by (simp add: utf8_char_def m_def [symmetric] n_def [symmetric] byte_of_nat_eq del: of_nat_add)
    then show ?thesis using two_byte_eq [OF mn] by simp
  qed
  then show ?thesis by (simp add: m_def n_def)
qed

lemma utf8_inj: "utf8 s = utf8 t \<longleftrightarrow> s = t"
proof (induction s arbitrary: t)
  case Nil
  then show ?case by (cases t) (auto simp: utf8_def)
next
  case (Cons c s)
  show ?case
  proof (cases t)
    case Nil
    then show ?thesis by (simp add: utf8_def)
  next
    case (Cons d t')
    then show ?thesis using Cons.IH [of t'] utf8_char_prefix_free [of c "utf8 s" d "utf8 t'"]
      by (auto simp: utf8_def)
  qed
qed

lemma utf8_length: "length s \<le> length (utf8 s)"
  by (induction s) (auto simp: utf8_def utf8_char_def Let_def)

subsection \<open>SHA-256\<close>

definition sha_k :: "32 word list" where
  "sha_k =
   [1116352408, 1899447441, 3049323471, 3921009573, 961987163, 1508970993, 2453635748, 2870763221,
    3624381080, 310598401, 607225278, 1426881987, 1925078388, 2162078206, 2614888103, 3248222580,
    3835390401, 4022224774, 264347078, 604807628, 770255983, 1249150122, 1555081692, 1996064986,
    2554220882, 2821834349, 2952996808, 3210313671, 3336571891, 3584528711, 113926993, 338241895,
    666307205, 773529912, 1294757372, 1396182291, 1695183700, 1986661051, 2177026350, 2456956037,
    2730485921, 2820302411, 3259730800, 3345764771, 3516065817, 3600352804, 4094571909, 275423344,
    430227734, 506948616, 659060556, 883997877, 958139571, 1322822218, 1537002063, 1747873779,
    1955562222, 2024104815, 2227730452, 2361852424, 2428436474, 2756734187, 3204031479, 3329325298]"

definition sha_init :: "32 word list" where
  "sha_init =
   [1779033703, 3144134277, 1013904242, 2773480762, 1359893119, 2600822924, 528734635, 1541459225]"

definition rotr32 :: "nat \<Rightarrow> 32 word \<Rightarrow> 32 word" where
  "rotr32 n x = drop_bit n x OR push_bit (32 - n) x"

text \<open>Padding: a one bit, zeros up to 56 modulo 64 bytes, the length in bits as eight bytes.\<close>

definition sha_pad :: "bytes \<Rightarrow> bytes" where
  "sha_pad b = b @ [0x80] @ replicate ((119 - length b mod 64) mod 64) 0
     @ map (\<lambda>i. word_of_nat (8 * length b div 256 ^ (7 - i))) [0..<8]"

fun sha_words :: "bytes \<Rightarrow> 32 word list" where
  "sha_words (a # b # c # d # bs) =
     (push_bit 24 (ucast a) OR push_bit 16 (ucast b) OR push_bit 8 (ucast c) OR ucast d) # sha_words bs"
| "sha_words _ = []"

text \<open>The message schedule, kept with the newest word first.\<close>

fun sha_schedule :: "nat \<Rightarrow> 32 word list \<Rightarrow> 32 word list" where
  "sha_schedule 0 ws = rev ws"
| "sha_schedule (Suc n) ws =
     (let w2 = ws ! 1; w7 = ws ! 6; w15 = ws ! 14; w16 = ws ! 15;
          s0 = rotr32 7 w15 XOR rotr32 18 w15 XOR drop_bit 3 w15;
          s1 = rotr32 17 w2 XOR rotr32 19 w2 XOR drop_bit 10 w2
      in sha_schedule n ((w16 + s0 + w7 + s1) # ws))"

fun sha_round :: "32 word list \<Rightarrow> 32 word \<times> 32 word \<Rightarrow> 32 word list" where
  "sha_round [a, b, c, d, e, f, g, h] (k, w) =
     (let s1 = rotr32 6 e XOR rotr32 11 e XOR rotr32 25 e;
          ch = (e AND f) XOR (NOT e AND g);
          t1 = h + s1 + ch + k + w;
          s0 = rotr32 2 a XOR rotr32 13 a XOR rotr32 22 a;
          maj = (a AND b) XOR (a AND c) XOR (b AND c)
      in [t1 + s0 + maj, a, b, c, d + t1, e, f, g])"
| "sha_round s _ = s"

definition sha_block :: "32 word list \<Rightarrow> 32 word list \<Rightarrow> 32 word list" where
  "sha_block h ws = map2 (+) h (foldl sha_round h (zip sha_k (sha_schedule 48 (rev ws))))"

fun sha_blocks :: "nat \<Rightarrow> 32 word list \<Rightarrow> 32 word list \<Rightarrow> 32 word list" where
  "sha_blocks 0 h ws = h"
| "sha_blocks (Suc n) h ws = sha_blocks n (sha_block h (take 16 ws)) (drop 16 ws)"

definition hex_char :: "nat \<Rightarrow> char" where
  "hex_char n = ''0123456789abcdef'' ! (n mod 16)"

definition hex_word :: "32 word \<Rightarrow> string" where
  "hex_word w = map (\<lambda>i. hex_char (unat w div 16 ^ (7 - i))) [0..<8]"

definition sha256_hex :: "bytes \<Rightarrow> string" where
  "sha256_hex b = (let ws = sha_words (sha_pad b) in
     concat (map hex_word (sha_blocks (length ws div 16) sha_init ws)))"

lemma hex_char_mem: "hex_char n \<in> set ''0123456789abcdef''"
  unfolding hex_char_def by (rule nth_mem) simp

lemma sha_round_length: "length h = 8 \<Longrightarrow> length (sha_round h x) = 8"
  by (cases "(h, x)" rule: sha_round.cases) (auto simp: Let_def)

lemma sha_rounds_length: "length h = 8 \<Longrightarrow> length (foldl sha_round h xs) = 8"
  by (induction xs arbitrary: h) (auto simp: sha_round_length)

lemma sha_blocks_length: "length h = 8 \<Longrightarrow> length (sha_blocks n h ws) = 8"
  by (induction n arbitrary: h ws) (auto simp: sha_block_def sha_rounds_length)

lemma concat_length_const: "(\<And>x. x \<in> set xs \<Longrightarrow> length (f x) = n) \<Longrightarrow> length (concat (map f xs)) = n * length xs"
  by (induction xs) auto

lemma sha256_hex_is_digest: "is_digest (sha256_hex b)"
proof -
  define hs where "hs = (let ws = sha_words (sha_pad b) in sha_blocks (length ws div 16) sha_init ws)"
  have l: "length hs = 8" by (simp add: hs_def Let_def sha_blocks_length sha_init_def)
  have "length (concat (map hex_word hs)) = 8 * length hs"
    by (rule concat_length_const) (simp add: hex_word_def)
  moreover have "\<forall>c \<in> set (concat (map hex_word hs)). c \<in> set ''0123456789abcdef''"
    using hex_char_mem by (auto simp: hex_word_def)
  ultimately show ?thesis
    by (simp add: is_digest_def sha256_hex_def hs_def [symmetric] Let_def l list_all_iff)
       (simp add: hs_def Let_def)
qed

text \<open>The contract of a digest function, and its provider.\<close>

locale digest_function =
  fixes dg :: "bytes \<Rightarrow> string"
  assumes digest_form: "is_digest (dg b)"
begin

lemma digest_length: "length (dg b) = 64"
  using digest_form [of b] by (simp add: is_digest_def)

lemma digest_not_empty: "dg b \<noteq> []"
  using digest_length [of b] by auto

end

interpretation sha: digest_function sha256_hex
  by unfold_locales (rule sha256_hex_is_digest)

text \<open>Two different byte strings with one digest; the statements that need digests to identify
  contents name the pair.\<close>

definition collision :: "bytes \<Rightarrow> bytes \<Rightarrow> bool" where
  "collision a b \<longleftrightarrow> a \<noteq> b \<and> sha256_hex a = sha256_hex b"

lemma sha256_eq_cases: "sha256_hex a = sha256_hex b \<longleftrightarrow> a = b \<or> collision a b"
  by (auto simp: collision_def)

lemma collision_distinct: "collision a b \<Longrightarrow> a \<noteq> b"
  by (simp add: collision_def)

end
