(* ===== verification/Identifiers.thy ===== *)
theory Identifiers
  imports Values
begin

section \<open>Stable identifiers (contracts/identifiers.py)\<close>

text \<open>
  A \<open>StableIdentifier\<close> and an \<open>IdempotencyKey\<close> are a string that matches one regular expression:
  a lower-case namespace of at most 32 characters, a colon, and a bounded local part. The two
  classes differ by type only; the model keeps the checked string for both. The
  content-addressed identifiers (\<open>deterministic_identifier\<close>) are in the theory \<open>Canonical\<close>.
\<close>

definition id_head :: "char \<Rightarrow> bool" where
  "id_head c \<longleftrightarrow> is_lower c"

definition ns_rest :: "char \<Rightarrow> bool" where
  "ns_rest c \<longleftrightarrow> is_lower c \<or> is_digit c \<or> c \<in> set ''_.-''"

definition local_rest :: "char \<Rightarrow> bool" where
  "local_rest c \<longleftrightarrow> is_alnum c \<or> c \<in> set ''_.:@/-''"

text \<open>\<open>_NAMESPACE\<close>.\<close>

definition namespace_ok :: "string \<Rightarrow> bool" where
  "namespace_ok s = head_tail_pattern id_head ns_rest 31 s"

text \<open>\<open>value.split(":", 1)\<close>: the part before the first colon and the part after it.\<close>

definition before_colon :: "string \<Rightarrow> string" where
  "before_colon s = takeWhile (\<lambda>c. c \<noteq> CHR '':'') s"

definition after_colon :: "string \<Rightarrow> string" where
  "after_colon s = drop 1 (dropWhile (\<lambda>c. c \<noteq> CHR '':'') s)"

text \<open>\<open>_NAMESPACED_ID.fullmatch(value)\<close>: no character of the namespace class is a colon, so the
  colon of the pattern is the first one of the string.\<close>

definition identifier_ok :: "string \<Rightarrow> bool" where
  "identifier_ok s \<longleftrightarrow> CHR '':'' \<in> set s \<and> namespace_ok (before_colon s)
     \<and> head_tail_pattern is_alnum local_rest 94 (after_colon s)"

definition validate_identifier :: "py \<Rightarrow> v3_error + string" where
  "validate_identifier v =
     (case v of PStr s \<Rightarrow> if identifier_ok s then Inr s
        else Inl (IdentifierError ''value must be a bounded namespaced identifier (for example, 'field:abc-123')'')
      | _ \<Rightarrow> Inl (IdentifierError ''value must be a bounded namespaced identifier (for example, 'field:abc-123')''))"

definition validate_namespace :: "string \<Rightarrow> v3_error + unit" where
  "validate_namespace s = guards
     [(\<not> namespace_ok s, IdentifierError ''identifier namespace must be lower-case and bounded'')]"

text \<open>\<open>StableIdentifier.namespace\<close>.\<close>

definition identifier_namespace :: "string \<Rightarrow> string" where
  "identifier_namespace s = before_colon s"

definition require_identifier :: "py \<Rightarrow> string option \<Rightarrow> v3_error + string" where
  "require_identifier v expected =
     bind_res (validate_identifier v) (\<lambda>s.
     case expected of None \<Rightarrow> Inr s
     | Some ns \<Rightarrow> bind_res (validate_namespace ns) (\<lambda>_.
         bind_res (guards [(identifier_namespace s \<noteq> ns,
           IdentifierError (''namespaced identifier must use namespace '' @ ns))]) (\<lambda>_. Inr s)))"

lemma validate_identifier_Inr [result_simps]:
  "validate_identifier v = Inr s \<longleftrightarrow> v = PStr s \<and> identifier_ok s"
  by (auto simp: validate_identifier_def split: py.splits if_splits)

lemma require_identifier_Inr [result_simps]:
  "require_identifier v None = Inr s \<longleftrightarrow> v = PStr s \<and> identifier_ok s"
  "require_identifier v (Some ns) = Inr s \<longleftrightarrow>
     v = PStr s \<and> identifier_ok s \<and> namespace_ok ns \<and> identifier_namespace s = ns"
  by (auto simp: require_identifier_def validate_namespace_def bind_res_Inr guards_Inr
      validate_identifier_Inr)

lemma ns_rest_not_colon: "ns_rest c \<Longrightarrow> c \<noteq> CHR '':''"
  by (auto simp: ns_rest_def is_lower_def is_digit_def)

lemma id_head_ns_rest: "id_head c \<Longrightarrow> ns_rest c"
  by (simp add: id_head_def ns_rest_def)

lemma namespace_no_colon:
  assumes "namespace_ok ns"
  shows "CHR '':'' \<notin> set ns"
proof -
  obtain c cs where ns: "ns = c # cs" and "id_head c" "list_all ns_rest cs"
    using assms by (auto simp only: namespace_ok_def head_tail_pattern_def split: list.splits)
  then have "list_all ns_rest ns" by (simp add: id_head_ns_rest)
  then show ?thesis unfolding list_all_iff using ns_rest_not_colon by blast
qed

lemma colon_split:
  assumes "CHR '':'' \<notin> set ns"
  shows "before_colon (ns @ CHR '':'' # rest) = ns" "after_colon (ns @ CHR '':'' # rest) = rest"
proof -
  have "takeWhile (\<lambda>c. c \<noteq> CHR '':'') ns = ns" "dropWhile (\<lambda>c. c \<noteq> CHR '':'') ns = []"
    using assms by (auto simp: takeWhile_eq_all_conv dropWhile_eq_Nil_conv)
  then show "before_colon (ns @ CHR '':'' # rest) = ns" "after_colon (ns @ CHR '':'' # rest) = rest"
    using assms by (auto simp: before_colon_def after_colon_def takeWhile_append dropWhile_append)
qed

lemma identifier_parts:
  assumes "CHR '':'' \<in> set s"
  shows "s = before_colon s @ CHR '':'' # after_colon s"
proof -
  from assms obtain xs ys where s: "s = xs @ CHR '':'' # ys" and n: "CHR '':'' \<notin> set xs"
    by (meson split_list_first)
  show ?thesis unfolding s colon_split [OF n] ..
qed

lemma identifier_ok_compose:
  assumes "namespace_ok ns" "head_tail_pattern is_alnum local_rest 94 rest"
  shows "identifier_ok (ns @ CHR '':'' # rest) \<and> identifier_namespace (ns @ CHR '':'' # rest) = ns"
  using assms namespace_no_colon [OF assms(1)]
  by (simp add: identifier_ok_def colon_split identifier_namespace_def)

lemma digest_is_local_part:
  assumes "is_digest d"
  shows "head_tail_pattern is_alnum local_rest 94 d"
proof -
  have alnum: "\<forall>c \<in> set ''0123456789abcdef''. is_alnum c" by code_simp
  have d: "length d = 64" "\<forall>c \<in> set d. c \<in> set ''0123456789abcdef''"
    using assms unfolding is_digest_def list_all_iff by blast+
  have all: "\<forall>c \<in> set d. is_alnum c" using d(2) alnum by blast
  from d(1) obtain c cs where "d = c # cs" "length cs = 63"
    by (cases d) auto
  with all show ?thesis
    by (simp add: head_tail_pattern_def list_all_iff local_rest_def)
qed

end
