(* ===== verification/Canonical.thy ===== *)
theory Canonical
  imports Digest Identifiers
begin

section \<open>Canonical numbers and bytes (contracts/canonical.py)\<close>

text \<open>
  The bounded deterministic serialization every digest of the system rests on: one decimal
  spelling per value, milliseconds from seconds with half-even ties, and canonical JSON bytes.

  A value tree of the model is finite, so the reference-cycle checks of the source (which track
  the identities of the enclosing containers) never fire on it and are left out.
\<close>

subsection \<open>Bounds\<close>

definition int64_min :: int where "int64_min = - 9223372036854775808"
definition int64_max :: int where "int64_max = 9223372036854775807"
lemma int64_bounds: "int64_min = - (2 ^ 63)" "int64_max = 2 ^ 63 - 1"
  by (simp_all add: int64_min_def int64_max_def)

definition default_max_depth :: int where "default_max_depth = 32"
definition default_max_bytes :: int where "default_max_bytes = 1048576"
definition default_max_items :: int where "default_max_items = 100000"
definition max_decimal_characters :: nat where "max_decimal_characters = 128"

definition int64_ok :: "int \<Rightarrow> bool" where
  "int64_ok n \<longleftrightarrow> int64_min \<le> n \<and> n \<le> int64_max"

definition validate_int64 :: "int \<Rightarrow> v3_error + unit" where
  "validate_int64 n = guards
     [(\<not> int64_ok n, CanonicalBoundsError ''canonical integers must fit signed 64-bit boundaries'')]"

subsection \<open>Decimal digits\<close>

definition digit_char :: "nat \<Rightarrow> char" where
  "digit_char d = ''0123456789'' ! d"

definition digit_value :: "char \<Rightarrow> nat" where
  "digit_value c = of_char c - of_char CHR ''0''"

text \<open>\<open>str(n)\<close> of a natural number.\<close>

fun digits :: "nat \<Rightarrow> string" where
  "digits n = (if n < 10 then [digit_char n] else digits (n div 10) @ [digit_char (n mod 10)])"

declare digits.simps [simp del]

text \<open>\<open>int(s)\<close> of a string of digits.\<close>

definition digits_value :: "string \<Rightarrow> nat" where
  "digits_value s = foldl (\<lambda>n c. 10 * n + digit_value c) 0 s"

definition int_string :: "int \<Rightarrow> string" where
  "int_string n = (if n < 0 then CHR ''-'' # digits (nat (- n)) else digits (nat n))"

subsection \<open>Decimal literals\<close>

text \<open>
  \<open>Decimal(s)\<close> of a string: underscores dropped, an optional sign, an integer and a fractional
  part with a digit in one of them, an optional exponent; or an infinity or a NaN. The exact
  constructor raises \<open>InvalidOperation\<close> (\<open>None\<close>) for anything else and for an exponent outside
  the limits of the decimal module. Infinities and NaNs are \<open>DecSpecial\<close>.
\<close>

definition to_lower :: "char \<Rightarrow> char" where
  "to_lower c = (if is_upper c then char_of (of_char c + 32 :: nat) else c)"

definition split_sign :: "string \<Rightarrow> bool \<times> string" where
  "split_sign s = (case s of [] \<Rightarrow> (False, [])
     | c # cs \<Rightarrow> if c = CHR ''-'' then (True, cs) else if c = CHR ''+'' then (False, cs) else (False, s))"

definition parse_exponent :: "string \<Rightarrow> int option" where
  "parse_exponent s =
     (let (neg, ds) = split_sign s in
      if ds = [] \<or> \<not> list_all is_digit ds then None
      else Some (if neg then - int (digits_value ds) else int (digits_value ds)))"

definition max_emax :: int where "max_emax = 999999999999999999"
definition min_etiny :: int where "min_etiny = - 1999999999999999997"

definition dec_in_limits :: "nat \<Rightarrow> int \<Rightarrow> bool" where
  "dec_in_limits c e \<longleftrightarrow> min_etiny \<le> e \<and> (if c = 0 then e else e + int (length (digits c)) - 1) \<le> max_emax"

definition split_fraction :: "string \<Rightarrow> string \<times> string" where
  "split_fraction s = (case s of [] \<Rightarrow> ([], [])
     | c # r \<Rightarrow> if c = CHR ''.'' then (takeWhile is_digit r, dropWhile is_digit r) else ([], s))"

definition parse_finite :: "bool \<Rightarrow> string \<Rightarrow> pydec option" where
  "parse_finite neg s =
     (let ip = takeWhile is_digit s;
          (fp, s2) = split_fraction (dropWhile is_digit s);
          ex = (case s2 of [] \<Rightarrow> Some 0
            | c # r \<Rightarrow> if to_lower c = CHR ''e'' then parse_exponent r else None);
          c = digits_value (ip @ fp)
      in if ip @ fp = [] then None
         else case ex of None \<Rightarrow> None
         | Some x \<Rightarrow> (let e = x - int (length fp) in
             if dec_in_limits c e then Some (Dec neg c e) else None))"

definition special_literal :: "string \<Rightarrow> bool" where
  "special_literal s \<longleftrightarrow> (let l = map to_lower s in
     l = ''inf'' \<or> l = ''infinity''
     \<or> (take 3 l = ''nan'' \<and> list_all is_digit (drop 3 l))
     \<or> (take 4 l = ''snan'' \<and> list_all is_digit (drop 4 l)))"

definition parse_decimal :: "string \<Rightarrow> pydec option" where
  "parse_decimal s =
     (let (neg, r) = split_sign (filter (\<lambda>c. c \<noteq> CHR ''_'') s) in
      if special_literal r then Some DecSpecial else parse_finite neg r)"

subsection \<open>The canonical decimal spelling\<close>

text \<open>The loop that drops trailing zeros of the coefficient.\<close>

function strip_zeros :: "nat \<Rightarrow> int \<Rightarrow> nat \<times> int" where
  "strip_zeros c e = (if c \<noteq> 0 \<and> c mod 10 = 0 then strip_zeros (c div 10) (e + 1) else (c, e))"
  by auto
termination by (relation "measure fst") auto

declare strip_zeros.simps [simp del]

text \<open>The length of the rendered digits, computed before anything is rendered.\<close>

definition rendered_width :: "nat \<Rightarrow> int \<Rightarrow> int" where
  "rendered_width cnt e =
     (if 0 \<le> e then int cnt + e
      else if 0 < int cnt + e then int cnt + 1
      else 2 - e)"

text \<open>\<open>format(d, "f")\<close> of the magnitude.\<close>

definition format_f :: "nat \<Rightarrow> int \<Rightarrow> string" where
  "format_f c e =
     (let ds = digits c; n = length ds in
      if 0 \<le> e then ds @ replicate (nat e) (CHR ''0'')
      else if 0 < int n + e
      then take (nat (int n + e)) ds @ CHR ''.'' # drop (nat (int n + e)) ds
      else ''0.'' @ replicate (nat (- e - int n)) (CHR ''0'') @ ds)"

definition rstrip :: "char \<Rightarrow> string \<Rightarrow> string" where
  "rstrip c s = rev (dropWhile (\<lambda>x. x = c) (rev s))"

definition is_space :: "char \<Rightarrow> bool" where
  "is_space c \<longleftrightarrow> (let n = (of_char c :: nat) in
     (9 \<le> n \<and> n \<le> 13) \<or> (28 \<le> n \<and> n \<le> 32) \<or> n = 133 \<or> n = 160)"

text \<open>\<open>value.strip() == value\<close> for a nonempty string.\<close>

definition trimmed :: "string \<Rightarrow> bool" where
  "trimmed s \<longleftrightarrow> s \<noteq> [] \<and> \<not> is_space (hd s) \<and> \<not> is_space (last s)"

definition decimal_of_value :: "py \<Rightarrow> v3_error + pydec" where
  "decimal_of_value v =
     (case v of
        PBool b \<Rightarrow> Inl (CanonicalTypeError ''boolean values cannot be used as canonical numbers'')
      | PInt n \<Rightarrow> Inr (Dec (n < 0) (nat \<bar>n\<bar>) 0)
      | PDec d \<Rightarrow> Inr d
      | PFloat None \<Rightarrow> Inl (CanonicalNumberError ''canonical numbers must be finite'')
      | PFloat (Some d) \<Rightarrow> Inr d
      | PStr s \<Rightarrow>
          if \<not> trimmed s \<or> max_decimal_characters < length s
          then Inl (CanonicalNumberError ''canonical decimal strings must be nonempty and trimmed'')
          else of_option (CanonicalNumberError ''canonical decimal strings must be finite decimals'')
                 (parse_decimal s)
      | _ \<Rightarrow> Inl (CanonicalTypeError ''canonical number contains unsupported type''))"

definition decimal_too_long :: v3_error where
  "decimal_too_long = CanonicalBoundsError ''canonical decimal exceeds the character bound''"

definition drop_empty_fraction :: "string \<Rightarrow> string" where
  "drop_empty_fraction s = (if CHR ''.'' \<in> set s then rstrip (CHR ''.'') (rstrip (CHR ''0'') s) else s)"

definition render_decimal :: "pydec \<Rightarrow> v3_error + string" where
  "render_decimal d =
     (case d of
        DecSpecial \<Rightarrow> Inl (CanonicalNumberError ''canonical numbers must be finite'')
      | Dec sg c0 e0 \<Rightarrow>
          if c0 = 0 then Inr ''0''
          else (case strip_zeros c0 e0 of (c, e) \<Rightarrow>
            if int max_decimal_characters < rendered_width (length (digits c)) e + (if sg then 1 else 0)
            then Inl decimal_too_long
            else (let rendered = drop_empty_fraction ((if sg then ''-'' else []) @ format_f c e) in
              if max_decimal_characters < length rendered then Inl decimal_too_long else Inr rendered)))"

definition canonical_decimal_string :: "py \<Rightarrow> v3_error + string" where
  "canonical_decimal_string v = bind_res (decimal_of_value v) render_decimal"

subsection \<open>Milliseconds from seconds\<close>

text \<open>\<open>n / d\<close> rounded to an integer, ties to even.\<close>

definition round_half_even_div :: "nat \<Rightarrow> nat \<Rightarrow> nat" where
  "round_half_even_div n d =
     (let q = n div d; r = n mod d in
      if 2 * r < d then q else if d < 2 * r then q + 1 else if even q then q else q + 1)"

text \<open>\<open>(value * 1000).quantize(Decimal("1"))\<close> of the magnitude: 144 digits of precision hold every
  canonical input scaled by a thousand exactly, so the only rounding is the one to an integer.\<close>

definition quantize_ms :: "nat \<Rightarrow> int \<Rightarrow> nat" where
  "quantize_ms c e =
     (if 0 \<le> e + 3 then c * 10 ^ nat (e + 3) else round_half_even_div c (10 ^ nat (- (e + 3))))"

definition milliseconds_from_seconds :: "py \<Rightarrow> v3_error + int" where
  "milliseconds_from_seconds v =
     (case v of PBool b \<Rightarrow> Inl (CanonicalTypeError ''boolean values cannot cross integer time boundaries'')
      | _ \<Rightarrow>
        bind_res (canonical_decimal_string v) (\<lambda>s.
        case parse_decimal s of
          Some (Dec sg c e) \<Rightarrow>
            if sg \<and> c \<noteq> 0 then Inl (CanonicalNumberError ''time in seconds must be non-negative'')
            else bind_res (validate_int64 (int (quantize_ms c e))) (\<lambda>_. Inr (int (quantize_ms c e)))
        | _ \<Rightarrow> Inl (CanonicalNumberError ''time must be a finite decimal'')))"

subsection \<open>Digits: facts\<close>

lemma digit_char_facts:
  assumes "d < 10"
  shows "is_digit (digit_char d)" "digit_value (digit_char d) = d"
    "digit_char d = CHR ''0'' \<longleftrightarrow> d = 0" "digit_char d \<noteq> CHR ''.''" "digit_char d \<noteq> CHR ''-''"
proof -
  have all: "\<forall>d \<in> set [0..<10]. is_digit (digit_char d) \<and> digit_value (digit_char d) = d
     \<and> (digit_char d = CHR ''0'' \<longleftrightarrow> d = 0) \<and> digit_char d \<noteq> CHR ''.'' \<and> digit_char d \<noteq> CHR ''-''"
    by code_simp
  have "d \<in> set [0..<10]" using assms by simp
  from bspec [OF all this] show "is_digit (digit_char d)" "digit_value (digit_char d) = d"
    "digit_char d = CHR ''0'' \<longleftrightarrow> d = 0" "digit_char d \<noteq> CHR ''.''" "digit_char d \<noteq> CHR ''-''"
    by blast+
qed

lemma digits_nonempty [simp]: "digits n \<noteq> []"
  by (subst digits.simps) simp

lemma digits_all: "c \<in> set (digits n) \<Longrightarrow> is_digit c"
proof (induction n rule: digits.induct)
  case (1 n)
  then show ?case by (subst (asm) (2) digits.simps) (auto simp: digit_char_facts split: if_splits)
qed

lemma digits_value_snoc: "digits_value (s @ [c]) = 10 * digits_value s + digit_value c"
  by (simp add: digits_value_def)

lemma digits_value_digits [simp]: "digits_value (digits n) = n"
proof (induction n rule: digits.induct)
  case (1 n)
  show ?case
  proof (cases "n < 10")
    case True
    then show ?thesis by (subst digits.simps) (simp add: digits_value_def digit_char_facts)
  next
    case False
    then show ?thesis using 1 by (subst digits.simps) (simp add: digits_value_snoc digit_char_facts)
  qed
qed

lemma digits_inj: "digits m = digits n \<longleftrightarrow> m = n"
  by (metis digits_value_digits)

lemma digits_last: "last (digits n) = digit_char (n mod 10)"
  by (subst digits.simps) simp

lemma digits_hd: "is_digit (hd (digits n))"
  by (rule digits_all [of _ n]) simp

lemma digits_value_zeros: "digits_value (s @ replicate k (CHR ''0'')) = digits_value s * 10 ^ k"
proof (induction k)
  case (Suc k)
  have eq: "s @ replicate (Suc k) (CHR ''0'') = (s @ replicate k (CHR ''0'')) @ [CHR ''0'']"
    by (simp add: replicate_append_same)
  show ?case unfolding eq digits_value_snoc Suc by (simp add: digit_value_def)
qed simp

lemma digits_value_lead_zeros: "digits_value (replicate k (CHR ''0'') @ s) = digits_value s"
proof -
  have "foldl (\<lambda>n c. 10 * n + digit_value c) 0 (replicate k (CHR ''0'')) = 0"
    by (induction k) (simp_all add: digit_value_def)
  then show ?thesis by (simp add: digits_value_def)
qed

lemma digits_length_pow: "length (digits (10 ^ k * n)) \<le> k + length (digits n)"
proof (induction k arbitrary: n)
  case (Suc k)
  have "length (digits (10 * n)) \<le> Suc (length (digits n))" for n
    by (subst digits.simps) simp
  then show ?case using Suc [of "10 * n"] by (smt (verit) add_Suc add_Suc_right le_trans
      mult.assoc mult.commute nat_add_left_cancel_le power_Suc)
qed simp

lemma strip_zeros_spec:
  assumes "strip_zeros c e = (c', e')" "c \<noteq> 0"
  shows "c' mod 10 \<noteq> 0 \<and> e \<le> e' \<and> c = c' * 10 ^ nat (e' - e)"
  using assms
proof (induction c e rule: strip_zeros.induct)
  case (1 c e)
  show ?case
  proof (cases "c mod 10 = 0")
    case True
    with 1 have "strip_zeros (c div 10) (e + 1) = (c', e')" "c div 10 \<noteq> 0"
      by (auto simp: strip_zeros.simps [of c e] split: if_splits)
    with 1 True have ih: "c' mod 10 \<noteq> 0" "e + 1 \<le> e'" "c div 10 = c' * 10 ^ nat (e' - (e + 1))"
      by auto
    have "nat (e' - e) = Suc (nat (e' - (e + 1)))" using ih(2) by simp
    moreover have "c = c div 10 * 10" using True by presburger
    ultimately show ?thesis using ih by simp
  next
    case False
    with 1 show ?thesis by (simp add: strip_zeros.simps)
  qed
qed

subsection \<open>The spelling is canonical\<close>

definition dec_value :: "pydec \<Rightarrow> rat option" where
  "dec_value d = (case d of DecSpecial \<Rightarrow> None
     | Dec sg c e \<Rightarrow> Some ((if sg then - 1 else 1) * of_nat c * 10 powi e))"

lemma digit_not_special:
  assumes "is_digit c"
  shows "c \<noteq> CHR ''.''" "c \<noteq> CHR ''-''" "c \<noteq> CHR ''+''" "c \<noteq> CHR ''_''" "\<not> is_space c"
    "to_lower c = c" "c \<noteq> CHR ''i''" "c \<noteq> CHR ''n''" "c \<noteq> CHR ''s''" "c \<noteq> CHR ''e''"
proof -
  have cs: "c = CHR ''0'' \<or> c = CHR ''1'' \<or> c = CHR ''2'' \<or> c = CHR ''3'' \<or> c = CHR ''4''
     \<or> c = CHR ''5'' \<or> c = CHR ''6'' \<or> c = CHR ''7'' \<or> c = CHR ''8'' \<or> c = CHR ''9''"
  proof -
    let ?n = "of_char c :: nat"
    have "48 \<le> ?n \<and> ?n \<le> 57" using assms by (simp add: is_digit_def less_eq_char_def)
    then have "?n \<in> set [48..<58]" by (simp only: set_upt atLeastLessThan_iff) simp
    then have "char_of ?n \<in> set (map char_of [48..<58])" unfolding set_map by (rule imageI)
    moreover have "map char_of [48..<58] = ''0123456789''" by code_simp
    ultimately have "char_of ?n \<in> set ''0123456789''" by (simp only:)
    then show ?thesis by simp
  qed
  have all: "\<forall>c \<in> set ''0123456789''. c \<noteq> CHR ''.'' \<and> c \<noteq> CHR ''-'' \<and> c \<noteq> CHR ''+'' \<and> c \<noteq> CHR ''_''
     \<and> \<not> is_space c \<and> to_lower c = c \<and> c \<noteq> CHR ''i'' \<and> c \<noteq> CHR ''n'' \<and> c \<noteq> CHR ''s'' \<and> c \<noteq> CHR ''e''"
    by code_simp
  have "c \<in> set ''0123456789''" using cs by simp
  from bspec [OF all this] show "c \<noteq> CHR ''.''" "c \<noteq> CHR ''-''" "c \<noteq> CHR ''+''" "c \<noteq> CHR ''_''"
    "\<not> is_space c" "to_lower c = c" "c \<noteq> CHR ''i''" "c \<noteq> CHR ''n''" "c \<noteq> CHR ''s''" "c \<noteq> CHR ''e''"
    by blast+
qed

lemma zero_is_digit [simp]: "is_digit (CHR ''0'')" by code_simp
lemma point_not_digit [simp]: "\<not> is_digit (CHR ''.'')" by code_simp

definition digit_string :: "string \<Rightarrow> bool" where
  "digit_string s \<longleftrightarrow> s \<noteq> [] \<and> (\<forall>c \<in> set s. is_digit c)"

lemma digit_string_take_while:
  "\<forall>c \<in> set s. is_digit c \<Longrightarrow> takeWhile is_digit s = s \<and> dropWhile is_digit s = []"
  by (simp add: takeWhile_eq_all_conv dropWhile_eq_Nil_conv)

lemma digit_string_point:
  "\<forall>c \<in> set s. is_digit c \<Longrightarrow> takeWhile is_digit (s @ CHR ''.'' # r) = s
     \<and> dropWhile is_digit (s @ CHR ''.'' # r) = CHR ''.'' # r"
  by (simp add: takeWhile_append dropWhile_append)

lemma parse_finite_int:
  assumes "digit_string s" "dec_in_limits (digits_value s) 0"
  shows "parse_finite sg s = Some (Dec sg (digits_value s) 0)"
proof -
  have d: "\<forall>c \<in> set s. is_digit c" and "s \<noteq> []" using assms by (simp_all add: digit_string_def)
  then show ?thesis using assms(2) digit_string_take_while [OF d]
    by (simp add: parse_finite_def split_fraction_def Let_def del: takeWhile_eq_all_conv dropWhile_eq_Nil_conv)
qed

lemma parse_finite_point:
  assumes "digit_string s" "digit_string r" "dec_in_limits (digits_value (s @ r)) (- int (length r))"
  shows "parse_finite sg (s @ CHR ''.'' # r) = Some (Dec sg (digits_value (s @ r)) (- int (length r)))"
proof -
  have d: "\<forall>c \<in> set s. is_digit c" "\<forall>c \<in> set r. is_digit c" and "s \<noteq> []"
    using assms by (simp_all add: digit_string_def)
  then show ?thesis using assms(3) digit_string_take_while [OF d(2)] digit_string_point [OF d(1), of r]
    by (simp add: parse_finite_def split_fraction_def Let_def del: takeWhile_eq_all_conv dropWhile_eq_Nil_conv)
qed

lemma not_special_digit_head: "is_digit c \<Longrightarrow> \<not> special_literal (c # s)"
  by (auto simp: special_literal_def Let_def digit_not_special)

lemma split_sign_digit: "is_digit c \<Longrightarrow> split_sign (c # s) = (False, c # s)"
  by (simp add: split_sign_def digit_not_special)

text \<open>A literal of digits and at most a point is read by \<open>parse_finite\<close> after its sign.\<close>

lemma parse_decimal_plain:
  assumes "s \<noteq> []" "is_digit (hd s)" "CHR ''_'' \<notin> set s"
  shows "parse_decimal ((if sg then ''-'' else []) @ s) = parse_finite sg s"
proof -
  have f: "filter (\<lambda>c. c \<noteq> CHR ''_'') s = s" using assms(3) by (auto simp: filter_id_conv)
  obtain c t where s: "s = c # t" "is_digit c" using assms by (cases s) auto
  show ?thesis
  proof (cases sg)
    case True
    have "split_sign (CHR ''-'' # s) = (True, s)" by (simp add: split_sign_def)
    then show ?thesis using True f s by (simp add: parse_decimal_def not_special_digit_head)
  next
    case False
    then show ?thesis using f s by (simp add: parse_decimal_def not_special_digit_head split_sign_digit)
  qed
qed

lemma dec_in_limits_small:
  assumes "length (digits c) \<le> 200" "- 200 \<le> e" "e \<le> 0"
  shows "dec_in_limits c e"
  using assms by (simp add: dec_in_limits_def min_etiny_def max_emax_def)

lemma digit_string_digits [simp]: "digit_string (digits n)"
  by (auto simp: digit_string_def dest: digits_all)

lemma digit_string_append_zeros: "digit_string s \<Longrightarrow> digit_string (s @ replicate k (CHR ''0''))"
  by (auto simp: digit_string_def)

lemma format_f_length:
  "int (length (format_f c e)) = rendered_width (length (digits c)) e"
  by (auto simp: format_f_def rendered_width_def Let_def)

lemma format_f_parse:
  assumes "rendered_width (length (digits c)) e \<le> 128"
  shows "format_f c e \<noteq> [] \<and> is_digit (hd (format_f c e)) \<and> CHR ''_'' \<notin> set (format_f c e)
    \<and> parse_finite sg (format_f c e) = Some (Dec sg (c * 10 ^ nat e) (min e 0))"
proof -
  let ?ds = "digits c" and ?n = "length (digits c)"
  have ds: "digit_string ?ds" "is_digit (hd ?ds)" "\<forall>x \<in> set ?ds. is_digit x"
    by (auto simp: digits_hd dest: digits_all)
  have us: "CHR ''_'' \<notin> set ?ds" using ds(3) digit_not_special(4) by blast
  have n0: "0 < ?n" by simp
  consider (int) "0 \<le> e" | (mid) "e < 0" "0 < int ?n + e" | (lead) "e < 0" "int ?n + e \<le> 0"
    by linarith
  then show ?thesis
  proof cases
    case int
    have l: "length (digits (c * 10 ^ nat e)) \<le> 200"
      using digits_length_pow [of "nat e" c] assms int by (simp add: rendered_width_def mult.commute)
    have "parse_finite sg (?ds @ replicate (nat e) (CHR ''0'')) = Some (Dec sg (c * 10 ^ nat e) 0)"
      using parse_finite_int [of "?ds @ replicate (nat e) (CHR ''0'')" sg] l
      by (simp add: digit_string_append_zeros digits_value_zeros dec_in_limits_small)
    then show ?thesis using int ds us by (simp add: format_f_def Let_def hd_append)
  next
    case mid
    let ?k = "nat (int ?n + e)"
    have k: "0 < ?k" "?k < ?n" "int (length (drop ?k ?ds)) = - e" using mid by auto
    have parts: "digit_string (take ?k ?ds)" "digit_string (drop ?k ?ds)"
      using ds k by (auto simp: digit_string_def dest: in_set_takeD in_set_dropD)
    have "dec_in_limits c e" using assms mid by (intro dec_in_limits_small) (auto simp: rendered_width_def)
    then have "parse_finite sg (take ?k ?ds @ CHR ''.'' # drop ?k ?ds) = Some (Dec sg c e)"
      using parse_finite_point [OF parts, of sg] k by simp
    moreover have "hd (take ?k ?ds @ CHR ''.'' # drop ?k ?ds) = hd ?ds"
      using k by (cases ?ds) (auto simp: hd_append take_Cons split: nat.splits)
    moreover have "CHR ''_'' \<notin> set (take ?k ?ds)" "CHR ''_'' \<notin> set (drop ?k ?ds)"
      using us by (auto dest: in_set_takeD in_set_dropD)
    ultimately show ?thesis using mid ds by (simp add: format_f_def Let_def)
  next
    case lead
    define r where "r = replicate (nat (- e - int ?n)) (CHR ''0'') @ ?ds"
    have len: "int (length r) = - e" using lead by (simp add: r_def)
    have parts: "digit_string ''0''" "digit_string r" using ds by (auto simp: digit_string_def r_def)
    have v: "digits_value (''0'' @ r) = c"
      using digits_value_lead_zeros [of "Suc (nat (- e - int ?n))" ?ds] by (simp add: r_def)
    have "dec_in_limits c e" using assms lead by (intro dec_in_limits_small) (auto simp: rendered_width_def)
    then have "parse_finite sg (''0'' @ CHR ''.'' # r) = Some (Dec sg c e)"
      using parse_finite_point [OF parts, of sg] unfolding v len by simp
    moreover have "CHR ''_'' \<notin> set r" using us by (simp add: r_def)
    moreover have "format_f c e = ''0'' @ CHR ''.'' # r" using lead by (simp add: format_f_def Let_def r_def)
    ultimately show ?thesis using lead by simp
  qed
qed

text \<open>With the trailing zeros gone from the coefficient there is nothing left to strip.\<close>

lemma rstrip_last: "s \<noteq> [] \<Longrightarrow> last s \<noteq> c \<Longrightarrow> rstrip c s = s"
  by (cases s rule: rev_cases) (simp_all add: rstrip_def)

lemma format_f_last: "e < 0 \<Longrightarrow> last (format_f c e) = last (digits c)"
  by (auto simp: format_f_def Let_def last_drop)

lemma format_f_rstrip:
  assumes "c mod 10 \<noteq> 0" and "CHR ''.'' \<in> set (pre @ format_f c e)" and "CHR ''.'' \<notin> set pre"
  shows "rstrip (CHR ''.'') (rstrip (CHR ''0'') (pre @ format_f c e)) = pre @ format_f c e"
proof -
  have e: "e < 0"
  proof (rule ccontr)
    assume "\<not> e < 0"
    then have "\<forall>x \<in> set (format_f c e). is_digit x"
      using digits_all by (auto simp: format_f_def Let_def)
    then show False using assms digit_not_special(1) by auto
  qed
  have ne: "format_f c e \<noteq> []" using assms by auto
  have "last (pre @ format_f c e) = digit_char (c mod 10)"
    using ne e by (simp add: format_f_last digits_last)
  then show ?thesis using assms(1) digit_char_facts [of "c mod 10"] ne
    by (simp add: rstrip_last)
qed

lemma render_decimal_zero: "render_decimal (Dec sg 0 e) = Inr ''0''"
  by (simp add: render_decimal_def)

lemma render_decimal_nonzero:
  assumes "c0 \<noteq> 0" "strip_zeros c0 e0 = (c, e)"
  shows "render_decimal (Dec sg c0 e0) =
    (if 128 < rendered_width (length (digits c)) e + (if sg then 1 else 0)
     then Inl decimal_too_long
     else Inr ((if sg then ''-'' else []) @ format_f c e))"
proof -
  let ?pre = "if sg then ''-'' else []"
  have nz: "c mod 10 \<noteq> 0" using strip_zeros_spec [OF assms(2,1)] by simp
  have rs: "drop_empty_fraction (?pre @ format_f c e) = ?pre @ format_f c e"
    using format_f_rstrip [OF nz, of ?pre e] by (auto simp: drop_empty_fraction_def)
  have len: "int (length (?pre @ format_f c e)) = rendered_width (length (digits c)) e + (if sg then 1 else 0)"
    by (simp add: format_f_length)
  have "max_decimal_characters < length (?pre @ format_f c e) \<longleftrightarrow>
      128 < rendered_width (length (digits c)) e + (if sg then 1 else 0)"
    unfolding max_decimal_characters_def using len by linarith
  then show ?thesis
    unfolding render_decimal_def pydec.case assms(2) prod.case Let_def rs
    using assms(1) by (simp add: max_decimal_characters_def)
qed

text \<open>A decimal in normal form is determined by its value.\<close>

lemma normal_form_le:
  fixes c c' :: nat
  assumes "of_nat c * (10::rat) powi e = of_nat c' * 10 powi e'" "c mod 10 \<noteq> 0" "e \<le> e'"
  shows "c = c' \<and> e = e'"
proof -
  have "(10::rat) powi e' = 10 powi e * 10 ^ nat (e' - e)"
    using assms(3) by (simp add: power_int_add [symmetric] flip: power_int_of_nat)
  with assms(1) have "10 powi e * of_nat c = (10::rat) powi e * of_nat (c' * 10 ^ nat (e' - e))"
    by (simp add: ac_simps)
  moreover have "(10::rat) powi e \<noteq> 0" by simp
  ultimately have "(of_nat c :: rat) = of_nat (c' * 10 ^ nat (e' - e))"
    using mult_left_cancel by blast
  then have c: "c = c' * 10 ^ nat (e' - e)" by (simp only: of_nat_eq_iff)
  have "nat (e' - e) = 0"
  proof (rule ccontr)
    assume "nat (e' - e) \<noteq> 0"
    then obtain k where "nat (e' - e) = Suc k" using not0_implies_Suc by blast
    then have "c = c' * 10 ^ k * 10" using c by simp
    then show False using assms(2) by simp
  qed
  then show ?thesis using c assms(3) by simp
qed

lemma normal_form_unique:
  fixes c c' :: nat
  assumes "of_nat c * (10::rat) powi e = of_nat c' * 10 powi e'" "c mod 10 \<noteq> 0" "c' mod 10 \<noteq> 0"
  shows "c = c' \<and> e = e'"
  using normal_form_le [OF assms(1,2)] normal_form_le [OF assms(1) [symmetric] assms(3)]
  by (cases "e \<le> e'") auto

lemma strip_zeros_value:
  assumes "strip_zeros c0 e0 = (c, e)" "c0 \<noteq> 0"
  shows "of_nat c0 * (10::rat) powi e0 = of_nat c * 10 powi e"
proof -
  have "c0 = c * 10 ^ nat (e - e0)" "e0 \<le> e" using strip_zeros_spec [OF assms] by auto
  then have "of_nat c0 * (10::rat) powi e0 = of_nat c * (10 ^ nat (e - e0) * 10 powi e0)"
    by simp
  also have "10 ^ nat (e - e0) * (10::rat) powi e0 = 10 powi e"
    using \<open>e0 \<le> e\<close> by (simp add: power_int_add [symmetric] flip: power_int_of_nat)
  finally show ?thesis .
qed

lemma render_decimal_cong:
  assumes "dec_value d = dec_value d'"
  shows "render_decimal d = render_decimal d'"
proof (cases d)
  case DecSpecial
  then show ?thesis using assms by (cases d') (simp_all add: dec_value_def)
next
  case (Dec sg c0 e0)
  then obtain sg' c1 e1 where d': "d' = Dec sg' c1 e1"
    using assms by (cases d') (simp_all add: dec_value_def)
  have v: "(if sg then - 1 else 1) * of_nat c0 * (10::rat) powi e0 = (if sg' then - 1 else 1) * of_nat c1 * 10 powi e1"
    using assms by (simp add: Dec d' dec_value_def)
  have p: "0 < (10::rat) powi x" for x by simp
  show ?thesis
  proof (cases "c0 = 0")
    case True
    then have "c1 = 0" using v p [of e1] by (auto split: if_splits)
    with True show ?thesis by (simp add: Dec d' render_decimal_zero)
  next
    case False
    have c1: "c1 \<noteq> 0"
    proof
      assume "c1 = 0"
      then have "of_nat c0 * (10::rat) powi e0 = 0" using v by (auto split: if_splits)
      then show False using False p [of e0] by simp
    qed
    have pos: "0 < of_nat c0 * (10::rat) powi e0" "0 < of_nat c1 * (10::rat) powi e1"
      using False c1 by simp_all
    have sg: "sg = sg'" and m: "of_nat c0 * (10::rat) powi e0 = of_nat c1 * 10 powi e1"
      using v pos by (auto split: if_splits)
    obtain c e c' e' where s: "strip_zeros c0 e0 = (c, e)" "strip_zeros c1 e1 = (c', e')"
      by (cases "strip_zeros c0 e0"; cases "strip_zeros c1 e1")
    have "c = c' \<and> e = e'"
      using normal_form_unique [of c e c' e'] m strip_zeros_value [OF s(1) False]
        strip_zeros_value [OF s(2) c1] strip_zeros_spec [OF s(1) False] strip_zeros_spec [OF s(2) c1]
      by simp
    then show ?thesis using render_decimal_nonzero [OF False s(1)] render_decimal_nonzero [OF c1 s(2)]
      by (simp add: Dec d' sg)
  qed
qed

lemma format_f_last_digit:
  assumes "rendered_width (length (digits c)) e \<le> 128"
  shows "is_digit (last (format_f c e))"
proof (cases "e < 0")
  case True
  then show ?thesis using digit_char_facts [of "c mod 10"] by (simp add: format_f_last digits_last)
next
  case False
  have "\<forall>x \<in> set (format_f c e). is_digit x"
    using False digits_all by (auto simp: format_f_def Let_def)
  moreover have "format_f c e \<noteq> []" using format_f_parse [OF assms, of False] by simp
  ultimately show ?thesis by simp
qed

lemma render_decimal_parse:
  assumes "render_decimal d = Inr s"
  shows "trimmed s \<and> length s \<le> 128 \<and> (\<exists>d'. parse_decimal s = Some d' \<and> dec_value d' = dec_value d)"
proof -
  obtain sg c0 e0 where d: "d = Dec sg c0 e0"
    using assms by (cases d) (simp_all add: render_decimal_def)
  show ?thesis
  proof (cases "c0 = 0")
    case True
    then have s: "s = ''0''" using assms by (simp add: d render_decimal_zero)
    have "parse_decimal ''0'' = Some (Dec False 0 0) \<and> trimmed ''0''" by code_simp
    then show ?thesis using True by (simp add: s d dec_value_def)
  next
    case False
    obtain c e where st: "strip_zeros c0 e0 = (c, e)" by (cases "strip_zeros c0 e0")
    have w: "rendered_width (length (digits c)) e + (if sg then 1 else 0) \<le> 128"
      and s: "s = (if sg then ''-'' else []) @ format_f c e"
      using assms unfolding d render_decimal_nonzero [OF False st] by (simp_all split: if_splits)
    have w': "rendered_width (length (digits c)) e \<le> 128" using w by (simp split: if_splits)
    note f = format_f_parse [OF w', of sg]
    have "parse_decimal s = Some (Dec sg (c * 10 ^ nat e) (min e 0))"
      unfolding s using parse_decimal_plain [of "format_f c e" sg] f by simp
    moreover have "of_nat (c * 10 ^ nat e) * (10::rat) powi (min e 0) = of_nat c * 10 powi e"
      by (cases "0 \<le> e") (simp_all add: min_def flip: power_int_of_nat)
    then have "dec_value (Dec sg (c * 10 ^ nat e) (min e 0)) = dec_value d"
      unfolding d dec_value_def pydec.case using strip_zeros_value [OF st False] by simp
    moreover have "length s \<le> 128"
    proof -
      have "int (length s) = rendered_width (length (digits c)) e + (if sg then 1 else 0)"
        by (simp add: s format_f_length)
      then show ?thesis using w by linarith
    qed
    moreover have "trimmed s"
    proof -
      have "is_digit (last s)" using f format_f_last_digit [OF w'] by (simp add: s)
      moreover have "is_digit (hd s) \<or> hd s = CHR ''-''" using f by (simp add: s)
      moreover have "\<not> is_space (CHR ''-'')" by code_simp
      moreover have "s \<noteq> []" using f by (simp add: s)
      ultimately show ?thesis using digit_not_special(5) unfolding trimmed_def by auto
    qed
    ultimately show ?thesis by blast
  qed
qed

lemma canonical_decimal_string_parse:
  assumes "canonical_decimal_string v = Inr s"
  obtains d d' where "decimal_of_value v = Inr d" "render_decimal d = Inr s"
    "decimal_of_value (PStr s) = Inr d'" "parse_decimal s = Some d'" "dec_value d' = dec_value d"
proof -
  obtain d where d: "decimal_of_value v = Inr d" "render_decimal d = Inr s"
    using assms by (auto simp: canonical_decimal_string_def result_simps)
  with render_decimal_parse [OF d(2)] that show thesis
    by (auto simp: decimal_of_value_def max_decimal_characters_def)
qed

text \<open>C36. One spelling per number: the canonical decimal string is itself canonical, and two inputs
  have the same canonical string exactly when they denote the same number, whatever their type,
  trailing zeros, exponent or sign of zero.\<close>

theorem canonical_decimal_identifies_values:
  assumes "canonical_decimal_string v = Inr s"
  shows "canonical_decimal_string (PStr s) = Inr s
    \<and> (canonical_decimal_string w = Inr s \<longleftrightarrow>
        (\<exists>d d'. decimal_of_value v = Inr d \<and> decimal_of_value w = Inr d' \<and> dec_value d' = dec_value d))"
proof -
  obtain d ds where v: "decimal_of_value v = Inr d" "render_decimal d = Inr s"
    "decimal_of_value (PStr s) = Inr ds" "parse_decimal s = Some ds" "dec_value ds = dec_value d"
    using canonical_decimal_string_parse [OF assms] .
  have fix1: "canonical_decimal_string (PStr s) = Inr s"
    unfolding canonical_decimal_string_def v(3) using v(2) render_decimal_cong [OF v(5)] by simp
  have "canonical_decimal_string w = Inr s \<longleftrightarrow> (\<exists>d'. decimal_of_value w = Inr d' \<and> dec_value d' = dec_value d)"
  proof
    assume "canonical_decimal_string w = Inr s"
    then obtain d' ds' where "decimal_of_value w = Inr d'" "parse_decimal s = Some ds'" "dec_value ds' = dec_value d'"
      by (rule canonical_decimal_string_parse)
    then show "\<exists>d'. decimal_of_value w = Inr d' \<and> dec_value d' = dec_value d" using v by auto
  next
    assume "\<exists>d'. decimal_of_value w = Inr d' \<and> dec_value d' = dec_value d"
    then obtain d' where d': "decimal_of_value w = Inr d'" "dec_value d' = dec_value d" by blast
    show "canonical_decimal_string w = Inr s"
      unfolding canonical_decimal_string_def d'(1) using v(2) render_decimal_cong [OF d'(2)] by simp
  qed
  then show ?thesis unfolding v(1) using fix1 by simp
qed

theorem canonical_decimal_identifies_values_witness:
  "canonical_decimal_string (PDec (Dec False 1500 (- 2))) = Inr ''15''
   \<and> canonical_decimal_string (PStr ''15'') = Inr ''15''"
proof -
  have h: "canonical_decimal_string (PDec (Dec False 1500 (- 2))) = Inr ''15''" by code_simp
  show ?thesis using h canonical_decimal_identifies_values [OF h, of PNone] by (simp only: simp_thms)
qed

subsection \<open>Rounding\<close>

lemma round_half_even_div_spec:
  assumes "0 < d"
  shows "2 * int (round_half_even_div n d) * int d \<le> 2 * int n + int d
    \<and> 2 * int n \<le> 2 * int (round_half_even_div n d) * int d + int d
    \<and> (2 * int n = 2 * int (round_half_even_div n d) * int d + int d
        \<or> 2 * int (round_half_even_div n d) * int d = 2 * int n + int d
        \<longrightarrow> even (round_half_even_div n d))"
proof -
  define q where "q = n div d"
  define r where "r = n mod d"
  have n: "int n = int q * int d + int r"
    by (simp add: q_def r_def flip: of_nat_mult of_nat_add)
  have r: "r < d" using assms by (simp add: r_def)
  have res: "round_half_even_div n d = (if 2 * r < d then q else if d < 2 * r then q + 1 else if even q then q else q + 1)"
    by (simp add: round_half_even_div_def q_def r_def Let_def)
  consider (down) "2 * r < d" | (up) "d < 2 * r" | (tie_down) "2 * r = d" "even q" | (tie_up) "2 * r = d" "odd q"
    by linarith
  then show ?thesis
  proof cases
    case down
    then show ?thesis by (simp add: res n algebra_simps)
  next
    case up
    then show ?thesis using r by (simp add: res n algebra_simps)
  next
    case tie_down
    then show ?thesis by (simp add: res n algebra_simps)
  next
    case tie_up
    then show ?thesis by (simp add: res n algebra_simps)
  qed
qed

lemma half_even_rat:
  fixes n d :: nat
  assumes "0 < d"
  defines "q \<equiv> round_half_even_div n d"
  shows "\<bar>of_nat q - of_nat n / (of_nat d :: rat)\<bar> \<le> 1 / 2
    \<and> (\<bar>of_nat q - of_nat n / (of_nat d :: rat)\<bar> = 1 / 2 \<longrightarrow> even q)"
proof -
  note spec = round_half_even_div_spec [OF assms(1), of n, folded q_def]
  let ?q = "of_nat q :: rat" and ?n = "of_nat n :: rat" and ?d = "of_nat d :: rat"
  have d: "0 < ?d" using assms by simp
  have cast: "of_int (2 * int q * int d) = 2 * ?q * ?d" "of_int (2 * int n + int d) = 2 * ?n + ?d"
    "of_int (2 * int n) = 2 * ?n" "of_int (2 * int q * int d + int d) = 2 * ?q * ?d + ?d" by simp_all
  have le: "2 * ?q * ?d \<le> 2 * ?n + ?d" "2 * ?n \<le> 2 * ?q * ?d + ?d"
    using spec of_int_le_iff [of "2 * int q * int d" "2 * int n + int d", where ?'a = rat]
      of_int_le_iff [of "2 * int n" "2 * int q * int d + int d", where ?'a = rat]
    by (simp_all only: cast simp_thms)
  have eq: "2 * ?q * ?d = 2 * ?n + ?d \<Longrightarrow> even q" "2 * ?n = 2 * ?q * ?d + ?d \<Longrightarrow> even q"
    using spec of_int_eq_iff [of "2 * int q * int d" "2 * int n + int d", where ?'a = rat]
      of_int_eq_iff [of "2 * int n" "2 * int q * int d + int d", where ?'a = rat]
    by (simp_all only: cast simp_thms)
  have "?q - ?n / ?d \<le> 1 / 2" "?n / ?d - ?q \<le> 1 / 2"
    using le d by (simp_all add: field_simps)
  moreover have "?q - ?n / ?d = 1 / 2 \<Longrightarrow> even q" "?n / ?d - ?q = 1 / 2 \<Longrightarrow> even q"
    using eq d by (simp_all add: field_simps)
  ultimately show ?thesis by (auto simp: abs_if split: if_splits)
qed

lemma quantize_ms_spec:
  defines "x \<equiv> \<lambda>c e. 1000 * (of_nat c * (10::rat) powi e)"
  shows "\<bar>of_nat (quantize_ms c e) - x c e\<bar> \<le> 1 / 2
    \<and> (\<bar>of_nat (quantize_ms c e) - x c e\<bar> = 1 / 2 \<longrightarrow> even (quantize_ms c e))"
proof -
  have x: "x c e = of_nat c * 10 powi (e + 3)"
    by (simp add: x_def power_int_add)
  show ?thesis
  proof (cases "0 \<le> e + 3")
    case True
    then have "x c e = of_nat (quantize_ms c e)"
      unfolding x by (simp add: quantize_ms_def flip: power_int_of_nat)
    then show ?thesis by simp
  next
    case False
    then have "(10::rat) powi (e + 3) = inverse (10 ^ nat (- (e + 3)))"
      by (simp add: power_int_def power_one_over inverse_eq_divide)
    then have "x c e = of_nat c / of_nat (10 ^ nat (- (e + 3)))"
      unfolding x by (simp add: divide_inverse)
    then show ?thesis
      using half_even_rat [of "10 ^ nat (- (e + 3))" c] False by (simp add: quantize_ms_def)
  qed
qed

text \<open>Seconds become the nearest integer number of milliseconds, ties to even, and only for
  non-negative values that fit a signed 64-bit integer.\<close>

theorem milliseconds_nearest_even:
  assumes "milliseconds_from_seconds v = Inr m"
  shows "\<exists>d q. decimal_of_value v = Inr d \<and> dec_value d = Some q \<and> 0 \<le> q
    \<and> \<bar>of_int m - 1000 * q\<bar> \<le> 1 / 2 \<and> (\<bar>of_int m - 1000 * q\<bar> = 1 / 2 \<longrightarrow> even m)
    \<and> 0 \<le> m \<and> m \<le> int64_max"
proof -
  obtain s where s: "canonical_decimal_string v = Inr s"
    and b: "(case parse_decimal s of
          Some (Dec sg c e) \<Rightarrow>
            if sg \<and> c \<noteq> 0 then Inl (CanonicalNumberError ''time in seconds must be non-negative'')
            else bind_res (validate_int64 (int (quantize_ms c e))) (\<lambda>_. Inr (int (quantize_ms c e)))
        | _ \<Rightarrow> Inl (CanonicalNumberError ''time must be a finite decimal'')) = Inr m"
    using assms by (auto simp: milliseconds_from_seconds_def bind_res_Inr split: py.splits)
  obtain d d' where d: "decimal_of_value v = Inr d" "parse_decimal s = Some d'" "dec_value d' = dec_value d"
    using s by (rule canonical_decimal_string_parse)
  obtain sg c e where d': "d' = Dec sg c e" using b d(2) by (cases d') auto
  have m: "\<not> (sg \<and> c \<noteq> 0)" "int64_ok (int (quantize_ms c e))" "m = int (quantize_ms c e)"
    using b by (auto simp: d(2) d' validate_int64_def bind_res_Inr split: if_splits)
  have v: "dec_value d = Some (of_nat c * (10::rat) powi e)"
    using m(1) d(3) by (auto simp: d' dec_value_def)
  let ?q = "of_nat c * (10::rat) powi e"
  have mr: "(of_int m :: rat) = of_nat (quantize_ms c e)" "even m \<longleftrightarrow> even (quantize_ms c e)"
    by (simp_all add: m(3))
  have near: "\<bar>of_int m - 1000 * ?q\<bar> \<le> 1 / 2 \<and> (\<bar>of_int m - 1000 * ?q\<bar> = 1 / 2 \<longrightarrow> even m)"
    unfolding mr by (rule quantize_ms_spec)
  have range: "0 \<le> ?q" "0 \<le> m" "m \<le> int64_max"
    using m(2) unfolding m(3) int64_ok_def by simp_all
  show ?thesis
    by (rule exI [of _ d], rule exI [of _ ?q]) (intro conjI d(1) v range conjunct1 [OF near] conjunct2 [OF near])
qed

theorem milliseconds_nearest_even_witness:
  "\<exists>d q. decimal_of_value (PStr ''0.0125'') = Inr d \<and> dec_value d = Some q
    \<and> \<bar>of_int 12 - 1000 * q\<bar> \<le> 1 / 2 \<and> even (12::int)"
proof -
  have h: "milliseconds_from_seconds (PStr ''0.0125'') = Inr 12" by code_simp
  obtain d q where "decimal_of_value (PStr ''0.0125'') = Inr d" "dec_value d = Some q"
    "\<bar>of_int 12 - 1000 * q\<bar> \<le> 1 / 2"
    using milliseconds_nearest_even [OF h] by (elim exE conjE) (rule that)
  then show ?thesis by (intro exI conjI) simp_all
qed

end
