(* ===== verification/Canonical_Json.thy ===== *)
theory Canonical_Json
  imports Canonical "HOL-Library.Multiset"
begin

section \<open>Canonical JSON bytes and digests (contracts/canonical.py)\<close>

text \<open>
  \<open>canonical_bytes\<close> in its two passes: \<open>_normalize\<close> walks the value with the shared item counter
  and closes it over null, booleans, 64-bit integers, strings, lists and string-keyed objects;
  \<open>json.dumps\<close> prints the result with sorted keys, no spaces and minimal escapes, and UTF-8
  encodes it. The lemmas show that the bytes determine the normalized value up to the order of
  object keys, so two contents with one digest are the same content or a SHA-256 collision.
\<close>

subsection \<open>Normalization\<close>

datatype jv =
    JNull
  | JBool bool
  | JInt int
  | JStr string
  | JArr "jv list"
  | JObj "(string \<times> jv) list"

text \<open>The counter \<open>item_count[0]\<close> is the state of the walk; every recursive call returns it.\<close>

definition mapping_key :: "py \<Rightarrow> (string \<times> jv) list \<Rightarrow> v3_error + string" where
  "mapping_key k seen =
     (case k of
        PStr s \<Rightarrow> if s \<in> set (map fst seen)
          then Inl (CanonicalTypeError ''canonical mapping keys collide after Unicode normalization'')
          else Inr s
      | _ \<Rightarrow> Inl (CanonicalTypeError ''canonical mapping keys must be strings''))"

fun normalize :: "int \<Rightarrow> int \<Rightarrow> int \<Rightarrow> int \<Rightarrow> py \<Rightarrow> v3_error + (jv \<times> int)"
  and normalize_items :: "int \<Rightarrow> int \<Rightarrow> int \<Rightarrow> int \<Rightarrow> py list \<Rightarrow> v3_error + (jv list \<times> int)"
  and normalize_mapping :: "int \<Rightarrow> int \<Rightarrow> int \<Rightarrow> int \<Rightarrow> (string \<times> jv) list \<Rightarrow> (py \<times> py) list
         \<Rightarrow> v3_error + ((string \<times> jv) list \<times> int)" where
  "normalize max_depth max_items depth n v =
     (if max_depth < depth then Inl (CanonicalBoundsError ''canonical payload exceeds maximum depth'')
      else if max_items < n + 1 then Inl (CanonicalBoundsError ''canonical payload exceeds maximum item count'')
      else (case v of
          PNone \<Rightarrow> Inr (JNull, n + 1)
        | PBool b \<Rightarrow> Inr (JBool b, n + 1)
        | PInt i \<Rightarrow> map_res (\<lambda>_. (JInt i, n + 1)) (validate_int64 i)
        | PDec d \<Rightarrow> map_res (\<lambda>s. (JStr s, n + 1)) (canonical_decimal_string v)
        | PFloat d \<Rightarrow> map_res (\<lambda>s. (JStr s, n + 1)) (canonical_decimal_string v)
        | PStr s \<Rightarrow> Inr (JStr s, n + 1)
        | PSeq xs \<Rightarrow> map_res (\<lambda>(js, m). (JArr js, m)) (normalize_items max_depth max_items (depth + 1) (n + 1) xs)
        | PMap kvs \<Rightarrow> map_res (\<lambda>(js, m). (JObj js, m)) (normalize_mapping max_depth max_items (depth + 1) (n + 1) [] kvs)
        | POther t \<Rightarrow> Inl (CanonicalTypeError (''canonical payload contains unsupported type '' @ t))))"
| "normalize_items max_depth max_items depth n [] = Inr ([], n)"
| "normalize_items max_depth max_items depth n (x # xs) =
     bind_res (normalize max_depth max_items depth n x) (\<lambda>(j, m).
     map_res (\<lambda>(js, l). (j # js, l)) (normalize_items max_depth max_items depth m xs))"
| "normalize_mapping max_depth max_items depth n seen [] = Inr (seen, n)"
| "normalize_mapping max_depth max_items depth n seen ((k, x) # kvs) =
     bind_res (mapping_key k seen) (\<lambda>s.
     bind_res (normalize max_depth max_items depth n x) (\<lambda>(j, m).
     normalize_mapping max_depth max_items depth m (seen @ [(s, j)]) kvs))"

declare normalize.simps(1) [simp del]

subsection \<open>Printing\<close>

definition hex_low :: "nat \<Rightarrow> string" where
  "hex_low n = [CHR ''0'', CHR ''0'', hex_char (n div 16), hex_char n]"

text \<open>\<open>json.dumps(..., ensure_ascii=False)\<close>: the escapes of \<open>ESCAPE_DCT\<close> and four-digit escapes
  of the other control characters.\<close>

definition escape_char :: "char \<Rightarrow> string" where
  "escape_char c =
     (if c = CHR 0x22 then [CHR 0x5C, CHR 0x22]
      else if c = CHR 0x5C then [CHR 0x5C, CHR 0x5C]
      else if c = CHR 0x0A then [CHR 0x5C, CHR ''n'']
      else if c = CHR 0x0D then [CHR 0x5C, CHR ''r'']
      else if c = CHR 0x09 then [CHR 0x5C, CHR ''t'']
      else if c = CHR 0x08 then [CHR 0x5C, CHR ''b'']
      else if c = CHR 0x0C then [CHR 0x5C, CHR ''f'']
      else if (of_char c :: nat) < 32 then [CHR 0x5C, CHR ''u''] @ hex_low (of_char c)
      else [c])"

definition quote_string :: "string \<Rightarrow> string" where
  "quote_string s = [CHR 0x22] @ concat (map escape_char s) @ [CHR 0x22]"

definition comma_join :: "string list \<Rightarrow> string" where
  "comma_join xs = (case xs of [] \<Rightarrow> [] | y # ys \<Rightarrow> y @ concat (map (\<lambda>z. CHR '','' # z) ys))"

fun dumps :: "jv \<Rightarrow> string" where
  "dumps JNull = ''null''"
| "dumps (JBool b) = (if b then ''true'' else ''false'')"
| "dumps (JInt n) = int_string n"
| "dumps (JStr s) = quote_string s"
| "dumps (JArr xs) = [CHR 0x5B] @ comma_join (map dumps xs) @ [CHR 0x5D]"
| "dumps (JObj kvs) = [CHR 0x7B]
     @ comma_join (map (\<lambda>(k, t). quote_string k @ [CHR '':''] @ t) (sort_key fst (map (\<lambda>(k, v). (k, dumps v)) kvs)))
     @ [CHR 0x7D]"

definition require_positive_bound :: "int \<Rightarrow> string \<Rightarrow> v3_error + unit" where
  "require_positive_bound n label = guards
     [(n \<le> 0, CanonicalBoundsError (label @ '' must be a positive integer''))]"

definition canonical_bytes_bounded :: "int \<Rightarrow> int \<Rightarrow> int \<Rightarrow> py \<Rightarrow> v3_error + bytes" where
  "canonical_bytes_bounded max_depth max_bytes max_items v =
     bind_res (require_positive_bound max_depth ''max_depth'') (\<lambda>_.
     bind_res (require_positive_bound max_bytes ''max_bytes'') (\<lambda>_.
     bind_res (require_positive_bound max_items ''max_items'') (\<lambda>_.
     bind_res (normalize max_depth max_items 0 0 v) (\<lambda>(j, _).
     let encoded = utf8 (dumps j) in
     if max_bytes < int (length encoded)
     then Inl (CanonicalBoundsError ''canonical payload exceeds maximum bytes'')
     else Inr encoded))))"

definition canonical_bytes :: "py \<Rightarrow> v3_error + bytes" where
  "canonical_bytes v = canonical_bytes_bounded default_max_depth default_max_bytes default_max_items v"

definition canonical_digest :: "py \<Rightarrow> v3_error + string" where
  "canonical_digest v = map_res sha256_hex (canonical_bytes v)"

text \<open>\<open>deterministic_identifier\<close> of \<open>contracts/identifiers.py\<close>.\<close>

definition deterministic_identifier :: "string \<Rightarrow> py \<Rightarrow> v3_error + string" where
  "deterministic_identifier ns payload =
     bind_res (validate_namespace ns) (\<lambda>_.
     bind_res (canonical_bytes payload) (\<lambda>b.
     validate_identifier (PStr (ns @ CHR '':'' # sha256_hex b))))"

text \<open>\<open>canonical_expected_versions\<close>: checked pairs, sorted by identifier.\<close>

definition expected_version :: "py \<times> py \<Rightarrow> v3_error + (string \<times> int)" where
  "expected_version kv = (case kv of (k, v) \<Rightarrow>
     bind_res (require_identifier k None) (\<lambda>i.
     case v of
       PBool b \<Rightarrow> Inl (CanonicalTypeError ''boolean values cannot be expected versions'')
     | PInt n \<Rightarrow>
         if n < 0 then Inl (CanonicalBoundsError ''expected versions must be non-negative'')
         else map_res (\<lambda>_. (i, n)) (validate_int64 n)
     | _ \<Rightarrow> Inl (CanonicalTypeError ''expected versions must be integers'')))"

definition canonical_expected_versions :: "py \<Rightarrow> v3_error + (string \<times> int) list" where
  "canonical_expected_versions v =
     (case v of PMap kvs \<Rightarrow> map_res (sort_key fst) (map_all expected_version kvs)
      | _ \<Rightarrow> Inl (CanonicalTypeError ''expected versions must be a mapping''))"

subsection \<open>Printing is prefix-free\<close>

definition stop :: "string \<Rightarrow> bool" where
  "stop s \<longleftrightarrow> s = [] \<or> hd s \<in> {CHR '','', CHR 0x5D, CHR 0x7D}"

lemma stop_simps [simp]:
  "stop []" "stop (CHR '','' # s)" "stop (CHR 0x5D # s)" "stop (CHR 0x7D # s)"
  by (simp_all add: stop_def)

lemma span_inj:
  assumes "a @ xs = b @ ys" "\<forall>c \<in> set a. P c" "\<forall>c \<in> set b. P c"
    "xs = [] \<or> \<not> P (hd xs)" "ys = [] \<or> \<not> P (hd ys)"
  shows "a = b \<and> xs = ys"
proof -
  have "takeWhile P (a @ xs) = a" "takeWhile P (b @ ys) = b"
    using assms(2-) by (auto simp: takeWhile_append takeWhile_eq_Nil_iff neq_Nil_conv)
  then show ?thesis using assms(1) by auto
qed

definition int_part :: "char \<Rightarrow> bool" where
  "int_part c \<longleftrightarrow> is_digit c \<or> c = CHR ''-''"

lemma int_string_chars: "\<forall>c \<in> set (int_string n). int_part c"
  by (auto simp: int_string_def int_part_def dest: digits_all)

lemma int_string_nonempty [simp]: "int_string n \<noteq> []"
  by (simp add: int_string_def)

lemma int_string_inj: "int_string m = int_string n \<longleftrightarrow> m = n"
proof
  assume eq: "int_string m = int_string n"
  have no: "CHR ''-'' # s \<noteq> digits k" for s k
    by (metis digits_all digit_not_special(2) list.set_intros(1))
  show "m = n"
  proof (cases "m < 0"; cases "n < 0")
    assume "m < 0" "n < 0"
    then show ?thesis using eq by (simp add: int_string_def digits_inj)
  next
    assume "m < 0" "\<not> n < 0"
    then show ?thesis using eq no by (simp add: int_string_def)
  next
    assume "\<not> m < 0" "n < 0"
    then show ?thesis using eq no [symmetric] by (simp add: int_string_def)
  next
    assume "\<not> m < 0" "\<not> n < 0"
    then show ?thesis using eq by (simp add: int_string_def digits_inj)
  qed
qed simp

lemma stop_not_int_part: "stop s \<Longrightarrow> s = [] \<or> \<not> int_part (hd s)"
proof -
  have "\<forall>c \<in> set [CHR '','', CHR 0x5D, CHR 0x7D]. \<not> int_part c" by code_simp
  then show "stop s \<Longrightarrow> s = [] \<or> \<not> int_part (hd s)" by (auto simp: stop_def)
qed

lemma int_string_prefix:
  assumes "int_string m @ xs = int_string n @ ys" "stop xs" "stop ys"
  shows "m = n \<and> xs = ys"
  using span_inj [OF assms(1) int_string_chars int_string_chars] assms(2,3)
  by (auto dest: stop_not_int_part simp: int_string_inj)

lemma int_part_heads:
  assumes "int_part c"
  shows "c \<noteq> CHR ''n''" "c \<noteq> CHR ''t''" "c \<noteq> CHR ''f''" "c \<noteq> CHR 0x22" "c \<noteq> CHR 0x5B" "c \<noteq> CHR 0x7B"
    "c \<noteq> CHR '',''" "c \<noteq> CHR 0x5D" "c \<noteq> CHR 0x7D"
proof -
  have "\<forall>c \<in> set [CHR ''n'', CHR ''t'', CHR ''f'', CHR 0x22, CHR 0x5B, CHR 0x7B, CHR '','', CHR 0x5D, CHR 0x7D].
     \<not> int_part c" by code_simp
  then have "c \<notin> set [CHR ''n'', CHR ''t'', CHR ''f'', CHR 0x22, CHR 0x5B, CHR 0x7B, CHR '','', CHR 0x5D, CHR 0x7D]"
    using assms by blast
  then show "c \<noteq> CHR ''n''" "c \<noteq> CHR ''t''" "c \<noteq> CHR ''f''" "c \<noteq> CHR 0x22" "c \<noteq> CHR 0x5B" "c \<noteq> CHR 0x7B"
    "c \<noteq> CHR '',''" "c \<noteq> CHR 0x5D" "c \<noteq> CHR 0x7D" by auto
qed

lemma int_string_head: "int_string n = c # s \<Longrightarrow> int_part c"
  using int_string_chars [of n] by simp

subsubsection \<open>Strings\<close>

lemma hex_char_inj: "a < 16 \<Longrightarrow> b < 16 \<Longrightarrow> hex_char a = hex_char b \<longleftrightarrow> a = b"
proof -
  have "\<forall>a \<in> set [0..<16]. \<forall>b \<in> set [0..<16]. hex_char a = hex_char b \<longleftrightarrow> a = b" by code_simp
  then show "a < 16 \<Longrightarrow> b < 16 \<Longrightarrow> hex_char a = hex_char b \<longleftrightarrow> a = b" by simp
qed

lemma hex_low_inj:
  assumes "m < 256" "n < 256" "hex_low m = hex_low n"
  shows "m = n"
proof -
  have h: "hex_char k = hex_char (k mod 16)" for k by (simp add: hex_char_def)
  have "m div 16 < 16" "n div 16 < 16" using assms by auto
  then have "m div 16 = n div 16" using assms(3) by (simp add: hex_low_def hex_char_inj)
  moreover have "m mod 16 = n mod 16"
    using assms(3) h [of m] h [of n] by (simp add: hex_low_def hex_char_inj)
  ultimately show ?thesis by (metis div_mod_decomp)
qed

text \<open>The three shapes of an escaped character.\<close>

definition escape_letter :: "char \<Rightarrow> char option" where
  "escape_letter c =
     map_of [(CHR 0x22, CHR 0x22), (CHR 0x5C, CHR 0x5C), (CHR 0x0A, CHR ''n''), (CHR 0x0D, CHR ''r''),
       (CHR 0x09, CHR ''t''), (CHR 0x08, CHR ''b''), (CHR 0x0C, CHR ''f'')] c"

lemma escape_char_cases:
  "escape_char c = (case escape_letter c of Some x \<Rightarrow> [CHR 0x5C, x]
     | None \<Rightarrow> if (of_char c :: nat) < 32 then CHR 0x5C # CHR ''u'' # hex_low (of_char c) else [c])"
  by (simp add: escape_char_def escape_letter_def)

lemma escape_letter_inj:
  assumes "escape_letter c = Some x" "escape_letter d = Some x"
  shows "c = d"
  using assms by (auto simp: escape_letter_def split: if_splits)

lemma escape_letter_facts:
  "escape_letter c = Some x \<Longrightarrow> x \<noteq> CHR ''u''"
  "escape_letter c = None \<Longrightarrow> c \<noteq> CHR 0x5C \<and> c \<noteq> CHR 0x22"
  by (auto simp: escape_letter_def split: if_splits)

lemma hex_low_append: "hex_low m @ xs = hex_low n @ ys \<longleftrightarrow> hex_low m = hex_low n \<and> xs = ys"
  by (simp add: hex_low_def)

lemma escape_char_prefix_free:
  assumes "escape_char c @ xs = escape_char d @ ys"
  shows "c = d \<and> xs = ys"
proof (cases "escape_letter c"; cases "escape_letter d")
  fix x y assume "escape_letter c = Some x" "escape_letter d = Some y"
  then show ?thesis using assms escape_letter_inj by (auto simp: escape_char_cases)
next
  fix x assume "escape_letter c = Some x" "escape_letter d = None"
  then show ?thesis using assms escape_letter_facts(1) [of c x] escape_letter_facts(2) [of d]
    by (auto simp: escape_char_cases split: if_splits)
next
  fix y assume "escape_letter c = None" "escape_letter d = Some y"
  then show ?thesis using assms escape_letter_facts(1) [of d y] escape_letter_facts(2) [of c]
    by (auto simp: escape_char_cases split: if_splits)
next
  assume n: "escape_letter c = None" "escape_letter d = None"
  show ?thesis
  proof (cases "(of_char c :: nat) < 32 \<and> (of_char d :: nat) < 32")
    case True
    then have "hex_low (of_char c) = hex_low (of_char d) \<and> xs = ys"
      using assms n by (simp add: escape_char_cases hex_low_append)
    then show ?thesis using hex_low_inj [of "of_char c" "of_char d"] by simp
  next
    case False
    then show ?thesis using assms n escape_letter_facts(2)
      by (auto simp: escape_char_cases split: if_splits)
  qed
qed

lemma escape_char_head: "\<exists>x xs. escape_char c = x # xs \<and> x \<noteq> CHR 0x22"
  using escape_letter_facts(2) [of c] by (auto simp: escape_char_cases split: option.splits)

lemma escape_prefix:
  "concat (map escape_char s) @ CHR 0x22 # xs = concat (map escape_char t) @ CHR 0x22 # ys \<Longrightarrow> s = t \<and> xs = ys"
proof (induction s arbitrary: t)
  case Nil
  then show ?case using escape_char_head by (cases t) (auto, metis append_Cons list.inject)
next
  case (Cons c s)
  obtain x u where x: "escape_char c = x # u" "x \<noteq> CHR 0x22" using escape_char_head by blast
  show ?case
  proof (cases t)
    case Nil
    then show ?thesis using Cons.prems x by simp
  next
    case (Cons d t')
    then show ?thesis using Cons.prems Cons.IH [of t'] escape_char_prefix_free [of c _ d]
      by (auto simp: append_assoc)
  qed
qed

lemma quote_prefix: "quote_string s @ xs = quote_string t @ ys \<Longrightarrow> s = t \<and> xs = ys"
  using escape_prefix [of s xs t ys] by (simp add: quote_string_def)

subsubsection \<open>Sequences\<close>

definition prefix_inj :: "('a \<Rightarrow> string) \<Rightarrow> 'a \<Rightarrow> bool" where
  "prefix_inj f x \<longleftrightarrow> (\<forall>y u v. f x @ u = f y @ v \<longrightarrow> stop u \<longrightarrow> stop v \<longrightarrow> x = y \<and> u = v)"

lemma prefix_injD: "prefix_inj f x \<Longrightarrow> f x @ u = f y @ v \<Longrightarrow> stop u \<Longrightarrow> stop v \<Longrightarrow> x = y \<and> u = v"
  by (simp add: prefix_inj_def)

lemma comma_tail_stop: "stop (concat (map (\<lambda>z. CHR '','' # f z) xs) @ s) \<longleftrightarrow> xs \<noteq> [] \<or> stop s"
  by (cases xs) auto

lemma comma_tail_prefix:
  assumes "\<forall>x \<in> set xs. prefix_inj f x" "c \<in> {CHR 0x5D, CHR 0x7D}"
    and "concat (map (\<lambda>z. CHR '','' # f z) xs) @ c # u = concat (map (\<lambda>z. CHR '','' # f z) ys) @ c # v"
  shows "xs = ys \<and> u = v"
  using assms(1,3)
proof (induction xs arbitrary: ys)
  case Nil
  then show ?case using assms(2) by (cases ys) auto
next
  case (Cons x xs)
  show ?case
  proof (cases ys)
    case Nil
    then show ?thesis using Cons.prems assms(2) by auto
  next
    case (Cons y ys')
    have st: "stop (concat (map (\<lambda>z. CHR '','' # f z) zs) @ c # w)" for zs w
      using assms(2) by (auto simp: comma_tail_stop)
    have "f x @ (concat (map (\<lambda>z. CHR '','' # f z) xs) @ c # u) = f y @ (concat (map (\<lambda>z. CHR '','' # f z) ys') @ c # v)"
      using Cons.prems Cons by simp
    then have "x = y \<and> concat (map (\<lambda>z. CHR '','' # f z) xs) @ c # u = concat (map (\<lambda>z. CHR '','' # f z) ys') @ c # v"
      using Cons.prems(1) st by (intro prefix_injD) auto
    then show ?thesis using Cons.IH [of ys'] Cons.prems(1) Cons by simp
  qed
qed

lemma comma_join_prefix:
  assumes "\<forall>x \<in> set xs. prefix_inj f x" "c \<in> {CHR 0x5D, CHR 0x7D}" "\<And>y s. \<not> stop (f y @ s)"
    and "comma_join (map f xs) @ c # u = comma_join (map f ys) @ c # v"
  shows "xs = ys \<and> u = v"
proof -
  have st: "stop (concat (map (\<lambda>z. CHR '','' # f z) zs) @ c # w)" for zs w
    using assms(2) by (auto simp: comma_tail_stop)
  show ?thesis
  proof (cases xs; cases ys)
    assume "xs = []" "ys = []"
    then show ?thesis using assms(4) by simp
  next
    fix y ys' assume "xs = []" "ys = y # ys'"
    then have "c # u = f y @ (concat (map (\<lambda>z. CHR '','' # f z) ys') @ c # v)"
      using assms(4) by (simp add: comma_join_def comp_def)
    then have "stop (f y @ (concat (map (\<lambda>z. CHR '','' # f z) ys') @ c # v))"
      using st [of "[]" u] by simp
    then show ?thesis using assms(3) by blast
  next
    fix x xs' assume "xs = x # xs'" "ys = []"
    then have "f x @ (concat (map (\<lambda>z. CHR '','' # f z) xs') @ c # u) = c # v"
      using assms(4) by (simp add: comma_join_def comp_def)
    then have "stop (f x @ (concat (map (\<lambda>z. CHR '','' # f z) xs') @ c # u))"
      using st [of "[]" v] by simp
    then show ?thesis using assms(3) by blast
  next
    fix x xs' y ys' assume l: "xs = x # xs'" "ys = y # ys'"
    have "f x @ (concat (map (\<lambda>z. CHR '','' # f z) xs') @ c # u) = f y @ (concat (map (\<lambda>z. CHR '','' # f z) ys') @ c # v)"
      using assms(4) by (simp add: l comma_join_def comp_def)
    then have "x = y" "concat (map (\<lambda>z. CHR '','' # f z) xs') @ c # u = concat (map (\<lambda>z. CHR '','' # f z) ys') @ c # v"
      using prefix_injD [of f x] st assms(1) l by auto
    then show ?thesis using comma_tail_prefix [of xs' f c u ys' v] assms(1,2) l by simp
  qed
qed

subsubsection \<open>Values\<close>

text \<open>Printing without sorting, and the order of keys the printer imposes.\<close>

fun print_jv :: "jv \<Rightarrow> string" where
  "print_jv JNull = ''null''"
| "print_jv (JBool b) = (if b then ''true'' else ''false'')"
| "print_jv (JInt n) = int_string n"
| "print_jv (JStr s) = quote_string s"
| "print_jv (JArr xs) = [CHR 0x5B] @ comma_join (map print_jv xs) @ [CHR 0x5D]"
| "print_jv (JObj kvs) = [CHR 0x7B] @ comma_join (map (\<lambda>(k, v). quote_string k @ [CHR '':''] @ print_jv v) kvs) @ [CHR 0x7D]"

fun canon :: "jv \<Rightarrow> jv" where
  "canon (JArr xs) = JArr (map canon xs)"
| "canon (JObj kvs) = JObj (sort_key fst (map (\<lambda>(k, v). (k, canon v)) kvs))"
| "canon j = j"

lemma insort_key_map_snd:
  "map (\<lambda>(k, v). (k, f v)) (insort_key fst x xs)
     = insort_key fst (case x of (k, v) \<Rightarrow> (k, f v)) (map (\<lambda>(k, v). (k, f v)) xs)"
  by (induction xs) (auto split: prod.splits)

lemma sort_key_map_snd:
  fixes xs :: "('k::linorder \<times> 'v) list"
  shows "sort_key fst (map (\<lambda>(k, v). (k, f v)) xs) = map (\<lambda>(k, v). (k, f v)) (sort_key fst xs)"
  by (induction xs) (auto simp: insort_key_map_snd split: prod.splits)

lemma dumps_print: "dumps j = print_jv (canon j)"
proof (induction j)
  case (JArr xs)
  then have eq: "map dumps xs = map (\<lambda>x. print_jv (canon x)) xs" by (intro map_cong) auto
  show ?case unfolding dumps.simps canon.simps print_jv.simps map_map comp_def eq ..
next
  case (JObj kvs)
  have eq: "map (\<lambda>(k, v). (k, dumps v)) kvs = map (\<lambda>(k, v). (k, print_jv v)) (map (\<lambda>(k, v). (k, canon v)) kvs)"
    using JObj by (auto simp: snds.simps)
  have comp: "(\<lambda>(k, t). quote_string k @ [CHR '':''] @ t) \<circ> (\<lambda>(k, v). (k, print_jv v))
      = (\<lambda>(k, v). quote_string k @ [CHR '':''] @ print_jv v)"
    by (auto simp: fun_eq_iff)
  have "map (\<lambda>(k, t). quote_string k @ [CHR '':''] @ t) (sort_key fst (map (\<lambda>(k, v). (k, dumps v)) kvs))
      = map (\<lambda>(k, v). quote_string k @ [CHR '':''] @ print_jv v) (sort_key fst (map (\<lambda>(k, v). (k, canon v)) kvs))"
    unfolding eq sort_key_map_snd [of print_jv] map_map [of "\<lambda>(k, t). quote_string k @ [CHR '':''] @ t"] comp ..
  then show ?case by (simp only: dumps.simps canon.simps print_jv.simps)
qed simp_all

lemma print_jv_head: "\<not> stop (print_jv j @ s)"
proof (cases j)
  case (JInt n)
  obtain c t where c: "int_string n = c # t" by (cases "int_string n") auto
  then show ?thesis using int_part_heads [OF int_string_head [OF c]] by (simp add: JInt stop_def)
qed (auto simp: stop_def quote_string_def)

lemma print_jv_prefix_inj: "prefix_inj print_jv j"
proof (induction j)
  case (JInt m)
  show ?case unfolding prefix_inj_def
  proof (intro allI impI)
    fix y u v assume eq: "print_jv (JInt m) @ u = print_jv y @ v" and st: "stop u" "stop v"
    obtain c t where c: "int_string m = c # t" by (cases "int_string m") auto
    note h = int_part_heads [OF int_string_head [OF c]]
    show "JInt m = y \<and> u = v"
    proof (cases y)
      case (JInt n)
      then show ?thesis using eq int_string_prefix [of m u n v] st by simp
    qed (use eq c h in \<open>auto simp: quote_string_def split: if_splits\<close>)
  qed
next
  case (JStr s)
  show ?case unfolding prefix_inj_def
  proof (intro allI impI)
    fix y u v assume eq: "print_jv (JStr s) @ u = print_jv y @ v"
    show "JStr s = y \<and> u = v"
    proof (cases y)
      case (JInt n)
      obtain c t where c: "int_string n = c # t" by (cases "int_string n") auto
      then show ?thesis using eq JInt int_part_heads [OF int_string_head [OF c]] by (auto simp: quote_string_def)
    next
      case (JStr t)
      then show ?thesis using eq quote_prefix [of s u t v] by simp
    qed (use eq in \<open>auto simp: quote_string_def split: if_splits\<close>)
  qed
next
  case (JArr xs)
  then have xs: "\<forall>x \<in> set xs. prefix_inj print_jv x" by simp
  show ?case unfolding prefix_inj_def
  proof (intro allI impI)
    fix y u v assume eq: "print_jv (JArr xs) @ u = print_jv y @ v"
    show "JArr xs = y \<and> u = v"
    proof (cases y)
      case (JInt n)
      obtain c t where c: "int_string n = c # t" by (cases "int_string n") auto
      then show ?thesis using eq JInt int_part_heads [OF int_string_head [OF c]] by auto
    next
      case (JArr ys)
      then show ?thesis using eq comma_join_prefix [OF xs, of "CHR 0x5D" u ys v] print_jv_head by simp
    qed (use eq in \<open>auto simp: quote_string_def split: if_splits\<close>)
  qed
next
  case (JObj kvs)
  define f where "f = (\<lambda>(k, v). quote_string k @ [CHR '':''] @ print_jv v)"
  have kvs: "\<forall>x \<in> set kvs. prefix_inj f x"
  proof
    fix x assume x: "x \<in> set kvs"
    obtain k w where kw: "x = (k, w)" by (cases x)
    have w: "prefix_inj print_jv w" using JObj x by (auto simp: kw snds.simps)
    show "prefix_inj f x" unfolding prefix_inj_def
    proof (intro allI impI)
      fix y u v assume eq: "f x @ u = f y @ v" and st: "stop u" "stop v"
      obtain k' w' where y: "y = (k', w')" by (cases y)
      from eq have "quote_string k @ CHR '':'' # print_jv w @ u = quote_string k' @ CHR '':'' # print_jv w' @ v"
        by (simp add: f_def kw y)
      then have "k = k'" "print_jv w @ u = print_jv w' @ v" by (auto dest: quote_prefix)
      then show "x = y \<and> u = v" using prefix_injD [OF w _ st, of w'] by (simp add: kw y)
    qed
  qed
  have head: "\<not> stop (f y @ s)" for y s
    by (cases y) (simp add: f_def quote_string_def stop_def)
  show ?case unfolding prefix_inj_def
  proof (intro allI impI)
    fix y u v assume eq: "print_jv (JObj kvs) @ u = print_jv y @ v"
    show "JObj kvs = y \<and> u = v"
    proof (cases y)
      case (JInt n)
      obtain c t where c: "int_string n = c # t" by (cases "int_string n") auto
      then show ?thesis using eq JInt int_part_heads [OF int_string_head [OF c]] by auto
    next
      case (JObj kvs')
      then show ?thesis using eq comma_join_prefix [OF kvs, of "CHR 0x7D" u kvs' v] head
        by (simp add: f_def)
    qed (use eq in \<open>auto simp: quote_string_def split: if_splits\<close>)
  qed
next
  case JNull
  show ?case unfolding prefix_inj_def
  proof (intro allI impI)
    fix y u v assume eq: "print_jv JNull @ u = print_jv y @ v"
    show "JNull = y \<and> u = v"
    proof (cases y)
      case (JInt n)
      obtain c t where c: "int_string n = c # t" by (cases "int_string n") auto
      then show ?thesis using eq JInt int_part_heads [OF int_string_head [OF c]] by auto
    qed (use eq in \<open>auto simp: quote_string_def split: if_splits\<close>)
  qed
next
  case (JBool b)
  show ?case unfolding prefix_inj_def
  proof (intro allI impI)
    fix y u v assume eq: "print_jv (JBool b) @ u = print_jv y @ v"
    show "JBool b = y \<and> u = v"
    proof (cases y)
      case (JInt n)
      obtain c t where c: "int_string n = c # t" by (cases "int_string n") auto
      then show ?thesis using eq JInt int_part_heads [OF int_string_head [OF c]] by (auto split: if_splits)
    qed (use eq in \<open>auto simp: quote_string_def split: if_splits\<close>)
  qed
qed

subsection \<open>Bytes identify contents\<close>

lemma dumps_eq_iff: "dumps i = dumps j \<longleftrightarrow> canon i = canon j"
  using prefix_injD [OF print_jv_prefix_inj [of "canon i"], of "[]" "canon j" "[]"]
  by (auto simp: dumps_print)

text \<open>The content of a value: what normalization makes of it, up to the order of object keys.\<close>

definition content :: "py \<Rightarrow> v3_error + jv" where
  "content v = map_res (\<lambda>(j, _). canon j) (normalize default_max_depth default_max_items 0 0 v)"

lemma canonical_bytes_Inr:
  "canonical_bytes v = Inr b \<longleftrightarrow>
     (\<exists>j n. normalize default_max_depth default_max_items 0 0 v = Inr (j, n)
        \<and> b = utf8 (dumps j) \<and> int (length b) \<le> default_max_bytes)"
proof -
  have pos: "0 < default_max_depth" "0 < default_max_bytes" "0 < default_max_items"
    by (simp_all add: default_max_depth_def default_max_bytes_def default_max_items_def)
  show ?thesis
  proof (cases "normalize default_max_depth default_max_items 0 0 v")
    case (Inl e)
    then show ?thesis using pos
      by (simp add: canonical_bytes_def canonical_bytes_bounded_def require_positive_bound_def)
  next
    case (Inr p)
    then show ?thesis using pos
      by (cases p) (auto simp: canonical_bytes_def canonical_bytes_bounded_def require_positive_bound_def Let_def)
  qed
qed

lemma canonical_bytes_eq_iff:
  assumes "canonical_bytes v = Inr b"
  shows "canonical_bytes w = Inr b \<longleftrightarrow> content w = content v"
proof -
  obtain j n where j: "normalize default_max_depth default_max_items 0 0 v = Inr (j, n)"
    "b = utf8 (dumps j)" "int (length b) \<le> default_max_bytes"
    using assms by (auto simp: canonical_bytes_Inr)
  show ?thesis
  proof (cases "normalize default_max_depth default_max_items 0 0 w")
    case (Inl e)
    then show ?thesis by (simp add: canonical_bytes_Inr content_def j(1))
  next
    case (Inr p)
    then show ?thesis using j(3)
      by (cases p) (auto simp: canonical_bytes_Inr content_def j(1,2) utf8_inj dumps_eq_iff)
  qed
qed

text \<open>C31. Canonical bytes are faithful: a value whose canonical bytes exist has the same bytes as
  another exactly when both have the same content, so key order never matters and nothing else
  is lost.\<close>

theorem canonical_bytes_identify_content:
  assumes "canonical_bytes v = Inr b"
  shows "canonical_bytes w = Inr b \<longleftrightarrow> content w = content v"
  using assms by (rule canonical_bytes_eq_iff)

theorem canonical_bytes_identify_content_witness:
  "canonical_bytes (obj [(''b'', PInt 1), (''a'', PNone)])
     = Inr (utf8 ([CHR 0x7B, CHR 0x22, CHR ''a'', CHR 0x22] @ '':null,'' @ [CHR 0x22, CHR ''b'', CHR 0x22] @ '':1'' @ [CHR 0x7D]))"
proof -
  have h: "canonical_bytes (obj [(''a'', PNone), (''b'', PInt 1)])
     = Inr (utf8 ([CHR 0x7B, CHR 0x22, CHR ''a'', CHR 0x22] @ '':null,'' @ [CHR 0x22, CHR ''b'', CHR 0x22] @ '':1'' @ [CHR 0x7D]))"
    by code_simp
  have "content (obj [(''b'', PInt 1), (''a'', PNone)]) = content (obj [(''a'', PNone), (''b'', PInt 1)])"
    by code_simp
  then show ?thesis using canonical_bytes_identify_content [OF h] by simp
qed

text \<open>Two contents with one digest: the same content, or the two byte strings collide.\<close>

lemma canonical_digest_eq:
  assumes "canonical_bytes v = Inr b" "canonical_bytes w = Inr c"
  shows "canonical_digest v = canonical_digest w \<longleftrightarrow> content v = content w \<or> collision b c"
  using canonical_bytes_eq_iff [OF assms(1), of w] assms sha256_eq_cases [of b c]
  by (auto simp: canonical_digest_def)

lemma canonical_digest_is_digest: "canonical_digest v = Inr d \<Longrightarrow> is_digest d"
  by (auto simp: canonical_digest_def map_res_Inr sha.digest_form)

subsection \<open>Content-addressed identifiers\<close>

lemma deterministic_identifier_Inr:
  "deterministic_identifier ns v = Inr i \<longleftrightarrow>
     namespace_ok ns \<and> (\<exists>b. canonical_bytes v = Inr b \<and> i = ns @ CHR '':'' # sha256_hex b)"
proof -
  have "namespace_ok ns \<Longrightarrow> identifier_ok (ns @ CHR '':'' # sha256_hex b)" for b
    using identifier_ok_compose digest_is_local_part [OF sha.digest_form] by simp
  then show ?thesis
    by (auto simp: deterministic_identifier_def validate_namespace_def bind_res_Inr guards_Inr validate_identifier_Inr)
qed

text \<open>A content-addressed identifier exists for every payload with canonical bytes, carries the
  requested namespace, and is shared by another payload only if that payload has the same content
  or the two canonical byte strings are a SHA-256 collision.\<close>

theorem deterministic_identifier_addresses_content:
  assumes "namespace_ok ns" "canonical_bytes v = Inr b"
  shows "\<exists>i. deterministic_identifier ns v = Inr i \<and> identifier_ok i \<and> identifier_namespace i = ns
    \<and> (deterministic_identifier ns w = Inr i \<longleftrightarrow>
        content w = content v \<or> (\<exists>c. canonical_bytes w = Inr c \<and> collision b c))"
proof -
  let ?i = "ns @ CHR '':'' # sha256_hex b"
  have i: "deterministic_identifier ns v = Inr ?i"
    using assms by (simp add: deterministic_identifier_Inr)
  have ok: "identifier_ok ?i \<and> identifier_namespace ?i = ns"
    using identifier_ok_compose [OF assms(1) digest_is_local_part [OF sha.digest_form]] by simp
  have "deterministic_identifier ns w = Inr ?i \<longleftrightarrow> (\<exists>c. canonical_bytes w = Inr c \<and> sha256_hex b = sha256_hex c)"
    using assms(1) by (auto simp: deterministic_identifier_Inr)
  also have "\<dots> \<longleftrightarrow> canonical_bytes w = Inr b \<or> (\<exists>c. canonical_bytes w = Inr c \<and> collision b c)"
    by (auto simp: sha256_eq_cases)
  also have "canonical_bytes w = Inr b \<longleftrightarrow> content w = content v"
    by (rule canonical_bytes_eq_iff [OF assms(2)])
  finally show ?thesis using i ok by blast
qed

theorem deterministic_identifier_addresses_content_witness:
  "\<exists>i. deterministic_identifier ''field'' (PInt 7) = Inr i \<and> identifier_namespace i = ''field''"
proof -
  have n: "namespace_ok ''field''" by code_simp
  have b: "canonical_bytes (PInt 7) = Inr (utf8 ''7'')" by code_simp
  from deterministic_identifier_addresses_content [OF n b, of "PInt 7"] show ?thesis by (elim exE conjE) (rule exI, rule conjI)
qed

subsection \<open>Expected versions\<close>

lemma map_all_perm:
  assumes "map_all f xs = Inr ys" "mset xs' = mset xs"
  shows "\<exists>ys'. map_all f xs' = Inr ys' \<and> mset ys' = mset ys"
proof -
  from assms(1) have l: "list_all2 (\<lambda>x y. f x = Inr y) xs ys" by (simp add: map_all_Inr_iff)
  from list_all2_reorder_left_invariance [OF l assms(2)] show ?thesis
    by (auto simp: map_all_Inr_iff)
qed

lemma expected_version_Inr:
  "expected_version (k, v) = Inr p \<longleftrightarrow>
     k = PStr (fst p) \<and> v = PInt (snd p) \<and> identifier_ok (fst p) \<and> 0 \<le> snd p \<and> snd p \<le> int64_max"
  by (cases p; cases v) (auto simp: expected_version_def bind_res_Inr require_identifier_Inr validate_int64_def
      map_res_Inr guards_Inr int64_ok_def int64_min_def)

lemma expected_versions_pairs:
  "map_all expected_version kvs = Inr vs \<Longrightarrow>
     kvs = map (\<lambda>(k, n). (PStr k, PInt n)) vs \<and> (\<forall>(k, n) \<in> set vs. identifier_ok k \<and> 0 \<le> n \<and> n \<le> int64_max)"
proof (induction kvs arbitrary: vs)
  case (Cons kv kvs)
  obtain k v where kv: "kv = (k, v)" by (cases kv)
  with Cons show ?case
    by (auto simp: bind_res_Inr map_res_Inr expected_version_Inr)
qed simp

text \<open>Expected versions are canonical: the checked pairs come out sorted by identifier, with
  every version in the signed 64-bit range, and the order in which the mapping lists its keys
  never matters.\<close>

theorem expected_versions_canonical:
  assumes "canonical_expected_versions (PMap kvs) = Inr vs" "distinct (map fst kvs)" "mset kvs' = mset kvs"
  shows "sorted (map fst vs) \<and> (\<forall>(k, n) \<in> set vs. identifier_ok k \<and> 0 \<le> n \<and> n \<le> int64_max)
    \<and> mset kvs = mset (map (\<lambda>(k, n). (PStr k, PInt n)) vs)
    \<and> canonical_expected_versions (PMap kvs') = Inr vs"
proof -
  obtain ps where ps: "map_all expected_version kvs = Inr ps" "vs = sort_key fst ps"
    using assms(1) by (auto simp: canonical_expected_versions_def map_res_Inr)
  note pairs = expected_versions_pairs [OF ps(1)]
  obtain ps' where ps': "map_all expected_version kvs' = Inr ps'" "mset ps' = mset ps"
    using map_all_perm [OF ps(1) assms(3)] by blast
  have "map fst kvs = map PStr (map fst ps)" using pairs by auto
  then have d: "distinct (map fst ps)" using assms(2) by (metis distinct_map)
  have "mset (map fst ps') = mset (map fst ps)" using ps'(2) by simp
  then have "distinct (map fst ps')" using d mset_eq_imp_distinct_iff by blast
  have st: "set ps' = set ps" using ps'(2) by (rule mset_eq_setD)
  have inj: "inj_on fst (set ps)" using d by (simp add: distinct_map)
  have "sort_key fst ps' = sort_key fst ps"
  proof (rule map_sorted_distinct_set_unique [where f = fst])
    show "inj_on fst (set (sort_key fst ps') \<union> set (sort_key fst ps))"
      using inj st by simp
    have perm: "mset (map fst (sort_key fst zs)) = mset (map fst zs)" for zs :: "(string \<times> int) list"
      by simp
    show "distinct (map fst (sort_key fst ps'))"
      using \<open>distinct (map fst ps')\<close> mset_eq_imp_distinct_iff [OF perm [of ps']] by simp
    show "distinct (map fst (sort_key fst ps))"
      using d mset_eq_imp_distinct_iff [OF perm [of ps]] by simp
    show "set (sort_key fst ps') = set (sort_key fst ps)" using st by simp
  qed simp_all
  then show ?thesis using ps ps'(1) pairs
    by (auto simp: canonical_expected_versions_def)
qed

theorem expected_versions_canonical_witness:
  "canonical_expected_versions (PMap [(PStr ''a:1'', PInt 0), (PStr ''b:1'', PInt 3)]) = Inr [(''a:1'', 0), (''b:1'', 3)]"
proof -
  have h: "canonical_expected_versions (PMap [(PStr ''b:1'', PInt 3), (PStr ''a:1'', PInt 0)]) = Inr [(''a:1'', 0), (''b:1'', 3)]"
    by code_simp
  show ?thesis using expected_versions_canonical [OF h, of "[(PStr ''a:1'', PInt 0), (PStr ''b:1'', PInt 3)]"] by simp
qed

end
