(* ===== verification/Json.thy ===== *)
theory Json
  imports Canonical_Json
begin

section \<open>Reading canonical JSON text\<close>

text \<open>
  \<open>json.loads\<close> on the texts the program accepts. Every caller re-encodes the loaded value and
  compares it with the text, so only canonical text (no white space, minimal escapes) survives;
  the reader covers that sublanguage and returns \<open>None\<close> on the rest, which the callers turn
  into the same rejection. The fuel of the recursive reader is the length of the text.
\<close>

subsection \<open>The reader\<close>

definition hex_digit :: "char \<Rightarrow> nat option" where
  "hex_digit c = map_of (zip ''0123456789abcdef'' [0..<16]) c"

definition unescape_letter :: "char \<Rightarrow> char option" where
  "unescape_letter c =
     map_of [(CHR 0x22, CHR 0x22), (CHR 0x5C, CHR 0x5C), (CHR ''n'', CHR 0x0A), (CHR ''r'', CHR 0x0D),
       (CHR ''t'', CHR 0x09), (CHR ''b'', CHR 0x08), (CHR ''f'', CHR 0x0C)] c"

definition unescape_hex :: "string \<Rightarrow> (char \<times> string) option" where
  "unescape_hex s =
     (case s of a # b # c # d # r \<Rightarrow>
        (case (hex_digit c, hex_digit d) of
           (Some m, Some n) \<Rightarrow> if a = CHR ''0'' \<and> b = CHR ''0'' then Some (char_of (16 * m + n), r) else None
         | _ \<Rightarrow> None)
      | _ \<Rightarrow> None)"

text \<open>The characters up to the closing quote.\<close>

fun read_string :: "nat \<Rightarrow> string \<Rightarrow> (string \<times> string) option" where
  "read_string 0 s = None"
| "read_string (Suc n) s =
     (case s of [] \<Rightarrow> None
      | c # cs \<Rightarrow>
        if c = CHR 0x22 then Some ([], cs)
        else if c = CHR 0x5C then
          (case cs of [] \<Rightarrow> None
           | d # ds \<Rightarrow>
             if d = CHR ''u'' then
               (case unescape_hex ds of None \<Rightarrow> None
                | Some (x, r) \<Rightarrow> map_option (\<lambda>(t, u). (x # t, u)) (read_string n r))
             else
               (case unescape_letter d of None \<Rightarrow> None
                | Some x \<Rightarrow> map_option (\<lambda>(t, u). (x # t, u)) (read_string n ds)))
        else if (of_char c :: nat) < 32 then None
        else map_option (\<lambda>(t, u). (c # t, u)) (read_string n cs))"

definition read_int :: "string \<Rightarrow> int option" where
  "read_int s =
     (let (neg, ds) = split_sign s in
      if ds = [] \<or> \<not> list_all is_digit ds then None
      else Some (if neg then - int (digits_value ds) else int (digits_value ds)))"

definition starts_with :: "string \<Rightarrow> string \<Rightarrow> bool" where
  "starts_with p s \<longleftrightarrow> take (length p) s = p"

fun read_value :: "nat \<Rightarrow> string \<Rightarrow> (py \<times> string) option"
  and read_items :: "nat \<Rightarrow> string \<Rightarrow> (py list \<times> string) option"
  and read_member :: "nat \<Rightarrow> string \<Rightarrow> ((py \<times> py) \<times> string) option"
  and read_members :: "nat \<Rightarrow> string \<Rightarrow> ((py \<times> py) list \<times> string) option" where
  "read_value 0 s = None"
| "read_value (Suc n) s =
     (case s of [] \<Rightarrow> None
      | c # cs \<Rightarrow>
        if c = CHR 0x22 then map_option (\<lambda>(t, r). (PStr t, r)) (read_string (length cs) cs)
        else if c = CHR 0x5B then
          (if starts_with [CHR 0x5D] cs then Some (PSeq [], drop 1 cs)
           else case read_value n cs of None \<Rightarrow> None
             | Some (x, r) \<Rightarrow> map_option (\<lambda>(xs, u). (PSeq (x # xs), u)) (read_items n r))
        else if c = CHR 0x7B then
          (if starts_with [CHR 0x7D] cs then Some (PMap [], drop 1 cs)
           else case read_member n cs of None \<Rightarrow> None
             | Some (kv, r) \<Rightarrow> map_option (\<lambda>(kvs, u). (PMap (kv # kvs), u)) (read_members n r))
        else if starts_with ''null'' s then Some (PNone, drop 4 s)
        else if starts_with ''true'' s then Some (PBool True, drop 4 s)
        else if starts_with ''false'' s then Some (PBool False, drop 5 s)
        else map_option (\<lambda>i. (PInt i, dropWhile int_part s)) (read_int (takeWhile int_part s)))"
| "read_items 0 s = None"
| "read_items (Suc n) s =
     (case s of [] \<Rightarrow> None
      | c # cs \<Rightarrow>
        if c = CHR 0x5D then Some ([], cs)
        else if c = CHR '','' then
          (case read_value n cs of None \<Rightarrow> None
           | Some (x, r) \<Rightarrow> map_option (\<lambda>(xs, u). (x # xs, u)) (read_items n r))
        else None)"
| "read_member 0 s = None"
| "read_member (Suc n) s =
     (case s of [] \<Rightarrow> None
      | c # cs \<Rightarrow>
        if c = CHR 0x22 then
          (case read_string (length cs) cs of None \<Rightarrow> None
           | Some (k, r) \<Rightarrow>
             if starts_with '':'' r
             then map_option (\<lambda>(v, u). ((PStr k, v), u)) (read_value n (drop 1 r)) else None)
        else None)"
| "read_members 0 s = None"
| "read_members (Suc n) s =
     (case s of [] \<Rightarrow> None
      | c # cs \<Rightarrow>
        if c = CHR 0x7D then Some ([], cs)
        else if c = CHR '','' then
          (case read_member n cs of None \<Rightarrow> None
           | Some (kv, r) \<Rightarrow> map_option (\<lambda>(kvs, u). (kv # kvs, u)) (read_members n r))
        else None)"

definition json_loads :: "string \<Rightarrow> py option" where
  "json_loads s = (case read_value (2 * length s + 2) s of Some (v, []) \<Rightarrow> Some v | _ \<Rightarrow> None)"

subsection \<open>Reading what was printed\<close>

fun py_of :: "jv \<Rightarrow> py" where
  "py_of JNull = PNone"
| "py_of (JBool b) = PBool b"
| "py_of (JInt n) = PInt n"
| "py_of (JStr s) = PStr s"
| "py_of (JArr xs) = PSeq (map py_of xs)"
| "py_of (JObj kvs) = PMap (map (\<lambda>(k, v). (PStr k, py_of v)) kvs)"

lemma hex_digit_char: "k < 16 \<Longrightarrow> hex_digit (hex_char k) = Some k"
proof -
  have "\<forall>k \<in> set [0..<16]. hex_digit (hex_char k) = Some k" by code_simp
  then show "k < 16 \<Longrightarrow> hex_digit (hex_char k) = Some k" by simp
qed

lemma unescape_hex_low:
  "unescape_hex (hex_low (of_char c) @ r) = Some (c, r)"
proof -
  let ?n = "of_char c :: nat"
  have n: "?n < 256" by (metis nat_of_char_less_256)
  have h: "hex_char ?n = hex_char (?n mod 16)" by (simp add: hex_char_def)
  have "hex_digit (hex_char (?n div 16)) = Some (?n div 16)" "hex_digit (hex_char ?n) = Some (?n mod 16)"
    using n hex_digit_char [of "?n div 16"] hex_digit_char [of "?n mod 16"] h by (simp_all add: less_mult_imp_div_less)
  moreover have "16 * (?n div 16) + ?n mod 16 = ?n" by simp
  ultimately show ?thesis by (simp add: unescape_hex_def hex_low_def)
qed

lemma unescape_letter_escape: "escape_letter c = Some x \<Longrightarrow> unescape_letter x = Some c"
  by (auto simp: escape_letter_def unescape_letter_def split: if_splits)

lemma read_string_escape:
  "read_string (Suc n) (escape_char c @ s) = map_option (\<lambda>(t, u). (c # t, u)) (read_string n s)"
proof (cases "escape_letter c")
  case (Some x)
  then show ?thesis
    using escape_letter_facts(1) [OF Some] unescape_letter_escape [OF Some] by (simp add: escape_char_cases)
next
  case None
  then show ?thesis using escape_letter_facts(2) [OF None] unescape_hex_low [of c s]
    by (simp add: escape_char_cases)
qed

lemma read_string_quote:
  "length s < n \<Longrightarrow> read_string n (concat (map escape_char s) @ CHR 0x22 # r) = Some (s, r)"
proof (induction s arbitrary: n)
  case Nil
  then show ?case by (cases n) simp_all
next
  case (Cons c s)
  then obtain m where "n = Suc m" "length s < m" by (cases n) auto
  then show ?case using Cons.IH [of m] by (simp add: read_string_escape del: read_string.simps)
qed

lemma escape_length: "length s \<le> length (concat (map escape_char s))"
proof (induction s)
  case (Cons c s)
  have "1 \<le> length (escape_char c)" using escape_char_head [of c] by auto
  then show ?case using Cons by simp
qed simp

lemma read_int_string: "read_int (int_string n) = Some n"
proof (cases "n < 0")
  case True
  have "\<forall>c \<in> set (digits (nat (- n))). is_digit c" using digits_all by blast
  then show ?thesis using True by (simp add: read_int_def int_string_def split_sign_def list_all_iff)
next
  case False
  obtain c cs where c: "digits (nat n) = c # cs" by (cases "digits (nat n)") auto
  have d: "\<forall>c \<in> set (digits (nat n)). is_digit c" using digits_all by blast
  then have "split_sign (digits (nat n)) = (False, digits (nat n))" by (simp add: c split_sign_digit)
  then show ?thesis using False d by (simp add: read_int_def int_string_def list_all_iff)
qed

lemma int_string_span:
  assumes "stop r"
  shows "takeWhile int_part (int_string n @ r) = int_string n" "dropWhile int_part (int_string n @ r) = r"
  using int_string_chars [of n] stop_not_int_part [OF assms]
  by (auto simp: takeWhile_append dropWhile_append takeWhile_eq_Nil_iff dropWhile_eq_self_iff)

lemma hd_quote: "quote_string s @ r = CHR 0x22 # (concat (map escape_char s) @ CHR 0x22 # r)"
  by (simp add: quote_string_def)

text \<open>The reader needs one unit of fuel per nesting step and per element, and a printed value has
  at least that many characters.\<close>

lemma comma_tail_read:
  assumes "\<And>x u m. x \<in> set xs \<Longrightarrow> stop u \<Longrightarrow> length (f x) < m \<Longrightarrow> rd m (f x @ u) = Some (g x, u)"
    and "\<And>m s. rds (Suc m) (CHR '','' # s) = (case rd m s of None \<Rightarrow> None
        | Some (x, r) \<Rightarrow> map_option (\<lambda>(ys, u). (x # ys, u)) (rds m r))"
    and "\<And>m s. rds (Suc m) (c # s) = Some ([], s)"
    and "c \<in> {CHR 0x5D, CHR 0x7D}"
    and "length (concat (map (\<lambda>z. CHR '','' # f z) xs)) < n"
  shows "rds n (concat (map (\<lambda>z. CHR '','' # f z) xs) @ c # r) = Some (map g xs, r)"
  using assms(1,5)
proof (induction xs arbitrary: n)
  case Nil
  then show ?case using assms(3) by (cases n) simp_all
next
  case (Cons x xs)
  obtain m where n: "n = Suc m" using Cons.prems(2) by (cases n) auto
  have st: "stop (concat (map (\<lambda>z. CHR '','' # f z) xs) @ c # r)"
    using assms(4) by (auto simp: comma_tail_stop)
  have len: "length (f x) < m" "length (concat (map (\<lambda>z. CHR '','' # f z) xs)) < m"
    using Cons.prems(2) by (auto simp: n)
  have "rd m (f x @ concat (map (\<lambda>z. CHR '','' # f z) xs) @ c # r)
      = Some (g x, concat (map (\<lambda>z. CHR '','' # f z) xs) @ c # r)"
    using Cons.prems(1) [OF _ st len(1)] by simp
  moreover have "rds m (concat (map (\<lambda>z. CHR '','' # f z) xs) @ c # r) = Some (map g xs, r)"
    using Cons.prems(1) len(2) by (intro Cons.IH) auto
  ultimately show ?case using assms(2) [of m] by (simp add: n)
qed

lemma not_stop_head: "\<not> stop (x @ u) \<Longrightarrow> c \<in> {CHR 0x5D, CHR 0x7D} \<Longrightarrow> \<not> starts_with [c] (x @ u)"
  by (cases "x @ u") (auto simp: stop_def starts_with_def)

definition read_ok :: "jv \<Rightarrow> bool" where
  "read_ok j \<longleftrightarrow> (\<forall>u m. stop u \<longrightarrow> length (print_jv j) < m \<longrightarrow> read_value m (print_jv j @ u) = Some (py_of j, u))"

lemma read_okD: "read_ok j \<Longrightarrow> stop u \<Longrightarrow> length (print_jv j) < m \<Longrightarrow> read_value m (print_jv j @ u) = Some (py_of j, u)"
  by (simp add: read_ok_def)

definition print_member :: "string \<times> jv \<Rightarrow> string" where
  "print_member kv = (case kv of (k, v) \<Rightarrow> quote_string k @ [CHR '':''] @ print_jv v)"

definition member_of :: "string \<times> jv \<Rightarrow> py \<times> py" where
  "member_of kv = (case kv of (k, v) \<Rightarrow> (PStr k, py_of v))"

lemma read_member_ok:
  assumes "read_ok (snd kv)" "stop u" "length (print_member kv) < m"
  shows "read_member m (print_member kv @ u) = Some (member_of kv, u)"
proof -
  obtain k v where kv: "kv = (k, v)" by (cases kv)
  obtain n where m: "m = Suc n" using assms(3) by (cases m) auto
  let ?s = "concat (map escape_char k)"
  have shape: "print_member kv @ u = CHR 0x22 # (?s @ CHR 0x22 # (CHR '':'' # print_jv v @ u))"
    by (simp add: print_member_def kv quote_string_def)
  have "length (print_jv v) < n" using assms(3) by (simp add: m kv print_member_def quote_string_def)
  then have "read_value n (print_jv v @ u) = Some (py_of v, u)"
    using read_okD assms(1,2) kv by simp
  then show ?thesis unfolding shape m
    using escape_length [of k]
    by (simp add: read_string_quote starts_with_def member_of_def kv del: read_string.simps read_value.simps)
qed

lemma read_array_ok:
  assumes "\<forall>x \<in> set xs. read_ok x"
  shows "read_ok (JArr xs)"
  unfolding read_ok_def
proof (intro allI impI)
  fix u m assume st: "stop u" and len: "length (print_jv (JArr xs)) < m"
  obtain n where m: "m = Suc n" using len by (cases m) auto
  show "read_value m (print_jv (JArr xs) @ u) = Some (py_of (JArr xs), u)"
  proof (cases xs)
    case Nil
    then show ?thesis by (simp add: m comma_join_def starts_with_def)
  next
    case (Cons x ys)
    let ?t = "concat (map (\<lambda>z. CHR '','' # print_jv z) ys)"
    have shape: "print_jv (JArr xs) @ u = CHR 0x5B # (print_jv x @ ?t @ CHR 0x5D # u)"
      by (simp add: Cons comma_join_def comp_def)
    have l: "length (print_jv x) < n" "length ?t < n"
      using len by (auto simp: m Cons comma_join_def comp_def)
    have st': "stop (?t @ CHR 0x5D # u)" by (simp add: comma_tail_stop)
    have head: "\<not> starts_with [CHR 0x5D] (print_jv x @ ?t @ CHR 0x5D # u)"
      by (rule not_stop_head [OF print_jv_head]) simp
    have "read_value n (print_jv x @ ?t @ CHR 0x5D # u) = Some (py_of x, ?t @ CHR 0x5D # u)"
      using assms Cons by (intro read_okD st' l) simp
    moreover have "read_items n (?t @ CHR 0x5D # u) = Some (map py_of ys, u)"
      by (rule comma_tail_read [where rd = read_value])
         (use assms Cons l in \<open>auto intro: read_okD\<close>)
    ultimately show ?thesis unfolding shape m using head Cons by simp
  qed
qed

lemma read_object_ok:
  assumes "\<forall>kv \<in> set kvs. read_ok (snd kv)"
  shows "read_ok (JObj kvs)"
  unfolding read_ok_def
proof (intro allI impI)
  fix u m assume st: "stop u" and len: "length (print_jv (JObj kvs)) < m"
  obtain n where m: "m = Suc n" using len by (cases m) auto
  have pm: "map (\<lambda>(k, v). quote_string k @ [CHR '':''] @ print_jv v) kvs = map print_member kvs"
    by (simp add: print_member_def)
  have py: "py_of (JObj kvs) = PMap (map member_of kvs)" by (simp add: member_of_def)
  show "read_value m (print_jv (JObj kvs) @ u) = Some (py_of (JObj kvs), u)"
  proof (cases kvs)
    case Nil
    then show ?thesis by (simp add: m comma_join_def starts_with_def)
  next
    case (Cons x ys)
    let ?t = "concat (map (\<lambda>z. CHR '','' # print_member z) ys)"
    have shape: "print_jv (JObj kvs) @ u = CHR 0x7B # (print_member x @ ?t @ CHR 0x7D # u)"
      unfolding print_jv.simps pm by (simp add: Cons comma_join_def comp_def)
    have "length (print_jv (JObj kvs) @ u) < m + length u" using len by simp
    then have l: "length (print_member x) < n" "length ?t < n"
      unfolding shape by (auto simp: m)
    have st': "stop (?t @ CHR 0x7D # u)" by (simp add: comma_tail_stop)
    have "\<not> stop (print_member x @ ?t @ CHR 0x7D # u)"
      by (cases x) (simp add: print_member_def quote_string_def stop_def)
    then have head: "\<not> starts_with [CHR 0x7D] (print_member x @ ?t @ CHR 0x7D # u)"
      by (rule not_stop_head) simp
    have "read_member n (print_member x @ ?t @ CHR 0x7D # u) = Some (member_of x, ?t @ CHR 0x7D # u)"
      using assms Cons by (intro read_member_ok st' l) simp
    moreover have "read_members n (?t @ CHR 0x7D # u) = Some (map member_of ys, u)"
      by (rule comma_tail_read [where rd = read_member])
         (use assms Cons l in \<open>auto intro: read_member_ok\<close>)
    ultimately show ?thesis unfolding shape m py using head Cons by simp
  qed
qed

lemma read_literals:
  "0 < m \<Longrightarrow> read_value m (CHR ''n'' # CHR ''u'' # CHR ''l'' # CHR ''l'' # u) = Some (PNone, u)"
  "0 < m \<Longrightarrow> read_value m (CHR ''t'' # CHR ''r'' # CHR ''u'' # CHR ''e'' # u) = Some (PBool True, u)"
  "0 < m \<Longrightarrow> read_value m (CHR ''f'' # CHR ''a'' # CHR ''l'' # CHR ''s'' # CHR ''e'' # u) = Some (PBool False, u)"
  by (cases m; simp add: starts_with_def)+

lemma read_print: "read_ok j"
proof (induction j)
  case (JArr xs)
  then show ?case by (intro read_array_ok) simp
next
  case (JObj kvs)
  then show ?case by (intro read_object_ok) (auto simp: snds.simps)
next
  case (JInt n)
  show ?case unfolding read_ok_def
  proof (intro allI impI)
    fix u m assume st: "stop u" and len: "length (print_jv (JInt n)) < m"
    obtain k where m: "m = Suc k" using len by (cases m) auto
    obtain c cs where c: "int_string n = c # cs" by (cases "int_string n") auto
    note h = int_part_heads [OF int_string_head [OF c]]
    have "\<not> starts_with ''null'' (int_string n @ u)" "\<not> starts_with ''true'' (int_string n @ u)"
      "\<not> starts_with ''false'' (int_string n @ u)" using h by (auto simp: c starts_with_def)
    moreover have "read_int (takeWhile int_part (int_string n @ u)) = Some n"
      unfolding int_string_span [OF st] by (rule read_int_string)
    ultimately show "read_value m (print_jv (JInt n) @ u) = Some (py_of (JInt n), u)"
      using h int_string_span(2) [OF st, of n] by (simp add: m c)
  qed
next
  case (JStr s)
  show ?case unfolding read_ok_def
  proof (intro allI impI)
    fix u m assume "length (print_jv (JStr s)) < m"
    then obtain k where m: "m = Suc k" by (cases m) auto
    show "read_value m (print_jv (JStr s) @ u) = Some (py_of (JStr s), u)"
      unfolding print_jv.simps hd_quote m using escape_length [of s]
      by (simp add: read_string_quote del: read_string.simps)
  qed
qed (auto simp: read_ok_def read_literals)

lemma json_loads_print: "json_loads (print_jv j) = Some (py_of j)"
proof -
  have "read_value (2 * length (print_jv j) + 2) (print_jv j @ []) = Some (py_of j, [])"
    by (rule read_okD [OF read_print]) simp_all
  then show ?thesis by (simp add: json_loads_def)
qed

lemma json_loads_dumps: "json_loads (dumps j) = Some (py_of (canon j))"
  by (simp add: dumps_print json_loads_print)

subsection \<open>What normalization accepts\<close>

fun jcount :: "jv \<Rightarrow> int" where
  "jcount (JArr xs) = 1 + sum_list (map jcount xs)"
| "jcount (JObj kvs) = 1 + sum_list (map (\<lambda>(k, v). jcount v) kvs)"
| "jcount j = 1"

fun jfits :: "int \<Rightarrow> jv \<Rightarrow> bool" where
  "jfits k (JArr xs) \<longleftrightarrow> 0 \<le> k \<and> (\<forall>x \<in> set xs. jfits (k - 1) x)"
| "jfits k (JObj kvs) \<longleftrightarrow> 0 \<le> k \<and> (\<forall>(s, x) \<in> set kvs. jfits (k - 1) x)"
| "jfits k j \<longleftrightarrow> 0 \<le> k"

fun jwf :: "jv \<Rightarrow> bool" where
  "jwf (JInt n) \<longleftrightarrow> int64_ok n"
| "jwf (JArr xs) \<longleftrightarrow> (\<forall>x \<in> set xs. jwf x)"
| "jwf (JObj kvs) \<longleftrightarrow> distinct (map fst kvs) \<and> (\<forall>(s, x) \<in> set kvs. jwf x)"
| "jwf j \<longleftrightarrow> True"

lemma jcount_pos: "0 < jcount j"
proof (induction j)
  case (JArr xs)
  then have "0 \<le> sum_list (map jcount xs)" by (intro sum_list_nonneg) (auto intro: less_imp_le)
  then show ?case by simp
next
  case (JObj kvs)
  then have "0 \<le> sum_list (map (\<lambda>(k, v). jcount v) kvs)"
    by (intro sum_list_nonneg) (fastforce simp: snds.simps)
  then show ?case by simp
qed simp_all

lemma normalize_sound:
  "normalize md mi d n v = Inr (j, m) \<Longrightarrow>
     m = n + jcount j \<and> m \<le> mi \<and> jfits (md - d) j \<and> jwf j"
  "n \<le> mi \<Longrightarrow> normalize_items md mi d n xs = Inr (js, m) \<Longrightarrow>
     m = n + sum_list (map jcount js) \<and> m \<le> mi \<and> (\<forall>x \<in> set js. jfits (md - d) x \<and> jwf x)"
  "n \<le> mi \<Longrightarrow> distinct (map fst seen) \<Longrightarrow> normalize_mapping md mi d n seen kvs = Inr (out, m) \<Longrightarrow>
     (\<exists>new. out = seen @ new \<and> m = n + sum_list (map (\<lambda>(k, v). jcount v) new) \<and> m \<le> mi
        \<and> distinct (map fst out) \<and> (\<forall>(s, x) \<in> set new. jfits (md - d) x \<and> jwf x))"
proof (induction md mi d n v and md mi d n xs and md mi d n seen kvs arbitrary: j m and js m and out m
    rule: normalize_normalize_items_normalize_mapping.induct)
  case (1 md mi d n v)
  have b: "\<not> md < d" "\<not> mi < n + 1"
    using "1.prems" by (auto simp: normalize.simps(1) split: if_splits)
  show ?case
  proof (cases v)
    case (PSeq xs)
    then obtain js where js: "normalize_items md mi (d + 1) (n + 1) xs = Inr (js, m)" "j = JArr js"
      using "1.prems" b by (auto simp: normalize.simps(1) map_res_Inr)
    have "m = n + 1 + sum_list (map jcount js) \<and> m \<le> mi \<and> (\<forall>x \<in> set js. jfits (md - (d + 1)) x \<and> jwf x)"
      using "1.IH"(1) [OF b PSeq _ js(1)] b by simp
    then show ?thesis using b by (auto simp: js(2) algebra_simps)
  next
    case (PMap kvs)
    then obtain out where out: "normalize_mapping md mi (d + 1) (n + 1) [] kvs = Inr (out, m)" "j = JObj out"
      using "1.prems" b by (auto simp: normalize.simps(1) map_res_Inr)
    have "\<exists>new. out = [] @ new \<and> m = n + 1 + sum_list (map (\<lambda>(k, v). jcount v) new) \<and> m \<le> mi
        \<and> distinct (map fst out) \<and> (\<forall>(s, x) \<in> set new. jfits (md - (d + 1)) x \<and> jwf x)"
      using "1.IH"(2) [OF b PMap _ _ out(1)] b by simp
    then show ?thesis using b by (auto simp: out(2) algebra_simps)
  qed (use "1.prems" b in \<open>auto simp: normalize.simps(1) map_res_Inr validate_int64_def split: if_splits\<close>)
next
  case (3 md mi d n x xs)
  obtain j1 m1 js1 where s: "normalize md mi d n x = Inr (j1, m1)"
    "normalize_items md mi d m1 xs = Inr (js1, m)" "js = j1 # js1"
    using "3.prems"(2) by (auto simp: bind_res_Inr map_res_Inr split: prod.splits)
  have h: "m1 = n + jcount j1 \<and> m1 \<le> mi \<and> jfits (md - d) j1 \<and> jwf j1"
    using "3.IH"(1) [OF s(1)] .
  then show ?case using "3.IH"(2) [OF _ s(2)] s(3) by auto
next
  case (5 md mi d n seen k x kvs)
  obtain s j1 m1 where s: "mapping_key k seen = Inr s" "normalize md mi d n x = Inr (j1, m1)"
    "normalize_mapping md mi d m1 (seen @ [(s, j1)]) kvs = Inr (out, m)"
    using "5.prems"(3) by (auto simp: bind_res_Inr split: prod.splits)
  have h: "m1 = n + jcount j1 \<and> m1 \<le> mi \<and> jfits (md - d) j1 \<and> jwf j1"
    using "5.IH"(1) [OF s(2)] .
  have "s \<notin> set (map fst seen)" using s(1) by (auto simp: mapping_key_def split: py.splits if_splits)
  then have "distinct (map fst (seen @ [(s, j1)]))" using "5.prems"(2) by simp
  then obtain new where "out = (seen @ [(s, j1)]) @ new" "m = m1 + sum_list (map (\<lambda>(k, v). jcount v) new)" "m \<le> mi"
    "distinct (map fst out)" "\<forall>(s, x) \<in> set new. jfits (md - d) x \<and> jwf x"
    using "5.IH"(2) [OF _ _ s(3)] h by auto
  then show ?case using h by (intro exI [of _ "(s, j1) # new"]) auto
qed auto

definition reloads :: "int \<Rightarrow> int \<Rightarrow> jv \<Rightarrow> bool" where
  "reloads md mi j \<longleftrightarrow> (\<forall>d n. jwf j \<longrightarrow> jfits (md - d) j \<longrightarrow> n + jcount j \<le> mi \<longrightarrow>
     normalize md mi d n (py_of j) = Inr (j, n + jcount j))"

lemma reloads_items:
  assumes "\<forall>x \<in> set xs. reloads md mi x \<and> jwf x \<and> jfits (md - d) x" "n + sum_list (map jcount xs) \<le> mi"
  shows "normalize_items md mi d n (map py_of xs) = Inr (xs, n + sum_list (map jcount xs))"
  using assms
proof (induction xs arbitrary: n)
  case (Cons x xs)
  have nn: "0 \<le> sum_list (map jcount xs)" by (intro sum_list_nonneg) (auto intro: less_imp_le jcount_pos)
  have "normalize md mi d n (py_of x) = Inr (x, n + jcount x)"
    using Cons.prems nn unfolding reloads_def by simp
  moreover have "normalize_items md mi d (n + jcount x) (map py_of xs) = Inr (xs, n + jcount x + sum_list (map jcount xs))"
    using Cons.prems by (intro Cons.IH) auto
  ultimately show ?case by (simp add: add.assoc)
qed simp

lemma reloads_mapping:
  assumes "\<forall>(s, x) \<in> set kvs. reloads md mi x \<and> jwf x \<and> jfits (md - d) x"
    "n + sum_list (map (\<lambda>(k, v). jcount v) kvs) \<le> mi" "distinct (map fst (seen @ kvs))"
  shows "normalize_mapping md mi d n seen (map (\<lambda>(k, v). (PStr k, py_of v)) kvs)
    = Inr (seen @ kvs, n + sum_list (map (\<lambda>(k, v). jcount v) kvs))"
  using assms
proof (induction kvs arbitrary: n seen)
  case (Cons kv kvs)
  obtain k x where kv: "kv = (k, x)" by (cases kv)
  have nn: "0 \<le> sum_list (map (\<lambda>(k, v). jcount v) kvs)"
    by (intro sum_list_nonneg) (auto intro: less_imp_le jcount_pos)
  have "normalize md mi d n (py_of x) = Inr (x, n + jcount x)"
    using Cons.prems nn unfolding reloads_def kv by simp
  moreover have "mapping_key (PStr k) seen = Inr k"
    using Cons.prems(3) by (auto simp: mapping_key_def kv)
  moreover have "normalize_mapping md mi d (n + jcount x) (seen @ [(k, x)]) (map (\<lambda>(k, v). (PStr k, py_of v)) kvs)
      = Inr ((seen @ [(k, x)]) @ kvs, n + jcount x + sum_list (map (\<lambda>(k, v). jcount v) kvs))"
    using Cons.prems by (intro Cons.IH) (auto simp: kv)
  ultimately show ?case by (simp add: kv add.assoc)
qed simp

lemma normalize_complete: "reloads md mi j"
proof (induction j)
  case (JArr xs)
  show ?case unfolding reloads_def
  proof (intro allI impI)
    fix d n assume h: "jwf (JArr xs)" "jfits (md - d) (JArr xs)" "n + jcount (JArr xs) \<le> mi"
    have nn: "0 \<le> sum_list (map jcount xs)" by (intro sum_list_nonneg) (auto intro: less_imp_le jcount_pos)
    have "normalize_items md mi (d + 1) (n + 1) (map py_of xs) = Inr (xs, n + 1 + sum_list (map jcount xs))"
      using h JArr by (intro reloads_items) (auto simp: algebra_simps)
    then show "normalize md mi d n (py_of (JArr xs)) = Inr (JArr xs, n + jcount (JArr xs))"
      using h nn by (simp add: normalize.simps(1))
  qed
next
  case (JObj kvs)
  show ?case unfolding reloads_def
  proof (intro allI impI)
    fix d n assume h: "jwf (JObj kvs)" "jfits (md - d) (JObj kvs)" "n + jcount (JObj kvs) \<le> mi"
    have nn: "0 \<le> sum_list (map (\<lambda>(k, v). jcount v) kvs)"
      by (intro sum_list_nonneg) (auto intro: less_imp_le jcount_pos)
    have all: "\<forall>(s, x) \<in> set kvs. reloads md mi x \<and> jwf x \<and> jfits (md - (d + 1)) x"
      using h JObj by (fastforce simp: snds.simps algebra_simps)
    have "normalize_mapping md mi (d + 1) (n + 1) [] (map (\<lambda>(k, v). (PStr k, py_of v)) kvs)
        = Inr ([] @ kvs, n + 1 + sum_list (map (\<lambda>(k, v). jcount v) kvs))"
      using h by (intro reloads_mapping all) auto
    then show "normalize md mi d n (py_of (JObj kvs)) = Inr (JObj kvs, n + jcount (JObj kvs))"
      using h nn by (simp add: normalize.simps(1))
  qed
qed (auto simp: reloads_def normalize.simps(1) validate_int64_def)

lemma sum_list_sort_key: "sum_list (map f (sort_key k xs)) = sum_list (map (f :: _ \<Rightarrow> 'b::comm_monoid_add) xs)"
  by (metis mset_map mset_sort sum_mset_sum_list)

lemma canon_measures:
  "jcount (canon j) = jcount j \<and> (jwf (canon j) \<longleftrightarrow> jwf j) \<and> (jfits k (canon j) \<longleftrightarrow> jfits k j)"
proof (induction j arbitrary: k)
  case (JArr xs)
  have "sum_list (map jcount (map canon xs)) = sum_list (map jcount xs)"
    using JArr by (intro arg_cong [where f = sum_list]) auto
  then show ?case using JArr by simp
next
  case (JObj kvs)
  have ih: "\<And>s x k. (s, x) \<in> set kvs \<Longrightarrow> jcount (canon x) = jcount x \<and> (jwf (canon x) \<longleftrightarrow> jwf x) \<and> (jfits k (canon x) \<longleftrightarrow> jfits k x)"
    using JObj by (fastforce simp: snds.simps)
  have "sum_list (map (\<lambda>(k, v). jcount v) (map (\<lambda>(k, v). (k, canon v)) kvs)) = sum_list (map (\<lambda>(k, v). jcount v) kvs)"
    using ih by (intro arg_cong [where f = sum_list]) auto
  then have c: "jcount (canon (JObj kvs)) = jcount (JObj kvs)"
    by (simp only: canon.simps jcount.simps sum_list_sort_key)
  have perm: "mset (map fst (sort_key fst (map (\<lambda>(k, v). (k, canon v)) kvs))) = mset (map fst kvs)"
    by (induction kvs) auto
  have d: "distinct (map fst (sort_key fst (map (\<lambda>(k, v). (k, canon v)) kvs))) \<longleftrightarrow> distinct (map fst kvs)"
    by (rule mset_eq_imp_distinct_iff [OF perm])
  show ?case using c d ih by (auto simp del: distinct_map) 
qed simp_all

subsection \<open>Canonical text\<close>

text \<open>\<open>bytes.decode("utf-8")\<close> on the texts the model encodes.\<close>

fun utf8_decode :: "bytes \<Rightarrow> string" where
  "utf8_decode [] = []"
| "utf8_decode [a] = [char_of (unat a)]"
| "utf8_decode (a # b # bs) =
     (if unat a < 128 then char_of (unat a) # utf8_decode (b # bs)
      else char_of ((unat a - 192) * 64 + (unat b - 128)) # utf8_decode bs)"

lemma utf8_decode_step: "utf8_decode (utf8_char c @ bs) = c # utf8_decode bs"
proof -
  let ?n = "of_char c :: nat"
  have n: "?n < 256" by (metis nat_of_char_less_256)
  have u: "k < 256 \<Longrightarrow> unat (word_of_nat k :: 8 word) = k" for k
    by (simp add: unsigned_of_nat take_bit_eq_mod)
  show ?thesis
  proof (cases "?n < 128")
    case True
    then show ?thesis using u [of ?n] by (cases bs) (simp_all add: utf8_char_def)
  next
    case False
    let ?a = "192 + ?n div 64" and ?b = "128 + ?n mod 64"
    have "?n div 64 < 4" using n by (intro less_mult_imp_div_less) simp
    then have lt: "?a < 256" "?b < 256" by simp_all
    have "(?n div 64) * 64 + ?n mod 64 = ?n" by simp
    moreover define a where "a = ?a"
    moreover define b where "b = ?b"
    moreover have "utf8_char c = [word_of_nat a, word_of_nat b]"
      using False by (simp only: utf8_char_def Let_def a_def b_def if_False)
    moreover have "unat (word_of_nat a :: 8 word) = a" "unat (word_of_nat b :: 8 word) = b"
      using u lt by (simp_all only: a_def b_def)
    ultimately show ?thesis by simp
  qed
qed

lemma utf8_decode_utf8 [simp]: "utf8_decode (utf8 s) = s"
proof (induction s)
  case (Cons c s)
  then show ?case using utf8_decode_step [of c "utf8 s"] by (simp add: utf8_def)
qed (simp add: utf8_def)

text \<open>\<open>canonical_bytes(v).decode("utf-8")\<close>, the text every canonical column and field stores.\<close>

definition canonical_text :: "py \<Rightarrow> v3_error + string" where
  "canonical_text v = map_res utf8_decode (canonical_bytes v)"

lemma canonical_text_Inr:
  "canonical_text v = Inr t \<longleftrightarrow>
     (\<exists>j n. normalize default_max_depth default_max_items 0 0 v = Inr (j, n)
        \<and> t = dumps j \<and> int (length (utf8 t)) \<le> default_max_bytes)"
  by (auto simp: canonical_text_def map_res_Inr canonical_bytes_Inr)

lemma canonical_text_bytes: "canonical_text v = Inr t \<longleftrightarrow> canonical_bytes v = Inr (utf8 t)"
  by (auto simp: canonical_text_def map_res_Inr canonical_bytes_Inr utf8_inj)

text \<open>The value a canonical text is read back as.\<close>

definition reloaded :: "py \<Rightarrow> py" where
  "reloaded v = (case content v of Inr j \<Rightarrow> py_of j | Inl e \<Rightarrow> v)"

lemma canon_idem: "canon (canon j) = canon j"
proof (induction j)
  case (JArr xs)
  then show ?case by simp
next
  case (JObj kvs)
  have eq: "map (\<lambda>(k, v). (k, canon v)) (map (\<lambda>(k, v). (k, canon v)) kvs) = map (\<lambda>(k, v). (k, canon v)) kvs"
    using JObj by (auto simp: snds.simps)
  show ?case unfolding canon.simps sort_key_map_snd [of canon, symmetric] eq
    by (simp add: sort_key_id_if_sorted)
qed simp_all

lemma canonical_text_reload:
  assumes "canonical_text v = Inr t"
  shows "json_loads t = Some (reloaded v) \<and> canonical_text (reloaded v) = Inr t \<and> content (reloaded v) = content v"
proof -
  obtain j n where j: "normalize default_max_depth default_max_items 0 0 v = Inr (j, n)" "t = dumps j"
    "int (length (utf8 t)) \<le> default_max_bytes"
    using assms by (auto simp: canonical_text_Inr)
  have r: "reloaded v = py_of (canon j)" by (simp add: reloaded_def content_def j(1))
  have b: "jcount (canon j) \<le> default_max_items" "jfits default_max_depth (canon j)" "jwf (canon j)"
    using normalize_sound(1) [OF j(1)] canon_measures [of j] by auto
  have n: "normalize default_max_depth default_max_items 0 0 (py_of (canon j)) = Inr (canon j, jcount (canon j))"
    using normalize_complete [of default_max_depth default_max_items "canon j"] b unfolding reloads_def by simp
  have d: "dumps (canon j) = dumps j" by (simp add: dumps_print canon_idem)
  show ?thesis
    using n d j by (auto simp: r canonical_text_Inr content_def canon_idem json_loads_dumps)
qed

text \<open>Canonical text survives a round trip through storage: the text of a value reads back as a
  value with the same content, and encoding that value again gives the same text.\<close>

theorem canonical_text_roundtrip:
  assumes "canonical_text v = Inr t"
  shows "\<exists>w. json_loads t = Some w \<and> canonical_text w = Inr t \<and> content w = content v"
  using canonical_text_reload [OF assms] by blast

theorem canonical_text_roundtrip_witness:
  "\<exists>w. json_loads ''[1,null]'' = Some w \<and> canonical_text w = Inr ''[1,null]''"
proof -
  have h: "canonical_text (PSeq [PInt 1, PNone]) = Inr ''[1,null]''" by code_simp
  obtain w where "json_loads ''[1,null]'' = Some w" "canonical_text w = Inr ''[1,null]''"
    using canonical_text_roundtrip [OF h] by (elim exE conjE) (rule that)
  then show ?thesis by (intro exI conjI)
qed

subsection \<open>Values in the language of \<open>to_dict\<close>\<close>

text \<open>The dictionaries of the contracts hold null, booleans, integers, strings, lists and objects
  only; reading such a value back changes nothing but the order of object keys.\<close>

fun plain :: "py \<Rightarrow> jv option" where
  "plain PNone = Some JNull"
| "plain (PBool b) = Some (JBool b)"
| "plain (PInt n) = Some (JInt n)"
| "plain (PStr s) = Some (JStr s)"
| "plain (PSeq xs) = map_option JArr (those (map plain xs))"
| "plain (PMap kvs) = map_option JObj (those (map (\<lambda>(k, v).
     case k of PStr s \<Rightarrow> map_option (Pair s) (plain v) | _ \<Rightarrow> None) kvs))"
| "plain _ = None"

lemma normalize_plain:
  "normalize md mi d n v = Inr (j, m) \<Longrightarrow> plain v = Some i \<Longrightarrow> i = j"
  "normalize_items md mi d n xs = Inr (js, m) \<Longrightarrow> those (map plain xs) = Some is \<Longrightarrow> is = js"
  "normalize_mapping md mi d n seen kvs = Inr (out, m) \<Longrightarrow>
     those (map (\<lambda>(k, v). case k of PStr s \<Rightarrow> map_option (Pair s) (plain v) | _ \<Rightarrow> None) kvs) = Some ps \<Longrightarrow> out = seen @ ps"
proof (induction md mi d n v and md mi d n xs and md mi d n seen kvs arbitrary: j m i and js m "is" and out m ps
    rule: normalize_normalize_items_normalize_mapping.induct)
  case (1 md mi d n v)
  have b: "\<not> md < d" "\<not> mi < n + 1"
    using "1.prems"(1) by (auto simp: normalize.simps(1) split: if_splits)
  show ?case
  proof (cases v)
    case (PSeq xs)
    with "1.prems" b obtain js "is" where "normalize_items md mi (d + 1) (n + 1) xs = Inr (js, m)" "j = JArr js"
      "those (map plain xs) = Some is" "i = JArr is"
      by (auto simp: normalize.simps(1) map_res_Inr)
    then show ?thesis using "1.IH"(1) [OF b PSeq] by simp
  next
    case (PMap kvs)
    with "1.prems" b obtain out ps where o: "normalize_mapping md mi (d + 1) (n + 1) [] kvs = Inr (out, m)" "j = JObj out"
      "those (map (\<lambda>(k, v). case k of PStr s \<Rightarrow> map_option (Pair s) (plain v) | _ \<Rightarrow> None) kvs) = Some ps" "i = JObj ps"
      by (auto simp: normalize.simps(1) map_res_Inr)
    have "out = [] @ ps" by (rule "1.IH"(2) [OF b PMap o(1,3)])
    then show ?thesis using o(2,4) by simp
  qed (use "1.prems" b in \<open>auto simp: normalize.simps(1) map_res_Inr\<close>)
next
  case (3 md mi d n x xs)
  then show ?case by (fastforce simp: bind_res_Inr map_res_Inr split: option.splits prod.splits)
next
  case (5 md mi d n seen k x kvs)
  obtain s j1 m1 where s: "mapping_key k seen = Inr s" "normalize md mi d n x = Inr (j1, m1)"
    "normalize_mapping md mi d m1 (seen @ [(s, j1)]) kvs = Inr (out, m)"
    using "5.prems"(1) by (auto simp: bind_res_Inr split: prod.splits)
  have k: "k = PStr s" using s(1) by (auto simp: mapping_key_def split: py.splits if_splits)
  obtain i ps' where p: "plain x = Some i"
    "those (map (\<lambda>(k, v). case k of PStr s \<Rightarrow> map_option (Pair s) (plain v) | _ \<Rightarrow> None) kvs) = Some ps'"
    "ps = (s, i) # ps'"
    using "5.prems"(2) by (auto simp: k split: option.splits)
  have "i = j1" using "5.IH"(1) s(2) p(1) by blast
  moreover have "out = (seen @ [(s, j1)]) @ ps'" using "5.IH"(2) s(3) p(2) by blast
  ultimately show ?case using p(3) by simp
qed auto

definition plain_ok :: "py \<Rightarrow> bool" where
  "plain_ok v \<longleftrightarrow> plain v \<noteq> None"

text \<open>What a plain value is read back as.\<close>

definition rl :: "py \<Rightarrow> py" where
  "rl v = (case plain v of Some j \<Rightarrow> py_of (canon j) | None \<Rightarrow> v)"

lemma plain_ok_simps [simp]:
  "plain_ok PNone" "plain_ok (PBool b)" "plain_ok (PInt n)" "plain_ok (PStr s)"
  "plain_ok (PSeq xs) \<longleftrightarrow> (\<forall>x \<in> set xs. plain_ok x)"
proof -
  have "those (map plain xs) \<noteq> None \<longleftrightarrow> (\<forall>x \<in> set xs. plain x \<noteq> None)"
    by (induction xs) (auto split: option.splits)
  then show "plain_ok (PSeq xs) \<longleftrightarrow> (\<forall>x \<in> set xs. plain_ok x)" by (simp add: plain_ok_def)
qed (simp_all add: plain_ok_def)

lemma plain_obj:
  "plain (obj kvs) = map_option JObj (those (map (\<lambda>(k, v). map_option (Pair k) (plain v)) kvs))"
proof -
  have fe: "(\<lambda>(k, v). case k of PStr s \<Rightarrow> map_option (Pair s) (plain v) | _ \<Rightarrow> None) \<circ> (\<lambda>(k, v). (PStr k, v))
      = (\<lambda>(k, v). map_option (Pair k) (plain v))"
    by (auto simp: fun_eq_iff)
  show ?thesis unfolding obj_def plain.simps map_map fe ..
qed

lemma those_pairs:
  "those (map (\<lambda>(k, v). map_option (Pair k) (plain v)) kvs) = Some ps \<longleftrightarrow>
     (\<forall>(k, v) \<in> set kvs. plain_ok v) \<and> ps = map (\<lambda>(k, v). (k, the (plain v))) kvs"
  by (induction kvs arbitrary: ps) (auto simp: plain_ok_def split: option.splits)

lemma plain_ok_obj [simp]: "plain_ok (obj kvs) \<longleftrightarrow> (\<forall>(k, v) \<in> set kvs. plain_ok v)"
proof -
  have "plain_ok (obj kvs) \<longleftrightarrow> (\<exists>ps. those (map (\<lambda>(k, v). map_option (Pair k) (plain v)) kvs) = Some ps)"
    by (auto simp: plain_ok_def plain_obj)
  then show ?thesis by (simp add: those_pairs)
qed

lemma rl_scalar [simp]:
  "rl PNone = PNone" "rl (PBool b) = PBool b" "rl (PInt n) = PInt n" "rl (PStr s) = PStr s"
  by (simp_all add: rl_def)

lemma rl_seq [simp]:
  assumes "\<forall>x \<in> set xs. plain_ok x"
  shows "rl (PSeq xs) = PSeq (map rl xs)"
proof -
  have "those (map plain xs) = Some (map (\<lambda>x. the (plain x)) xs)"
    using assms by (induction xs) (auto simp: plain_ok_def)
  then show ?thesis using assms by (auto simp: rl_def plain_ok_def)
qed

lemma rl_obj:
  assumes "plain_ok (obj kvs)"
  shows "rl (obj kvs) = obj (sort_key fst (map (\<lambda>(k, v). (k, rl v)) kvs))"
proof -
  have ok: "\<forall>(k, v) \<in> set kvs. plain_ok v" using assms by simp
  let ?c = "map (\<lambda>(k, v). (k, canon (the (plain v)))) kvs"
  have p: "plain (obj kvs) = Some (JObj (map (\<lambda>(k, v). (k, the (plain v))) kvs))"
    using ok those_pairs [of kvs] by (simp add: plain_obj)
  have r: "map (\<lambda>(k, v). (k, rl v)) kvs = map (\<lambda>(k, v). (k, py_of v)) ?c"
    using ok by (auto simp: rl_def plain_ok_def)
  have "rl (obj kvs) = PMap (map (\<lambda>(k, v). (PStr k, py_of v)) (sort_key fst ?c))"
    unfolding rl_def p by (simp add: comp_def case_prod_unfold)
  also have "\<dots> = obj (map (\<lambda>(k, v). (k, py_of v)) (sort_key fst ?c))"
    by (simp add: obj_def comp_def case_prod_unfold)
  also have "\<dots> = obj (sort_key fst (map (\<lambda>(k, v). (k, rl v)) kvs))"
    unfolding r sort_key_map_snd ..
  finally show ?thesis .
qed

lemma map_of_sort_key: "distinct (map fst xs) \<Longrightarrow> map_of (sort_key fst xs) k = map_of (xs :: (string \<times> 'v) list) k"
proof -
  assume d: "distinct (map fst xs)"
  have perm: "mset (map fst (sort_key fst xs)) = mset (map fst xs)" by simp
  have ds: "distinct (map fst (sort_key fst xs))" using d mset_eq_imp_distinct_iff [OF perm] by simp
  have "map_of (sort_key fst xs) k = Some v \<longleftrightarrow> map_of xs k = Some v" for v
    by (simp only: map_of_eq_Some_iff [OF d] map_of_eq_Some_iff [OF ds] set_sort)
  then show ?thesis by (metis option.exhaust)
qed

lemma rl_fld:
  assumes "plain_ok (obj kvs)" "distinct (map fst kvs)"
  shows "fld (rl (obj kvs)) k = (case map_of kvs k of Some x \<Rightarrow> rl x | None \<Rightarrow> PNone)"
proof -
  have keys: "map fst (map (\<lambda>(k, v). (k, rl v)) kvs) = map fst kvs" by (induction kvs) auto
  have "distinct (map fst (map (\<lambda>(k, v). (k, rl v)) kvs))" unfolding keys by (rule assms(2))
  then have "map_of (sort_key fst (map (\<lambda>(k, v). (k, rl v)) kvs)) k = map_of (map (\<lambda>(k, v). (k, rl v)) kvs) k"
    by (rule map_of_sort_key)
  also have "\<dots> = map_option rl (map_of kvs k)" by (simp add: map_of_map)
  finally show ?thesis by (simp add: rl_obj [OF assms(1)] split: option.splits)
qed

lemma rl_fields [simp]:
  assumes "plain_ok (obj kvs)"
  shows "fields_are (rl (obj kvs)) ks \<longleftrightarrow> set (map fst kvs) = set ks"
proof -
  have "set (map fst (sort_key fst (map (\<lambda>(k, v). (k, rl v)) kvs))) = set (map fst kvs)" by force
  then show ?thesis by (simp only: rl_obj [OF assms] fields_are_obj)
qed

lemma reloaded_plain:
  assumes "canonical_text v = Inr t" "plain_ok v"
  shows "reloaded v = rl v"
proof -
  obtain i where i: "plain v = Some i" using assms(2) by (auto simp: plain_ok_def)
  obtain j n where j: "normalize default_max_depth default_max_items 0 0 v = Inr (j, n)"
    using assms(1) by (auto simp: canonical_text_Inr)
  have "i = j" by (rule normalize_plain(1) [OF j i])
  then show ?thesis by (simp add: reloaded_def content_def rl_def i j)
qed

subsection \<open>A bound on the size of the text\<close>

fun jsize :: "jv \<Rightarrow> nat" where
  "jsize JNull = 4"
| "jsize (JBool b) = 5"
| "jsize (JInt n) = length (int_string n)"
| "jsize (JStr s) = 2 + 6 * length s"
| "jsize (JArr xs) = 2 + sum_list (map (\<lambda>x. 1 + jsize x) xs)"
| "jsize (JObj kvs) = 2 + sum_list (map (\<lambda>(k, v). 4 + 6 * length k + jsize v) kvs)"

lemma escape_char_length: "length (escape_char c) \<le> 6"
  by (simp add: escape_char_def hex_low_def)

lemma quote_string_length: "length (quote_string s) \<le> 2 + 6 * length s"
proof -
  have "length (concat (map escape_char s)) \<le> 6 * length s"
  proof (induction s)
    case (Cons c s)
    then show ?case using escape_char_length [of c] by simp
  qed simp
  then show ?thesis by (simp add: quote_string_def)
qed

lemma comma_join_length: "length (comma_join xs) \<le> sum_list (map (\<lambda>x. 1 + length x) xs)"
proof -
  have "length (concat (map (\<lambda>z. CHR '','' # z) ys)) = sum_list (map (\<lambda>x. 1 + length x) ys)" for ys
    by (induction ys) auto
  then show ?thesis by (cases xs) (simp_all add: comma_join_def)
qed

lemma print_jv_length: "length (print_jv j) \<le> jsize j"
proof (induction j)
  case (JStr s)
  then show ?case using quote_string_length [of s] by simp
next
  case (JArr xs)
  have "sum_list (map (\<lambda>x. 1 + length (print_jv x)) xs) \<le> sum_list (map (\<lambda>x. 1 + jsize x) xs)"
    using JArr by (intro sum_list_mono) auto
  then show ?case using comma_join_length [of "map print_jv xs"] by (simp add: comp_def)
next
  case (JObj kvs)
  let ?m = "\<lambda>(k, v). quote_string k @ [CHR '':''] @ print_jv v"
  have "sum_list (map (\<lambda>x. 1 + length (?m x)) kvs) \<le> sum_list (map (\<lambda>(k, v). 4 + 6 * length k + jsize v) kvs)"
  proof (intro sum_list_mono)
    fix kv assume kv: "kv \<in> set kvs"
    obtain k v where "kv = (k, v)" by (cases kv)
    moreover have "length (print_jv v) \<le> jsize v" using JObj kv \<open>kv = (k, v)\<close> by (auto simp: snds.simps)
    ultimately show "1 + length (?m kv) \<le> (\<lambda>(k, v). 4 + 6 * length k + jsize v) kv"
      using quote_string_length [of k] by simp
  qed
  then show ?case using comma_join_length [of "map ?m kvs"] by (simp add: comp_def)
qed simp_all

lemma jsize_canon: "jsize (canon j) = jsize j"
proof (induction j)
  case (JArr xs)
  have "sum_list (map (\<lambda>x. 1 + jsize x) (map canon xs)) = sum_list (map (\<lambda>x. 1 + jsize x) xs)"
    using JArr by (intro arg_cong [where f = sum_list]) auto
  then show ?case by simp
next
  case (JObj kvs)
  let ?f = "\<lambda>(k, v). 4 + 6 * length k + jsize v"
  have "sum_list (map ?f (sort_key fst (map (\<lambda>(k, v). (k, canon v)) kvs))) = sum_list (map ?f (map (\<lambda>(k, v). (k, canon v)) kvs))"
    by (rule sum_list_sort_key)
  also have "\<dots> = sum_list (map ?f kvs)"
    using JObj by (intro arg_cong [where f = sum_list]) (auto simp: snds.simps)
  finally show ?case by simp
qed simp_all

lemma utf8_length_le: "length (utf8 s) \<le> 2 * length s"
  by (induction s) (auto simp: utf8_def utf8_char_def Let_def)

lemma py_of_plain: "plain v = Some j \<Longrightarrow> py_of j = v"
proof (induction v arbitrary: j)
  case (PSeq xs)
  then obtain js where js: "those (map plain xs) = Some js" "j = JArr js" by auto
  have "those (map plain xs) = Some js \<Longrightarrow> (\<And>x i. x \<in> set xs \<Longrightarrow> plain x = Some i \<Longrightarrow> py_of i = x) \<Longrightarrow> map py_of js = xs" for js
    by (induction xs arbitrary: js) (auto split: option.splits)
  then show ?case using js PSeq.IH by auto
next
  case (PMap kvs)
  then obtain ps where ps: "those (map (\<lambda>(k, v). case k of PStr s \<Rightarrow> map_option (Pair s) (plain v) | _ \<Rightarrow> None) kvs) = Some ps"
    "j = JObj ps" by auto
  have "those (map (\<lambda>(k, v). case k of PStr s \<Rightarrow> map_option (Pair s) (plain v) | _ \<Rightarrow> None) kvs) = Some ps \<Longrightarrow>
      \<forall>p \<in> set kvs. \<forall>i. plain (snd p) = Some i \<longrightarrow> py_of i = snd p \<Longrightarrow> map (\<lambda>(k, v). (PStr k, py_of v)) ps = kvs" for ps
    by (induction kvs arbitrary: ps) (auto split: option.splits py.splits)
  moreover have "\<forall>p \<in> set kvs. \<forall>i. plain (snd p) = Some i \<longrightarrow> py_of i = snd p"
    using PMap.IH by (auto simp: snds.simps)
  ultimately show ?case using ps by auto
qed auto

text \<open>A plain value within the bounds has canonical bytes.\<close>

definition small_enough :: "py \<Rightarrow> bool" where
  "small_enough v \<longleftrightarrow> (case plain v of None \<Rightarrow> False
     | Some j \<Rightarrow> jwf j \<and> jfits default_max_depth j \<and> jcount j \<le> default_max_items
         \<and> 2 * int (jsize j) \<le> default_max_bytes)"

lemma canonical_bytes_exist:
  assumes "small_enough v"
  shows "\<exists>b. canonical_bytes v = Inr b"
proof -
  obtain j where j: "plain v = Some j" "jwf j" "jfits default_max_depth j" "jcount j \<le> default_max_items"
    "2 * int (jsize j) \<le> default_max_bytes"
    using assms by (auto simp: small_enough_def split: option.splits)
  have "normalize default_max_depth default_max_items 0 0 v = Inr (j, jcount j)"
    using normalize_complete [of default_max_depth default_max_items j] j py_of_plain [OF j(1)]
    unfolding reloads_def by simp
  moreover have "length (dumps j) \<le> jsize j"
    using print_jv_length [of "canon j"] by (simp add: dumps_print jsize_canon)
  then have "int (length (utf8 (dumps j))) \<le> default_max_bytes"
    using utf8_length_le [of "dumps j"] j(5) by linarith
  ultimately show ?thesis by (auto simp: canonical_bytes_Inr)
qed

end
