(* ===== verification/Evidence.thy ===== *)
theory Evidence
  imports Statuses Json
begin

section \<open>Evidence contracts (contracts/evidence.py)\<close>

text \<open>
  The sealed input of an assessor: a target context with its sorted properties, immutable result
  observations, and the packet that binds them by digest. Every class is a record, its
  \<open>__post_init__\<close> the list of checks in source order, \<open>to_dict\<close> and \<open>from_dict\<close> the two
  directions of its dictionary form. An identifier field holds the checked string.
\<close>

subsection \<open>Field validators\<close>

definition token_rest :: "char \<Rightarrow> bool" where
  "token_rest c \<longleftrightarrow> is_lower c \<or> is_digit c \<or> c \<in> set ''_.-''"

definition token_ok :: "string \<Rightarrow> bool" where
  "token_ok s = head_tail_pattern is_lower token_rest 63 s"

definition version_rest :: "char \<Rightarrow> bool" where
  "version_rest c \<longleftrightarrow> is_alnum c \<or> c \<in> set ''_.-''"

definition version_ok :: "string \<Rightarrow> bool" where
  "version_ok s \<longleftrightarrow> CHR '':'' \<in> set s \<and> namespace_ok (before_colon s)
     \<and> head_tail_pattern is_alnum version_rest 63 (after_colon s)"

text \<open>\<open>_UTC_MILLISECONDS\<close> and the calendar check of \<open>strptime\<close>.\<close>

definition number_at :: "nat \<Rightarrow> nat \<Rightarrow> string \<Rightarrow> nat" where
  "number_at i n s = digits_value (take n (drop i s))"

definition leap_year :: "nat \<Rightarrow> bool" where
  "leap_year y \<longleftrightarrow> (y mod 4 = 0 \<and> y mod 100 \<noteq> 0) \<or> y mod 400 = 0"

definition days_in_month :: "nat \<Rightarrow> nat \<Rightarrow> nat" where
  "days_in_month y m = (if m = 2 then (if leap_year y then 29 else 28)
     else if m \<in> set [4, 6, 9, 11] then 30 else 31)"

definition utc_shape :: "string \<Rightarrow> bool" where
  "utc_shape s \<longleftrightarrow> length s = 24
     \<and> list_all (\<lambda>(p, c). case p of None \<Rightarrow> is_digit c | Some x \<Rightarrow> c = x)
         (zip [None, None, None, None, Some CHR ''-'', None, None, Some CHR ''-'', None, None, Some CHR ''T'',
               None, None, Some CHR '':'', None, None, Some CHR '':'', None, None, Some CHR ''.'',
               None, None, None, Some CHR ''Z''] s)"

definition utc_ok :: "string \<Rightarrow> bool" where
  "utc_ok s \<longleftrightarrow> utc_shape s
     \<and> 1 \<le> number_at 0 4 s
     \<and> 1 \<le> number_at 5 2 s \<and> number_at 5 2 s \<le> 12
     \<and> 1 \<le> number_at 8 2 s \<and> number_at 8 2 s \<le> days_in_month (number_at 0 4 s) (number_at 5 2 s)
     \<and> number_at 11 2 s \<le> 23 \<and> number_at 14 2 s \<le> 59 \<and> number_at 17 2 s \<le> 59"

definition require_token :: "py \<Rightarrow> string \<Rightarrow> v3_error + string" where
  "require_token v label =
     (case v of PStr s \<Rightarrow> if token_ok s then Inr s
        else Inl (ContractError (label @ '' must be a bounded lower-case token''))
      | _ \<Rightarrow> Inl (ContractError (label @ '' must be a bounded lower-case token'')))"

definition require_version :: "py \<Rightarrow> string \<Rightarrow> v3_error + string" where
  "require_version v label =
     (case v of PStr s \<Rightarrow> if version_ok s then Inr s
        else Inl (ContractError (label @ '' must be a bounded version identifier''))
      | _ \<Rightarrow> Inl (ContractError (label @ '' must be a bounded version identifier'')))"

definition require_digest :: "py \<Rightarrow> string \<Rightarrow> v3_error + string" where
  "require_digest v label =
     (case v of PStr s \<Rightarrow> if is_digest s then Inr s
        else Inl (ContractError (label @ '' must be a lower-case SHA-256 digest''))
      | _ \<Rightarrow> Inl (ContractError (label @ '' must be a lower-case SHA-256 digest'')))"

definition require_utc_milliseconds :: "py \<Rightarrow> v3_error + string" where
  "require_utc_milliseconds v =
     (case v of PStr s \<Rightarrow>
        if \<not> utc_shape s then Inl (ContractError ''occurred_at_utc must be canonical UTC with milliseconds'')
        else if \<not> utc_ok s then Inl (ContractError ''occurred_at_utc must be a valid canonical UTC instant'')
        else Inr s
      | _ \<Rightarrow> Inl (ContractError ''occurred_at_utc must be canonical UTC with milliseconds''))"

lemma require_token_Inr [result_simps]: "require_token v l = Inr s \<longleftrightarrow> v = PStr s \<and> token_ok s"
  by (auto simp: require_token_def split: py.splits if_splits)

lemma require_version_Inr [result_simps]: "require_version v l = Inr s \<longleftrightarrow> v = PStr s \<and> version_ok s"
  by (auto simp: require_version_def split: py.splits if_splits)

lemma require_digest_Inr [result_simps]: "require_digest v l = Inr s \<longleftrightarrow> v = PStr s \<and> is_digest s"
  by (auto simp: require_digest_def split: py.splits if_splits)

lemma require_utc_Inr [result_simps]: "require_utc_milliseconds v = Inr s \<longleftrightarrow> v = PStr s \<and> utc_ok s"
  by (auto simp: require_utc_milliseconds_def utc_ok_def split: py.splits if_splits)

text \<open>\<open>_require_id\<close>: the identifier was validated when it was made, so the namespace is left.\<close>

definition require_id :: "py \<Rightarrow> string \<Rightarrow> v3_error + string" where
  "require_id v ns = require_identifier v (Some ns)"

definition id_in :: "string \<Rightarrow> string \<Rightarrow> bool" where
  "id_in ns s \<longleftrightarrow> identifier_ok s \<and> namespace_ok ns \<and> identifier_namespace s = ns"

lemma require_id_Inr [result_simps]: "require_id v ns = Inr s \<longleftrightarrow> v = PStr s \<and> id_in ns s"
  by (auto simp: require_id_def require_identifier_Inr id_in_def)

subsection \<open>Context properties\<close>

record context_property =
  cp_code :: string
  cp_value :: "string option"
  cp_unit :: string
  cp_missing_reason :: "string option"

text \<open>\<open>ContextProperty.__post_init__\<close> on the field values of \<open>from_dict\<close>.\<close>

definition mk_context_property :: "py \<Rightarrow> py \<Rightarrow> py \<Rightarrow> py \<Rightarrow> v3_error + context_property" where
  "mk_context_property code v unit missing =
     bind_res (require_token code ''property code'') (\<lambda>c.
     bind_res (require_token unit ''property unit'') (\<lambda>u.
     if v = PNone then
       (if missing = PNone
        then Inl (ContractError ''missing context values require an explicit missing_reason'')
        else bind_res (require_token missing ''missing_reason'') (\<lambda>m.
          Inr \<lparr>cp_code = c, cp_value = None, cp_unit = u, cp_missing_reason = Some m\<rparr>))
     else
       (case v of PStr s \<Rightarrow>
          bind_res (canonical_decimal_string (PStr s)) (\<lambda>t.
          bind_res (guards
            [(t \<noteq> s, ContractError ''context property value must be a canonical decimal string''),
             (missing \<noteq> PNone, ContractError ''missing_reason must be absent when a value is present'')]) (\<lambda>_.
          Inr \<lparr>cp_code = c, cp_value = Some s, cp_unit = u, cp_missing_reason = None\<rparr>))
        | _ \<Rightarrow> Inl (ContractError ''context property value must be a canonical decimal string''))))"

definition context_property_to_dict :: "context_property \<Rightarrow> py" where
  "context_property_to_dict p = obj
     [(''code'', PStr (cp_code p)), (''value'', opt_str (cp_value p)),
      (''unit'', PStr (cp_unit p)), (''missing_reason'', opt_str (cp_missing_reason p))]"

definition context_property_from_dict :: "py \<Rightarrow> v3_error + context_property" where
  "context_property_from_dict v =
     bind_res (require_fields v [''code'', ''value'', ''unit'', ''missing_reason'']) (\<lambda>_.
     mk_context_property (fld v ''code'') (fld v ''value'') (fld v ''unit'') (fld v ''missing_reason''))"

definition cp_wf :: "context_property \<Rightarrow> bool" where
  "cp_wf p \<longleftrightarrow> token_ok (cp_code p) \<and> token_ok (cp_unit p)
     \<and> (case cp_value p of
          None \<Rightarrow> (case cp_missing_reason p of None \<Rightarrow> False | Some m \<Rightarrow> token_ok m)
        | Some s \<Rightarrow> canonical_decimal_string (PStr s) = Inr s \<and> cp_missing_reason p = None)"

lemma mk_context_property_iff:
  "mk_context_property code v unit missing = Inr p \<longleftrightarrow>
     cp_wf p \<and> code = PStr (cp_code p) \<and> v = opt_str (cp_value p) \<and> unit = PStr (cp_unit p)
       \<and> missing = opt_str (cp_missing_reason p)"
  by (cases p; cases v)
     (auto simp: mk_context_property_def cp_wf_def bind_res_Inr require_token_Inr opt_str_def
        split: option.splits if_splits)

lemma opt_str_plain [simp]: "plain_ok (opt_str x)" "rl (opt_str x) = opt_str x"
  by (cases x; simp add: opt_str_def)+

lemma opt_int_plain [simp]: "plain_ok (opt_int x)" "rl (opt_int x) = opt_int x"
  by (cases x; simp add: opt_int_def)+

lemma context_property_plain [simp]: "plain_ok (context_property_to_dict p)"
  by (simp add: context_property_to_dict_def)

lemma context_property_reload:
  "cp_wf p \<Longrightarrow> context_property_from_dict (rl (context_property_to_dict p)) = Inr p"
  by (simp add: context_property_from_dict_def context_property_to_dict_def require_fields_def rl_fld
      mk_context_property_iff insert_commute)

subsection \<open>Target contexts\<close>

record target_context =
  tc_event_code :: string
  tc_size_mm :: int
  tc_material_code :: string
  tc_taxonomy_version :: string
  tc_conversion_version :: string
  tc_properties :: "context_property list"

definition context_schema_version :: string where
  "context_schema_version = ''strathmark-v3-target-context-v1''"

text \<open>\<open>codes == sorted(codes)\<close> without repetition.\<close>

definition strictly_sorted :: "('a::linorder) list \<Rightarrow> bool" where
  "strictly_sorted xs \<longleftrightarrow> sorted xs \<and> distinct xs"

definition mk_target_context ::
    "py \<Rightarrow> py \<Rightarrow> py \<Rightarrow> py \<Rightarrow> py \<Rightarrow> context_property list \<Rightarrow> v3_error + target_context" where
  "mk_target_context ev sz mat tax conv props =
     bind_res (require_token ev ''event_code'') (\<lambda>e.
     bind_res (require_positive_int sz ''size_mm'') (\<lambda>n.
     bind_res (require_token mat ''material_code'') (\<lambda>m.
     bind_res (require_version tax ''taxonomy_version'') (\<lambda>t.
     bind_res (require_version conv ''conversion_version'') (\<lambda>c.
     bind_res (guards [(\<not> strictly_sorted (map cp_code props),
       ContractError ''context properties must be unique and sorted by code'')]) (\<lambda>_.
     Inr \<lparr>tc_event_code = e, tc_size_mm = n, tc_material_code = m, tc_taxonomy_version = t,
          tc_conversion_version = c, tc_properties = props\<rparr>))))))"

definition target_context_to_dict :: "target_context \<Rightarrow> py" where
  "target_context_to_dict c = obj
     [(''schema_version'', PStr context_schema_version),
      (''event_code'', PStr (tc_event_code c)),
      (''size_mm'', PInt (tc_size_mm c)),
      (''material_code'', PStr (tc_material_code c)),
      (''taxonomy_version'', PStr (tc_taxonomy_version c)),
      (''conversion_version'', PStr (tc_conversion_version c)),
      (''properties'', PSeq (map context_property_to_dict (tc_properties c)))]"

definition target_context_from_dict :: "py \<Rightarrow> v3_error + target_context" where
  "target_context_from_dict v =
     bind_res (require_fields v [''schema_version'', ''event_code'', ''size_mm'', ''material_code'',
       ''taxonomy_version'', ''conversion_version'', ''properties'']) (\<lambda>_.
     bind_res (require_schema (fld v ''schema_version'') context_schema_version) (\<lambda>_.
     case fld v ''properties'' of
       PSeq xs \<Rightarrow> bind_res (map_all context_property_from_dict xs) (\<lambda>props.
         mk_target_context (fld v ''event_code'') (fld v ''size_mm'') (fld v ''material_code'')
           (fld v ''taxonomy_version'') (fld v ''conversion_version'') props)
     | _ \<Rightarrow> Inl (ContractError ''properties must be a JSON array'')))"

text \<open>\<open>TargetContext.digest\<close>.\<close>

definition target_context_digest :: "target_context \<Rightarrow> v3_error + string" where
  "target_context_digest c = canonical_digest (target_context_to_dict c)"

definition tc_wf :: "target_context \<Rightarrow> bool" where
  "tc_wf c \<longleftrightarrow> token_ok (tc_event_code c) \<and> 0 < tc_size_mm c \<and> token_ok (tc_material_code c)
     \<and> version_ok (tc_taxonomy_version c) \<and> version_ok (tc_conversion_version c)
     \<and> (\<forall>p \<in> set (tc_properties c). cp_wf p) \<and> strictly_sorted (map cp_code (tc_properties c))"

lemma target_context_plain [simp]: "plain_ok (target_context_to_dict c)"
  by (simp add: target_context_to_dict_def)

lemma mk_target_context_iff:
  "mk_target_context ev sz mat tax conv props = Inr c \<longleftrightarrow>
     ev = PStr (tc_event_code c) \<and> sz = PInt (tc_size_mm c) \<and> mat = PStr (tc_material_code c)
     \<and> tax = PStr (tc_taxonomy_version c) \<and> conv = PStr (tc_conversion_version c) \<and> props = tc_properties c
     \<and> token_ok (tc_event_code c) \<and> 0 < tc_size_mm c \<and> token_ok (tc_material_code c)
     \<and> version_ok (tc_taxonomy_version c) \<and> version_ok (tc_conversion_version c)
     \<and> strictly_sorted (map cp_code props)"
  by (cases c) (auto simp: mk_target_context_def bind_res_Inr require_token_Inr require_version_Inr
      require_positive_int_Inr)

lemma reload_items:
  assumes "\<And>x. x \<in> set xs \<Longrightarrow> fd (rl (td x)) = Inr x"
  shows "map_all fd (map (rl \<circ> td) xs) = Inr xs"
  using assms by (induction xs) auto

lemma target_context_reload:
  assumes "tc_wf c"
  shows "target_context_from_dict (rl (target_context_to_dict c)) = Inr c"
proof -
  have items: "map_all context_property_from_dict (map (rl \<circ> context_property_to_dict) (tc_properties c)) = Inr (tc_properties c)"
    using assms by (intro reload_items context_property_reload) (simp add: tc_wf_def)
  show ?thesis using assms
    by (simp add: target_context_from_dict_def target_context_to_dict_def require_fields_def require_schema_def
        rl_fld items mk_target_context_iff tc_wf_def insert_commute)
qed

subsection \<open>Result observations\<close>

record result_observation =
  ro_evidence_id :: string
  ro_competitor_id :: string
  ro_tournament_id :: string
  ro_round_id :: string
  ro_field_id :: string
  ro_context :: target_context
  ro_observation_sequence :: int
  ro_occurred_at_utc :: string
  ro_issued_mark :: int
  ro_completion_clock_ms :: "int option"
  ro_placing :: "int option"
  ro_gap_ms :: "int option"
  ro_result :: official_result
  ro_source_digest :: string

definition observation_schema_version :: string where
  "observation_schema_version = ''strathmark-v3-result-observation-v1''"

definition optional_nonnegative :: "py \<Rightarrow> string \<Rightarrow> v3_error + int option" where
  "optional_nonnegative v label =
     (if v = PNone then Inr None else map_res Some (require_nonnegative_int v label))"

definition nonfinish_or_void :: "result_status \<Rightarrow> bool" where
  "nonfinish_or_void s \<longleftrightarrow> s \<in> set [RS_DNF, RS_DQ, RS_DNS, RS_VOID]"

definition mk_result_observation ::
    "py \<Rightarrow> py \<Rightarrow> py \<Rightarrow> py \<Rightarrow> py \<Rightarrow> target_context \<Rightarrow> py \<Rightarrow> py \<Rightarrow> py \<Rightarrow> py \<Rightarrow> py \<Rightarrow> py \<Rightarrow> official_result \<Rightarrow> py
      \<Rightarrow> v3_error + result_observation" where
  "mk_result_observation eid cid tid rid fid ctx sq occ mark clock placing gap res src =
     bind_res (require_id eid ''evidence'') (\<lambda>e.
     bind_res (require_id cid ''competitor'') (\<lambda>c.
     bind_res (require_id tid ''tournament'') (\<lambda>t.
     bind_res (require_id rid ''round'') (\<lambda>r.
     bind_res (require_id fid ''field'') (\<lambda>f.
     bind_res (require_positive_int sq ''observation_sequence'') (\<lambda>n.
     bind_res (require_utc_milliseconds occ) (\<lambda>u.
     bind_res (require_positive_int mark ''issued_mark'') (\<lambda>k.
     bind_res (optional_positive clock ''completion_clock_ms'') (\<lambda>cl.
     bind_res (optional_positive placing ''placing'') (\<lambda>pl.
     bind_res (optional_nonnegative gap ''gap_ms'') (\<lambda>g.
     bind_res (guards [(nonfinish_or_void (or_status res) \<and> (cl \<noteq> None \<or> pl \<noteq> None \<or> g \<noteq> None),
       ContractError ''nonfinish and void observations cannot carry completion, placing, or gap facts'')]) (\<lambda>_.
     bind_res (require_digest src ''source_digest'') (\<lambda>d.
     Inr \<lparr>ro_evidence_id = e, ro_competitor_id = c, ro_tournament_id = t, ro_round_id = r, ro_field_id = f,
          ro_context = ctx, ro_observation_sequence = n, ro_occurred_at_utc = u, ro_issued_mark = k,
          ro_completion_clock_ms = cl, ro_placing = pl, ro_gap_ms = g, ro_result = res, ro_source_digest = d\<rparr>
     )))))))))))))"

definition result_observation_to_dict :: "result_observation \<Rightarrow> py" where
  "result_observation_to_dict ob = obj
     [(''schema_version'', PStr observation_schema_version),
      (''evidence_id'', PStr (ro_evidence_id ob)),
      (''competitor_id'', PStr (ro_competitor_id ob)),
      (''tournament_id'', PStr (ro_tournament_id ob)),
      (''round_id'', PStr (ro_round_id ob)),
      (''field_id'', PStr (ro_field_id ob)),
      (''context'', target_context_to_dict (ro_context ob)),
      (''observation_sequence'', PInt (ro_observation_sequence ob)),
      (''occurred_at_utc'', PStr (ro_occurred_at_utc ob)),
      (''issued_mark'', PInt (ro_issued_mark ob)),
      (''completion_clock_ms'', opt_int (ro_completion_clock_ms ob)),
      (''placing'', opt_int (ro_placing ob)),
      (''gap_ms'', opt_int (ro_gap_ms ob)),
      (''result'', official_result_to_dict (ro_result ob)),
      (''source_digest'', PStr (ro_source_digest ob))]"

definition result_observation_from_dict :: "py \<Rightarrow> v3_error + result_observation" where
  "result_observation_from_dict v =
     bind_res (require_fields v [''schema_version'', ''evidence_id'', ''competitor_id'', ''tournament_id'',
       ''round_id'', ''field_id'', ''context'', ''observation_sequence'', ''occurred_at_utc'', ''issued_mark'',
       ''completion_clock_ms'', ''placing'', ''gap_ms'', ''result'', ''source_digest'']) (\<lambda>_.
     bind_res (require_schema (fld v ''schema_version'') observation_schema_version) (\<lambda>_.
     bind_res (require_identifier (fld v ''evidence_id'') (Some ''evidence'')) (\<lambda>_.
     bind_res (require_identifier (fld v ''competitor_id'') (Some ''competitor'')) (\<lambda>_.
     bind_res (require_identifier (fld v ''tournament_id'') (Some ''tournament'')) (\<lambda>_.
     bind_res (require_identifier (fld v ''round_id'') (Some ''round'')) (\<lambda>_.
     bind_res (require_identifier (fld v ''field_id'') (Some ''field'')) (\<lambda>_.
     bind_res (target_context_from_dict (fld v ''context'')) (\<lambda>ctx.
     bind_res (official_result_from_dict (fld v ''result'')) (\<lambda>res.
     mk_result_observation (fld v ''evidence_id'') (fld v ''competitor_id'') (fld v ''tournament_id'')
       (fld v ''round_id'') (fld v ''field_id'') ctx (fld v ''observation_sequence'') (fld v ''occurred_at_utc'')
       (fld v ''issued_mark'') (fld v ''completion_clock_ms'') (fld v ''placing'') (fld v ''gap_ms'') res
       (fld v ''source_digest''))))))))))"

definition opt_all :: "('a \<Rightarrow> bool) \<Rightarrow> 'a option \<Rightarrow> bool" where
  "opt_all P x = (case x of None \<Rightarrow> True | Some n \<Rightarrow> P n)"

lemma opt_all_simps [simp]: "opt_all P None" "opt_all P (Some n) \<longleftrightarrow> P n"
  by (simp_all add: opt_all_def)

text \<open>What the constructor checks of its own fields; the nested values are checked by theirs.\<close>

definition ro_own_ok :: "result_observation \<Rightarrow> bool" where
  "ro_own_ok ob \<longleftrightarrow> id_in ''evidence'' (ro_evidence_id ob) \<and> id_in ''competitor'' (ro_competitor_id ob)
     \<and> id_in ''tournament'' (ro_tournament_id ob) \<and> id_in ''round'' (ro_round_id ob) \<and> id_in ''field'' (ro_field_id ob)
     \<and> 0 < ro_observation_sequence ob \<and> utc_ok (ro_occurred_at_utc ob) \<and> 0 < ro_issued_mark ob
     \<and> opt_all (\<lambda>n. 0 < n) (ro_completion_clock_ms ob) \<and> opt_all (\<lambda>n. 0 < n) (ro_placing ob)
     \<and> opt_all (\<lambda>n. 0 \<le> n) (ro_gap_ms ob) \<and> is_digest (ro_source_digest ob)
     \<and> (nonfinish_or_void (or_status (ro_result ob)) \<longrightarrow>
          ro_completion_clock_ms ob = None \<and> ro_placing ob = None \<and> ro_gap_ms ob = None)"

definition ro_wf :: "result_observation \<Rightarrow> bool" where
  "ro_wf ob \<longleftrightarrow> ro_own_ok ob \<and> tc_wf (ro_context ob) \<and> or_wf (ro_result ob)"

lemma optional_positive_opt:
  "optional_positive v l = Inr x \<longleftrightarrow> v = opt_int x \<and> opt_all (\<lambda>n. 0 < n) x"
  by (cases x) (auto simp: optional_positive_Inr opt_int_def)

lemma optional_nonnegative_opt:
  "optional_nonnegative v l = Inr x \<longleftrightarrow> v = opt_int x \<and> opt_all (\<lambda>n. 0 \<le> n) x"
  by (cases x) (auto simp: optional_nonnegative_def map_res_Inr require_nonnegative_int_Inr opt_int_def)

lemma mk_result_observation_iff:
  "mk_result_observation eid cid tid rid fid ctx sq occ mark clock placing gap res src = Inr ob \<longleftrightarrow>
     eid = PStr (ro_evidence_id ob) \<and> cid = PStr (ro_competitor_id ob) \<and> tid = PStr (ro_tournament_id ob)
     \<and> rid = PStr (ro_round_id ob) \<and> fid = PStr (ro_field_id ob) \<and> ctx = ro_context ob
     \<and> sq = PInt (ro_observation_sequence ob) \<and> occ = PStr (ro_occurred_at_utc ob) \<and> mark = PInt (ro_issued_mark ob)
     \<and> clock = opt_int (ro_completion_clock_ms ob) \<and> placing = opt_int (ro_placing ob) \<and> gap = opt_int (ro_gap_ms ob)
     \<and> res = ro_result ob \<and> src = PStr (ro_source_digest ob) \<and> ro_own_ok ob"
  by (cases ob)
     (auto simp: mk_result_observation_def ro_own_ok_def bind_res_Inr require_id_Inr require_positive_int_Inr
        require_utc_Inr optional_positive_opt optional_nonnegative_opt require_digest_Inr)

lemma official_result_plain [simp]: "plain_ok (official_result_to_dict r)"
  by (simp add: official_result_to_dict_def)

lemma official_result_reload:
  "or_wf r \<Longrightarrow> official_result_from_dict (rl (official_result_to_dict r)) = Inr r"
  by (simp add: official_result_from_dict_def official_result_to_dict_def require_fields_def require_schema_def
      rl_fld parse_status_field_def mk_official_result_complete insert_commute)

lemma result_observation_plain [simp]: "plain_ok (result_observation_to_dict ob)"
  by (simp add: result_observation_to_dict_def)

lemma id_in_require: "id_in ns s \<Longrightarrow> require_identifier (PStr s) (Some ns) = Inr s"
  by (simp add: require_identifier_Inr id_in_def)

lemma result_observation_reload:
  assumes "ro_wf ob"
  shows "result_observation_from_dict (rl (result_observation_to_dict ob)) = Inr ob"
proof -
  have own: "ro_own_ok ob" "tc_wf (ro_context ob)" "or_wf (ro_result ob)"
    using assms by (simp_all add: ro_wf_def)
  have ids: "id_in ''evidence'' (ro_evidence_id ob)" "id_in ''competitor'' (ro_competitor_id ob)"
    "id_in ''tournament'' (ro_tournament_id ob)" "id_in ''round'' (ro_round_id ob)" "id_in ''field'' (ro_field_id ob)"
    using own(1) by (simp_all add: ro_own_ok_def)
  show ?thesis using own
    by (simp add: result_observation_from_dict_def result_observation_to_dict_def require_fields_def
        require_schema_def rl_fld ids id_in_require target_context_reload official_result_reload
        mk_result_observation_iff insert_commute)
qed

subsection \<open>Evidence packets\<close>

record evidence_packet =
  ep_competitor_id :: string
  ep_target_context :: target_context
  ep_observations :: "result_observation list"
  ep_taxonomy_version :: string
  ep_conversion_version :: string
  ep_historical_cutoff_key :: string
  ep_tournament_epoch_id :: string
  ep_tournament_event_sequence :: int
  ep_content_digest :: string

definition evidence_schema_version :: string where
  "evidence_schema_version = ''strathmark-v3-evidence-packet-v1''"

definition canonicalization_version :: string where
  "canonicalization_version = ''strathmark-v3-canonical-json-v1''"

text \<open>\<open>_content_value\<close>: the dictionary without its digest.\<close>

definition evidence_content :: "evidence_packet \<Rightarrow> (string \<times> py) list" where
  "evidence_content p =
     [(''schema_version'', PStr evidence_schema_version),
      (''competitor_id'', PStr (ep_competitor_id p)),
      (''target_context'', target_context_to_dict (ep_target_context p)),
      (''observations'', PSeq (map result_observation_to_dict (ep_observations p))),
      (''taxonomy_version'', PStr (ep_taxonomy_version p)),
      (''conversion_version'', PStr (ep_conversion_version p)),
      (''canonicalization_version'', PStr canonicalization_version),
      (''historical_cutoff_key'', PStr (ep_historical_cutoff_key p)),
      (''tournament_epoch_id'', PStr (ep_tournament_epoch_id p)),
      (''tournament_event_sequence'', PInt (ep_tournament_event_sequence p))]"

definition evidence_packet_to_dict :: "evidence_packet \<Rightarrow> py" where
  "evidence_packet_to_dict p = obj (evidence_content p @ [(''content_digest'', PStr (ep_content_digest p))])"

definition evidence_recompute_digest :: "evidence_packet \<Rightarrow> v3_error + string" where
  "evidence_recompute_digest p = canonical_digest (obj (evidence_content p))"

text \<open>\<open>EvidencePacket.__post_init__\<close> on the field values.\<close>

definition mk_evidence_packet ::
    "string \<Rightarrow> target_context \<Rightarrow> result_observation list \<Rightarrow> py \<Rightarrow> py \<Rightarrow> py \<Rightarrow> py \<Rightarrow> string \<Rightarrow> py \<Rightarrow> py
      \<Rightarrow> v3_error + evidence_packet" where
  "mk_evidence_packet cid ctx obs tax conv canonv cutoff epoch sq dig =
     (let sqs = map ro_observation_sequence obs in
     bind_res (require_id (PStr cid) ''competitor'') (\<lambda>_.
     bind_res (require_version tax ''taxonomy_version'') (\<lambda>t.
     bind_res (require_version conv ''conversion_version'') (\<lambda>c.
     bind_res (guards
       [(t \<noteq> tc_taxonomy_version ctx, ContractError ''packet taxonomy_version must match target_context''),
        (c \<noteq> tc_conversion_version ctx, ContractError ''packet conversion_version must match target_context'')]) (\<lambda>_.
     bind_res (require_schema canonv canonicalization_version) (\<lambda>_.
     bind_res (require_identifier cutoff (Some ''history'')) (\<lambda>h.
     bind_res (require_id (PStr epoch) ''epoch'') (\<lambda>_.
     bind_res (require_nonnegative_int sq ''tournament_event_sequence'') (\<lambda>n.
     bind_res (guards
       [(\<not> strictly_sorted sqs, ContractError ''observation sequences must be unique and sorted''),
        (sqs \<noteq> [] \<and> n < last sqs, ContractError ''observation sequence exceeds the sealed tournament sequence''),
        (list_ex (\<lambda>ob. ro_competitor_id ob \<noteq> cid) obs,
         ContractError ''every observation must match the packet competitor'')]) (\<lambda>_.
     bind_res (require_digest dig ''content_digest'') (\<lambda>d.
     let p = \<lparr>ep_competitor_id = cid, ep_target_context = ctx, ep_observations = obs, ep_taxonomy_version = t,
        ep_conversion_version = c, ep_historical_cutoff_key = h, ep_tournament_epoch_id = epoch,
        ep_tournament_event_sequence = n, ep_content_digest = d\<rparr> in
     bind_res (evidence_recompute_digest p) (\<lambda>r.
     bind_res (guards [(d \<noteq> r, ContractError ''evidence packet content digest mismatch'')]) (\<lambda>_. Inr p)))))))))))))"

text \<open>\<open>EvidencePacket.create\<close>: the digest is computed from the other fields.\<close>

definition create_evidence_packet ::
    "string \<Rightarrow> target_context \<Rightarrow> result_observation list \<Rightarrow> string \<Rightarrow> string \<Rightarrow> string \<Rightarrow> string \<Rightarrow> int
      \<Rightarrow> v3_error + evidence_packet" where
  "create_evidence_packet cid ctx obs tax conv cutoff epoch sq =
     (let p = \<lparr>ep_competitor_id = cid, ep_target_context = ctx, ep_observations = obs, ep_taxonomy_version = tax,
        ep_conversion_version = conv, ep_historical_cutoff_key = cutoff, ep_tournament_epoch_id = epoch,
        ep_tournament_event_sequence = sq, ep_content_digest = zero_digest\<rparr> in
      bind_res (evidence_recompute_digest p) (\<lambda>d.
      mk_evidence_packet cid ctx obs (PStr tax) (PStr conv) (PStr canonicalization_version) (PStr cutoff) epoch
        (PInt sq) (PStr d)))"

text \<open>\<open>eligible_raw_times_ms\<close>: completions only.\<close>

definition eligible_raw_times_ms :: "evidence_packet \<Rightarrow> int list" where
  "eligible_raw_times_ms p =
     map ac_raw_time_ms (List.map_filter (\<lambda>ob. admit_raw_completion (ro_result ob)) (ep_observations p))"

definition evidence_packet_from_dict :: "py \<Rightarrow> v3_error + evidence_packet" where
  "evidence_packet_from_dict v =
     bind_res (require_fields v [''schema_version'', ''competitor_id'', ''target_context'', ''observations'',
       ''taxonomy_version'', ''conversion_version'', ''canonicalization_version'', ''historical_cutoff_key'',
       ''tournament_epoch_id'', ''tournament_event_sequence'', ''content_digest'']) (\<lambda>_.
     bind_res (require_schema (fld v ''schema_version'') evidence_schema_version) (\<lambda>_.
     case fld v ''observations'' of
       PSeq xs \<Rightarrow>
         bind_res (require_identifier (fld v ''competitor_id'') (Some ''competitor'')) (\<lambda>c.
         bind_res (target_context_from_dict (fld v ''target_context'')) (\<lambda>ctx.
         bind_res (map_all result_observation_from_dict xs) (\<lambda>obs.
         bind_res (require_identifier (fld v ''tournament_epoch_id'') (Some ''epoch'')) (\<lambda>ep.
         mk_evidence_packet c ctx obs (fld v ''taxonomy_version'') (fld v ''conversion_version'')
           (fld v ''canonicalization_version'') (fld v ''historical_cutoff_key'') ep
           (fld v ''tournament_event_sequence'') (fld v ''content_digest'')))))
     | _ \<Rightarrow> Inl (ContractError ''observations must be a JSON array'')))"

text \<open>What the packet's own checks establish.\<close>

definition ep_own_ok :: "evidence_packet \<Rightarrow> bool" where
  "ep_own_ok p \<longleftrightarrow> id_in ''competitor'' (ep_competitor_id p)
     \<and> version_ok (ep_taxonomy_version p) \<and> version_ok (ep_conversion_version p)
     \<and> ep_taxonomy_version p = tc_taxonomy_version (ep_target_context p)
     \<and> ep_conversion_version p = tc_conversion_version (ep_target_context p)
     \<and> id_in ''history'' (ep_historical_cutoff_key p) \<and> id_in ''epoch'' (ep_tournament_epoch_id p)
     \<and> 0 \<le> ep_tournament_event_sequence p
     \<and> strictly_sorted (map ro_observation_sequence (ep_observations p))
     \<and> (ep_observations p \<noteq> [] \<longrightarrow>
          ro_observation_sequence (last (ep_observations p)) \<le> ep_tournament_event_sequence p)
     \<and> (\<forall>ob \<in> set (ep_observations p). ro_competitor_id ob = ep_competitor_id p)
     \<and> evidence_recompute_digest p = Inr (ep_content_digest p)"

definition ep_wf :: "evidence_packet \<Rightarrow> bool" where
  "ep_wf p \<longleftrightarrow> ep_own_ok p \<and> tc_wf (ep_target_context p) \<and> (\<forall>ob \<in> set (ep_observations p). ro_wf ob)"

lemma evidence_recompute_is_digest: "evidence_recompute_digest p = Inr d \<Longrightarrow> is_digest d"
  by (simp add: evidence_recompute_digest_def canonical_digest_is_digest)

lemma mk_evidence_packet_iff:
  "mk_evidence_packet cid ctx obs tax conv canonv cutoff epoch sq dig = Inr p \<longleftrightarrow>
     cid = ep_competitor_id p \<and> ctx = ep_target_context p \<and> obs = ep_observations p
     \<and> tax = PStr (ep_taxonomy_version p) \<and> conv = PStr (ep_conversion_version p)
     \<and> canonv = PStr canonicalization_version \<and> cutoff = PStr (ep_historical_cutoff_key p)
     \<and> epoch = ep_tournament_epoch_id p \<and> sq = PInt (ep_tournament_event_sequence p)
     \<and> dig = PStr (ep_content_digest p) \<and> ep_own_ok p"
  by (cases p; cases "obs = []")
     (auto simp: mk_evidence_packet_def ep_own_ok_def bind_res_Inr require_id_Inr require_version_Inr
        require_schema_Inr require_identifier_Inr require_nonnegative_int_Inr require_digest_Inr Let_def
        id_in_def last_map not_less list_ex_iff guards_Inr simp del: guards.simps dest: evidence_recompute_is_digest)

lemma evidence_packet_plain [simp]: "plain_ok (evidence_packet_to_dict p)"
  by (simp add: evidence_packet_to_dict_def evidence_content_def)

lemma evidence_packet_reload:
  assumes "ep_wf p"
  shows "evidence_packet_from_dict (rl (evidence_packet_to_dict p)) = Inr p"
proof -
  have own: "ep_own_ok p" "tc_wf (ep_target_context p)" "\<forall>ob \<in> set (ep_observations p). ro_wf ob"
    using assms by (simp_all add: ep_wf_def)
  have items: "map_all result_observation_from_dict (map (rl \<circ> result_observation_to_dict) (ep_observations p))
      = Inr (ep_observations p)"
    using own(3) by (intro reload_items result_observation_reload) simp
  have ids: "id_in ''competitor'' (ep_competitor_id p)" "id_in ''epoch'' (ep_tournament_epoch_id p)"
    using own(1) by (simp_all add: ep_own_ok_def)
  show ?thesis using own
    by (simp add: evidence_packet_from_dict_def evidence_packet_to_dict_def evidence_content_def
        require_fields_def require_schema_def rl_fld items ids id_in_require target_context_reload
        mk_evidence_packet_iff insert_commute)
qed

subsection \<open>Reading dictionaries\<close>

text \<open>What \<open>from_dict\<close> returns satisfies the contract, and every value that satisfies the contract
  is returned by \<open>from_dict\<close> on its own dictionary.\<close>

lemma map_all_all: "map_all f xs = Inr ys \<Longrightarrow> (\<And>x y. f x = Inr y \<Longrightarrow> P y) \<Longrightarrow> \<forall>y \<in> set ys. P y"
  by (induction xs arbitrary: ys) (auto simp: bind_res_Inr map_res_Inr)

lemma context_property_from_dict_wf: "context_property_from_dict v = Inr p \<Longrightarrow> cp_wf p"
  by (auto simp: context_property_from_dict_def bind_res_Inr mk_context_property_iff)

lemma target_context_from_dict_wf:
  assumes "target_context_from_dict v = Inr c"
  shows "tc_wf c"
proof -
  obtain xs props where "map_all context_property_from_dict xs = Inr props"
    "mk_target_context (fld v ''event_code'') (fld v ''size_mm'') (fld v ''material_code'')
       (fld v ''taxonomy_version'') (fld v ''conversion_version'') props = Inr c"
    using assms by (auto simp: target_context_from_dict_def bind_res_Inr split: py.splits)
  then show ?thesis using map_all_all [of context_property_from_dict xs props cp_wf, OF _ context_property_from_dict_wf]
    by (auto simp: mk_target_context_iff tc_wf_def)
qed

lemma official_result_from_dict_wf: "official_result_from_dict v = Inr r \<Longrightarrow> or_wf r"
  by (auto simp: official_result_from_dict_def bind_res_Inr dest: mk_official_result_wf)

lemma result_observation_from_dict_wf: "result_observation_from_dict v = Inr ob \<Longrightarrow> ro_wf ob"
  by (auto simp: result_observation_from_dict_def bind_res_Inr mk_result_observation_iff ro_wf_def
      dest: target_context_from_dict_wf official_result_from_dict_wf)

lemma evidence_packet_from_dict_wf:
  assumes "evidence_packet_from_dict v = Inr p"
  shows "ep_wf p"
proof -
  obtain xs c ctx obs ep where "target_context_from_dict (fld v ''target_context'') = Inr ctx"
    "map_all result_observation_from_dict xs = Inr obs"
    "mk_evidence_packet c ctx obs (fld v ''taxonomy_version'') (fld v ''conversion_version'')
       (fld v ''canonicalization_version'') (fld v ''historical_cutoff_key'') ep
       (fld v ''tournament_event_sequence'') (fld v ''content_digest'') = Inr p"
    using assms by (auto simp: evidence_packet_from_dict_def bind_res_Inr split: py.splits)
  then show ?thesis
    using map_all_all [of result_observation_from_dict xs obs ro_wf, OF _ result_observation_from_dict_wf]
    by (auto simp: mk_evidence_packet_iff ep_wf_def dest: target_context_from_dict_wf)
qed

lemma context_property_roundtrip:
  "cp_wf p \<Longrightarrow> context_property_from_dict (context_property_to_dict p) = Inr p"
  by (simp add: context_property_from_dict_def context_property_to_dict_def require_fields_def
      mk_context_property_iff insert_commute)

lemma map_all_roundtrip:
  assumes "\<And>x. x \<in> set xs \<Longrightarrow> fd (td x) = Inr x"
  shows "map_all fd (map td xs) = Inr xs"
  using assms by (induction xs) auto

lemma target_context_roundtrip:
  assumes "tc_wf c"
  shows "target_context_from_dict (target_context_to_dict c) = Inr c"
proof -
  have items: "map_all context_property_from_dict (map context_property_to_dict (tc_properties c)) = Inr (tc_properties c)"
    using assms by (intro map_all_roundtrip context_property_roundtrip) (simp add: tc_wf_def)
  show ?thesis using assms
    by (simp add: target_context_from_dict_def target_context_to_dict_def require_fields_def require_schema_def
        items mk_target_context_iff tc_wf_def insert_commute)
qed

lemma result_observation_roundtrip:
  assumes "ro_wf ob"
  shows "result_observation_from_dict (result_observation_to_dict ob) = Inr ob"
proof -
  have own: "ro_own_ok ob" "tc_wf (ro_context ob)" "or_wf (ro_result ob)"
    using assms by (simp_all add: ro_wf_def)
  have ids: "id_in ''evidence'' (ro_evidence_id ob)" "id_in ''competitor'' (ro_competitor_id ob)"
    "id_in ''tournament'' (ro_tournament_id ob)" "id_in ''round'' (ro_round_id ob)" "id_in ''field'' (ro_field_id ob)"
    using own(1) by (simp_all add: ro_own_ok_def)
  have res: "official_result_from_dict (official_result_to_dict (ro_result ob)) = Inr (ro_result ob)"
    using own(3) by (simp add: official_result_from_dict_def official_result_to_dict_def parse_status_field_def
        require_fields_def require_schema_def mk_official_result_complete)
  show ?thesis using own
    by (simp add: result_observation_from_dict_def result_observation_to_dict_def require_fields_def
        require_schema_def ids id_in_require target_context_roundtrip res mk_result_observation_iff insert_commute)
qed

text \<open>C35. The dictionary form of a sealed packet is faithful: exactly the packets that satisfy the
  contract (their content digest, order of observations, competitor and versions included) are
  returned unchanged by \<open>from_dict(to_dict(p))\<close>.\<close>

theorem evidence_packet_roundtrip:
  "evidence_packet_from_dict (evidence_packet_to_dict p) = Inr p \<longleftrightarrow> ep_wf p"
proof
  assume "ep_wf p"
  then have own: "ep_own_ok p" "tc_wf (ep_target_context p)" "\<forall>ob \<in> set (ep_observations p). ro_wf ob"
    by (simp_all add: ep_wf_def)
  have items: "map_all result_observation_from_dict (map result_observation_to_dict (ep_observations p))
      = Inr (ep_observations p)"
    using own(3) by (intro map_all_roundtrip result_observation_roundtrip) simp
  have ids: "id_in ''competitor'' (ep_competitor_id p)" "id_in ''epoch'' (ep_tournament_epoch_id p)"
    using own(1) by (simp_all add: ep_own_ok_def)
  show "evidence_packet_from_dict (evidence_packet_to_dict p) = Inr p" using own
    by (simp add: evidence_packet_from_dict_def evidence_packet_to_dict_def evidence_content_def
        require_fields_def require_schema_def items ids id_in_require target_context_roundtrip
        mk_evidence_packet_iff insert_commute)
qed (rule evidence_packet_from_dict_wf)

text \<open>The same through the canonical text a packet is stored as.\<close>

lemma evidence_packet_stored:
  assumes "ep_wf p" "canonical_text (evidence_packet_to_dict p) = Inr t"
  shows "\<exists>w. json_loads t = Some w \<and> evidence_packet_from_dict w = Inr p"
  using canonical_text_reload [OF assms(2)] reloaded_plain [OF assms(2) evidence_packet_plain]
    evidence_packet_reload [OF assms(1)] by simp

subsection \<open>Sealing\<close>

lemma create_evidence_packet_own:
  assumes "create_evidence_packet cid ctx obs tax conv cutoff epoch sq = Inr p"
  shows "ep_own_ok p \<and> ep_observations p = obs \<and> ep_target_context p = ctx \<and> ep_competitor_id p = cid"
  using assms by (auto simp: create_evidence_packet_def Let_def bind_res_Inr mk_evidence_packet_iff)

text \<open>Only completions are evidence of speed: the times an assessor may read from a packet are
  the raw times of its completed results, in observation order, and every other status
  (penalties included) contributes nothing.\<close>

theorem eligible_times_are_completions:
  "ep_wf p \<Longrightarrow> eligible_raw_times_ms p =
     map (\<lambda>ob. the (raw_time_ms (ro_result ob)))
       (filter (\<lambda>ob. or_status (ro_result ob) = RS_COMPLETION) (ep_observations p))
   \<and> (\<forall>t \<in> set (eligible_raw_times_ms p). 0 < t)"
proof -
  assume "ep_wf p"
  then have wf: "\<forall>ob \<in> set (ep_observations p). or_wf (ro_result ob)"
    by (simp add: ep_wf_def ro_wf_def)
  have "map ac_raw_time_ms (List.map_filter (\<lambda>ob. admit_raw_completion (ro_result ob)) obs) =
      map (\<lambda>ob. the (raw_time_ms (ro_result ob))) (filter (\<lambda>ob. or_status (ro_result ob) = RS_COMPLETION) obs)
    \<and> (\<forall>t \<in> set (map ac_raw_time_ms (List.map_filter (\<lambda>ob. admit_raw_completion (ro_result ob)) obs)). 0 < t)"
    if "\<forall>ob \<in> set obs. or_wf (ro_result ob)" for obs
    using that
    by (induction obs) (auto simp: map_filter_simps admit_raw_completion_wf or_wf_def)
  then show ?thesis using wf by (simp add: eligible_raw_times_ms_def)
qed

definition sample_context :: target_context where
  "sample_context = \<lparr>tc_event_code = ''underhand'', tc_size_mm = 3, tc_material_code = ''pine'',
     tc_taxonomy_version = ''tax:v1'', tc_conversion_version = ''conv:v1'', tc_properties = []\<rparr>"

definition sample_observation :: "int \<Rightarrow> official_result \<Rightarrow> result_observation" where
  "sample_observation n r = \<lparr>ro_evidence_id = ''evidence:e'', ro_competitor_id = ''competitor:a'',
     ro_tournament_id = ''tournament:t'', ro_round_id = ''round:r'', ro_field_id = ''field:f'',
     ro_context = sample_context, ro_observation_sequence = n, ro_occurred_at_utc = ''2026-02-28T10:00:00.000Z'',
     ro_issued_mark = 3, ro_completion_clock_ms = None, ro_placing = None, ro_gap_ms = None,
     ro_result = r, ro_source_digest = zero_digest\<rparr>"

definition sample_packet :: evidence_packet where
  "sample_packet = \<lparr>ep_competitor_id = ''competitor:a'', ep_target_context = sample_context,
     ep_observations =
       [sample_observation 1 \<lparr>or_status = RS_DQ, raw_time_ms = None, penalty_ms = None, revision = 1, supersedes_revision = None\<rparr>,
        sample_observation 2 \<lparr>or_status = RS_COMPLETION, raw_time_ms = Some 25, penalty_ms = None, revision = 1, supersedes_revision = None\<rparr>],
     ep_taxonomy_version = ''tax:v1'', ep_conversion_version = ''conv:v1'',
     ep_historical_cutoff_key = ''history:h1'', ep_tournament_epoch_id = ''epoch:e1'',
     ep_tournament_event_sequence = 2, ep_content_digest = zero_digest\<rparr>"

theorem eligible_times_are_completions_witness:
  "eligible_raw_times_ms sample_packet = [25]"
proof -
  have "small_enough (obj (evidence_content sample_packet))" by code_simp
  then obtain b where b: "canonical_bytes (obj (evidence_content sample_packet)) = Inr b"
    using canonical_bytes_exist by blast
  let ?p = "sample_packet \<lparr>ep_content_digest := sha256_hex b\<rparr>"
  have "evidence_content ?p = evidence_content sample_packet"
    by (simp add: evidence_content_def)
  then have dig: "evidence_recompute_digest ?p = Inr (ep_content_digest ?p)"
    by (simp add: evidence_recompute_digest_def canonical_digest_def b)
  have ids: "id_in ''competitor'' ''competitor:a''" "version_ok ''tax:v1''" "version_ok ''conv:v1''"
    "id_in ''history'' ''history:h1''" "id_in ''epoch'' ''epoch:e1''" by code_simp+
  have "ep_own_ok ?p"
    unfolding ep_own_ok_def dig
    by (simp add: ids sample_packet_def sample_context_def sample_observation_def strictly_sorted_def)
  moreover have "tc_wf (ep_target_context ?p) \<and> list_all (\<lambda>ob. ro_own_ok ob \<and> tc_wf (ro_context ob)) (ep_observations ?p)"
    unfolding sample_packet_def by (simp, code_simp)
  ultimately have wf: "ep_wf ?p"
    by (simp add: ep_wf_def ro_wf_def list_all_iff)
       (simp add: sample_packet_def sample_observation_def or_wf_def)
  have "eligible_raw_times_ms ?p = eligible_raw_times_ms sample_packet"
    by (simp add: eligible_raw_times_ms_def)
  then show ?thesis using eligible_times_are_completions [OF wf]
    by (simp add: sample_packet_def sample_observation_def)
qed

end
