(* ===== verification/Commands.thy ===== *)
theory Commands
  imports Evidence
begin

section \<open>Command envelopes (contracts/commands.py)\<close>

text \<open>
  A command names its kind, its idempotency key, the aggregate it targets, the version it expects
  of every aggregate it appends to, the acting principal and a payload that is either inline
  canonical JSON or a reference to a content-addressed blob. The constructors check in the order
  of \<open>__post_init__\<close>.
\<close>

definition max_inline_payload_bytes :: int where "max_inline_payload_bytes = 65536"
definition max_blob_bytes :: int where "max_blob_bytes = 16777216"
definition command_schema_version :: string where "command_schema_version = ''strathmark-v3-command-envelope-v1''"
definition inline_payload_schema_version :: string where "inline_payload_schema_version = ''strathmark-v3-inline-payload-v1''"
definition blob_reference_schema_version :: string where "blob_reference_schema_version = ''strathmark-v3-blob-reference-v1''"
definition blob_reference_v2_schema_version :: string where "blob_reference_v2_schema_version = ''strathmark-v3-blob-reference-v2''"

subsection \<open>Inline payloads\<close>

record inline_payload =
  ip_canonical_json :: string
  ip_digest :: string

text \<open>\<open>canonical_bytes(value, max_bytes=MAX_INLINE_PAYLOAD_BYTES)\<close>.\<close>

definition inline_bytes :: "py \<Rightarrow> v3_error + bytes" where
  "inline_bytes v = canonical_bytes_bounded default_max_depth max_inline_payload_bytes default_max_items v"

definition is_mapping :: "py \<Rightarrow> bool" where
  "is_mapping v = (case v of PMap kvs \<Rightarrow> True | _ \<Rightarrow> False)"

definition mk_inline_payload :: "py \<Rightarrow> py \<Rightarrow> v3_error + inline_payload" where
  "mk_inline_payload text dig =
     (case text of PStr s \<Rightarrow>
        bind_res (of_option (ContractError ''inline payload must be bounded canonical JSON'') (json_loads s)) (\<lambda>v.
        bind_res (map_err (\<lambda>_. ContractError ''inline payload must be bounded canonical JSON'') (inline_bytes v)) (\<lambda>b.
        bind_res (guards
          [(utf8_decode b \<noteq> s, ContractError ''inline payload is not in exact canonical form''),
           (\<not> is_mapping v, ContractError ''inline payload must contain a JSON object'')]) (\<lambda>_.
        bind_res (require_digest dig ''inline payload digest'') (\<lambda>d.
        bind_res (guards [(sha256_hex b \<noteq> d, ContractError ''inline payload digest mismatch'')]) (\<lambda>_.
        Inr \<lparr>ip_canonical_json = s, ip_digest = d\<rparr>)))))
      | _ \<Rightarrow> Inl (ContractError ''inline payload must be canonical JSON text''))"

definition inline_from_value :: "py \<Rightarrow> v3_error + inline_payload" where
  "inline_from_value v =
     (if \<not> is_mapping v then Inl (ContractError ''inline payload must be created from a mapping'')
      else bind_res (map_err (\<lambda>_. ContractError ''inline payload exceeds maximum or is not canonical'') (inline_bytes v)) (\<lambda>b.
        mk_inline_payload (PStr (utf8_decode b)) (PStr (sha256_hex b))))"

text \<open>\<open>to_value\<close>: the constructor has checked that the text loads.\<close>

definition inline_to_value :: "inline_payload \<Rightarrow> py" where
  "inline_to_value p = (case json_loads (ip_canonical_json p) of Some v \<Rightarrow> v | None \<Rightarrow> PNone)"

definition inline_payload_to_dict :: "inline_payload \<Rightarrow> py" where
  "inline_payload_to_dict p = obj
     [(''schema_version'', PStr inline_payload_schema_version),
      (''canonical_json'', PStr (ip_canonical_json p)),
      (''digest'', PStr (ip_digest p))]"

definition inline_payload_from_dict :: "py \<Rightarrow> v3_error + inline_payload" where
  "inline_payload_from_dict v =
     bind_res (require_fields v [''schema_version'', ''canonical_json'', ''digest'']) (\<lambda>_.
     bind_res (require_schema (fld v ''schema_version'') inline_payload_schema_version) (\<lambda>_.
     mk_inline_payload (fld v ''canonical_json'') (fld v ''digest'')))"

definition inline_wf :: "inline_payload \<Rightarrow> bool" where
  "inline_wf p \<longleftrightarrow> (case json_loads (ip_canonical_json p) of None \<Rightarrow> False
     | Some v \<Rightarrow> is_mapping v \<and> inline_bytes v = Inr (utf8 (ip_canonical_json p))
         \<and> ip_digest p = sha256_hex (utf8 (ip_canonical_json p)))"

lemma inline_bytes_text: "inline_bytes v = Inr b \<Longrightarrow> utf8 (utf8_decode b) = b"
  by (auto simp: inline_bytes_def canonical_bytes_bounded_def bind_res_Inr Let_def split: prod.splits if_splits)

lemma mk_inline_payload_iff:
  "mk_inline_payload text dig = Inr p \<longleftrightarrow>
     text = PStr (ip_canonical_json p) \<and> dig = PStr (ip_digest p) \<and> inline_wf p"
proof
  assume "mk_inline_payload text dig = Inr p"
  then show "text = PStr (ip_canonical_json p) \<and> dig = PStr (ip_digest p) \<and> inline_wf p"
    by (auto simp: mk_inline_payload_def bind_res_Inr of_option_Inr map_err_Inr guards_Inr require_digest_Inr
        inline_wf_def inline_bytes_text simp del: guards.simps split: py.splits)
next
  assume h: "text = PStr (ip_canonical_json p) \<and> dig = PStr (ip_digest p) \<and> inline_wf p"
  then obtain v where "json_loads (ip_canonical_json p) = Some v" "is_mapping v"
    "inline_bytes v = Inr (utf8 (ip_canonical_json p))" "ip_digest p = sha256_hex (utf8 (ip_canonical_json p))"
    by (auto simp: inline_wf_def split: option.splits)
  then show "mk_inline_payload text dig = Inr p"
    using h by (cases p) (simp add: mk_inline_payload_def require_digest_def sha.digest_form)
qed

subsection \<open>Blob references\<close>

record blob_reference =
  br_blob_id :: string
  br_digest :: string
  br_byte_count :: int
  br_media_type :: string

definition media_type_ok :: "string \<Rightarrow> bool" where
  "media_type_ok s \<longleftrightarrow> s = ''application/json'' \<or> s = ''application/octet-stream''"

text \<open>The size and media-type checks both blob contracts share.\<close>

definition check_blob_count :: "py \<Rightarrow> v3_error + int" where
  "check_blob_count v =
     (case v of PInt n \<Rightarrow>
        if n \<le> max_inline_payload_bytes then Inl (ContractError ''blob byte_count must be above the inline boundary'')
        else if max_blob_bytes < n then Inl (ContractError ''blob byte_count exceeds the maximum'')
        else Inr n
      | _ \<Rightarrow> Inl (ContractError ''blob byte_count must be above the inline boundary''))"

definition check_media_type :: "py \<Rightarrow> v3_error + string" where
  "check_media_type v =
     (case v of PStr s \<Rightarrow> if media_type_ok s then Inr s else Inl (ContractError ''unsupported blob media_type'')
      | _ \<Rightarrow> Inl (ContractError ''unsupported blob media_type''))"

lemma check_blob_Inr:
  "check_blob_count v = Inr n \<longleftrightarrow> v = PInt n \<and> max_inline_payload_bytes < n \<and> n \<le> max_blob_bytes"
  "check_media_type v = Inr s \<longleftrightarrow> v = PStr s \<and> media_type_ok s"
  by (auto simp: check_blob_count_def check_media_type_def split: py.splits if_splits)

definition mk_blob_reference :: "string \<Rightarrow> py \<Rightarrow> py \<Rightarrow> py \<Rightarrow> v3_error + blob_reference" where
  "mk_blob_reference bid dig cnt media =
     bind_res (require_id (PStr bid) ''blob'') (\<lambda>_.
     bind_res (require_digest dig ''blob digest'') (\<lambda>d.
     bind_res (check_blob_count cnt) (\<lambda>n.
     bind_res (check_media_type media) (\<lambda>m.
     Inr \<lparr>br_blob_id = bid, br_digest = d, br_byte_count = n, br_media_type = m\<rparr>))))"

definition blob_reference_to_dict :: "blob_reference \<Rightarrow> py" where
  "blob_reference_to_dict r = obj
     [(''schema_version'', PStr blob_reference_schema_version),
      (''blob_id'', PStr (br_blob_id r)),
      (''digest'', PStr (br_digest r)),
      (''byte_count'', PInt (br_byte_count r)),
      (''media_type'', PStr (br_media_type r))]"

definition blob_reference_from_dict :: "py \<Rightarrow> v3_error + blob_reference" where
  "blob_reference_from_dict v =
     bind_res (require_fields v [''schema_version'', ''blob_id'', ''digest'', ''byte_count'', ''media_type'']) (\<lambda>_.
     bind_res (require_schema (fld v ''schema_version'') blob_reference_schema_version) (\<lambda>_.
     bind_res (require_identifier (fld v ''blob_id'') (Some ''blob'')) (\<lambda>bid.
     mk_blob_reference bid (fld v ''digest'') (fld v ''byte_count'') (fld v ''media_type''))))"

definition blob_wf :: "blob_reference \<Rightarrow> bool" where
  "blob_wf r \<longleftrightarrow> id_in ''blob'' (br_blob_id r) \<and> is_digest (br_digest r)
     \<and> max_inline_payload_bytes < br_byte_count r \<and> br_byte_count r \<le> max_blob_bytes \<and> media_type_ok (br_media_type r)"

lemma mk_blob_reference_iff:
  "mk_blob_reference bid dig cnt media = Inr r \<longleftrightarrow>
     bid = br_blob_id r \<and> dig = PStr (br_digest r) \<and> cnt = PInt (br_byte_count r) \<and> media = PStr (br_media_type r)
     \<and> blob_wf r"
  by (cases r) (auto simp: mk_blob_reference_def blob_wf_def bind_res_Inr require_id_Inr require_digest_Inr check_blob_Inr)

subsubsection \<open>Complete content identity\<close>

datatype (plugins only: code size) blob_retention_class =
    BR_REQUIRED
  | BR_OPEN_TOURNAMENT
  | BR_ISSUED_RECEIPT
  | BR_UNDELIVERED_OUTBOX
  | BR_ARCHIVABLE

primrec blob_retention_class_value :: "blob_retention_class \<Rightarrow> string" where
  "blob_retention_class_value BR_REQUIRED = ''required''"
| "blob_retention_class_value BR_OPEN_TOURNAMENT = ''open_tournament''"
| "blob_retention_class_value BR_ISSUED_RECEIPT = ''issued_receipt''"
| "blob_retention_class_value BR_UNDELIVERED_OUTBOX = ''undelivered_outbox''"
| "blob_retention_class_value BR_ARCHIVABLE = ''archivable''"

definition blob_retention_classs :: "blob_retention_class list" where
  "blob_retention_classs = [BR_REQUIRED, BR_OPEN_TOURNAMENT, BR_ISSUED_RECEIPT, BR_UNDELIVERED_OUTBOX, BR_ARCHIVABLE]"

lemma blob_retention_classs_complete [vocabulary]: "x \<in> set blob_retention_classs"
  by (cases x) (simp_all add: blob_retention_classs_def)

lemma blob_retention_class_values_distinct [vocabulary]: "distinct (map blob_retention_class_value blob_retention_classs)"
  by code_simp

definition parse_blob_retention_class :: "string \<Rightarrow> blob_retention_class option" where
  "parse_blob_retention_class = parse_member blob_retention_classs blob_retention_class_value"

lemma parse_blob_retention_class_value [simp]: "parse_blob_retention_class (blob_retention_class_value x) = Some x"
  by (simp add: parse_blob_retention_class_def parse_member_value vocabulary)

lemma blob_retention_class_value_inj [simp]: "blob_retention_class_value x = blob_retention_class_value y \<longleftrightarrow> x = y"
  by (metis option.inject parse_blob_retention_class_value)


record blob_reference_v2 =
  b2_blob_id :: string
  b2_digest :: string
  b2_byte_count :: int
  b2_media_type :: string
  b2_payload_schema_version :: string
  b2_retention_class :: blob_retention_class

text \<open>\<open>^strathmark-v3-[a-z0-9][a-z0-9-]{0,94}-v[1-9][0-9]*$\<close>: some place splits the rest into the
  name and the version suffix.\<close>

definition schema_name_rest :: "char \<Rightarrow> bool" where
  "schema_name_rest c \<longleftrightarrow> is_lower c \<or> is_digit c \<or> c = CHR ''-''"

definition version_suffix :: "string \<Rightarrow> bool" where
  "version_suffix s \<longleftrightarrow> starts_with ''-v'' s
     \<and> (case drop 2 s of [] \<Rightarrow> False | c # cs \<Rightarrow> is_digit c \<and> c \<noteq> CHR ''0'' \<and> list_all is_digit cs)"

definition payload_schema_ok :: "string \<Rightarrow> bool" where
  "payload_schema_ok s \<longleftrightarrow> starts_with ''strathmark-v3-'' s
     \<and> (let r = drop 14 s in list_ex (\<lambda>i. head_tail_pattern (\<lambda>c. is_lower c \<or> is_digit c) schema_name_rest 94 (take i r)
          \<and> version_suffix (drop i r)) [0..<length r])"

definition check_payload_schema :: "py \<Rightarrow> v3_error + string" where
  "check_payload_schema v =
     (case v of PStr s \<Rightarrow> if payload_schema_ok s then Inr s else Inl (ContractError ''invalid blob payload_schema_version'')
      | _ \<Rightarrow> Inl (ContractError ''invalid blob payload_schema_version''))"

definition blob_content_identity :: "string \<Rightarrow> v3_error + string" where
  "blob_content_identity d = deterministic_identifier ''blob'' (obj [(''digest'', PStr d)])"

definition mk_blob_reference_v2 ::
    "string \<Rightarrow> py \<Rightarrow> py \<Rightarrow> py \<Rightarrow> py \<Rightarrow> blob_retention_class \<Rightarrow> v3_error + blob_reference_v2" where
  "mk_blob_reference_v2 bid dig cnt media sch ret =
     bind_res (require_id (PStr bid) ''blob'') (\<lambda>_.
     bind_res (require_digest dig ''blob digest'') (\<lambda>d.
     bind_res (blob_content_identity d) (\<lambda>expected.
     bind_res (guards [(bid \<noteq> expected, ContractError ''blob_id must be the content identity derived from digest'')]) (\<lambda>_.
     bind_res (check_blob_count cnt) (\<lambda>n.
     bind_res (check_media_type media) (\<lambda>m.
     bind_res (check_payload_schema sch) (\<lambda>s.
     Inr \<lparr>b2_blob_id = bid, b2_digest = d, b2_byte_count = n, b2_media_type = m,
          b2_payload_schema_version = s, b2_retention_class = ret\<rparr>)))))))"

definition blob_reference_v2_to_dict :: "blob_reference_v2 \<Rightarrow> py" where
  "blob_reference_v2_to_dict r = obj
     [(''schema_version'', PStr blob_reference_v2_schema_version),
      (''blob_id'', PStr (b2_blob_id r)),
      (''digest'', PStr (b2_digest r)),
      (''byte_count'', PInt (b2_byte_count r)),
      (''media_type'', PStr (b2_media_type r)),
      (''payload_schema_version'', PStr (b2_payload_schema_version r)),
      (''retention_class'', PStr (blob_retention_class_value (b2_retention_class r)))]"

definition parse_with :: "(string \<Rightarrow> 'a option) \<Rightarrow> v3_error \<Rightarrow> py \<Rightarrow> v3_error + 'a" where
  "parse_with f e v = (case v of PStr s \<Rightarrow> of_option e (f s) | _ \<Rightarrow> Inl e)"

definition blob_reference_v2_from_dict :: "py \<Rightarrow> v3_error + blob_reference_v2" where
  "blob_reference_v2_from_dict v =
     bind_res (require_fields v [''schema_version'', ''blob_id'', ''digest'', ''byte_count'', ''media_type'',
       ''payload_schema_version'', ''retention_class'']) (\<lambda>_.
     bind_res (require_schema (fld v ''schema_version'') blob_reference_v2_schema_version) (\<lambda>_.
     bind_res (parse_with parse_blob_retention_class (ContractError ''unknown blob retention_class'')
       (fld v ''retention_class'')) (\<lambda>ret.
     bind_res (require_identifier (fld v ''blob_id'') (Some ''blob'')) (\<lambda>bid.
     mk_blob_reference_v2 bid (fld v ''digest'') (fld v ''byte_count'') (fld v ''media_type'')
       (fld v ''payload_schema_version'') ret))))"

definition blob_v2_wf :: "blob_reference_v2 \<Rightarrow> bool" where
  "blob_v2_wf r \<longleftrightarrow> id_in ''blob'' (b2_blob_id r) \<and> is_digest (b2_digest r)
     \<and> blob_content_identity (b2_digest r) = Inr (b2_blob_id r)
     \<and> max_inline_payload_bytes < b2_byte_count r \<and> b2_byte_count r \<le> max_blob_bytes
     \<and> media_type_ok (b2_media_type r) \<and> payload_schema_ok (b2_payload_schema_version r)"

lemma check_payload_schema_Inr: "check_payload_schema v = Inr s \<longleftrightarrow> v = PStr s \<and> payload_schema_ok s"
  by (auto simp: check_payload_schema_def split: py.splits if_splits)

lemma parse_with_Inr: "parse_with f e v = Inr x \<longleftrightarrow> (\<exists>s. v = PStr s \<and> f s = Some x)"
  by (auto simp: parse_with_def of_option_Inr split: py.splits)

lemma parse_with_str [simp]: "f s = Some x \<Longrightarrow> parse_with f e (PStr s) = Inr x"
  by (simp add: parse_with_def)

lemma mk_blob_reference_v2_iff:
  "mk_blob_reference_v2 bid dig cnt media sch ret = Inr r \<longleftrightarrow>
     bid = b2_blob_id r \<and> dig = PStr (b2_digest r) \<and> cnt = PInt (b2_byte_count r) \<and> media = PStr (b2_media_type r)
     \<and> sch = PStr (b2_payload_schema_version r) \<and> ret = b2_retention_class r \<and> blob_v2_wf r"
  by (cases r)
     (auto simp: mk_blob_reference_v2_def blob_v2_wf_def bind_res_Inr require_id_Inr require_digest_Inr
        check_blob_Inr check_payload_schema_Inr guards_Inr simp del: guards.simps)

subsection \<open>Payloads\<close>

datatype payload = Inline inline_payload | Blob blob_reference | BlobV2 blob_reference_v2

fun payload_digest :: "payload \<Rightarrow> string" where
  "payload_digest (Inline p) = ip_digest p"
| "payload_digest (Blob r) = br_digest r"
| "payload_digest (BlobV2 r) = b2_digest r"

fun payload_to_dict :: "payload \<Rightarrow> py" where
  "payload_to_dict (Inline p) = inline_payload_to_dict p"
| "payload_to_dict (Blob r) = blob_reference_to_dict r"
| "payload_to_dict (BlobV2 r) = blob_reference_v2_to_dict r"

fun payload_type :: "payload \<Rightarrow> string" where
  "payload_type (Inline p) = ''inline''"
| "payload_type (Blob r) = ''blob''"
| "payload_type (BlobV2 r) = ''blob''"

definition payload_from_dict :: "py \<Rightarrow> py \<Rightarrow> v3_error + payload" where
  "payload_from_dict ty v =
     (if ty = PStr ''inline'' then map_res Inline (inline_payload_from_dict v)
      else if ty = PStr ''blob'' then
        (if \<not> is_mapping v then Inl (ContractError ''blob payload must be an object'')
         else if fld v ''schema_version'' = PStr blob_reference_v2_schema_version
         then map_res BlobV2 (blob_reference_v2_from_dict v)
         else map_res Blob (blob_reference_from_dict v))
      else Inl (ContractError ''unknown payload type''))"

fun payload_wf :: "payload \<Rightarrow> bool" where
  "payload_wf (Inline p) = inline_wf p"
| "payload_wf (Blob r) = blob_wf r"
| "payload_wf (BlobV2 r) = blob_v2_wf r"

lemma payload_plain [simp]: "plain_ok (payload_to_dict p)"
  by (cases p) (simp_all add: inline_payload_to_dict_def blob_reference_to_dict_def blob_reference_v2_to_dict_def)

lemma is_mapping_obj [simp]: "is_mapping (obj kvs)"
  by (simp add: is_mapping_def obj_def)

lemma is_mapping_rl_obj [simp]: "plain_ok (obj kvs) \<Longrightarrow> is_mapping (rl (obj kvs))"
  by (simp add: rl_obj)

lemma schema_versions_differ [simp]: "blob_reference_schema_version \<noteq> blob_reference_v2_schema_version"
  by (simp add: blob_reference_schema_version_def blob_reference_v2_schema_version_def)

lemma inline_payload_from_to:
  assumes "inline_wf p"
  shows "inline_payload_from_dict (inline_payload_to_dict p) = Inr p"
    "inline_payload_from_dict (rl (inline_payload_to_dict p)) = Inr p"
  using assms
  by (simp_all add: inline_payload_from_dict_def inline_payload_to_dict_def require_fields_def require_schema_def
      rl_fld mk_inline_payload_iff insert_commute)

lemma blob_reference_from_to:
  assumes "blob_wf r"
  shows "blob_reference_from_dict (blob_reference_to_dict r) = Inr r"
    "blob_reference_from_dict (rl (blob_reference_to_dict r)) = Inr r"
proof -
  have "id_in ''blob'' (br_blob_id r)" using assms by (simp add: blob_wf_def)
  then show "blob_reference_from_dict (blob_reference_to_dict r) = Inr r"
    "blob_reference_from_dict (rl (blob_reference_to_dict r)) = Inr r"
    using assms
    by (simp_all add: blob_reference_from_dict_def blob_reference_to_dict_def require_fields_def require_schema_def
      rl_fld mk_blob_reference_iff id_in_require insert_commute)
qed

lemma blob_reference_v2_from_to:
  assumes "blob_v2_wf r"
  shows "blob_reference_v2_from_dict (blob_reference_v2_to_dict r) = Inr r"
    "blob_reference_v2_from_dict (rl (blob_reference_v2_to_dict r)) = Inr r"
proof -
  have "id_in ''blob'' (b2_blob_id r)" using assms by (simp add: blob_v2_wf_def)
  then show "blob_reference_v2_from_dict (blob_reference_v2_to_dict r) = Inr r"
    "blob_reference_v2_from_dict (rl (blob_reference_v2_to_dict r)) = Inr r"
    using assms
    by (simp_all add: blob_reference_v2_from_dict_def blob_reference_v2_to_dict_def require_fields_def require_schema_def
      rl_fld mk_blob_reference_v2_iff id_in_require parse_with_def insert_commute)
qed

lemma payload_from_to:
  assumes "payload_wf p"
  shows "payload_from_dict (PStr (payload_type p)) (payload_to_dict p) = Inr p"
    "payload_from_dict (PStr (payload_type p)) (rl (payload_to_dict p)) = Inr p"
proof -
  have b: "is_mapping (blob_reference_to_dict r)" "is_mapping (rl (blob_reference_to_dict r))"
    "fld (blob_reference_to_dict r) ''schema_version'' = PStr blob_reference_schema_version"
    "fld (rl (blob_reference_to_dict r)) ''schema_version'' = PStr blob_reference_schema_version" for r
    by (simp_all add: blob_reference_to_dict_def rl_fld)
  have b2: "is_mapping (blob_reference_v2_to_dict r)" "is_mapping (rl (blob_reference_v2_to_dict r))"
    "fld (blob_reference_v2_to_dict r) ''schema_version'' = PStr blob_reference_v2_schema_version"
    "fld (rl (blob_reference_v2_to_dict r)) ''schema_version'' = PStr blob_reference_v2_schema_version" for r
    by (simp_all add: blob_reference_v2_to_dict_def rl_fld)
  show "payload_from_dict (PStr (payload_type p)) (payload_to_dict p) = Inr p"
    "payload_from_dict (PStr (payload_type p)) (rl (payload_to_dict p)) = Inr p"
    using assms
    by (cases p; simp add: payload_from_dict_def b b2 inline_payload_from_to blob_reference_from_to blob_reference_v2_from_to)+
qed

lemma payload_from_dict_wf:
  assumes "payload_from_dict ty v = Inr p"
  shows "payload_wf p \<and> ty = PStr (payload_type p)"
  using assms
  by (auto simp: payload_from_dict_def map_res_Inr inline_payload_from_dict_def blob_reference_from_dict_def
      blob_reference_v2_from_dict_def bind_res_Inr mk_inline_payload_iff mk_blob_reference_iff mk_blob_reference_v2_iff
      split: if_splits)

subsection \<open>Command envelopes\<close>

record command_envelope =
  ce_kind :: command_kind
  ce_command_id :: string
  ce_target_aggregate :: string
  ce_expected_versions :: "(string \<times> int) list"
  ce_actor_id :: string
  ce_payload :: payload

text \<open>The loop over \<open>expected_versions\<close>: identity, no repetition, non-negative version.\<close>

fun check_versions :: "string list \<Rightarrow> (py \<times> py) list \<Rightarrow> v3_error + (string \<times> int) list" where
  "check_versions seen [] = Inr []"
| "check_versions seen ((k, v) # kvs) =
     bind_res (require_identifier k None) (\<lambda>i.
     bind_res (guards [(i \<in> set seen, ContractError ''expected_versions cannot repeat an aggregate'')]) (\<lambda>_.
     case v of PInt n \<Rightarrow>
       if n < 0 then Inl (ContractError ''expected aggregate versions must be non-negative integers'')
       else map_res (Cons (i, n)) (check_versions (seen @ [i]) kvs)
     | _ \<Rightarrow> Inl (ContractError ''expected aggregate versions must be non-negative integers'')))"

text \<open>\<open>CommandEnvelope.__post_init__\<close>; the identities of the pairs are distinct when they are compared
  with their sorted order, so sorting the pairs is sorting by identity.\<close>

definition mk_command_envelope ::
    "command_kind \<Rightarrow> string \<Rightarrow> string \<Rightarrow> (py \<times> py) list \<Rightarrow> string \<Rightarrow> payload \<Rightarrow> v3_error + command_envelope" where
  "mk_command_envelope kind cid target versions actor pl =
     bind_res (require_id (PStr actor) ''actor'') (\<lambda>_.
     bind_res (check_versions [] versions) (\<lambda>vs.
     bind_res (guards
       [(\<not> sorted (map fst vs), ContractError ''expected_versions must be sorted by aggregate identity''),
        (target \<notin> set (map fst vs), ContractError ''expected_versions must include the target aggregate'')]) (\<lambda>_.
     Inr \<lparr>ce_kind = kind, ce_command_id = cid, ce_target_aggregate = target, ce_expected_versions = vs,
          ce_actor_id = actor, ce_payload = pl\<rparr>)))"

definition version_pair :: "string \<times> int \<Rightarrow> py" where
  "version_pair kv = (case kv of (k, n) \<Rightarrow> PSeq [PStr k, PInt n])"

definition command_envelope_to_dict :: "command_envelope \<Rightarrow> py" where
  "command_envelope_to_dict c = obj
     [(''schema_version'', PStr command_schema_version),
      (''kind'', PStr (command_kind_value (ce_kind c))),
      (''command_id'', PStr (ce_command_id c)),
      (''target_aggregate'', PStr (ce_target_aggregate c)),
      (''expected_versions'', PSeq (map version_pair (ce_expected_versions c))),
      (''actor_id'', PStr (ce_actor_id c)),
      (''payload_type'', PStr (payload_type (ce_payload c))),
      (''payload'', payload_to_dict (ce_payload c))]"

definition pair_of :: "py \<Rightarrow> v3_error + (py \<times> py)" where
  "pair_of v = (case v of PSeq [a, b] \<Rightarrow> Inr (a, b)
     | _ \<Rightarrow> Inl (ContractError ''expected_versions entries must be JSON pairs''))"

definition command_envelope_from_dict :: "py \<Rightarrow> v3_error + command_envelope" where
  "command_envelope_from_dict v =
     bind_res (require_fields v [''schema_version'', ''kind'', ''command_id'', ''target_aggregate'',
       ''expected_versions'', ''actor_id'', ''payload_type'', ''payload'']) (\<lambda>_.
     bind_res (require_schema (fld v ''schema_version'') command_schema_version) (\<lambda>_.
     bind_res (parse_with parse_command_kind (ContractError ''unknown command kind'') (fld v ''kind'')) (\<lambda>kind.
     case fld v ''expected_versions'' of
       PSeq xs \<Rightarrow>
         bind_res (map_all pair_of xs) (\<lambda>pairs.
         bind_res (payload_from_dict (fld v ''payload_type'') (fld v ''payload'')) (\<lambda>pl.
         bind_res (validate_identifier (fld v ''command_id'')) (\<lambda>cid.
         bind_res (require_identifier (fld v ''target_aggregate'') None) (\<lambda>target.
         bind_res (require_identifier (fld v ''actor_id'') (Some ''actor'')) (\<lambda>actor.
         mk_command_envelope kind cid target pairs actor pl)))))
     | _ \<Rightarrow> Inl (ContractError ''expected_versions must be a JSON array''))))"

definition ce_own_ok :: "command_envelope \<Rightarrow> bool" where
  "ce_own_ok c \<longleftrightarrow> id_in ''actor'' (ce_actor_id c)
     \<and> (\<forall>(k, n) \<in> set (ce_expected_versions c). identifier_ok k \<and> 0 \<le> n)
     \<and> distinct (map fst (ce_expected_versions c)) \<and> sorted (map fst (ce_expected_versions c))
     \<and> ce_target_aggregate c \<in> set (map fst (ce_expected_versions c))"

definition ce_wf :: "command_envelope \<Rightarrow> bool" where
  "ce_wf c \<longleftrightarrow> ce_own_ok c \<and> identifier_ok (ce_command_id c) \<and> payload_wf (ce_payload c)"

lemma check_versions_Inr:
  "check_versions seen kvs = Inr vs \<longleftrightarrow>
     kvs = map (\<lambda>(k, n). (PStr k, PInt n)) vs \<and> (\<forall>(k, n) \<in> set vs. identifier_ok k \<and> 0 \<le> n \<and> k \<notin> set seen)
       \<and> distinct (map fst vs)"
proof (induction kvs arbitrary: seen vs)
  case Nil
  then show ?case by auto
next
  case (Cons kv kvs)
  obtain k v where kv: "kv = (k, v)" by (cases kv)
  show ?case
  proof (cases vs)
    case Nil
    then show ?thesis by (cases v) (auto simp: kv bind_res_Inr map_res_Inr)
  next
    case (Cons p ps)
    obtain i n where p: "p = (i, n)" by (cases p)
    have step: "check_versions seen (kv # kvs) = Inr vs \<longleftrightarrow>
        k = PStr i \<and> v = PInt n \<and> identifier_ok i \<and> i \<notin> set seen \<and> 0 \<le> n \<and> check_versions (seen @ [i]) kvs = Inr ps"
      by (cases v) (auto simp: kv Cons p bind_res_Inr map_res_Inr require_identifier_Inr guards_Inr simp del: guards.simps)
    show ?thesis unfolding step Cons.IH by (force simp: kv Cons p)
  qed
qed

lemma mk_command_envelope_iff:
  "mk_command_envelope kind cid target versions actor pl = Inr c \<longleftrightarrow>
     kind = ce_kind c \<and> cid = ce_command_id c \<and> target = ce_target_aggregate c
     \<and> versions = map (\<lambda>(k, n). (PStr k, PInt n)) (ce_expected_versions c) \<and> actor = ce_actor_id c \<and> pl = ce_payload c
     \<and> ce_own_ok c"
  by (cases c)
     (auto simp: mk_command_envelope_def ce_own_ok_def bind_res_Inr require_id_Inr check_versions_Inr guards_Inr
       simp del: guards.simps)

lemma version_pair_plain [simp]: "plain_ok (version_pair kv)" "rl (version_pair kv) = version_pair kv"
  by (cases kv; simp add: version_pair_def)+

lemma pairs_of_versions:
  "map_all pair_of (map version_pair vs) = Inr (map (\<lambda>(k, n). (PStr k, PInt n)) vs)"
  by (induction vs) (auto simp: pair_of_def version_pair_def)

lemma command_envelope_plain [simp]: "plain_ok (command_envelope_to_dict c)"
  by (simp add: command_envelope_to_dict_def)

lemma rl_version_pairs: "rl \<circ> version_pair = version_pair"
  by (simp add: fun_eq_iff)

lemma command_envelope_from_to:
  assumes "ce_wf c"
  shows "command_envelope_from_dict (command_envelope_to_dict c) = Inr c"
    "command_envelope_from_dict (rl (command_envelope_to_dict c)) = Inr c"
proof -
  have wf: "ce_own_ok c" "identifier_ok (ce_command_id c)" "payload_wf (ce_payload c)"
    using assms by (simp_all add: ce_wf_def)
  have actor: "id_in ''actor'' (ce_actor_id c)" and target: "identifier_ok (ce_target_aggregate c)"
    using wf(1) by (auto simp: ce_own_ok_def)
  have ids: "validate_identifier (PStr (ce_command_id c)) = Inr (ce_command_id c)"
    "require_identifier (PStr (ce_target_aggregate c)) None = Inr (ce_target_aggregate c)"
    using wf(2) target by (simp_all add: validate_identifier_Inr require_identifier_Inr)
  show "command_envelope_from_dict (command_envelope_to_dict c) = Inr c"
    "command_envelope_from_dict (rl (command_envelope_to_dict c)) = Inr c"
    using wf(1)
    by (simp_all add: command_envelope_from_dict_def command_envelope_to_dict_def require_fields_def require_schema_def
        rl_fld rl_version_pairs pairs_of_versions payload_from_to [OF wf(3)] ids id_in_require [OF actor]
        mk_command_envelope_iff parse_with_def insert_commute)
qed

lemma command_envelope_from_dict_wf:
  assumes "command_envelope_from_dict v = Inr c"
  shows "ce_wf c"
  using assms
  by (cases "fld v ''expected_versions''") (auto simp: command_envelope_from_dict_def bind_res_Inr mk_command_envelope_iff ce_wf_def
      validate_identifier_Inr dest!: payload_from_dict_wf)

text \<open>The dictionary form of a command is faithful: exactly the commands that satisfy the contract
  (payload digest, sorted expected versions that include the target, acting principal) are
  returned unchanged by \<open>from_dict(to_dict(c))\<close>, whichever payload they carry.\<close>

theorem command_envelope_roundtrip:
  "command_envelope_from_dict (command_envelope_to_dict c) = Inr c \<longleftrightarrow> ce_wf c"
  using command_envelope_from_to(1) command_envelope_from_dict_wf by blast

end
