(* ===== verification/Requests.thy ===== *)
theory Requests
  imports Commands
begin

section \<open>Command requests (application/commands.py)\<close>

text \<open>
  The bounded work handed to the event store: one command, the events it appends (at most one per
  aggregate, exactly the aggregates whose versions it expects) and the result to store. The kind
  of the command decides which aggregate and event kinds may appear
  (\<open>validate_command_event_intents\<close>).
\<close>

subsection \<open>Command kinds and the events they append\<close>

text \<open>\<open>_COMMAND_EVENT\<close>; \<open>None\<close> is a kind the table does not list.\<close>

primrec command_event :: "command_kind \<Rightarrow> (aggregate_kind \<times> event_kind) option" where
  "command_event CK_REVISE_TOURNAMENT_SNAPSHOT = Some (AK_TOURNAMENT_INGRESS, EK_TOURNAMENT_SNAPSHOT_REVISED)"
| "command_event CK_REVISE_ROUND_SNAPSHOT = Some (AK_ROUND_INGRESS, EK_ROUND_SNAPSHOT_REVISED)"
| "command_event CK_REVISE_FIELD_ROSTER = Some (AK_FIELD_INGRESS, EK_FIELD_ROSTER_REVISED)"
| "command_event CK_RECORD_RESULT = Some (AK_RESULT, EK_RESULT_RECORDED)"
| "command_event CK_CORRECT_RESULT = Some (AK_RESULT, EK_RESULT_SUPERSEDED)"
| "command_event CK_VOID_RESULT = Some (AK_RESULT, EK_RESULT_SUPERSEDED)"
| "command_event CK_SETTLE_LIVE_RACE = Some (AK_SETTLEMENT, EK_LIVE_RACE_SETTLED)"
| "command_event CK_FREEZE_EVIDENCE_EPOCH = Some (AK_EPOCH, EK_ROUND_EPOCH_FROZEN)"
| "command_event CK_COMPLETE_DERIVATION_REACTION = Some (AK_REACTION, EK_DERIVATION_REACTION_COMPLETED)"
| "command_event CK_COMPLETE_DERIVATION_SEQUENCE = Some (AK_DERIVATION, EK_DERIVATION_SEQUENCE_COMPLETED)"
| "command_event CK_CONFIGURE_TOURNAMENT = Some (AK_TOURNAMENT, EK_TOURNAMENT_CONFIGURED)"
| "command_event CK_OPEN_TOURNAMENT = Some (AK_TOURNAMENT, EK_TOURNAMENT_OPENED)"
| "command_event CK_CLOSE_TOURNAMENT = Some (AK_TOURNAMENT, EK_TOURNAMENT_CLOSED)"
| "command_event CK_CONFIGURE_ROUND = Some (AK_ROUND, EK_ROUND_CONFIGURED)"
| "command_event CK_FREEZE_ROUND = Some (AK_ROUND, EK_ROUND_FROZEN)"
| "command_event CK_BEGIN_ROUND_CLOSING = Some (AK_ROUND, EK_ROUND_CLOSING_STARTED)"
| "command_event CK_CLOSE_ROUND = Some (AK_ROUND, EK_ROUND_CLOSED)"
| "command_event CK_OPTIMIZE_FIELD = Some (AK_FIELD, EK_FIELD_OPTIMIZED)"
| "command_event CK_SUPERSEDE_FIELD = Some (AK_FIELD, EK_FIELD_SUPERSEDED)"
| "command_event CK_REGENERATE_FIELD = Some (AK_FIELD, EK_FIELD_REGENERATED)"
| "command_event CK_RECORD_APPROVAL_DECISION = Some (AK_APPROVAL_DECISION, EK_APPROVAL_DECISION_RECORDED)"
| "command_event CK_ACKNOWLEDGE_ISSUE = Some (AK_FIELD, EK_FIELD_ISSUED)"
| "command_event CK_SETTLE_FIELD = Some (AK_FIELD, EK_FIELD_SETTLED)"
| "command_event CK_QUEUE_JOB = Some (AK_JOB, EK_JOB_QUEUED)"
| "command_event CK_LEASE_JOB = Some (AK_JOB, EK_JOB_LEASED)"
| "command_event CK_SUCCEED_JOB = Some (AK_JOB, EK_JOB_SUCCEEDED)"
| "command_event CK_INVALIDATE_JOB = Some (AK_JOB, EK_JOB_INVALID)"
| "command_event CK_RECORD_RETRYABLE_JOB_FAILURE = Some (AK_JOB, EK_JOB_RETRYABLE_FAILED)"
| "command_event CK_REQUEUE_JOB = Some (AK_JOB, EK_JOB_REQUEUED)"
| "command_event CK_MARK_JOB_STALE = Some (AK_JOB, EK_JOB_STALE)"
| "command_event CK_RECORD_PERMANENT_JOB_FAILURE = Some (AK_JOB, EK_JOB_PERMANENT_FAILED)"
| "command_event CK_CANCEL_JOB = Some (AK_JOB, EK_JOB_CANCELLED)"
| "command_event CK_CREATE_MODEL_CANDIDATE = Some (AK_BUNDLE, EK_MODEL_CANDIDATE_CREATED)"
| "command_event CK_EVALUATE_MODEL_CANDIDATE = Some (AK_BUNDLE, EK_MODEL_CANDIDATE_EVALUATED)"
| "command_event CK_PROMOTE_BUNDLE = Some (AK_BUNDLE, EK_BUNDLE_PROMOTED)"
| "command_event CK_ROLLBACK_BUNDLE = Some (AK_BUNDLE, EK_BUNDLE_ROLLED_BACK)"
| "command_event CK_RECORD_MONITORING = Some (AK_MONITORING, EK_MONITORING_RECORDED)"
| "command_event CK_BOOTSTRAP_SERVICE_CREDENTIAL = Some (AK_SERVICE_CREDENTIAL, EK_SERVICE_CREDENTIAL_BOOTSTRAPPED)"
| "command_event CK_ROTATE_SERVICE_CREDENTIAL = Some (AK_SERVICE_CREDENTIAL, EK_SERVICE_CREDENTIAL_ROTATED)"
| "command_event CK_REVOKE_SERVICE_CREDENTIAL = Some (AK_SERVICE_CREDENTIAL, EK_SERVICE_CREDENTIAL_REVOKED)"
| "command_event CK_RECOVER_SERVICE_CREDENTIAL = Some (AK_SERVICE_CREDENTIAL, EK_SERVICE_CREDENTIAL_RECOVERED)"
| "command_event CK_RECORD_CAPABILITY_UPDATE = Some (AK_COMPETITOR, EK_CAPABILITY_UPDATED)"
| "command_event CK_REBASE_CAPABILITY_STATE = Some (AK_COMPETITOR, EK_CAPABILITY_STATE_REBASED)"
| "command_event CK_CHANGE_WEIGHTS = Some (AK_WEIGHTS, EK_WEIGHTS_CHANGED)"
| "command_event CK_SUSPEND_LIVE = Some (AK_WEIGHTS, EK_LIVE_SUSPENDED)"
| "command_event CK_RESUME_LIVE = Some (AK_WEIGHTS, EK_LIVE_RESUMED)"
| "command_event CK_EMERGENCY_STOP = Some (AK_WEIGHTS, EK_EMERGENCY_STOPPED)"
| "command_event CK_SUPERSEDE_AND_SETTLE_RESULT = None"
| "command_event CK_PREPARE_FORECAST = None"
| "command_event CK_COMMIT_FORECAST = None"
| "command_event CK_RECORD_SCORE = None"
| "command_event CK_POOL_FORECASTS = None"
| "command_event CK_CLASSIFY_DISAGREEMENT = None"
| "command_event CK_APPLY_OVERRIDE = None"
| "command_event CK_ACKNOWLEDGE_BATCH_ISSUE = None"
| "command_event CK_IMPORT_HISTORY = None"

record event_intent =
  ei_aggregate_kind :: aggregate_kind
  ei_aggregate_id :: string
  ei_event_kind :: event_kind

text \<open>\<open>EventIntent.__post_init__\<close>.\<close>

definition mk_event_intent :: "aggregate_kind \<Rightarrow> string \<Rightarrow> event_kind \<Rightarrow> v3_error + event_intent" where
  "mk_event_intent k i e =
     bind_res (require_identifier (PStr i) (Some (aggregate_kind_value k))) (\<lambda>_.
     Inr \<lparr>ei_aggregate_kind = k, ei_aggregate_id = i, ei_event_kind = e\<rparr>)"

definition of_kind :: "aggregate_kind \<Rightarrow> event_intent list \<Rightarrow> event_intent list" where
  "of_kind k es = filter (\<lambda>e. ei_aggregate_kind e = k) es"

definition all_events :: "event_kind list \<Rightarrow> event_intent list \<Rightarrow> bool" where
  "all_events ks es \<longleftrightarrow> list_all (\<lambda>e. ei_event_kind e \<in> set ks) es"

text \<open>Exactly one event, of this kind and on the target.\<close>

definition one_on_target :: "event_kind \<Rightarrow> string \<Rightarrow> event_intent list \<Rightarrow> bool" where
  "one_on_target k target es = (case es of [e] \<Rightarrow> ei_event_kind e = k \<and> ei_aggregate_id e = target | _ \<Rightarrow> False)"

definition one_event :: "event_kind \<Rightarrow> event_intent list \<Rightarrow> bool" where
  "one_event k es = (case es of [e] \<Rightarrow> ei_event_kind e = k | _ \<Rightarrow> False)"

definition single_of :: "aggregate_kind \<Rightarrow> event_kind list \<Rightarrow> string \<Rightarrow> event_intent list \<Rightarrow> bool" where
  "single_of ak ks target es =
     (case es of [e] \<Rightarrow> ei_aggregate_kind e = ak \<and> ei_event_kind e \<in> set ks \<and> ei_aggregate_id e = target | _ \<Rightarrow> False)"

definition reject_unless :: "bool \<Rightarrow> string \<Rightarrow> v3_error + unit" where
  "reject_unless ok msg = guards [(\<not> ok, ContractError msg)]"

definition validate_command_event_intents :: "command_envelope \<Rightarrow> event_intent list \<Rightarrow> v3_error + unit" where
  "validate_command_event_intents c es =
     (let k = ce_kind c; target = ce_target_aggregate c; n = length es;
          results = of_kind AK_RESULT es; settlements = of_kind AK_SETTLEMENT es; fields = of_kind AK_FIELD es;
          bundles = of_kind AK_BUNDLE es in
      if k = CK_COMMIT_FORECAST then reject_unless
        (single_of AK_FORECAST [EK_COMPONENT_FORECAST_COMMITTED, EK_COMPONENT_FORECAST_REJECTED] target es)
        ''forecast commit requires one sealed forecast event''
      else if k = CK_RECORD_SCORE then reject_unless
        (single_of AK_SCORE [EK_SCORE_RECORDED, EK_SCORE_REVERSED] target es)
        ''score command requires one append-only score event''
      else if k = CK_FREEZE_EVIDENCE_EPOCH then reject_unless
        (one_on_target EK_ROUND_EPOCH_FROZEN target (of_kind AK_EPOCH es)
         \<and> one_event EK_ROUND_FROZEN (of_kind AK_ROUND es) \<and> n = 2)
        ''evidence epoch freeze requires one epoch event and its round freeze''
      else if k = CK_SETTLE_LIVE_RACE then reject_unless
        (one_on_target EK_LIVE_RACE_SETTLED target settlements \<and> one_event EK_FIELD_SETTLED fields
         \<and> all_events [EK_RESULT_RECORDED, EK_RESULT_SUPERSEDED] results
         \<and> length results + length settlements + length fields = n)
        ''live settlement requires result events, one settlement, and its field settlement''
      else if k = CK_SUPERSEDE_AND_SETTLE_RESULT then reject_unless
        (one_on_target EK_RESULT_SUPERSEDED target results \<and> one_event EK_LIVE_RACE_SETTLED settlements
         \<and> all_events [EK_FIELD_SUPERSEDED] fields
         \<and> length results + length settlements + length fields = n)
        ''atomic correction requires one result supersession and one live settlement''
      else if k = CK_REVISE_FIELD_ROSTER then
        (let ingress = of_kind AK_FIELD_INGRESS es in reject_unless
          (one_on_target EK_FIELD_ROSTER_REVISED target ingress \<and> length fields \<le> 1
           \<and> all_events [EK_FIELD_SUPERSEDED] fields \<and> length ingress + length fields = n)
          ''field roster revision requires ingress and at most one prepared-field supersession'')
      else if k = CK_ACKNOWLEDGE_BATCH_ISSUE then
        bind_res (reject_unless (identifier_namespace target = aggregate_kind_value AK_ISSUE_BATCH)
          ''batch issue must target an issue_batch aggregate'') (\<lambda>_. reject_unless
          (one_on_target EK_ISSUE_BATCH_ISSUED target (of_kind AK_ISSUE_BATCH es)
           \<and> fields \<noteq> [] \<and> all_events [EK_FIELD_ISSUED] fields)
          ''batch issue requires one batch event and one or more field issues'')
      else if k = CK_EVALUATE_MODEL_CANDIDATE then reject_unless
        (one_on_target EK_MODEL_CANDIDATE_EVALUATED target bundles
         \<and> one_event EK_AUDIT_GENERATION_CONSUMED (of_kind AK_AUDIT_GENERATION es) \<and> n = 2)
        ''candidate evaluation requires one bundle result and one consumed audit generation''
      else if k = CK_RECORD_MONITORING then
        (let monitoring = of_kind AK_MONITORING es in reject_unless
          (one_on_target EK_MONITORING_RECORDED target monitoring \<and> length bundles \<le> 1
           \<and> all_events [EK_BUNDLE_ROLLED_BACK] bundles \<and> length monitoring + length bundles = n)
          ''monitoring requires one health event and at most one future-bundle rollback'')
      else
        (case command_event k of
           None \<Rightarrow> Inl (ContractError ''command kind is not supported by the lifecycle boundary'')
         | Some (ak, ek) \<Rightarrow>
             bind_res (reject_unless (n = 1) ''lifecycle commands append exactly one aggregate event'') (\<lambda>_.
             reject_unless (single_of ak [ek] target es) ''command, target aggregate, and event kind do not match'')))"

subsection \<open>Requests\<close>

record command_request =
  cr_principal_id :: string
  cr_command :: command_envelope
  cr_events :: "event_intent list"
  cr_result_schema_version :: string
  cr_result :: py
  cr_occurred_at_utc :: string
  cr_monotonic_elapsed_ms :: int

text \<open>\<open>CommandRequest.__post_init__\<close>. The result is replaced by what its canonical bytes read back as.\<close>

definition mk_command_request ::
    "string \<Rightarrow> command_envelope \<Rightarrow> event_intent list \<Rightarrow> string \<Rightarrow> py \<Rightarrow> string \<Rightarrow> int \<Rightarrow> v3_error + command_request" where
  "mk_command_request pid c es schema result occurred elapsed =
     bind_res (require_identifier (PStr pid) (Some ''actor'')) (\<lambda>_.
     bind_res (guards
       [(ce_actor_id c \<noteq> pid, ContractError ''command actor must be the credential-derived principal''),
        (es = [], ContractError ''command request requires an immutable nonempty event tuple''),
        (\<not> distinct (map ei_aggregate_id es), ContractError ''one command can append at most one event per aggregate''),
        (sort (map ei_aggregate_id es) \<noteq> map fst (ce_expected_versions c),
         ContractError ''event aggregates must exactly match the sorted expected-version map''),
        (schema = [], ContractError ''result_schema_version must be a nonempty string''),
        (\<not> is_mapping result, ContractError ''command result must be a mapping'')]) (\<lambda>_.
     bind_res (canonical_text result) (\<lambda>t.
     bind_res (of_option (ContractError ''command result must be a mapping'') (json_loads t)) (\<lambda>frozen.
     bind_res (require_utc_milliseconds (PStr occurred)) (\<lambda>_.
     bind_res (guards [(elapsed < 0, ContractError ''monotonic_elapsed_ms must be a non-negative integer'')]) (\<lambda>_.
     bind_res (validate_command_event_intents c es) (\<lambda>_.
     Inr \<lparr>cr_principal_id = pid, cr_command = c, cr_events = es, cr_result_schema_version = schema,
          cr_result = frozen, cr_occurred_at_utc = occurred, cr_monotonic_elapsed_ms = elapsed\<rparr>)))))))"

text \<open>What a request that was constructed from well-formed parts satisfies.\<close>

definition cr_wf :: "command_request \<Rightarrow> bool" where
  "cr_wf r \<longleftrightarrow> ce_wf (cr_command r) \<and> ce_actor_id (cr_command r) = cr_principal_id r
     \<and> cr_events r \<noteq> [] \<and> distinct (map ei_aggregate_id (cr_events r))
     \<and> sort (map ei_aggregate_id (cr_events r)) = map fst (ce_expected_versions (cr_command r))
     \<and> (\<forall>e \<in> set (cr_events r). id_in (aggregate_kind_value (ei_aggregate_kind e)) (ei_aggregate_id e))
     \<and> utc_ok (cr_occurred_at_utc r) \<and> 0 \<le> cr_monotonic_elapsed_ms r
     \<and> cr_result_schema_version r \<noteq> [] \<and> is_mapping (cr_result r)
     \<and> is_ok (validate_command_event_intents (cr_command r) (cr_events r))"

lemma reloaded_mapping:
  assumes "is_mapping v" "canonical_text v = Inr t" "json_loads t = Some w"
  shows "is_mapping w"
proof -
  have w: "w = reloaded v" using canonical_text_reload [OF assms(2)] assms(3) by simp
  obtain kvs where v: "v = PMap kvs" using assms(1) by (auto simp: is_mapping_def split: py.splits)
  obtain j n where j: "normalize default_max_depth default_max_items 0 0 (PMap kvs) = Inr (j, n)"
    using assms(2) v by (auto simp: canonical_text_Inr)
  then obtain js where "j = JObj js" by (auto simp: normalize.simps map_res_Inr case_prod_unfold split: if_splits)
  then show ?thesis using j by (simp add: w v reloaded_def content_def is_mapping_def)
qed

lemma mk_command_request_wf:
  assumes "mk_command_request pid c es schema result occurred elapsed = Inr r" "ce_wf c"
    "\<forall>e \<in> set es. id_in (aggregate_kind_value (ei_aggregate_kind e)) (ei_aggregate_id e)"
  shows "cr_wf r"
  using assms
  by (auto simp: mk_command_request_def bind_res_Inr guards_Inr cr_wf_def require_utc_Inr of_option_Inr
      simp del: guards.simps dest: reloaded_mapping)

lemma reject_unless_ok [simp]: "is_ok (reject_unless b m) \<longleftrightarrow> b"
  by (simp add: reject_unless_def)

lemma is_ok_bind: "is_ok (bind_res m f) \<longleftrightarrow> (\<exists>x. m = Inr x \<and> is_ok (f x))"
  by (cases m) auto

lemma reject_unless_Inr: "reject_unless b m = Inr u \<longleftrightarrow> b"
  by (simp add: reject_unless_def)

text \<open>The order in which the events are listed does not matter to the validation.\<close>

lemma of_kind_mset: "mset xs = mset ys \<Longrightarrow> mset (of_kind k xs) = mset (of_kind k ys)"
  by (simp add: of_kind_def mset_filter)

lemma all_events_mset: "mset xs = mset ys \<Longrightarrow> all_events ks xs = all_events ks ys"
  unfolding all_events_def list_all_iff by (drule mset_eq_setD) simp

lemma case_single_mset:
  assumes "mset xs = mset ys"
  shows "(case xs of [e] \<Rightarrow> P e | _ \<Rightarrow> False) = (case ys of [e] \<Rightarrow> P e | _ \<Rightarrow> False)"
proof -
  have "length xs = length ys" using assms by (rule mset_eq_length)
  then show ?thesis using assms by (cases xs; cases ys; cases "tl xs"; cases "tl ys") auto
qed

lemma one_on_target_mset: "mset xs = mset ys \<Longrightarrow> one_on_target k t xs = one_on_target k t ys"
  unfolding one_on_target_def by (rule case_single_mset)

lemma one_event_mset: "mset xs = mset ys \<Longrightarrow> one_event k xs = one_event k ys"
  unfolding one_event_def by (rule case_single_mset)

lemma single_of_mset: "mset xs = mset ys \<Longrightarrow> single_of ak ks t xs = single_of ak ks t ys"
  unfolding single_of_def by (rule case_single_mset)

lemma of_kind_length: "mset xs = mset ys \<Longrightarrow> length (of_kind k xs) = length (of_kind k ys)"
  using of_kind_mset mset_eq_length by blast

lemma of_kind_empty: "mset xs = mset ys \<Longrightarrow> of_kind k xs = [] \<longleftrightarrow> of_kind k ys = []"
  using of_kind_length [of xs ys k] by auto

lemma validate_intents_mset:
  assumes "mset xs = mset ys"
  shows "validate_command_event_intents c xs = validate_command_event_intents c ys"
proof -
  note k = of_kind_mset [OF assms]
  have n: "length xs = length ys" using assms by (rule mset_eq_length)
  show ?thesis
    unfolding validate_command_event_intents_def Let_def n of_kind_length [OF assms] of_kind_empty [OF assms]
      single_of_mset [OF assms] one_on_target_mset [OF k] one_event_mset [OF k] all_events_mset [OF k] ..
qed

subsection \<open>What a command may append\<close>

text \<open>The aggregate kinds a command kind is allowed to touch, as its validation enforces them.\<close>

definition touched_kinds :: "command_kind \<Rightarrow> aggregate_kind list" where
  "touched_kinds k =
     (if k = CK_COMMIT_FORECAST then [AK_FORECAST]
      else if k = CK_RECORD_SCORE then [AK_SCORE]
      else if k = CK_FREEZE_EVIDENCE_EPOCH then [AK_EPOCH, AK_ROUND]
      else if k = CK_SETTLE_LIVE_RACE then [AK_RESULT, AK_SETTLEMENT, AK_FIELD]
      else if k = CK_SUPERSEDE_AND_SETTLE_RESULT then [AK_RESULT, AK_SETTLEMENT, AK_FIELD]
      else if k = CK_REVISE_FIELD_ROSTER then [AK_FIELD_INGRESS, AK_FIELD]
      else if k = CK_EVALUATE_MODEL_CANDIDATE then [AK_BUNDLE, AK_AUDIT_GENERATION]
      else if k = CK_RECORD_MONITORING then [AK_MONITORING, AK_BUNDLE]
      else case command_event k of None \<Rightarrow> [] | Some (ak, ek) \<Rightarrow> [ak])"

lemma of_kind_count:
  "distinct ks \<Longrightarrow> sum_list (map (\<lambda>k. length (of_kind k es)) ks) = length (filter (\<lambda>e. ei_aggregate_kind e \<in> set ks) es)"
proof (induction ks)
  case (Cons k ks)
  have "length (filter (\<lambda>e. ei_aggregate_kind e \<in> set (k # ks)) es)
      = length (of_kind k es) + length (filter (\<lambda>e. ei_aggregate_kind e \<in> set ks) es)"
    using Cons.prems by (induction es) (auto simp: of_kind_def)
  then show ?case using Cons by simp
qed simp

lemma of_kind_covers:
  assumes "distinct ks" "sum_list (map (\<lambda>k. length (of_kind k es)) ks) = length es"
  shows "\<forall>e \<in> set es. ei_aggregate_kind e \<in> set ks"
  using assms by (metis filter_id_conv length_filter_less less_irrefl of_kind_count)

lemma covers_two:
  assumes "a \<noteq> b" "length (of_kind a es) + length (of_kind b es) = length es"
  shows "\<forall>e \<in> set es. ei_aggregate_kind e \<in> {a, b}"
  using of_kind_covers [of "[a, b]" es] assms by simp

lemma covers_three:
  assumes "length (of_kind AK_RESULT es) + length (of_kind AK_SETTLEMENT es) + length (of_kind AK_FIELD es) = length es"
  shows "\<forall>e \<in> set es. ei_aggregate_kind e \<in> {AK_RESULT, AK_SETTLEMENT, AK_FIELD}"
  using of_kind_covers [of "[AK_RESULT, AK_SETTLEMENT, AK_FIELD]" es] assms by simp

lemma one_length:
  "one_on_target k t es \<Longrightarrow> length es = 1" "one_event k es \<Longrightarrow> length es = 1"
  by (auto simp: one_on_target_def one_event_def split: list.splits)

lemma single_of_kind: "single_of ak ks t es \<Longrightarrow> \<forall>e \<in> set es. ei_aggregate_kind e = ak"
  by (auto simp: single_of_def split: list.splits)

text \<open>C34. A command appends only to the aggregate kinds its kind owns: for every command but the batch
  issue, an accepted set of events touches no aggregate outside the kinds its validation names.\<close>

theorem command_touches_only_its_kinds:
  assumes "is_ok (validate_command_event_intents c es)" "ce_kind c \<noteq> CK_ACKNOWLEDGE_BATCH_ISSUE"
  shows "\<forall>e \<in> set es. ei_aggregate_kind e \<in> set (touched_kinds (ce_kind c))"
proof -
  have ep: "\<forall>e \<in> set es. ei_aggregate_kind e \<in> {AK_EPOCH, AK_ROUND}"
    if "ce_kind c = CK_FREEZE_EVIDENCE_EPOCH"
    using assms(1) that covers_two [of AK_EPOCH AK_ROUND es] one_length
    by (auto simp: validate_command_event_intents_def dest!: one_length)
  have ev: "\<forall>e \<in> set es. ei_aggregate_kind e \<in> {AK_BUNDLE, AK_AUDIT_GENERATION}"
    if "ce_kind c = CK_EVALUATE_MODEL_CANDIDATE"
    using assms(1) that covers_two [of AK_BUNDLE AK_AUDIT_GENERATION es] one_length
    by (auto simp: validate_command_event_intents_def dest!: one_length)
  have ros: "\<forall>e \<in> set es. ei_aggregate_kind e \<in> {AK_FIELD_INGRESS, AK_FIELD}"
    if "ce_kind c = CK_REVISE_FIELD_ROSTER"
    using assms(1) that covers_two [of AK_FIELD_INGRESS AK_FIELD es] by (auto simp: validate_command_event_intents_def Let_def)
  have mon: "\<forall>e \<in> set es. ei_aggregate_kind e \<in> {AK_MONITORING, AK_BUNDLE}"
    if "ce_kind c = CK_RECORD_MONITORING"
    using assms(1) that covers_two [of AK_MONITORING AK_BUNDLE es] by (auto simp: validate_command_event_intents_def Let_def)
  have set3: "\<forall>e \<in> set es. ei_aggregate_kind e \<in> {AK_RESULT, AK_SETTLEMENT, AK_FIELD}"
    if "ce_kind c = CK_SETTLE_LIVE_RACE \<or> ce_kind c = CK_SUPERSEDE_AND_SETTLE_RESULT"
    using assms(1) that covers_three [of es] by (auto simp: validate_command_event_intents_def Let_def)
  have plain: "\<exists>ak ek. command_event (ce_kind c) = Some (ak, ek) \<and> (\<forall>e \<in> set es. ei_aggregate_kind e = ak)"
    if "ce_kind c \<notin> {CK_COMMIT_FORECAST, CK_RECORD_SCORE, CK_FREEZE_EVIDENCE_EPOCH, CK_SETTLE_LIVE_RACE,
      CK_SUPERSEDE_AND_SETTLE_RESULT, CK_REVISE_FIELD_ROSTER, CK_EVALUATE_MODEL_CANDIDATE, CK_RECORD_MONITORING}"
    using assms that
    by (auto simp: validate_command_event_intents_def Let_def is_ok_bind dest!: single_of_kind split: option.splits)
  have fc: "\<forall>e \<in> set es. ei_aggregate_kind e = AK_FORECAST" if "ce_kind c = CK_COMMIT_FORECAST"
    using assms(1) that by (auto simp: validate_command_event_intents_def Let_def dest: single_of_kind)
  have sc: "\<forall>e \<in> set es. ei_aggregate_kind e = AK_SCORE" if "ce_kind c = CK_RECORD_SCORE"
    using assms(1) that by (auto simp: validate_command_event_intents_def Let_def dest: single_of_kind)
  show ?thesis
    using ep ev ros mon set3 plain fc sc by (auto simp: touched_kinds_def)
qed

definition sample_command :: "command_kind \<Rightarrow> string list \<Rightarrow> command_envelope" where
  "sample_command k ids = \<lparr>ce_kind = k, ce_command_id = ''command:c1'', ce_target_aggregate = hd ids,
     ce_expected_versions = map (\<lambda>i. (i, 0)) ids, ce_actor_id = ''actor:judge'',
     ce_payload = Blob \<lparr>br_blob_id = ''blob:b1'', br_digest = zero_digest, br_byte_count = 70000,
       br_media_type = ''application/json''\<rparr>\<rparr>"

theorem command_touches_only_its_kinds_witness:
  "ei_aggregate_kind \<lparr>ei_aggregate_kind = AK_TOURNAMENT, ei_aggregate_id = ''tournament:t'', ei_event_kind = EK_TOURNAMENT_CONFIGURED\<rparr>
     \<in> set (touched_kinds CK_CONFIGURE_TOURNAMENT)"
proof -
  let ?c = "sample_command CK_CONFIGURE_TOURNAMENT [''tournament:t'']"
  let ?e = "\<lparr>ei_aggregate_kind = AK_TOURNAMENT, ei_aggregate_id = ''tournament:t'', ei_event_kind = EK_TOURNAMENT_CONFIGURED\<rparr>"
  have ok: "is_ok (validate_command_event_intents ?c [?e])" by code_simp
  have k: "ce_kind ?c \<noteq> CK_ACKNOWLEDGE_BATCH_ISSUE" by (simp add: sample_command_def)
  show ?thesis using command_touches_only_its_kinds [OF ok k] by (simp add: sample_command_def)
qed

text \<open>C38. The batch issue alone is not closed: to any accepted batch issue, any number of events of
  foreign aggregate kinds (weights, credentials, results) can be added and the validation still
  accepts it, because its branch does not compare the event count as the other branches do.\<close>

theorem batch_issue_admits_foreign_events:
  assumes "ce_kind c = CK_ACKNOWLEDGE_BATCH_ISSUE" "is_ok (validate_command_event_intents c es)"
    "\<forall>e \<in> set extra. ei_aggregate_kind e \<noteq> AK_ISSUE_BATCH \<and> ei_aggregate_kind e \<noteq> AK_FIELD"
  shows "is_ok (validate_command_event_intents c (es @ extra))"
proof -
  have "of_kind AK_ISSUE_BATCH extra = []" "of_kind AK_FIELD extra = []"
    using assms(3) by (auto simp: of_kind_def filter_empty_conv)
  then have "of_kind AK_ISSUE_BATCH (es @ extra) = of_kind AK_ISSUE_BATCH es" "of_kind AK_FIELD (es @ extra) = of_kind AK_FIELD es"
    by (simp_all add: of_kind_def)
  then show ?thesis using assms(1,2) by (auto simp: validate_command_event_intents_def Let_def is_ok_bind)
qed

theorem batch_issue_admits_foreign_events_witness:
  "is_ok (validate_command_event_intents
     (sample_command CK_ACKNOWLEDGE_BATCH_ISSUE [''issue_batch:b'', ''field:f'', ''weights:w''])
     ([\<lparr>ei_aggregate_kind = AK_ISSUE_BATCH, ei_aggregate_id = ''issue_batch:b'', ei_event_kind = EK_ISSUE_BATCH_ISSUED\<rparr>,
       \<lparr>ei_aggregate_kind = AK_FIELD, ei_aggregate_id = ''field:f'', ei_event_kind = EK_FIELD_ISSUED\<rparr>]
      @ [\<lparr>ei_aggregate_kind = AK_WEIGHTS, ei_aggregate_id = ''weights:w'', ei_event_kind = EK_EMERGENCY_STOPPED\<rparr>]))"
proof (rule batch_issue_admits_foreign_events)
  show "ce_kind (sample_command CK_ACKNOWLEDGE_BATCH_ISSUE [''issue_batch:b'', ''field:f'', ''weights:w'']) = CK_ACKNOWLEDGE_BATCH_ISSUE"
    by (simp add: sample_command_def)
  show "is_ok (validate_command_event_intents
     (sample_command CK_ACKNOWLEDGE_BATCH_ISSUE [''issue_batch:b'', ''field:f'', ''weights:w''])
     [\<lparr>ei_aggregate_kind = AK_ISSUE_BATCH, ei_aggregate_id = ''issue_batch:b'', ei_event_kind = EK_ISSUE_BATCH_ISSUED\<rparr>,
      \<lparr>ei_aggregate_kind = AK_FIELD, ei_aggregate_id = ''field:f'', ei_event_kind = EK_FIELD_ISSUED\<rparr>])"
    by code_simp
qed simp

end
