(* ===== verification/Events.thy ===== *)
theory Events
  imports Requests
begin

section \<open>Event envelopes (contracts/events.py)\<close>

text \<open>
  One immutable event: its identity, kind and aggregate, its place in the global order and in the
  aggregate's stream, the digests of its predecessors in both, the command that caused it, and the
  digest of all of that. \<open>mk_event_envelope\<close> is \<open>EventEnvelope.__post_init__\<close>,
  \<open>create_event_envelope\<close> computes the digest first.
\<close>

definition event_schema_version :: string where "event_schema_version = ''strathmark-v3-event-envelope-v1''"
definition max_event_canonical_bytes :: int where "max_event_canonical_bytes = 1048576"

record event_envelope =
  ee_event_id :: string
  ee_kind :: event_kind
  ee_aggregate_kind :: aggregate_kind
  ee_aggregate_id :: string
  ee_aggregate_version :: int
  ee_global_sequence :: int
  ee_prior_global_digest :: string
  ee_prior_aggregate_digest :: string
  ee_occurred_at_utc :: string
  ee_monotonic_elapsed_ms :: int
  ee_command :: command_envelope
  ee_event_digest :: string

text \<open>\<open>_event_content_value\<close>.\<close>

definition event_content :: "event_envelope \<Rightarrow> (string \<times> py) list" where
  "event_content e =
     [(''schema_version'', PStr event_schema_version),
      (''event_id'', PStr (ee_event_id e)),
      (''kind'', PStr (event_kind_value (ee_kind e))),
      (''aggregate_kind'', PStr (aggregate_kind_value (ee_aggregate_kind e))),
      (''aggregate_id'', PStr (ee_aggregate_id e)),
      (''aggregate_version'', PInt (ee_aggregate_version e)),
      (''global_sequence'', PInt (ee_global_sequence e)),
      (''prior_global_digest'', PStr (ee_prior_global_digest e)),
      (''prior_aggregate_digest'', PStr (ee_prior_aggregate_digest e)),
      (''occurred_at_utc'', PStr (ee_occurred_at_utc e)),
      (''monotonic_elapsed_ms'', PInt (ee_monotonic_elapsed_ms e)),
      (''command'', command_envelope_to_dict (ee_command e))]"

definition event_envelope_to_dict :: "event_envelope \<Rightarrow> py" where
  "event_envelope_to_dict e = obj (event_content e @ [(''event_digest'', PStr (ee_event_digest e))])"

definition event_recompute_digest :: "event_envelope \<Rightarrow> v3_error + string" where
  "event_recompute_digest e = canonical_digest (obj (event_content e))"

definition mk_event_envelope ::
    "string \<Rightarrow> event_kind \<Rightarrow> aggregate_kind \<Rightarrow> string \<Rightarrow> py \<Rightarrow> py \<Rightarrow> py \<Rightarrow> py \<Rightarrow> py \<Rightarrow> py \<Rightarrow> command_envelope \<Rightarrow> py
      \<Rightarrow> v3_error + event_envelope" where
  "mk_event_envelope eid kind akind aid ver gsq pg pa occ elapsed cmd dig =
     bind_res (require_id (PStr eid) ''event'') (\<lambda>_.
     bind_res (require_identifier (PStr aid) (Some (aggregate_kind_value akind))) (\<lambda>_.
     bind_res (require_positive_int ver ''aggregate_version'') (\<lambda>v.
     bind_res (require_positive_int gsq ''global_sequence'') (\<lambda>g.
     bind_res (require_digest pg ''prior_global_digest'') (\<lambda>pgd.
     bind_res (require_digest pa ''prior_aggregate_digest'') (\<lambda>pad.
     bind_res (require_utc_milliseconds occ) (\<lambda>u.
     bind_res (require_nonnegative_int elapsed ''monotonic_elapsed_ms'') (\<lambda>m.
     bind_res (of_option (ContractError ''event aggregate must match a declared command target'')
       (map_of (ce_expected_versions cmd) aid)) (\<lambda>expected.
     bind_res (guards [(expected \<noteq> v - 1,
       ContractError ''event aggregate version must follow the command expected version'')]) (\<lambda>_.
     bind_res (require_digest dig ''event_digest'') (\<lambda>d.
     let e = \<lparr>ee_event_id = eid, ee_kind = kind, ee_aggregate_kind = akind, ee_aggregate_id = aid,
       ee_aggregate_version = v, ee_global_sequence = g, ee_prior_global_digest = pgd,
       ee_prior_aggregate_digest = pad, ee_occurred_at_utc = u, ee_monotonic_elapsed_ms = m,
       ee_command = cmd, ee_event_digest = d\<rparr> in
     bind_res (event_recompute_digest e) (\<lambda>r.
     bind_res (guards [(d \<noteq> r, ContractError ''event digest mismatch'')]) (\<lambda>_.
     bind_res (map_err (\<lambda>_. ContractError ''event exceeds the maximum canonical size'')
       (canonical_bytes_bounded default_max_depth max_event_canonical_bytes default_max_items (event_envelope_to_dict e)))
       (\<lambda>_. Inr e))))))))))))))"

definition create_event_envelope ::
    "string \<Rightarrow> event_kind \<Rightarrow> aggregate_kind \<Rightarrow> string \<Rightarrow> int \<Rightarrow> int \<Rightarrow> string \<Rightarrow> string \<Rightarrow> string \<Rightarrow> int \<Rightarrow> command_envelope
      \<Rightarrow> v3_error + event_envelope" where
  "create_event_envelope eid kind akind aid v g pg pa occ elapsed cmd =
     (let e = \<lparr>ee_event_id = eid, ee_kind = kind, ee_aggregate_kind = akind, ee_aggregate_id = aid,
       ee_aggregate_version = v, ee_global_sequence = g, ee_prior_global_digest = pg,
       ee_prior_aggregate_digest = pa, ee_occurred_at_utc = occ, ee_monotonic_elapsed_ms = elapsed,
       ee_command = cmd, ee_event_digest = zero_digest\<rparr> in
      bind_res (event_recompute_digest e) (\<lambda>d.
      mk_event_envelope eid kind akind aid (PInt v) (PInt g) (PStr pg) (PStr pa) (PStr occ) (PInt elapsed) cmd (PStr d)))"

definition event_envelope_from_dict :: "py \<Rightarrow> v3_error + event_envelope" where
  "event_envelope_from_dict v =
     bind_res (require_fields v [''schema_version'', ''event_id'', ''kind'', ''aggregate_kind'', ''aggregate_id'',
       ''aggregate_version'', ''global_sequence'', ''prior_global_digest'', ''prior_aggregate_digest'',
       ''occurred_at_utc'', ''monotonic_elapsed_ms'', ''command'', ''event_digest'']) (\<lambda>_.
     bind_res (require_schema (fld v ''schema_version'') event_schema_version) (\<lambda>_.
     bind_res (parse_with parse_event_kind (ContractError ''unknown event or aggregate kind'') (fld v ''kind'')) (\<lambda>kind.
     bind_res (parse_with parse_aggregate_kind (ContractError ''unknown event or aggregate kind'')
       (fld v ''aggregate_kind'')) (\<lambda>akind.
     bind_res (require_identifier (fld v ''event_id'') (Some ''event'')) (\<lambda>eid.
     bind_res (require_identifier (fld v ''aggregate_id'') None) (\<lambda>aid.
     bind_res (command_envelope_from_dict (fld v ''command'')) (\<lambda>cmd.
     mk_event_envelope eid kind akind aid (fld v ''aggregate_version'') (fld v ''global_sequence'')
       (fld v ''prior_global_digest'') (fld v ''prior_aggregate_digest'') (fld v ''occurred_at_utc'')
       (fld v ''monotonic_elapsed_ms'') cmd (fld v ''event_digest''))))))))"

subsection \<open>Well-formed events\<close>

definition ee_own_ok :: "event_envelope \<Rightarrow> bool" where
  "ee_own_ok e \<longleftrightarrow> id_in ''event'' (ee_event_id e)
     \<and> id_in (aggregate_kind_value (ee_aggregate_kind e)) (ee_aggregate_id e)
     \<and> 0 < ee_aggregate_version e \<and> 0 < ee_global_sequence e
     \<and> is_digest (ee_prior_global_digest e) \<and> is_digest (ee_prior_aggregate_digest e)
     \<and> utc_ok (ee_occurred_at_utc e) \<and> 0 \<le> ee_monotonic_elapsed_ms e
     \<and> map_of (ce_expected_versions (ee_command e)) (ee_aggregate_id e) = Some (ee_aggregate_version e - 1)
     \<and> event_recompute_digest e = Inr (ee_event_digest e)
     \<and> is_ok (canonical_bytes (event_envelope_to_dict e))"

definition ee_wf :: "event_envelope \<Rightarrow> bool" where
  "ee_wf e \<longleftrightarrow> ee_own_ok e \<and> ce_wf (ee_command e)"

lemma event_bytes_default:
  "canonical_bytes_bounded default_max_depth max_event_canonical_bytes default_max_items v = canonical_bytes v"
  by (simp add: canonical_bytes_def max_event_canonical_bytes_def default_max_bytes_def)

lemma event_recompute_is_digest: "event_recompute_digest e = Inr d \<Longrightarrow> is_digest d"
  by (simp add: event_recompute_digest_def canonical_digest_is_digest)

lemma is_ok_Inr: "is_ok m \<longleftrightarrow> (\<exists>x. m = Inr x)"
  by (cases m) auto

lemma mk_event_envelope_iff:
  "mk_event_envelope eid kind akind aid ver gsq pg pa occ elapsed cmd dig = Inr e \<longleftrightarrow>
     eid = ee_event_id e \<and> kind = ee_kind e \<and> akind = ee_aggregate_kind e \<and> aid = ee_aggregate_id e
     \<and> ver = PInt (ee_aggregate_version e) \<and> gsq = PInt (ee_global_sequence e)
     \<and> pg = PStr (ee_prior_global_digest e) \<and> pa = PStr (ee_prior_aggregate_digest e)
     \<and> occ = PStr (ee_occurred_at_utc e) \<and> elapsed = PInt (ee_monotonic_elapsed_ms e)
     \<and> cmd = ee_command e \<and> dig = PStr (ee_event_digest e) \<and> ee_own_ok e"
  by (cases e)
     (auto simp: mk_event_envelope_def ee_own_ok_def bind_res_Inr require_id_Inr require_identifier_Inr id_in_def
       require_positive_int_Inr require_nonnegative_int_Inr require_digest_Inr require_utc_Inr of_option_Inr
       guards_Inr Let_def map_err_Inr event_bytes_default is_ok_Inr simp del: guards.simps
       dest: event_recompute_is_digest)

lemma event_envelope_plain [simp]: "plain_ok (event_envelope_to_dict e)"
  by (simp add: event_envelope_to_dict_def event_content_def)

lemma event_envelope_from_to:
  assumes "ee_wf e"
  shows "event_envelope_from_dict (event_envelope_to_dict e) = Inr e"
    "event_envelope_from_dict (rl (event_envelope_to_dict e)) = Inr e"
proof -
  have wf: "ee_own_ok e" "ce_wf (ee_command e)" using assms by (simp_all add: ee_wf_def)
  have ids: "require_identifier (PStr (ee_event_id e)) (Some ''event'') = Inr (ee_event_id e)"
    "require_identifier (PStr (ee_aggregate_id e)) None = Inr (ee_aggregate_id e)"
    using wf(1) by (simp_all add: ee_own_ok_def id_in_require require_identifier_Inr) (simp add: id_in_def)
  show "event_envelope_from_dict (event_envelope_to_dict e) = Inr e"
    "event_envelope_from_dict (rl (event_envelope_to_dict e)) = Inr e"
    using wf(1)
    by (simp_all add: event_envelope_from_dict_def event_envelope_to_dict_def event_content_def require_fields_def
        require_schema_def rl_fld parse_with_def ids command_envelope_from_to [OF wf(2)] mk_event_envelope_iff
        insert_commute)
qed

lemma event_envelope_from_dict_wf: "event_envelope_from_dict v = Inr e \<Longrightarrow> ee_wf e"
  by (auto simp: event_envelope_from_dict_def bind_res_Inr mk_event_envelope_iff ee_wf_def
      dest: command_envelope_from_dict_wf)

text \<open>What an event is stored as and read back as.\<close>

lemma event_envelope_stored:
  assumes "ee_wf e" "canonical_text (event_envelope_to_dict e) = Inr t"
  shows "\<exists>w. json_loads t = Some w \<and> canonical_text w = Inr t \<and> event_envelope_from_dict w = Inr e"
  using canonical_text_reload [OF assms(2)] reloaded_plain [OF assms(2) event_envelope_plain]
    event_envelope_from_to(2) [OF assms(1)] by simp

lemma event_envelope_has_text: "ee_wf e \<Longrightarrow> \<exists>t. canonical_text (event_envelope_to_dict e) = Inr t"
  by (auto simp: ee_wf_def ee_own_ok_def is_ok_Inr canonical_text_def)

text \<open>C32. Exactly the events that satisfy the contract (digest of the content, version after the command's
  expected version, aggregate in the namespace of its kind) survive being turned into a dictionary and
  back, and exactly they survive storage: the dictionary has a canonical text, which loads as a value
  whose canonical text is the same and from which the very event is read.\<close>

theorem event_envelope_roundtrip:
  "(event_envelope_from_dict (event_envelope_to_dict e) = Inr e \<longleftrightarrow> ee_wf e)
   \<and> ((\<exists>t w. canonical_text (event_envelope_to_dict e) = Inr t \<and> json_loads t = Some w
           \<and> canonical_text w = Inr t \<and> event_envelope_from_dict w = Inr e) \<longleftrightarrow> ee_wf e)"
  using event_envelope_from_to(1) event_envelope_from_dict_wf event_envelope_has_text event_envelope_stored by blast

lemma create_event_envelope_Inr:
  assumes "create_event_envelope eid kind akind aid v g pg pa occ elapsed cmd = Inr e"
  shows "ee_event_id e = eid \<and> ee_kind e = kind \<and> ee_aggregate_kind e = akind \<and> ee_aggregate_id e = aid
    \<and> ee_aggregate_version e = v \<and> ee_global_sequence e = g \<and> ee_prior_global_digest e = pg
    \<and> ee_prior_aggregate_digest e = pa \<and> ee_occurred_at_utc e = occ \<and> ee_monotonic_elapsed_ms e = elapsed
    \<and> ee_command e = cmd \<and> ee_own_ok e"
  using assms by (auto simp: create_event_envelope_def Let_def bind_res_Inr mk_event_envelope_iff)

subsection \<open>Engine selection\<close>

text \<open>\<open>CompetitionEngineSelection\<close>: the closed upstream choice of an engine for one tournament.\<close>

record engine_selection =
  es_scope_id :: string
  es_engine :: prediction_engine
  es_mode :: engine_execution_mode
  es_selected_by :: string
  es_selected_at_utc :: string
  es_reason_code :: string
  es_contract_digest :: string
  es_source_commit :: string

definition selection_schema_version :: string where
  "selection_schema_version = ''strathmark-v3-competition-engine-selection-v1''"

definition reason_rest :: "char \<Rightarrow> bool" where
  "reason_rest c \<longleftrightarrow> is_lower c \<or> is_digit c \<or> c = CHR ''_''"

definition source_commit_ok :: "string \<Rightarrow> bool" where
  "source_commit_ok s \<longleftrightarrow> 7 \<le> length s \<and> length s \<le> 40 \<and> list_all (\<lambda>c. c \<in> set ''0123456789abcdef'') s"

definition check_str :: "(string \<Rightarrow> bool) \<Rightarrow> string \<Rightarrow> py \<Rightarrow> v3_error + string" where
  "check_str P msg v = (case v of PStr s \<Rightarrow> if P s then Inr s else Inl (ContractError msg) | _ \<Rightarrow> Inl (ContractError msg))"

lemma check_str_Inr: "check_str P msg v = Inr s \<longleftrightarrow> v = PStr s \<and> P s"
  by (auto simp: check_str_def split: py.splits if_splits)

definition mk_engine_selection ::
    "string \<Rightarrow> prediction_engine \<Rightarrow> engine_execution_mode \<Rightarrow> string \<Rightarrow> py \<Rightarrow> py \<Rightarrow> py \<Rightarrow> py \<Rightarrow> v3_error + engine_selection" where
  "mk_engine_selection scope engine mode actor occ reason dig commit =
     bind_res (require_identifier (PStr scope) (Some ''tournament'')) (\<lambda>_.
     bind_res (require_identifier (PStr actor) (Some ''actor'')) (\<lambda>_.
     bind_res (require_utc_milliseconds occ) (\<lambda>u.
     bind_res (check_str (head_tail_pattern is_lower reason_rest 63) ''selection reason code is invalid'' reason) (\<lambda>r.
     bind_res (require_digest dig ''consumer contract digest'') (\<lambda>d.
     bind_res (check_str source_commit_ok ''selection source commit is invalid'' commit) (\<lambda>c.
     Inr \<lparr>es_scope_id = scope, es_engine = engine, es_mode = mode, es_selected_by = actor, es_selected_at_utc = u,
          es_reason_code = r, es_contract_digest = d, es_source_commit = c\<rparr>))))))"

definition engine_selection_to_dict :: "engine_selection \<Rightarrow> py" where
  "engine_selection_to_dict s = obj
     [(''schema_version'', PStr selection_schema_version),
      (''scope_id'', PStr (es_scope_id s)),
      (''engine'', PStr (prediction_engine_value (es_engine s))),
      (''mode'', PStr (engine_execution_mode_value (es_mode s))),
      (''selected_by_actor_id'', PStr (es_selected_by s)),
      (''selected_at_utc'', PStr (es_selected_at_utc s)),
      (''reason_code'', PStr (es_reason_code s)),
      (''consumer_contract_digest'', PStr (es_contract_digest s)),
      (''source_commit'', PStr (es_source_commit s))]"

definition engine_selection_from_dict :: "py \<Rightarrow> v3_error + engine_selection" where
  "engine_selection_from_dict v =
     bind_res (require_fields v [''schema_version'', ''scope_id'', ''engine'', ''mode'', ''selected_by_actor_id'',
       ''selected_at_utc'', ''reason_code'', ''consumer_contract_digest'', ''source_commit'']) (\<lambda>_.
     bind_res (require_schema (fld v ''schema_version'') selection_schema_version) (\<lambda>_.
     bind_res (parse_with parse_prediction_engine (ContractError ''unknown prediction engine or execution mode'')
       (fld v ''engine'')) (\<lambda>engine.
     bind_res (parse_with parse_engine_execution_mode (ContractError ''unknown prediction engine or execution mode'')
       (fld v ''mode'')) (\<lambda>mode.
     bind_res (require_identifier (fld v ''scope_id'') (Some ''tournament'')) (\<lambda>scope.
     bind_res (require_identifier (fld v ''selected_by_actor_id'') (Some ''actor'')) (\<lambda>actor.
     mk_engine_selection scope engine mode actor (fld v ''selected_at_utc'') (fld v ''reason_code'')
       (fld v ''consumer_contract_digest'') (fld v ''source_commit'')))))))"

definition es_wf :: "engine_selection \<Rightarrow> bool" where
  "es_wf s \<longleftrightarrow> id_in ''tournament'' (es_scope_id s) \<and> id_in ''actor'' (es_selected_by s) \<and> utc_ok (es_selected_at_utc s)
     \<and> head_tail_pattern is_lower reason_rest 63 (es_reason_code s) \<and> is_digest (es_contract_digest s)
     \<and> source_commit_ok (es_source_commit s)"

lemma mk_engine_selection_iff:
  "mk_engine_selection scope engine mode actor occ reason dig commit = Inr s \<longleftrightarrow>
     scope = es_scope_id s \<and> engine = es_engine s \<and> mode = es_mode s \<and> actor = es_selected_by s
     \<and> occ = PStr (es_selected_at_utc s) \<and> reason = PStr (es_reason_code s) \<and> dig = PStr (es_contract_digest s)
     \<and> commit = PStr (es_source_commit s) \<and> es_wf s"
  by (cases s) (auto simp: mk_engine_selection_def es_wf_def bind_res_Inr require_identifier_Inr id_in_def
      require_utc_Inr check_str_Inr require_digest_Inr)

lemma engine_selection_roundtrip:
  "engine_selection_from_dict (engine_selection_to_dict s) = Inr s \<longleftrightarrow> es_wf s"
proof
  assume "engine_selection_from_dict (engine_selection_to_dict s) = Inr s"
  then show "es_wf s" by (auto simp: engine_selection_from_dict_def bind_res_Inr mk_engine_selection_iff)
next
  assume wf: "es_wf s"
  then have "id_in ''tournament'' (es_scope_id s)" "id_in ''actor'' (es_selected_by s)" by (simp_all add: es_wf_def)
  then show "engine_selection_from_dict (engine_selection_to_dict s) = Inr s" using wf
    by (simp add: engine_selection_from_dict_def engine_selection_to_dict_def require_fields_def require_schema_def
        parse_with_def id_in_require mk_engine_selection_iff insert_commute)
qed

end
