(* ===== verification/Lifecycle.thy ===== *)
theory Lifecycle
  imports Statuses
begin

section \<open>Aggregate state machines (domain/state_machines.py)\<close>

text \<open>
  The closed transition table \<open>_EDGES\<close>, one association list per aggregate kind in the order of
  the source, and the three functions over it: \<open>transition\<close> applies one edge, \<open>replay\<close> folds a
  stream of event kinds, \<open>initial_event\<close> returns the genesis event. \<open>AK_SYSTEM\<close> has no machine.

  The lemmas show what the table means for a stream of events: a legal stream has legal prefixes
  only, an issued field can only be settled, the jobs' leases alternate with their queueing, and
  the table agrees with the status table of \<open>contracts/statuses.py\<close> up to two self-loops.
\<close>

fun edges :: "aggregate_kind \<Rightarrow> ((lifecycle_status option \<times> event_kind) \<times> lifecycle_status) list option" where
  "edges AK_TOURNAMENT_INGRESS = Some
     [((None, EK_TOURNAMENT_SNAPSHOT_REVISED), LS_TOURNAMENT_INGRESS_CURRENT),
      ((Some LS_TOURNAMENT_INGRESS_CURRENT, EK_TOURNAMENT_SNAPSHOT_REVISED), LS_TOURNAMENT_INGRESS_CURRENT)]"
| "edges AK_ROUND_INGRESS = Some
     [((None, EK_ROUND_SNAPSHOT_REVISED), LS_ROUND_INGRESS_CURRENT),
      ((Some LS_ROUND_INGRESS_CURRENT, EK_ROUND_SNAPSHOT_REVISED), LS_ROUND_INGRESS_CURRENT)]"
| "edges AK_FIELD_INGRESS = Some
     [((None, EK_FIELD_ROSTER_REVISED), LS_FIELD_INGRESS_CURRENT),
      ((Some LS_FIELD_INGRESS_CURRENT, EK_FIELD_ROSTER_REVISED), LS_FIELD_INGRESS_CURRENT)]"
| "edges AK_RESULT = Some
     [((None, EK_RESULT_RECORDED), LS_RESULT_ACTIVE),
      ((Some LS_RESULT_ACTIVE, EK_RESULT_SUPERSEDED), LS_RESULT_ACTIVE)]"
| "edges AK_SETTLEMENT = Some
     [((None, EK_LIVE_RACE_SETTLED), LS_SETTLEMENT_RECORDED)]"
| "edges AK_EPOCH = Some
     [((None, EK_ROUND_EPOCH_FROZEN), LS_EPOCH_FROZEN)]"
| "edges AK_REACTION = Some
     [((None, EK_DERIVATION_REACTION_COMPLETED), LS_REACTION_COMPLETED)]"
| "edges AK_DERIVATION = Some
     [((None, EK_DERIVATION_SEQUENCE_COMPLETED), LS_DERIVATION_COMPLETED)]"
| "edges AK_FORECAST = Some
     [((None, EK_COMPONENT_FORECAST_COMMITTED), LS_FORECAST_CURRENT),
      ((None, EK_COMPONENT_FORECAST_REJECTED), LS_FORECAST_CURRENT)]"
| "edges AK_SCORE = Some
     [((None, EK_SCORE_RECORDED), LS_SCORE_CURRENT),
      ((Some LS_SCORE_CURRENT, EK_SCORE_REVERSED), LS_SCORE_REVERSED)]"
| "edges AK_WEIGHTS = Some
     [((None, EK_WEIGHTS_CHANGED), LS_WEIGHTS_CURRENT),
      ((None, EK_LIVE_SUSPENDED), LS_WEIGHTS_CURRENT),
      ((None, EK_LIVE_RESUMED), LS_WEIGHTS_CURRENT),
      ((None, EK_EMERGENCY_STOPPED), LS_WEIGHTS_CURRENT),
      ((Some LS_WEIGHTS_CURRENT, EK_WEIGHTS_CHANGED), LS_WEIGHTS_CURRENT),
      ((Some LS_WEIGHTS_CURRENT, EK_LIVE_SUSPENDED), LS_WEIGHTS_CURRENT),
      ((Some LS_WEIGHTS_CURRENT, EK_LIVE_RESUMED), LS_WEIGHTS_CURRENT),
      ((Some LS_WEIGHTS_CURRENT, EK_EMERGENCY_STOPPED), LS_WEIGHTS_CURRENT)]"
| "edges AK_TOURNAMENT = Some
     [((None, EK_TOURNAMENT_CONFIGURED), LS_TOURNAMENT_CONFIGURED),
      ((Some LS_TOURNAMENT_CONFIGURED, EK_TOURNAMENT_OPENED), LS_TOURNAMENT_OPEN),
      ((Some LS_TOURNAMENT_OPEN, EK_TOURNAMENT_CLOSED), LS_TOURNAMENT_CLOSED)]"
| "edges AK_ROUND = Some
     [((None, EK_ROUND_CONFIGURED), LS_ROUND_CONFIGURED),
      ((Some LS_ROUND_CONFIGURED, EK_ROUND_FROZEN), LS_ROUND_FROZEN),
      ((Some LS_ROUND_FROZEN, EK_ROUND_FROZEN), LS_ROUND_FROZEN),
      ((Some LS_ROUND_FROZEN, EK_ROUND_CLOSING_STARTED), LS_ROUND_CLOSING),
      ((Some LS_ROUND_CLOSING, EK_ROUND_CLOSED), LS_ROUND_CLOSED)]"
| "edges AK_FIELD = Some
     [((None, EK_FIELD_OPTIMIZED), LS_FIELD_PREPARED),
      ((Some LS_FIELD_PREPARED, EK_FIELD_SUPERSEDED), LS_FIELD_SUPERSEDED),
      ((Some LS_FIELD_SUPERSEDED, EK_FIELD_REGENERATED), LS_FIELD_PREPARED),
      ((Some LS_FIELD_PREPARED, EK_FIELD_REGENERATED), LS_FIELD_PREPARED),
      ((Some LS_FIELD_PREPARED, EK_FIELD_ISSUED), LS_FIELD_ISSUED),
      ((Some LS_FIELD_ISSUED, EK_FIELD_SETTLED), LS_FIELD_SETTLED)]"
| "edges AK_JOB = Some
     [((None, EK_JOB_QUEUED), LS_JOB_QUEUED),
      ((Some LS_JOB_QUEUED, EK_JOB_LEASED), LS_JOB_LEASED),
      ((Some LS_JOB_QUEUED, EK_JOB_CANCELLED), LS_JOB_CANCELLED),
      ((Some LS_JOB_LEASED, EK_JOB_SUCCEEDED), LS_JOB_SUCCEEDED),
      ((Some LS_JOB_LEASED, EK_JOB_INVALID), LS_JOB_INVALID),
      ((Some LS_JOB_LEASED, EK_JOB_RETRYABLE_FAILED), LS_JOB_RETRYABLE_FAILED),
      ((Some LS_JOB_LEASED, EK_JOB_STALE), LS_JOB_STALE),
      ((Some LS_JOB_LEASED, EK_JOB_PERMANENT_FAILED), LS_JOB_PERMANENT_FAILED),
      ((Some LS_JOB_RETRYABLE_FAILED, EK_JOB_REQUEUED), LS_JOB_QUEUED)]"
| "edges AK_BUNDLE = Some
     [((None, EK_MODEL_CANDIDATE_CREATED), LS_BUNDLE_CANDIDATE),
      ((Some LS_BUNDLE_CANDIDATE, EK_MODEL_CANDIDATE_EVALUATED), LS_BUNDLE_EVALUATED),
      ((Some LS_BUNDLE_EVALUATED, EK_BUNDLE_PROMOTED), LS_BUNDLE_PROMOTED),
      ((Some LS_BUNDLE_PROMOTED, EK_BUNDLE_ROLLED_BACK), LS_BUNDLE_ROLLED_BACK)]"
| "edges AK_AUDIT_GENERATION = Some
     [((None, EK_AUDIT_GENERATION_CONSUMED), LS_AUDIT_GENERATION_CONSUMED)]"
| "edges AK_MONITORING = Some
     [((None, EK_MONITORING_RECORDED), LS_MONITORING_RECORDED)]"
| "edges AK_SERVICE_CREDENTIAL = Some
     [((None, EK_SERVICE_CREDENTIAL_BOOTSTRAPPED), LS_SERVICE_CREDENTIAL_ACTIVE),
      ((Some LS_SERVICE_CREDENTIAL_ACTIVE, EK_SERVICE_CREDENTIAL_ROTATED), LS_SERVICE_CREDENTIAL_ACTIVE),
      ((Some LS_SERVICE_CREDENTIAL_ACTIVE, EK_SERVICE_CREDENTIAL_REVOKED), LS_SERVICE_CREDENTIAL_ACTIVE),
      ((Some LS_SERVICE_CREDENTIAL_ACTIVE, EK_SERVICE_CREDENTIAL_RECOVERED), LS_SERVICE_CREDENTIAL_ACTIVE)]"
| "edges AK_ISSUE_BATCH = Some
     [((None, EK_ISSUE_BATCH_ISSUED), LS_ISSUE_BATCH_ISSUED)]"
| "edges AK_APPROVAL_DECISION = Some
     [((None, EK_APPROVAL_DECISION_RECORDED), LS_APPROVAL_DECISION_RECORDED)]"
| "edges AK_COMPETITOR = Some
     [((None, EK_CAPABILITY_UPDATED), LS_COMPETITOR_CAPABILITY_CURRENT),
      ((Some LS_COMPETITOR_CAPABILITY_CURRENT, EK_CAPABILITY_UPDATED), LS_COMPETITOR_CAPABILITY_CURRENT),
      ((Some LS_COMPETITOR_CAPABILITY_CURRENT, EK_CAPABILITY_STATE_REBASED), LS_COMPETITOR_CAPABILITY_CURRENT)]"
| "edges AK_SYSTEM = None"

definition machine :: "aggregate_kind \<Rightarrow> v3_error + ((lifecycle_status option \<times> event_kind) \<times> lifecycle_status) list" where
  "machine k = of_option (ContractError ''aggregate kind has no lifecycle state machine'') (edges k)"

definition state_name :: "lifecycle_status option \<Rightarrow> string" where
  "state_name s = (case s of None \<Rightarrow> ''genesis'' | Some st \<Rightarrow> lifecycle_status_value st)"

definition transition ::
    "aggregate_kind \<Rightarrow> lifecycle_status option \<Rightarrow> event_kind \<Rightarrow> v3_error + lifecycle_status" where
  "transition k current e =
     bind_res (machine k) (\<lambda>es.
     bind_res (guards
       [(case current of None \<Rightarrow> False | Some st \<Rightarrow> \<not> status_belongs (aggregate_kind_value k) st,
         ContractError ''current lifecycle status does not belong to aggregate kind'')]) (\<lambda>_.
     of_option (ContractError (''illegal '' @ aggregate_kind_value k @ '' lifecycle transition from ''
         @ state_name current @ '' using '' @ event_kind_value e))
       (map_of es (current, e))))"

fun replay_from ::
    "aggregate_kind \<Rightarrow> lifecycle_status option \<Rightarrow> event_kind list \<Rightarrow> v3_error + lifecycle_status option" where
  "replay_from k s [] = Inr s"
| "replay_from k s (e # es) = bind_res (transition k s e) (\<lambda>t. replay_from k (Some t) es)"

definition replay :: "aggregate_kind \<Rightarrow> event_kind list \<Rightarrow> v3_error + lifecycle_status option" where
  "replay k es = replay_from k None es"

definition initial_event :: "aggregate_kind \<Rightarrow> v3_error + event_kind" where
  "initial_event k =
     bind_res (machine k) (\<lambda>es.
     case [e. ((s, e), t) \<leftarrow> es, s = None] of
       [e] \<Rightarrow> Inr e
     | _ \<Rightarrow> Inl (ContractError ''aggregate state machine must define exactly one initial event''))"

subsection \<open>Edges and steps\<close>

definition is_edge :: "aggregate_kind \<Rightarrow> lifecycle_status option \<Rightarrow> event_kind \<Rightarrow> lifecycle_status \<Rightarrow> bool" where
  "is_edge k s e t \<longleftrightarrow> (case edges k of None \<Rightarrow> False | Some es \<Rightarrow> map_of es (s, e) = Some t)"

lemma edge_source_belongs:
  "is_edge k (Some s) e t \<Longrightarrow> status_belongs (aggregate_kind_value k) s"
  by (cases k) (auto simp: is_edge_def status_belongs_def split: if_splits)

lemma edge_target_belongs:
  "is_edge k s e t \<Longrightarrow> status_belongs (aggregate_kind_value k) t"
  by (cases k) (auto simp: is_edge_def status_belongs_def split: if_splits)

text \<open>The membership test of \<open>transition\<close> never rejects a state the machine produced.\<close>

lemma transition_iff_edge: "transition k s e = Inr t \<longleftrightarrow> is_edge k s e t"
proof
  assume "transition k s e = Inr t"
  then show "is_edge k s e t"
    by (auto simp: transition_def machine_def is_edge_def result_simps)
next
  assume e: "is_edge k s e t"
  then have "case s of None \<Rightarrow> True | Some st \<Rightarrow> status_belongs (aggregate_kind_value k) st"
    by (auto split: option.splits dest: edge_source_belongs)
  with e show "transition k s e = Inr t"
    by (auto simp: transition_def machine_def is_edge_def split: option.splits)
qed

lemma transition_ok_iff: "is_ok (transition k s e) \<longleftrightarrow> (\<exists>t. is_edge k s e t)"
  by (cases "transition k s e") (auto simp: transition_iff_edge [symmetric])

inductive lc_steps :: "aggregate_kind \<Rightarrow> lifecycle_status option \<Rightarrow> event_kind list \<Rightarrow> lifecycle_status option \<Rightarrow> bool"
  for k where
  lc_nil: "lc_steps k s [] s"
| lc_cons: "is_edge k s e t \<Longrightarrow> lc_steps k (Some t) es u \<Longrightarrow> lc_steps k s (e # es) u"

inductive_simps lc_steps_simps [simp]:
  "lc_steps k s [] u"
  "lc_steps k s (e # es) u"

lemma replay_from_iff_steps: "replay_from k s es = Inr u \<longleftrightarrow> lc_steps k s es u"
  by (induction es arbitrary: s) (auto simp: result_simps transition_iff_edge)

lemma lc_steps_append: "lc_steps k s (xs @ ys) u \<longleftrightarrow> (\<exists>t. lc_steps k s xs t \<and> lc_steps k t ys u)"
  by (induction xs arbitrary: s) auto

lemma replay_iff_steps: "replay k es = Inr u \<longleftrightarrow> lc_steps k None es u"
  by (simp add: replay_def replay_from_iff_steps)

lemma replay_append:
  "replay k (xs @ ys) = Inr u \<longleftrightarrow> (\<exists>t. replay k xs = Inr t \<and> replay_from k t ys = Inr u)"
  by (simp add: replay_iff_steps replay_from_iff_steps lc_steps_append)

lemma replay_snoc:
  "replay k (es @ [e]) = Inr u \<longleftrightarrow> (\<exists>s t. replay k es = Inr s \<and> is_edge k s e t \<and> u = Some t)"
  by (auto simp: replay_append replay_from_iff_steps result_simps transition_iff_edge)

lemma lc_steps_belongs:
  "lc_steps k s es (Some t) \<Longrightarrow> (\<forall>s'. s = Some s' \<longrightarrow> status_belongs (aggregate_kind_value k) s')
     \<Longrightarrow> status_belongs (aggregate_kind_value k) t"
  by (induction es arbitrary: s) (auto dest: edge_target_belongs)

subsection \<open>What a legal stream looks like\<close>

lemma field_edges:
  "is_edge AK_FIELD s e t \<longleftrightarrow>
     (s, e, t) \<in> {(None, EK_FIELD_OPTIMIZED, LS_FIELD_PREPARED),
       (Some LS_FIELD_PREPARED, EK_FIELD_SUPERSEDED, LS_FIELD_SUPERSEDED),
       (Some LS_FIELD_SUPERSEDED, EK_FIELD_REGENERATED, LS_FIELD_PREPARED),
       (Some LS_FIELD_PREPARED, EK_FIELD_REGENERATED, LS_FIELD_PREPARED),
       (Some LS_FIELD_PREPARED, EK_FIELD_ISSUED, LS_FIELD_ISSUED),
       (Some LS_FIELD_ISSUED, EK_FIELD_SETTLED, LS_FIELD_SETTLED)}"
  by (auto simp: is_edge_def split: if_splits)

lemma field_after_settled: "lc_steps AK_FIELD (Some LS_FIELD_SETTLED) es u \<longleftrightarrow> es = [] \<and> u = Some LS_FIELD_SETTLED"
  by (cases es) (auto simp: field_edges)

lemma field_after_issued:
  "lc_steps AK_FIELD (Some LS_FIELD_ISSUED) es u \<longleftrightarrow>
     (es = [] \<and> u = Some LS_FIELD_ISSUED) \<or> (es = [EK_FIELD_SETTLED] \<and> u = Some LS_FIELD_SETTLED)"
  by (cases es) (auto simp: field_edges field_after_settled)

text \<open>C33. Issue is final: in every legal event stream of a field, nothing but one settlement can
  follow the issue event, so an issued sheet is never superseded, regenerated or issued again.\<close>

theorem issued_field_is_final:
  "replay AK_FIELD (xs @ EK_FIELD_ISSUED # ys) = Inr u \<longleftrightarrow>
     replay AK_FIELD xs = Inr (Some LS_FIELD_PREPARED)
     \<and> (ys = [] \<and> u = Some LS_FIELD_ISSUED \<or> ys = [EK_FIELD_SETTLED] \<and> u = Some LS_FIELD_SETTLED)"
  by (auto simp: replay_iff_steps lc_steps_append field_edges field_after_issued)

lemma job_edges:
  "is_edge AK_JOB s e t \<longleftrightarrow>
     (s, e, t) \<in> {(None, EK_JOB_QUEUED, LS_JOB_QUEUED),
       (Some LS_JOB_QUEUED, EK_JOB_LEASED, LS_JOB_LEASED),
       (Some LS_JOB_QUEUED, EK_JOB_CANCELLED, LS_JOB_CANCELLED),
       (Some LS_JOB_LEASED, EK_JOB_SUCCEEDED, LS_JOB_SUCCEEDED),
       (Some LS_JOB_LEASED, EK_JOB_INVALID, LS_JOB_INVALID),
       (Some LS_JOB_LEASED, EK_JOB_RETRYABLE_FAILED, LS_JOB_RETRYABLE_FAILED),
       (Some LS_JOB_LEASED, EK_JOB_STALE, LS_JOB_STALE),
       (Some LS_JOB_LEASED, EK_JOB_PERMANENT_FAILED, LS_JOB_PERMANENT_FAILED),
       (Some LS_JOB_RETRYABLE_FAILED, EK_JOB_REQUEUED, LS_JOB_QUEUED)}"
  by (auto simp: is_edge_def split: if_splits)

definition waiting :: "lifecycle_status option \<Rightarrow> nat" where
  "waiting s = (if s = Some LS_JOB_QUEUED \<or> s = Some LS_JOB_CANCELLED then 1 else 0)"

definition owed_requeue :: "lifecycle_status option \<Rightarrow> nat" where
  "owed_requeue s = (if s = Some LS_JOB_RETRYABLE_FAILED then 1 else 0)"

lemma job_stream_counts:
  "replay AK_JOB es = Inr s \<Longrightarrow>
     count_list es EK_JOB_QUEUED + count_list es EK_JOB_REQUEUED = count_list es EK_JOB_LEASED + waiting s
     \<and> count_list es EK_JOB_RETRYABLE_FAILED = count_list es EK_JOB_REQUEUED + owed_requeue s
     \<and> count_list es EK_JOB_QUEUED = (if s = None then 0 else 1)"
proof (induction es arbitrary: s rule: rev_induct)
  case Nil
  then show ?case by (simp add: replay_def waiting_def owed_requeue_def)
next
  case (snoc e es)
  from snoc.prems obtain s' t where s': "replay AK_JOB es = Inr s'" and
    e: "is_edge AK_JOB s' e t" and s: "s = Some t"
    by (auto simp: replay_snoc)
  from e snoc.IH [OF s'] show ?case
    by (auto simp: s job_edges waiting_def owed_requeue_def)
qed

text \<open>Queueing and leasing alternate: in every legal job stream the job is queued once, each
  requeue answers one retryable failure, and the number of leases is the number of queueings,
  less one exactly while the job waits in the queue or was cancelled there.\<close>

theorem job_leases_follow_queueing:
  assumes "replay AK_JOB es = Inr (Some s)"
  shows "count_list es EK_JOB_QUEUED = 1
    \<and> count_list es EK_JOB_REQUEUED \<le> count_list es EK_JOB_RETRYABLE_FAILED
    \<and> count_list es EK_JOB_LEASED + (if s \<in> {LS_JOB_QUEUED, LS_JOB_CANCELLED} then 1 else 0)
        = 1 + count_list es EK_JOB_REQUEUED"
  using job_stream_counts [OF assms] by (auto simp: waiting_def split: if_splits)

theorem job_leases_follow_queueing_witness:
  "replay AK_JOB [EK_JOB_QUEUED, EK_JOB_LEASED, EK_JOB_RETRYABLE_FAILED, EK_JOB_REQUEUED]
      = Inr (Some LS_JOB_QUEUED)
   \<and> count_list [EK_JOB_QUEUED, EK_JOB_LEASED, EK_JOB_RETRYABLE_FAILED, EK_JOB_REQUEUED] EK_JOB_QUEUED = 1"
proof -
  have h: "replay AK_JOB [EK_JOB_QUEUED, EK_JOB_LEASED, EK_JOB_RETRYABLE_FAILED, EK_JOB_REQUEUED]
      = Inr (Some LS_JOB_QUEUED)" by code_simp
  show ?thesis using h job_leases_follow_queueing [OF h] by blast
qed

subsection \<open>The two tables and the genesis event\<close>

lemma edges_distinct: "edges k = Some es \<Longrightarrow> distinct (map fst es)"
  by (cases k) auto

lemma is_edge_mem: "is_edge k s e t \<longleftrightarrow> (\<exists>es. edges k = Some es \<and> ((s, e), t) \<in> set es)"
  by (auto simp: is_edge_def edges_distinct split: option.splits)

text \<open>The statuses that some event of some machine leads to.\<close>

definition machine_moves :: "lifecycle_status \<Rightarrow> lifecycle_status list" where
  "machine_moves s =
     concat (map (\<lambda>k. case edges k of None \<Rightarrow> []
       | Some es \<Rightarrow> map snd (filter (\<lambda>p. fst (fst p) = Some s) es)) aggregate_kinds)"

lemma machine_moves_iff: "t \<in> set (machine_moves s) \<longleftrightarrow> (\<exists>k e. is_edge k (Some s) e t)"
proof -
  have "t \<in> set (machine_moves s) \<longleftrightarrow>
      (\<exists>k es. k \<in> set aggregate_kinds \<and> edges k = Some es \<and> (\<exists>e. ((Some s, e), t) \<in> set es))"
    by (force simp: machine_moves_def split: option.splits)
  then show ?thesis by (auto simp: is_edge_mem aggregate_kinds_complete)
qed

lemma machine_moves_table:
  "set (machine_moves s) =
     set (lifecycle_transitions s @ (if s \<in> {LS_ROUND_FROZEN, LS_FIELD_PREPARED} then [s] else []))"
  by (cases s) (simp_all add: machine_moves_def aggregate_kinds_def insert_commute)

text \<open>C37. The event-driven machine and the status table of \<open>contracts/statuses.py\<close> describe the
  same moves: a status can follow another under some event of its machine exactly when the
  status table lists it, except for two self-loops (a frozen round frozen again, a prepared field
  regenerated) that only the machine has.\<close>

theorem machine_agrees_with_status_table:
  "(\<exists>k e. transition k (Some s) e = Inr t) \<longleftrightarrow>
     t \<in> set (lifecycle_transitions s) \<or> (t = s \<and> s \<in> {LS_ROUND_FROZEN, LS_FIELD_PREPARED})"
proof -
  have "(\<exists>k e. transition k (Some s) e = Inr t) \<longleftrightarrow> t \<in> set (machine_moves s)"
    by (simp add: machine_moves_iff transition_iff_edge)
  then show ?thesis unfolding machine_moves_table by auto
qed

text \<open>The events that open a stream of a kind.\<close>

definition genesis :: "aggregate_kind \<Rightarrow> event_kind list" where
  "genesis k = (case edges k of None \<Rightarrow> [] | Some es \<Rightarrow> [e. ((s, e), t) \<leftarrow> es, s = None])"

lemma genesis_iff: "is_ok (transition k None e) \<longleftrightarrow> e \<in> set (genesis k)"
proof -
  have "e \<in> set (genesis k) \<longleftrightarrow> (\<exists>es. edges k = Some es \<and> (\<exists>t. ((None, e), t) \<in> set es))"
    by (cases "edges k") (force simp: genesis_def)+
  then show ?thesis by (auto simp: transition_ok_iff is_edge_mem)
qed

lemma genesis_distinct: "distinct (genesis k)"
  by (cases k) (simp_all add: genesis_def)

lemma initial_event_genesis: "initial_event k = Inr e \<longleftrightarrow> genesis k = [e]"
proof (cases "edges k")
  case None
  then show ?thesis by (simp add: initial_event_def machine_def genesis_def)
next
  case (Some es)
  then have "initial_event k = (case genesis k of [e] \<Rightarrow> Inr e
     | _ \<Rightarrow> Inl (ContractError ''aggregate state machine must define exactly one initial event''))"
    by (simp only: initial_event_def machine_def genesis_def of_option_simps bind_res.simps option.case)
  then show ?thesis by (auto split: list.splits)
qed

lemma genesis_length: "length (genesis k) = 1 \<longleftrightarrow> k \<notin> {AK_FORECAST, AK_WEIGHTS, AK_SYSTEM}"
  by (cases k) (simp_all add: genesis_def)

lemma distinct_singleton_iff: "distinct xs \<Longrightarrow> xs = [x] \<longleftrightarrow> (\<forall>y. y \<in> set xs \<longleftrightarrow> y = x)"
  by (cases xs) (auto, metis list.set_intros(1) neq_Nil_conv)

text \<open>\<open>initial_event\<close> returns an event exactly when it is the only event that can open a
  stream of that kind; for forecasts and weights several events can, and the function raises
  although the machine accepts them.\<close>

theorem initial_event_is_sole_genesis:
  "(initial_event k = Inr e \<longleftrightarrow> (\<forall>e'. is_ok (transition k None e') \<longleftrightarrow> e' = e))
   \<and> ((\<exists>e0. initial_event k = Inr e0) \<longleftrightarrow> k \<notin> {AK_FORECAST, AK_WEIGHTS, AK_SYSTEM})"
proof
  show "initial_event k = Inr e \<longleftrightarrow> (\<forall>e'. is_ok (transition k None e') \<longleftrightarrow> e' = e)"
    by (simp add: initial_event_genesis genesis_iff distinct_singleton_iff genesis_distinct)
  have "(\<exists>e0. genesis k = [e0]) \<longleftrightarrow> length (genesis k) = 1"
    by (auto simp: length_Suc_conv)
  then show "(\<exists>e0. initial_event k = Inr e0) \<longleftrightarrow> k \<notin> {AK_FORECAST, AK_WEIGHTS, AK_SYSTEM}"
    by (simp only: initial_event_genesis genesis_length)
qed

subsection \<open>Which statuses a kind accepts\<close>

text \<open>A status is owned by a kind when some edge of its machine leads to it. Every owned status is
  reached by some stream of events, because the tables are written in order: an edge starts where the
  stream does or where an earlier edge ended.\<close>

definition owns :: "aggregate_kind \<Rightarrow> lifecycle_status \<Rightarrow> bool" where
  "owns k s \<longleftrightarrow> (case edges k of None \<Rightarrow> False | Some es \<Rightarrow> s \<in> set (map snd es))"

fun in_order :: "lifecycle_status option list \<Rightarrow> ((lifecycle_status option \<times> event_kind) \<times> lifecycle_status) list \<Rightarrow> bool" where
  "in_order ss [] \<longleftrightarrow> True"
| "in_order ss (((s, e), t) # es) \<longleftrightarrow> s \<in> set ss \<and> in_order (Some t # ss) es"

lemma in_order_replayed:
  "in_order ss es \<Longrightarrow> \<forall>s \<in> set ss. \<exists>xs. replay k xs = Inr s \<Longrightarrow> \<forall>((s, e), t) \<in> set es. is_edge k s e t
     \<Longrightarrow> t \<in> set (map snd es) \<Longrightarrow> \<exists>xs. replay k xs = Inr (Some t)"
proof (induction ss es rule: in_order.induct)
  case (2 ss s e t' es)
  then obtain xs where "replay k xs = Inr s" "is_edge k s e t'" by auto
  then have t': "\<exists>xs. replay k xs = Inr (Some t')" using replay_snoc by blast
  with 2 show ?case by auto
qed simp

lemma edges_in_order: "edges k = Some es \<Longrightarrow> in_order [None] es"
  by (cases k) auto

lemma owns_iff_replayed: "owns k s \<longleftrightarrow> (\<exists>es. replay k es = Inr (Some s))"
proof
  assume o: "owns k s"
  then obtain tab where e: "edges k = Some tab" "s \<in> set (map snd tab)" by (auto simp: owns_def split: option.splits)
  have "\<exists>es. replay k es = Inr None" by (rule exI [of _ "[]"]) (simp add: replay_def)
  then show "\<exists>es. replay k es = Inr (Some s)"
    using in_order_replayed [OF edges_in_order [OF e(1)] _ _ e(2), of k] e(1) by (auto simp: is_edge_mem)
next
  assume "\<exists>es. replay k es = Inr (Some s)"
  then obtain es where r: "replay k es = Inr (Some s)" by blast
  then show "owns k s"
  proof (cases es rule: rev_cases)
    case (snoc xs e)
    then show ?thesis using r by (force simp: replay_snoc is_edge_mem owns_def)
  qed (simp add: replay_def)
qed

lemma status_belongs_iff:
  "status_belongs (aggregate_kind_value k) s \<longleftrightarrow> owns k s
     \<or> (k, s) \<in> {(AK_TOURNAMENT, LS_TOURNAMENT_INGRESS_CURRENT), (AK_ROUND, LS_ROUND_INGRESS_CURRENT),
                 (AK_FIELD, LS_FIELD_INGRESS_CURRENT)}"
  by (cases s; cases k) (simp_all add: status_belongs_def owns_def)

lemma lifecycle_kind_named: "\<exists>k'. aggregate_kind_value k' = lifecycle_aggregate_kind_value k"
  by (cases k; simp; (metis aggregate_kind_value.simps)?)

lemma mk_aggregate_lifecycle_Inr:
  "mk_aggregate_lifecycle k s = Inr a \<longleftrightarrow> a = \<lparr>al_kind = k, al_status = s\<rparr> \<and> status_belongs (lifecycle_aggregate_kind_value k) s"
  by (auto simp: mk_aggregate_lifecycle_def)

lemma mk_aggregate_lifecycle_ok:
  "is_ok (mk_aggregate_lifecycle k s) \<longleftrightarrow> status_belongs (lifecycle_aggregate_kind_value k) s"
  by (simp add: mk_aggregate_lifecycle_def)

lemma wide_kinds:
  assumes "aggregate_kind_value k' = lifecycle_aggregate_kind_value k"
  shows "k' = AK_TOURNAMENT \<longleftrightarrow> k = LAK_TOURNAMENT" "k' = AK_ROUND \<longleftrightarrow> k = LAK_ROUND" "k' = AK_FIELD \<longleftrightarrow> k = LAK_FIELD"
  using assms by (cases k; cases k'; simp)+

lemma aggregate_lifecycle_accepts:
  "is_ok (mk_aggregate_lifecycle k s) \<longleftrightarrow>
     (\<exists>k' es. aggregate_kind_value k' = lifecycle_aggregate_kind_value k \<and> replay k' es = Inr (Some s))
     \<or> (k, s) \<in> {(LAK_TOURNAMENT, LS_TOURNAMENT_INGRESS_CURRENT), (LAK_ROUND, LS_ROUND_INGRESS_CURRENT),
                 (LAK_FIELD, LS_FIELD_INGRESS_CURRENT)}"
proof -
  obtain k' where k: "aggregate_kind_value k' = lifecycle_aggregate_kind_value k" using lifecycle_kind_named by blast
  then have "\<And>k2. aggregate_kind_value k2 = lifecycle_aggregate_kind_value k \<longleftrightarrow> k2 = k'"
    by (metis aggregate_kind_value_inj)
  then show ?thesis
    unfolding mk_aggregate_lifecycle_ok k [symmetric] status_belongs_iff
    using wide_kinds [OF k] by (auto simp: owns_iff_replayed)
qed

text \<open>A move of the status table never leaves the statuses of its kind.\<close>

lemma moves_belong:
  "t \<in> set (lifecycle_transitions s) \<Longrightarrow> status_belongs (lifecycle_aggregate_kind_value k) s
     \<Longrightarrow> status_belongs (lifecycle_aggregate_kind_value k) t"
  by (cases s; cases k) (auto simp: status_belongs_def)

lemma aggregate_lifecycle_read:
  "aggregate_lifecycle_from_dict (aggregate_lifecycle_to_dict a) = mk_aggregate_lifecycle (al_kind a) (al_status a)"
  by (simp add: aggregate_lifecycle_from_dict_def aggregate_lifecycle_to_dict_def require_fields_def require_schema_def
      insert_commute)

text \<open>C39. The status of an aggregate is checked against its kind by name prefix, and the check is wider than
  the lifecycle: the constructor accepts exactly the statuses that some stream of events of the kind
  ends in, and three ingress statuses besides, as statuses of the tournament, the round and the field
  whose names their own names extend. What it accepts is exactly what is read back from its
  dictionary, and from an accepted status exactly the moves of the status table succeed.\<close>

theorem status_prefix_test_exact:
  "(is_ok (mk_aggregate_lifecycle k s) \<longleftrightarrow>
      (\<exists>k' es. aggregate_kind_value k' = lifecycle_aggregate_kind_value k \<and> replay k' es = Inr (Some s))
      \<or> (k, s) \<in> {(LAK_TOURNAMENT, LS_TOURNAMENT_INGRESS_CURRENT), (LAK_ROUND, LS_ROUND_INGRESS_CURRENT),
                  (LAK_FIELD, LS_FIELD_INGRESS_CURRENT)})
   \<and> (aggregate_lifecycle_from_dict (aggregate_lifecycle_to_dict \<lparr>al_kind = k, al_status = s\<rparr>)
        = Inr \<lparr>al_kind = k, al_status = s\<rparr> \<longleftrightarrow> is_ok (mk_aggregate_lifecycle k s))
   \<and> (is_ok (mk_aggregate_lifecycle k s) \<and> transition_to \<lparr>al_kind = k, al_status = s\<rparr> t = Inr \<lparr>al_kind = k, al_status = t\<rparr>
        \<longleftrightarrow> is_ok (mk_aggregate_lifecycle k s) \<and> t \<in> set (lifecycle_transitions s))"
proof (intro conjI)
  show "is_ok (mk_aggregate_lifecycle k s) \<longleftrightarrow>
      (\<exists>k' es. aggregate_kind_value k' = lifecycle_aggregate_kind_value k \<and> replay k' es = Inr (Some s))
      \<or> (k, s) \<in> {(LAK_TOURNAMENT, LS_TOURNAMENT_INGRESS_CURRENT), (LAK_ROUND, LS_ROUND_INGRESS_CURRENT),
                  (LAK_FIELD, LS_FIELD_INGRESS_CURRENT)}"
    by (rule aggregate_lifecycle_accepts)
  show "aggregate_lifecycle_from_dict (aggregate_lifecycle_to_dict \<lparr>al_kind = k, al_status = s\<rparr>)
        = Inr \<lparr>al_kind = k, al_status = s\<rparr> \<longleftrightarrow> is_ok (mk_aggregate_lifecycle k s)"
    by (simp add: aggregate_lifecycle_read mk_aggregate_lifecycle_Inr mk_aggregate_lifecycle_ok)
  show "is_ok (mk_aggregate_lifecycle k s) \<and> transition_to \<lparr>al_kind = k, al_status = s\<rparr> t = Inr \<lparr>al_kind = k, al_status = t\<rparr>
        \<longleftrightarrow> is_ok (mk_aggregate_lifecycle k s) \<and> t \<in> set (lifecycle_transitions s)"
    using moves_belong [of t s k] by (auto simp: transition_to_def mk_aggregate_lifecycle_Inr mk_aggregate_lifecycle_ok)
qed

end
