(* ===== verification/Event_Db.thy ===== *)
theory Event_Db
  imports Events Lifecycle
begin

section \<open>The tables of the event authority (migrations 0001, 0012, 0013, 0015, 0019)\<close>

text \<open>
  One record per table row and one record for the database. A table is the list of its rows in
  insertion order; a column that may be NULL is an option. \<open>insert_event\<close> and
  \<open>insert_idempotency\<close> carry the constraints the schema declares (keys, uniqueness and CHECKs);
  a violated constraint is SQLite's \<open>IntegrityError\<close>. The rows of the import table and of the
  rolling restart checkpoints are read by this component only for their identity or existence.
\<close>

datatype store_error =
    StoreError string
  | StoreConflict string
  | StoreIntegrity string
  | RollingIntegrity string
  | AuthorityError string
  | StoreContract v3_error
  | StoreKey string
  | StoreValue string

record event_row =
  ev_sequence :: int
  ev_id :: string
  ev_aggregate_kind :: string
  ev_aggregate_id :: string
  ev_version :: int
  ev_kind :: string
  ev_json :: string
  ev_digest :: string
  ev_prior_global :: string
  ev_prior_aggregate :: string
  ev_occurred :: string
  ev_command_id :: string
  ev_import :: "string option"
  ev_training :: int

record head_row =
  hr_kind :: string
  hr_id :: string
  hr_version :: int
  hr_digest :: string
  hr_status :: "string option"
  hr_head_digest :: "string option"

record idempotency_row =
  ir_principal :: string
  ir_key :: string
  ir_command_digest :: string
  ir_schema :: string
  ir_result_json :: string
  ir_result_digest :: string
  ir_first :: int
  ir_last :: int
  ir_event_set :: string
  ir_created :: string

record checkpoint_row =
  ck_sequence :: int
  ck_digest :: string
  ck_heads :: int
  ck_verified_at :: string
  ck_own_digest :: string

record cursor_row =
  cu_revision :: int
  cu_sequence :: int
  cu_digest :: string
  cu_relevant :: int
  cu_reaction :: string
  cu_own_digest :: string
  cu_updated :: string

record obligation_row =
  ob_reaction :: string
  ob_command :: string
  ob_first :: int
  ob_last :: int
  ob_events :: string
  ob_event_set :: string
  ob_registered :: string

record binding_row =
  bi_key :: string
  bi_principal :: string
  bi_operation :: string
  bi_digest :: string
  bi_created :: string

record db =
  db_events :: "event_row list"
  db_heads :: "head_row list"
  db_idempotency :: "idempotency_row list"
  db_hotpath :: bool
  db_checkpoint :: "checkpoint_row option"
  db_cursor :: "cursor_row option"
  db_obligations :: "obligation_row list"
  db_restarts :: bool
  db_imports :: "string list"
  db_bindings :: "binding_row list"

subsection \<open>Constraints\<close>

definition integrity_conflict :: store_error where
  "integrity_conflict = StoreConflict ''event command conflicted with concurrent authority''"

definition insert_event :: "db \<Rightarrow> event_row \<Rightarrow> store_error + db" where
  "insert_event d r = map_res (\<lambda>_. d\<lparr>db_events := db_events d @ [r]\<rparr>) (guards
     [(ev_sequence r \<le> 0, integrity_conflict),
      (ev_sequence r \<in> set (map ev_sequence (db_events d)), integrity_conflict),
      (ev_id r \<in> set (map ev_id (db_events d)), integrity_conflict),
      (ev_version r \<le> 0, integrity_conflict),
      (1048576 < length (utf8 (ev_json r)), integrity_conflict),
      (ev_digest r \<in> set (map ev_digest (db_events d)) \<or> length (ev_digest r) \<noteq> 64, integrity_conflict),
      (length (ev_prior_global r) \<noteq> 64 \<or> length (ev_prior_aggregate r) \<noteq> 64, integrity_conflict),
      (ev_training r \<notin> {0, 1}, integrity_conflict),
      ((ev_aggregate_kind r, ev_aggregate_id r, ev_version r)
         \<in> set (map (\<lambda>q. (ev_aggregate_kind q, ev_aggregate_id q, ev_version q)) (db_events d)), integrity_conflict)])"

definition insert_idempotency :: "db \<Rightarrow> idempotency_row \<Rightarrow> store_error + db" where
  "insert_idempotency d r = map_res (\<lambda>_. d\<lparr>db_idempotency := db_idempotency d @ [r]\<rparr>) (guards
     [((ir_principal r, ir_key r) \<in> set (map (\<lambda>q. (ir_principal q, ir_key q)) (db_idempotency d)), integrity_conflict),
      (length (ir_command_digest r) \<noteq> 64 \<or> length (ir_result_digest r) \<noteq> 64 \<or> length (ir_event_set r) \<noteq> 64,
       integrity_conflict),
      (1048576 < length (utf8 (ir_result_json r)), integrity_conflict),
      (ir_last r < ir_first r, integrity_conflict),
      (ir_first r \<notin> set (map ev_sequence (db_events d)) \<or> ir_last r \<notin> set (map ev_sequence (db_events d)),
       integrity_conflict)])"

subsection \<open>Queries\<close>

text \<open>\<open>ORDER BY global_sequence\<close>, the last of them, and one event by its sequence.\<close>

definition events_in_order :: "db \<Rightarrow> event_row list" where
  "events_in_order d = sort_key ev_sequence (db_events d)"

definition last_event :: "db \<Rightarrow> event_row option" where
  "last_event d = (case events_in_order d of [] \<Rightarrow> None | rs \<Rightarrow> Some (last rs))"

definition event_numbered :: "db \<Rightarrow> int \<Rightarrow> event_row option" where
  "event_numbered d n = find (\<lambda>r. ev_sequence r = n) (db_events d)"

definition stream_rows :: "db \<Rightarrow> string \<Rightarrow> string \<Rightarrow> event_row list" where
  "stream_rows d k i = sort_key ev_version (filter (\<lambda>r. ev_aggregate_kind r = k \<and> ev_aggregate_id r = i) (db_events d))"

definition head_of :: "db \<Rightarrow> string \<Rightarrow> string \<Rightarrow> head_row option" where
  "head_of d k i = find (\<lambda>h. hr_kind h = k \<and> hr_id h = i) (db_heads d)"

text \<open>\<open>(sequence, digest)\<close> of the tip; the empty store has tip \<open>(0, ZERO_DIGEST)\<close>.\<close>

definition tip_of :: "db \<Rightarrow> int \<times> string" where
  "tip_of d = (case last_event d of None \<Rightarrow> (0, zero_digest) | Some r \<Rightarrow> (ev_sequence r, ev_digest r))"

lemma insert_event_Inr:
  "insert_event d r = Inr d' \<Longrightarrow> d' = d\<lparr>db_events := db_events d @ [r]\<rparr> \<and> ev_id r \<notin> set (map ev_id (db_events d))
     \<and> ev_digest r \<notin> set (map ev_digest (db_events d))"
  by (auto simp: insert_event_def map_res_Inr guards_Inr simp del: guards.simps)

lemma insert_idempotency_Inr:
  "insert_idempotency d r = Inr d' \<Longrightarrow> d' = d\<lparr>db_idempotency := db_idempotency d @ [r]\<rparr>
     \<and> (ir_principal r, ir_key r) \<notin> set (map (\<lambda>q. (ir_principal q, ir_key q)) (db_idempotency d))"
  by (auto simp: insert_idempotency_def map_res_Inr guards_Inr simp del: guards.simps)

end
