(* ===== verification/Rolling_Cursor.thy ===== *)
theory Rolling_Cursor
  imports Event_Db
begin

section \<open>The rolling reaction cursor (infrastructure/sqlite/rolling_restart.py)\<close>

text \<open>
  Every writer of events moves one cursor row to the new tip in the same transaction and, when a
  command touches the evidence that rolling forecasts depend on, registers one obligation. The
  cursor row carries an own digest; it must stand at the tip before an append.
\<close>

definition rolling_reaction_events :: "event_kind list" where
  "rolling_reaction_events = [EK_FIELD_ROSTER_REVISED, EK_FIELD_SUPERSEDED, EK_RESULT_RECORDED, EK_RESULT_SUPERSEDED,
     EK_ROUND_EPOCH_FROZEN, EK_ROUND_CLOSED, EK_TOURNAMENT_CLOSED]"

definition event_ref :: "event_envelope \<Rightarrow> py" where
  "event_ref e = obj [(''event_id'', PStr (ee_event_id e)), (''event_digest'', PStr (ee_event_digest e)),
     (''global_sequence'', PInt (ee_global_sequence e))]"

definition event_refs :: "event_envelope list \<Rightarrow> py" where
  "event_refs es = PSeq (map event_ref es)"

text \<open>The seven checked columns of the cursor as the digested mapping.\<close>

definition cursor_value :: "int \<Rightarrow> int \<Rightarrow> string \<Rightarrow> int \<Rightarrow> string \<Rightarrow> string \<Rightarrow> py" where
  "cursor_value rv thr dg cnt rid upd = obj
     [(''schema_version'', PStr ''strathmark-v3-rolling-reaction-cursor-v1''),
      (''cursor_revision'', PInt rv),
      (''through_global_sequence'', PInt thr),
      (''through_event_digest'', PStr dg),
      (''relevant_command_count'', PInt cnt),
      (''latest_reaction_id'', PStr rid),
      (''updated_at'', PStr upd)]"

definition cursor_row_value :: "cursor_row \<Rightarrow> py" where
  "cursor_row_value c = cursor_value (cu_revision c) (cu_sequence c) (cu_digest c) (cu_relevant c) (cu_reaction c) (cu_updated c)"

definition cursor_intact :: "cursor_row \<Rightarrow> bool" where
  "cursor_intact c \<longleftrightarrow> canonical_digest (cursor_row_value c) = Inr (cu_own_digest c)"

definition as_contract :: "v3_error + 'a \<Rightarrow> store_error + 'a" where
  "as_contract m = map_err StoreContract m"

lemma as_contract_Inr [result_simps]: "as_contract m = Inr x \<longleftrightarrow> m = Inr x"
  by (simp add: as_contract_def map_err_Inr)

text \<open>\<open>rolling_reaction_identity\<close>.\<close>

definition reaction_event_set :: "event_envelope list \<Rightarrow> py" where
  "reaction_event_set es = obj [(''schema_version'', PStr ''strathmark-v3-rolling-reaction-event-set-v1''),
     (''events'', event_refs es)]"

definition rolling_reaction_identity :: "event_envelope list \<Rightarrow> store_error + string option" where
  "rolling_reaction_identity es =
     (if es = [] then Inl (RollingIntegrity ''rolling reaction identity requires events'')
      else if list_all (\<lambda>e. ee_kind e \<notin> set rolling_reaction_events) es then Inr None
      else bind_res (as_contract (canonical_digest (reaction_event_set es))) (\<lambda>d.
        map_res Some (as_contract (canonical_digest (obj
          [(''source_command_id'', PStr (ce_command_id (ee_command (hd es)))), (''event_set_digest'', PStr d)])))))"

text \<open>The obligation row a relevant command must have; an existing row must be exactly it.\<close>

definition register_obligation :: "db \<Rightarrow> string \<Rightarrow> event_envelope list \<Rightarrow> store_error + db" where
  "register_obligation d reaction es =
     bind_res (as_contract (canonical_digest (reaction_event_set es))) (\<lambda>set_digest.
     bind_res (as_contract (canonical_text (event_refs es))) (\<lambda>refs.
     let material = \<lparr>ob_reaction = reaction, ob_command = ce_command_id (ee_command (hd es)),
           ob_first = ee_global_sequence (hd es), ob_last = ee_global_sequence (last es), ob_events = refs,
           ob_event_set = set_digest, ob_registered = ee_occurred_at_utc (last es)\<rparr> in
     case find (\<lambda>r. ob_reaction r = reaction) (db_obligations d) of
       None \<Rightarrow> Inr (d\<lparr>db_obligations := db_obligations d @ [material]\<rparr>)
     | Some r \<Rightarrow> if r = material then Inr d
                 else Inl (RollingIntegrity ''rolling reaction cursor has a conflicting obligation'')))"

text \<open>\<open>advance_rolling_reaction_cursor\<close>.\<close>

definition advance_rolling_reaction_cursor :: "db \<Rightarrow> event_envelope list \<Rightarrow> store_error + db" where
  "advance_rolling_reaction_cursor d es =
     bind_res (guards [(es = [], RollingIntegrity ''rolling reaction cursor requires events'')]) (\<lambda>_.
     bind_res (rolling_reaction_identity es) (\<lambda>reaction.
     bind_res (case reaction of None \<Rightarrow> Inr d | Some i \<Rightarrow> register_obligation d i es) (\<lambda>d1.
     bind_res (of_option (RollingIntegrity ''rolling reaction cursor is missing'') (db_cursor d1)) (\<lambda>c.
     bind_res (as_contract (canonical_digest (cursor_row_value c))) (\<lambda>own.
     bind_res (guards
       [(own \<noteq> cu_own_digest c, RollingIntegrity ''rolling reaction cursor digest differs''),
        (ee_global_sequence (hd es) \<noteq> cu_sequence c + 1, RollingIntegrity ''rolling reaction cursor has a sequence gap'')]) (\<lambda>_.
     let c' = c\<lparr>cu_revision := cu_revision c + 1, cu_sequence := ee_global_sequence (last es),
           cu_digest := ee_event_digest (last es),
           cu_relevant := cu_relevant c + (if reaction = None then 0 else 1),
           cu_reaction := (case reaction of None \<Rightarrow> cu_reaction c | Some i \<Rightarrow> i),
           cu_updated := ee_occurred_at_utc (last es)\<rparr> in
     bind_res (as_contract (canonical_digest (cursor_row_value c'))) (\<lambda>own'.
     Inr (d1\<lparr>db_cursor := Some (c'\<lparr>cu_own_digest := own'\<rparr>)\<rparr>))))))))"

text \<open>\<open>reset_rolling_reaction_cursor\<close>: the genesis row.\<close>

definition genesis_cursor_value :: py where
  "genesis_cursor_value = cursor_value 0 0 zero_digest 0 zero_digest ''1970-01-01T00:00:00.000Z''"

definition reset_rolling_reaction_cursor :: "db \<Rightarrow> store_error + db" where
  "reset_rolling_reaction_cursor d =
     (case db_cursor d of
        None \<Rightarrow> Inl (RollingIntegrity ''rolling reaction cursor reset failed'')
      | Some c \<Rightarrow> bind_res (as_contract (canonical_digest genesis_cursor_value)) (\<lambda>own.
          Inr (d\<lparr>db_cursor := Some \<lparr>cu_revision = 0, cu_sequence = 0, cu_digest = zero_digest, cu_relevant = 0,
             cu_reaction = zero_digest, cu_own_digest = own, cu_updated = ''1970-01-01T00:00:00.000Z''\<rparr>\<rparr>)))"

text \<open>\<open>require_rolling_reaction_cursor_at_event_head\<close>.\<close>

definition require_cursor_at_head :: "db \<Rightarrow> store_error + unit" where
  "require_cursor_at_head d =
     bind_res (of_option (RollingIntegrity ''rolling reaction cursor is missing'') (db_cursor d)) (\<lambda>c.
     bind_res (as_contract (canonical_digest (cursor_row_value c))) (\<lambda>own.
     guards
       [(own \<noteq> cu_own_digest c, RollingIntegrity ''rolling reaction cursor digest differs''),
        ((cu_sequence c, cu_digest c) \<noteq> tip_of d \<and> 0 < fst (tip_of d) \<and> \<not> db_restarts d
           \<and> cursor_row_value c = genesis_cursor_value, RollingIntegrity ''rolling reaction cursor cutover is required''),
        ((cu_sequence c, cu_digest c) \<noteq> tip_of d, RollingIntegrity ''rolling reaction cursor differs from the event head'')]))"

subsection \<open>The cursor follows the tip\<close>

definition cursor_at_tip :: "db \<Rightarrow> bool" where
  "cursor_at_tip d \<longleftrightarrow> (case db_cursor d of None \<Rightarrow> False
     | Some c \<Rightarrow> cursor_intact c \<and> (cu_sequence c, cu_digest c) = tip_of d)"

lemma require_cursor_at_head_iff: "require_cursor_at_head d = Inr u \<longleftrightarrow> cursor_at_tip d"
  by (auto simp: require_cursor_at_head_def cursor_at_tip_def cursor_intact_def bind_res_Inr of_option_Inr
      as_contract_Inr split: option.splits)

lemma register_obligation_frame:
  assumes "register_obligation d i es = Inr d'"
  shows "db_events d' = db_events d \<and> db_heads d' = db_heads d \<and> db_idempotency d' = db_idempotency d
    \<and> db_hotpath d' = db_hotpath d \<and> db_checkpoint d' = db_checkpoint d \<and> db_cursor d' = db_cursor d
    \<and> db_imports d' = db_imports d \<and> db_bindings d' = db_bindings d"
  using assms by (auto simp: register_obligation_def bind_res_Inr Let_def split: option.splits if_splits)

lemma advance_cursor_frame:
  assumes "advance_rolling_reaction_cursor d es = Inr d'"
  shows "db_events d' = db_events d \<and> db_heads d' = db_heads d \<and> db_idempotency d' = db_idempotency d
    \<and> db_hotpath d' = db_hotpath d \<and> db_checkpoint d' = db_checkpoint d
    \<and> db_imports d' = db_imports d \<and> db_bindings d' = db_bindings d"
  using assms
  by (auto simp: advance_rolling_reaction_cursor_def bind_res_Inr Let_def split: option.splits
      dest!: register_obligation_frame)

lemma advance_cursor_moves:
  assumes "advance_rolling_reaction_cursor d es = Inr d'"
  shows "\<exists>c. db_cursor d' = Some c \<and> cursor_intact c \<and> cu_sequence c = ee_global_sequence (last es)
    \<and> cu_digest c = ee_event_digest (last es)"
  using assms
  by (auto simp: advance_rolling_reaction_cursor_def bind_res_Inr Let_def cursor_intact_def cursor_row_value_def
      as_contract_Inr split: option.splits)

end
