(* ===== verification/Event_Verify.thy ===== *)
theory Event_Verify
  imports Rolling_Cursor
begin

section \<open>Replaying the event authority (infrastructure/sqlite/event_store.py, verification)\<close>

text \<open>
  The read side of \<open>SQLiteEventStore\<close>: every stored row is decoded, compared with its columns
  and chained to its predecessors, globally and in its aggregate's stream; heads, idempotency
  records and imports must reconcile with the replayed events. \<open>store_env\<close> holds what surrounds a
  store: the trusted anchor, the mode, and the independently witnessed authority, whose two calls
  are parameters.
\<close>

record anchor =
  an_sequence :: int
  an_digest :: string

text \<open>\<open>AuthorityAnchor.__post_init__\<close>.\<close>

definition mk_anchor :: "py \<Rightarrow> py \<Rightarrow> store_error + anchor" where
  "mk_anchor n d =
     bind_res (case n of PInt i \<Rightarrow> if i < 0 then Inl (StoreError ''anchor global_sequence must be a non-negative integer'') else Inr i
                 | _ \<Rightarrow> Inl (StoreError ''anchor global_sequence must be a non-negative integer'')) (\<lambda>i.
     bind_res (case d of PStr s \<Rightarrow> if is_digest s then Inr s else Inl (StoreError ''anchor event_digest must be a lower-case SHA-256 digest'')
                 | _ \<Rightarrow> Inl (StoreError ''anchor event_digest must be a lower-case SHA-256 digest'')) (\<lambda>s.
     bind_res (guards
       [(i = 0 \<and> s \<noteq> zero_digest, StoreError ''an empty authority anchor must use the zero digest''),
        (0 < i \<and> s = zero_digest, StoreError ''a nonempty authority anchor cannot use the zero digest'')]) (\<lambda>_.
     Inr \<lparr>an_sequence = i, an_digest = s\<rparr>)))"

record authority =
  au_verify :: "db \<Rightarrow> store_error + unit"
  au_advance :: "db \<Rightarrow> string \<Rightarrow> store_error + unit"

record store_env =
  se_anchor :: "anchor option"
  se_require_current :: bool
  se_rehearsal :: bool
  se_authority :: "authority option"

subsection \<open>Digests over events\<close>

definition event_set_value :: "event_envelope list \<Rightarrow> py" where
  "event_set_value es = obj [(''schema_version'', PStr ''strathmark-v3-event-set-v1''),
     (''events'', PSeq (map (\<lambda>e. obj
        [(''global_sequence'', PInt (ee_global_sequence e)), (''event_id'', PStr (ee_event_id e)),
         (''event_digest'', PStr (ee_event_digest e))]) es))]"

definition event_set_digest :: "event_envelope list \<Rightarrow> v3_error + string" where
  "event_set_digest es = canonical_digest (event_set_value es)"

definition event_identity :: "string \<Rightarrow> string \<Rightarrow> int \<Rightarrow> event_kind \<Rightarrow> py" where
  "event_identity command_digest aid v k = obj [(''command_digest'', PStr command_digest), (''aggregate_id'', PStr aid),
     (''aggregate_version'', PInt v), (''event_kind'', PStr (event_kind_value k))]"

definition command_digest :: "command_envelope \<Rightarrow> v3_error + string" where
  "command_digest c = canonical_digest (command_envelope_to_dict c)"

text \<open>\<open>_expected_event_id\<close>.\<close>

definition expected_event_id :: "event_envelope \<Rightarrow> store_error + string" where
  "expected_event_id e =
     (if ee_kind e = EK_HISTORY_IMPORTED then
        (case ce_payload (ee_command e) of
           Inline p \<Rightarrow> (case fld (inline_to_value p) ''source_tip_digest'' of
               PStr tip \<Rightarrow> if is_digest tip
                 then as_contract (deterministic_identifier ''event''
                   (obj [(''kind'', PStr (event_kind_value EK_HISTORY_IMPORTED)), (''tip'', PStr tip)]))
                 else Inl (StoreIntegrity ''history import manifest has no valid source tip'')
             | _ \<Rightarrow> Inl (StoreIntegrity ''history import manifest has no valid source tip''))
         | _ \<Rightarrow> Inl (StoreIntegrity ''history import event must use an inline manifest''))
      else bind_res (as_contract (command_digest (ee_command e))) (\<lambda>d.
        as_contract (deterministic_identifier ''event''
          (event_identity d (ee_aggregate_id e) (ee_aggregate_version e) (ee_kind e)))))"

definition head_value :: "string \<Rightarrow> string \<Rightarrow> int \<Rightarrow> string \<Rightarrow> lifecycle_status option \<Rightarrow> py" where
  "head_value k i v d st = obj [(''schema_version'', PStr ''strathmark-v3-aggregate-head-v1''),
     (''aggregate_kind'', PStr k), (''aggregate_id'', PStr i), (''aggregate_version'', PInt v), (''event_digest'', PStr d),
     (''lifecycle_status'', case st of None \<Rightarrow> PNone | Some s \<Rightarrow> PStr (lifecycle_status_value s))]"

definition aggregate_head_digest :: "string \<Rightarrow> string \<Rightarrow> int \<Rightarrow> string \<Rightarrow> lifecycle_status option \<Rightarrow> v3_error + string" where
  "aggregate_head_digest k i v d st = canonical_digest (head_value k i v d st)"

definition checkpoint_value :: "int \<Rightarrow> string \<Rightarrow> int \<Rightarrow> string \<Rightarrow> py" where
  "checkpoint_value n d cnt vat = obj [(''schema_version'', PStr ''strathmark-v3-event-authority-checkpoint-v1''),
     (''global_sequence'', PInt n), (''event_digest'', PStr d), (''aggregate_head_count'', PInt cnt),
     (''last_deep_verified_at'', PStr vat)]"

definition authority_checkpoint_digest :: "int \<Rightarrow> string \<Rightarrow> int \<Rightarrow> string \<Rightarrow> v3_error + string" where
  "authority_checkpoint_digest n d cnt vat = canonical_digest (checkpoint_value n d cnt vat)"

text \<open>\<open>_verify_authority_checkpoint_row\<close>.\<close>

definition verify_authority_checkpoint_row :: "checkpoint_row \<Rightarrow> store_error + unit" where
  "verify_authority_checkpoint_row c =
     (case bind_res (require_utc_milliseconds (PStr (ck_verified_at c))) (\<lambda>vat.
             authority_checkpoint_digest (ck_sequence c) (ck_digest c) (ck_heads c) vat) of
        Inl e \<Rightarrow> Inl (StoreIntegrity ''event authority checkpoint is malformed'')
      | Inr expected \<Rightarrow> guards
          [(ck_sequence c < 0 \<or> ck_heads c < 0 \<or> ck_own_digest c \<noteq> expected,
            StoreIntegrity ''event authority checkpoint digest differs'')])"

subsection \<open>Rows and events\<close>

text \<open>What an event is stored as, and what a stored envelope is read back as.\<close>

definition row_of_event :: "event_envelope \<Rightarrow> string \<Rightarrow> event_row" where
  "row_of_event e json = \<lparr>ev_sequence = ee_global_sequence e, ev_id = ee_event_id e,
     ev_aggregate_kind = aggregate_kind_value (ee_aggregate_kind e), ev_aggregate_id = ee_aggregate_id e,
     ev_version = ee_aggregate_version e, ev_kind = event_kind_value (ee_kind e), ev_json = json,
     ev_digest = ee_event_digest e, ev_prior_global = ee_prior_global_digest e,
     ev_prior_aggregate = ee_prior_aggregate_digest e, ev_occurred = ee_occurred_at_utc e,
     ev_command_id = ce_command_id (ee_command e), ev_import = None, ev_training = 0\<rparr>"

definition read_event :: "string \<Rightarrow> store_error + event_envelope" where
  "read_event raw = (case json_loads raw of None \<Rightarrow> Inl (StoreIntegrity ''event envelope is malformed or tampered'')
     | Some v \<Rightarrow> as_contract (event_envelope_from_dict v))"

definition decode_event :: "string \<Rightarrow> store_error + event_envelope" where
  "decode_event raw = (case json_loads raw of
       None \<Rightarrow> Inl (StoreIntegrity ''event envelope is malformed or tampered'')
     | Some v \<Rightarrow> map_err (\<lambda>_. StoreIntegrity ''event envelope is malformed or tampered'')
         (bind_res (event_envelope_from_dict v) (\<lambda>e.
          bind_res (canonical_text v) (\<lambda>t.
          bind_res (guards [(t \<noteq> raw, ContractError ''event envelope bytes are not canonical'')]) (\<lambda>_. Inr e)))))"

text \<open>The state of one stream while its events are replayed: version, last digest, kinds so far.\<close>

type_synonym stream_key = "string \<times> string"
type_synonym stream = "int \<times> string \<times> event_kind list"

definition put :: "'k \<Rightarrow> 'v \<Rightarrow> ('k \<times> 'v) list \<Rightarrow> ('k \<times> 'v) list" where
  "put k v xs = (k, v) # filter (\<lambda>p. fst p \<noteq> k) xs"

definition event_key :: "event_envelope \<Rightarrow> stream_key" where
  "event_key e = (aggregate_kind_value (ee_aggregate_kind e), ee_aggregate_id e)"

definition stream_at :: "(stream_key \<times> stream) list \<Rightarrow> stream_key \<Rightarrow> stream" where
  "stream_at ss k = (case map_of ss k of None \<Rightarrow> (0, zero_digest, []) | Some s \<Rightarrow> s)"

text \<open>The kinds whose streams have a lifecycle; the others may only hold imported history.\<close>

definition lifecycle_kinds :: "aggregate_kind list" where
  "lifecycle_kinds = [AK_TOURNAMENT_INGRESS, AK_ROUND_INGRESS, AK_FIELD_INGRESS, AK_RESULT, AK_SETTLEMENT, AK_EPOCH,
     AK_REACTION, AK_DERIVATION, AK_TOURNAMENT, AK_ROUND, AK_FIELD, AK_JOB, AK_BUNDLE, AK_ISSUE_BATCH, AK_COMPETITOR,
     AK_FORECAST, AK_SCORE, AK_WEIGHTS, AK_APPROVAL_DECISION, AK_AUDIT_GENERATION, AK_MONITORING, AK_SERVICE_CREDENTIAL]"

definition lifecycle_check :: "event_envelope \<Rightarrow> event_kind list \<Rightarrow> store_error + unit" where
  "lifecycle_check e kinds =
     (if ee_aggregate_kind e \<in> set lifecycle_kinds
      then map_err (\<lambda>_. StoreIntegrity ''persisted lifecycle transition is illegal'')
        (bind_res (replay (ee_aggregate_kind e) kinds) (\<lambda>s.
         map_res (\<lambda>_. ()) (transition (ee_aggregate_kind e) s (ee_kind e))))
      else guards [(ee_kind e \<noteq> EK_HISTORY_IMPORTED, StoreIntegrity ''unsupported non-lifecycle aggregate event'')])"

text \<open>One step of \<open>_verify_events\<close>: the row at position \<open>n\<close>, after the digest \<open>prior\<close> and the
  streams \<open>ss\<close>.\<close>

definition verify_row ::
    "int \<Rightarrow> string \<Rightarrow> (stream_key \<times> stream) list \<Rightarrow> event_row \<Rightarrow> store_error + event_envelope" where
  "verify_row n prior ss r =
     bind_res (guards [(ev_sequence r \<noteq> n, StoreIntegrity ''global event sequence has a gap or reorder'')]) (\<lambda>_.
     bind_res (decode_event (ev_json r)) (\<lambda>e.
     bind_res (expected_event_id e) (\<lambda>i.
     bind_res (guards [(ee_event_id e \<noteq> i, StoreIntegrity ''event identity is not the deterministic command identity'')]) (\<lambda>_.
     bind_res (as_contract (canonical_text (event_envelope_to_dict e))) (\<lambda>t.
     bind_res (guards
       [(r\<lparr>ev_import := None, ev_training := 0\<rparr> \<noteq> row_of_event e t, StoreIntegrity ''event columns do not match canonical envelope''),
        (ee_prior_global_digest e \<noteq> prior, StoreIntegrity ''global event digest chain is broken'')]) (\<lambda>_.
     case stream_at ss (event_key e) of (v, d, kinds) \<Rightarrow>
     bind_res (guards [(ee_aggregate_version e \<noteq> v + 1 \<or> ee_prior_aggregate_digest e \<noteq> d,
       StoreIntegrity ''aggregate version or digest chain is broken'')]) (\<lambda>_.
     bind_res (lifecycle_check e kinds) (\<lambda>_.
     bind_res (guards
       [(ev_training r \<notin> {0, 1}, StoreIntegrity ''training eligibility column is invalid''),
        (ee_kind e = EK_HISTORY_IMPORTED \<and> (ev_import r = None \<or> ev_training r \<noteq> 0),
         StoreIntegrity ''history import provenance is missing''),
        (ee_kind e \<noteq> EK_HISTORY_IMPORTED \<and> ev_import r \<noteq> None,
         StoreIntegrity ''ordinary event carries import provenance'')]) (\<lambda>_.
     Inr e)))))))))"

definition extend_streams :: "(stream_key \<times> stream) list \<Rightarrow> event_envelope \<Rightarrow> (stream_key \<times> stream) list" where
  "extend_streams ss e = (case stream_at ss (event_key e) of (v, d, kinds) \<Rightarrow>
     put (event_key e) (ee_aggregate_version e, ee_event_digest e, kinds @ [ee_kind e]) ss)"

fun verify_rows ::
    "int \<Rightarrow> string \<Rightarrow> (stream_key \<times> stream) list \<Rightarrow> event_row list
      \<Rightarrow> store_error + (event_envelope list \<times> (stream_key \<times> stream) list)" where
  "verify_rows n prior ss [] = Inr ([], ss)"
| "verify_rows n prior ss (r # rs) =
     bind_res (verify_row n prior ss r) (\<lambda>e.
     map_res (\<lambda>(es, out). (e # es, out)) (verify_rows (n + 1) (ee_event_digest e) (extend_streams ss e) rs))"

definition verify_events :: "db \<Rightarrow> store_error + (event_envelope list \<times> (stream_key \<times> stream) list)" where
  "verify_events d = verify_rows 1 zero_digest [] (events_in_order d)"

subsection \<open>Heads, results, imports, anchor\<close>

definition same_map :: "('k \<times> 'v) list \<Rightarrow> ('k \<times> 'v) list \<Rightarrow> bool" where
  "same_map xs ys \<longleftrightarrow> list_all (\<lambda>k. map_of xs k = map_of ys k) (map fst xs @ map fst ys)"

definition verify_heads :: "db \<Rightarrow> (stream_key \<times> stream) list \<Rightarrow> store_error + unit" where
  "verify_heads d ss = guards
     [(\<not> same_map (rev (map (\<lambda>h. ((hr_kind h, hr_id h), (hr_version h, hr_digest h))) (db_heads d)))
          (map (\<lambda>(k, (v, dg, _)). (k, (v, dg))) ss),
       StoreIntegrity ''aggregate heads are missing, stale, or incorrect'')]"

record stored_result =
  sr_schema :: string
  sr_text :: string
  sr_digest :: string
  sr_first :: int
  sr_last :: int
  sr_event_set :: string
  sr_event_ids :: "string list"

definition linkage_corrupt :: store_error where
  "linkage_corrupt = StoreIntegrity ''idempotency result or event-set linkage is corrupt''"

definition opt_guard :: "bool \<Rightarrow> unit option" where
  "opt_guard b = (if b then Some () else None)"

definition events_between :: "db \<Rightarrow> int \<Rightarrow> int \<Rightarrow> event_envelope list option" where
  "events_between d a b = those (map (\<lambda>r. case read_event (ev_json r) of Inl _ \<Rightarrow> None | Inr e \<Rightarrow> Some e)
     (filter (\<lambda>r. a \<le> ev_sequence r \<and> ev_sequence r \<le> b) (events_in_order d)))"

text \<open>\<open>_verified_stored_result\<close>: the result row and the events it names, or nothing; every failure is
  the same integrity error.\<close>

definition linked_events :: "db \<Rightarrow> idempotency_row \<Rightarrow> event_envelope list option" where
  "linked_events d r =
     Option.bind (json_loads (ir_result_json r)) (\<lambda>v.
     Option.bind (opt_guard (is_mapping v \<and> canonical_text v = Inr (ir_result_json r))) (\<lambda>_.
     Option.bind (opt_guard (canonical_digest v = Inr (ir_result_digest r) \<and> ir_schema r \<noteq> [])) (\<lambda>_.
     Option.bind (events_between d (ir_first r) (ir_last r)) (\<lambda>es.
     Option.bind (opt_guard (es \<noteq> [] \<and> int (length es) = ir_last r - ir_first r + 1)) (\<lambda>_.
     let c = ee_command (hd es) in
     Option.bind (opt_guard (list_all (\<lambda>e. ee_command e = c) es \<and> ce_command_id c = ir_key r \<and> ce_actor_id c = ir_principal r
        \<and> command_digest c = Inr (ir_command_digest r) \<and> event_set_digest es = Inr (ir_event_set r)
        \<and> utc_ok (ir_created r))) (\<lambda>_. Some es))))))"

definition verified_stored_result :: "db \<Rightarrow> idempotency_row \<Rightarrow> store_error + stored_result" where
  "verified_stored_result d r = (case linked_events d r of
       None \<Rightarrow> Inl linkage_corrupt
     | Some es \<Rightarrow> Inr \<lparr>sr_schema = ir_schema r, sr_text = ir_result_json r, sr_digest = ir_result_digest r, sr_first = ir_first r,
         sr_last = ir_last r, sr_event_set = ir_event_set r, sr_event_ids = map ee_event_id es\<rparr>)"

text \<open>\<open>_verify_idempotency\<close>, per record and over all of them.\<close>

definition event_by_sequence :: "event_envelope list \<Rightarrow> int \<Rightarrow> event_envelope option" where
  "event_by_sequence es n = find (\<lambda>e. ee_global_sequence e = n) es"

definition intent_of_event :: "event_envelope \<Rightarrow> event_intent" where
  "intent_of_event e = \<lparr>ei_aggregate_kind = ee_aggregate_kind e, ei_aggregate_id = ee_aggregate_id e, ei_event_kind = ee_kind e\<rparr>"

definition verify_record :: "db \<Rightarrow> event_envelope list \<Rightarrow> idempotency_row \<Rightarrow> store_error + int list" where
  "verify_record d es r =
     bind_res (verified_stored_result d r) (\<lambda>res.
     let ns = [sr_first res .. sr_last res] in
     bind_res (of_option (StoreIntegrity ''authority replay failed closed'') (those (map (event_by_sequence es) ns))) (\<lambda>group.
     let c = ee_command (hd group) in
     bind_res (if ce_kind c = CK_IMPORT_HISTORY then Inr ()
               else map_err (\<lambda>_. StoreIntegrity ''persisted command/event kind mismatch'')
                 (validate_command_event_intents c (map intent_of_event group))) (\<lambda>_.
     Inr ns)))"

definition records_in_order :: "db \<Rightarrow> idempotency_row list" where
  "records_in_order d = sort_key ir_first (db_idempotency d)"

definition verify_idempotency :: "db \<Rightarrow> event_envelope list \<Rightarrow> store_error + unit" where
  "verify_idempotency d es =
     bind_res (guards [(\<not> distinct (map ir_key (records_in_order d)),
       StoreIntegrity ''one idempotency key is claimed by multiple principals'')]) (\<lambda>_.
     bind_res (map_all (verify_record d es) (records_in_order d)) (\<lambda>nss.
     guards [(set (concat nss) \<noteq> set (map ee_global_sequence es),
       StoreIntegrity ''event authority has missing idempotency linkage'')]))"

definition verify_import_links :: "db \<Rightarrow> event_envelope list \<Rightarrow> store_error + unit" where
  "verify_import_links d es = guards
     [(set [i. r \<leftarrow> db_events d, Some i \<leftarrow> [ev_import r]] \<noteq> set (db_imports d),
       StoreIntegrity ''history-import events and records do not reconcile''),
      (\<not> list_all (\<lambda>e. ee_kind e = EK_HISTORY_IMPORTED \<longrightarrow> ce_kind (ee_command e) = CK_IMPORT_HISTORY) es,
       StoreIntegrity ''history-import event has the wrong command identity'')]"

definition verify_trusted_anchor :: "store_env \<Rightarrow> event_envelope list \<Rightarrow> store_error + unit" where
  "verify_trusted_anchor env es = (case se_anchor env of None \<Rightarrow> Inr ()
     | Some a \<Rightarrow> bind_res (guards
         [(se_require_current env \<and> se_authority env = None
             \<and> fold max (map ee_global_sequence es) 0 \<noteq> an_sequence a,
           StoreIntegrity ''authority differs from the exact current checkpoint'')]) (\<lambda>_.
         if an_sequence a = 0 then Inr ()
         else (case event_by_sequence es (an_sequence a) of
             Some e \<Rightarrow> guards [(ee_event_digest e \<noteq> an_digest a,
               StoreIntegrity ''authority chain does not contain the independently trusted checkpoint anchor'')]
           | None \<Rightarrow> Inl (StoreIntegrity ''authority chain does not contain the independently trusted checkpoint anchor''))))"

text \<open>\<open>_verify_connection\<close>: the replay proper, then trust. Whatever else fails is reported as one
  integrity error.\<close>

definition fail_closed :: "store_error + 'a \<Rightarrow> store_error + 'a" where
  "fail_closed m = map_err (\<lambda>e. case e of StoreIntegrity s \<Rightarrow> StoreIntegrity s
     | _ \<Rightarrow> StoreIntegrity ''authority replay failed closed'') m"

definition replay_ledger :: "db \<Rightarrow> store_error + event_envelope list" where
  "replay_ledger d =
     bind_res (verify_events d) (\<lambda>(es, ss).
     bind_res (verify_heads d ss) (\<lambda>_.
     bind_res (verify_idempotency d es) (\<lambda>_.
     bind_res (verify_import_links d es) (\<lambda>_. Inr es))))"

definition verify_connection :: "store_env \<Rightarrow> db \<Rightarrow> store_error + unit" where
  "verify_connection env d = fail_closed
     (bind_res (replay_ledger d) (\<lambda>es.
      bind_res (verify_trusted_anchor env es) (\<lambda>_.
      case se_authority env of
        Some a \<Rightarrow> au_verify a d
      | None \<Rightarrow> guards [(es \<noteq> [] \<and> se_anchor env = None \<and> \<not> se_rehearsal env,
          StoreIntegrity ''existing authority requires independent trust or explicit rehearsal'')])))"

end
