(* ===== verification/Event_Store.thy ===== *)
theory Event_Store
  imports Event_Verify
begin

section \<open>Writing to the event authority (infrastructure/sqlite/event_store.py)\<close>

text \<open>
  \<open>execute\<close> is one transaction: it resolves an exact retry, checks heads, versions and lifecycle
  transitions, appends one event per intent with its place in both digest chains, moves heads,
  checkpoint and cursor, and records the result under the command's idempotency key. An error
  leaves the database as it was (\<open>submit\<close>), as the rollback of the transaction does. The fault hooks
  of the tests are left out; the projection hook is a parameter that may fail and writes other
  tables only.
\<close>

fun error_message :: "v3_error \<Rightarrow> string" where
  "error_message (ContractError m) = m"
| "error_message (CanonicalTypeError m) = m"
| "error_message (CanonicalNumberError m) = m"
| "error_message (CanonicalBoundsError m) = m"
| "error_message (IdentifierError m) = m"

text \<open>\<open>except ContractError as exc: raise EventStoreConflict(str(exc))\<close>.\<close>

definition contract_conflicts :: "store_error + 'a \<Rightarrow> store_error + 'a" where
  "contract_conflicts m = map_err (\<lambda>e. case e of StoreContract c \<Rightarrow> StoreConflict (error_message c) | _ \<Rightarrow> e) m"

lemma contract_conflicts_Inr [result_simps]: "contract_conflicts m = Inr x \<longleftrightarrow> m = Inr x"
  by (simp add: contract_conflicts_def map_err_Inr)

subsection \<open>Retry\<close>

definition records_for :: "db \<Rightarrow> string \<Rightarrow> idempotency_row list" where
  "records_for d key = filter (\<lambda>r. ir_key r = key) (db_idempotency d)"

definition resolve_retry :: "db \<Rightarrow> string \<Rightarrow> string \<Rightarrow> string \<Rightarrow> store_error + stored_result option" where
  "resolve_retry d principal_id key dg = (case records_for d key of
       [] \<Rightarrow> Inr None
     | [r] \<Rightarrow> if ir_principal r \<noteq> principal_id then Inl (StoreConflict ''idempotency key was claimed by another principal'')
         else if ir_command_digest r \<noteq> dg then Inl (StoreConflict ''idempotency key already binds a different command'')
         else map_res Some (verified_stored_result d r)
     | _ \<Rightarrow> Inl (StoreConflict ''idempotency key was claimed by another principal''))"

subsection \<open>The bounded head check\<close>

text \<open>\<open>_verify_bounded_head_connection\<close>: checkpoint row, decoded tip, its predecessor and the anchor.\<close>

definition verify_tip :: "db \<Rightarrow> store_error + anchor" where
  "verify_tip d = (case last_event d of
       None \<Rightarrow> Inr \<lparr>an_sequence = 0, an_digest = zero_digest\<rparr>
     | Some r \<Rightarrow>
         bind_res (map_err (\<lambda>_. StoreIntegrity ''event authority tip is malformed'')
           (bind_res (decode_event (ev_json r)) (\<lambda>e.
            bind_res (guards [(ee_global_sequence e \<noteq> ev_sequence r \<or> ee_event_digest e \<noteq> ev_digest r,
              StoreError ''event tip differs'')]) (\<lambda>_. Inr e)))) (\<lambda>e.
         bind_res (guards
           [(1 < ee_global_sequence e \<and> map_option ev_digest (event_numbered d (ee_global_sequence e - 1))
                \<noteq> Some (ee_prior_global_digest e),
             StoreIntegrity ''global sequence authority tail is not contiguous before append'')]) (\<lambda>_.
         Inr \<lparr>an_sequence = ee_global_sequence e, an_digest = ee_event_digest e\<rparr>)))"

definition verify_bounded_head :: "store_env \<Rightarrow> db \<Rightarrow> store_error + anchor" where
  "verify_bounded_head env d =
     bind_res (of_option (StoreIntegrity ''event authority checkpoint is missing'') (db_checkpoint d)) (\<lambda>c.
     bind_res (verify_authority_checkpoint_row c) (\<lambda>_.
     bind_res (verify_tip d) (\<lambda>observed.
     bind_res (guards
       [(an_sequence observed \<noteq> ck_sequence c \<or> an_digest observed \<noteq> ck_digest c,
         StoreIntegrity ''event authority checkpoint differs from database head''),
        (case se_anchor env of None \<Rightarrow> False | Some a \<Rightarrow> 0 < an_sequence a
           \<and> map_option ev_digest (event_numbered d (an_sequence a)) \<noteq> Some (an_digest a),
         StoreIntegrity ''trusted authority anchor differs'')]) (\<lambda>_.
     Inr observed))))"

subsection \<open>Versions and transitions\<close>

definition intent_key :: "event_intent \<Rightarrow> stream_key" where
  "intent_key i = (aggregate_kind_value (ei_aggregate_kind i), ei_aggregate_id i)"

definition expected_for :: "command_request \<Rightarrow> string \<Rightarrow> store_error + int" where
  "expected_for q aid = of_option (StoreKey aid) (map_of (ce_expected_versions (cr_command q)) aid)"

text \<open>The status an aggregate is in: from its head where heads carry one, else by replaying its stream.\<close>

definition current_status :: "db \<Rightarrow> event_intent \<Rightarrow> store_error + lifecycle_status option" where
  "current_status d i =
     (if db_hotpath d then
        (case head_of d (fst (intent_key i)) (snd (intent_key i)) of
           None \<Rightarrow> Inr None
         | Some h \<Rightarrow> (case hr_status h of
             None \<Rightarrow> Inl (StoreValue ''None is not a valid LifecycleStatus'')
           | Some s \<Rightarrow> map_res Some (of_option (StoreValue (s @ '' is not a valid LifecycleStatus'')) (parse_lifecycle_status s))))
      else bind_res (map_all (\<lambda>r. of_option (StoreValue (ev_kind r @ '' is not a valid EventKind'')) (parse_event_kind (ev_kind r)))
             (stream_rows d (fst (intent_key i)) (snd (intent_key i)))) (\<lambda>ks. as_contract (replay (ei_aggregate_kind i) ks)))"

definition head_checked :: "db \<Rightarrow> event_intent \<Rightarrow> lifecycle_status option \<Rightarrow> store_error + unit" where
  "head_checked d i current =
     (if \<not> db_hotpath d then Inr () else
      (case head_of d (fst (intent_key i)) (snd (intent_key i)) of
         None \<Rightarrow> Inr ()
       | Some h \<Rightarrow> bind_res (as_contract (aggregate_head_digest (fst (intent_key i)) (snd (intent_key i)) (hr_version h) (hr_digest h) current))
           (\<lambda>expected. guards [(hr_head_digest h \<noteq> Some expected, StoreIntegrity ''aggregate checkpoint digest differs'')])))"

definition validate_intent :: "db \<Rightarrow> command_request \<Rightarrow> event_intent \<Rightarrow> store_error + (stream_key \<times> lifecycle_status)" where
  "validate_intent d q i =
     (let h = head_of d (fst (intent_key i)) (snd (intent_key i));
          actual = (case h of None \<Rightarrow> 0 | Some hr \<Rightarrow> hr_version hr);
          stream = stream_rows d (fst (intent_key i)) (snd (intent_key i));
          observed = (if stream = [] then None else Some (ev_version (last stream), ev_digest (last stream))) in
      bind_res (guards [(map_option (\<lambda>hr. (hr_version hr, hr_digest hr)) h \<noteq> observed,
        StoreIntegrity ''aggregate head does not match its stream before append'')]) (\<lambda>_.
      bind_res (expected_for q (ei_aggregate_id i)) (\<lambda>expected.
      bind_res (guards [(actual \<noteq> expected, StoreConflict (''expected version '' @ int_string expected @ '' for ''
         @ ei_aggregate_id i @ '', observed '' @ int_string actual))]) (\<lambda>_.
      contract_conflicts
        (bind_res (current_status d i) (\<lambda>current.
         bind_res (head_checked d i current) (\<lambda>_.
         map_res (Pair (intent_key i)) (as_contract (transition (ei_aggregate_kind i) current (ei_event_kind i)))))))))) "

definition validate_versions_and_transitions ::
    "db \<Rightarrow> command_request \<Rightarrow> event_intent list \<Rightarrow> store_error + (stream_key \<times> lifecycle_status) list" where
  "validate_versions_and_transitions d q is = map_all (validate_intent d q) is"

subsection \<open>Appending\<close>

text \<open>The upsert of a head: a new row, or the guarded update of the row that the new event follows.\<close>

definition upsert_head :: "db \<Rightarrow> head_row \<Rightarrow> string \<Rightarrow> store_error + db" where
  "upsert_head d h prior = (case head_of d (hr_kind h) (hr_id h) of
       None \<Rightarrow> Inr (d\<lparr>db_heads := db_heads d @ [h]\<rparr>)
     | Some old \<Rightarrow> if hr_version old = hr_version h - 1 \<and> hr_digest old = prior
         then Inr (d\<lparr>db_heads := map (\<lambda>q. if hr_kind q = hr_kind h \<and> hr_id q = hr_id h then h else q) (db_heads d)\<rparr>)
         else Inl (StoreConflict ''aggregate head changed during atomic command''))"

definition append_event ::
    "db \<Rightarrow> command_request \<Rightarrow> string \<Rightarrow> (stream_key \<times> lifecycle_status) list \<Rightarrow> int \<Rightarrow> string \<Rightarrow> event_intent
      \<Rightarrow> store_error + (event_envelope \<times> db)" where
  "append_event d q dg states n prior i =
     bind_res (expected_for q (ei_aggregate_id i)) (\<lambda>expected.
     let v = expected + 1;
         pa = (case head_of d (fst (intent_key i)) (snd (intent_key i)) of None \<Rightarrow> zero_digest | Some h \<Rightarrow> hr_digest h) in
     bind_res (as_contract (deterministic_identifier ''event'' (event_identity dg (ei_aggregate_id i) v (ei_event_kind i)))) (\<lambda>eid.
     bind_res (as_contract (create_event_envelope eid (ei_event_kind i) (ei_aggregate_kind i) (ei_aggregate_id i) v n prior pa
       (cr_occurred_at_utc q) (cr_monotonic_elapsed_ms q) (cr_command q))) (\<lambda>e.
     bind_res (as_contract (canonical_text (event_envelope_to_dict e))) (\<lambda>json.
     bind_res (insert_event d (row_of_event e json)) (\<lambda>d1.
     bind_res (of_option (StoreKey (ei_aggregate_id i)) (map_of states (intent_key i))) (\<lambda>lifecycle.
     bind_res (as_contract (aggregate_head_digest (fst (intent_key i)) (snd (intent_key i)) (ee_aggregate_version e)
       (ee_event_digest e) (Some lifecycle))) (\<lambda>hd_digest.
     bind_res (upsert_head d1 \<lparr>hr_kind = fst (intent_key i), hr_id = snd (intent_key i), hr_version = ee_aggregate_version e,
         hr_digest = ee_event_digest e,
         hr_status = (if db_hotpath d then Some (lifecycle_status_value lifecycle) else None),
         hr_head_digest = (if db_hotpath d then Some hd_digest else None)\<rparr> (ee_prior_aggregate_digest e)) (\<lambda>d2.
     Inr (e, d2)))))))))"

fun append_intents ::
    "db \<Rightarrow> command_request \<Rightarrow> string \<Rightarrow> (stream_key \<times> lifecycle_status) list \<Rightarrow> int \<Rightarrow> string \<Rightarrow> event_intent list
      \<Rightarrow> store_error + (event_envelope list \<times> db)" where
  "append_intents d q dg states n prior [] = Inr ([], d)"
| "append_intents d q dg states n prior (i # is) =
     bind_res (append_event d q dg states n prior i) (\<lambda>(e, d1).
     map_res (\<lambda>(es, d2). (e # es, d2)) (append_intents d1 q dg states (n + 1) (ee_event_digest e) is))"

definition advance_authority_checkpoint :: "db \<Rightarrow> event_envelope list \<Rightarrow> store_error + db" where
  "advance_authority_checkpoint d es =
     (if es = [] then Inr d else
      bind_res (of_option (StoreIntegrity ''event authority checkpoint is missing'') (db_checkpoint d)) (\<lambda>c.
      bind_res (verify_authority_checkpoint_row c) (\<lambda>_.
      bind_res (guards [(ck_sequence c \<noteq> ee_global_sequence (hd es) - 1 \<or> ck_digest c \<noteq> ee_prior_global_digest (hd es),
        StoreIntegrity ''event authority checkpoint is stale before append'')]) (\<lambda>_.
      let cnt = ck_heads c + int (length (filter (\<lambda>e. ee_aggregate_version e = 1) es));
          n = ee_global_sequence (last es); dg = ee_event_digest (last es) in
      bind_res (as_contract (authority_checkpoint_digest n dg cnt (ck_verified_at c))) (\<lambda>own.
      Inr (d\<lparr>db_checkpoint := Some \<lparr>ck_sequence = n, ck_digest = dg, ck_heads = cnt, ck_verified_at = ck_verified_at c,
         ck_own_digest = own\<rparr>\<rparr>))))))"

definition append_events ::
    "db \<Rightarrow> command_request \<Rightarrow> string \<Rightarrow> (stream_key \<times> lifecycle_status) list \<Rightarrow> event_intent list
      \<Rightarrow> store_error + (event_envelope list \<times> db)" where
  "append_events d q dg states is =
     bind_res (append_intents d q dg states (fst (tip_of d) + 1) (snd (tip_of d)) is) (\<lambda>(es, d1).
     if db_hotpath d then map_res (Pair es) (advance_authority_checkpoint d1 es) else Inr (es, d1))"

subsection \<open>One command\<close>

definition issue_command :: "command_kind \<Rightarrow> bool" where
  "issue_command k \<longleftrightarrow> k = CK_ACKNOWLEDGE_ISSUE \<or> k = CK_ACKNOWLEDGE_BATCH_ISSUE"

definition require_event_authority :: "store_env \<Rightarrow> store_error + unit" where
  "require_event_authority env = guards
     [(se_authority env = None \<and> \<not> se_rehearsal env,
       AuthorityError ''event writes require authenticated authority or explicit rehearsal'')]"

definition rolling_as_integrity :: "store_error + 'a \<Rightarrow> store_error + 'a" where
  "rolling_as_integrity m = map_err (\<lambda>e. case e of RollingIntegrity s \<Rightarrow> StoreIntegrity s | _ \<Rightarrow> e) m"

lemma rolling_as_integrity_Inr [result_simps]: "rolling_as_integrity m = Inr x \<longleftrightarrow> m = Inr x"
  by (simp add: rolling_as_integrity_def map_err_Inr)

text \<open>The checks of \<open>execute\<close> before it looks anything up.\<close>

definition admitted :: "store_env \<Rightarrow> db \<Rightarrow> command_request \<Rightarrow> store_error + unit" where
  "admitted env d q =
     bind_res (require_event_authority env) (\<lambda>_.
     bind_res (case se_authority env of None \<Rightarrow> Inr ()
        | Some a \<Rightarrow> bind_res (verify_connection env d) (\<lambda>_. au_verify a d)) (\<lambda>_.
     bind_res (rolling_as_integrity (require_cursor_at_head d)) (\<lambda>_.
     if issue_command (ce_kind (cr_command q)) then verify_connection env d else Inr ())))"

definition sorted_intents :: "command_request \<Rightarrow> event_intent list" where
  "sorted_intents q = sort_key ei_aggregate_id (cr_events q)"

type_synonym projection = "event_envelope list \<Rightarrow> store_error + unit"

definition commit_fresh ::
    "store_env \<Rightarrow> projection \<Rightarrow> db \<Rightarrow> command_request \<Rightarrow> string \<Rightarrow> string \<Rightarrow> string \<Rightarrow> store_error + (db \<times> stored_result)" where
  "commit_fresh env proj d q dg json rdg =
     bind_res (if db_hotpath d then map_res (\<lambda>_. ()) (verify_bounded_head env d) else Inr ()) (\<lambda>_.
     bind_res (validate_versions_and_transitions d q (sorted_intents q)) (\<lambda>states.
     bind_res (append_events d q dg states (sorted_intents q)) (\<lambda>(es, d1).
     bind_res (proj es) (\<lambda>_.
     bind_res (advance_rolling_reaction_cursor d1 es) (\<lambda>d2.
     bind_res (as_contract (event_set_digest es)) (\<lambda>set_digest.
     bind_res (insert_idempotency d2 \<lparr>ir_principal = cr_principal_id q, ir_key = ce_command_id (cr_command q),
        ir_command_digest = dg, ir_schema = cr_result_schema_version q, ir_result_json = json, ir_result_digest = rdg,
        ir_first = ee_global_sequence (hd es), ir_last = ee_global_sequence (last es), ir_event_set = set_digest,
        ir_created = cr_occurred_at_utc q\<rparr>) (\<lambda>d3.
     bind_res (case se_authority env of None \<Rightarrow> Inr () | Some a \<Rightarrow> au_advance a d3 (cr_occurred_at_utc q)) (\<lambda>_.
     Inr (d3, \<lparr>sr_schema = cr_result_schema_version q, sr_text = json, sr_digest = rdg,
        sr_first = ee_global_sequence (hd es), sr_last = ee_global_sequence (last es), sr_event_set = set_digest,
        sr_event_ids = map ee_event_id es\<rparr>)))))))))"

definition execute :: "store_env \<Rightarrow> projection \<Rightarrow> db \<Rightarrow> command_request \<Rightarrow> store_error + (db \<times> stored_result)" where
  "execute env proj d q =
     bind_res (as_contract (command_digest (cr_command q))) (\<lambda>dg.
     bind_res (as_contract (canonical_text (cr_result q))) (\<lambda>json.
     bind_res (as_contract (canonical_digest (cr_result q))) (\<lambda>rdg.
     contract_conflicts
       (bind_res (admitted env d q) (\<lambda>_.
        bind_res (resolve_retry d (cr_principal_id q) (ce_command_id (cr_command q)) dg) (\<lambda>found.
        case found of
          Some res \<Rightarrow> Inr (d, res)
        | None \<Rightarrow> commit_fresh env proj d q dg json rdg))))))"

text \<open>The store after one call, whatever its outcome.\<close>

definition submit :: "store_env \<Rightarrow> projection \<Rightarrow> db \<Rightarrow> command_request \<Rightarrow> db" where
  "submit env proj d q = (case execute env proj d q of Inl e \<Rightarrow> d | Inr (d', _) \<Rightarrow> d')"

end
