(* ===== verification/Event_Store_Ops.thy ===== *)
theory Event_Store_Ops
  imports Event_Store
begin

section \<open>The other operations of the event store\<close>

text \<open>
  Start-up and deep verification (which rewrite the derived heads and the checkpoint after a full
  replay), the reservation of public requests, and the reads. The clock is an argument.
\<close>

subsection \<open>Deep checkpoint\<close>

text \<open>The statuses after the events, as \<open>_write_deep_checkpoint\<close> recomputes them.\<close>

fun deep_states ::
    "(stream_key \<times> lifecycle_status option) list \<Rightarrow> event_row list \<Rightarrow> store_error + (stream_key \<times> lifecycle_status option) list" where
  "deep_states ss [] = Inr ss"
| "deep_states ss (r # rs) =
     bind_res (of_option (StoreValue (ev_aggregate_kind r)) (parse_aggregate_kind (ev_aggregate_kind r))) (\<lambda>k.
     bind_res (of_option (StoreValue (ev_kind r)) (parse_event_kind (ev_kind r))) (\<lambda>ek.
     let key = (ev_aggregate_kind r, ev_aggregate_id r) in
     if ek = EK_HISTORY_IMPORTED then deep_states (put key None ss) rs
     else bind_res (as_contract (transition k (case map_of ss key of None \<Rightarrow> None | Some st \<Rightarrow> st) ek)) (\<lambda>t.
       deep_states (put key (Some t) ss) rs)))"

definition deep_head :: "(stream_key \<times> lifecycle_status option) list \<Rightarrow> head_row \<Rightarrow> store_error + head_row" where
  "deep_head ss h =
     (let st = (case map_of ss (hr_kind h, hr_id h) of None \<Rightarrow> None | Some st \<Rightarrow> st) in
      bind_res (as_contract (aggregate_head_digest (hr_kind h) (hr_id h) (hr_version h) (hr_digest h) st)) (\<lambda>dg.
      Inr (h\<lparr>hr_status := map_option lifecycle_status_value st, hr_head_digest := Some dg\<rparr>)))"

definition write_deep_checkpoint :: "string \<Rightarrow> db \<Rightarrow> store_error + db" where
  "write_deep_checkpoint now d =
     bind_res (deep_states [] (events_in_order d)) (\<lambda>ss.
     bind_res (map_all (deep_head ss) (db_heads d)) (\<lambda>hs.
     let cnt = int (length (db_heads d)) in
     bind_res (as_contract (authority_checkpoint_digest (fst (tip_of d)) (snd (tip_of d)) cnt now)) (\<lambda>own.
     Inr (d\<lparr>db_heads := hs, db_checkpoint := Some \<lparr>ck_sequence = fst (tip_of d), ck_digest = snd (tip_of d), ck_heads = cnt,
        ck_verified_at = now, ck_own_digest = own\<rparr>\<rparr>))))"

text \<open>\<open>verify\<close> on a database whose schema is the expected one; also the transaction of start-up.\<close>

definition integrity_or :: "string \<Rightarrow> store_error + 'a \<Rightarrow> store_error + 'a" where
  "integrity_or msg m = map_err (\<lambda>e. case e of StoreIntegrity s \<Rightarrow> StoreIntegrity s | _ \<Rightarrow> StoreIntegrity msg) m"

lemma integrity_or_Inr [result_simps]: "integrity_or msg m = Inr x \<longleftrightarrow> m = Inr x"
  by (simp add: integrity_or_def map_err_Inr)

definition verify_store :: "string \<Rightarrow> store_env \<Rightarrow> string \<Rightarrow> db \<Rightarrow> store_error + db" where
  "verify_store msg env now d = integrity_or msg
     (bind_res (verify_connection env d) (\<lambda>_.
      if db_hotpath d then write_deep_checkpoint now d else Inr d))"

subsection \<open>Public operations\<close>

definition legacy_keys :: "string \<Rightarrow> v3_error + string list" where
  "legacy_keys key = map_res (Cons key) (map_all
     (\<lambda>phase. deterministic_identifier ''command'' (obj [(''public_command_id'', PStr key), (''phase'', PStr phase)]))
     [''configure_scope'', ''configure_round'', ''begin_round_closing''])"

definition reserve_public_operation ::
    "store_env \<Rightarrow> db \<Rightarrow> string \<Rightarrow> string \<Rightarrow> string \<Rightarrow> py \<Rightarrow> string \<Rightarrow> store_error + db" where
  "reserve_public_operation env d principal_id key operation payload created =
     bind_res (as_contract (canonical_digest (obj [(''operation'', PStr operation), (''payload'', payload)]))) (\<lambda>dg.
     bind_res (require_event_authority env) (\<lambda>_.
     bind_res (verify_connection env d) (\<lambda>_.
     bind_res (case se_authority env of None \<Rightarrow> Inr () | Some a \<Rightarrow> au_verify a d) (\<lambda>_.
     case find (\<lambda>b. bi_key b = key) (db_bindings d) of
       Some b \<Rightarrow> if (bi_principal b, bi_operation b, bi_digest b) \<noteq> (principal_id, operation, dg)
         then Inl (StoreConflict ''public idempotency key already binds different input'') else Inr d
     | None \<Rightarrow>
         bind_res (as_contract (legacy_keys key)) (\<lambda>keys.
         bind_res (guards [(\<exists>r \<in> set (db_idempotency d). ir_key r \<in> set keys,
           StoreConflict ''legacy public operation has no full request binding; use its retained runtime'')]) (\<lambda>_.
         let d' = d\<lparr>db_bindings := db_bindings d @ [\<lparr>bi_key = key, bi_principal = principal_id, bi_operation = operation,
               bi_digest = dg, bi_created = created\<rparr>]\<rparr> in
         bind_res (case se_authority env of None \<Rightarrow> Inr () | Some a \<Rightarrow> au_advance a d' created) (\<lambda>_. Inr d')))))))"

subsection \<open>Reads\<close>

definition verify_when_witnessed :: "store_env \<Rightarrow> db \<Rightarrow> store_error + unit" where
  "verify_when_witnessed env d = (if se_authority env = None then Inr () else verify_connection env d)"

definition lookup_exact_retry ::
    "store_env \<Rightarrow> db \<Rightarrow> string \<Rightarrow> string \<Rightarrow> command_kind \<Rightarrow> string \<Rightarrow> string \<Rightarrow> store_error + stored_result option" where
  "lookup_exact_retry env d principal_id key kind target payload_dg =
     bind_res (verify_when_witnessed env d) (\<lambda>_.
     case records_for d key of
       [] \<Rightarrow> Inr None
     | r # _ \<Rightarrow>
         bind_res (if issue_command kind then verify_connection env d else Inr ()) (\<lambda>_.
         bind_res (guards [(ir_principal r \<noteq> principal_id,
           StoreConflict ''idempotency key was claimed by another principal'')]) (\<lambda>_.
         bind_res (verified_stored_result d r) (\<lambda>res.
         bind_res (of_option linkage_corrupt (event_numbered d (sr_first res))) (\<lambda>row.
         bind_res (read_event (ev_json row)) (\<lambda>e.
         let c = ee_command e in
         bind_res (guards [(ce_kind c \<noteq> kind \<or> ce_target_aggregate c \<noteq> target \<or> payload_digest (ce_payload c) \<noteq> payload_dg,
           StoreConflict ''idempotency key already binds different material input'')]) (\<lambda>_.
         Inr (Some res))))))))"

definition event_at :: "store_env \<Rightarrow> db \<Rightarrow> py \<Rightarrow> store_error + event_envelope" where
  "event_at env d n = (case n of
       PInt i \<Rightarrow> if i \<le> 0 then Inl (StoreError ''event sequence must be a positive integer'') else
         bind_res (verify_connection env d) (\<lambda>_.
         bind_res (of_option (StoreKey (int_string i)) (event_numbered d i)) (\<lambda>r. read_event (ev_json r)))
     | _ \<Rightarrow> Inl (StoreError ''event sequence must be a positive integer''))"

definition stored_events :: "store_env \<Rightarrow> db \<Rightarrow> store_error + event_envelope list" where
  "stored_events env d =
     bind_res (verify_connection env d) (\<lambda>_. map_all (\<lambda>r. read_event (ev_json r)) (events_in_order d))"

definition event_count :: "db \<Rightarrow> int" where
  "event_count d = int (length (db_events d))"

definition global_sequences :: "db \<Rightarrow> int list" where
  "global_sequences d = map ev_sequence (events_in_order d)"

definition aggregate_head :: "db \<Rightarrow> string \<Rightarrow> (int \<times> string) option" where
  "aggregate_head d aid = map_option (\<lambda>h. (hr_version h, hr_digest h)) (find (\<lambda>h. hr_id h = aid) (db_heads d))"

definition current_anchor :: "store_env \<Rightarrow> db \<Rightarrow> store_error + anchor" where
  "current_anchor env d =
     bind_res (verify_connection env d) (\<lambda>_. mk_anchor (PInt (fst (tip_of d))) (PStr (snd (tip_of d))))"

definition bounded_head :: "store_env \<Rightarrow> db \<Rightarrow> store_error + anchor" where
  "bounded_head env d = bind_res (verify_when_witnessed env d) (\<lambda>_. verify_bounded_head env d)"

definition integrity_checkpoint_status :: "store_env \<Rightarrow> db \<Rightarrow> store_error + py" where
  "integrity_checkpoint_status env d =
     bind_res (verify_when_witnessed env d) (\<lambda>_.
     bind_res (verify_bounded_head env d) (\<lambda>a.
     bind_res (of_option (StoreValue ''checkpoint'') (db_checkpoint d)) (\<lambda>c.
     Inr (obj [(''authority_sequence'', PInt (an_sequence a)), (''authority_digest'', PStr (an_digest a)),
       (''aggregate_head_count'', PInt (ck_heads c)), (''last_deep_verified_at'', PStr (ck_verified_at c)),
       (''checkpoint_digest'', PStr (ck_own_digest c))]))))"

subsection \<open>Critical issue\<close>

text \<open>\<open>_critical_approval_snapshot_digest\<close> and \<open>_critical_receipt_ids\<close>.\<close>

definition critical_approval_snapshot_digest :: "command_request \<Rightarrow> store_error + string" where
  "critical_approval_snapshot_digest q = (case ce_payload (cr_command q) of
       Inline p \<Rightarrow> (case fld (inline_to_value p) ''approval_snapshot_digest'' of
           PStr s \<Rightarrow> if is_digest s then Inr s
             else Inl (StoreError ''critical issue command has no canonical approval snapshot digest'')
         | _ \<Rightarrow> Inl (StoreError ''critical issue command has no canonical approval snapshot digest''))
     | _ \<Rightarrow> Inl (StoreError ''critical issue command must inline its approval snapshot binding''))"

text \<open>A Python value in which a list and a tuple differ, as they do for the walk below: what \<open>json.loads\<close>
  returns holds lists, and the result of a request has been frozen by \<open>_deep_freeze\<close>, which turns every
  list into a tuple.\<close>

datatype candidate = CMap "(py \<times> candidate) list" | CList "candidate list" | CTuple "candidate list" | CLeaf py

fun loaded :: "py \<Rightarrow> candidate" where
  "loaded (PMap kvs) = CMap (map (\<lambda>(k, x). (k, loaded x)) kvs)"
| "loaded (PSeq xs) = CList (map loaded xs)"
| "loaded v = CLeaf v"

fun deep_freeze :: "candidate \<Rightarrow> candidate" where
  "deep_freeze (CMap kvs) = CMap (map (\<lambda>(k, x). (k, deep_freeze x)) kvs)"
| "deep_freeze (CList xs) = CTuple (map deep_freeze xs)"
| "deep_freeze v = v"

definition receipt_name :: "candidate \<Rightarrow> string list" where
  "receipt_name v = (case v of CLeaf (PStr s) \<Rightarrow> if prefix ''receipt:'' s then [s] else [] | _ \<Rightarrow> [])"

definition named_receipts :: "(py \<times> candidate) list \<Rightarrow> string list" where
  "named_receipts kvs = (case map_of kvs (PStr ''receipt_id'') of None \<Rightarrow> [] | Some v \<Rightarrow> receipt_name v)
     @ (case map_of kvs (PStr ''receipt_ids'') of
          Some (CList xs) \<Rightarrow> concat (map receipt_name xs)
        | Some (CTuple xs) \<Rightarrow> concat (map receipt_name xs)
        | _ \<Rightarrow> [])"

text \<open>The walk: the mapping itself and its values, the elements of a list, nothing below a tuple.\<close>

fun collect_receipts :: "candidate \<Rightarrow> string list" where
  "collect_receipts (CMap kvs) = named_receipts kvs @ concat (map (\<lambda>(k, x). collect_receipts x) kvs)"
| "collect_receipts (CList xs) = concat (map collect_receipts xs)"
| "collect_receipts _ = []"

definition critical_receipt_ids :: "candidate \<Rightarrow> store_error + string list" where
  "critical_receipt_ids v = (case collect_receipts v of
       [] \<Rightarrow> Inl (StoreError ''critical issue result contains no receipt identities'')
     | ids \<Rightarrow> Inr (sort (remdups ids)))"

text \<open>The receipts an issue is checked against: those of the frozen result of its request.\<close>

definition issue_receipts :: "command_request \<Rightarrow> store_error + string list" where
  "issue_receipts q = critical_receipt_ids (deep_freeze (loaded (cr_result q)))"

end
