(* ===== verification/Ledger.thy ===== *)
theory Ledger
  imports Event_Store_Ops
begin

section \<open>The ledger behind the tables\<close>

text \<open>
  The abstract view of the event store: a list of events in which each one follows from those
  before it (\<open>chain\<close>), without rows, columns, JSON texts or derived tables. The replay of
  \<open>_verify_events\<close> accepts exactly the storage images of such lists
  (\<open>verify_events_iff\<close>), so everything about a verified store can be said of the list.
\<close>

definition stream_of :: "event_envelope list \<Rightarrow> stream_key \<Rightarrow> event_envelope list" where
  "stream_of es k = filter (\<lambda>e. event_key e = k) es"

definition last_digest :: "event_envelope list \<Rightarrow> string" where
  "last_digest es = (if es = [] then zero_digest else ee_event_digest (last es))"

text \<open>What an event must satisfy to stand right after the events \<open>es\<close>.\<close>

definition follows :: "event_envelope list \<Rightarrow> event_envelope \<Rightarrow> bool" where
  "follows es e \<longleftrightarrow> (let st = stream_of es (event_key e) in
     ee_wf e \<and> ee_global_sequence e = int (length es) + 1 \<and> ee_prior_global_digest e = last_digest es
     \<and> ee_aggregate_version e = int (length st) + 1 \<and> ee_prior_aggregate_digest e = last_digest st
     \<and> expected_event_id e = Inr (ee_event_id e) \<and> lifecycle_check e (map ee_kind st) = Inr ())"

inductive chain :: "event_envelope list \<Rightarrow> bool" where
  chain_empty: "chain []"
| chain_snoc: "chain es \<Longrightarrow> follows es e \<Longrightarrow> chain (es @ [e])"

inductive_cases chain_snocE: "chain (es @ [e])"

text \<open>What a row that stores an event looks like.\<close>

definition provenance_ok :: "event_envelope \<Rightarrow> event_row \<Rightarrow> bool" where
  "provenance_ok e r \<longleftrightarrow> ev_training r \<in> {0, 1}
     \<and> (if ee_kind e = EK_HISTORY_IMPORTED then ev_import r \<noteq> None \<and> ev_training r = 0 else ev_import r = None)"

definition stored_as :: "event_envelope \<Rightarrow> event_row \<Rightarrow> bool" where
  "stored_as e r \<longleftrightarrow> ee_wf e \<and> canonical_text (event_envelope_to_dict e) = Inr (ev_json r)
     \<and> r\<lparr>ev_import := None, ev_training := 0\<rparr> = row_of_event e (ev_json r) \<and> provenance_ok e r"

text \<open>The summary of each stream that the replay carries along.\<close>

definition summary :: "event_envelope list \<Rightarrow> stream_key \<Rightarrow> stream option" where
  "summary es k = (let st = stream_of es k in if st = [] then None
     else Some (int (length st), last_digest st, map ee_kind st))"

definition agrees :: "(stream_key \<times> stream) list \<Rightarrow> event_envelope list \<Rightarrow> bool" where
  "agrees ss es \<longleftrightarrow> map_of ss = summary es"

subsection \<open>Streams\<close>

lemma stream_of_snoc: "stream_of (es @ [e]) k = stream_of es k @ (if event_key e = k then [e] else [])"
  by (simp add: stream_of_def)

lemma stream_of_Nil [simp]: "stream_of [] k = []"
  by (simp add: stream_of_def)

lemma last_digest_snoc [simp]: "last_digest (es @ [e]) = ee_event_digest e"
  by (simp add: last_digest_def)

lemma last_digest_Nil [simp]: "last_digest [] = zero_digest"
  by (simp add: last_digest_def)

lemma map_of_put: "map_of (put k v xs) = (map_of xs)(k \<mapsto> v)"
proof
  fix j
  show "map_of (put k v xs) j = ((map_of xs)(k \<mapsto> v)) j"
    by (cases "j = k") (simp_all add: put_def map_of_filter_other)
qed

lemma stream_at_agrees:
  assumes "agrees ss es"
  shows "stream_at ss k = (int (length (stream_of es k)), last_digest (stream_of es k), map ee_kind (stream_of es k))"
  using assms by (simp add: agrees_def stream_at_def summary_def Let_def)

lemma extend_agrees:
  assumes "agrees ss es" "ee_aggregate_version e = int (length (stream_of es (event_key e))) + 1"
  shows "agrees (extend_streams ss e) (es @ [e])"
proof -
  have "summary (es @ [e]) = (summary es)(event_key e \<mapsto>
      (ee_aggregate_version e, ee_event_digest e, map ee_kind (stream_of es (event_key e)) @ [ee_kind e]))"
    using assms(2) by (auto simp: fun_eq_iff summary_def Let_def stream_of_snoc)
  then show ?thesis using assms(1)
    by (simp add: agrees_def extend_streams_def stream_at_agrees [OF assms(1)] map_of_put)
qed

lemma agrees_Nil: "agrees [] []"
  by (simp add: agrees_def summary_def fun_eq_iff)

subsection \<open>The replay accepts exactly the stored chains\<close>

lemma decode_event_stored:
  assumes "canonical_text (event_envelope_to_dict e) = Inr t"
  shows "decode_event t = Inr e \<longleftrightarrow> ee_wf e"
proof
  assume "decode_event t = Inr e"
  then show "ee_wf e"
    by (auto simp: decode_event_def map_err_Inr bind_res_Inr split: option.splits dest: event_envelope_from_dict_wf)
next
  assume "ee_wf e"
  from event_envelope_stored [OF this assms] show "decode_event t = Inr e"
    by (auto simp: decode_event_def)
qed

lemma read_event_stored: "stored_as e r \<Longrightarrow> read_event (ev_json r) = Inr e"
  using event_envelope_stored [of e "ev_json r"] by (auto simp: stored_as_def read_event_def as_contract_def)

lemma decode_event_wf: "decode_event t = Inr e \<Longrightarrow> ee_wf e"
  by (auto simp: decode_event_def map_err_Inr bind_res_Inr split: option.splits dest: event_envelope_from_dict_wf)

lemma lifecycle_check_unit: "lifecycle_check e ks = Inr u \<longleftrightarrow> lifecycle_check e ks = Inr ()"
  by simp

lemma verify_row_iff:
  assumes "agrees ss es"
  shows "verify_row (int (length es) + 1) (last_digest es) ss r = Inr e \<longleftrightarrow> stored_as e r \<and> follows es e"
proof
  assume v: "verify_row (int (length es) + 1) (last_digest es) ss r = Inr e"
  from v obtain t where d: "decode_event (ev_json r) = Inr e" "canonical_text (event_envelope_to_dict e) = Inr t"
    and row: "r\<lparr>ev_import := None, ev_training := 0\<rparr> = row_of_event e t"
    and rest: "ev_sequence r = int (length es) + 1" "expected_event_id e = Inr (ee_event_id e)"
      "ee_prior_global_digest e = last_digest es"
      "ee_aggregate_version e = int (length (stream_of es (event_key e))) + 1"
      "ee_prior_aggregate_digest e = last_digest (stream_of es (event_key e))"
      "lifecycle_check e (map ee_kind (stream_of es (event_key e))) = Inr ()"
      "provenance_ok e r"
    by (auto simp: verify_row_def bind_res_Inr guards_Inr as_contract_Inr stream_at_agrees [OF assms]
        provenance_ok_def simp del: guards.simps)
  have t: "t = ev_json r" using row by (cases r) (simp add: row_of_event_def)
  have s: "ee_global_sequence e = ev_sequence r" using row by (cases r) (simp add: row_of_event_def)
  show "stored_as e r \<and> follows es e"
    using d row rest decode_event_wf by (simp add: stored_as_def follows_def Let_def t s)
next
  assume a: "stored_as e r \<and> follows es e"
  then have t: "canonical_text (event_envelope_to_dict e) = Inr (ev_json r)" and w: "ee_wf e"
    and row: "r\<lparr>ev_import := None, ev_training := 0\<rparr> = row_of_event e (ev_json r)" by (simp_all add: stored_as_def)
  have s: "ev_sequence r = ee_global_sequence e" using row by (cases r) (simp add: row_of_event_def)
  have d: "decode_event (ev_json r) = Inr e" using decode_event_stored [OF t] w by simp
  show "verify_row (int (length es) + 1) (last_digest es) ss r = Inr e"
    using a by (simp add: verify_row_def s d t as_contract_def stream_at_agrees [OF assms] follows_def Let_def
        stored_as_def provenance_ok_def split: if_splits)
qed

lemma chain_snoc_iff: "chain (es @ [e]) \<longleftrightarrow> chain es \<and> follows es e"
  by (auto intro: chain_snoc elim: chain_snocE)

lemma chain_prefix: "chain (es @ fs) \<Longrightarrow> chain es"
proof (induction fs rule: rev_induct)
  case (snoc f fs)
  then show ?case using chain_snoc_iff [of "es @ fs" f] by simp
qed simp

lemma verify_rows_sound:
  assumes "verify_rows (int (length hs) + 1) (last_digest hs) ss rs = Inr (es, out)" "agrees ss hs" "chain hs"
  shows "list_all2 stored_as es rs \<and> chain (hs @ es) \<and> agrees out (hs @ es)"
  using assms
proof (induction rs arbitrary: hs ss es)
  case (Cons r rs)
  obtain e es' where e: "verify_row (int (length hs) + 1) (last_digest hs) ss r = Inr e"
    "verify_rows (int (length (hs @ [e])) + 1) (last_digest (hs @ [e])) (extend_streams ss e) rs = Inr (es', out)"
    "es = e # es'"
    using Cons.prems(1) by (auto simp: bind_res_Inr map_res_Inr)
  have f: "stored_as e r" "follows hs e" using e(1) verify_row_iff [OF Cons.prems(2)] by blast+
  have g: "agrees (extend_streams ss e) (hs @ [e])"
    using extend_agrees [OF Cons.prems(2)] f(2) by (simp add: follows_def Let_def)
  have "chain (hs @ [e])" using Cons.prems(3) f(2) by (rule chain_snoc)
  from Cons.IH [OF e(2) g this] f show ?case by (simp add: e(3))
qed simp

lemma verify_rows_complete:
  assumes "list_all2 stored_as es rs" "chain (hs @ es)" "agrees ss hs"
  shows "\<exists>out. verify_rows (int (length hs) + 1) (last_digest hs) ss rs = Inr (es, out)"
  using assms
proof (induction es arbitrary: hs ss rs)
  case (Cons e es)
  then obtain r rs' where r: "rs = r # rs'" "stored_as e r" "list_all2 stored_as es rs'"
    by (auto simp: list_all2_Cons1)
  have c: "chain ((hs @ [e]) @ es)" using Cons.prems(2) by simp
  then have f: "follows hs e" using chain_prefix chain_snoc_iff by blast
  have v: "verify_row (int (length hs) + 1) (last_digest hs) ss r = Inr e"
    using verify_row_iff [OF Cons.prems(3)] r(2) f by blast
  have g: "agrees (extend_streams ss e) (hs @ [e])"
    using extend_agrees [OF Cons.prems(3)] f by (simp add: follows_def Let_def)
  obtain out where "verify_rows (int (length hs) + 1 + 1) (ee_event_digest e) (extend_streams ss e) rs' = Inr (es, out)"
    using Cons.IH [OF r(3) c g] by auto
  then show ?case unfolding r(1) verify_rows.simps v by simp
qed simp

lemma verify_events_iff:
  "(\<exists>ss. verify_events d = Inr (es, ss)) \<longleftrightarrow> chain es \<and> list_all2 stored_as es (events_in_order d)"
  using verify_rows_sound [of "[]" "[]" "events_in_order d" es] verify_rows_complete [of es "events_in_order d" "[]" "[]"]
  by (auto simp: verify_events_def agrees_Nil chain_empty)

lemma verify_events_agrees: "verify_events d = Inr (es, ss) \<Longrightarrow> agrees ss es"
  using verify_rows_sound [of "[]" "[]" "events_in_order d" es ss] by (simp add: verify_events_def agrees_Nil chain_empty)

end
