(* ===== verification/Ledger_View.thy ===== *)
theory Ledger_View
  imports Ledger
begin

section \<open>The derived tables against the ledger\<close>

text \<open>
  The remaining checks of the replay in terms of the event list: heads are the ends of the streams,
  idempotency records partition the list into the groups of their commands, imports reconcile.
  \<open>replay_ledger_iff\<close> collects them: a keyed database replays to \<open>es\<close> exactly when it is a
  \<open>ledger_view\<close> of \<open>es\<close>.
\<close>

text \<open>The primary keys the schema declares.\<close>

definition keyed :: "db \<Rightarrow> bool" where
  "keyed d \<longleftrightarrow> sorted_wrt (<) (map ev_sequence (db_events d))
     \<and> distinct (map (\<lambda>h. (hr_kind h, hr_id h)) (db_heads d))
     \<and> distinct (map (\<lambda>r. (ir_principal r, ir_key r)) (db_idempotency d))"

lemma keyed_order: "keyed d \<Longrightarrow> events_in_order d = db_events d"
  by (simp add: keyed_def events_in_order_def sort_key_id_if_sorted strict_sorted_imp_sorted)

subsection \<open>Heads\<close>

definition heads_ok :: "db \<Rightarrow> event_envelope list \<Rightarrow> bool" where
  "heads_ok d es \<longleftrightarrow> (\<forall>k. map_option (\<lambda>h. (hr_version h, hr_digest h)) (head_of d (fst k) (snd k))
     = (if stream_of es k = [] then None else Some (int (length (stream_of es k)), last_digest (stream_of es k))))"

lemma same_map_iff: "same_map xs ys \<longleftrightarrow> map_of xs = map_of ys"
proof
  assume s: "same_map xs ys"
  show "map_of xs = map_of ys"
  proof
    fix k
    show "map_of xs k = map_of ys k"
    proof (cases "k \<in> set (map fst xs @ map fst ys)")
      case True
      then show ?thesis using s by (auto simp: same_map_def list_all_iff)
    next
      case False
      then have "map_of xs k = None" "map_of ys k = None" by (simp_all add: map_of_eq_None_iff)
      then show ?thesis by simp
    qed
  qed
qed (simp add: same_map_def list_all_iff)

lemma map_of_rev_distinct: "distinct (map fst xs) \<Longrightarrow> map_of (rev xs) = map_of xs"
proof (induction xs)
  case (Cons x xs)
  obtain k v where x: "x = (k, v)" by (cases x)
  have n: "map_of xs k = None" using Cons.prems x by (simp add: map_of_eq_None_iff)
  have "map_of (rev xs) = map_of xs" using Cons by simp
  then show ?case using n by (auto simp: x fun_eq_iff map_add_def split: option.splits)
qed simp

lemma map_of_heads:
  "map_of (map (\<lambda>h. ((hr_kind h, hr_id h), f h)) hs) k = map_option f (find (\<lambda>h. hr_kind h = fst k \<and> hr_id h = snd k) hs)"
  by (induction hs) (auto simp: prod_eq_iff)

lemma map_of_streams:
  "map_of (map (\<lambda>(k, (v, dg, _)). (k, (v, dg))) ss) k = map_option (\<lambda>(v, dg, _). (v, dg)) (map_of ss k)"
  by (induction ss) (auto split: prod.splits)

lemma verify_heads_iff:
  assumes "keyed d" "agrees ss es"
  shows "verify_heads d ss = Inr u \<longleftrightarrow> heads_ok d es"
proof -
  let ?hs = "map (\<lambda>h. ((hr_kind h, hr_id h), (hr_version h, hr_digest h))) (db_heads d)"
  have dist: "distinct (map fst ?hs)" using assms(1) by (simp add: keyed_def o_def)
  have "verify_heads d ss = Inr u \<longleftrightarrow> map_of ?hs = map_of (map (\<lambda>(k, (v, dg, _)). (k, (v, dg))) ss)"
    using map_of_rev_distinct [OF dist] by (simp add: verify_heads_def same_map_iff)
  also have "\<dots> \<longleftrightarrow> heads_ok d es"
    using assms(2)
    by (auto simp: fun_eq_iff heads_ok_def head_of_def map_of_heads map_of_streams agrees_def summary_def Let_def)
  finally show ?thesis .
qed

subsection \<open>Sequences\<close>

lemma chain_sequences: "chain es \<Longrightarrow> map ee_global_sequence es = [1 .. int (length es)]"
  by (induction rule: chain.induct) (simp_all add: follows_def Let_def upto_rec2)

definition between :: "event_envelope list \<Rightarrow> int \<Rightarrow> int \<Rightarrow> event_envelope list" where
  "between es a b = filter (\<lambda>e. a \<le> ee_global_sequence e \<and> ee_global_sequence e \<le> b) es"

lemma filter_upto: "filter (\<lambda>x. a \<le> x \<and> x \<le> b) [m .. n] = [max m a .. min n (b :: int)]"
proof (induction "nat (n - m + 1)" arbitrary: m)
  case 0
  then show ?case by simp
next
  case (Suc k)
  then have mn: "m \<le> n" "k = nat (n - (m + 1) + 1)" by simp_all
  have r: "[m .. n] = m # [m + 1 .. n]" using mn(1) by (rule upto_rec1)
  have ih: "filter (\<lambda>x. a \<le> x \<and> x \<le> b) [m + 1 .. n] = [max (m + 1) a .. min n b]" using Suc.hyps(1) [OF mn(2)] .
  show ?case
  proof (cases "a \<le> m \<and> m \<le> b")
    case True
    then have m: "max m a = m" "max (m + 1) a = m + 1" "m \<le> min n b" using mn(1) by simp_all
    show ?thesis using True by (simp add: r ih m upto_rec1 del: min.bounded_iff)
  next
    case False
    then have "[max (m + 1) a .. min n b] = [max m a .. min n b]"
      by (cases "a \<le> m") (simp_all add: max_def)
    with False show ?thesis by (auto simp: r ih)
  qed
qed

lemma between_sequences:
  assumes "chain es"
  shows "map ee_global_sequence (between es a b) = [max 1 a .. min (int (length es)) b]"
proof -
  have "map ee_global_sequence (between es a b) = filter (\<lambda>x. a \<le> x \<and> x \<le> b) (map ee_global_sequence es)"
    by (simp add: between_def filter_map o_def)
  then show ?thesis by (simp add: chain_sequences [OF assms] filter_upto)
qed

lemma between_full:
  assumes "chain es" "between es a b \<noteq> []" "int (length (between es a b)) = b - a + 1"
  shows "1 \<le> a \<and> a \<le> b \<and> b \<le> int (length es)"
proof -
  let ?m = "max 1 a" and ?n = "min (int (length es)) b"
  have l: "length (between es a b) = nat (?n - ?m + 1)"
    using arg_cong [OF between_sequences [OF assms(1)], of length a b] by simp
  have "0 < length (between es a b)" using assms(2) by simp
  with l assms(3) show ?thesis by (simp add: max_def min_def split: if_splits)
qed

lemma event_by_sequence_self:
  assumes "chain es" "e \<in> set es"
  shows "event_by_sequence es (ee_global_sequence e) = Some e"
proof -
  have d: "distinct (map ee_global_sequence es)" using chain_sequences [OF assms(1)] by simp
  obtain i where i: "i < length es" "e = es ! i" using assms(2) by (auto simp: in_set_conv_nth)
  have "\<forall>j < i. ee_global_sequence (es ! j) \<noteq> ee_global_sequence e"
    using d i by (auto simp: distinct_conv_nth)
  with i show ?thesis unfolding event_by_sequence_def find_Some_iff by blast
qed

lemma group_of_range:
  assumes "chain es" "1 \<le> a" "b \<le> int (length es)"
  shows "those (map (event_by_sequence es) [a .. b]) = Some (between es a b)"
proof -
  have "[a .. b] = map ee_global_sequence (between es a b)"
    using between_sequences [OF assms(1), of a b] assms(2,3) by (simp add: max_def min_def split: if_splits)
  then have "map (event_by_sequence es) [a .. b] = map (event_by_sequence es \<circ> ee_global_sequence) (between es a b)"
    by simp
  also have "\<dots> = map Some (between es a b)"
    using event_by_sequence_self [OF assms(1)] by (auto simp: between_def)
  moreover have "those (map Some xs) = Some xs" for xs :: "event_envelope list" by (induction xs) auto
  ultimately show ?thesis by simp
qed

lemma between_append:
  "chain (es @ fs) \<Longrightarrow> b \<le> int (length es) \<Longrightarrow> between (es @ fs) a b = between es a b"
proof -
  assume c: "chain (es @ fs)" and b: "b \<le> int (length es)"
  have m: "map ee_global_sequence (es @ fs) = [1 .. int (length (es @ fs))]" by (rule chain_sequences [OF c])
  have ms: "set (map ee_global_sequence es) = {1 .. int (length es)}"
    unfolding chain_sequences [OF chain_prefix [OF c]] by simp
  have "distinct (map ee_global_sequence es @ map ee_global_sequence fs)" using m by (metis distinct_upto map_append)
  then have "set (map ee_global_sequence fs) \<inter> {1 .. int (length es)} = {}" unfolding ms [symmetric] by auto
  moreover have "set (map ee_global_sequence fs) \<subseteq> {1 .. int (length (es @ fs))}"
    using arg_cong [OF m, of set] by auto
  ultimately have "set (map ee_global_sequence fs) \<subseteq> {int (length es) + 1 ..}" by force
  then have "\<forall>f \<in> set fs. b < ee_global_sequence f" using b by force
  then show "between (es @ fs) a b = between es a b" by (auto simp: between_def filter_empty_conv)
qed

subsection \<open>Idempotency records\<close>

text \<open>The result columns of a record, and the record against the events it names.\<close>

definition result_ok :: "idempotency_row \<Rightarrow> bool" where
  "result_ok r \<longleftrightarrow> ir_schema r \<noteq> [] \<and> utc_ok (ir_created r) \<and> (case json_loads (ir_result_json r) of None \<Rightarrow> False
     | Some v \<Rightarrow> is_mapping v \<and> canonical_text v = Inr (ir_result_json r) \<and> canonical_digest v = Inr (ir_result_digest r))"

definition names_group :: "idempotency_row \<Rightarrow> event_envelope list \<Rightarrow> bool" where
  "names_group r g \<longleftrightarrow> (let c = ee_command (hd g) in
     g \<noteq> [] \<and> int (length g) = ir_last r - ir_first r + 1 \<and> (\<forall>e \<in> set g. ee_command e = c)
     \<and> ce_command_id c = ir_key r \<and> ce_actor_id c = ir_principal r \<and> command_digest c = Inr (ir_command_digest r)
     \<and> event_set_digest g = Inr (ir_event_set r))"

definition group_valid :: "event_envelope list \<Rightarrow> bool" where
  "group_valid g \<longleftrightarrow> ce_kind (ee_command (hd g)) = CK_IMPORT_HISTORY
     \<or> is_ok (validate_command_event_intents (ee_command (hd g)) (map intent_of_event g))"

definition record_ok :: "event_envelope list \<Rightarrow> idempotency_row \<Rightarrow> bool" where
  "record_ok es r \<longleftrightarrow> result_ok r \<and> names_group r (between es (ir_first r) (ir_last r))
     \<and> group_valid (between es (ir_first r) (ir_last r))"

definition record_result :: "event_envelope list \<Rightarrow> idempotency_row \<Rightarrow> stored_result" where
  "record_result es r = \<lparr>sr_schema = ir_schema r, sr_text = ir_result_json r, sr_digest = ir_result_digest r,
     sr_first = ir_first r, sr_last = ir_last r, sr_event_set = ir_event_set r,
     sr_event_ids = map ee_event_id (between es (ir_first r) (ir_last r))\<rparr>"

lemma stored_sequence: "stored_as e r \<Longrightarrow> ev_sequence r = ee_global_sequence e"
  by (cases r) (auto simp: stored_as_def row_of_event_def)

lemma events_between_stored:
  assumes "list_all2 stored_as es (events_in_order d)"
  shows "events_between d a b = Some (between es a b)"
proof -
  have "those (map (\<lambda>r. case read_event (ev_json r) of Inl x \<Rightarrow> None | Inr e \<Rightarrow> Some e)
      (filter (\<lambda>r. a \<le> ev_sequence r \<and> ev_sequence r \<le> b) rs)) = Some (between es a b)"
    if "list_all2 stored_as es rs" for es rs
    using that by (induction rule: list_all2_induct) (auto simp: between_def stored_sequence read_event_stored)
  then show ?thesis using assms by (simp add: events_between_def)
qed

lemma opt_guard_Some [simp]: "opt_guard b = Some u \<longleftrightarrow> b"
  by (simp add: opt_guard_def)

lemma linked_events_iff:
  assumes "list_all2 stored_as es (events_in_order d)"
  shows "linked_events d r = Some g \<longleftrightarrow>
    result_ok r \<and> g = between es (ir_first r) (ir_last r) \<and> names_group r g"
  by (auto simp: linked_events_def result_ok_def names_group_def Let_def bind_eq_Some_conv list_all_iff
      events_between_stored [OF assms] split: option.splits)

lemma verified_stored_result_iff:
  assumes "list_all2 stored_as es (events_in_order d)"
  shows "verified_stored_result d r = Inr res \<longleftrightarrow>
    result_ok r \<and> names_group r (between es (ir_first r) (ir_last r)) \<and> res = record_result es r"
proof (cases "linked_events d r")
  case None
  then show ?thesis using linked_events_iff [OF assms, of r "between es (ir_first r) (ir_last r)"]
    by (auto simp: verified_stored_result_def)
next
  case (Some g)
  have g: "result_ok r" "g = between es (ir_first r) (ir_last r)" "names_group r g"
    using iffD1 [OF linked_events_iff [OF assms] Some] by blast+
  then show ?thesis using Some by (auto simp: verified_stored_result_def record_result_def)
qed

lemma names_group_range:
  assumes "chain es" "names_group r (between es (ir_first r) (ir_last r))"
  shows "1 \<le> ir_first r \<and> ir_first r \<le> ir_last r \<and> ir_last r \<le> int (length es)"
  using between_full [OF assms(1)] assms(2) by (auto simp: names_group_def Let_def)

lemma verify_record_iff:
  assumes "list_all2 stored_as es (events_in_order d)" "chain es"
  shows "verify_record d es r = Inr ns \<longleftrightarrow> record_ok es r \<and> ns = [ir_first r .. ir_last r]"
proof (cases "result_ok r \<and> names_group r (between es (ir_first r) (ir_last r))")
  case True
  then have v: "verified_stored_result d r = Inr (record_result es r)"
    using verified_stored_result_iff [OF assms(1)] by blast
  have g: "those (map (event_by_sequence es) [ir_first r .. ir_last r]) = Some (between es (ir_first r) (ir_last r))"
    using names_group_range [OF assms(2)] True group_of_range [OF assms(2)] by blast
  show ?thesis using True
    by (auto simp: verify_record_def v record_result_def Let_def g record_ok_def group_valid_def bind_res_Inr map_err_Inr
        is_ok_Inr of_option_def)
next
  case False
  then have "verified_stored_result d r \<noteq> Inr res" for res
    using verified_stored_result_iff [OF assms(1)] by blast
  then show ?thesis using False by (auto simp: verify_record_def bind_res_Inr record_ok_def)
qed

definition records_ok :: "event_envelope list \<Rightarrow> idempotency_row list \<Rightarrow> bool" where
  "records_ok es rs \<longleftrightarrow> distinct (map ir_key rs) \<and> (\<forall>r \<in> set rs. record_ok es r)
     \<and> (\<Union>r \<in> set rs. {ir_first r .. ir_last r}) = {1 .. int (length es)}"

lemma map_all_all_iff:
  assumes "\<And>x y. x \<in> set xs \<Longrightarrow> f x = Inr y \<longleftrightarrow> P x \<and> y = g x"
  shows "map_all f xs = Inr ys \<longleftrightarrow> (\<forall>x \<in> set xs. P x) \<and> ys = map g xs"
  using assms
proof (induction xs arbitrary: ys)
  case (Cons x xs)
  have "map_all f xs = Inr zs \<longleftrightarrow> (\<forall>x \<in> set xs. P x) \<and> zs = map g xs" for zs
    using Cons by simp
  then show ?case using Cons.prems [of x] by (auto simp: bind_res_Inr map_res_Inr)
qed auto

lemma verify_idempotency_iff:
  assumes "list_all2 stored_as es (events_in_order d)" "chain es"
  shows "verify_idempotency d es = Inr u \<longleftrightarrow> records_ok es (db_idempotency d)"
proof -
  have s: "mset (records_in_order d) = mset (db_idempotency d)" by (simp add: records_in_order_def)
  have k: "distinct (map ir_key (records_in_order d)) \<longleftrightarrow> distinct (map ir_key (db_idempotency d))"
    using mset_eq_imp_distinct_iff [of "map ir_key (records_in_order d)"] s by (metis mset_map)
  have st: "set (records_in_order d) = set (db_idempotency d)" by (simp add: records_in_order_def)
  have sq: "ee_global_sequence ` set es = {1 .. int (length es)}"
    using arg_cong [OF chain_sequences [OF assms(2)], of set] by simp
  show ?thesis
    by (auto simp: verify_idempotency_def bind_res_Inr map_all_all_iff [OF verify_record_iff [OF assms]] k st sq records_ok_def)
qed

subsection \<open>The whole replay\<close>

definition imports_ok :: "db \<Rightarrow> event_envelope list \<Rightarrow> bool" where
  "imports_ok d es \<longleftrightarrow> set [i. r \<leftarrow> db_events d, Some i \<leftarrow> [ev_import r]] = set (db_imports d)
     \<and> (\<forall>e \<in> set es. ee_kind e = EK_HISTORY_IMPORTED \<longrightarrow> ce_kind (ee_command e) = CK_IMPORT_HISTORY)"

definition ledger_view :: "db \<Rightarrow> event_envelope list \<Rightarrow> bool" where
  "ledger_view d es \<longleftrightarrow> chain es \<and> list_all2 stored_as es (db_events d) \<and> heads_ok d es
     \<and> records_ok es (db_idempotency d) \<and> imports_ok d es"

lemma replay_ledger_iff:
  assumes "keyed d"
  shows "replay_ledger d = Inr es \<longleftrightarrow> ledger_view d es"
proof
  assume r: "replay_ledger d = Inr es"
  then obtain ss where v: "verify_events d = Inr (es, ss)" "verify_heads d ss = Inr ()" "verify_idempotency d es = Inr ()"
    "verify_import_links d es = Inr ()"
    by (auto simp: replay_ledger_def bind_res_Inr)
  have c: "chain es" "list_all2 stored_as es (events_in_order d)" using verify_events_iff v(1) by blast+
  show "ledger_view d es"
    using c v verify_heads_iff [OF assms verify_events_agrees [OF v(1)]] verify_idempotency_iff [OF c(2,1)]
    by (simp add: ledger_view_def keyed_order [OF assms] verify_import_links_def imports_ok_def list_all_iff split: if_splits)
next
  assume l: "ledger_view d es"
  then have c: "chain es" "list_all2 stored_as es (events_in_order d)"
    by (simp_all add: ledger_view_def keyed_order [OF assms])
  obtain ss where ss: "verify_events d = Inr (es, ss)" using verify_events_iff c by blast
  show "replay_ledger d = Inr es"
    using l verify_heads_iff [OF assms verify_events_agrees [OF ss]] verify_idempotency_iff [OF c(2,1)]
    by (simp add: replay_ledger_def ss ledger_view_def verify_import_links_def imports_ok_def list_all_iff)
qed

end
