(* ===== verification/Ledger_Append.thy ===== *)
theory Ledger_Append
  imports Ledger_View
begin

section \<open>Appending keeps the ledger\<close>

text \<open>
  What the write side does to the abstract list: each appended event follows the ones before it,
  the heads move with their streams and, where heads are sealed, carry the status of the stream and
  the digest over it. The lemmas follow the order of the code: one intent, all intents, checkpoint.
\<close>

subsection \<open>Streams and their status\<close>

definition next_status :: "lifecycle_status option \<Rightarrow> event_envelope \<Rightarrow> lifecycle_status option" where
  "next_status s e = (if ee_kind e = EK_HISTORY_IMPORTED then None
     else (case transition (ee_aggregate_kind e) s (ee_kind e) of Inl _ \<Rightarrow> s | Inr t \<Rightarrow> Some t))"

definition stream_status :: "event_envelope list \<Rightarrow> lifecycle_status option" where
  "stream_status st = foldl next_status None st"

lemma history_no_edge: "\<not> is_edge k s EK_HISTORY_IMPORTED t"
  by (cases k) (auto simp: is_edge_def split: if_splits)

lemma lifecycle_kinds_iff: "k \<in> set lifecycle_kinds \<longleftrightarrow> k \<noteq> AK_SYSTEM"
  by (cases k) (simp_all add: lifecycle_kinds_def)

lemma system_no_edge: "\<not> is_edge AK_SYSTEM s e t"
  by (simp add: is_edge_def)

lemma aggregate_kind_value_eq [simp]: "aggregate_kind_value a = aggregate_kind_value b \<longleftrightarrow> a = b"
  by (metis parse_aggregate_kind_value option.inject)

lemma stream_kind: "e \<in> set (stream_of es (aggregate_kind_value k, i)) \<Longrightarrow> ee_aggregate_kind e = k"
  by (auto simp: stream_of_def event_key_def)

lemma lifecycle_check_iff:
  "lifecycle_check e ks = Inr () \<longleftrightarrow> (if ee_aggregate_kind e = AK_SYSTEM then ee_kind e = EK_HISTORY_IMPORTED
     else \<exists>s t. replay (ee_aggregate_kind e) ks = Inr s \<and> is_edge (ee_aggregate_kind e) s (ee_kind e) t)"
  by (auto simp: lifecycle_check_def lifecycle_kinds_iff map_err_Inr bind_res_Inr map_res_Inr transition_iff_edge)

lemma chain_replay:
  assumes "chain es" "k \<noteq> AK_SYSTEM"
  shows "replay k (map ee_kind (stream_of es (aggregate_kind_value k, i)))
    = Inr (stream_status (stream_of es (aggregate_kind_value k, i)))"
  using assms
proof (induction rule: chain.induct)
  case chain_empty
  then show ?case by (simp add: stream_status_def replay_def)
next
  case (chain_snoc es e)
  let ?k = "(aggregate_kind_value k, i)"
  show ?case
  proof (cases "event_key e = ?k")
    case True
    then have k: "ee_aggregate_kind e = k" by (simp add: event_key_def)
    obtain s t where s: "replay k (map ee_kind (stream_of es ?k)) = Inr s" "is_edge k s (ee_kind e) t"
      using chain_snoc.hyps(2) True k chain_snoc.prems
      by (auto simp: follows_def Let_def lifecycle_check_iff)
    have "next_status s e = Some t"
      using s(2) history_no_edge by (auto simp: next_status_def k transition_iff_edge [symmetric])
    then have "stream_status (stream_of es ?k @ [e]) = Some t"
      using s(1) chain_snoc.IH [OF chain_snoc.prems] by (simp add: stream_status_def)
    then show ?thesis using s True by (auto simp: stream_of_snoc replay_snoc)
  next
    case False
    then show ?thesis using chain_snoc by (simp add: stream_of_snoc)
  qed
qed

lemma chain_versions:
  "chain es \<Longrightarrow> map ee_aggregate_version (stream_of es k) = [1 .. int (length (stream_of es k))]"
proof (induction rule: chain.induct)
  case (chain_snoc es e)
  then show ?case by (auto simp: stream_of_snoc follows_def Let_def upto_rec2)
qed simp

lemma stored_key: "stored_as e r \<Longrightarrow> (ev_aggregate_kind r, ev_aggregate_id r) = event_key e"
  by (cases r) (auto simp: stored_as_def row_of_event_def event_key_def)

lemma stored_columns:
  "stored_as e r \<Longrightarrow> ev_version r = ee_aggregate_version e \<and> ev_digest r = ee_event_digest e
     \<and> ev_kind r = event_kind_value (ee_kind e) \<and> ev_sequence r = ee_global_sequence e \<and> ev_id r = ee_event_id e
     \<and> ev_prior_global r = ee_prior_global_digest e"
  by (cases r) (auto simp: stored_as_def row_of_event_def)

lemma stream_rows_stored:
  assumes "chain es" "list_all2 stored_as es (db_events d)"
  shows "list_all2 stored_as (stream_of es (k, i)) (stream_rows d k i)"
proof -
  let ?rs = "filter (\<lambda>r. ev_aggregate_kind r = k \<and> ev_aggregate_id r = i) (db_events d)"
  have f: "list_all2 stored_as (stream_of es (k, i)) ?rs"
    unfolding stream_of_def
    using assms(2) by (induction rule: list_all2_induct) (auto dest: stored_key)
  then have "map ev_version ?rs = map ee_aggregate_version (stream_of es (k, i))"
    by (induction rule: list_all2_induct) (auto dest: stored_columns)
  then have "sorted (map ev_version ?rs)" using chain_versions [OF assms(1)] by simp
  then show ?thesis using f by (simp add: stream_rows_def sort_key_id_if_sorted)
qed

lemma stored_last: "list_all2 stored_as es rs \<Longrightarrow> es \<noteq> [] \<Longrightarrow> stored_as (last es) (last rs) \<and> rs \<noteq> []"
  by (induction rule: list_all2_induct) (auto simp: list_all2_Nil)

lemma tip_stored:
  assumes "keyed d" "chain es" "list_all2 stored_as es (db_events d)"
  shows "tip_of d = (int (length es), last_digest es)"
proof (cases "es = []")
  case True
  then show ?thesis using assms by (simp add: tip_of_def last_event_def keyed_order)
next
  case False
  have l: "stored_as (last es) (last (db_events d))" "db_events d \<noteq> []" using stored_last [OF assms(3) False] by auto
  have "last (map ee_global_sequence es) = int (length es)"
    unfolding chain_sequences [OF assms(2)] using False by (cases "length es") (simp_all add: upto_rec2)
  then have "ee_global_sequence (last es) = int (length es)" using False by (simp add: last_map)
  then show ?thesis using l False stored_columns [OF l(1)]
    by (auto simp: tip_of_def last_event_def keyed_order [OF assms(1)] last_digest_def split: list.splits)
qed

subsection \<open>Heads\<close>

definition head_sealed :: "event_envelope list \<Rightarrow> head_row \<Rightarrow> bool" where
  "head_sealed es h \<longleftrightarrow> (let st = stream_status (stream_of es (hr_kind h, hr_id h)) in
     hr_status h = map_option lifecycle_status_value st
     \<and> (case aggregate_head_digest (hr_kind h) (hr_id h) (hr_version h) (hr_digest h) st of
          Inl _ \<Rightarrow> False | Inr dg \<Rightarrow> hr_head_digest h = Some dg))"

definition heads_sealed :: "db \<Rightarrow> event_envelope list \<Rightarrow> bool" where
  "heads_sealed d es \<longleftrightarrow> (db_hotpath d \<longrightarrow> (\<forall>h \<in> set (db_heads d). head_sealed es h))"

text \<open>What holds between the appends of one command.\<close>

definition appending :: "db \<Rightarrow> event_envelope list \<Rightarrow> bool" where
  "appending d es \<longleftrightarrow> keyed d \<and> chain es \<and> list_all2 stored_as es (db_events d) \<and> heads_ok d es \<and> heads_sealed d es"

lemma head_of_Some: "head_of d k i = Some h \<Longrightarrow> h \<in> set (db_heads d) \<and> hr_kind h = k \<and> hr_id h = i"
  by (auto simp: head_of_def find_Some_iff)

lemma find_map_replaced:
  "find (\<lambda>q. hr_kind q = k \<and> hr_id q = i)
      (map (\<lambda>q. if hr_kind q = hr_kind h \<and> hr_id q = hr_id h then h else q) hs)
    = (if (k, i) = (hr_kind h, hr_id h) then map_option (\<lambda>_. h) (find (\<lambda>q. hr_kind q = k \<and> hr_id q = i) hs)
       else find (\<lambda>q. hr_kind q = k \<and> hr_id q = i) hs)"
  by (induction hs) auto

lemma upsert_head_Inr:
  assumes "upsert_head d h prior = Inr d'"
  shows "head_of d' k i = (if (k, i) = (hr_kind h, hr_id h) then Some h else head_of d k i)"
    "\<exists>hs. d' = d\<lparr>db_heads := hs\<rparr>"
    "distinct (map (\<lambda>q. (hr_kind q, hr_id q)) (db_heads d)) \<Longrightarrow> distinct (map (\<lambda>q. (hr_kind q, hr_id q)) (db_heads d'))"
    "q \<in> set (db_heads d') \<Longrightarrow> q = h \<or> q \<in> set (db_heads d) \<and> (hr_kind q, hr_id q) \<noteq> (hr_kind h, hr_id h)"
    "length (db_heads d') = length (db_heads d) + (if head_of d (hr_kind h) (hr_id h) = None then 1 else 0)"
proof -
  let ?f = "\<lambda>q. if hr_kind q = hr_kind h \<and> hr_id q = hr_id h then h else q"
  have same: "map (\<lambda>q. (hr_kind q, hr_id q)) (map ?f hs) = map (\<lambda>q. (hr_kind q, hr_id q)) hs" for hs by auto
  consider (fresh) "head_of d (hr_kind h) (hr_id h) = None" "d' = d\<lparr>db_heads := db_heads d @ [h]\<rparr>"
    | (known) old where "head_of d (hr_kind h) (hr_id h) = Some old" "d' = d\<lparr>db_heads := map ?f (db_heads d)\<rparr>"
    using assms by (auto simp: upsert_head_def split: option.splits if_splits)
  then have "head_of d' k i = (if (k, i) = (hr_kind h, hr_id h) then Some h else head_of d k i)
    \<and> (\<exists>hs. d' = d\<lparr>db_heads := hs\<rparr>)
    \<and> (distinct (map (\<lambda>q. (hr_kind q, hr_id q)) (db_heads d)) \<longrightarrow> distinct (map (\<lambda>q. (hr_kind q, hr_id q)) (db_heads d')))
    \<and> (q \<in> set (db_heads d') \<longrightarrow> q = h \<or> q \<in> set (db_heads d) \<and> (hr_kind q, hr_id q) \<noteq> (hr_kind h, hr_id h))
    \<and> length (db_heads d') = length (db_heads d) + (if head_of d (hr_kind h) (hr_id h) = None then 1 else 0)"
  proof cases
    case fresh
    have n: "\<forall>q \<in> set (db_heads d). (hr_kind q, hr_id q) \<noteq> (hr_kind h, hr_id h)"
      using fresh(1) by (auto simp: head_of_def find_None_iff)
    have "find P (xs @ [h]) = (case find P xs of None \<Rightarrow> if P h then Some h else None | Some q \<Rightarrow> Some q)" for P xs
      by (induction xs) auto
    then show ?thesis using fresh n by (auto simp: head_of_def split: option.splits)
  next
    case (known old)
    then show ?thesis by (auto simp: head_of_def find_map_replaced same simp del: map_map split: if_splits)
  qed
  then show "head_of d' k i = (if (k, i) = (hr_kind h, hr_id h) then Some h else head_of d k i)"
    "\<exists>hs. d' = d\<lparr>db_heads := hs\<rparr>"
    "distinct (map (\<lambda>q. (hr_kind q, hr_id q)) (db_heads d)) \<Longrightarrow> distinct (map (\<lambda>q. (hr_kind q, hr_id q)) (db_heads d'))"
    "q \<in> set (db_heads d') \<Longrightarrow> q = h \<or> q \<in> set (db_heads d) \<and> (hr_kind q, hr_id q) \<noteq> (hr_kind h, hr_id h)"
    "length (db_heads d') = length (db_heads d) + (if head_of d (hr_kind h) (hr_id h) = None then 1 else 0)"
    by auto
qed

subsection \<open>One intent\<close>

text \<open>An intent that may be appended after \<open>es\<close>, taking its aggregate to status \<open>t\<close>.\<close>

definition ready :: "event_envelope list \<Rightarrow> command_request \<Rightarrow> event_intent \<Rightarrow> lifecycle_status \<Rightarrow> bool" where
  "ready es q i t \<longleftrightarrow>
     map_of (ce_expected_versions (cr_command q)) (ei_aggregate_id i) = Some (int (length (stream_of es (intent_key i))))
     \<and> is_edge (ei_aggregate_kind i) (stream_status (stream_of es (intent_key i))) (ei_event_kind i) t"

lemma heads_ok_None: "heads_ok d es \<Longrightarrow> head_of d k i = None \<longleftrightarrow> stream_of es (k, i) = []"
  unfolding heads_ok_def by (drule spec [of _ "(k, i)"]) (auto split: if_splits)

lemma heads_ok_Some:
  assumes "heads_ok d es" "head_of d k i = Some h"
  shows "stream_of es (k, i) \<noteq> [] \<and> hr_version h = int (length (stream_of es (k, i))) \<and> hr_digest h = last_digest (stream_of es (k, i))"
  using assms(1) unfolding heads_ok_def by (rule allE [of _ "(k, i)"]) (auto simp: assms(2) split: if_splits)

lemma map_lifecycle_value:
  "map_option lifecycle_status_value st = Some s \<Longrightarrow> parse_lifecycle_status s = st"
  by (cases st) auto

lemma current_status_stream:
  assumes "appending d es" "current_status d i = Inr s" "ei_aggregate_kind i \<noteq> AK_SYSTEM"
  shows "s = stream_status (stream_of es (intent_key i))"
proof -
  let ?st = "stream_of es (intent_key i)"
  have r: "replay (ei_aggregate_kind i) (map ee_kind ?st) = Inr (stream_status ?st)"
    using chain_replay [of es "ei_aggregate_kind i"] assms(1,3) by (simp add: intent_key_def appending_def)
  show ?thesis
  proof (cases "db_hotpath d")
    case True
    show ?thesis
    proof (cases "head_of d (fst (intent_key i)) (snd (intent_key i))")
      case None
      then have "?st = []" using assms(1) heads_ok_None [of d es] by (simp add: appending_def)
      then show ?thesis using None assms(2) True by (simp add: current_status_def stream_status_def)
    next
      case (Some h)
      then have h: "h \<in> set (db_heads d)" "(hr_kind h, hr_id h) = intent_key i" by (auto dest: head_of_Some)
      then have "hr_status h = map_option lifecycle_status_value (stream_status ?st)"
        using assms(1) True by (auto simp: appending_def heads_sealed_def head_sealed_def Let_def)
      then show ?thesis using Some assms(2) True
        by (auto simp: current_status_def map_res_Inr of_option_Inr split: option.splits)
    qed
  next
    case False
    have "list_all2 stored_as ?st (stream_rows d (fst (intent_key i)) (snd (intent_key i)))"
      using stream_rows_stored [of es d "fst (intent_key i)" "snd (intent_key i)"] assms(1) by (simp add: appending_def)
    then have "map_all (\<lambda>r. of_option (StoreValue (ev_kind r @ '' is not a valid EventKind'')) (parse_event_kind (ev_kind r)))
        (stream_rows d (fst (intent_key i)) (snd (intent_key i))) = Inr (map ee_kind ?st)"
      by (induction rule: list_all2_induct) (auto dest!: stored_columns)
    then show ?thesis using False assms(2) r by (simp add: current_status_def as_contract_def)
  qed
qed

lemma validate_intent_ready:
  assumes "appending d es" "validate_intent d q i = Inr (k, t)"
  shows "k = intent_key i \<and> ready es q i t"
proof -
  let ?h = "head_of d (fst (intent_key i)) (snd (intent_key i))"
  obtain s where s: "current_status d i = Inr s" "transition (ei_aggregate_kind i) s (ei_event_kind i) = Inr t" "k = intent_key i"
    and v: "map_of (ce_expected_versions (cr_command q)) (ei_aggregate_id i)
      = Some (case ?h of None \<Rightarrow> 0 | Some hr \<Rightarrow> hr_version hr)"
    using assms(2)
    by (auto simp: validate_intent_def Let_def bind_res_Inr contract_conflicts_Inr as_contract_Inr map_res_Inr
        guards_Inr expected_for_def of_option_Inr simp del: guards.simps)
  have e: "is_edge (ei_aggregate_kind i) s (ei_event_kind i) t" using s(2) by (simp add: transition_iff_edge)
  then have ns: "ei_aggregate_kind i \<noteq> AK_SYSTEM" by (auto simp: system_no_edge)
  have h: "heads_ok d es" using assms(1) by (simp add: appending_def)
  have "(case ?h of None \<Rightarrow> 0 | Some hr \<Rightarrow> hr_version hr) = int (length (stream_of es (intent_key i)))"
  proof (cases ?h)
    case None
    then show ?thesis using heads_ok_None [OF h, of "fst (intent_key i)" "snd (intent_key i)"] by simp
  next
    case (Some hr)
    then show ?thesis using heads_ok_Some [OF h Some] by simp
  qed
  then show ?thesis using s v e current_status_stream [OF assms(1) s(1) ns] by (simp add: ready_def)
qed

text \<open>The tables an append does not touch.\<close>

definition same_rest :: "db \<Rightarrow> db \<Rightarrow> bool" where
  "same_rest d d' \<longleftrightarrow> db_idempotency d' = db_idempotency d \<and> db_hotpath d' = db_hotpath d \<and> db_checkpoint d' = db_checkpoint d
     \<and> db_cursor d' = db_cursor d \<and> db_obligations d' = db_obligations d \<and> db_imports d' = db_imports d
     \<and> db_bindings d' = db_bindings d"

lemma strict_sorted_snoc: "sorted_wrt (<) (xs @ [x]) \<longleftrightarrow> sorted_wrt (<) xs \<and> (\<forall>y \<in> set xs. y < (x :: int))"
  by (auto simp: sorted_wrt_append)

lemma stored_sequences: "list_all2 stored_as es rs \<Longrightarrow> map ev_sequence rs = map ee_global_sequence es"
  by (induction rule: list_all2_induct) (auto dest: stored_columns)

lemma row_of_event_fields [simp]:
  "ev_sequence (row_of_event e t) = ee_global_sequence e" "ev_import (row_of_event e t) = None"
  "ev_training (row_of_event e t) = 0" "ev_json (row_of_event e t) = t" "ev_digest (row_of_event e t) = ee_event_digest e"
  "ev_id (row_of_event e t) = ee_event_id e"
  "(row_of_event e t)\<lparr>ev_import := None, ev_training := 0\<rparr> = row_of_event e t"
  by (simp_all add: row_of_event_def)

lemma append_event_follows:
  assumes a: "append_event d q dg states (int (length es) + 1) (last_digest es) i = Inr (e, d')"
    and m: "appending d es" "ready es q i t" "map_of states (intent_key i) = Some t"
    and c: "command_digest (cr_command q) = Inr dg" "ce_wf (cr_command q)"
  shows "follows es e \<and> appending d' (es @ [e]) \<and> same_rest d d' \<and> intent_of_event e = i \<and> ee_command e = cr_command q
    \<and> (\<exists>t. db_events d' = db_events d @ [row_of_event e t])
    \<and> length (db_heads d') = length (db_heads d) + (if ee_aggregate_version e = 1 then 1 else 0)"
proof -
  let ?k = "intent_key i" and ?st = "stream_of es (intent_key i)"
  let ?pa = "case head_of d (fst ?k) (snd ?k) of None \<Rightarrow> zero_digest | Some h \<Rightarrow> hr_digest h"
  have h: "heads_ok d es" "keyed d" "chain es" "list_all2 stored_as es (db_events d)" "heads_sealed d es"
    using m(1) by (simp_all add: appending_def)
  have ex: "map_of (ce_expected_versions (cr_command q)) (ei_aggregate_id i) = Some (int (length ?st))"
    and edge: "is_edge (ei_aggregate_kind i) (stream_status ?st) (ei_event_kind i) t"
    using m(2) by (simp_all add: ready_def)
  obtain eid json d1 hdg where
    eid: "deterministic_identifier ''event'' (event_identity dg (ei_aggregate_id i) (int (length ?st) + 1) (ei_event_kind i)) = Inr eid"
    and cr: "create_event_envelope eid (ei_event_kind i) (ei_aggregate_kind i) (ei_aggregate_id i) (int (length ?st) + 1)
      (int (length es) + 1) (last_digest es) ?pa (cr_occurred_at_utc q) (cr_monotonic_elapsed_ms q) (cr_command q) = Inr e"
    and js: "canonical_text (event_envelope_to_dict e) = Inr json"
    and ins: "insert_event d (row_of_event e json) = Inr d1"
    and hdg: "aggregate_head_digest (fst ?k) (snd ?k) (ee_aggregate_version e) (ee_event_digest e) (Some t) = Inr hdg"
    and up: "upsert_head d1 \<lparr>hr_kind = fst ?k, hr_id = snd ?k, hr_version = ee_aggregate_version e, hr_digest = ee_event_digest e,
         hr_status = (if db_hotpath d then Some (lifecycle_status_value t) else None),
         hr_head_digest = (if db_hotpath d then Some hdg else None)\<rparr> (ee_prior_aggregate_digest e) = Inr d'"
    using a by (auto simp: append_event_def expected_for_def ex m(3) Let_def bind_res_Inr as_contract_Inr)
  note ce = create_event_envelope_Inr [OF cr]
  have key: "event_key e = ?k" using ce by (simp add: event_key_def intent_key_def)
  have pa: "?pa = last_digest ?st"
  proof (cases "head_of d (fst ?k) (snd ?k)")
    case None
    then show ?thesis using heads_ok_None [OF h(1), of "fst ?k" "snd ?k"] by simp
  next
    case (Some hr)
    then show ?thesis using heads_ok_Some [OF h(1) Some] by simp
  qed
  have ns: "ei_aggregate_kind i \<noteq> AK_SYSTEM" "ei_event_kind i \<noteq> EK_HISTORY_IMPORTED"
    using edge history_no_edge system_no_edge by metis+
  have wf: "ee_wf e" using ce c(2) by (simp add: ee_wf_def)
  have rp: "replay (ei_aggregate_kind i) (map ee_kind ?st) = Inr (stream_status ?st)"
    using chain_replay [OF h(3) ns(1)] by (simp add: intent_key_def)
  have lc: "lifecycle_check e (map ee_kind ?st) = Inr ()"
    using ce rp edge ns(1) by (auto simp: lifecycle_check_iff)
  have idn: "expected_event_id e = Inr (ee_event_id e)"
    using ce ns(2) eid c(1) by (simp add: expected_event_id_def as_contract_def)
  have fol: "follows es e" using ce wf idn lc key pa by (simp add: follows_def Let_def)
  note ii = conjunct1 [OF insert_event_Inr [OF ins]]
  note u = upsert_head_Inr [OF up]
  have d': "db_events d' = db_events d @ [row_of_event e json]" "same_rest d d'"
    using u(2) ii by (auto simp: same_rest_def)
  have st: "stored_as e (row_of_event e json)" using wf js ns(2) ce by (auto simp: stored_as_def provenance_ok_def)
  have rows: "list_all2 stored_as (es @ [e]) (db_events d')" using h(4) st d'(1) by (simp add: list_all2_appendI)
  have "\<forall>y \<in> set (map ev_sequence (db_events d)). y < int (length es) + 1"
    unfolding stored_sequences [OF h(4)] chain_sequences [OF h(3)] by simp
  then have srt: "sorted_wrt (<) (map ev_sequence (db_events d'))"
    using h(2) ce d'(1) unfolding keyed_def by (simp add: strict_sorted_snoc del: set_map)
  have kd: "keyed d'" using srt u(3) h(2) ii d'(2) by (simp add: keyed_def same_rest_def)
  have ho: "heads_ok d' (es @ [e])"
    unfolding heads_ok_def
  proof
    fix k
    show "map_option (\<lambda>h. (hr_version h, hr_digest h)) (head_of d' (fst k) (snd k)) = (if stream_of (es @ [e]) k = [] then None
      else Some (int (length (stream_of (es @ [e]) k)), last_digest (stream_of (es @ [e]) k)))"
    proof (cases "k = ?k")
      case True
      then show ?thesis using u(1) [of "fst k" "snd k"] ce by (simp add: stream_of_snoc key)
    next
      case False
      then have "head_of d' (fst k) (snd k) = head_of d (fst k) (snd k)"
        using u(1) [of "fst k" "snd k"] ii by (auto simp: head_of_def prod_eq_iff)
      then show ?thesis using h(1) False by (simp add: heads_ok_def stream_of_snoc key)
    qed
  qed
  have hs: "heads_sealed d' (es @ [e])"
    unfolding heads_sealed_def
  proof (intro impI ballI)
    fix q assume hp: "db_hotpath d'" and qh: "q \<in> set (db_heads d')"
    have hp': "db_hotpath d" using hp d'(2) by (simp add: same_rest_def)
    have "next_status (stream_status ?st) e = Some t"
      using edge ce ns(2) by (simp add: next_status_def transition_iff_edge [THEN iffD2])
    then have nt: "stream_status (?st @ [e]) = Some t" by (simp add: stream_status_def)
    from u(4) [OF qh] show "head_sealed (es @ [e]) q"
    proof
      assume "q = \<lparr>hr_kind = fst ?k, hr_id = snd ?k, hr_version = ee_aggregate_version e, hr_digest = ee_event_digest e,
         hr_status = (if db_hotpath d then Some (lifecycle_status_value t) else None),
         hr_head_digest = (if db_hotpath d then Some hdg else None)\<rparr>"
      then show ?thesis using hp' hdg nt by (simp add: head_sealed_def stream_of_snoc key)
    next
      assume o: "q \<in> set (db_heads d1) \<and> (hr_kind q, hr_id q) \<noteq>
        (hr_kind \<lparr>hr_kind = fst ?k, hr_id = snd ?k, hr_version = ee_aggregate_version e, hr_digest = ee_event_digest e,
         hr_status = (if db_hotpath d then Some (lifecycle_status_value t) else None),
         hr_head_digest = (if db_hotpath d then Some hdg else None)\<rparr>,
         hr_id \<lparr>hr_kind = fst ?k, hr_id = snd ?k, hr_version = ee_aggregate_version e, hr_digest = ee_event_digest e,
         hr_status = (if db_hotpath d then Some (lifecycle_status_value t) else None),
         hr_head_digest = (if db_hotpath d then Some hdg else None)\<rparr>)"
      then have "event_key e \<noteq> (hr_kind q, hr_id q)" by (simp add: key prod_eq_iff) auto
      moreover have "head_sealed es q" using o h(5) hp' ii by (simp add: heads_sealed_def)
      ultimately show ?thesis by (simp add: head_sealed_def stream_of_snoc)
    qed
  qed
  have "chain (es @ [e])" using h(3) fol by (rule chain_snoc)
  then have ap: "appending d' (es @ [e])" using kd rows ho hs by (simp add: appending_def)
  have ln: "length (db_heads d') = length (db_heads d) + (if ee_aggregate_version e = 1 then 1 else 0)"
    using u(5) ii heads_ok_None [OF h(1), of "fst ?k" "snd ?k"] ce by (simp add: head_of_def)
  show ?thesis using fol ap d' ln ce by (auto simp: intent_of_event_def)
qed

subsection \<open>All intents of a command\<close>

lemma intent_keys_distinct: "distinct (map ei_aggregate_id is) \<Longrightarrow> distinct (map intent_key is)"
  by (induction "is") (auto simp: intent_key_def)

lemma ready_after:
  assumes "ready es q j t" "event_key e \<noteq> intent_key j"
  shows "ready (es @ [e]) q j t"
  using assms by (simp add: ready_def stream_of_snoc)

lemma same_rest_trans: "same_rest a b \<Longrightarrow> same_rest b c \<Longrightarrow> same_rest a c"
  by (simp add: same_rest_def)

lemma intent_of_event_key: "intent_of_event e = i \<Longrightarrow> event_key e = intent_key i"
  by (auto simp: intent_of_event_def event_key_def intent_key_def)

definition group_of :: "command_request \<Rightarrow> event_intent list \<Rightarrow> event_envelope list \<Rightarrow> bool" where
  "group_of q is es \<longleftrightarrow> map intent_of_event es = is \<and> (\<forall>e \<in> set es. ee_command e = cr_command q)"

lemma append_intents_follow:
  assumes "append_intents d q dg states (int (length es) + 1) (last_digest es) is = Inr (new, d')"
    "appending d es" "\<forall>i \<in> set is. \<exists>t. map_of states (intent_key i) = Some t \<and> ready es q i t"
    "distinct (map intent_key is)" "command_digest (cr_command q) = Inr dg" "ce_wf (cr_command q)"
  shows "appending d' (es @ new) \<and> same_rest d d' \<and> group_of q is new
    \<and> (\<exists>ts. length ts = length new \<and> db_events d' = db_events d @ map2 row_of_event new ts)
    \<and> length (db_heads d') = length (db_heads d) + length (filter (\<lambda>e. ee_aggregate_version e = 1) new)"
  using assms
proof (induction "is" arbitrary: d es new)
  case Nil
  then show ?case by (simp add: same_rest_def group_of_def)
next
  case (Cons i "is")
  obtain e d1 new' where e: "append_event d q dg states (int (length es) + 1) (last_digest es) i = Inr (e, d1)"
    "append_intents d1 q dg states (int (length (es @ [e])) + 1) (last_digest (es @ [e])) is = Inr (new', d')"
    "new = e # new'"
    using Cons.prems(1) by (auto simp: bind_res_Inr map_res_Inr)
  obtain t where t: "map_of states (intent_key i) = Some t" "ready es q i t" using Cons.prems(3) by auto
  have s: "appending d1 (es @ [e])" "same_rest d d1" "intent_of_event e = i" "ee_command e = cr_command q"
    "\<exists>t. db_events d1 = db_events d @ [row_of_event e t]"
    "length (db_heads d1) = length (db_heads d) + (if ee_aggregate_version e = 1 then 1 else 0)"
    using append_event_follows [OF e(1) Cons.prems(2) t(2,1) Cons.prems(5,6)] by simp_all
  have r: "\<forall>j \<in> set is. \<exists>t. map_of states (intent_key j) = Some t \<and> ready (es @ [e]) q j t"
  proof
    fix j assume j: "j \<in> set is"
    then obtain t where "map_of states (intent_key j) = Some t" "ready es q j t" using Cons.prems(3) by auto
    moreover have "event_key e \<noteq> intent_key j"
      using Cons.prems(4) j intent_of_event_key [OF s(3)] by (auto simp: image_iff)
    ultimately show "\<exists>t. map_of states (intent_key j) = Some t \<and> ready (es @ [e]) q j t"
      using ready_after by blast
  qed
  have ih: "appending d' ((es @ [e]) @ new')" "same_rest d1 d'" "group_of q is new'"
    "\<exists>ts. length ts = length new' \<and> db_events d' = db_events d1 @ map2 row_of_event new' ts"
    "length (db_heads d') = length (db_heads d1) + length (filter (\<lambda>e. ee_aggregate_version e = 1) new')"
    using Cons.IH [OF e(2) s(1) r] Cons.prems(4-6) by simp_all
  obtain t ts where "db_events d1 = db_events d @ [row_of_event e t]" "length ts = length new'"
    "db_events d' = db_events d1 @ map2 row_of_event new' ts"
    using ih(4) s(5) by auto
  then have "length (t # ts) = length new \<and> db_events d' = db_events d @ map2 row_of_event new (t # ts)"
    by (simp add: e(3))
  then have ex: "\<exists>ts. length ts = length new \<and> db_events d' = db_events d @ map2 row_of_event new ts" by (rule exI)
  have "same_rest d d'" using s(2) ih(2) by (rule same_rest_trans)
  moreover have "group_of q (i # is) new" using ih(3) s(3,4) by (simp add: e(3) group_of_def)
  ultimately show ?case using ih(1,5) s(6) ex by (simp add: e(3))
qed

lemma validated_ready:
  assumes "validate_versions_and_transitions d q is = Inr states" "appending d es" "distinct (map intent_key is)"
  shows "\<forall>i \<in> set is. \<exists>t. map_of states (intent_key i) = Some t \<and> ready es q i t"
proof -
  have l: "list_all2 (\<lambda>i p. validate_intent d q i = Inr p) is states"
    using assms(1) by (simp add: validate_versions_and_transitions_def map_all_Inr_iff)
  then have "list_all2 (\<lambda>i p. fst p = intent_key i \<and> ready es q i (snd p)) is states"
    by (rule list_all2_mono) (use validate_intent_ready [OF assms(2)] in \<open>auto simp: prod_eq_iff\<close>)
  then show ?thesis using assms(3)
  proof (induction rule: list_all2_induct)
    case (Cons i "is" p ps)
    obtain k t where p: "p = (k, t)" by (cases p)
    show ?case
    proof
      fix j assume "j \<in> set (i # is)"
      then show "\<exists>t. map_of (p # ps) (intent_key j) = Some t \<and> ready es q j t"
        using Cons p by (cases "j = i") (auto simp: image_iff)
    qed
  qed simp
qed

end
