(* ===== verification/Ledger_Commit.thy ===== *)
theory Ledger_Commit
  imports Ledger_Append
begin

section \<open>Commands against the ledger\<close>

text \<open>
  A store is in order (\<open>store_ok\<close>) when it replays, its heads are sealed with the status of their
  streams and its checkpoint stands at the tip. This theory shows that the deep verification
  establishes that and that \<open>execute\<close> keeps it, and what a committed command adds to the ledger.
\<close>

definition checkpoint_ok :: "db \<Rightarrow> bool" where
  "checkpoint_ok d \<longleftrightarrow> (db_hotpath d \<longrightarrow> (case db_checkpoint d of None \<Rightarrow> False
     | Some c \<Rightarrow> verify_authority_checkpoint_row c = Inr () \<and> (ck_sequence c, ck_digest c) = tip_of d
         \<and> ck_heads c = int (length (db_heads d))))"

definition ledger_ok :: "db \<Rightarrow> event_envelope list \<Rightarrow> bool" where
  "ledger_ok d es \<longleftrightarrow> keyed d \<and> ledger_view d es \<and> heads_sealed d es \<and> checkpoint_ok d"

definition store_ok :: "db \<Rightarrow> bool" where
  "store_ok d \<longleftrightarrow> keyed d \<and> (case replay_ledger d of Inl _ \<Rightarrow> False | Inr es \<Rightarrow> heads_sealed d es \<and> checkpoint_ok d)"

lemma store_ok_iff: "store_ok d \<longleftrightarrow> (\<exists>es. ledger_ok d es)"
  by (cases "keyed d") (auto simp: store_ok_def ledger_ok_def replay_ledger_iff [symmetric] split: sum.splits)

lemma ledger_ok_appending: "ledger_ok d es \<Longrightarrow> appending d es"
  by (simp add: ledger_ok_def appending_def ledger_view_def)

lemma ledger_ok_stored: "ledger_ok d es \<Longrightarrow> list_all2 stored_as es (events_in_order d)"
  by (simp add: ledger_ok_def ledger_view_def keyed_order)

lemma ledger_ok_chain: "ledger_ok d es \<Longrightarrow> chain es"
  by (simp add: ledger_ok_def ledger_view_def)

lemma appending_tip: "appending d es \<Longrightarrow> tip_of d = (int (length es), last_digest es)"
  by (simp add: appending_def tip_stored)

lemma chain_last: "chain es \<Longrightarrow> es \<noteq> [] \<Longrightarrow> ee_global_sequence (last es) = int (length es)"
  by (induction rule: chain.induct) (auto simp: follows_def Let_def)

lemma chain_nth: "chain es \<Longrightarrow> i < length es \<Longrightarrow> ee_global_sequence (es ! i) = int i + 1"
  using arg_cong [OF chain_sequences, of es "\<lambda>xs. xs ! i"] by simp

lemma chain_hd_after:
  assumes "chain (es @ new)" "new \<noteq> []"
  shows "ee_global_sequence (hd new) = int (length es) + 1 \<and> ee_prior_global_digest (hd new) = last_digest es"
proof -
  have "(es @ [hd new]) @ tl new = es @ new" using assms(2) by simp
  then have "chain (es @ [hd new])" using chain_prefix [of "es @ [hd new]" "tl new"] assms(1) by simp
  then show ?thesis by (simp add: chain_snoc_iff follows_def Let_def)
qed

lemma between_new:
  assumes "chain (es @ new)"
  shows "between (es @ new) (int (length es) + 1) (int (length (es @ new))) = new"
proof -
  have q: "ee_global_sequence ((es @ new) ! i) = int i + 1" if "i < length (es @ new)" for i
    using chain_nth [OF assms that] .
  have "\<forall>e \<in> set es. ee_global_sequence e < int (length es) + 1"
  proof
    fix e assume "e \<in> set es"
    then obtain i where "i < length es" "e = es ! i" by (auto simp: in_set_conv_nth)
    then show "ee_global_sequence e < int (length es) + 1" using q [of i] by (simp add: nth_append)
  qed
  moreover have "\<forall>e \<in> set new. int (length es) + 1 \<le> ee_global_sequence e \<and> ee_global_sequence e \<le> int (length (es @ new))"
  proof
    fix e assume "e \<in> set new"
    then obtain i where "i < length new" "e = new ! i" by (auto simp: in_set_conv_nth)
    then show "int (length es) + 1 \<le> ee_global_sequence e \<and> ee_global_sequence e \<le> int (length (es @ new))"
      using q [of "length es + i"] by (simp add: nth_append)
  qed
  ultimately show ?thesis by (auto simp: between_def filter_empty_conv filter_id_conv)
qed

subsection \<open>The checkpoint\<close>

lemma checkpoint_row_iff:
  "verify_authority_checkpoint_row c = Inr u \<longleftrightarrow> utc_ok (ck_verified_at c) \<and> 0 \<le> ck_sequence c \<and> 0 \<le> ck_heads c
     \<and> authority_checkpoint_digest (ck_sequence c) (ck_digest c) (ck_heads c) (ck_verified_at c) = Inr (ck_own_digest c)"
proof (cases "utc_ok (ck_verified_at c)")
  case True
  then have "require_utc_milliseconds (PStr (ck_verified_at c)) = Inr (ck_verified_at c)" by (simp add: require_utc_Inr)
  then show ?thesis using True
    by (cases "authority_checkpoint_digest (ck_sequence c) (ck_digest c) (ck_heads c) (ck_verified_at c)")
      (auto simp: verify_authority_checkpoint_row_def)
next
  case False
  then have "require_utc_milliseconds (PStr (ck_verified_at c)) \<noteq> Inr s" for s by (auto simp: require_utc_Inr)
  then obtain e where "require_utc_milliseconds (PStr (ck_verified_at c)) = Inl e"
    by (cases "require_utc_milliseconds (PStr (ck_verified_at c))") auto
  then show ?thesis using False by (simp add: verify_authority_checkpoint_row_def)
qed

lemma advance_checkpoint_frame:
  assumes "advance_authority_checkpoint d es = Inr d'"
  shows "\<exists>c. d' = d\<lparr>db_checkpoint := c\<rparr>"
proof (cases "es = []")
  case True
  then show ?thesis using assms by (intro exI [of _ "db_checkpoint d"]) (simp add: advance_authority_checkpoint_def)
next
  case False
  then show ?thesis using assms by (auto simp: advance_authority_checkpoint_def bind_res_Inr Let_def)
qed

lemma advance_checkpoint_ok:
  assumes "advance_authority_checkpoint d es = Inr d'" "es \<noteq> []" "0 < ee_global_sequence (last es)"
    "tip_of d = (ee_global_sequence (last es), ee_event_digest (last es))"
    "\<And>c. db_checkpoint d = Some c \<Longrightarrow> ck_heads c + int (length (filter (\<lambda>e. ee_aggregate_version e = 1) es)) = int (length (db_heads d))"
  shows "checkpoint_ok d'"
proof -
  obtain c own where c: "db_checkpoint d = Some c" "verify_authority_checkpoint_row c = Inr ()"
    "authority_checkpoint_digest (ee_global_sequence (last es)) (ee_event_digest (last es))
       (ck_heads c + int (length (filter (\<lambda>e. ee_aggregate_version e = 1) es))) (ck_verified_at c) = Inr own"
    "d' = d\<lparr>db_checkpoint := Some \<lparr>ck_sequence = ee_global_sequence (last es), ck_digest = ee_event_digest (last es),
       ck_heads = ck_heads c + int (length (filter (\<lambda>e. ee_aggregate_version e = 1) es)), ck_verified_at = ck_verified_at c,
       ck_own_digest = own\<rparr>\<rparr>"
    using assms(1,2) by (auto simp: advance_authority_checkpoint_def bind_res_Inr Let_def as_contract_Inr of_option_Inr)
  have t: "tip_of d' = tip_of d" by (simp add: c(4) tip_of_def last_event_def events_in_order_def)
  show ?thesis using c(2,3) assms(3,4) assms(5) [OF c(1)] t
    by (simp add: checkpoint_ok_def c(4) checkpoint_row_iff)
qed

lemma append_events_follow:
  assumes "append_events d q dg states is = Inr (new, d')" "ledger_ok d es" "is \<noteq> []"
    "\<forall>i \<in> set is. \<exists>t. map_of states (intent_key i) = Some t \<and> ready es q i t"
    "distinct (map intent_key is)" "command_digest (cr_command q) = Inr dg" "ce_wf (cr_command q)"
  shows "appending d' (es @ new) \<and> checkpoint_ok d' \<and> group_of q is new \<and> new \<noteq> []
    \<and> (\<exists>ts. length ts = length new \<and> db_events d' = db_events d @ map2 row_of_event new ts)
    \<and> db_idempotency d' = db_idempotency d \<and> db_imports d' = db_imports d"
proof -
  have ap: "appending d es" using assms(2) by (rule ledger_ok_appending)
  obtain d1 where d1: "append_intents d q dg states (int (length es) + 1) (last_digest es) is = Inr (new, d1)"
    "if db_hotpath d then advance_authority_checkpoint d1 new = Inr d' else d' = d1"
    using assms(1) by (auto simp: append_events_def bind_res_Inr map_res_Inr appending_tip [OF ap] split: if_splits)
  have f: "appending d1 (es @ new)" "same_rest d d1" "group_of q is new"
    "\<exists>ts. length ts = length new \<and> db_events d1 = db_events d @ map2 row_of_event new ts"
    "length (db_heads d1) = length (db_heads d) + length (filter (\<lambda>e. ee_aggregate_version e = 1) new)"
    using append_intents_follow [OF d1(1) ap assms(4-7)] by simp_all
  have ne: "new \<noteq> []" using f(3) assms(3) by (auto simp: group_of_def)
  have fr: "\<exists>c. d' = d1\<lparr>db_checkpoint := c\<rparr>"
  proof (cases "db_hotpath d")
    case True
    then show ?thesis using d1(2) advance_checkpoint_frame by simp
  next
    case False
    then show ?thesis using d1(2) by (intro exI [of _ "db_checkpoint d1"]) simp
  qed
  have c: "chain (es @ new)" using f(1) by (simp add: appending_def)
  have l: "ee_global_sequence (last new) = int (length (es @ new))" "last_digest (es @ new) = ee_event_digest (last new)"
    using chain_last [OF c] ne by (simp_all add: last_digest_def)
  have ok: "checkpoint_ok d'"
  proof (cases "db_hotpath d")
    case True
    have ad: "advance_authority_checkpoint d1 new = Inr d'" using d1(2) True by simp
    show ?thesis
    proof (rule advance_checkpoint_ok [OF ad ne])
      show "0 < ee_global_sequence (last new)" using l(1) ne by (cases new) simp_all
      show "tip_of d1 = (ee_global_sequence (last new), ee_event_digest (last new))"
        using appending_tip [OF f(1)] l by simp
      fix c assume "db_checkpoint d1 = Some c"
      then have "db_checkpoint d = Some c" using f(2) by (simp add: same_rest_def)
      then have "ck_heads c = int (length (db_heads d))" using assms(2) True by (simp add: ledger_ok_def checkpoint_ok_def)
      then show "ck_heads c + int (length (filter (\<lambda>e. ee_aggregate_version e = 1) new)) = int (length (db_heads d1))"
        using f(5) by simp
    qed
  next
    case False
    then show ?thesis using d1(2) f(2) by (simp add: checkpoint_ok_def same_rest_def)
  qed
  obtain cc where cc: "d' = d1\<lparr>db_checkpoint := cc\<rparr>" using fr by blast
  have "appending d' (es @ new)" using f(1)
    by (simp add: cc appending_def keyed_def heads_ok_def heads_sealed_def head_of_def)
  then show ?thesis using ok f(2-4) ne fr by (auto simp: same_rest_def)
qed

subsection \<open>The result record\<close>

text \<open>The row a committed command leaves behind, as a function of request and digests.\<close>

definition records_request :: "command_request \<Rightarrow> idempotency_row \<Rightarrow> bool" where
  "records_request q r \<longleftrightarrow> ir_principal r = cr_principal_id q \<and> ir_key r = ce_command_id (cr_command q)
     \<and> command_digest (cr_command q) = Inr (ir_command_digest r) \<and> ir_schema r = cr_result_schema_version q
     \<and> canonical_text (cr_result q) = Inr (ir_result_json r) \<and> canonical_digest (cr_result q) = Inr (ir_result_digest r)
     \<and> ir_created r = cr_occurred_at_utc q"

lemma recorded_result_ok:
  assumes "cr_wf q" "records_request q r"
  shows "result_ok r"
proof -
  have t: "canonical_text (cr_result q) = Inr (ir_result_json r)" and dg: "canonical_digest (cr_result q) = Inr (ir_result_digest r)"
    using assms(2) by (simp_all add: records_request_def)
  note rl = canonical_text_reload [OF t]
  have m: "is_mapping (reloaded (cr_result q))"
    using reloaded_mapping [OF _ t] rl assms(1) by (simp add: cr_wf_def)
  have "canonical_bytes (reloaded (cr_result q)) = canonical_bytes (cr_result q)"
    using rl t by (simp add: canonical_text_bytes)
  then have "canonical_digest (reloaded (cr_result q)) = Inr (ir_result_digest r)" using dg by (simp add: canonical_digest_def)
  then show ?thesis using rl m assms by (simp add: result_ok_def records_request_def cr_wf_def)
qed

lemma map_single_set: "map f xs = ys \<Longrightarrow> x \<in> set xs \<Longrightarrow> f x \<in> set ys"
  by auto

lemma recorded_record_ok:
  assumes q: "cr_wf q" "records_request q r" and c: "chain (es @ new)" "new \<noteq> []" "group_of q (sorted_intents q) new"
    and r: "ir_first r = int (length es) + 1" "ir_last r = int (length (es @ new))" "event_set_digest new = Inr (ir_event_set r)"
  shows "record_ok (es @ new) r"
proof -
  have b: "between (es @ new) (ir_first r) (ir_last r) = new" using between_new [OF c(1)] r by simp
  have h: "ee_command (hd new) = cr_command q" using c(2,3) by (simp add: group_of_def)
  have "mset (map intent_of_event new) = mset (cr_events q)" using c(3) by (simp add: group_of_def sorted_intents_def)
  then have "validate_command_event_intents (cr_command q) (map intent_of_event new)
      = validate_command_event_intents (cr_command q) (cr_events q)"
    by (rule validate_intents_mset)
  then have "group_valid new" using q(1) h by (simp add: group_valid_def cr_wf_def)
  moreover have "names_group r new"
    using c(2,3) r q h by (auto simp: names_group_def Let_def group_of_def records_request_def cr_wf_def)
  ultimately show ?thesis using recorded_result_ok [OF q] by (simp add: record_ok_def b)
qed

lemma record_ok_append:
  assumes "record_ok es r" "chain (es @ new)"
  shows "record_ok (es @ new) r \<and> record_result (es @ new) r = record_result es r"
proof -
  have c: "chain es" using assms(2) by (rule chain_prefix)
  have "ir_last r \<le> int (length es)" using names_group_range [OF c] assms(1) by (auto simp: record_ok_def)
  then have "between (es @ new) (ir_first r) (ir_last r) = between es (ir_first r) (ir_last r)"
    by (rule between_append [OF assms(2)])
  then show ?thesis using assms(1) by (simp add: record_ok_def record_result_def)
qed

lemma records_for_empty: "records_for d key = [] \<longleftrightarrow> key \<notin> ir_key ` set (db_idempotency d)"
  by (auto simp: records_for_def filter_empty_conv)

lemma records_ok_snoc:
  assumes "records_ok es rs" "chain (es @ new)" "new \<noteq> []" "record_ok (es @ new) r" "ir_key r \<notin> ir_key ` set rs"
    "ir_first r = int (length es) + 1" "ir_last r = int (length (es @ new))"
  shows "records_ok (es @ new) (rs @ [r])"
proof -
  have "{1 .. int (length es)} \<union> {int (length es) + 1 .. int (length (es @ new))} = {1 .. int (length (es @ new))}"
    by auto
  then have "(\<Union>r \<in> set (rs @ [r]). {ir_first r .. ir_last r}) = {1 .. int (length (es @ new))}"
    using assms(1,6,7) by (auto simp: records_ok_def)
  then show ?thesis using assms(1,4,5) record_ok_append [OF _ assms(2)] by (simp add: records_ok_def)
qed

lemma ready_not_history: "ready es q i t \<Longrightarrow> ei_event_kind i \<noteq> EK_HISTORY_IMPORTED"
  using history_no_edge by (auto simp: ready_def)

lemma imports_ok_append:
  assumes "imports_ok d es" "db_imports d' = db_imports d" "length ts = length new"
    "db_events d' = db_events d @ map2 row_of_event new ts" "\<forall>e \<in> set new. ee_kind e \<noteq> EK_HISTORY_IMPORTED"
  shows "imports_ok d' (es @ new)"
proof -
  have "\<forall>r \<in> set (map2 row_of_event new ts). ev_import r = None" by auto
  then have "concat (map (\<lambda>r. concat (map (\<lambda>x. case x of None \<Rightarrow> [] | Some i \<Rightarrow> [i]) [ev_import r])) (map2 row_of_event new ts)) = []"
    by (auto simp: concat_eq_Nil_conv)
  then show ?thesis using assms by (auto simp: imports_ok_def)
qed

subsection \<open>A fresh command\<close>

text \<open>What a commit adds: the events of the request, in order, and one record that names them.\<close>

definition committed :: "db \<Rightarrow> event_envelope list \<Rightarrow> command_request \<Rightarrow> db \<Rightarrow> event_envelope list \<Rightarrow> stored_result \<Rightarrow> bool" where
  "committed d es q d' new res \<longleftrightarrow> ledger_ok d' (es @ new) \<and> group_of q (sorted_intents q) new \<and> new \<noteq> []
     \<and> sr_event_ids res = map ee_event_id new \<and> cursor_at_tip d' \<and> (\<exists>ts. length ts = length new \<and> db_events d' = db_events d @ map2 row_of_event new ts)
     \<and> (\<exists>r. db_idempotency d' = db_idempotency d @ [r] \<and> records_request q r \<and> res = record_result (es @ new) r)"

lemma commit_fresh_ok:
  assumes "commit_fresh env proj d q dg json rdg = Inr (d', res)" "ledger_ok d es" "cr_wf q"
    "command_digest (cr_command q) = Inr dg" "canonical_text (cr_result q) = Inr json" "canonical_digest (cr_result q) = Inr rdg"
    "records_for d (ce_command_id (cr_command q)) = []"
  shows "\<exists>new. committed d es q d' new res"
proof -
  let ?row = "\<lambda>new sdg. \<lparr>ir_principal = cr_principal_id q, ir_key = ce_command_id (cr_command q), ir_command_digest = dg,
      ir_schema = cr_result_schema_version q, ir_result_json = json, ir_result_digest = rdg,
      ir_first = ee_global_sequence (hd new), ir_last = ee_global_sequence (last new), ir_event_set = sdg,
      ir_created = cr_occurred_at_utc q\<rparr>"
  obtain states new d1 d2 sdg where
    val: "validate_versions_and_transitions d q (sorted_intents q) = Inr states"
    and apd: "append_events d q dg states (sorted_intents q) = Inr (new, d1)"
    and cur: "advance_rolling_reaction_cursor d1 new = Inr d2"
    and sdg: "event_set_digest new = Inr sdg"
    and ins: "insert_idempotency d2 (?row new sdg) = Inr d'"
    and res: "res = \<lparr>sr_schema = cr_result_schema_version q, sr_text = json, sr_digest = rdg,
        sr_first = ee_global_sequence (hd new), sr_last = ee_global_sequence (last new), sr_event_set = sdg,
        sr_event_ids = map ee_event_id new\<rparr>"
    using assms(1) by (auto simp: commit_fresh_def bind_res_Inr as_contract_Inr)
  have ap0: "appending d es" using assms(2) by (rule ledger_ok_appending)
  have ms: "mset (sorted_intents q) = mset (cr_events q)" by (simp add: sorted_intents_def)
  have "distinct (map ei_aggregate_id (sorted_intents q))"
    using assms(3) ms mset_eq_imp_distinct_iff [of "map ei_aggregate_id (sorted_intents q)" "map ei_aggregate_id (cr_events q)"]
    by (simp add: cr_wf_def)
  then have dist: "distinct (map intent_key (sorted_intents q))" "sorted_intents q \<noteq> []"
    using intent_keys_distinct mset_eq_length [OF ms] assms(3) by (auto simp: cr_wf_def)
  have rd: "\<forall>i \<in> set (sorted_intents q). \<exists>t. map_of states (intent_key i) = Some t \<and> ready es q i t"
    using validated_ready [OF val ap0 dist(1)] .
  have f: "appending d1 (es @ new)" "checkpoint_ok d1" "group_of q (sorted_intents q) new" "new \<noteq> []"
    "\<exists>ts. length ts = length new \<and> db_events d1 = db_events d @ map2 row_of_event new ts"
    "db_idempotency d1 = db_idempotency d" "db_imports d1 = db_imports d"
    using append_events_follow [OF apd assms(2) dist(2) rd dist(1) assms(4)] assms(3) by (simp_all add: cr_wf_def)
  have c: "chain (es @ new)" using f(1) by (simp add: appending_def)
  note fr = advance_cursor_frame [OF cur]
  let ?r = "?row new sdg"
  note ii = insert_idempotency_Inr [OF ins]
  have nums: "ir_first ?r = int (length es) + 1" "ir_last ?r = int (length (es @ new))"
    using chain_hd_after [OF c f(4)] chain_last [OF c] f(4) by simp_all
  have rr: "records_request q ?r" using assms(4-6) by (simp add: records_request_def)
  have ev: "db_events d' = db_events d1" "db_idempotency d' = db_idempotency d @ [?r]" "db_heads d' = db_heads d1"
    "db_imports d' = db_imports d" "db_hotpath d' = db_hotpath d1" "db_checkpoint d' = db_checkpoint d1" "db_cursor d' = db_cursor d2"
    using fr ii f(6,7) by simp_all
  have rok: "record_ok (es @ new) ?r"
    using recorded_record_ok [OF assms(3) rr c f(4,3) nums] sdg by simp
  have recs: "records_ok (es @ new) (db_idempotency d')"
    using records_ok_snoc [OF _ c f(4) rok _ nums] assms(2,7) ev(2)
    by (simp add: ledger_ok_def ledger_view_def records_for_empty)
  have nh: "\<forall>e \<in> set new. ee_kind e \<noteq> EK_HISTORY_IMPORTED"
  proof
    fix e assume "e \<in> set new"
    then have "intent_of_event e \<in> set (sorted_intents q)" using f(3) map_single_set unfolding group_of_def by metis
    then show "ee_kind e \<noteq> EK_HISTORY_IMPORTED" using rd ready_not_history by (fastforce simp: intent_of_event_def)
  qed
  obtain ts where ts: "length ts = length new" "db_events d' = db_events d @ map2 row_of_event new ts" using f(5) ev(1) by auto
  have im: "imports_ok d' (es @ new)"
    using imports_ok_append [OF _ ev(4) ts nh] assms(2) by (simp add: ledger_ok_def ledger_view_def)
  have tip: "tip_of d' = tip_of d1" by (simp add: tip_of_def last_event_def events_in_order_def ev(1))
  have key: "keyed d'"
    using f(1,6) ii assms(2) unfolding appending_def keyed_def ev by (auto simp: fr)
  have ck: "checkpoint_ok d'" using f(2) by (auto simp: checkpoint_ok_def ev tip split: option.splits)
  have ld: "ledger_ok d' (es @ new)"
    using f(1) ck key recs im
    by (simp add: ledger_ok_def ledger_view_def appending_def ev heads_ok_def heads_sealed_def head_of_def)
  obtain cu where "db_cursor d' = Some cu" "cursor_intact cu" "cu_sequence cu = ee_global_sequence (last new)"
    "cu_digest cu = ee_event_digest (last new)"
    using advance_cursor_moves [OF cur] ev(7) by auto
  then have "cursor_at_tip d'"
    using tip appending_tip [OF f(1)] nums(2) f(4) by (simp add: cursor_at_tip_def last_digest_def)
  moreover have "res = record_result (es @ new) ?r"
    using res between_new [OF c] nums by (simp add: record_result_def)
  moreover have "sr_event_ids res = map ee_event_id new" by (simp add: res)
  ultimately show ?thesis using ld f(3,4) ts ev(2) rr unfolding committed_def by blast
qed

end
