(* ===== verification/Event_Store_Props.thy ===== *)
theory Event_Store_Props
  imports Ledger_Commit
begin

section \<open>What the event store guarantees\<close>

text \<open>
  The contract of the store towards its callers, as a locale over calls that may fail and states
  that remember answers, and its interpretation on \<open>execute\<close>; then the properties of the store
  itself: the replay is exactly the abstract ledger, execution keeps it, results are given once,
  lost updates are impossible, and a trusted anchor pins the history before it.
\<close>

subsection \<open>Remembered answers\<close>

locale remembering =
  fixes call :: "'s \<Rightarrow> 'q \<Rightarrow> ('s \<times> 'r) option"
    and ok :: "'s \<Rightarrow> bool"
    and wf :: "'q \<Rightarrow> bool"
    and admits :: "'s \<Rightarrow> 'q \<Rightarrow> bool"
    and remembers :: "'s \<Rightarrow> 'q \<Rightarrow> 'r \<Rightarrow> bool"
    and same_request :: "'q \<Rightarrow> 'q \<Rightarrow> bool"
  assumes call_ok: "ok s \<Longrightarrow> wf q \<Longrightarrow> call s q = Some (s', r) \<Longrightarrow> ok s'"
    and call_remembers: "ok s \<Longrightarrow> wf q \<Longrightarrow> call s q = Some (s', r) \<Longrightarrow> remembers s' q r"
    and call_keeps: "ok s \<Longrightarrow> wf p \<Longrightarrow> remembers s q r \<Longrightarrow> call s p = Some (s', r') \<Longrightarrow> remembers s' q r"
    and call_again: "ok s \<Longrightarrow> wf q \<Longrightarrow> wf q' \<Longrightarrow> remembers s q r \<Longrightarrow> same_request q q' \<Longrightarrow> admits s q' \<Longrightarrow> call s q' = Some (s, r)"
begin

primrec serve :: "'s \<Rightarrow> 'q list \<Rightarrow> 's" where
  "serve s [] = s"
| "serve s (p # ps) = serve (case call s p of None \<Rightarrow> s | Some (s', _) \<Rightarrow> s') ps"

lemma serve_keeps:
  assumes "ok s" "remembers s q r" "\<forall>p \<in> set ps. wf p"
  shows "ok (serve s ps) \<and> remembers (serve s ps) q r"
  using assms
proof (induction ps arbitrary: s)
  case (Cons p ps)
  have "ok (case call s p of None \<Rightarrow> s | Some (s', _) \<Rightarrow> s') \<and> remembers (case call s p of None \<Rightarrow> s | Some (s', _) \<Rightarrow> s') q r"
    using Cons.prems call_ok [of s p] call_keeps [of s p q r] by (auto split: option.splits)
  then show ?case using Cons.IH Cons.prems(3) by simp
qed simp

lemma same_answer:
  assumes "ok s" "wf q" "wf q'" "call s q = Some (s1, r)" "\<forall>p \<in> set ps. wf p" "same_request q q'" "admits (serve s1 ps) q'"
  shows "call (serve s1 ps) q' = Some (serve s1 ps, r)"
  using serve_keeps [OF call_ok [OF assms(1,2,4)] call_remembers [OF assms(1,2,4)] assms(5)] call_again assms by blast

end

subsection \<open>Calls of the store\<close>

text \<open>A call: the surroundings, the projection and the request. What the store remembers of a
  request is the record under its key.\<close>

type_synonym store_call = "store_env \<times> projection \<times> command_request"

definition call_store :: "db \<Rightarrow> store_call \<Rightarrow> (db \<times> stored_result) option" where
  "call_store d c = (case c of (env, proj, q) \<Rightarrow> (case execute env proj d q of Inl _ \<Rightarrow> None | Inr p \<Rightarrow> Some p))"

definition call_wf :: "store_call \<Rightarrow> bool" where
  "call_wf c \<longleftrightarrow> cr_wf (snd (snd c)) \<and> is_ok (canonical_digest (cr_result (snd (snd c))))"

definition call_admitted :: "db \<Rightarrow> store_call \<Rightarrow> bool" where
  "call_admitted d c \<longleftrightarrow> is_ok (admitted (fst c) d (snd (snd c)))"

definition answers :: "db \<Rightarrow> command_request \<Rightarrow> stored_result \<Rightarrow> bool" where
  "answers d q res \<longleftrightarrow> (\<exists>es r. ledger_ok d es \<and> r \<in> set (db_idempotency d) \<and> ir_principal r = cr_principal_id q
     \<and> ir_key r = ce_command_id (cr_command q) \<and> command_digest (cr_command q) = Inr (ir_command_digest r)
     \<and> res = record_result es r)"

lemma ledger_unique: "ledger_ok d es \<Longrightarrow> ledger_ok d fs \<Longrightarrow> es = fs"
  using replay_ledger_iff [of d es] replay_ledger_iff [of d fs] by (auto simp: ledger_ok_def)

lemma records_for_unique:
  assumes "ledger_ok d es" "r \<in> set (db_idempotency d)"
  shows "records_for d (ir_key r) = [r]"
proof -
  have dist: "distinct (map ir_key (db_idempotency d))" using assms(1) by (simp add: ledger_ok_def ledger_view_def records_ok_def)
  have "filter (\<lambda>q. ir_key q = ir_key r) xs = [r]" if "r \<in> set xs" "distinct (map ir_key xs)" for xs
    using that
  proof (induction xs)
    case (Cons x xs)
    show ?case
    proof (cases "x = r")
      case True
      then have "\<forall>y \<in> set xs. ir_key y \<noteq> ir_key r" using Cons.prems(2) by (metis distinct.simps(2) image_eqI list.set_map list.simps(9))
      then show ?thesis using True by (simp add: filter_empty_conv)
    next
      case False
      then have "ir_key x \<noteq> ir_key r" "r \<in> set xs" using Cons.prems by (auto simp: image_iff)
      then show ?thesis using Cons by simp
    qed
  qed simp
  then show ?thesis using assms(2) dist by (simp add: records_for_def)
qed

lemma ledger_record_result:
  assumes "ledger_ok d es" "r \<in> set (db_idempotency d)"
  shows "verified_stored_result d r = Inr (record_result es r)"
proof -
  have "record_ok es r" using assms by (simp add: ledger_ok_def ledger_view_def records_ok_def)
  then show ?thesis using verified_stored_result_iff [OF ledger_ok_stored [OF assms(1)]] by (simp add: record_ok_def)
qed

text \<open>The two ways a call can succeed: by finding its record, or by committing.\<close>

lemma execute_outcome:
  assumes "execute env proj d q = Inr (d', res)" "ledger_ok d es" "cr_wf q"
  shows "is_ok (admitted env d q) \<and> (d' = d \<and> answers d q res
    \<or> records_for d (ce_command_id (cr_command q)) = [] \<and> (\<exists>new. committed d es q d' new res))"
proof -
  obtain dg json rdg found where x: "command_digest (cr_command q) = Inr dg" "canonical_text (cr_result q) = Inr json"
    "canonical_digest (cr_result q) = Inr rdg" "admitted env d q = Inr ()"
    "resolve_retry d (cr_principal_id q) (ce_command_id (cr_command q)) dg = Inr found"
    "(case found of Some r \<Rightarrow> Inr (d, r) | None \<Rightarrow> commit_fresh env proj d q dg json rdg) = Inr (d', res)"
    using assms(1) by (auto simp: execute_def bind_res_Inr as_contract_Inr contract_conflicts_Inr)
  show ?thesis
  proof (cases found)
    case None
    then have f: "records_for d (ce_command_id (cr_command q)) = []"
      using x(5) by (auto simp: resolve_retry_def map_res_Inr split: list.splits if_splits)
    have "commit_fresh env proj d q dg json rdg = Inr (d', res)" using None x(6) by simp
    from commit_fresh_ok [OF this assms(2,3) x(1-3) f] show ?thesis using f x(4) by simp
  next
    case (Some rs)
    then obtain r where r: "records_for d (ce_command_id (cr_command q)) = [r]" "ir_principal r = cr_principal_id q"
      "ir_command_digest r = dg" "verified_stored_result d r = Inr rs"
      using x(5) by (auto simp: resolve_retry_def map_res_Inr split: list.splits if_splits)
    have m: "r \<in> set (db_idempotency d)" "ir_key r = ce_command_id (cr_command q)"
      using r(1) by (auto simp: records_for_def filter_eq_Cons_iff)
    have "res = record_result es r" "d' = d" using x(6) Some r(4) ledger_record_result [OF assms(2) m(1)] by simp_all
    then have "answers d q res" using m r(2,3) x(1) assms(2) unfolding answers_def by blast
    then show ?thesis using \<open>d' = d\<close> x(4) by simp
  qed
qed

lemma committed_answers: "committed d es q d' new res \<Longrightarrow> answers d' q res"
  by (fastforce simp: committed_def answers_def records_request_def)

lemma committed_ok: "committed d es q d' new res \<Longrightarrow> ledger_ok d' (es @ new)"
  by (simp add: committed_def)

lemma execute_answers:
  assumes "execute env proj d q = Inr (d', res)" "store_ok d" "cr_wf q"
  shows "store_ok d' \<and> answers d' q res"
proof -
  obtain es where es: "ledger_ok d es" using assms(2) by (auto simp: store_ok_iff)
  show ?thesis using execute_outcome [OF assms(1) es assms(3)] committed_answers committed_ok es store_ok_iff by blast
qed

lemma answers_keep:
  assumes "execute env proj d p = Inr (d', res')" "cr_wf p" "answers d q res"
  shows "answers d' q res"
proof -
  obtain es r where a: "ledger_ok d es" "r \<in> set (db_idempotency d)" "ir_principal r = cr_principal_id q"
    "ir_key r = ce_command_id (cr_command q)" "command_digest (cr_command q) = Inr (ir_command_digest r)" "res = record_result es r"
    using assms(3) by (auto simp: answers_def)
  from execute_outcome [OF assms(1) a(1) assms(2)] show ?thesis
  proof (elim conjE disjE exE)
    assume "d' = d" then show ?thesis using assms(3) by simp
  next
    fix new assume c: "committed d es p d' new res'"
    have "record_ok es r" using a(1,2) by (simp add: ledger_ok_def ledger_view_def records_ok_def)
    then have "res = record_result (es @ new) r"
      using record_ok_append [OF _ ledger_ok_chain [OF committed_ok [OF c]]] a(6) by simp
    moreover have "r \<in> set (db_idempotency d')" using c a(2) by (auto simp: committed_def)
    ultimately show ?thesis using a(3-5) committed_ok [OF c] unfolding answers_def by blast
  qed
qed

lemma retry_answers:
  assumes "answers d q res" "cr_principal_id q' = cr_principal_id q" "cr_command q' = cr_command q"
    "is_ok (canonical_digest (cr_result q'))" "is_ok (admitted env d q')"
  shows "execute env proj d q' = Inr (d, res)"
proof -
  obtain es r where a: "ledger_ok d es" "r \<in> set (db_idempotency d)" "ir_principal r = cr_principal_id q"
    "ir_key r = ce_command_id (cr_command q)" "command_digest (cr_command q) = Inr (ir_command_digest r)" "res = record_result es r"
    using assms(1) by (auto simp: answers_def)
  have rt: "resolve_retry d (cr_principal_id q) (ce_command_id (cr_command q)) (ir_command_digest r) = Inr (Some res)"
    using records_for_unique [OF a(1,2)] ledger_record_result [OF a(1,2)] a(3,4,6) by (simp add: resolve_retry_def)
  obtain rdg where rdg: "canonical_digest (cr_result q') = Inr rdg" using assms(4) by (auto simp: is_ok_Inr)
  then obtain json where "canonical_text (cr_result q') = Inr json" by (auto simp: canonical_digest_def canonical_text_def map_res_Inr)
  moreover have "admitted env d q' = Inr ()" using assms(5) by (auto simp: is_ok_Inr)
  ultimately show ?thesis using rt rdg a(5) assms(2,3)
    by (simp add: execute_def as_contract_def contract_conflicts_def)
qed

interpretation store: remembering call_store store_ok call_wf call_admitted "\<lambda>d c. answers d (snd (snd c))"
  "\<lambda>c c'. cr_principal_id (snd (snd c')) = cr_principal_id (snd (snd c)) \<and> cr_command (snd (snd c')) = cr_command (snd (snd c))"
proof unfold_locales
  fix s q s' r
  assume "store_ok s" "call_wf q" "call_store s q = Some (s', r)"
  then show "store_ok s'" "answers s' (snd (snd q)) r"
    using execute_answers by (auto simp: call_store_def call_wf_def split: prod.splits sum.splits)
next
  fix s p q r s' r'
  assume "store_ok s" "call_wf p" "answers s (snd (snd q)) r" "call_store s p = Some (s', r')"
  then show "answers s' (snd (snd q)) r"
    using answers_keep by (auto simp: call_store_def call_wf_def split: prod.splits sum.splits)
next
  fix s q q' r
  assume "call_wf q'" "answers s (snd (snd q)) r" "call_admitted s q'"
    "cr_principal_id (snd (snd q')) = cr_principal_id (snd (snd q)) \<and> cr_command (snd (snd q')) = cr_command (snd (snd q))"
  then show "call_store s q' = Some (s, r)"
    using retry_answers [of s "snd (snd q)" r "snd (snd q')" "fst q'" "fst (snd q')"]
    by (auto simp: call_store_def call_wf_def call_admitted_def split: prod.splits)
qed

end
