(* ===== verification/Event_Store_Sample.thy ===== *)
theory Event_Store_Sample
  imports Event_Store_Props
begin

section \<open>The empty store accepts its first command\<close>

text \<open>
  The database a fresh installation starts from, and a first command that it commits. Digests stay
  symbolic; that every canonical form exists follows from sizes, which depend on the lengths of
  strings only (\<open>small_enough_blank\<close>).
\<close>

subsection \<open>Sizes do not depend on the characters of a string\<close>

text \<open>A value with the same structure whose strings are filled with one letter and whose integers are
  replaced by strings at least as long; if it is small enough, so is the value.\<close>

definition blank_text :: string where "blank_text = ''xxxx''"

fun blank :: "py \<Rightarrow> py" where
  "blank (PStr s) = PStr (replicate (length s) (CHR ''x''))"
| "blank (PInt n) = (if int64_ok n then PStr blank_text else PInt n)"
| "blank (PSeq xs) = PSeq (map blank xs)"
| "blank (PMap kvs) = PMap (map (\<lambda>(k, v). (k, blank v)) kvs)"
| "blank v = v"

fun jblank :: "jv \<Rightarrow> jv" where
  "jblank (JStr s) = JStr (replicate (length s) (CHR ''x''))"
| "jblank (JInt n) = (if int64_ok n then JStr blank_text else JInt n)"
| "jblank (JArr xs) = JArr (map jblank xs)"
| "jblank (JObj kvs) = JObj (map (\<lambda>(k, v). (k, jblank v)) kvs)"
| "jblank j = j"

lemma those_map_option: "those (map (\<lambda>x. map_option g (f x)) xs) = map_option (map g) (those (map f xs))"
  by (induction xs) (auto simp: option.map_comp o_def split: option.splits)

lemma plain_blank: "plain (blank v) = map_option jblank (plain v)"
proof (induction v)
  case (PSeq xs)
  then have "map plain (map blank xs) = map (\<lambda>x. map_option jblank (plain x)) xs" by simp
  then show ?case unfolding blank.simps plain.simps by (simp only: those_map_option option.map_comp) (simp add: o_def)
next
  case (PMap kvs)
  let ?f = "\<lambda>(k, v). case k of PStr s \<Rightarrow> map_option (Pair s) (plain v) | _ \<Rightarrow> None"
  have "map ?f (map (\<lambda>(k, v). (k, blank v)) kvs) = map (\<lambda>kv. map_option (\<lambda>(k, v). (k, jblank v)) (?f kv)) kvs"
    using PMap by (auto simp: snds.simps option.map_comp o_def split: py.splits)
  then show ?case unfolding blank.simps plain.simps by (simp only: those_map_option option.map_comp) (simp add: o_def)
qed simp_all

lemma digits_length: "n < 10 ^ k \<Longrightarrow> 0 < k \<Longrightarrow> length (digits n) \<le> k"
proof (induction n arbitrary: k rule: digits.induct)
  case (1 n)
  show ?case
  proof (cases "n < 10")
    case True
    then show ?thesis using "1.prems"(2) by (subst digits.simps) simp
  next
    case False
    obtain m where m: "k = Suc m" using "1.prems"(2) by (cases k) auto
    with False "1.prems"(1) have "0 < m" "n div 10 < 10 ^ m" by (cases m; simp)+
    then have "length (digits (n div 10)) \<le> m" using "1.IH" False by simp
    then show ?thesis using False m by (subst digits.simps) simp
  qed
qed

lemma int_string_length: "int64_ok n \<Longrightarrow> length (int_string n) \<le> 20"
proof -
  assume "int64_ok n"
  then have "nat \<bar>n\<bar> < 10 ^ 19" by (simp add: int64_ok_def int64_min_def int64_max_def abs_if nat_less_iff)
  then have "length (digits (nat \<bar>n\<bar>)) \<le> 19" by (rule digits_length) simp
  then show ?thesis by (auto simp: int_string_def abs_if split: if_splits)
qed

lemma jblank_measures:
  "jwf (jblank j) \<Longrightarrow> jwf j" "jfits k (jblank j) = jfits k j" "jcount (jblank j) = jcount j" "jsize j \<le> jsize (jblank j)"
proof (induction j arbitrary: k)
  case (JInt n)
  { case 1 then show ?case by (simp split: if_splits)
  next case 2 show ?case by simp
  next case 3 show ?case by simp
  next case 4 show ?case using int_string_length [of n] by (auto simp: blank_text_def) }
next
  case (JArr xs)
  { case 1 then show ?case using JArr by auto
  next case 2 show ?case using JArr by auto
  next case 3 show ?case using JArr(3) by (simp add: o_def cong: map_cong)
  next case 4
    have "sum_list (map (\<lambda>x. 1 + jsize x) xs) \<le> sum_list (map (\<lambda>x. 1 + jsize (jblank x)) xs)"
      using JArr(4) by (intro sum_list_mono) auto
    then show ?case by (simp add: o_def) }
next
  case (JObj kvs)
  have fst_eq: "map fst (map (\<lambda>(k, v). (k, jblank v)) kvs) = map fst kvs" by (induction kvs) auto
  { case 1 then show ?case using JObj(1) by (auto simp: snds.simps fst_eq simp del: map_map)
  next case 2 show ?case using JObj(2) by (auto simp: snds.simps)
  next case 3
    have "map ((\<lambda>(k, v). jcount v) \<circ> (\<lambda>(k, v). (k, jblank v))) kvs = map (\<lambda>(k, v). jcount v) kvs"
      using JObj(3) by (auto simp: snds.simps)
    then show ?case by (simp only: jblank.simps jcount.simps map_map)
  next case 4
    have "sum_list (map (\<lambda>(k, v). 4 + 6 * length k + jsize v) kvs)
        \<le> sum_list (map (\<lambda>kv. (\<lambda>(k, v). 4 + 6 * length k + jsize v) ((\<lambda>(k, v). (k, jblank v)) kv)) kvs)"
      using JObj(4) by (intro sum_list_mono) (auto simp: snds.simps)
    then show ?case by (simp add: o_def) }
qed simp_all

lemma small_enough_blank: "small_enough (blank v) \<Longrightarrow> small_enough v"
proof -
  assume s: "small_enough (blank v)"
  then obtain j where j: "plain v = Some j" by (auto simp: small_enough_def plain_blank split: option.splits)
  have "2 * int (jsize j) \<le> 2 * int (jsize (jblank j))" using jblank_measures(4) [of j] by simp
  then show ?thesis using s jblank_measures(1) [of j] by (simp add: small_enough_def plain_blank j jblank_measures(2,3))
qed

lemma blank_obj: "blank (obj kvs) = obj (map (\<lambda>(k, v). (k, blank v)) kvs)"
  by (induction kvs) (auto simp: obj_def)

lemma small_text:
  assumes "small_enough (blank v)"
  shows "\<exists>b t. canonical_bytes v = Inr b \<and> canonical_text v = Inr t \<and> canonical_digest v = Inr (sha256_hex b)"
  using canonical_bytes_exist [OF small_enough_blank [OF assms]]
  by (auto simp: canonical_text_def canonical_digest_def)

subsection \<open>The empty database\<close>

definition digest_of :: "py \<Rightarrow> string" where
  "digest_of v = (case canonical_digest v of Inl _ \<Rightarrow> zero_digest | Inr s \<Rightarrow> s)"

text \<open>After the migrations and the first deep verification at time \<open>now\<close>.\<close>

definition genesis_db :: "string \<Rightarrow> db" where
  "genesis_db now = \<lparr>db_events = [], db_heads = [], db_idempotency = [], db_hotpath = True,
     db_checkpoint = Some \<lparr>ck_sequence = 0, ck_digest = zero_digest, ck_heads = 0, ck_verified_at = now,
        ck_own_digest = digest_of (checkpoint_value 0 zero_digest 0 now)\<rparr>,
     db_cursor = Some \<lparr>cu_revision = 0, cu_sequence = 0, cu_digest = zero_digest, cu_relevant = 0, cu_reaction = zero_digest,
        cu_own_digest = digest_of genesis_cursor_value, cu_updated = ''1970-01-01T00:00:00.000Z''\<rparr>,
     db_obligations = [], db_restarts = False, db_imports = [], db_bindings = []\<rparr>"

definition sample_now :: string where "sample_now = ''2026-02-28T10:00:00.000Z''"

definition rehearsal :: store_env where
  "rehearsal = \<lparr>se_anchor = None, se_require_current = False, se_rehearsal = True, se_authority = None\<rparr>"

definition no_projection :: projection where "no_projection es = Inr ()"

definition first_intent :: event_intent where
  "first_intent = \<lparr>ei_aggregate_kind = AK_TOURNAMENT, ei_aggregate_id = ''tournament:t'', ei_event_kind = EK_TOURNAMENT_CONFIGURED\<rparr>"

definition first_request :: command_request where
  "first_request = \<lparr>cr_principal_id = ''actor:judge'', cr_command = sample_command CK_CONFIGURE_TOURNAMENT [''tournament:t''],
     cr_events = [first_intent], cr_result_schema_version = ''r1'', cr_result = obj [(''ok'', PBool True)],
     cr_occurred_at_utc = sample_now, cr_monotonic_elapsed_ms = 5\<rparr>"

lemma digest_of_small: "small_enough (blank v) \<Longrightarrow> canonical_digest v = Inr (digest_of v)"
  using small_text [of v] by (auto simp: digest_of_def)

lemma digest_of_length: "small_enough (blank v) \<Longrightarrow> is_digest (digest_of v) \<and> length (digest_of v) = 64"
  using small_text [of v] sha.digest_form sha.digest_length by (auto simp: digest_of_def)

lemma genesis_digests:
  "canonical_digest genesis_cursor_value = Inr (digest_of genesis_cursor_value)"
  "canonical_digest (checkpoint_value 0 zero_digest 0 sample_now) = Inr (digest_of (checkpoint_value 0 zero_digest 0 sample_now))"
proof -
  show "canonical_digest genesis_cursor_value = Inr (digest_of genesis_cursor_value)"
    by (rule digest_of_small) code_simp
  show "canonical_digest (checkpoint_value 0 zero_digest 0 sample_now) = Inr (digest_of (checkpoint_value 0 zero_digest 0 sample_now))"
    by (rule digest_of_small) code_simp
qed

lemma genesis_ok: "store_ok (genesis_db sample_now) \<and> cursor_at_tip (genesis_db sample_now)"
proof -
  have u: "utc_ok sample_now" by code_simp
  have t: "tip_of (genesis_db sample_now) = (0, zero_digest)"
    by (simp add: tip_of_def last_event_def events_in_order_def genesis_db_def)
  have l: "ledger_view (genesis_db sample_now) []"
    by (simp add: ledger_view_def chain_empty heads_ok_def records_ok_def imports_ok_def genesis_db_def head_of_def)
  have k: "keyed (genesis_db sample_now)" by (simp add: keyed_def genesis_db_def)
  have c: "checkpoint_ok (genesis_db sample_now)"
    unfolding checkpoint_ok_def t
    by (simp add: genesis_db_def checkpoint_row_iff u authority_checkpoint_digest_def genesis_digests)
  have "ledger_ok (genesis_db sample_now) []"
    using l k c by (simp add: ledger_ok_def heads_sealed_def genesis_db_def)
  moreover have "cursor_at_tip (genesis_db sample_now)"
    unfolding cursor_at_tip_def t
    by (simp add: genesis_db_def cursor_intact_def cursor_row_value_def genesis_digests [unfolded genesis_cursor_value_def]
        genesis_cursor_value_def)
  ultimately show ?thesis by (auto simp: store_ok_iff)
qed

lemma first_request_wf: "cr_wf first_request"
  by code_simp

subsection \<open>The first command is committed\<close>

text \<open>The event it appends, as a function of its identifier and digest.\<close>

definition first_event :: "string \<Rightarrow> string \<Rightarrow> event_envelope" where
  "first_event eid dg = \<lparr>ee_event_id = eid, ee_kind = EK_TOURNAMENT_CONFIGURED, ee_aggregate_kind = AK_TOURNAMENT,
     ee_aggregate_id = ''tournament:t'', ee_aggregate_version = 1, ee_global_sequence = 1, ee_prior_global_digest = zero_digest,
     ee_prior_aggregate_digest = zero_digest, ee_occurred_at_utc = sample_now, ee_monotonic_elapsed_ms = 5,
     ee_command = sample_command CK_CONFIGURE_TOURNAMENT [''tournament:t''], ee_event_digest = dg\<rparr>"

definition first_command_digest :: string where
  "first_command_digest = digest_of (command_envelope_to_dict (sample_command CK_CONFIGURE_TOURNAMENT [''tournament:t'']))"

lemma first_command_digest: "command_digest (cr_command first_request) = Inr first_command_digest \<and> length first_command_digest = 64"
proof -
  have "small_enough (blank (command_envelope_to_dict (sample_command CK_CONFIGURE_TOURNAMENT [''tournament:t''])))"
    by code_simp
  then show ?thesis using digest_of_small digest_of_length
    by (simp add: command_digest_def first_command_digest_def first_request_def)
qed

lemma first_event_id:
  "\<exists>eid. deterministic_identifier ''event'' (event_identity first_command_digest ''tournament:t'' 1 EK_TOURNAMENT_CONFIGURED) = Inr eid
     \<and> id_in ''event'' eid \<and> length eid = 70"
proof -
  let ?v = "event_identity first_command_digest ''tournament:t'' 1 EK_TOURNAMENT_CONFIGURED"
  have "blank (PStr first_command_digest) = blank (PStr zero_digest)"
    using first_command_digest by (simp add: zero_digest_def)
  then have "blank ?v = blank (event_identity zero_digest ''tournament:t'' 1 EK_TOURNAMENT_CONFIGURED)"
    by (simp add: event_identity_def blank_obj)
  moreover have "small_enough (blank (event_identity zero_digest ''tournament:t'' 1 EK_TOURNAMENT_CONFIGURED))" by code_simp
  ultimately obtain b where b: "canonical_bytes ?v = Inr b" using small_text [of ?v] by auto
  have n: "namespace_ok ''event''" by code_simp
  have i: "deterministic_identifier ''event'' ?v = Inr (''event'' @ CHR '':'' # sha256_hex b)"
    using n b by (simp add: deterministic_identifier_Inr)
  have "id_in ''event'' (''event'' @ CHR '':'' # sha256_hex b)"
    using identifier_ok_compose [OF n digest_is_local_part [OF sha.digest_form]] n by (simp add: id_in_def)
  then show ?thesis using i by (auto simp: sha.digest_length)
qed

lemma first_event_bytes:
  assumes "length eid = 70"
  shows "small_enough (blank (obj (event_content (first_event eid dg))))"
    "length dg = 64 \<Longrightarrow> small_enough (blank (event_envelope_to_dict (first_event eid dg)))"
proof -
  have e: "blank (PStr eid) = blank (PStr (replicate 70 (CHR ''x'')))" using assms by simp
  have "blank (obj (event_content (first_event eid dg))) = blank (obj (event_content (first_event (replicate 70 (CHR ''x'')) dg)))"
    using e by (simp add: event_content_def first_event_def blank_obj)
  also have "obj (event_content (first_event (replicate 70 (CHR ''x'')) dg)) = obj (event_content (first_event (replicate 70 (CHR ''x'')) []))"
    by (simp add: event_content_def first_event_def)
  also have "small_enough (blank \<dots>)" by code_simp
  finally show "small_enough (blank (obj (event_content (first_event eid dg))))" .
  show "small_enough (blank (event_envelope_to_dict (first_event eid dg)))" if d: "length dg = 64"
  proof -
    have "blank (event_envelope_to_dict (first_event eid dg))
        = blank (event_envelope_to_dict (first_event (replicate 70 (CHR ''x'')) zero_digest))"
      using e d by (simp add: event_envelope_to_dict_def event_content_def first_event_def blank_obj zero_digest_def)
    also have "small_enough \<dots>" by code_simp
    finally show ?thesis .
  qed
qed

lemma first_event_exists:
  "\<exists>eid dg t. deterministic_identifier ''event'' (event_identity first_command_digest ''tournament:t'' 1 EK_TOURNAMENT_CONFIGURED) = Inr eid
     \<and> create_event_envelope eid EK_TOURNAMENT_CONFIGURED AK_TOURNAMENT ''tournament:t'' 1 1 zero_digest zero_digest sample_now 5
         (sample_command CK_CONFIGURE_TOURNAMENT [''tournament:t'']) = Inr (first_event eid dg)
     \<and> canonical_text (event_envelope_to_dict (first_event eid dg)) = Inr t \<and> length dg = 64 \<and> length eid = 70"
proof -
  obtain eid where eid: "deterministic_identifier ''event'' (event_identity first_command_digest ''tournament:t'' 1 EK_TOURNAMENT_CONFIGURED) = Inr eid"
    "id_in ''event'' eid" "length eid = 70" using first_event_id by blast
  let ?e = "first_event eid"
  obtain b where b: "canonical_digest (obj (event_content (?e zero_digest))) = Inr (sha256_hex b)"
    using small_text [OF first_event_bytes(1) [OF eid(3)]] by blast
  let ?dg = "sha256_hex b"
  have l: "length ?dg = 64" by (rule sha.digest_length)
  have same: "event_content (?e ?dg) = event_content (?e zero_digest)" by (simp add: event_content_def first_event_def)
  obtain c t where ct: "canonical_bytes (event_envelope_to_dict (?e ?dg)) = Inr c" "canonical_text (event_envelope_to_dict (?e ?dg)) = Inr t"
    using small_text [OF first_event_bytes(2) [OF eid(3) l]] by blast
  have u: "utc_ok sample_now" "id_in ''tournament'' ''tournament:t''" by code_simp+
  have r: "event_recompute_digest (?e ?dg) = Inr ?dg" using b same by (simp add: event_recompute_digest_def)
  have own: "ee_own_ok (?e ?dg)"
    unfolding ee_own_ok_def using eid(2) ct(1) u r by (simp add: first_event_def sample_command_def)
  have "mk_event_envelope eid EK_TOURNAMENT_CONFIGURED AK_TOURNAMENT ''tournament:t'' (PInt 1) (PInt 1) (PStr zero_digest)
      (PStr zero_digest) (PStr sample_now) (PInt 5) (sample_command CK_CONFIGURE_TOURNAMENT [''tournament:t'']) (PStr ?dg) = Inr (?e ?dg)"
    unfolding mk_event_envelope_iff using own by (simp add: first_event_def)
  then have "create_event_envelope eid EK_TOURNAMENT_CONFIGURED AK_TOURNAMENT ''tournament:t'' 1 1 zero_digest zero_digest sample_now 5
         (sample_command CK_CONFIGURE_TOURNAMENT [''tournament:t'']) = Inr (?e ?dg)"
    using b by (simp add: create_event_envelope_def Let_def event_recompute_digest_def first_event_def)
  then show ?thesis using eid ct l by blast
qed

abbreviation empty_store :: db where "empty_store \<equiv> genesis_db sample_now"

abbreviation first_key :: stream_key where "first_key \<equiv> (''tournament'', ''tournament:t'')"

abbreviation first_command :: command_envelope where
  "first_command \<equiv> sample_command CK_CONFIGURE_TOURNAMENT [''tournament:t'']"

lemma empty_store_fields [simp]:
  "db_events empty_store = []" "db_heads empty_store = []" "db_hotpath empty_store" "db_idempotency empty_store = []"
  "tip_of empty_store = (0, zero_digest)" "db_obligations empty_store = []"
  by (simp_all add: genesis_db_def tip_of_def last_event_def events_in_order_def)

lemma first_fields [simp]:
  "ee_aggregate_version (first_event eid dg) = 1" "ee_event_digest (first_event eid dg) = dg" "ee_global_sequence (first_event eid dg) = 1"
  "ee_prior_aggregate_digest (first_event eid dg) = zero_digest" "ee_prior_global_digest (first_event eid dg) = zero_digest"
  "ee_kind (first_event eid dg) = EK_TOURNAMENT_CONFIGURED" "ee_event_id (first_event eid dg) = eid"
  "ee_occurred_at_utc (first_event eid dg) = sample_now" "ee_command (first_event eid dg) = first_command"
  "cr_command first_request = first_command" "cr_events first_request = [first_intent]" "cr_occurred_at_utc first_request = sample_now"
  "cr_monotonic_elapsed_ms first_request = 5" "ce_expected_versions first_command = [(''tournament:t'', 0)]"
  "ce_command_id first_command = ''command:c1''" "ce_kind first_command = CK_CONFIGURE_TOURNAMENT" "intent_key first_intent = first_key"
  "ei_aggregate_id first_intent = ''tournament:t''" "ei_aggregate_kind first_intent = AK_TOURNAMENT"
  "ei_event_kind first_intent = EK_TOURNAMENT_CONFIGURED"
  by (simp_all add: first_event_def first_request_def sample_command_def intent_key_def first_intent_def)

lemma empty_store_admits: "admitted rehearsal empty_store first_request = Inr ()"
proof -
  have "require_cursor_at_head empty_store = Inr ()" using genesis_ok by (simp add: require_cursor_at_head_iff)
  then show ?thesis
    by (simp add: admitted_def require_event_authority_def rehearsal_def rolling_as_integrity_def issue_command_def)
qed

lemma empty_store_head: "verify_bounded_head rehearsal empty_store = Inr \<lparr>an_sequence = 0, an_digest = zero_digest\<rparr>"
proof -
  obtain c where c: "db_checkpoint empty_store = Some c" "ck_sequence c = 0" "ck_digest c = zero_digest"
    "verify_authority_checkpoint_row c = Inr ()"
    using genesis_ok by (auto simp: store_ok_def checkpoint_ok_def split: sum.splits option.splits)
  have "verify_tip empty_store = Inr \<lparr>an_sequence = 0, an_digest = zero_digest\<rparr>"
    by (simp add: verify_tip_def last_event_def events_in_order_def)
  then show ?thesis using c by (simp add: verify_bounded_head_def rehearsal_def)
qed

lemma first_validates:
  "validate_versions_and_transitions empty_store first_request [first_intent] = Inr [(first_key, LS_TOURNAMENT_CONFIGURED)]"
proof -
  have t: "transition AK_TOURNAMENT None EK_TOURNAMENT_CONFIGURED = Inr LS_TOURNAMENT_CONFIGURED" by code_simp
  show ?thesis
    by (simp add: validate_versions_and_transitions_def validate_intent_def Let_def head_of_def stream_rows_def
        expected_for_def current_status_def head_checked_def t contract_conflicts_def as_contract_def)
qed

lemma blank_digest: "length dg = 64 \<Longrightarrow> blank (PStr dg) = blank (PStr zero_digest)"
  by (simp add: zero_digest_def)

lemma first_head_digest:
  assumes "length dg = 64"
  shows "\<exists>hd. aggregate_head_digest ''tournament'' ''tournament:t'' 1 dg (Some LS_TOURNAMENT_CONFIGURED) = Inr hd"
proof -
  let ?v = "\<lambda>dg. head_value ''tournament'' ''tournament:t'' 1 dg (Some LS_TOURNAMENT_CONFIGURED)"
  have "blank (?v dg) = blank (?v zero_digest)" using blank_digest [OF assms] by (simp add: head_value_def blank_obj)
  moreover have "small_enough (blank (?v zero_digest))" by code_simp
  ultimately show ?thesis using small_text [of "?v dg"] by (auto simp: aggregate_head_digest_def)
qed

lemma first_append:
  assumes "deterministic_identifier ''event'' (event_identity first_command_digest ''tournament:t'' 1 EK_TOURNAMENT_CONFIGURED) = Inr eid"
    "create_event_envelope eid EK_TOURNAMENT_CONFIGURED AK_TOURNAMENT ''tournament:t'' 1 1 zero_digest zero_digest sample_now 5
         first_command = Inr (first_event eid dg)"
    "canonical_text (event_envelope_to_dict (first_event eid dg)) = Inr t" "length dg = 64"
  shows "\<exists>h. append_event empty_store first_request first_command_digest [(first_key, LS_TOURNAMENT_CONFIGURED)] 1 zero_digest first_intent
    = Inr (first_event eid dg, empty_store\<lparr>db_events := [row_of_event (first_event eid dg) t], db_heads := [h]\<rparr>)"
proof -
  obtain hd where hd: "aggregate_head_digest ''tournament'' ''tournament:t'' 1 dg (Some LS_TOURNAMENT_CONFIGURED) = Inr hd"
    using first_head_digest [OF assms(4)] by blast
  have len: "length (utf8 t) \<le> 1048576" using assms(3) by (auto simp: canonical_text_Inr default_max_bytes_def)
  have z: "length zero_digest = 64" by (simp add: zero_digest_def)
  have ins: "insert_event empty_store (row_of_event (first_event eid dg) t)
      = Inr (empty_store\<lparr>db_events := [row_of_event (first_event eid dg) t]\<rparr>)"
    using len assms(4) z by (simp add: insert_event_def row_of_event_def)
  show ?thesis
    using assms(1-3) hd ins
    by (simp add: append_event_def expected_for_def Let_def head_of_def as_contract_def upsert_head_def) (rule exI, rule refl)
qed

lemma first_later_digests:
  assumes "length dg = 64" "length eid = 70"
  shows "\<exists>a b c. authority_checkpoint_digest 1 dg 1 sample_now = Inr a
    \<and> canonical_digest (cursor_value 1 1 dg 0 zero_digest sample_now) = Inr b
    \<and> event_set_digest [first_event eid dg] = Inr (sha256_hex c)"
proof -
  note d = blank_digest [OF assms(1)]
  have i: "blank (PStr eid) = blank (PStr (replicate 70 (CHR ''x'')))" using assms(2) by simp
  have "blank (checkpoint_value 1 dg 1 sample_now) = blank (checkpoint_value 1 zero_digest 1 sample_now)"
    using d by (simp add: checkpoint_value_def blank_obj)
  moreover have "small_enough (blank (checkpoint_value 1 zero_digest 1 sample_now))" by code_simp
  ultimately have a: "\<exists>a. authority_checkpoint_digest 1 dg 1 sample_now = Inr a"
    using small_text [of "checkpoint_value 1 dg 1 sample_now"] by (auto simp: authority_checkpoint_digest_def)
  have "blank (cursor_value 1 1 dg 0 zero_digest sample_now) = blank (cursor_value 1 1 zero_digest 0 zero_digest sample_now)"
    using d by (simp add: cursor_value_def blank_obj)
  moreover have "small_enough (blank (cursor_value 1 1 zero_digest 0 zero_digest sample_now))" by code_simp
  ultimately have b: "\<exists>b. canonical_digest (cursor_value 1 1 dg 0 zero_digest sample_now) = Inr b"
    using small_text [of "cursor_value 1 1 dg 0 zero_digest sample_now"] by auto
  let ?v = "\<lambda>eid dg. event_set_value [first_event eid dg]"
  have "blank (?v eid dg) = blank (?v (replicate 70 (CHR ''x'')) zero_digest)"
    using d i by (simp add: event_set_value_def blank_obj)
  moreover have "small_enough (blank (?v (replicate 70 (CHR ''x'')) zero_digest))" by code_simp
  ultimately have "\<exists>c. event_set_digest [first_event eid dg] = Inr (sha256_hex c)"
    using small_text [of "?v eid dg"] by (auto simp: event_set_digest_def)
  with a b show ?thesis by blast
qed

lemma first_command_committed:
  "\<exists>d' res. execute rehearsal no_projection empty_store first_request = Inr (d', res) \<and> sr_first res = 1 \<and> sr_last res = 1
     \<and> length (db_events d') = 1"
proof -
  obtain eid dg t where e: "deterministic_identifier ''event'' (event_identity first_command_digest ''tournament:t'' 1 EK_TOURNAMENT_CONFIGURED) = Inr eid"
    "create_event_envelope eid EK_TOURNAMENT_CONFIGURED AK_TOURNAMENT ''tournament:t'' 1 1 zero_digest zero_digest sample_now 5
         first_command = Inr (first_event eid dg)"
    "canonical_text (event_envelope_to_dict (first_event eid dg)) = Inr t" "length dg = 64" "length eid = 70"
    using first_event_exists by blast
  obtain h where h: "append_event empty_store first_request first_command_digest [(first_key, LS_TOURNAMENT_CONFIGURED)] 1 zero_digest first_intent
    = Inr (first_event eid dg, empty_store\<lparr>db_events := [row_of_event (first_event eid dg) t], db_heads := [h]\<rparr>)"
    using first_append [OF e(1-4)] by blast
  obtain a b c where l: "authority_checkpoint_digest 1 dg 1 sample_now = Inr a"
    "canonical_digest (cursor_value 1 1 dg 0 zero_digest sample_now) = Inr b" "event_set_digest [first_event eid dg] = Inr (sha256_hex c)"
    using first_later_digests [OF e(4,5)] by blast
  let ?d1 = "empty_store\<lparr>db_events := [row_of_event (first_event eid dg) t], db_heads := [h]\<rparr>"
  obtain k where k: "db_checkpoint empty_store = Some k" "ck_sequence k = 0" "ck_digest k = zero_digest" "ck_heads k = 0"
    "verify_authority_checkpoint_row k = Inr ()" "ck_verified_at k = sample_now"
    using genesis_ok by (auto simp: store_ok_def checkpoint_ok_def genesis_db_def split: sum.splits)
  obtain d2 where d2: "advance_authority_checkpoint ?d1 [first_event eid dg] = Inr d2"
    using l(1) k by (simp add: advance_authority_checkpoint_def Let_def as_contract_def)
  obtain ck where ck: "d2 = ?d1\<lparr>db_checkpoint := ck\<rparr>" using advance_checkpoint_frame [OF d2] by blast
  have apd: "append_events empty_store first_request first_command_digest [(first_key, LS_TOURNAMENT_CONFIGURED)] [first_intent]
      = Inr ([first_event eid dg], d2)"
    using h d2 by (simp add: append_events_def)
  have g: "canonical_digest (cursor_row_value (the (db_cursor empty_store))) = Inr (digest_of genesis_cursor_value)"
    using genesis_digests(1) by (simp add: genesis_db_def cursor_row_value_def genesis_cursor_value_def)
  have rk: "EK_TOURNAMENT_CONFIGURED \<notin> set rolling_reaction_events" by (simp add: rolling_reaction_events_def)
  obtain d3 where d3: "advance_rolling_reaction_cursor d2 [first_event eid dg] = Inr d3"
    using l(2) g rk
    by (simp add: advance_rolling_reaction_cursor_def rolling_reaction_identity_def ck Let_def as_contract_def
        genesis_db_def cursor_row_value_def)
  have f3: "db_events d3 = [row_of_event (first_event eid dg) t]" "db_idempotency d3 = []"
    using advance_cursor_frame [OF d3] by (simp_all add: ck)
  have jt: "canonical_text (cr_result first_request) = Inr ''{\"ok\":true}''" by code_simp
  then obtain r where rd: "canonical_digest (cr_result first_request) = Inr (sha256_hex r)"
    by (auto simp: canonical_text_def canonical_digest_def map_res_Inr)
  have ul: "length (utf8 ''{\"ok\":true}'') \<le> 1048576" using jt by (auto simp only: canonical_text_Inr default_max_bytes_def)
  have si: "sorted_intents first_request = [first_intent]" by (simp add: sorted_intents_def)
  have "\<exists>d4. insert_idempotency d3 \<lparr>ir_principal = cr_principal_id first_request, ir_key = ''command:c1'',
        ir_command_digest = first_command_digest, ir_schema = cr_result_schema_version first_request,
        ir_result_json = ''{\"ok\":true}'', ir_result_digest = sha256_hex r, ir_first = 1, ir_last = 1,
        ir_event_set = sha256_hex c, ir_created = sample_now\<rparr> = Inr d4 \<and> db_events d4 = db_events d3"
    using f3 first_command_digest ul by (simp add: insert_idempotency_def sha.digest_length)
  then obtain d4 where d4: "insert_idempotency d3 \<lparr>ir_principal = cr_principal_id first_request, ir_key = ''command:c1'',
        ir_command_digest = first_command_digest, ir_schema = cr_result_schema_version first_request,
        ir_result_json = ''{\"ok\":true}'', ir_result_digest = sha256_hex r, ir_first = 1, ir_last = 1,
        ir_event_set = sha256_hex c, ir_created = sample_now\<rparr> = Inr d4" "db_events d4 = db_events d3" by blast
  have fc: "command_digest first_command = Inr first_command_digest" using first_command_digest by simp
  show ?thesis
    using fc jt rd empty_store_admits empty_store_head first_validates apd d3 l(3) d4 f3(1) si
    by (simp add: execute_def as_contract_def contract_conflicts_def resolve_retry_def records_for_def commit_fresh_def
        no_projection_def rehearsal_def)
qed

end
