(* ===== verification/Event_Store_Theorems.thy ===== *)
theory Event_Store_Theorems
  imports Event_Store_Sample
begin

section \<open>Properties of the event store\<close>

text \<open>The store after a list of calls, failed calls leaving it as it was.\<close>

primrec serve_calls :: "db \<Rightarrow> store_call list \<Rightarrow> db" where
  "serve_calls d [] = d"
| "serve_calls d (c # cs) = serve_calls (submit (fst c) (fst (snd c)) d (snd (snd c))) cs"

lemma serve_calls_serve: "serve_calls d cs = store.serve d cs"
  by (induction cs arbitrary: d) (auto simp: submit_def call_store_def split: prod.splits sum.splits)

lemma answers_recorded: "answers d q res \<Longrightarrow> records_for d (ce_command_id (cr_command q)) \<noteq> []"
  unfolding answers_def records_for_empty by (metis image_eqI)

lemma empty_store_view: "keyed empty_store" "ledger_view empty_store []"
  by (simp_all add: keyed_def ledger_view_def chain_empty heads_ok_def records_ok_def imports_ok_def head_of_def)
     (simp add: genesis_db_def)

lemma empty_store_replay: "replay_ledger empty_store = Inr []"
  using replay_ledger_iff [OF empty_store_view(1)] empty_store_view(2) by blast

subsection \<open>Replay is the ledger\<close>

text \<open>C6. Refinement: the replay of a database with intact primary keys yields a list of events exactly
  when the tables are the storage image of that list: each event follows from the ones before it
  (deterministic identity, both digest chains, version, legal transition), rows are its canonical
  form, heads are the ends of its streams, records partition it and imports reconcile.\<close>

theorem replay_is_ledger:
  assumes "keyed d"
  shows "replay_ledger d = Inr es \<longleftrightarrow> ledger_view d es"
  using assms by (rule replay_ledger_iff)

theorem replay_is_ledger_witness: "replay_ledger empty_store = Inr [] \<and> keyed empty_store"
  using replay_is_ledger [OF empty_store_view(1)] empty_store_view by blast

subsection \<open>Execution\<close>

text \<open>C1. Invariant: whatever a call returns, a store in order stays in order: it replays completely, its
  heads carry the status of their streams under a valid digest and its checkpoint stands at the tip.\<close>

theorem execution_keeps_order:
  assumes "store_ok d" "cr_wf q"
  shows "store_ok (submit env proj d q)"
  using execute_answers [of env proj d q] assms by (auto simp: submit_def split: sum.splits)

theorem execution_keeps_order_witness:
  "store_ok (submit rehearsal no_projection empty_store first_request) \<and> length (db_events (submit rehearsal no_projection empty_store first_request)) = 1"
proof -
  have "length (db_events (submit rehearsal no_projection empty_store first_request)) = 1"
    using first_command_committed by (auto simp: submit_def)
  then show ?thesis using execution_keeps_order [OF _ first_request_wf] genesis_ok by blast
qed

text \<open>C7. A successful call either finds the record of the same principal, key and command and changes
  nothing, or appends exactly the events of the request, in the order of their aggregates, after all
  existing ones and adds one record that names them.\<close>

theorem execution_appends_exactly:
  assumes "execute env proj d q = Inr (d', res)" "store_ok d" "cr_wf q"
  shows "\<exists>es new. replay_ledger d = Inr es \<and> replay_ledger d' = Inr (es @ new)
    \<and> (if records_for d (ce_command_id (cr_command q)) \<noteq> [] then d' = d \<and> answers d q res
       else map intent_of_event new = sorted_intents q \<and> (\<forall>e \<in> set new. ee_command e = cr_command q)
         \<and> sr_event_ids res = map ee_event_id new \<and> (\<exists>rs. db_events d' = db_events d @ rs)
         \<and> (\<exists>r. db_idempotency d' = db_idempotency d @ [r] \<and> records_request q r))"
proof -
  obtain es where es: "ledger_ok d es" using assms(2) by (auto simp: store_ok_iff)
  then have rp: "replay_ledger d = Inr es" using replay_ledger_iff by (simp add: ledger_ok_def)
  from execute_outcome [OF assms(1) es assms(3)] show ?thesis
  proof (elim conjE disjE exE)
    assume a: "d' = d" "answers d q res"
    then have "records_for d (ce_command_id (cr_command q)) \<noteq> []" by (simp add: answers_recorded)
    then show ?thesis using a rp by (intro exI [of _ es] exI [of _ "[]"]) simp
  next
    fix new assume f: "records_for d (ce_command_id (cr_command q)) = []" and c: "committed d es q d' new res"
    have l: "ledger_ok d' (es @ new)" using committed_ok [OF c] .
    then have "replay_ledger d' = Inr (es @ new)" using replay_ledger_iff by (simp add: ledger_ok_def)
    moreover have "\<exists>rs. db_events d' = db_events d @ rs" "\<exists>r. db_idempotency d' = db_idempotency d @ [r] \<and> records_request q r"
      using c by (auto simp: committed_def)
    moreover have "map intent_of_event new = sorted_intents q" "\<forall>e \<in> set new. ee_command e = cr_command q"
      "sr_event_ids res = map ee_event_id new"
      using c by (simp_all add: committed_def group_of_def)
    ultimately show ?thesis using f rp by (intro exI [of _ es] exI [of _ new]) simp
  qed
qed

theorem execution_appends_exactly_witness:
  "\<exists>d' res new. execute rehearsal no_projection empty_store first_request = Inr (d', res) \<and> replay_ledger d' = Inr new
     \<and> map intent_of_event new = [first_intent]"
proof -
  obtain d' res where x: "execute rehearsal no_projection empty_store first_request = Inr (d', res)"
    using first_command_committed by blast
  have s: "store_ok empty_store" using genesis_ok by blast
  have n: "records_for empty_store (ce_command_id (cr_command first_request)) = []" by (simp add: records_for_def)
  show ?thesis using execution_appends_exactly [OF x s first_request_wf] empty_store_replay n x by (auto simp: sorted_intents_def)
qed

text \<open>C2. Exactly once: once a command has been executed, executing the same command again under the same
  principal returns the very result of the first time and changes nothing, no matter which calls,
  failed ones included, were served in between.\<close>

theorem exactly_once:
  assumes "store_ok d" "cr_wf q" "execute env proj d q = Inr (d1, res)"
    "\<forall>c \<in> set calls. call_wf c"
    "is_ok (canonical_digest (cr_result q))" "is_ok (admitted env' (serve_calls d1 calls) q)"
  shows "execute env' proj' (serve_calls d1 calls) q = Inr (serve_calls d1 calls, res)"
proof -
  have c: "call_store d (env, proj, q) = Some (d1, res)" using assms(3) by (simp add: call_store_def)
  have w: "call_wf (env, proj, q)" "call_wf (env', proj', q)" using assms(2,5) by (simp_all add: call_wf_def)
  have a: "call_admitted (store.serve d1 calls) (env', proj', q)"
    using assms(6) by (simp add: call_admitted_def serve_calls_serve)
  have "call_store (store.serve d1 calls) (env', proj', q) = Some (store.serve d1 calls, res)"
    by (rule store.same_answer [OF assms(1) w c assms(4) _ a]) simp
  then show ?thesis by (simp add: call_store_def serve_calls_serve split: sum.splits)
qed

lemma first_result_digest: "is_ok (canonical_digest (cr_result first_request))"
proof -
  have "canonical_text (cr_result first_request) = Inr ''{\"ok\":true}''" by code_simp
  then show ?thesis by (auto simp: canonical_text_def canonical_digest_def map_res_Inr)
qed

lemma rehearsal_admits:
  assumes "execute env proj d q = Inr (d', res)" "store_ok d" "cr_wf q" "records_for d (ce_command_id (cr_command q)) = []"
    "\<not> issue_command (ce_kind (cr_command p))"
  shows "admitted rehearsal d' p = Inr ()"
proof -
  obtain es where es: "ledger_ok d es" using assms(2) by (auto simp: store_ok_iff)
  have "cursor_at_tip d'"
    using execute_outcome [OF assms(1) es assms(3)] assms(4) answers_recorded by (auto simp: committed_def)
  then have "require_cursor_at_head d' = Inr ()" by (simp add: require_cursor_at_head_iff)
  then show ?thesis using assms(5) by (simp add: admitted_def require_event_authority_def rehearsal_def rolling_as_integrity_def)
qed

theorem exactly_once_witness:
  "\<exists>d1 res. execute rehearsal no_projection empty_store first_request = Inr (d1, res)
     \<and> execute rehearsal no_projection d1 first_request = Inr (d1, res)"
proof -
  obtain d1 res where x: "execute rehearsal no_projection empty_store first_request = Inr (d1, res)"
    using first_command_committed by blast
  have s: "store_ok empty_store" using genesis_ok by blast
  have "admitted rehearsal (serve_calls d1 []) first_request = Inr ()"
    using rehearsal_admits [OF x s first_request_wf] by (simp add: records_for_def issue_command_def)
  then show ?thesis
    using exactly_once [OF s first_request_wf x, of "[]" rehearsal no_projection] first_result_digest x by (auto simp: is_ok_Inr)
qed

text \<open>A key binds one command: if a record already stands under the key of a command, then a call by
  another principal or with a different command under that key is refused as a conflict.\<close>

theorem claimed_key_refuses_others:
  assumes "store_ok d" "r \<in> set (db_idempotency d)" "ir_key r = ce_command_id (cr_command q)"
    "ir_principal r \<noteq> cr_principal_id q \<or> command_digest (cr_command q) \<noteq> Inr (ir_command_digest r)"
    "is_ok (command_digest (cr_command q))" "is_ok (canonical_digest (cr_result q))" "admitted env d q = Inr ()"
  shows "\<exists>m. execute env proj d q = Inl (StoreConflict m) \<and> submit env proj d q = d"
proof -
  obtain es where es: "ledger_ok d es" using assms(1) by (auto simp: store_ok_iff)
  obtain dg rdg where dg: "command_digest (cr_command q) = Inr dg" "canonical_digest (cr_result q) = Inr rdg"
    using assms(5,6) by (auto simp: is_ok_Inr)
  then obtain json where js: "canonical_text (cr_result q) = Inr json" by (auto simp: canonical_digest_def canonical_text_def map_res_Inr)
  have rf: "records_for d (ce_command_id (cr_command q)) = [r]" using records_for_unique [OF es assms(2)] assms(3) by simp
  have "\<exists>m. resolve_retry d (cr_principal_id q) (ce_command_id (cr_command q)) dg = Inl (StoreConflict m)"
    using rf assms(4) dg(1) by (auto simp: resolve_retry_def)
  then show ?thesis using dg js assms(7) by (auto simp: execute_def as_contract_def contract_conflicts_def submit_def)
qed

theorem claimed_key_refuses_others_witness:
  "\<exists>d m. store_ok d \<and> execute rehearsal no_projection d (first_request\<lparr>cr_principal_id := ''actor:other''\<rparr>) = Inl (StoreConflict m)"
proof -
  obtain d1 res where x: "execute rehearsal no_projection empty_store first_request = Inr (d1, res)"
    using first_command_committed by blast
  have s: "store_ok empty_store" using genesis_ok by blast
  note k = execute_answers [OF x s first_request_wf]
  obtain r where r: "r \<in> set (db_idempotency d1)" "ir_principal r = cr_principal_id first_request" "ir_key r = ce_command_id (cr_command first_request)"
    using k by (auto simp: answers_def)
  let ?q = "first_request\<lparr>cr_principal_id := ''actor:other''\<rparr>"
  have a: "admitted rehearsal d1 ?q = Inr ()"
    using rehearsal_admits [OF x s first_request_wf] by (simp add: records_for_def issue_command_def)
  have p: "ir_principal r \<noteq> cr_principal_id ?q" using r(2) by (simp add: first_request_def)
  have "\<exists>m. execute rehearsal no_projection d1 ?q = Inl (StoreConflict m) \<and> submit rehearsal no_projection d1 ?q = d1"
    by (rule claimed_key_refuses_others [OF conjunct1 [OF k] r(1)])
       (use r(3) p a first_command_digest first_result_digest in \<open>simp_all add: is_ok_Inr\<close>)
  then show ?thesis using k by blast
qed

subsection \<open>Optimistic concurrency\<close>

lemma first_commit_record:
  assumes "execute rehearsal no_projection empty_store first_request = Inr (d1, res)"
  shows "\<exists>r. db_idempotency d1 = [r] \<and> records_request first_request r"
proof -
  obtain es where es: "ledger_ok empty_store es" using genesis_ok by (auto simp: store_ok_iff)
  obtain new where "committed empty_store es first_request d1 new res"
    using execute_outcome [OF assms es first_request_wf] answers_recorded [of empty_store first_request res] by (auto simp: records_for_def)
  then show ?thesis by (auto simp: committed_def)
qed

lemma committed_event_version:
  assumes "committed d es q d' new res" "cr_wf q" "i \<in> set (cr_events q)"
  shows "map_of (ce_expected_versions (cr_command q)) (ei_aggregate_id i) = Some (int (length (stream_of es (intent_key i))))
    \<and> length (stream_of es (intent_key i)) < length (stream_of (es @ new) (intent_key i))"
proof -
  have g: "map intent_of_event new = sorted_intents q" "\<forall>e \<in> set new. ee_command e = cr_command q"
    and ch: "chain (es @ new)" using assms(1) committed_ok ledger_ok_chain by (auto simp: committed_def group_of_def)
  have "i \<in> set (map intent_of_event new)" using assms(3) by (simp add: g(1) sorted_intents_def)
  then obtain e where e: "e \<in> set new" "intent_of_event e = i" by auto
  then obtain xs ys where xy: "new = xs @ e # ys" by (auto simp: in_set_conv_decomp)
  have "chain ((es @ xs) @ [e])" using chain_prefix [of "(es @ xs) @ [e]" ys] ch xy by simp
  then have f: "follows (es @ xs) e" by (rule chain_snoc_iff [THEN iffD1, THEN conjunct2])
  have k: "event_key e = intent_key i" using intent_of_event_key [OF e(2)] .
  have km: "map event_key new = map intent_key (sorted_intents q)"
    unfolding g(1) [symmetric] using intent_of_event_key by simp
  have "mset (sorted_intents q) = mset (cr_events q)" by (simp add: sorted_intents_def)
  then have "distinct (map ei_aggregate_id (sorted_intents q))"
    using assms(2) mset_eq_imp_distinct_iff [of "map ei_aggregate_id (sorted_intents q)" "map ei_aggregate_id (cr_events q)"]
    by (simp add: cr_wf_def)
  then have "distinct (map event_key new)" unfolding km by (rule intent_keys_distinct)
  then have "intent_key i \<notin> event_key ` set xs" using k xy by simp
  then have "\<forall>x \<in> set xs. event_key x \<noteq> intent_key i" by (metis image_eqI)
  then have "stream_of xs (intent_key i) = []" by (simp add: stream_of_def filter_empty_conv)
  then have s: "stream_of (es @ xs) (intent_key i) = stream_of es (intent_key i)" by (simp add: stream_of_def)
  have v: "ee_aggregate_version e = int (length (stream_of es (intent_key i))) + 1" "ee_wf e"
    using f by (simp_all add: follows_def Let_def k s)
  have "map_of (ce_expected_versions (ee_command e)) (ee_aggregate_id e) = Some (ee_aggregate_version e - 1)"
    using v(2) by (simp add: ee_wf_def ee_own_ok_def)
  moreover have "ee_aggregate_id e = ei_aggregate_id i" using e(2) by (auto simp: intent_of_event_def)
  moreover have "length (stream_of (es @ new) (intent_key i)) \<ge> length (stream_of es (intent_key i)) + 1"
    using k by (simp add: stream_of_def xy)
  ultimately show ?thesis using v(1) g(2) e(1) by simp
qed

text \<open>C8. No lost update: after a command has been committed, a command under another key that expects the
  same version of one of the aggregates the first one changed is not committed, whatever its content;
  the store stays as the first one left it.\<close>

theorem lost_update_refused:
  assumes "store_ok d" "cr_wf p" "cr_wf q" "execute env proj d p = Inr (d1, res)" "records_for d (ce_command_id (cr_command p)) = []"
    "records_for d1 (ce_command_id (cr_command q)) = []" "i \<in> set (cr_events p)" "j \<in> set (cr_events q)"
    "intent_key i = intent_key j"
    "map_of (ce_expected_versions (cr_command q)) (ei_aggregate_id j) = map_of (ce_expected_versions (cr_command p)) (ei_aggregate_id i)"
  shows "\<exists>e. execute env' proj' d1 q = Inl e \<and> submit env' proj' d1 q = d1"
proof -
  obtain es where es: "ledger_ok d es" using assms(1) by (auto simp: store_ok_iff)
  obtain new where c: "committed d es p d1 new res"
    using execute_outcome [OF assms(4) es assms(2)] assms(5) answers_recorded by blast
  note v = committed_event_version [OF c assms(2,7)]
  show ?thesis
  proof (cases "execute env' proj' d1 q")
    case (Inl e)
    then show ?thesis by (simp add: submit_def)
  next
    case (Inr r)
    obtain d2 res2 where x: "execute env' proj' d1 q = Inr (d2, res2)" using Inr by (cases r) auto
    obtain new2 where c2: "committed d1 (es @ new) q d2 new2 res2"
      using execute_outcome [OF x committed_ok [OF c] assms(3)] assms(6) answers_recorded by blast
    from committed_event_version [OF c2 assms(3,8)] v assms(9,10) have False by simp
    then show ?thesis ..
  qed
qed

theorem lost_update_refused_witness:
  "\<exists>d1 e. length (db_events d1) = 1 \<and> execute rehearsal no_projection d1
     (first_request\<lparr>cr_command := first_command\<lparr>ce_command_id := ''command:c2''\<rparr>\<rparr>) = Inl e"
proof -
  let ?q = "first_request\<lparr>cr_command := first_command\<lparr>ce_command_id := ''command:c2''\<rparr>\<rparr>"
  obtain d1 res where x: "execute rehearsal no_projection empty_store first_request = Inr (d1, res)" "length (db_events d1) = 1"
    using first_command_committed by blast
  have s: "store_ok empty_store" using genesis_ok by blast
  have w: "cr_wf ?q" by code_simp
  have n: "records_for empty_store (ce_command_id (cr_command first_request)) = []" by (simp add: records_for_def)
  obtain r where r: "db_idempotency d1 = [r]" "records_request first_request r"
    using first_commit_record [OF x(1)] by blast
  have n1: "records_for d1 (ce_command_id (cr_command ?q)) = []"
    using r by (simp add: records_for_def records_request_def)
  have "\<exists>e. execute rehearsal no_projection d1 ?q = Inl e \<and> submit rehearsal no_projection d1 ?q = d1"
    by (rule lost_update_refused [OF s first_request_wf w x(1) n n1, of first_intent first_intent]) simp_all
  then show ?thesis using x(2) by blast
qed

subsection \<open>Deep verification\<close>

lemma verified_replays:
  assumes "verify_connection env d = Inr u"
  shows "\<exists>es. replay_ledger d = Inr es \<and> verify_trusted_anchor env es = Inr ()"
proof (cases "replay_ledger d")
  case (Inl e)
  then show ?thesis using assms by (simp add: verify_connection_def fail_closed_def)
next
  case (Inr es)
  have "verify_trusted_anchor env es = Inr ()"
    using assms unfolding verify_connection_def fail_closed_def Inr by (cases "verify_trusted_anchor env es") simp_all
  then show ?thesis using Inr by simp
qed

definition states_of :: "(stream_key \<times> lifecycle_status option) list \<Rightarrow> event_envelope list \<Rightarrow> bool" where
  "states_of ss es \<longleftrightarrow> (\<forall>k. map_of ss k = (if stream_of es k = [] then None else Some (stream_status (stream_of es k))))"

lemma states_of_at: "states_of ss es \<Longrightarrow> (case map_of ss k of None \<Rightarrow> None | Some st \<Rightarrow> st) = stream_status (stream_of es k)"
  unfolding states_of_def by (drule spec [of _ k]) (simp add: stream_status_def)

lemma states_of_put:
  assumes "states_of ss es" "st = next_status (stream_status (stream_of es (event_key e))) e"
  shows "states_of (put (event_key e) st ss) (es @ [e])"
  using assms by (simp add: states_of_def map_of_put stream_of_snoc stream_status_def)

lemma deep_states_streams:
  assumes "deep_states ss rs = Inr out" "states_of ss hs" "list_all2 stored_as es rs"
  shows "states_of out (hs @ es)"
  using assms
proof (induction rs arbitrary: ss hs es)
  case (Cons r rs)
  obtain e es' where e: "es = e # es'" "stored_as e r" "list_all2 stored_as es' rs" using Cons.prems(3) by (auto simp: list_all2_Cons2)
  have k: "(ev_aggregate_kind r, ev_aggregate_id r) = event_key e" using stored_key [OF e(2)] .
  have p: "parse_aggregate_kind (ev_aggregate_kind r) = Some (ee_aggregate_kind e)" "parse_event_kind (ev_kind r) = Some (ee_kind e)"
    using k stored_columns [OF e(2)] by (auto simp: event_key_def)
  have "\<exists>st. deep_states (put (event_key e) st ss) rs = Inr out \<and> st = next_status (stream_status (stream_of hs (event_key e))) e"
    using Cons.prems(1) p k states_of_at [OF Cons.prems(2), of "event_key e"]
    by (auto simp: next_status_def Let_def bind_res_Inr as_contract_Inr split: if_splits)
  then obtain st where st: "deep_states (put (event_key e) st ss) rs = Inr out"
    "st = next_status (stream_status (stream_of hs (event_key e))) e" by blast
  from Cons.IH [OF st(1) states_of_put [OF Cons.prems(2) st(2)] e(3)] show ?case by (simp add: e(1))
qed simp

lemma deep_head_fields:
  "deep_head ss h = Inr h' \<Longrightarrow> hr_kind h' = hr_kind h \<and> hr_id h' = hr_id h \<and> hr_version h' = hr_version h \<and> hr_digest h' = hr_digest h"
  by (auto simp: deep_head_def Let_def bind_res_Inr)

lemma deep_head_sealed:
  assumes "deep_head ss h = Inr h'" "states_of ss es"
  shows "head_sealed es h'"
  using assms states_of_at [OF assms(2), of "(hr_kind h, hr_id h)"]
  by (auto simp: deep_head_def Let_def bind_res_Inr as_contract_Inr head_sealed_def)

lemma deep_heads_found:
  assumes "list_all2 (\<lambda>h h'. deep_head ss h = Inr h') hs hs'"
  shows "map_option (\<lambda>h. (hr_version h, hr_digest h)) (find (\<lambda>q. hr_kind q = k \<and> hr_id q = i) hs')
      = map_option (\<lambda>h. (hr_version h, hr_digest h)) (find (\<lambda>q. hr_kind q = k \<and> hr_id q = i) hs)
    \<and> map (\<lambda>h. (hr_kind h, hr_id h)) hs' = map (\<lambda>h. (hr_kind h, hr_id h)) hs"
  using assms by (induction rule: list_all2_induct) (auto dest!: deep_head_fields)

text \<open>C9. Deep verification puts a store in order: when \<open>verify\<close> succeeds, at start-up or later, the database
  it leaves replays to the same ledger, and its rewritten heads and checkpoint are the ones the next
  command needs, whatever stood there before.\<close>

theorem verification_restores_order:
  assumes "verify_store msg env now d = Inr d'" "keyed d" "utc_ok now"
  shows "store_ok d' \<and> replay_ledger d' = replay_ledger d"
proof -
  have vc: "verify_connection env d = Inr ()" and w: "if db_hotpath d then write_deep_checkpoint now d = Inr d' else d' = d"
    using assms(1) by (simp_all add: verify_store_def integrity_or_Inr bind_res_Inr split: if_splits)
  obtain es where es: "replay_ledger d = Inr es" using verified_replays [OF vc] by blast
  have v: "ledger_view d es" using replay_ledger_iff [OF assms(2)] es by blast
  show ?thesis
  proof (cases "db_hotpath d")
    case False
    then have "ledger_ok d es" using v assms(2) by (simp add: ledger_ok_def heads_sealed_def checkpoint_ok_def)
    then show ?thesis using w False by (auto simp: store_ok_iff)
  next
    case True
    then have wd: "write_deep_checkpoint now d = Inr d'" using w by simp
    obtain ss hs own where x: "deep_states [] (events_in_order d) = Inr ss" "map_all (deep_head ss) (db_heads d) = Inr hs"
      "authority_checkpoint_digest (fst (tip_of d)) (snd (tip_of d)) (int (length (db_heads d))) now = Inr own"
      "d' = d\<lparr>db_heads := hs, db_checkpoint := Some \<lparr>ck_sequence = fst (tip_of d), ck_digest = snd (tip_of d),
        ck_heads = int (length (db_heads d)), ck_verified_at = now, ck_own_digest = own\<rparr>\<rparr>"
      using wd by (auto simp: write_deep_checkpoint_def bind_res_Inr as_contract_Inr Let_def)
    have st: "list_all2 stored_as es (events_in_order d)" using v by (simp add: ledger_view_def keyed_order [OF assms(2)])
    have ss: "states_of ss es" using deep_states_streams [OF x(1) _ st, of "[]"] by (simp add: states_of_def)
    have l: "list_all2 (\<lambda>h h'. deep_head ss h = Inr h') (db_heads d) hs" using x(2) by (simp add: map_all_Inr_iff)
    have hs: "heads_ok d' es" using v deep_heads_found [OF l] by (simp add: ledger_view_def heads_ok_def head_of_def x(4))
    have sl: "\<forall>h \<in> set hs. head_sealed es h"
      using l by (induction rule: list_all2_induct) (auto intro: deep_head_sealed [OF _ ss])
    have tip: "tip_of d' = tip_of d" by (simp add: x(4) tip_of_def last_event_def events_in_order_def)
    have len: "length hs = length (db_heads d)" using l by (simp add: list_all2_lengthD)
    have t: "0 \<le> fst (tip_of d)" using tip_stored [OF assms(2), of es] v by (simp add: ledger_view_def)
    have ck: "checkpoint_ok d'"
      unfolding checkpoint_ok_def tip using t x(3) assms(3) len by (simp add: x(4) checkpoint_row_iff)
    have k: "keyed d'" using assms(2) deep_heads_found [OF l] by (simp add: keyed_def x(4))
    have lv: "ledger_view d' es" using v hs by (simp add: ledger_view_def imports_ok_def x(4))
    have sd: "heads_sealed d' es" using sl by (simp add: heads_sealed_def x(4))
    have "replay_ledger d' = Inr es" using replay_ledger_iff [OF k] lv by blast
    moreover have "store_ok d'" unfolding store_ok_iff ledger_ok_def using k lv sd ck by blast
    ultimately show ?thesis using es by simp
  qed
qed

theorem verification_restores_order_witness:
  "\<exists>d'. verify_store ''event-store verification failed'' rehearsal sample_now empty_store = Inr d' \<and> store_ok d'"
proof -
  have u: "utc_ok sample_now" by code_simp
  have "\<exists>d'. write_deep_checkpoint sample_now empty_store = Inr d'"
    using genesis_digests(2) by (simp add: write_deep_checkpoint_def events_in_order_def authority_checkpoint_digest_def as_contract_def Let_def)
  then obtain d' where d': "verify_store ''event-store verification failed'' rehearsal sample_now empty_store = Inr d'"
    using empty_store_replay by (auto simp: verify_store_def verify_connection_def verify_trusted_anchor_def rehearsal_def fail_closed_def integrity_or_def)
  show ?thesis using verification_restores_order [OF d' empty_store_view(1) u] d' by blast
qed

subsection \<open>A trusted anchor pins the history\<close>

text \<open>The bytes an event's digest is taken over.\<close>

definition event_bytes :: "event_envelope \<Rightarrow> bytes" where
  "event_bytes e = (case canonical_bytes (obj (event_content e)) of Inl _ \<Rightarrow> [] | Inr b \<Rightarrow> b)"

lemma event_digest_bytes:
  assumes "ee_wf e"
  shows "canonical_bytes (obj (event_content e)) = Inr (event_bytes e) \<and> ee_event_digest e = sha256_hex (event_bytes e)"
  using assms by (auto simp: ee_wf_def ee_own_ok_def event_recompute_digest_def canonical_digest_def map_res_Inr event_bytes_def)

lemma content_plain [simp]: "plain_ok (obj (event_content e))"
  by (simp add: event_content_def)

lemma same_content_same_event:
  assumes "ee_wf e" "ee_wf f" "event_bytes e = event_bytes f"
  shows "e = f"
proof -
  have b: "canonical_bytes (obj (event_content e)) = Inr (event_bytes e)" "canonical_bytes (obj (event_content f)) = Inr (event_bytes e)"
    using event_digest_bytes assms by auto
  then have t: "canonical_text (obj (event_content e)) = Inr (utf8_decode (event_bytes e))"
    "canonical_text (obj (event_content f)) = Inr (utf8_decode (event_bytes e))" by (simp_all add: canonical_text_def)
  then have "Some (reloaded (obj (event_content e))) = Some (reloaded (obj (event_content f)))"
    using canonical_text_reload by metis
  then have rl: "rl (obj (event_content e)) = rl (obj (event_content f))"
    using reloaded_plain [OF t(1) content_plain] reloaded_plain [OF t(2) content_plain] by simp
  have fld: "fld (rl (obj (event_content e))) k = fld (rl (obj (event_content f))) k" for k by (simp only: rl)
  have "rl (command_envelope_to_dict (ee_command e)) = rl (command_envelope_to_dict (ee_command f))"
    using fld [of "''command''"] by (simp add: rl_fld event_content_def)
  note cmd = this
  have wc: "ce_wf (ee_command e)" "ce_wf (ee_command f)" using assms(1,2) unfolding ee_wf_def by blast+
  have c: "ee_command e = ee_command f"
    using command_envelope_from_to(2) [OF wc(1)] command_envelope_from_to(2) [OF wc(2)] unfolding cmd by simp
  have k: "ee_kind e = ee_kind f" "ee_aggregate_kind e = ee_aggregate_kind f"
    using fld [of "''kind''"] fld [of "''aggregate_kind''"]
    by (simp_all add: rl_fld event_content_def event_kind_value_inj)
  have "ee_event_digest e = ee_event_digest f" using event_digest_bytes assms by simp
  then show "e = f"
    using c k fld [of "''event_id''"] fld [of "''aggregate_id''"] fld [of "''aggregate_version''"] fld [of "''global_sequence''"]
      fld [of "''prior_global_digest''"] fld [of "''prior_aggregate_digest''"] fld [of "''occurred_at_utc''"]
      fld [of "''monotonic_elapsed_ms''"]
    by (cases e; cases f) (simp add: rl_fld event_content_def)
qed

lemma chain_wf: "chain es \<Longrightarrow> e \<in> set es \<Longrightarrow> ee_wf e"
  by (induction rule: chain.induct) (auto simp: follows_def Let_def)

lemma same_tip_same_chain:
  assumes "chain es" "chain fs" "length fs = length es" "last_digest es = last_digest fs"
  shows "es = fs \<or> (\<exists>i < length es. collision (event_bytes (es ! i)) (event_bytes (fs ! i)))"
  using assms
proof (induction arbitrary: fs rule: chain.induct)
  case (chain_snoc es e)
  obtain fs' f where fs: "fs = fs' @ [f]" using chain_snoc.prems(2) by (cases fs rule: rev_cases) auto
  have f: "chain fs'" "follows fs' f" "length fs' = length es" using chain_snoc.prems fs by (simp_all add: chain_snoc_iff)
  have wf: "ee_wf e" "ee_wf f" using chain_snoc.hyps(2) f(2) by (simp_all add: follows_def Let_def)
  have "sha256_hex (event_bytes e) = sha256_hex (event_bytes f)"
    using chain_snoc.prems(3) fs event_digest_bytes wf by simp
  then consider "event_bytes e = event_bytes f" | "collision (event_bytes e) (event_bytes f)" by (auto simp: sha256_eq_cases)
  then show ?case
  proof cases
    case 1
    then have ef: "e = f" using same_content_same_event wf by blast
    then have "last_digest es = last_digest fs'" using chain_snoc.hyps(2) f(2) by (simp add: follows_def Let_def)
    from chain_snoc.IH [OF f(1,3) this] show ?thesis
      using ef fs f(3) by (auto simp: nth_append intro: less_SucI)
  next
    case 2
    then show ?thesis using fs f(3) by (intro disjI2 exI [of _ "length es"]) (simp add: nth_append)
  qed
qed simp

lemma chain_take: "chain es \<Longrightarrow> chain (take n es)"
  using chain_prefix [of "take n es" "drop n es"] by simp

lemma anchored_event:
  assumes "verify_trusted_anchor env es = Inr u" "se_anchor env = Some a" "0 < an_sequence a" "chain es"
  shows "nat (an_sequence a) \<le> length es \<and> last_digest (take (nat (an_sequence a)) es) = an_digest a"
proof -
  obtain e where e: "event_by_sequence es (an_sequence a) = Some e" "ee_event_digest e = an_digest a"
    using assms(1-3) by (auto simp: verify_trusted_anchor_def bind_res_Inr split: option.splits if_splits)
  then obtain i where i: "i < length es" "e = es ! i" "ee_global_sequence e = an_sequence a"
    by (auto simp: event_by_sequence_def find_Some_iff)
  then have n: "nat (an_sequence a) = Suc i" using chain_nth [OF assms(4) i(1)] by simp
  then show ?thesis using i e(2) by (simp add: take_Suc_conv_app_nth)
qed

text \<open>C3. Tamper evidence: two databases that replay and contain the same trusted anchor hold the same
  events up to the anchor, in all their fields, unless two of the canonical byte strings of events at
  one position are a SHA-256 collision.\<close>

theorem anchor_pins_history:
  assumes "keyed d" "keyed d'" "verify_connection env d = Inr ()" "verify_connection env d' = Inr ()"
    "se_anchor env = Some a" "0 < an_sequence a" "replay_ledger d = Inr es" "replay_ledger d' = Inr es'"
  shows "take (nat (an_sequence a)) es = take (nat (an_sequence a)) es'
    \<or> (\<exists>i < nat (an_sequence a). collision (event_bytes (es ! i)) (event_bytes (es' ! i)))"
proof -
  have v: "ledger_view d es" "ledger_view d' es'" using replay_ledger_iff assms(1,2,7,8) by blast+
  then have c: "chain es" "chain es'" by (simp_all add: ledger_view_def)
  have t: "verify_trusted_anchor env es = Inr ()" "verify_trusted_anchor env es' = Inr ()"
    using verified_replays [OF assms(3)] verified_replays [OF assms(4)] assms(7,8) by auto
  let ?n = "nat (an_sequence a)"
  have a: "?n \<le> length es" "?n \<le> length es'" "last_digest (take ?n es) = last_digest (take ?n es')"
    using anchored_event [OF t(1) assms(5,6) c(1)] anchored_event [OF t(2) assms(5,6) c(2)] by simp_all
  from same_tip_same_chain [OF chain_take [OF c(1)] chain_take [OF c(2)] _ a(3)] a(1,2) show ?thesis by auto
qed

theorem anchor_pins_history_witness:
  "\<exists>d es a. replay_ledger d = Inr es \<and> length es = 1 \<and> verify_connection (rehearsal\<lparr>se_anchor := Some a\<rparr>) d = Inr () \<and> take 1 es = es"
proof -
  obtain d res where x: "execute rehearsal no_projection empty_store first_request = Inr (d, res)" "length (db_events d) = 1"
    using first_command_committed by blast
  have s: "store_ok d" using execute_answers [OF x(1)] genesis_ok first_request_wf by blast
  then obtain es where es: "ledger_ok d es" by (auto simp: store_ok_iff)
  then have k: "keyed d" and r: "replay_ledger d = Inr es" and c: "chain es" and l: "list_all2 stored_as es (db_events d)"
    using replay_ledger_iff by (auto simp: ledger_ok_def ledger_view_def)
  have len: "length es = 1" using list_all2_lengthD [OF l] x(2) by simp
  then obtain e where e: "es = [e]" by (cases es) auto
  have q: "ee_global_sequence e = 1" using chain_nth [OF c, of 0] e by simp
  let ?a = "\<lparr>an_sequence = 1, an_digest = ee_event_digest e\<rparr>"
  let ?env = "rehearsal\<lparr>se_anchor := Some ?a\<rparr>"
  have v: "verify_connection ?env d = Inr ()"
    by (simp add: verify_connection_def r e verify_trusted_anchor_def rehearsal_def event_by_sequence_def q fail_closed_def)
  have "take 1 es = take 1 es \<or> (\<exists>i < 1. collision (event_bytes (es ! i)) (event_bytes (es ! i)))"
    using anchor_pins_history [OF k k v v _ _ r r] by simp
  then show ?thesis using v r len by (intro exI [of _ d] exI [of _ es] exI [of _ ?a]) simp
qed

subsection \<open>Receipts of a critical issue\<close>

text \<open>The receipts a value names: under \<open>receipt_id\<close>, in the sequence under \<open>receipt_ids\<close>, in a value of
  the mapping, and, when sequences are entered at all, in an element of a sequence.\<close>

inductive names :: "bool \<Rightarrow> py \<Rightarrow> string \<Rightarrow> bool" for enter where
  names_own: "map_of kvs (PStr ''receipt_id'') = Some (PStr r) \<Longrightarrow> prefix ''receipt:'' r \<Longrightarrow> names enter (PMap kvs) r"
| names_listed: "map_of kvs (PStr ''receipt_ids'') = Some (PSeq xs) \<Longrightarrow> PStr r \<in> set xs \<Longrightarrow> prefix ''receipt:'' r
    \<Longrightarrow> names enter (PMap kvs) r"
| names_below: "(k, x) \<in> set kvs \<Longrightarrow> names enter x r \<Longrightarrow> names enter (PMap kvs) r"
| names_item: "enter \<Longrightarrow> x \<in> set xs \<Longrightarrow> names enter x r \<Longrightarrow> names enter (PSeq xs) r"

inductive_simps names_map: "names enter (PMap kvs) r"
inductive_simps names_seq: "names enter (PSeq xs) r"
inductive_simps names_leaf [simp]:
  "names enter PNone r" "names enter (PBool b) r" "names enter (PInt i) r" "names enter (PDec d) r"
  "names enter (PFloat f) r" "names enter (PStr s) r" "names enter (POther s) r"

text \<open>The two shapes in which a value reaches the walk: as loaded, or frozen besides.\<close>

definition shaped :: "bool \<Rightarrow> py \<Rightarrow> candidate" where
  "shaped enter v = (if enter then loaded v else deep_freeze (loaded v))"

lemma shaped_simps [simp]:
  "shaped enter (PMap kvs) = CMap (map (\<lambda>(k, x). (k, shaped enter x)) kvs)"
  "shaped enter (PSeq xs) = (if enter then CList else CTuple) (map (shaped enter) xs)"
  "shaped enter (PStr s) = CLeaf (PStr s)" "shaped enter PNone = CLeaf PNone" "shaped enter (PBool b) = CLeaf (PBool b)"
  "shaped enter (PInt i) = CLeaf (PInt i)" "shaped enter (PDec d) = CLeaf (PDec d)" "shaped enter (PFloat f) = CLeaf (PFloat f)"
  "shaped enter (POther t) = CLeaf (POther t)"
  by (auto simp: shaped_def)

lemma receipt_name_shaped [simp]: "r \<in> set (receipt_name (shaped enter v)) \<longleftrightarrow> v = PStr r \<and> prefix ''receipt:'' r"
  by (cases v) (auto simp: receipt_name_def)

lemma named_receipts_shaped:
  "r \<in> set (named_receipts (map (\<lambda>(k, x). (k, shaped enter x)) kvs)) \<longleftrightarrow> prefix ''receipt:'' r
     \<and> (map_of kvs (PStr ''receipt_id'') = Some (PStr r)
        \<or> (\<exists>xs. map_of kvs (PStr ''receipt_ids'') = Some (PSeq xs) \<and> PStr r \<in> set xs))"
proof -
  have l: "r \<in> set (case shaped enter v of CList xs \<Rightarrow> concat (map receipt_name xs)
       | CTuple xs \<Rightarrow> concat (map receipt_name xs) | _ \<Rightarrow> []) \<longleftrightarrow> (\<exists>xs. v = PSeq xs \<and> PStr r \<in> set xs) \<and> prefix ''receipt:'' r" for v
    by (cases v) auto
  show ?thesis
    unfolding named_receipts_def map_of_map
    by (cases "map_of kvs (PStr ''receipt_id'')"; cases "map_of kvs (PStr ''receipt_ids'')") (auto simp: l)
qed

lemma collect_receipts_shaped: "r \<in> set (collect_receipts (shaped enter v)) \<longleftrightarrow> names enter v r"
proof (induction v rule: loaded.induct)
  case (1 kvs)
  have "r \<in> set (concat (map (\<lambda>(k, x). collect_receipts x) (map (\<lambda>(k, x). (k, shaped enter x)) kvs)))
      \<longleftrightarrow> (\<exists>(k, x) \<in> set kvs. r \<in> set (collect_receipts (shaped enter x)))"
    by (induction kvs) auto
  also have "\<dots> \<longleftrightarrow> (\<exists>k x. (k, x) \<in> set kvs \<and> names enter x r)" using 1 by blast
  finally have b: "r \<in> set (concat (map (\<lambda>(k, x). collect_receipts x) (map (\<lambda>(k, x). (k, shaped enter x)) kvs)))
      \<longleftrightarrow> (\<exists>k x. (k, x) \<in> set kvs \<and> names enter x r)" .
  show ?case
    unfolding shaped_simps collect_receipts.simps set_append Un_iff b named_receipts_shaped names_map by blast
next
  case (2 xs)
  then show ?case by (auto simp: names_seq)
qed auto

lemma critical_receipt_ids_shaped:
  "critical_receipt_ids (shaped enter v) = Inr ids \<longleftrightarrow>
     ids \<noteq> [] \<and> sorted ids \<and> distinct ids \<and> (\<forall>r. r \<in> set ids \<longleftrightarrow> names enter v r)"
proof -
  let ?c = "collect_receipts (shaped enter v)"
  have "critical_receipt_ids (shaped enter v) = Inr ids \<longleftrightarrow> ?c \<noteq> [] \<and> ids = sort (remdups ?c)"
    by (auto simp: critical_receipt_ids_def split: list.split)
  also have "\<dots> \<longleftrightarrow> ids \<noteq> [] \<and> sorted ids \<and> distinct ids \<and> set ids = set ?c"
    by (metis distinct_remdups distinct_sort set_empty set_remdups set_sort sorted_distinct_set_unique sorted_sort)
  finally show ?thesis by (simp add: set_eq_iff collect_receipts_shaped)
qed

lemma critical_receipt_ids_fails:
  "critical_receipt_ids (shaped enter v) = Inl (StoreError ''critical issue result contains no receipt identities'')
     \<longleftrightarrow> (\<forall>r. \<not> names enter v r)"
  by (auto simp: critical_receipt_ids_def collect_receipts_shaped [symmetric] split: list.split)

text \<open>C40. The walk over a value with lists, as \<open>json.loads\<close> returns it, answers with the receipts the value
  names anywhere, sorted and each once. An issue is checked against the frozen result of its request, and
  there the same walk answers with those named on a path of mappings only: receipts named only inside the
  elements of lists are missed, and a result with no others is refused as containing none.\<close>

theorem issue_receipts_exact:
  "(critical_receipt_ids (loaded v) = Inr ids
      \<longleftrightarrow> ids \<noteq> [] \<and> sorted ids \<and> distinct ids \<and> (\<forall>r. r \<in> set ids \<longleftrightarrow> names True v r))
   \<and> (issue_receipts q = Inr ids
      \<longleftrightarrow> ids \<noteq> [] \<and> sorted ids \<and> distinct ids \<and> (\<forall>r. r \<in> set ids \<longleftrightarrow> names False (cr_result q) r))
   \<and> (issue_receipts q = Inl (StoreError ''critical issue result contains no receipt identities'')
      \<longleftrightarrow> (\<forall>r. \<not> names False (cr_result q) r))"
  using critical_receipt_ids_shaped [of True] critical_receipt_ids_shaped [of False] critical_receipt_ids_fails [of False]
  by (simp add: issue_receipts_def shaped_def)

end
