(* ===== verification/Capacity.thy ===== *)
theory Capacity
  imports Json
begin

section \<open>Capacity admission (application/capacity.py)\<close>

text \<open>
  The closed catalogue of work (lanes, resources, kinds, priorities), the frozen capacity manifest
  with its dictionary form, and the two pure admission decisions of the job queue. A class is a
  record with its \<open>__post_init__\<close> as the list of checks in source order. \<open>load\<close>, which reads the
  manifest from a file, is input and output around \<open>capacity_manifest_from_dict\<close> and is left out.
\<close>

subsection \<open>JobLane\<close>

datatype (plugins only: code size) job_lane =
    JL_HOT_FIELD
  | JL_INFERENCE
  | JL_LOOKUP_RECOVERY
  | JL_MAINTENANCE

primrec job_lane_value :: "job_lane \<Rightarrow> string" where
  "job_lane_value JL_HOT_FIELD = ''hot_field''"
| "job_lane_value JL_INFERENCE = ''inference''"
| "job_lane_value JL_LOOKUP_RECOVERY = ''lookup_recovery''"
| "job_lane_value JL_MAINTENANCE = ''maintenance''"

definition job_lanes :: "job_lane list" where
  "job_lanes = [JL_HOT_FIELD, JL_INFERENCE, JL_LOOKUP_RECOVERY, JL_MAINTENANCE]"

lemma job_lanes_complete [vocabulary]: "x \<in> set job_lanes"
  by (cases x) (simp_all add: job_lanes_def)

lemma job_lane_values_distinct [vocabulary]: "distinct (map job_lane_value job_lanes)"
  by code_simp

definition parse_job_lane :: "string \<Rightarrow> job_lane option" where
  "parse_job_lane = parse_member job_lanes job_lane_value"

lemma parse_job_lane_value [simp]: "parse_job_lane (job_lane_value x) = Some x"
  by (simp add: parse_job_lane_def parse_member_value vocabulary)

lemma job_lane_value_inj [simp]: "job_lane_value x = job_lane_value y \<longleftrightarrow> x = y"
  by (metis option.inject parse_job_lane_value)

subsection \<open>JobResourceClass\<close>

datatype (plugins only: code size) job_resource_class =
    JR_LOCAL_CPU
  | JR_LOCAL_GPU
  | JR_CLOUD
  | JR_STORAGE_IO

primrec job_resource_class_value :: "job_resource_class \<Rightarrow> string" where
  "job_resource_class_value JR_LOCAL_CPU = ''local_cpu''"
| "job_resource_class_value JR_LOCAL_GPU = ''local_gpu''"
| "job_resource_class_value JR_CLOUD = ''cloud''"
| "job_resource_class_value JR_STORAGE_IO = ''storage_io''"

definition job_resource_classs :: "job_resource_class list" where
  "job_resource_classs = [JR_LOCAL_CPU, JR_LOCAL_GPU, JR_CLOUD, JR_STORAGE_IO]"

lemma job_resource_classs_complete [vocabulary]: "x \<in> set job_resource_classs"
  by (cases x) (simp_all add: job_resource_classs_def)

lemma job_resource_class_values_distinct [vocabulary]: "distinct (map job_resource_class_value job_resource_classs)"
  by code_simp

definition parse_job_resource_class :: "string \<Rightarrow> job_resource_class option" where
  "parse_job_resource_class = parse_member job_resource_classs job_resource_class_value"

lemma parse_job_resource_class_value [simp]: "parse_job_resource_class (job_resource_class_value x) = Some x"
  by (simp add: parse_job_resource_class_def parse_member_value vocabulary)

lemma job_resource_class_value_inj [simp]: "job_resource_class_value x = job_resource_class_value y \<longleftrightarrow> x = y"
  by (metis option.inject parse_job_resource_class_value)

subsection \<open>JobKind\<close>

datatype (plugins only: code size) job_kind =
    JK_HOT_FIELD_ASSEMBLY
  | JK_FORMULA_CARD
  | JK_ML_CARD
  | JK_LOCAL_LLM_CARD
  | JK_CLOUD_LLM_CARD
  | JK_RECEIPT_LOOKUP
  | JK_PROJECTION_REBUILD
  | JK_MODEL_FACTORY
  | JK_MAINTENANCE

primrec job_kind_value :: "job_kind \<Rightarrow> string" where
  "job_kind_value JK_HOT_FIELD_ASSEMBLY = ''hot_field_assembly''"
| "job_kind_value JK_FORMULA_CARD = ''formula_card''"
| "job_kind_value JK_ML_CARD = ''ml_card''"
| "job_kind_value JK_LOCAL_LLM_CARD = ''local_llm_card''"
| "job_kind_value JK_CLOUD_LLM_CARD = ''cloud_llm_card''"
| "job_kind_value JK_RECEIPT_LOOKUP = ''receipt_lookup''"
| "job_kind_value JK_PROJECTION_REBUILD = ''projection_rebuild''"
| "job_kind_value JK_MODEL_FACTORY = ''model_factory''"
| "job_kind_value JK_MAINTENANCE = ''maintenance''"

definition job_kinds :: "job_kind list" where
  "job_kinds = [JK_HOT_FIELD_ASSEMBLY, JK_FORMULA_CARD, JK_ML_CARD, JK_LOCAL_LLM_CARD, JK_CLOUD_LLM_CARD, JK_RECEIPT_LOOKUP, JK_PROJECTION_REBUILD, JK_MODEL_FACTORY, JK_MAINTENANCE]"

lemma job_kinds_complete [vocabulary]: "x \<in> set job_kinds"
  by (cases x) (simp_all add: job_kinds_def)

lemma job_kind_values_distinct [vocabulary]: "distinct (map job_kind_value job_kinds)"
  by code_simp

definition parse_job_kind :: "string \<Rightarrow> job_kind option" where
  "parse_job_kind = parse_member job_kinds job_kind_value"

lemma parse_job_kind_value [simp]: "parse_job_kind (job_kind_value x) = Some x"
  by (simp add: parse_job_kind_def parse_member_value vocabulary)

lemma job_kind_value_inj [simp]: "job_kind_value x = job_kind_value y \<longleftrightarrow> x = y"
  by (metis option.inject parse_job_kind_value)

text \<open>\<open>JobKind.lane\<close> and \<open>JobKind.resource_class\<close>.\<close>

primrec kind_lane :: "job_kind \<Rightarrow> job_lane" where
  "kind_lane JK_HOT_FIELD_ASSEMBLY = JL_HOT_FIELD"
| "kind_lane JK_FORMULA_CARD = JL_INFERENCE"
| "kind_lane JK_ML_CARD = JL_INFERENCE"
| "kind_lane JK_LOCAL_LLM_CARD = JL_INFERENCE"
| "kind_lane JK_CLOUD_LLM_CARD = JL_INFERENCE"
| "kind_lane JK_RECEIPT_LOOKUP = JL_LOOKUP_RECOVERY"
| "kind_lane JK_PROJECTION_REBUILD = JL_LOOKUP_RECOVERY"
| "kind_lane JK_MODEL_FACTORY = JL_MAINTENANCE"
| "kind_lane JK_MAINTENANCE = JL_MAINTENANCE"

primrec kind_resource :: "job_kind \<Rightarrow> job_resource_class" where
  "kind_resource JK_HOT_FIELD_ASSEMBLY = JR_LOCAL_CPU"
| "kind_resource JK_FORMULA_CARD = JR_LOCAL_CPU"
| "kind_resource JK_ML_CARD = JR_LOCAL_CPU"
| "kind_resource JK_LOCAL_LLM_CARD = JR_LOCAL_GPU"
| "kind_resource JK_CLOUD_LLM_CARD = JR_CLOUD"
| "kind_resource JK_RECEIPT_LOOKUP = JR_STORAGE_IO"
| "kind_resource JK_PROJECTION_REBUILD = JR_STORAGE_IO"
| "kind_resource JK_MODEL_FACTORY = JR_LOCAL_GPU"
| "kind_resource JK_MAINTENANCE = JR_LOCAL_CPU"

subsection \<open>JobPriority\<close>

datatype (plugins only: code size) job_priority =
    JP_MAINTENANCE
  | JP_SCHEDULED_ENTRANT
  | JP_PLAUSIBLE_QUALIFIER
  | JP_IMMINENT_FIELD
  | JP_RECOVERY

primrec priority_value :: "job_priority \<Rightarrow> int" where
  "priority_value JP_MAINTENANCE = 100"
| "priority_value JP_SCHEDULED_ENTRANT = 200"
| "priority_value JP_PLAUSIBLE_QUALIFIER = 300"
| "priority_value JP_IMMINENT_FIELD = 400"
| "priority_value JP_RECOVERY = 500"

text \<open>An \<open>IntEnum\<close> is ordered by its values.\<close>

instantiation job_priority :: linorder
begin

definition less_eq_job_priority :: "job_priority \<Rightarrow> job_priority \<Rightarrow> bool" where
  "less_eq_job_priority p q \<longleftrightarrow> priority_value p \<le> priority_value q"

definition less_job_priority :: "job_priority \<Rightarrow> job_priority \<Rightarrow> bool" where
  "less_job_priority p q \<longleftrightarrow> priority_value p < priority_value q"

instance
proof
  fix p q r :: job_priority
  show "(p < q) = (p \<le> q \<and> \<not> q \<le> p)" by (auto simp: less_eq_job_priority_def less_job_priority_def)
  show "p \<le> p" by (simp add: less_eq_job_priority_def)
  show "p \<le> q \<Longrightarrow> q \<le> r \<Longrightarrow> p \<le> r" by (simp add: less_eq_job_priority_def)
  show "p \<le> q \<Longrightarrow> q \<le> p \<Longrightarrow> p = q" by (cases p; cases q) (simp_all add: less_eq_job_priority_def)
  show "p \<le> q \<or> q \<le> p" by (auto simp: less_eq_job_priority_def)
qed

end

definition job_priorities :: "job_priority list" where
  "job_priorities = [JP_MAINTENANCE, JP_SCHEDULED_ENTRANT, JP_PLAUSIBLE_QUALIFIER, JP_IMMINENT_FIELD, JP_RECOVERY]"

definition parse_job_priority :: "int \<Rightarrow> job_priority option" where
  "parse_job_priority n = find (\<lambda>p. priority_value p = n) job_priorities"

lemma parse_job_priority_value [simp]: "parse_job_priority (priority_value p) = Some p"
  by (cases p) (simp_all add: parse_job_priority_def job_priorities_def)

subsection \<open>The manifest\<close>

datatype capacity_error = CapacityError string

definition capacity_fields :: "py \<Rightarrow> string list \<Rightarrow> capacity_error + unit" where
  "capacity_fields v expected = guards [(\<not> fields_are v expected, CapacityError ''capacity fields are missing, unknown, or extra'')]"

definition capacity_positive :: "py \<Rightarrow> string \<Rightarrow> capacity_error + int" where
  "capacity_positive v label = (case v of
       PInt n \<Rightarrow> if n \<le> 0 then Inl (CapacityError (label @ '' must be a positive integer'')) else Inr n
     | _ \<Rightarrow> Inl (CapacityError (label @ '' must be a positive integer'')))"

definition capacity_nonnegative :: "py \<Rightarrow> string \<Rightarrow> capacity_error + int" where
  "capacity_nonnegative v label = (case v of
       PInt n \<Rightarrow> if n < 0 then Inl (CapacityError (label @ '' must be a non-negative integer'')) else Inr n
     | _ \<Rightarrow> Inl (CapacityError (label @ '' must be a non-negative integer'')))"

lemma capacity_checks_Inr [result_simps]:
  "capacity_fields v ks = Inr u \<longleftrightarrow> fields_are v ks"
  "capacity_positive v l = Inr n \<longleftrightarrow> v = PInt n \<and> 0 < n"
  "capacity_nonnegative v l = Inr n \<longleftrightarrow> v = PInt n \<and> 0 \<le> n"
  by (auto simp: capacity_fields_def capacity_positive_def capacity_nonnegative_def split: py.splits if_splits)

definition capacity_schema_version :: string where
  "capacity_schema_version = ''strathmark-v3-job-capacity-v1''"

record lane_capacity =
  lc_lane :: job_lane
  lc_max_queued :: int
  lc_max_leased :: int

definition mk_lane_capacity :: "job_lane \<Rightarrow> py \<Rightarrow> py \<Rightarrow> capacity_error + lane_capacity" where
  "mk_lane_capacity lane queued leased =
     bind_res (capacity_positive queued ''max_queued'') (\<lambda>a.
     bind_res (capacity_positive leased ''max_leased'') (\<lambda>b.
     bind_res (guards [(a < b, CapacityError ''max_leased cannot exceed max_queued'')]) (\<lambda>_.
     Inr \<lparr>lc_lane = lane, lc_max_queued = a, lc_max_leased = b\<rparr>)))"

definition lane_capacity_to_dict :: "lane_capacity \<Rightarrow> py" where
  "lane_capacity_to_dict l = obj [(''lane'', PStr (job_lane_value (lc_lane l))), (''max_queued'', PInt (lc_max_queued l)),
     (''max_leased'', PInt (lc_max_leased l))]"

definition lane_capacity_from_dict :: "py \<Rightarrow> capacity_error + lane_capacity" where
  "lane_capacity_from_dict v =
     bind_res (capacity_fields v [''lane'', ''max_queued'', ''max_leased'']) (\<lambda>_.
     bind_res (of_option (CapacityError ''unknown job lane'')
       (case fld v ''lane'' of PStr s \<Rightarrow> parse_job_lane s | _ \<Rightarrow> None)) (\<lambda>lane.
     mk_lane_capacity lane (fld v ''max_queued'') (fld v ''max_leased'')))"

record capacity_manifest =
  cm_max_open_tournaments :: int
  cm_max_round_entrants :: int
  cm_max_field_entrants :: int
  cm_max_plausible_qualifiers :: int
  cm_max_context_cards :: int
  cm_max_queued_jobs :: int
  cm_max_receipt_bytes :: int
  cm_max_blob_bytes :: int
  cm_max_api_page_size :: int
  cm_reserved_imminent_jobs :: int
  cm_reserved_recovery_jobs :: int
  cm_aging_interval_ms :: int
  cm_aging_increment :: int
  cm_lanes :: "lane_capacity list"

text \<open>\<open>CapacityManifest.__post_init__\<close>: the schema, the positive limits in the order of the loop and
  the two reserves, then the relations between them.\<close>

definition manifest_relations :: "capacity_manifest \<Rightarrow> (bool \<times> capacity_error) list" where
  "manifest_relations m =
     [(cm_max_queued_jobs m \<le> cm_reserved_imminent_jobs m + cm_reserved_recovery_jobs m,
        CapacityError ''reserved jobs must leave ordinary queue capacity''),
      (cm_max_round_entrants m < cm_max_field_entrants m, CapacityError ''field entrants cannot exceed round entrants''),
      (cm_max_round_entrants m < cm_max_plausible_qualifiers m, CapacityError ''plausible qualifiers cannot exceed round entrants''),
      (cm_max_context_cards m < cm_max_plausible_qualifiers m,
        CapacityError ''context-card capacity cannot be below plausible qualifiers''),
      (\<not> distinct (map lc_lane (cm_lanes m)) \<or> set (map lc_lane (cm_lanes m)) \<noteq> set job_lanes,
        CapacityError ''capacity manifest must define every lane exactly once''),
      (sum_list (map lc_max_queued (cm_lanes m)) < cm_max_queued_jobs m,
        CapacityError ''lane queue limits cannot be below the global queue limit'')]"

definition mk_capacity_manifest ::
    "py \<Rightarrow> py \<Rightarrow> py \<Rightarrow> py \<Rightarrow> py \<Rightarrow> py \<Rightarrow> py \<Rightarrow> py \<Rightarrow> py \<Rightarrow> py \<Rightarrow> py \<Rightarrow> py \<Rightarrow> py \<Rightarrow> py \<Rightarrow> lane_capacity list
      \<Rightarrow> capacity_error + capacity_manifest" where
  "mk_capacity_manifest schema tournaments entrants field_limit qualifiers cards jobs receipts blobs page imminent recovery
       interval increment lanes =
     bind_res (guards [(schema \<noteq> PStr capacity_schema_version, CapacityError ''unsupported capacity manifest schema'')]) (\<lambda>_.
     bind_res (capacity_positive tournaments ''max_open_tournaments'') (\<lambda>a.
     bind_res (capacity_positive entrants ''max_round_entrants'') (\<lambda>b.
     bind_res (capacity_positive field_limit ''max_field_entrants'') (\<lambda>c.
     bind_res (capacity_positive qualifiers ''max_plausible_qualifiers'') (\<lambda>d.
     bind_res (capacity_positive cards ''max_context_cards'') (\<lambda>e.
     bind_res (capacity_positive jobs ''max_queued_jobs'') (\<lambda>f.
     bind_res (capacity_positive receipts ''max_receipt_bytes'') (\<lambda>g.
     bind_res (capacity_positive blobs ''max_blob_bytes'') (\<lambda>h.
     bind_res (capacity_positive page ''max_api_page_size'') (\<lambda>i.
     bind_res (capacity_positive interval ''aging_interval_ms'') (\<lambda>j.
     bind_res (capacity_positive increment ''aging_increment'') (\<lambda>k.
     bind_res (capacity_positive imminent ''reserved_imminent_jobs'') (\<lambda>l.
     bind_res (capacity_positive recovery ''reserved_recovery_jobs'') (\<lambda>n.
     let m = \<lparr>cm_max_open_tournaments = a, cm_max_round_entrants = b, cm_max_field_entrants = c,
           cm_max_plausible_qualifiers = d, cm_max_context_cards = e, cm_max_queued_jobs = f, cm_max_receipt_bytes = g,
           cm_max_blob_bytes = h, cm_max_api_page_size = i, cm_reserved_imminent_jobs = l, cm_reserved_recovery_jobs = n,
           cm_aging_interval_ms = j, cm_aging_increment = k, cm_lanes = lanes\<rparr> in
     map_res (\<lambda>_. m) (guards (manifest_relations m))))))))))))))))"

definition capacity_manifest_to_dict :: "capacity_manifest \<Rightarrow> py" where
  "capacity_manifest_to_dict m = obj
     [(''schema_version'', PStr capacity_schema_version),
      (''max_open_tournaments'', PInt (cm_max_open_tournaments m)),
      (''max_round_entrants'', PInt (cm_max_round_entrants m)),
      (''max_field_entrants'', PInt (cm_max_field_entrants m)),
      (''max_plausible_qualifiers'', PInt (cm_max_plausible_qualifiers m)),
      (''max_context_cards'', PInt (cm_max_context_cards m)),
      (''max_queued_jobs'', PInt (cm_max_queued_jobs m)),
      (''max_receipt_bytes'', PInt (cm_max_receipt_bytes m)),
      (''max_blob_bytes'', PInt (cm_max_blob_bytes m)),
      (''max_api_page_size'', PInt (cm_max_api_page_size m)),
      (''reserved_imminent_jobs'', PInt (cm_reserved_imminent_jobs m)),
      (''reserved_recovery_jobs'', PInt (cm_reserved_recovery_jobs m)),
      (''aging_interval_ms'', PInt (cm_aging_interval_ms m)),
      (''aging_increment'', PInt (cm_aging_increment m)),
      (''lanes'', PSeq (map lane_capacity_to_dict (cm_lanes m)))]"

definition capacity_manifest_from_dict :: "py \<Rightarrow> capacity_error + capacity_manifest" where
  "capacity_manifest_from_dict v =
     bind_res (capacity_fields v [''schema_version'', ''max_open_tournaments'', ''max_round_entrants'', ''max_field_entrants'',
       ''max_plausible_qualifiers'', ''max_context_cards'', ''max_queued_jobs'', ''max_receipt_bytes'', ''max_blob_bytes'',
       ''max_api_page_size'', ''reserved_imminent_jobs'', ''reserved_recovery_jobs'', ''aging_interval_ms'',
       ''aging_increment'', ''lanes'']) (\<lambda>_.
     case fld v ''lanes'' of
       PSeq xs \<Rightarrow> bind_res (map_all lane_capacity_from_dict xs) (\<lambda>lanes.
         mk_capacity_manifest (fld v ''schema_version'') (fld v ''max_open_tournaments'') (fld v ''max_round_entrants'')
           (fld v ''max_field_entrants'') (fld v ''max_plausible_qualifiers'') (fld v ''max_context_cards'')
           (fld v ''max_queued_jobs'') (fld v ''max_receipt_bytes'') (fld v ''max_blob_bytes'') (fld v ''max_api_page_size'')
           (fld v ''reserved_imminent_jobs'') (fld v ''reserved_recovery_jobs'') (fld v ''aging_interval_ms'')
           (fld v ''aging_increment'') lanes)
     | _ \<Rightarrow> Inl (CapacityError ''manifest lanes must be a JSON array''))"

definition capacity_manifest_digest :: "capacity_manifest \<Rightarrow> v3_error + string" where
  "capacity_manifest_digest m = canonical_digest (capacity_manifest_to_dict m)"

text \<open>\<open>CapacityManifest.lane\<close>: the first entry of the lane; every manifest has one.\<close>

definition manifest_lane :: "capacity_manifest \<Rightarrow> job_lane \<Rightarrow> lane_capacity option" where
  "manifest_lane m lane = find (\<lambda>l. lc_lane l = lane) (cm_lanes m)"

subsection \<open>Operational use\<close>

record capacity_use =
  cu_open_tournaments :: int
  cu_round_entrants :: int
  cu_field_entrants :: int
  cu_plausible_qualifiers :: int
  cu_context_cards :: int
  cu_receipt_bytes :: int
  cu_blob_bytes :: int
  cu_api_page_size :: int

definition mk_capacity_use :: "py \<Rightarrow> py \<Rightarrow> py \<Rightarrow> py \<Rightarrow> py \<Rightarrow> py \<Rightarrow> py \<Rightarrow> py \<Rightarrow> capacity_error + capacity_use" where
  "mk_capacity_use tournaments entrants field_entrants qualifiers cards receipts blobs page =
     bind_res (capacity_nonnegative tournaments ''open_tournaments'') (\<lambda>a.
     bind_res (capacity_nonnegative entrants ''round_entrants'') (\<lambda>b.
     bind_res (capacity_nonnegative field_entrants ''field_entrants'') (\<lambda>c.
     bind_res (capacity_nonnegative qualifiers ''plausible_qualifiers'') (\<lambda>d.
     bind_res (capacity_nonnegative cards ''context_cards'') (\<lambda>e.
     bind_res (capacity_nonnegative receipts ''receipt_bytes'') (\<lambda>f.
     bind_res (capacity_nonnegative blobs ''blob_bytes'') (\<lambda>g.
     bind_res (capacity_nonnegative page ''api_page_size'') (\<lambda>h.
     Inr \<lparr>cu_open_tournaments = a, cu_round_entrants = b, cu_field_entrants = c, cu_plausible_qualifiers = d,
       cu_context_cards = e, cu_receipt_bytes = f, cu_blob_bytes = g, cu_api_page_size = h\<rparr>))))))))"

definition capacity_use_to_dict :: "capacity_use \<Rightarrow> py" where
  "capacity_use_to_dict u = obj
     [(''open_tournaments'', PInt (cu_open_tournaments u)), (''round_entrants'', PInt (cu_round_entrants u)),
      (''field_entrants'', PInt (cu_field_entrants u)), (''plausible_qualifiers'', PInt (cu_plausible_qualifiers u)),
      (''context_cards'', PInt (cu_context_cards u)), (''receipt_bytes'', PInt (cu_receipt_bytes u)),
      (''blob_bytes'', PInt (cu_blob_bytes u)), (''api_page_size'', PInt (cu_api_page_size u))]"

definition capacity_use_from_dict :: "py \<Rightarrow> capacity_error + capacity_use" where
  "capacity_use_from_dict v =
     bind_res (capacity_fields v [''open_tournaments'', ''round_entrants'', ''field_entrants'', ''plausible_qualifiers'',
       ''context_cards'', ''receipt_bytes'', ''blob_bytes'', ''api_page_size'']) (\<lambda>_.
     mk_capacity_use (fld v ''open_tournaments'') (fld v ''round_entrants'') (fld v ''field_entrants'')
       (fld v ''plausible_qualifiers'') (fld v ''context_cards'') (fld v ''receipt_bytes'') (fld v ''blob_bytes'')
       (fld v ''api_page_size''))"

subsection \<open>The two decisions\<close>

text \<open>\<open>AdmissionDecision\<close>: its reason, and whether it admits.\<close>

record admission_decision =
  ad_admitted :: bool
  ad_reason :: string

definition use_limits :: "capacity_manifest \<Rightarrow> capacity_use \<Rightarrow> (bool \<times> string) list" where
  "use_limits m u =
     [(cm_max_open_tournaments m < cu_open_tournaments u, ''open_tournaments_capacity_exceeded''),
      (cm_max_round_entrants m < cu_round_entrants u, ''round_entrants_capacity_exceeded''),
      (cm_max_field_entrants m < cu_field_entrants u, ''field_entrants_capacity_exceeded''),
      (cm_max_plausible_qualifiers m < cu_plausible_qualifiers u, ''plausible_qualifiers_capacity_exceeded''),
      (cm_max_context_cards m < cu_context_cards u, ''context_cards_capacity_exceeded''),
      (cm_max_receipt_bytes m < cu_receipt_bytes u, ''receipt_bytes_capacity_exceeded''),
      (cm_max_blob_bytes m < cu_blob_bytes u, ''blob_bytes_capacity_exceeded''),
      (cm_max_api_page_size m < cu_api_page_size u, ''api_page_size_capacity_exceeded'')]"

text \<open>The first refusal of a list of them, or admission with the given reason.\<close>

definition decided :: "(bool \<times> string) list \<Rightarrow> string \<Rightarrow> admission_decision" where
  "decided refusals granted = (case guards refusals of
       Inl r \<Rightarrow> \<lparr>ad_admitted = False, ad_reason = r\<rparr>
     | Inr _ \<Rightarrow> \<lparr>ad_admitted = True, ad_reason = granted\<rparr>)"

definition validate_capacity_use :: "capacity_manifest \<Rightarrow> capacity_use \<Rightarrow> admission_decision" where
  "validate_capacity_use m u = decided (use_limits m u) ''operational_capacity_available''"

record queue_load =
  ql_total_active :: int
  ql_lane_active :: int
  ql_lane_leased :: int

definition mk_queue_load :: "int \<Rightarrow> int \<Rightarrow> int \<Rightarrow> capacity_error + queue_load" where
  "mk_queue_load active lane_active lane_leased =
     map_res (\<lambda>_. \<lparr>ql_total_active = active, ql_lane_active = lane_active, ql_lane_leased = lane_leased\<rparr>) (guards
       [(active < 0, CapacityError ''total_active must be a non-negative integer''),
        (lane_active < 0, CapacityError ''lane_active must be a non-negative integer''),
        (lane_leased < 0, CapacityError ''lane_leased must be a non-negative integer''),
        (lane_active < lane_leased, CapacityError ''leased work cannot exceed active work in its lane'')])"

text \<open>\<open>decide_admission\<close>; where no entry of the lane is found Python raises \<open>StopIteration\<close>.\<close>

definition decide_admission ::
    "capacity_manifest \<Rightarrow> job_lane \<Rightarrow> job_priority \<Rightarrow> queue_load \<Rightarrow> bool \<Rightarrow> bool \<Rightarrow> capacity_error + admission_decision" where
  "decide_admission m lane priority load for_claim maintenance_suspended =
     bind_res (of_option (CapacityError ''StopIteration'') (manifest_lane m lane)) (\<lambda>limit.
     Inr (decided
       [(maintenance_suspended \<and> lane = JL_MAINTENANCE, ''maintenance_suspended''),
        (for_claim \<and> lc_max_leased limit \<le> ql_lane_leased load, ''lane_lease_full''),
        (\<not> for_claim \<and> lc_max_queued limit \<le> ql_lane_active load, ''lane_queue_full''),
        (\<not> for_claim \<and> cm_max_queued_jobs m \<le> ql_total_active load, ''global_queue_full''),
        (\<not> for_claim \<and> lane \<noteq> JL_LOOKUP_RECOVERY
           \<and> cm_max_queued_jobs m - cm_reserved_recovery_jobs m \<le> ql_total_active load, ''recovery_capacity_reserved''),
        (\<not> for_claim \<and> lane \<noteq> JL_LOOKUP_RECOVERY \<and> priority \<noteq> JP_IMMINENT_FIELD \<and> priority \<noteq> JP_RECOVERY
           \<and> cm_max_queued_jobs m - cm_reserved_recovery_jobs m - cm_reserved_imminent_jobs m \<le> ql_total_active load,
         ''imminent_capacity_reserved'')]
       ''capacity_available''))"

subsection \<open>Properties\<close>

lemma decided_admits: "ad_admitted (decided gs r) \<longleftrightarrow> (\<forall>g \<in> set gs. \<not> fst g)"
  using guards_Inr [of gs "()"] by (cases "guards gs") (auto simp: decided_def)

lemma validate_capacity_use_admits:
  "ad_admitted (validate_capacity_use m u) \<longleftrightarrow>
     cu_open_tournaments u \<le> cm_max_open_tournaments m \<and> cu_round_entrants u \<le> cm_max_round_entrants m
     \<and> cu_field_entrants u \<le> cm_max_field_entrants m \<and> cu_plausible_qualifiers u \<le> cm_max_plausible_qualifiers m
     \<and> cu_context_cards u \<le> cm_max_context_cards m \<and> cu_receipt_bytes u \<le> cm_max_receipt_bytes m
     \<and> cu_blob_bytes u \<le> cm_max_blob_bytes m \<and> cu_api_page_size u \<le> cm_max_api_page_size m"
  by (simp add: validate_capacity_use_def decided_admits use_limits_def not_less)

definition lane_ok :: "lane_capacity \<Rightarrow> bool" where
  "lane_ok l \<longleftrightarrow> 0 < lc_max_leased l \<and> lc_max_leased l \<le> lc_max_queued l"

definition manifest_ok :: "capacity_manifest \<Rightarrow> bool" where
  "manifest_ok m \<longleftrightarrow> 0 < cm_max_open_tournaments m \<and> 0 < cm_max_round_entrants m \<and> 0 < cm_max_field_entrants m
     \<and> 0 < cm_max_plausible_qualifiers m \<and> 0 < cm_max_context_cards m \<and> 0 < cm_max_queued_jobs m
     \<and> 0 < cm_max_receipt_bytes m \<and> 0 < cm_max_blob_bytes m \<and> 0 < cm_max_api_page_size m
     \<and> 0 < cm_reserved_imminent_jobs m \<and> 0 < cm_reserved_recovery_jobs m \<and> 0 < cm_aging_interval_ms m
     \<and> 0 < cm_aging_increment m
     \<and> cm_reserved_imminent_jobs m + cm_reserved_recovery_jobs m < cm_max_queued_jobs m
     \<and> cm_max_field_entrants m \<le> cm_max_round_entrants m \<and> cm_max_plausible_qualifiers m \<le> cm_max_round_entrants m
     \<and> cm_max_plausible_qualifiers m \<le> cm_max_context_cards m
     \<and> distinct (map lc_lane (cm_lanes m)) \<and> set (map lc_lane (cm_lanes m)) = set job_lanes
     \<and> cm_max_queued_jobs m \<le> sum_list (map lc_max_queued (cm_lanes m))"

lemma mk_lane_capacity_Inr [result_simps]:
  "mk_lane_capacity lane q e = Inr l \<longleftrightarrow> lc_lane l = lane \<and> q = PInt (lc_max_queued l) \<and> e = PInt (lc_max_leased l) \<and> lane_ok l"
  by (cases l) (auto simp: mk_lane_capacity_def result_simps lane_ok_def)

lemma mk_capacity_manifest_Inr [result_simps]:
  "mk_capacity_manifest sv a b c d e f g h i l n j k lanes = Inr m \<longleftrightarrow>
     sv = PStr capacity_schema_version \<and> a = PInt (cm_max_open_tournaments m) \<and> b = PInt (cm_max_round_entrants m)
     \<and> c = PInt (cm_max_field_entrants m) \<and> d = PInt (cm_max_plausible_qualifiers m) \<and> e = PInt (cm_max_context_cards m)
     \<and> f = PInt (cm_max_queued_jobs m) \<and> g = PInt (cm_max_receipt_bytes m) \<and> h = PInt (cm_max_blob_bytes m)
     \<and> i = PInt (cm_max_api_page_size m) \<and> l = PInt (cm_reserved_imminent_jobs m) \<and> n = PInt (cm_reserved_recovery_jobs m)
     \<and> j = PInt (cm_aging_interval_ms m) \<and> k = PInt (cm_aging_increment m) \<and> lanes = cm_lanes m \<and> manifest_ok m"
  by (cases m) (auto simp: mk_capacity_manifest_def result_simps Let_def manifest_relations_def manifest_ok_def
      simp del: guards.simps)

lemma lane_from_to_dict: "lane_capacity_from_dict (lane_capacity_to_dict l) = Inr l' \<longleftrightarrow> l' = l \<and> lane_ok l"
  by (cases l; cases l') (auto simp: lane_capacity_from_dict_def lane_capacity_to_dict_def result_simps lane_ok_def)

lemma lanes_from_to_dict:
  "map_all lane_capacity_from_dict (map lane_capacity_to_dict ls) = Inr ls' \<longleftrightarrow> ls' = ls \<and> list_all lane_ok ls"
  by (induction ls arbitrary: ls') (auto simp: result_simps lane_from_to_dict)

lemma manifest_from_to_dict:
  "capacity_manifest_from_dict (capacity_manifest_to_dict m) = Inr m' \<longleftrightarrow>
     m' = m \<and> manifest_ok m \<and> list_all lane_ok (cm_lanes m)"
  by (cases m; cases m') (auto simp: capacity_manifest_from_dict_def capacity_manifest_to_dict_def result_simps lanes_from_to_dict)

lemma use_from_to_dict:
  "capacity_use_from_dict (capacity_use_to_dict u) = Inr u' \<longleftrightarrow>
     u' = u \<and> (\<forall>n \<in> {cu_open_tournaments u, cu_round_entrants u, cu_field_entrants u, cu_plausible_qualifiers u,
       cu_context_cards u, cu_receipt_bytes u, cu_blob_bytes u, cu_api_page_size u}. 0 \<le> n)"
  by (cases u; cases u') (auto simp: capacity_use_from_dict_def capacity_use_to_dict_def mk_capacity_use_def result_simps)

lemma manifest_lane_Some: "manifest_ok m \<Longrightarrow> \<exists>l. manifest_lane m lane = Some l \<and> l \<in> set (cm_lanes m) \<and> lc_lane l = lane"
proof -
  assume "manifest_ok m"
  then have "lane \<in> set (map lc_lane (cm_lanes m))" using job_lanes_complete by (simp add: manifest_ok_def)
  then obtain l where "l \<in> set (cm_lanes m)" "lc_lane l = lane" by auto
  then have "find (\<lambda>l. lc_lane l = lane) (cm_lanes m) \<noteq> None" by (auto simp: find_None_iff)
  then obtain l' where l': "find (\<lambda>l. lc_lane l = lane) (cm_lanes m) = Some l'" by blast
  then have "l' \<in> set (cm_lanes m)" "lc_lane l' = lane" by (auto simp: find_Some_iff)
  then show ?thesis using l' by (simp add: manifest_lane_def)
qed

text \<open>How many jobs may be active before another one of a lane and a priority is refused.\<close>

definition queue_ceiling :: "capacity_manifest \<Rightarrow> job_lane \<Rightarrow> job_priority \<Rightarrow> int" where
  "queue_ceiling m lane p = cm_max_queued_jobs m
     - (if lane = JL_LOOKUP_RECOVERY then 0 else cm_reserved_recovery_jobs m)
     - (if lane = JL_LOOKUP_RECOVERY \<or> p = JP_IMMINENT_FIELD \<or> p = JP_RECOVERY then 0 else cm_reserved_imminent_jobs m)"

lemma enqueue_admission:
  assumes "manifest_ok m" "manifest_lane m lane = Some l"
  shows "\<exists>d. decide_admission m lane p load False s = Inr d \<and> (ad_admitted d \<longleftrightarrow>
     \<not> (s \<and> lane = JL_MAINTENANCE) \<and> ql_lane_active load < lc_max_queued l \<and> ql_total_active load < queue_ceiling m lane p)"
  using assms by (auto simp: decide_admission_def decided_admits queue_ceiling_def manifest_ok_def not_le)

lemma claim_admission:
  assumes "manifest_lane m lane = Some l"
  shows "\<exists>d. decide_admission m lane p load True s = Inr d \<and> (ad_admitted d \<longleftrightarrow>
     \<not> (s \<and> lane = JL_MAINTENANCE) \<and> ql_lane_leased load < lc_max_leased l)"
  using assms by (auto simp: decide_admission_def decided_admits not_le)

text \<open>The capacity manifest is recovered from its dictionary form exactly when it satisfies every
  check of its classes: the manifest's own and those of each lane.\<close>

theorem capacity_manifest_roundtrip:
  "capacity_manifest_from_dict (capacity_manifest_to_dict m) = Inr m' \<longleftrightarrow>
     m' = m \<and> manifest_ok m \<and> list_all lane_ok (cm_lanes m)"
  by (rule manifest_from_to_dict)

end
