(* ===== verification/Manifest.thy ===== *)
theory Manifest
  imports Commands
begin

section \<open>Signed manifests (infrastructure/integrity.py)\<close>

text \<open>
  A signed manifest is a canonical body that names its kind, its key and its payload, with a
  digest and a signature. The signature scheme (the third-party \<open>cryptography\<close> package, base64 and
  the key providers around it) is a parameter: \<open>signer\<close> holds the key and signs bytes into the
  stored base64 text, \<open>trust\<close> answers for the trust store. What the code relies on, that the
  trust store accepts what the key signed, is the predicate \<open>honours\<close>.
\<close>

datatype integrity_error =
    IntegrityError string
  | IntegrityContract v3_error

record signer =
  sg_key_id :: string
  sg_sign :: "bytes \<Rightarrow> string"

record trust =
  tr_encoded :: "string \<Rightarrow> bool" \<comment> \<open>base64 of a nonempty signature\<close>
  tr_known :: "string \<Rightarrow> bool" \<comment> \<open>the key identities of the trust store\<close>
  tr_verifies :: "string \<Rightarrow> bytes \<Rightarrow> string \<Rightarrow> bool"

definition job_token_rest :: "char \<Rightarrow> bool" where
  "job_token_rest c \<longleftrightarrow> is_lower c \<or> is_digit c \<or> c \<in> set ''_.:-''"

text \<open>\<open>_TOKEN\<close> of \<open>integrity.py\<close>, \<open>job_ports.py\<close> and \<open>jobs.py\<close>.\<close>

definition machine_token_ok :: "string \<Rightarrow> bool" where
  "machine_token_ok s = head_tail_pattern is_lower job_token_rest 127 s"

record signed_manifest =
  sm_kind :: string
  sm_body_json :: string
  sm_body_digest :: string
  sm_key_id :: string
  sm_signature :: string

text \<open>\<open>SignedManifest.__post_init__\<close>.\<close>

definition mk_signed_manifest ::
    "trust \<Rightarrow> string \<Rightarrow> string \<Rightarrow> string \<Rightarrow> string \<Rightarrow> string \<Rightarrow> integrity_error + signed_manifest" where
  "mk_signed_manifest tr kind body dg key sig =
     bind_res (guards
       [(\<not> machine_token_ok kind, IntegrityError ''manifest kind must be a bounded opaque token''),
        (\<not> machine_token_ok key, IntegrityError ''manifest key id must be a bounded opaque token''),
        (\<not> is_digest dg, IntegrityError ''manifest body digest must be a lower-case SHA-256 digest'')]) (\<lambda>_.
     bind_res (of_option (IntegrityError ''signed manifest body is not canonical JSON'') (json_loads body)) (\<lambda>v.
     bind_res (map_err (\<lambda>_. IntegrityError ''signed manifest body is not canonical JSON'') (canonical_text v)) (\<lambda>t.
     bind_res (map_err IntegrityContract (canonical_digest v)) (\<lambda>own.
     map_res (\<lambda>_. \<lparr>sm_kind = kind, sm_body_json = body, sm_body_digest = dg, sm_key_id = key, sm_signature = sig\<rparr>) (guards
       [(t \<noteq> body \<or> own \<noteq> dg, IntegrityError ''signed manifest body digest or encoding differs''),
        (\<not> tr_encoded tr sig, IntegrityError ''manifest signature must be canonical base64 DER'')])))))"

definition signed_manifest_to_dict :: "signed_manifest \<Rightarrow> py" where
  "signed_manifest_to_dict m = obj
     [(''schema_version'', PStr ''strathmark-v3-signed-manifest-v1''), (''kind'', PStr (sm_kind m)),
      (''body_json'', PStr (sm_body_json m)), (''body_digest'', PStr (sm_body_digest m)), (''key_id'', PStr (sm_key_id m)),
      (''signature_der_b64'', PStr (sm_signature m))]"

text \<open>The fields are strings where \<open>__post_init__\<close> looks at them, or it raises.\<close>

definition signed_manifest_from_dict :: "trust \<Rightarrow> py \<Rightarrow> integrity_error + signed_manifest" where
  "signed_manifest_from_dict tr v =
     bind_res (guards [(\<not> fields_are v [''schema_version'', ''kind'', ''body_json'', ''body_digest'', ''key_id'', ''signature_der_b64''],
       IntegrityError ''integrity object has unknown or missing fields'')]) (\<lambda>_.
     case (fld v ''kind'', fld v ''body_json'', fld v ''body_digest'', fld v ''key_id'', fld v ''signature_der_b64'') of
       (PStr kind, PStr body, PStr dg, PStr key, PStr sig) \<Rightarrow>
         bind_res (mk_signed_manifest tr kind body dg key sig) (\<lambda>m.
         map_res (\<lambda>_. m) (guards [(fld v ''schema_version'' \<noteq> PStr ''strathmark-v3-signed-manifest-v1'',
           IntegrityError ''unsupported signed manifest version'')]))
     | _ \<Rightarrow> Inl (IntegrityError ''signed manifest fields are invalid''))"

definition manifest_body :: "string \<Rightarrow> string \<Rightarrow> string \<Rightarrow> py \<Rightarrow> py" where
  "manifest_body kind key created payload = obj
     [(''schema_version'', PStr ''strathmark-v3-integrity-body-v1''), (''kind'', PStr kind),
      (''algorithm'', PStr ''ecdsa-p256-sha256''), (''key_id'', PStr key), (''created_at'', PStr created), (''payload'', payload)]"

definition sign_manifest :: "signer \<Rightarrow> trust \<Rightarrow> string \<Rightarrow> py \<Rightarrow> string \<Rightarrow> integrity_error + signed_manifest" where
  "sign_manifest sg tr kind payload created =
     bind_res (guards [(\<not> machine_token_ok kind, IntegrityError ''manifest kind must be a bounded opaque token''),
       (\<not> is_mapping payload, IntegrityError ''manifest payload must be a mapping'')]) (\<lambda>_.
     bind_res (map_err IntegrityContract (require_utc_milliseconds (PStr created))) (\<lambda>t.
     let body = manifest_body kind (sg_key_id sg) t payload in
     bind_res (map_err IntegrityContract (canonical_bytes body)) (\<lambda>encoded.
     bind_res (map_err IntegrityContract (canonical_digest body)) (\<lambda>dg.
     mk_signed_manifest tr kind (utf8_decode encoded) dg (sg_key_id sg) (sg_sign sg encoded)))))"

definition verify_manifest :: "trust \<Rightarrow> signed_manifest \<Rightarrow> integrity_error + py" where
  "verify_manifest tr m =
     bind_res (of_option (IntegrityError ''signed manifest body must be an object'')
       (case json_loads (sm_body_json m) of Some v \<Rightarrow> if is_mapping v then Some v else None | None \<Rightarrow> None)) (\<lambda>body.
     bind_res (guards
       [(fld body ''schema_version'' \<noteq> PStr ''strathmark-v3-integrity-body-v1'' \<or> fld body ''kind'' \<noteq> PStr (sm_kind m)
           \<or> fld body ''algorithm'' \<noteq> PStr ''ecdsa-p256-sha256'' \<or> fld body ''key_id'' \<noteq> PStr (sm_key_id m),
         IntegrityError ''signed manifest body binding differs''),
        (\<not> tr_known tr (sm_key_id m), IntegrityError ''manifest signer is not trusted''),
        (\<not> tr_verifies tr (sm_key_id m) (utf8 (sm_body_json m)) (sm_signature m),
         IntegrityError ''ECDSA P-256 manifest signature is invalid''),
        (\<not> is_mapping (fld body ''payload''), IntegrityError ''signed manifest payload must be an object'')]) (\<lambda>_.
     Inr (fld body ''payload'')))"

text \<open>Equality of two dictionaries read or written as JSON: their contents, whatever the key order.\<close>

definition same_dict :: "py \<Rightarrow> py \<Rightarrow> bool" where
  "same_dict a b \<longleftrightarrow> rl a = rl b"

text \<open>The trust store accepts what the key signs.\<close>

definition honours :: "trust \<Rightarrow> signer \<Rightarrow> bool" where
  "honours tr sg \<longleftrightarrow> machine_token_ok (sg_key_id sg) \<and> tr_known tr (sg_key_id sg)
     \<and> (\<forall>b. tr_encoded tr (sg_sign sg b) \<and> tr_verifies tr (sg_key_id sg) b (sg_sign sg b))"

subsection \<open>What is signed is what is verified\<close>

lemma body_plain: "plain_ok payload \<Longrightarrow> plain_ok (manifest_body kind key t payload)"
  by (auto simp: manifest_body_def)

lemma body_fields:
  assumes "plain_ok payload"
  shows "fld (rl (manifest_body kind key t payload)) ''schema_version'' = PStr ''strathmark-v3-integrity-body-v1''"
    "fld (rl (manifest_body kind key t payload)) ''kind'' = PStr kind"
    "fld (rl (manifest_body kind key t payload)) ''algorithm'' = PStr ''ecdsa-p256-sha256''"
    "fld (rl (manifest_body kind key t payload)) ''key_id'' = PStr key"
    "fld (rl (manifest_body kind key t payload)) ''payload'' = rl payload"
  unfolding manifest_body_def using body_plain [OF assms, unfolded manifest_body_def]
  by (subst rl_fld, simp, simp, simp)+

lemma rl_mapping: "plain_ok v \<Longrightarrow> is_mapping v \<Longrightarrow> is_mapping (rl v)"
  by (cases v) (auto simp: is_mapping_def rl_def plain_ok_def split: option.splits)

lemma sign_manifest_Inr:
  "sign_manifest sg tr kind payload t = Inr m \<longleftrightarrow>
     machine_token_ok kind \<and> is_mapping payload \<and> utc_ok t
     \<and> (\<exists>b dg. canonical_bytes (manifest_body kind (sg_key_id sg) t payload) = Inr b
        \<and> canonical_digest (manifest_body kind (sg_key_id sg) t payload) = Inr dg
        \<and> mk_signed_manifest tr kind (utf8_decode b) dg (sg_key_id sg) (sg_sign sg b) = Inr m)"
  by (auto simp: sign_manifest_def bind_res_Inr map_err_Inr require_utc_Inr Let_def)

lemma mk_signed_manifest_Inr:
  "mk_signed_manifest tr kind body dg key sig = Inr m \<longleftrightarrow>
     machine_token_ok kind \<and> machine_token_ok key \<and> is_digest dg \<and> tr_encoded tr sig
     \<and> (\<exists>v. json_loads body = Some v \<and> canonical_text v = Inr body \<and> canonical_digest v = Inr dg)
     \<and> m = \<lparr>sm_kind = kind, sm_body_json = body, sm_body_digest = dg, sm_key_id = key, sm_signature = sig\<rparr>"
  by (auto simp: mk_signed_manifest_def result_simps)

lemma signed_verifies:
  assumes "sign_manifest sg tr kind payload t = Inr m" "honours tr sg" "plain_ok payload"
  shows "verify_manifest tr m = Inr (rl payload)"
proof -
  let ?body = "manifest_body kind (sg_key_id sg) t payload"
  obtain b dg where b: "canonical_bytes ?body = Inr b" and mk: "mk_signed_manifest tr kind (utf8_decode b) dg (sg_key_id sg) (sg_sign sg b) = Inr m"
    and mp: "is_mapping payload"
    using assms(1) by (auto simp: sign_manifest_Inr)
  have ct: "canonical_text ?body = Inr (utf8_decode b)" using b by (simp add: canonical_text_def)
  then have u: "utf8 (utf8_decode b) = b" using b by (simp add: canonical_text_bytes)
  have jl: "json_loads (utf8_decode b) = Some (rl ?body)"
    using canonical_text_reload [OF ct] reloaded_plain [OF ct body_plain [OF assms(3)]] by simp
  have m: "m = \<lparr>sm_kind = kind, sm_body_json = utf8_decode b, sm_body_digest = dg, sm_key_id = sg_key_id sg, sm_signature = sg_sign sg b\<rparr>"
    using mk by (simp add: mk_signed_manifest_Inr)
  have "is_mapping (rl ?body)"
    by (rule rl_mapping [OF body_plain [OF assms(3)]]) (simp add: manifest_body_def obj_def is_mapping_def)
  then show ?thesis using assms(2) rl_mapping [OF assms(3) mp]
    by (simp add: verify_manifest_def m jl body_fields [OF assms(3)] u honours_def)
qed

text \<open>Signing works for every mapping whose body has canonical bytes.\<close>

lemma sign_manifest_exists:
  assumes "honours tr sg" "machine_token_ok kind" "is_mapping payload" "utc_ok t"
    "canonical_bytes (manifest_body kind (sg_key_id sg) t payload) = Inr b"
  shows "\<exists>m. sign_manifest sg tr kind payload t = Inr m"
proof -
  let ?body = "manifest_body kind (sg_key_id sg) t payload"
  have ct: "canonical_text ?body = Inr (utf8_decode b)" using assms(5) by (simp add: canonical_text_def)
  obtain dg where dg: "canonical_digest ?body = Inr dg" using assms(5) by (simp add: canonical_digest_def)
  have r: "json_loads (utf8_decode b) = Some (reloaded ?body)" "canonical_text (reloaded ?body) = Inr (utf8_decode b)"
    using canonical_text_reload [OF ct] by auto
  then have "canonical_bytes (reloaded ?body) = canonical_bytes ?body" using ct by (simp add: canonical_text_bytes)
  then have "canonical_digest (reloaded ?body) = Inr dg" using dg by (simp add: canonical_digest_def)
  then have "\<exists>m. mk_signed_manifest tr kind (utf8_decode b) dg (sg_key_id sg) (sg_sign sg b) = Inr m"
    using assms(1,2) r canonical_digest_is_digest [OF dg] by (auto simp: mk_signed_manifest_Inr honours_def)
  then show ?thesis using assms dg by (auto simp: sign_manifest_Inr)
qed

lemma manifest_from_dict_text:
  assumes "mk_signed_manifest tr kind body dg key sig = Inr m" "canonical_text (signed_manifest_to_dict m) = Inr t"
  shows "\<exists>v. json_loads t = Some v \<and> signed_manifest_from_dict tr v = Inr m"
proof -
  have pl: "plain_ok (signed_manifest_to_dict m)" by (auto simp: signed_manifest_to_dict_def)
  have jl: "json_loads t = Some (rl (signed_manifest_to_dict m))"
    using canonical_text_reload [OF assms(2)] reloaded_plain [OF assms(2) pl] by simp
  have f: "fld (rl (signed_manifest_to_dict m)) k = (case map_of
     [(''schema_version'', PStr ''strathmark-v3-signed-manifest-v1''), (''kind'', PStr (sm_kind m)),
      (''body_json'', PStr (sm_body_json m)), (''body_digest'', PStr (sm_body_digest m)), (''key_id'', PStr (sm_key_id m)),
      (''signature_der_b64'', PStr (sm_signature m))] k of Some x \<Rightarrow> rl x | None \<Rightarrow> PNone)" for k
    unfolding signed_manifest_to_dict_def using pl [unfolded signed_manifest_to_dict_def] by (subst rl_fld) simp_all
  have "signed_manifest_from_dict tr (rl (signed_manifest_to_dict m)) = Inr m"
    unfolding signed_manifest_from_dict_def f using assms(1) pl
    by (simp add: signed_manifest_to_dict_def mk_signed_manifest_Inr bind_res_Inr map_res_Inr)
  then show ?thesis using jl by blast
qed

end
