(* ===== verification/Calendar.thy ===== *)
theory Calendar
  imports Evidence
begin

section \<open>Instants: canonical UTC strings and their milliseconds\<close>

text \<open>
  The code keeps every instant as one canonical string (\<open>YYYY-MM-DDTHH:MM:SS.mmmZ\<close>), compares
  instants as strings, in Python and in SQL, and goes through \<open>datetime\<close> only to add a duration.
  This theory holds the proleptic Gregorian calendar of \<open>datetime\<close>: the milliseconds since 1970
  of a string, the string of a number of milliseconds, and the addition that overflows after the
  year 9999. The lemmas show that the order of the strings is the order of the instants and that
  the two directions are inverse, so leases and deadlines may be reasoned about as numbers.
  \<open>strftime("%Y")\<close> pads to four digits here, as it does from the year 1000 on.
\<close>

subsection \<open>Ordinals\<close>

definition days_before_year :: "nat \<Rightarrow> nat" where
  "days_before_year y = (let p = y - 1 in p * 365 + p div 4 - p div 100 + p div 400)"

definition days_before_month :: "nat \<Rightarrow> nat \<Rightarrow> nat" where
  "days_before_month y m = sum_list (map (days_in_month y) [1..<m])"

definition ordinal :: "nat \<Rightarrow> nat \<Rightarrow> nat \<Rightarrow> nat" where
  "ordinal y m d = days_before_year y + days_before_month y m + d"

definition date_ok :: "nat \<Rightarrow> nat \<Rightarrow> nat \<Rightarrow> bool" where
  "date_ok y m d \<longleftrightarrow> 1 \<le> y \<and> y \<le> 9999 \<and> 1 \<le> m \<and> m \<le> 12 \<and> 1 \<le> d \<and> d \<le> days_in_month y m"

text \<open>The year that holds a day: four centuries are 146097 days, which leaves two candidates.\<close>

definition year_of_ordinal :: "nat \<Rightarrow> nat" where
  "year_of_ordinal n = (let y = (n - 1) * 400 div 146097 + 1 in
     if n \<le> days_before_year y then y - 1 else if days_before_year (y + 1) < n then y + 1 else y)"

definition month_of :: "nat \<Rightarrow> nat \<Rightarrow> nat" where
  "month_of y k = (case find (\<lambda>m. k \<le> days_before_month y (m + 1)) [1..<13] of Some m \<Rightarrow> m | None \<Rightarrow> 12)"

definition date_of_ordinal :: "nat \<Rightarrow> nat \<times> nat \<times> nat" where
  "date_of_ordinal n = (let y = year_of_ordinal n; k = n - days_before_year y; m = month_of y k in
     (y, m, k - days_before_month y m))"

subsection \<open>Strings\<close>

text \<open>\<open>f"{n:0kd}"\<close> for a number of at most \<open>k\<close> digits.\<close>

fun padded :: "nat \<Rightarrow> nat \<Rightarrow> string" where
  "padded 0 n = []"
| "padded (Suc k) n = padded k (n div 10) @ [digit_char (n mod 10)]"

definition utc_string :: "nat \<Rightarrow> nat \<Rightarrow> nat \<Rightarrow> nat \<Rightarrow> string" where
  "utc_string y m d t = padded 4 y @ ''-'' @ padded 2 m @ ''-'' @ padded 2 d @ ''T''
     @ padded 2 (t div 3600000) @ '':'' @ padded 2 (t div 60000 mod 60) @ '':'' @ padded 2 (t div 1000 mod 60)
     @ ''.'' @ padded 3 (t mod 1000) @ ''Z''"

definition utc_ordinal :: "string \<Rightarrow> nat" where
  "utc_ordinal s = ordinal (number_at 0 4 s) (number_at 5 2 s) (number_at 8 2 s)"

definition day_millis :: "string \<Rightarrow> nat" where
  "day_millis s = ((number_at 11 2 s * 60 + number_at 14 2 s) * 60 + number_at 17 2 s) * 1000 + number_at 20 3 s"

definition utc_millis :: "string \<Rightarrow> int" where
  "utc_millis s = (int (utc_ordinal s) - 719163) * 86400000 + int (day_millis s)"

definition utc_of_millis :: "int \<Rightarrow> string option" where
  "utc_of_millis n = (let day = n div 86400000 + 719163 in
     if day < 1 \<or> 3652059 < day then None
     else case date_of_ordinal (nat day) of (y, m, d) \<Rightarrow> Some (utc_string y m d (nat (n mod 86400000))))"

text \<open>\<open>_add_milliseconds\<close>; nothing is returned where \<open>datetime\<close> raises \<open>OverflowError\<close>.\<close>

definition add_milliseconds :: "string \<Rightarrow> int \<Rightarrow> string option" where
  "add_milliseconds s n = utc_of_millis (utc_millis s + n)"

subsection \<open>Milliseconds by way of a float\<close>

text \<open>
  \<open>_milliseconds\<close> is \<open>int(moment.timestamp() * 1000)\<close>: \<open>timestamp()\<close> divides the microseconds by
  \<open>10 ** 6\<close> into a double, and the product is rounded to a double again. \<open>double_of\<close> is the
  nearest double (ties to even) of a fraction in the normal range, as a mantissa and a binary scale.
\<close>

fun bit_count :: "nat \<Rightarrow> nat" where
  "bit_count n = (if n = 0 then 0 else 1 + bit_count (n div 2))"

declare bit_count.simps [simp del]

definition scaled :: "nat \<Rightarrow> nat \<Rightarrow> int \<Rightarrow> nat \<times> nat" where
  "scaled p q s = (if 0 \<le> s then (p * 2 ^ nat s, q) else (p, q * 2 ^ nat (- s)))"

definition double_of :: "nat \<Rightarrow> nat \<Rightarrow> nat \<times> int" where
  "double_of p q = (if p = 0 then (0, 0) else
     let s0 = 53 + int (bit_count q) - int (bit_count p);
         s = (case scaled p q s0 of (a, b) \<Rightarrow> if 2 ^ 53 * b \<le> a then s0 - 1 else s0)
     in (case scaled p q s of (a, b) \<Rightarrow> round_half_even_div a b, s))"

definition float_millis :: "string \<Rightarrow> int" where
  "float_millis t = (let us = utc_millis t * 1000;
       (m, s) = double_of (nat \<bar>us\<bar>) 1000000;
       (a, b) = (if 0 \<le> s then (m * 1000, 2 ^ nat s) else (m * 1000 * 2 ^ nat (- s), 1));
       (m', s') = double_of a b;
       r = (if 0 \<le> s' then int m' div 2 ^ nat s' else int m' * 2 ^ nat (- s'))
     in if us < 0 then - r else r)"

subsection \<open>Ordinals determine dates\<close>

lemma days_before_year_sum:
  "days_before_year (Suc p) + p div 100 = p * 365 + p div 4 + p div 400"
proof -
  have "p div 100 \<le> p div 4" by (rule div_le_mono2) simp_all
  then show ?thesis by (simp add: days_before_year_def Let_def)
qed

lemma leap_rule:
  "Suc p div 4 + Suc p div 400 + p div 100 + (if leap_year (Suc p) then 0 else 1)
     = p div 4 + p div 400 + Suc p div 100 + 1"
proof -
  have "Suc p mod 400 = 0 \<Longrightarrow> Suc p mod 100 = 0" "Suc p mod 100 = 0 \<Longrightarrow> Suc p mod 4 = 0" by presburger+
  then show ?thesis by (simp add: leap_year_def div_Suc)
qed

lemma days_before_year_Suc:
  assumes "1 \<le> y" shows "days_before_year (y + 1) = days_before_year y + (if leap_year y then 366 else 365)"
proof -
  obtain p where y: "y = Suc p" using assms by (cases y) auto
  show ?thesis using days_before_year_sum [of p] days_before_year_sum [of "Suc p"] leap_rule [of p]
    by (simp add: y split: if_splits)
qed

lemma days_before_year_mono: "1 \<le> y \<Longrightarrow> y < z \<Longrightarrow> days_before_year y + 365 \<le> days_before_year z"
proof (induction z)
  case (Suc z)
  show ?case
  proof (cases "y = z")
    case True
    then show ?thesis using days_before_year_Suc [of y] Suc.prems by (auto split: if_splits)
  next
    case False
    then show ?thesis using Suc days_before_year_Suc [of z] by (auto split: if_splits)
  qed
qed simp

lemma days_before_month_Suc: "1 \<le> m \<Longrightarrow> days_before_month y (m + 1) = days_before_month y m + days_in_month y m"
  by (simp add: days_before_month_def)

lemma days_before_month_1 [simp]: "days_before_month y 1 = 0" "days_before_month y (Suc 0) = 0"
  by (simp_all add: days_before_month_def)

lemma days_in_month_pos: "0 < days_in_month y m" "days_in_month y m \<le> 31"
  by (simp_all add: days_in_month_def)

lemma days_before_month_mono: "1 \<le> m \<Longrightarrow> m < k \<Longrightarrow> days_before_month y m + days_in_month y m \<le> days_before_month y k"
proof (induction k)
  case (Suc k)
  show ?case
  proof (cases "m = k")
    case False
    then show ?thesis using Suc days_before_month_Suc [of k y] by auto
  qed (use Suc days_before_month_Suc [of m y] in auto)
qed simp

lemma days_of_year: "days_before_month y 13 = (if leap_year y then 366 else 365)"
proof -
  have "[1..<13] = [1, 2, 3, 4, 5, 6, 7, 8, 9, 10, 11, 12::nat]" by (simp add: upt_rec)
  then show ?thesis by (simp add: days_before_month_def days_in_month_def)
qed

lemma ordinal_in_year:
  assumes "date_ok y m d" shows "days_before_year y < ordinal y m d \<and> ordinal y m d \<le> days_before_year (y + 1)"
proof -
  have "days_before_month y m + days_in_month y m \<le> days_before_month y 13"
    using assms days_before_month_mono [of m 13 y] by (auto simp: date_ok_def)
  then show ?thesis using assms days_before_year_Suc [of y]
    by (auto simp: date_ok_def ordinal_def days_of_year)
qed

lemma ordinal_less:
  assumes "date_ok y m d" "date_ok y' m' d'" "y < y' \<or> (y = y' \<and> (m < m' \<or> (m = m' \<and> d < d')))"
  shows "ordinal y m d < ordinal y' m' d'"
proof (cases "y < y'")
  case True
  have "days_before_year (y + 1) \<le> days_before_year y'"
    using True days_before_year_mono [of "y + 1" y'] assms(1) by (cases "y + 1 = y'") (auto simp: date_ok_def)
  then show ?thesis using ordinal_in_year [OF assms(1)] ordinal_in_year [OF assms(2)] by auto
next
  case False
  then show ?thesis using assms days_before_month_mono [of m m' y]
    by (auto simp: ordinal_def date_ok_def)
qed

lemma ordinal_inj:
  assumes "date_ok y m d" "date_ok y' m' d'" "ordinal y m d = ordinal y' m' d'"
  shows "(y, m, d) = (y', m', d')"
  using assms(3) ordinal_less [OF assms(1,2)] ordinal_less [OF assms(2,1)] by (fastforce simp: not_less)

lemma days_before_year_linear:
  assumes "1 \<le> y"
  shows "400 * days_before_year y + 400 \<le> 146097 * (y - 1) + 800"
    and "146097 * (y - 1) \<le> 400 * days_before_year y + 800"
proof -
  obtain p where y: "y = Suc p" using assms by (cases y) auto
  define a b c where abc: "a = p div 4" "b = p div 100" "c = p div 400"
  have "4 * a \<le> p" "p < 4 * a + 4" "100 * b \<le> p" "p < 100 * b + 100" "400 * c \<le> p" "p < 400 * c + 400"
    using dividend_less_times_div [of 4 p] dividend_less_times_div [of 100 p] dividend_less_times_div [of 400 p]
    by (simp_all add: abc)
  moreover have "days_before_year y + b = p * 365 + a + c" using days_before_year_sum [of p] by (simp add: y abc)
  ultimately show "400 * days_before_year y + 400 \<le> 146097 * (y - 1) + 800"
    and "146097 * (y - 1) \<le> 400 * days_before_year y + 800" by (simp_all add: y)
qed

lemma year_of_ordinal_correct:
  assumes "1 \<le> y" "days_before_year y < n" "n \<le> days_before_year (y + 1)"
  shows "year_of_ordinal n = y"
proof -
  define e where "e = (n - 1) * 400 div 146097 + 1"
  have e: "146097 * (e - 1) \<le> (n - 1) * 400" "(n - 1) * 400 < 146097 * e" "1 \<le> e"
    using dividend_less_times_div [of 146097 "(n - 1) * 400"] by (simp_all add: e_def)
  have n: "400 * days_before_year y \<le> (n - 1) * 400" "(n - 1) * 400 + 400 \<le> 400 * days_before_year (y + 1)"
    using assms(2,3) by simp_all
  have lin: "400 * days_before_year (y + 1) + 400 \<le> 146097 * y + 800" "146097 * (y - 1) \<le> 400 * days_before_year y + 800"
    using days_before_year_linear [of "y + 1"] days_before_year_linear [of y] assms(1) by simp_all
  have "146097 * (e - 1) \<le> 146097 * y" using e n lin by linarith
  moreover have "146097 * (y - 1) < 146097 * e + 801" using e n lin by linarith
  ultimately have near: "e = y \<or> e = y + 1 \<or> e + 1 = y" using e(3) assms(1) by auto
  have below: "days_before_year (y - 1) < n" if "2 \<le> y"
    using days_before_year_mono [of "y - 1" y] that assms(2) by simp linarith
  have above: "n \<le> days_before_year (y + 2)"
    using days_before_year_mono [of "y + 1" "y + 2"] assms(1,3) by simp
  have "year_of_ordinal n = (if n \<le> days_before_year e then e - 1 else if days_before_year (e + 1) < n then e + 1 else e)"
    by (simp only: year_of_ordinal_def Let_def e_def)
  then show ?thesis using near
  proof (elim disjE)
    assume "e = y + 1"
    then show ?thesis using \<open>year_of_ordinal n = _\<close> assms by simp
  next
    assume e: "e + 1 = y"
    then have "\<not> n \<le> days_before_year e" using below assms(1) \<open>1 \<le> e\<close> by auto
    then show ?thesis using \<open>year_of_ordinal n = _\<close> assms e by simp
  qed (use assms in simp)
qed

lemma month_of_correct:
  assumes "1 \<le> m" "m \<le> 12" "1 \<le> d" "d \<le> days_in_month y m"
  shows "month_of y (days_before_month y m + d) = m"
proof -
  have "find (\<lambda>k. days_before_month y m + d \<le> days_before_month y (k + 1)) [1..<13] = Some m"
    unfolding find_Some_iff
  proof (intro exI [of _ "m - 1"] conjI allI impI)
    show "m - 1 < length [1..<13]" "m = [1..<13] ! (m - 1)" using assms by simp_all
    show "days_before_month y m + d \<le> days_before_month y ([1..<13] ! (m - 1) + 1)"
      using assms days_before_month_Suc [of m y] by simp
    fix j assume j: "j < m - 1"
    have "days_before_month y (j + 2) \<le> days_before_month y m"
      using days_before_month_mono [of "j + 2" m y] j by (cases "j + 2 = m") (simp_all, linarith)
    then show "\<not> days_before_month y m + d \<le> days_before_month y ([1..<13] ! j + 1)"
      using j assms by simp
  qed
  then show ?thesis by (simp add: month_of_def)
qed

lemma date_of_ordinal_ordinal: "date_ok y m d \<Longrightarrow> date_of_ordinal (ordinal y m d) = (y, m, d)"
  using ordinal_in_year [of y m d] year_of_ordinal_correct [of y "ordinal y m d"] month_of_correct [of m d y]
  by (auto simp: date_of_ordinal_def Let_def date_ok_def) (simp_all add: ordinal_def)

lemma year_found:
  assumes "0 < n" "n \<le> days_before_year (k + 1)"
  shows "\<exists>y. 1 \<le> y \<and> y \<le> k \<and> days_before_year y < n \<and> n \<le> days_before_year (y + 1)"
  using assms(2)
proof (induction k)
  case (Suc k)
  show ?case
  proof (cases "n \<le> days_before_year (k + 1)")
    case False
    then show ?thesis using Suc.prems by (intro exI [of _ "Suc k"]) auto
  qed (use Suc.IH in \<open>auto intro: le_SucI\<close>)
qed (use assms(1) in \<open>simp add: days_before_year_def\<close>)

lemma month_found:
  assumes "0 < k" "k \<le> days_before_month y (n + 1)"
  shows "\<exists>m. 1 \<le> m \<and> m \<le> n \<and> days_before_month y m < k \<and> k \<le> days_before_month y m + days_in_month y m"
  using assms(2)
proof (induction n)
  case (Suc n)
  show ?case
  proof (cases "k \<le> days_before_month y (n + 1)")
    case False
    then show ?thesis using Suc.prems days_before_month_Suc [of "Suc n" y] by (intro exI [of _ "Suc n"]) auto
  qed (use Suc.IH in \<open>auto intro: le_SucI\<close>)
qed (use assms(1) in \<open>simp add: days_before_month_def\<close>)

lemma date_of_ordinal_ok:
  assumes "1 \<le> n" "n \<le> 3652059"
  obtains y m d where "date_of_ordinal n = (y, m, d)" "date_ok y m d" "ordinal y m d = n"
proof -
  have "n \<le> days_before_year (9999 + 1)" using assms(2) by (simp add: days_before_year_def)
  then obtain y where y: "1 \<le> y" "y \<le> 9999" "days_before_year y < n" "n \<le> days_before_year (y + 1)"
    using year_found [of n 9999] assms(1) by auto
  then have "n - days_before_year y \<le> days_before_month y (12 + 1)"
    using days_before_year_Suc [of y] days_of_year [of y] by auto
  then obtain m where m: "1 \<le> m" "m \<le> 12" "days_before_month y m < n - days_before_year y"
      "n - days_before_year y \<le> days_before_month y m + days_in_month y m"
    using month_found [of "n - days_before_year y" y 12] y(3) by auto
  have "date_ok y m (n - days_before_year y - days_before_month y m)"
    "ordinal y m (n - days_before_year y - days_before_month y m) = n"
    using y m by (auto simp: date_ok_def ordinal_def)
  then show ?thesis using that date_of_ordinal_ordinal by metis
qed

subsection \<open>The order of the strings\<close>

lemma lex_prefix:
  fixes a b :: "'a::linorder list"
  assumes "length a = length b" shows "a @ u < b @ v \<longleftrightarrow> a < b \<or> (a = b \<and> u < v)"
  using assms by (induction a b rule: list_induct2) auto

lemma digits_value_from: "foldl (\<lambda>n c. 10 * n + digit_value c) k s = k * 10 ^ length s + digits_value s"
proof (induction s arbitrary: k)
  case (Cons c s)
  have "digits_value (c # s) = digit_value c * 10 ^ length s + digits_value s"
    using Cons [of "digit_value c"] by (simp add: digits_value_def)
  moreover have "foldl (\<lambda>n c. 10 * n + digit_value c) k (c # s) = (10 * k + digit_value c) * 10 ^ length s + digits_value s"
    using Cons [of "10 * k + digit_value c"] by simp
  ultimately show ?case by (simp add: add_mult_distrib)
qed (simp add: digits_value_def)

lemma digits_value_append: "digits_value (xs @ ys) = digits_value xs * 10 ^ length ys + digits_value ys"
  using digits_value_from [of "digits_value xs" ys] by (simp add: digits_value_def)

lemma digits_value_Cons: "digits_value (c # cs) = digit_value c * 10 ^ length cs + digits_value cs"
  using digits_value_append [of "[c]" cs] by (simp add: digits_value_def)

lemma digit_code: "is_digit c \<longleftrightarrow> 48 \<le> (of_char c :: nat) \<and> (of_char c :: nat) \<le> 57" "digit_value c = of_char c - 48"
  by (simp_all add: is_digit_def digit_value_def less_eq_char_def)

lemma digit_bounds:
  assumes "is_digit c" shows "digit_value c \<le> 9"
    and "is_digit d \<Longrightarrow> c < d \<longleftrightarrow> digit_value c < digit_value d"
  using assms by (auto simp: digit_code less_char_def)

lemma digits_value_bound: "list_all is_digit s \<Longrightarrow> digits_value s < 10 ^ length s"
proof (induction s)
  case (Cons c s)
  then have "digit_value c * 10 ^ length s \<le> 9 * 10 ^ length s" by (intro mult_right_mono) (simp_all add: digit_bounds)
  moreover have "digits_value s < 10 ^ length s" using Cons by simp
  ultimately have "digit_value c * 10 ^ length s + digits_value s < 10 * 10 ^ length s" by linarith
  then show ?case by (simp add: digits_value_Cons)
qed (simp add: digits_value_def)

lemma digits_order:
  assumes "length s = length t" "list_all is_digit s" "list_all is_digit t"
  shows "s < t \<longleftrightarrow> digits_value s < digits_value t"
  using assms
proof (induction s t rule: list_induct2)
  case (Cons c s d t)
  have b: "digits_value s < 10 ^ length s" "digits_value t < 10 ^ length s"
    using Cons digits_value_bound [of s] digits_value_bound [of t] by auto
  consider "c = d" | "digit_value c < digit_value d" "c < d" | "digit_value d < digit_value c" "d < c"
    using Cons.prems digit_bounds(2) [of c d] digit_bounds(2) [of d c] by fastforce
  then show ?case
  proof cases
    case 2
    have "(digit_value c + 1) * 10 ^ length s \<le> digit_value d * 10 ^ length s" using 2 by (intro mult_right_mono) auto
    then show ?thesis using 2 b Cons.hyps by (simp add: digits_value_Cons algebra_simps)
  next
    case 3
    have "(digit_value d + 1) * 10 ^ length s \<le> digit_value c * 10 ^ length s" using 3 by (intro mult_right_mono) auto
    then show ?thesis using 3 b Cons.hyps by (auto simp: digits_value_Cons algebra_simps)
  qed (use Cons in \<open>auto simp: digits_value_Cons\<close>)
qed (simp add: digits_value_def)

lemma digits_equal:
  assumes "length s = length t" "list_all is_digit s" "list_all is_digit t"
  shows "s = t \<longleftrightarrow> digits_value s = digits_value t"
  using digits_order [OF assms] digits_order [of t s] assms by (metis less_irrefl not_less_iff_gr_or_eq)

text \<open>The seven numbers of an instant, in the order the string has them.\<close>

definition utc_numbers :: "string \<Rightarrow> nat list" where
  "utc_numbers s = map (\<lambda>(i, n). number_at i n s) [(0, 4), (5, 2), (8, 2), (11, 2), (14, 2), (17, 2), (20, 3)]"

lemma utc_split:
  assumes "utc_shape s"
  obtains y m d h i e f where "s = y @ ''-'' @ m @ ''-'' @ d @ ''T'' @ h @ '':'' @ i @ '':'' @ e @ ''.'' @ f @ ''Z''"
    "length y = 4" "length m = 2" "length d = 2" "length h = 2" "length i = 2" "length e = 2" "length f = 3"
    "list_all (list_all is_digit) [y, m, d, h, i, e, f]"
proof -
  have "length s = 24" using assms by (simp add: utc_shape_def)
  then obtain a b c d e f g h i j k l m n p q r t u v w x y z where
    s: "s = [a, b, c, d, e, f, g, h, i, j, k, l, m, n, p, q, r, t, u, v, w, x, y, z]"
    by (auto simp: length_Suc_conv eval_nat_numeral)
  show ?thesis
    by (rule that [of "[a, b, c, d]" "[f, g]" "[i, j]" "[l, m]" "[p, q]" "[t, u]" "[w, x, y]"])
      (use assms in \<open>simp_all add: s utc_shape_def\<close>)
qed

lemma utc_shape_numbers:
  assumes "s = y @ ''-'' @ m @ ''-'' @ d @ ''T'' @ h @ '':'' @ i @ '':'' @ e @ ''.'' @ f @ ''Z''"
    "length y = 4" "length m = 2" "length d = 2" "length h = 2" "length i = 2" "length e = 2" "length f = 3"
  shows "utc_numbers s = map digits_value [y, m, d, h, i, e, f]"
  using assms by (simp add: utc_numbers_def number_at_def)

lemma utc_order: 
  assumes "utc_shape s" "utc_shape t" shows "s < t \<longleftrightarrow> utc_numbers s < utc_numbers t"
proof -
  obtain y m d h i e f where s: "s = y @ ''-'' @ m @ ''-'' @ d @ ''T'' @ h @ '':'' @ i @ '':'' @ e @ ''.'' @ f @ ''Z''"
    and ls: "length y = 4" "length m = 2" "length d = 2" "length h = 2" "length i = 2" "length e = 2" "length f = 3"
    and ds: "list_all (list_all is_digit) [y, m, d, h, i, e, f]"
    using utc_split [OF assms(1)] .
  obtain y' m' d' h' i' e' f' where t: "t = y' @ ''-'' @ m' @ ''-'' @ d' @ ''T'' @ h' @ '':'' @ i' @ '':'' @ e' @ ''.'' @ f' @ ''Z''"
    and lt: "length y' = 4" "length m' = 2" "length d' = 2" "length h' = 2" "length i' = 2" "length e' = 2" "length f' = 3"
    and dt: "list_all (list_all is_digit) [y', m', d', h', i', e', f']"
    using utc_split [OF assms(2)] .
  show ?thesis unfolding utc_shape_numbers [OF s ls] utc_shape_numbers [OF t lt]
    using ls lt ds dt
    by (simp add: s t lex_prefix digits_order digits_equal)
qed

lemma utc_fraction: "utc_shape s \<Longrightarrow> number_at 20 3 s \<le> 999"
proof (elim utc_split)
  fix y m d h i e f
  assume s: "s = y @ ''-'' @ m @ ''-'' @ d @ ''T'' @ h @ '':'' @ i @ '':'' @ e @ ''.'' @ f @ ''Z''"
    and l: "length y = 4" "length m = 2" "length d = 2" "length h = 2" "length i = 2" "length e = 2" "length f = 3"
    and "list_all (list_all is_digit) [y, m, d, h, i, e, f]"
  then have "digits_value f < 10 ^ 3" using digits_value_bound [of f] by simp
  then show "number_at 20 3 s \<le> 999" using utc_shape_numbers [OF s l] by (simp add: utc_numbers_def)
qed

lemma utc_ok_date: "utc_ok s \<Longrightarrow> date_ok (number_at 0 4 s) (number_at 5 2 s) (number_at 8 2 s)"
proof -
  assume ok: "utc_ok s"
  then have "utc_shape s" by (simp add: utc_ok_def)
  then obtain y m d h i e f where s: "s = y @ ''-'' @ m @ ''-'' @ d @ ''T'' @ h @ '':'' @ i @ '':'' @ e @ ''.'' @ f @ ''Z''"
    and l: "length y = 4" "length m = 2" "length d = 2" "length h = 2" "length i = 2" "length e = 2" "length f = 3"
    and dg: "list_all (list_all is_digit) [y, m, d, h, i, e, f]"
    by (rule utc_split)
  have "digits_value y < 10 ^ 4" using digits_value_bound [of y] l dg by simp
  then have "number_at 0 4 s \<le> 9999" using utc_shape_numbers [OF s l] by (simp add: utc_numbers_def)
  then show ?thesis using ok by (simp add: utc_ok_def date_ok_def)
qed

lemma day_millis_bound: "utc_ok s \<Longrightarrow> day_millis s < 86400000"
  using utc_fraction [of s] by (auto simp: utc_ok_def day_millis_def)

lemma utc_millis_less:
  assumes "utc_ok s" "utc_ok t" "s < t" shows "utc_millis s < utc_millis t"
proof -
  have "utc_numbers s < utc_numbers t" using assms utc_order [of s t] by (simp add: utc_ok_def)
  then have lex: "number_at 0 4 s < number_at 0 4 t \<or> number_at 0 4 s = number_at 0 4 t \<and>
      (number_at 5 2 s < number_at 5 2 t \<or> number_at 5 2 s = number_at 5 2 t \<and>
        (number_at 8 2 s < number_at 8 2 t \<or> number_at 8 2 s = number_at 8 2 t \<and>
          (number_at 11 2 s < number_at 11 2 t \<or> number_at 11 2 s = number_at 11 2 t \<and>
            (number_at 14 2 s < number_at 14 2 t \<or> number_at 14 2 s = number_at 14 2 t \<and>
              (number_at 17 2 s < number_at 17 2 t \<or> number_at 17 2 s = number_at 17 2 t \<and>
                number_at 20 3 s < number_at 20 3 t)))))"
    by (simp add: utc_numbers_def)
  show ?thesis
  proof (cases "utc_ordinal s < utc_ordinal t")
    case True
    then show ?thesis using day_millis_bound [OF assms(1)] by (simp add: utc_millis_def)
  next
    case False
    then have same: "number_at 0 4 s = number_at 0 4 t" "number_at 5 2 s = number_at 5 2 t" "number_at 8 2 s = number_at 8 2 t"
      using lex ordinal_less [OF utc_ok_date [OF assms(1)] utc_ok_date [OF assms(2)]] by (auto simp: utc_ordinal_def)
    have "day_millis s < day_millis t"
      using lex same assms(1,2) utc_fraction [of s] utc_fraction [of t] by (auto simp: day_millis_def utc_ok_def)
    then show ?thesis using same by (simp add: utc_millis_def utc_ordinal_def)
  qed
qed

lemma utc_millis_order:
  assumes "utc_ok s" "utc_ok t"
  shows "s < t \<longleftrightarrow> utc_millis s < utc_millis t" "s \<le> t \<longleftrightarrow> utc_millis s \<le> utc_millis t"
    "s = t \<longleftrightarrow> utc_millis s = utc_millis t"
  using utc_millis_less [OF assms] utc_millis_less [OF assms(2,1)] by (metis not_less_iff_gr_or_eq le_less)+

subsection \<open>Rendering\<close>

lemma padded_length [simp]: "length (padded k n) = k"
  by (induction k arbitrary: n) auto

lemma padded_digits: "list_all is_digit (padded k n)"
  by (induction k arbitrary: n) (auto simp: digit_char_facts)

lemma padded_value: "n < 10 ^ k \<Longrightarrow> digits_value (padded k n) = n"
proof (induction k arbitrary: n)
  case (Suc k)
  have "n div 10 < 10 ^ k" using Suc.prems by (simp add: less_mult_imp_div_less algebra_simps)
  then show ?case using Suc.IH [of "n div 10"] digit_char_facts(2) [of "n mod 10"]
    by (simp add: digits_value_append digits_value_Cons) (simp add: digits_value_def)
qed (simp add: digits_value_def)

lemma utc_join:
  assumes "length y = 4" "length m = 2" "length d = 2" "length h = 2" "length i = 2" "length e = 2" "length f = 3"
    "list_all (list_all is_digit) [y, m, d, h, i, e, f]"
  shows "utc_shape (y @ ''-'' @ m @ ''-'' @ d @ ''T'' @ h @ '':'' @ i @ '':'' @ e @ ''.'' @ f @ ''Z'')"
proof -
  obtain y1 y2 y3 y4 where y: "y = [y1, y2, y3, y4]" using assms(1) by (auto simp: length_Suc_conv eval_nat_numeral)
  obtain m1 m2 where m: "m = [m1, m2]" using assms(2) by (auto simp: length_Suc_conv eval_nat_numeral)
  obtain d1 d2 where d: "d = [d1, d2]" using assms(3) by (auto simp: length_Suc_conv eval_nat_numeral)
  obtain h1 h2 where h: "h = [h1, h2]" using assms(4) by (auto simp: length_Suc_conv eval_nat_numeral)
  obtain i1 i2 where i: "i = [i1, i2]" using assms(5) by (auto simp: length_Suc_conv eval_nat_numeral)
  obtain e1 e2 where e: "e = [e1, e2]" using assms(6) by (auto simp: length_Suc_conv eval_nat_numeral)
  obtain f1 f2 f3 where f: "f = [f1, f2, f3]" using assms(7) by (auto simp: length_Suc_conv eval_nat_numeral)
  show ?thesis using assms(8) by (simp add: utc_shape_def y m d h i e f)
qed

lemma utc_string_shape: "utc_shape (utc_string y m d t)"
  unfolding utc_string_def by (intro utc_join) (simp_all add: padded_digits del: padded.simps)

lemma utc_string_numbers:
  assumes "y < 10000" "m < 100" "d < 100" "t < 86400000"
  shows "utc_numbers (utc_string y m d t) = [y, m, d, t div 3600000, t div 60000 mod 60, t div 1000 mod 60, t mod 1000]"
proof -
  have "t div 3600000 < 100" using assms(4) by (intro less_mult_imp_div_less) simp
  moreover have "t div 60000 mod 60 < 100" "t div 1000 mod 60 < 100"
    using mod_less_divisor [of 60 "t div 60000"] mod_less_divisor [of 60 "t div 1000"] by linarith+
  ultimately show ?thesis using assms
    by (subst utc_shape_numbers [OF utc_string_def]) (simp_all add: padded_value)
qed

lemma day_split:
  "((t div 3600000 * 60 + t div 60000 mod 60) * 60 + t div 1000 mod 60) * 1000 + t mod 1000 = (t::nat)"
proof -
  have "t div 60000 = t div 1000 div 60" "t div 3600000 = t div 1000 div 60 div 60" by (simp_all add: div_mult2_eq [symmetric])
  then show ?thesis using div_mult_mod_eq [of t 1000] div_mult_mod_eq [of "t div 1000" 60]
      div_mult_mod_eq [of "t div 1000 div 60" 60] by simp
qed

lemma utc_of_millis_Some:
  assumes "utc_of_millis n = Some s" shows "utc_ok s" "utc_millis s = n"
proof -
  define day where "day = n div 86400000 + 719163"
  define t where "t = nat (n mod 86400000)"
  have day: "1 \<le> day" "day \<le> 3652059" using assms by (auto simp: utc_of_millis_def day_def Let_def split: if_splits)
  then obtain y m d where dt: "date_of_ordinal (nat day) = (y, m, d)" "date_ok y m d" "ordinal y m d = nat day"
    by (metis date_of_ordinal_ok nat_le_iff nat_mono numeral_One of_nat_numeral nat_numeral)
  have t: "t < 86400000" by (simp add: t_def nat_less_iff)
  have s: "s = utc_string y m d t"
    using assms day dt(1) by (simp add: utc_of_millis_def day_def [symmetric] t_def Let_def)
  have md: "d \<le> 31" "m \<le> 12" "y \<le> 9999" using dt(2) days_in_month_pos(2) [of y m] by (auto simp: date_ok_def)
  have nums: "utc_numbers s = [y, m, d, t div 3600000, t div 60000 mod 60, t div 1000 mod 60, t mod 1000]"
    unfolding s using md t by (intro utc_string_numbers) auto
  have hour: "t div 3600000 \<le> 23" using t by (simp add: less_mult_imp_div_less [of t 24 3600000, simplified] less_Suc_eq_le)
  show "utc_ok s" using nums dt(2) hour mod_less_divisor [of 60 "t div 60000"] mod_less_divisor [of 60 "t div 1000"]
      utc_string_shape [of y m d t]
    by (auto simp: utc_ok_def utc_numbers_def date_ok_def s)
  have "day_millis s = t" using nums day_split [of t] by (simp add: day_millis_def utc_numbers_def)
  moreover have "int (utc_ordinal s) = day" using nums dt(3) day by (simp add: utc_ordinal_def utc_numbers_def)
  ultimately show "utc_millis s = n" by (simp add: utc_millis_def day_def t_def)
qed

lemma utc_of_millis_utc:
  assumes "utc_ok s" shows "utc_of_millis (utc_millis s) = Some s"
proof -
  have d: "date_ok (number_at 0 4 s) (number_at 5 2 s) (number_at 8 2 s)" by (rule utc_ok_date [OF assms])
  have o1: "1 \<le> utc_ordinal s" using d by (simp add: utc_ordinal_def ordinal_def date_ok_def)
  have "days_before_year (number_at 0 4 s + 1) \<le> days_before_year 10000"
    using d days_before_year_mono [of "number_at 0 4 s + 1" 10000]
    by (cases "number_at 0 4 s + 1 = 10000") (auto simp: date_ok_def)
  then have o2: "utc_ordinal s \<le> 3652059" using ordinal_in_year [OF d]
    by (simp add: utc_ordinal_def days_before_year_def)
  have day: "utc_millis s div 86400000 + 719163 = int (utc_ordinal s)"
    using day_millis_bound [OF assms] by (simp add: utc_millis_def)
  have "\<exists>s'. utc_of_millis (utc_millis s) = Some s'"
    using o1 o2 by (auto simp: utc_of_millis_def day split: prod.splits)
  then obtain s' where s': "utc_of_millis (utc_millis s) = Some s'" by blast
  moreover have "s = s'" using utc_of_millis_Some [OF s'] utc_millis_order(3) [OF assms] by metis
  ultimately show ?thesis by simp
qed

lemma add_milliseconds_Some:
  assumes "add_milliseconds s n = Some t" shows "utc_ok t" "utc_millis t = utc_millis s + n"
  using assms utc_of_millis_Some by (auto simp: add_milliseconds_def)

text \<open>An addition is evaluated by checking its result.\<close>

lemma add_millisecondsI: "utc_ok t \<Longrightarrow> utc_millis t = utc_millis s + n \<Longrightarrow> add_milliseconds s n = Some t"
  using utc_of_millis_utc [of t] by (simp add: add_milliseconds_def)

lemmas calendar_eval = utc_millis_def utc_ordinal_def ordinal_def days_before_year_def days_before_month_def day_millis_def
  number_at_def digits_value_def digit_value_def days_in_month_def leap_year_def upt_rec Let_def

lemmas float_eval = float_millis_def double_of_def scaled_def round_half_even_div_def bit_count.simps

end
