(* ===== verification/Job_Contract.thy ===== *)
theory Job_Contract
  imports Capacity Manifest Calendar
begin

section \<open>Jobs, requests and their history rows (infrastructure/sqlite/jobs.py)\<close>

text \<open>
  The data of the durable work queue: the request with the checks of its \<open>__post_init__\<close>, the row of
  \<open>v3_jobs\<close>, the signed spec it is created with, the row of \<open>v3_job_history\<close> with the value that is
  digested and signed, the retry policy, and the table of legal transitions. A row of \<open>v3_jobs\<close>
  holds the members of the closed vocabularies themselves (the CHECK constraints of the table keep
  their values legal), so \<open>_decode\<close> is the identity.
\<close>

subsection \<open>JobState\<close>

datatype (plugins only: code size) job_state =
    JS_QUEUED
  | JS_LEASED
  | JS_SUCCEEDED
  | JS_INVALID
  | JS_STALE
  | JS_CANCELLED
  | JS_RETRYABLE_FAILED
  | JS_PERMANENT_FAILED

primrec job_state_value :: "job_state \<Rightarrow> string" where
  "job_state_value JS_QUEUED = ''queued''"
| "job_state_value JS_LEASED = ''leased''"
| "job_state_value JS_SUCCEEDED = ''succeeded''"
| "job_state_value JS_INVALID = ''invalid''"
| "job_state_value JS_STALE = ''stale''"
| "job_state_value JS_CANCELLED = ''cancelled''"
| "job_state_value JS_RETRYABLE_FAILED = ''retryable-failed''"
| "job_state_value JS_PERMANENT_FAILED = ''permanent-failed''"

definition job_states :: "job_state list" where
  "job_states = [JS_QUEUED, JS_LEASED, JS_SUCCEEDED, JS_INVALID, JS_STALE, JS_CANCELLED, JS_RETRYABLE_FAILED, JS_PERMANENT_FAILED]"

lemma job_states_complete [vocabulary]: "x \<in> set job_states"
  by (cases x) (simp_all add: job_states_def)

lemma job_state_values_distinct [vocabulary]: "distinct (map job_state_value job_states)"
  by code_simp

definition parse_job_state :: "string \<Rightarrow> job_state option" where
  "parse_job_state = parse_member job_states job_state_value"

lemma parse_job_state_value [simp]: "parse_job_state (job_state_value x) = Some x"
  by (simp add: parse_job_state_def parse_member_value vocabulary)

lemma job_state_value_inj [simp]: "job_state_value x = job_state_value y \<longleftrightarrow> x = y"
  by (metis option.inject parse_job_state_value)

subsection \<open>FailureKind\<close>

datatype (plugins only: code size) failure_kind =
    FK_SCHEMA
  | FK_TRANSPORT
  | FK_PROCESS
  | FK_VALIDATION
  | FK_PERMANENT

primrec failure_kind_value :: "failure_kind \<Rightarrow> string" where
  "failure_kind_value FK_SCHEMA = ''schema''"
| "failure_kind_value FK_TRANSPORT = ''transport''"
| "failure_kind_value FK_PROCESS = ''process''"
| "failure_kind_value FK_VALIDATION = ''validation''"
| "failure_kind_value FK_PERMANENT = ''permanent''"

definition failure_kinds :: "failure_kind list" where
  "failure_kinds = [FK_SCHEMA, FK_TRANSPORT, FK_PROCESS, FK_VALIDATION, FK_PERMANENT]"

lemma failure_kinds_complete [vocabulary]: "x \<in> set failure_kinds"
  by (cases x) (simp_all add: failure_kinds_def)

lemma failure_kind_values_distinct [vocabulary]: "distinct (map failure_kind_value failure_kinds)"
  by code_simp

definition parse_failure_kind :: "string \<Rightarrow> failure_kind option" where
  "parse_failure_kind = parse_member failure_kinds failure_kind_value"

lemma parse_failure_kind_value [simp]: "parse_failure_kind (failure_kind_value x) = Some x"
  by (simp add: parse_failure_kind_def parse_member_value vocabulary)

lemma failure_kind_value_inj [simp]: "failure_kind_value x = failure_kind_value y \<longleftrightarrow> x = y"
  by (metis option.inject parse_failure_kind_value)

subsection \<open>Errors and validators\<close>

datatype job_error =
    JobError string
  | JobRejected string
  | JobConflict string
  | JobDeadline string
  | JobContract v3_error
  | JobCapacity capacity_error
  | JobIntegrity integrity_error
  | JobKey string int
  | JobValue string
  | JobOverflow

definition job_contract :: "v3_error + 'a \<Rightarrow> job_error + 'a" where
  "job_contract m = map_err JobContract m"

definition job_integrity :: "integrity_error + 'a \<Rightarrow> job_error + 'a" where
  "job_integrity m = map_err JobIntegrity m"

definition job_capacity :: "capacity_error + 'a \<Rightarrow> job_error + 'a" where
  "job_capacity m = map_err JobCapacity m"

lemma job_wrap_Inr [result_simps]:
  "job_contract a = Inr x \<longleftrightarrow> a = Inr x" "job_integrity b = Inr y \<longleftrightarrow> b = Inr y" "job_capacity c = Inr z \<longleftrightarrow> c = Inr z"
  by (simp_all add: job_contract_def job_integrity_def job_capacity_def map_err_Inr)

definition job_positive :: "py \<Rightarrow> string \<Rightarrow> job_error + int" where
  "job_positive v label = (case v of
       PInt n \<Rightarrow> if n \<le> 0 then Inl (JobError (label @ '' must be a positive integer'')) else Inr n
     | _ \<Rightarrow> Inl (JobError (label @ '' must be a positive integer'')))"

definition job_nonnegative :: "py \<Rightarrow> string \<Rightarrow> job_error + int" where
  "job_nonnegative v label = (case v of
       PInt n \<Rightarrow> if n < 0 then Inl (JobError (label @ '' must be a non-negative integer'')) else Inr n
     | _ \<Rightarrow> Inl (JobError (label @ '' must be a non-negative integer'')))"

definition job_digest :: "string \<Rightarrow> string \<Rightarrow> job_error + unit" where
  "job_digest s label = guards [(\<not> is_digest s, JobError (label @ '' must be a lower-case SHA-256 digest''))]"

definition job_token :: "string \<Rightarrow> string \<Rightarrow> job_error + unit" where
  "job_token s label = guards [(\<not> machine_token_ok s, JobError (label @ '' must be a bounded machine token''))]"

definition job_reason_rest :: "char \<Rightarrow> bool" where
  "job_reason_rest c \<longleftrightarrow> is_lower c \<or> is_digit c \<or> c \<in> set ''_.-''"

definition job_reason :: "string \<Rightarrow> job_error + unit" where
  "job_reason s = guards [(\<not> head_tail_pattern is_lower job_reason_rest 127 s, JobError ''reason must be a bounded machine token'')]"

definition bounded_duration :: "int \<Rightarrow> job_error + unit" where
  "bounded_duration n = guards
     [(n \<le> 0, JobError ''lease duration must be a positive integer''),
      (600000 < n, JobError ''lease duration cannot exceed ten minutes'')]"

text \<open>\<open>_job_identity\<close>.\<close>

definition job_identity :: "string \<Rightarrow> int \<Rightarrow> job_error + unit" where
  "job_identity jid rv =
     bind_res (job_contract (require_identifier (PStr jid) (Some ''job''))) (\<lambda>_.
     map_res (\<lambda>_. ()) (job_positive (PInt rv) ''job revision''))"

definition job_instant :: "string \<Rightarrow> job_error + string" where
  "job_instant s = job_contract (require_utc_milliseconds (PStr s))"

lemma job_checks_Inr [result_simps]:
  "job_positive v l = Inr n \<longleftrightarrow> v = PInt n \<and> 0 < n"
  "job_nonnegative v l = Inr n \<longleftrightarrow> v = PInt n \<and> 0 \<le> n"
  "job_digest s l = Inr u \<longleftrightarrow> is_digest s"
  "job_token s l = Inr u \<longleftrightarrow> machine_token_ok s"
  "job_reason s = Inr u \<longleftrightarrow> head_tail_pattern is_lower job_reason_rest 127 s"
  "bounded_duration k = Inr u \<longleftrightarrow> 0 < k \<and> k \<le> 600000"
  "job_instant s = Inr t \<longleftrightarrow> t = s \<and> utc_ok s"
  by (auto simp: job_positive_def job_nonnegative_def job_digest_def job_token_def job_reason_def bounded_duration_def
      job_instant_def job_contract_def map_err_Inr require_utc_Inr split: py.splits if_splits)

lemma job_identity_Inr [result_simps]: "job_identity jid rv = Inr u \<longleftrightarrow> id_in ''job'' jid \<and> 0 < rv"
  by (auto simp: job_identity_def result_simps id_in_def)

subsection \<open>Requests\<close>

definition job_result_schema :: string where
  "job_result_schema = ''strathmark-v3-durable-job-v1''"

record job_request =
  jr_job_id :: string
  jr_revision :: int
  jr_key :: string
  jr_kind :: job_kind
  jr_lane :: job_lane
  jr_resource :: job_resource_class
  jr_priority :: job_priority
  jr_capacity_json :: string
  jr_payload_json :: string
  jr_payload_digest :: string
  jr_evidence :: string
  jr_bundle :: string
  jr_policy :: string
  jr_created :: string
  jr_not_before :: string
  jr_deadline :: string
  jr_max_attempts :: int

text \<open>\<open>capacity_use()\<close> of a request and of a record.\<close>

definition capacity_of_json :: "string \<Rightarrow> job_error + capacity_use" where
  "capacity_of_json s = (case json_loads s of
       None \<Rightarrow> Inl (JobValue ''capacity use is not JSON'')
     | Some v \<Rightarrow> if is_mapping v then job_capacity (capacity_use_from_dict v) else Inl (JobError ''capacity use is not an object''))"

text \<open>The capacity use of a request is checked canonical JSON of a \<open>CapacityUse\<close>.\<close>

definition check_capacity_json :: "string \<Rightarrow> job_error + unit" where
  "check_capacity_json s =
     bind_res (of_option (JobError ''capacity use must be canonical JSON'') (json_loads s)) (\<lambda>v.
     bind_res (map_err (\<lambda>_. JobError ''capacity use is invalid'') (capacity_use_from_dict v)) (\<lambda>u.
     bind_res (job_contract (canonical_text (capacity_use_to_dict u))) (\<lambda>t.
     guards [(t \<noteq> s, JobError ''capacity use must be canonical JSON'')])))"

text \<open>The payload of a request is a canonical JSON object with its digest.\<close>

definition check_payload_json :: "string \<Rightarrow> string \<Rightarrow> job_error + unit" where
  "check_payload_json s dg =
     bind_res (of_option (JobError ''job payload must be canonical JSON'') (json_loads s)) (\<lambda>v.
     bind_res (guards [(\<not> is_mapping v, JobError ''job payload must be a JSON object'')]) (\<lambda>_.
     bind_res (job_contract (canonical_text v)) (\<lambda>t.
     bind_res (job_contract (canonical_digest v)) (\<lambda>own.
     guards [(t \<noteq> s \<or> own \<noteq> dg, JobError ''job payload bytes or digest differ'')]))))"

definition mk_job_request :: "job_request \<Rightarrow> job_error + job_request" where
  "mk_job_request r =
     bind_res (job_contract (require_identifier (PStr (jr_job_id r)) (Some ''job''))) (\<lambda>_.
     bind_res (job_positive (PInt (jr_revision r)) ''job revision'') (\<lambda>_.
     bind_res (guards [(jr_lane r \<noteq> kind_lane (jr_kind r) \<or> jr_resource r \<noteq> kind_resource (jr_kind r),
       JobError ''job kind, lane, and resource class mapping differs'')]) (\<lambda>_.
     bind_res (check_capacity_json (jr_capacity_json r)) (\<lambda>_.
     bind_res (check_payload_json (jr_payload_json r) (jr_payload_digest r)) (\<lambda>_.
     bind_res (job_digest (jr_evidence r) ''evidence digest'') (\<lambda>_.
     bind_res (job_digest (jr_bundle r) ''bundle digest'') (\<lambda>_.
     bind_res (job_token (jr_policy r) ''retry policy version'') (\<lambda>_.
     bind_res (job_instant (jr_created r)) (\<lambda>created.
     bind_res (job_instant (jr_not_before r)) (\<lambda>not_before.
     bind_res (job_instant (jr_deadline r)) (\<lambda>deadline.
     map_res (\<lambda>_. r) (guards
       [(\<not> (created \<le> not_before \<and> not_before < deadline), JobError ''job timing must satisfy created <= not-before < deadline''),
        (\<not> (1 \<le> jr_max_attempts r \<and> jr_max_attempts r \<le> 32), JobError ''max attempts must be between 1 and 32'')]))))))))))))"

text \<open>The digested material of a request and of a record, which a history row binds.\<close>

definition material_value ::
    "string \<Rightarrow> int \<Rightarrow> string \<Rightarrow> job_kind \<Rightarrow> job_lane \<Rightarrow> job_resource_class \<Rightarrow> job_priority \<Rightarrow> capacity_use \<Rightarrow> string \<Rightarrow> string
      \<Rightarrow> string \<Rightarrow> string \<Rightarrow> string \<Rightarrow> string \<Rightarrow> string \<Rightarrow> int \<Rightarrow> py" where
  "material_value jid rv key kind lane res prio u pd evd bun pol created nb dl mx = obj
     [(''schema_version'', PStr job_result_schema), (''job_id'', PStr jid), (''job_revision'', PInt rv),
      (''idempotency_key'', PStr key), (''job_kind'', PStr (job_kind_value kind)), (''lane'', PStr (job_lane_value lane)),
      (''resource_class'', PStr (job_resource_class_value res)), (''priority'', PInt (priority_value prio)),
      (''capacity_use'', capacity_use_to_dict u), (''payload_digest'', PStr pd), (''evidence_digest'', PStr evd),
      (''bundle_digest'', PStr bun), (''retry_policy_version'', PStr pol), (''created_at'', PStr created),
      (''not_before_at'', PStr nb), (''hard_deadline_at'', PStr dl), (''max_attempts'', PInt mx)]"

definition request_material_digest :: "job_request \<Rightarrow> job_error + string" where
  "request_material_digest r = bind_res (capacity_of_json (jr_capacity_json r)) (\<lambda>u.
     job_contract (canonical_digest (material_value (jr_job_id r) (jr_revision r) (jr_key r) (jr_kind r) (jr_lane r) (jr_resource r)
       (jr_priority r) u (jr_payload_digest r) (jr_evidence r) (jr_bundle r) (jr_policy r) (jr_created r) (jr_not_before r)
       (jr_deadline r) (jr_max_attempts r))))"

subsection \<open>Records\<close>

record job =
  jb_id :: string
  jb_revision :: int
  jb_key :: string
  jb_kind :: job_kind
  jb_lane :: job_lane
  jb_resource :: job_resource_class
  jb_priority :: job_priority
  jb_capacity_json :: string
  jb_payload_json :: string
  jb_payload_digest :: string
  jb_evidence :: string
  jb_bundle :: string
  jb_policy :: string
  jb_state :: job_state
  jb_attempts :: int
  jb_max_attempts :: int
  jb_initial_not_before :: string
  jb_not_before :: "string option"
  jb_deadline :: string
  jb_owner :: "string option"
  jb_acquired :: "string option"
  jb_expires :: "string option"
  jb_fence :: int
  jb_reason :: "string option"
  jb_result :: "string option"
  jb_created :: string
  jb_updated :: string

type_synonym job_key = "string \<times> int"

definition job_key_of :: "job \<Rightarrow> job_key" where
  "job_key_of j = (jb_id j, jb_revision j)"

definition record_material_digest :: "job \<Rightarrow> job_error + string" where
  "record_material_digest j = bind_res (capacity_of_json (jb_capacity_json j)) (\<lambda>u.
     job_contract (canonical_digest (material_value (jb_id j) (jb_revision j) (jb_key j) (jb_kind j) (jb_lane j) (jb_resource j)
       (jb_priority j) u (jb_payload_digest j) (jb_evidence j) (jb_bundle j) (jb_policy j) (jb_created j)
       (jb_initial_not_before j) (jb_deadline j) (jb_max_attempts j))))"

text \<open>The row \<open>enqueue\<close> inserts.\<close>

definition queued_job :: "job_request \<Rightarrow> job" where
  "queued_job r = \<lparr>jb_id = jr_job_id r, jb_revision = jr_revision r, jb_key = jr_key r, jb_kind = jr_kind r, jb_lane = jr_lane r,
     jb_resource = jr_resource r, jb_priority = jr_priority r, jb_capacity_json = jr_capacity_json r,
     jb_payload_json = jr_payload_json r, jb_payload_digest = jr_payload_digest r, jb_evidence = jr_evidence r,
     jb_bundle = jr_bundle r, jb_policy = jr_policy r, jb_state = JS_QUEUED, jb_attempts = 0,
     jb_max_attempts = jr_max_attempts r, jb_initial_not_before = jr_not_before r, jb_not_before = Some (jr_not_before r),
     jb_deadline = jr_deadline r, jb_owner = None, jb_acquired = None, jb_expires = None, jb_fence = 0, jb_reason = None,
     jb_result = None, jb_created = jr_created r, jb_updated = jr_created r\<rparr>"

subsection \<open>Specs\<close>

definition job_spec_value :: "job \<Rightarrow> py" where
  "job_spec_value j = obj
     [(''schema_version'', PStr ''strathmark-v3-job-spec-v1''),
      (''job'', obj
        [(''job_id'', PStr (jb_id j)), (''job_revision'', PInt (jb_revision j)), (''idempotency_key'', PStr (jb_key j)),
         (''job_kind'', PStr (job_kind_value (jb_kind j))), (''lane'', PStr (job_lane_value (jb_lane j))),
         (''resource_class'', PStr (job_resource_class_value (jb_resource j))),
         (''base_priority'', PInt (priority_value (jb_priority j))), (''capacity_use_json'', PStr (jb_capacity_json j)),
         (''payload_json'', PStr (jb_payload_json j)), (''payload_digest'', PStr (jb_payload_digest j)),
         (''evidence_digest'', PStr (jb_evidence j)), (''bundle_digest'', PStr (jb_bundle j)),
         (''retry_policy_version'', PStr (jb_policy j)), (''state'', PStr (job_state_value (jb_state j))),
         (''attempt_count'', PInt (jb_attempts j)), (''max_attempts'', PInt (jb_max_attempts j)),
         (''initial_not_before_at'', PStr (jb_initial_not_before j)), (''not_before_at'', opt_str (jb_not_before j)),
         (''hard_deadline_at'', PStr (jb_deadline j)), (''lease_owner'', opt_str (jb_owner j)),
         (''lease_acquired_at'', opt_str (jb_acquired j)), (''lease_expires_at'', opt_str (jb_expires j)),
         (''fencing_token'', PInt (jb_fence j)), (''terminal_reason'', opt_str (jb_reason j)),
         (''result_digest'', opt_str (jb_result j)), (''created_at'', PStr (jb_created j)), (''updated_at'', PStr (jb_updated j))])]"

definition spec_fields :: "string list" where
  "spec_fields = [''job_id'', ''job_revision'', ''idempotency_key'', ''job_kind'', ''lane'', ''resource_class'', ''base_priority'',
     ''capacity_use_json'', ''payload_json'', ''payload_digest'', ''evidence_digest'', ''bundle_digest'', ''retry_policy_version'',
     ''state'', ''attempt_count'', ''max_attempts'', ''initial_not_before_at'', ''not_before_at'', ''hard_deadline_at'',
     ''lease_owner'', ''lease_acquired_at'', ''lease_expires_at'', ''fencing_token'', ''terminal_reason'', ''result_digest'',
     ''created_at'', ''updated_at'']"

text \<open>A field read back as the type the record declares; the Python record would hold any value.\<close>

definition str_field :: "py \<Rightarrow> string \<Rightarrow> job_error + string" where
  "str_field v k = (case fld v k of PStr s \<Rightarrow> Inr s | _ \<Rightarrow> Inl (JobValue k))"

definition int_field :: "py \<Rightarrow> string \<Rightarrow> job_error + int" where
  "int_field v k = (case fld v k of PInt n \<Rightarrow> Inr n | _ \<Rightarrow> Inl (JobValue k))"

definition opt_field :: "py \<Rightarrow> string \<Rightarrow> job_error + string option" where
  "opt_field v k = (case fld v k of PStr s \<Rightarrow> Inr (Some s) | PNone \<Rightarrow> Inr None | _ \<Rightarrow> Inl (JobValue k))"

definition member_field :: "py \<Rightarrow> string \<Rightarrow> (string \<Rightarrow> 'm option) \<Rightarrow> job_error + 'm" where
  "member_field v k parse = bind_res (str_field v k) (\<lambda>s. of_option (JobValue k) (parse s))"

definition job_record_from_spec :: "py \<Rightarrow> job_error + job" where
  "job_record_from_spec v =
     bind_res (guards
       [(\<not> fields_are v [''schema_version'', ''job''], JobError ''job spec fields differ''),
        (fld v ''schema_version'' \<noteq> PStr ''strathmark-v3-job-spec-v1'', JobError ''job spec schema differs''),
        (\<not> fields_are (fld v ''job'') spec_fields, JobError ''job spec job fields differ'')]) (\<lambda>_.
     let b = fld v ''job'' in
     bind_res (str_field b ''job_id'') (\<lambda>jid.
     bind_res (int_field b ''job_revision'') (\<lambda>rv.
     bind_res (str_field b ''idempotency_key'') (\<lambda>key.
     bind_res (member_field b ''job_kind'' parse_job_kind) (\<lambda>kind.
     bind_res (member_field b ''lane'' parse_job_lane) (\<lambda>lane.
     bind_res (member_field b ''resource_class'' parse_job_resource_class) (\<lambda>res.
     bind_res (int_field b ''base_priority'') (\<lambda>pn.
     bind_res (of_option (JobValue ''base_priority'') (parse_job_priority pn)) (\<lambda>prio.
     bind_res (str_field b ''capacity_use_json'') (\<lambda>cj.
     bind_res (str_field b ''payload_json'') (\<lambda>pj.
     bind_res (str_field b ''payload_digest'') (\<lambda>pd.
     bind_res (str_field b ''evidence_digest'') (\<lambda>evd.
     bind_res (str_field b ''bundle_digest'') (\<lambda>bun.
     bind_res (str_field b ''retry_policy_version'') (\<lambda>pol.
     bind_res (member_field b ''state'' parse_job_state) (\<lambda>st.
     bind_res (int_field b ''attempt_count'') (\<lambda>ac.
     bind_res (int_field b ''max_attempts'') (\<lambda>mx.
     bind_res (str_field b ''initial_not_before_at'') (\<lambda>inb.
     bind_res (opt_field b ''not_before_at'') (\<lambda>nb.
     bind_res (str_field b ''hard_deadline_at'') (\<lambda>dl.
     bind_res (opt_field b ''lease_owner'') (\<lambda>ow.
     bind_res (opt_field b ''lease_acquired_at'') (\<lambda>aq.
     bind_res (opt_field b ''lease_expires_at'') (\<lambda>ex.
     bind_res (int_field b ''fencing_token'') (\<lambda>fe.
     bind_res (opt_field b ''terminal_reason'') (\<lambda>rs.
     bind_res (opt_field b ''result_digest'') (\<lambda>rd.
     bind_res (str_field b ''created_at'') (\<lambda>cr.
     bind_res (str_field b ''updated_at'') (\<lambda>up.
     Inr \<lparr>jb_id = jid, jb_revision = rv, jb_key = key, jb_kind = kind, jb_lane = lane, jb_resource = res, jb_priority = prio,
       jb_capacity_json = cj, jb_payload_json = pj, jb_payload_digest = pd, jb_evidence = evd, jb_bundle = bun, jb_policy = pol,
       jb_state = st, jb_attempts = ac, jb_max_attempts = mx, jb_initial_not_before = inb, jb_not_before = nb, jb_deadline = dl,
       jb_owner = ow, jb_acquired = aq, jb_expires = ex, jb_fence = fe, jb_reason = rs, jb_result = rd, jb_created = cr,
       jb_updated = up\<rparr>)))))))))))))))))))))))))))))"

lemma opt_field_str [simp]: "(case opt_str x of PStr s \<Rightarrow> Inr (Some s) | PNone \<Rightarrow> Inr None | _ \<Rightarrow> Inl e) = Inr x"
  by (cases x) (simp_all add: opt_str_def)

text \<open>A spec read back is the record it was made of.\<close>

lemma job_spec_plain: "plain_ok (job_spec_value j)"
  by (simp add: job_spec_value_def)

lemma job_spec_reload: "job_record_from_spec (rl (job_spec_value j)) = Inr j"
proof -
  let ?b = "obj
        [(''job_id'', PStr (jb_id j)), (''job_revision'', PInt (jb_revision j)), (''idempotency_key'', PStr (jb_key j)),
         (''job_kind'', PStr (job_kind_value (jb_kind j))), (''lane'', PStr (job_lane_value (jb_lane j))),
         (''resource_class'', PStr (job_resource_class_value (jb_resource j))),
         (''base_priority'', PInt (priority_value (jb_priority j))), (''capacity_use_json'', PStr (jb_capacity_json j)),
         (''payload_json'', PStr (jb_payload_json j)), (''payload_digest'', PStr (jb_payload_digest j)),
         (''evidence_digest'', PStr (jb_evidence j)), (''bundle_digest'', PStr (jb_bundle j)),
         (''retry_policy_version'', PStr (jb_policy j)), (''state'', PStr (job_state_value (jb_state j))),
         (''attempt_count'', PInt (jb_attempts j)), (''max_attempts'', PInt (jb_max_attempts j)),
         (''initial_not_before_at'', PStr (jb_initial_not_before j)), (''not_before_at'', opt_str (jb_not_before j)),
         (''hard_deadline_at'', PStr (jb_deadline j)), (''lease_owner'', opt_str (jb_owner j)),
         (''lease_acquired_at'', opt_str (jb_acquired j)), (''lease_expires_at'', opt_str (jb_expires j)),
         (''fencing_token'', PInt (jb_fence j)), (''terminal_reason'', opt_str (jb_reason j)),
         (''result_digest'', opt_str (jb_result j)), (''created_at'', PStr (jb_created j)), (''updated_at'', PStr (jb_updated j))]"
  have pb: "plain_ok ?b" by simp
  have po: "plain_ok (obj [(''schema_version'', PStr ''strathmark-v3-job-spec-v1''), (''job'', ?b)])" using pb by simp
  have v: "rl (job_spec_value j) = rl (obj [(''schema_version'', PStr ''strathmark-v3-job-spec-v1''), (''job'', ?b)])"
    by (simp only: job_spec_value_def)
  have top: "fld (rl (job_spec_value j)) ''schema_version'' = PStr ''strathmark-v3-job-spec-v1''"
    "fld (rl (job_spec_value j)) ''job'' = rl ?b" "fields_are (rl (job_spec_value j)) [''schema_version'', ''job'']"
    unfolding v using po by (simp_all add: rl_fld del: plain_ok_obj)
  note inner = rl_fld [OF pb, simplified]
  have "fields_are (rl ?b) spec_fields" using pb unfolding spec_fields_def by (simp del: plain_ok_obj)
  then show ?thesis unfolding job_record_from_spec_def Let_def top using top(3)
    by (simp add: inner str_field_def int_field_def opt_field_def member_field_def)
qed

subsection \<open>History rows\<close>

record history_row =
  hi_sequence :: int
  hi_id :: string
  hi_revision :: int
  hi_operation :: string
  hi_from :: "string option"
  hi_state :: string
  hi_attempts :: int
  hi_fence :: int
  hi_owner :: "string option"
  hi_acquired :: "string option"
  hi_expires :: "string option"
  hi_not_before :: "string option"
  hi_reason :: "string option"
  hi_result :: "string option"
  hi_observed :: string
  hi_prior :: string
  hi_digest :: string
  hi_material :: string
  hi_auth :: signed_manifest
  hi_spec :: string

definition hi_key :: "history_row \<Rightarrow> job_key" where
  "hi_key h = (hi_id h, hi_revision h)"

definition history_items :: "history_row \<Rightarrow> (string \<times> py) list" where
  "history_items h =
     [(''schema_version'', PStr job_result_schema), (''history_sequence'', PInt (hi_sequence h)), (''job_id'', PStr (hi_id h)),
      (''job_revision'', PInt (hi_revision h)), (''operation_kind'', PStr (hi_operation h)), (''from_state'', opt_str (hi_from h)),
      (''result_state'', PStr (hi_state h)), (''attempt_count'', PInt (hi_attempts h)), (''fencing_token'', PInt (hi_fence h)),
      (''lease_owner'', opt_str (hi_owner h)), (''lease_acquired_at'', opt_str (hi_acquired h)),
      (''lease_expires_at'', opt_str (hi_expires h)), (''not_before_at'', opt_str (hi_not_before h)),
      (''terminal_reason'', opt_str (hi_reason h)), (''result_digest'', opt_str (hi_result h)),
      (''observed_at'', PStr (hi_observed h)), (''prior_history_digest'', PStr (hi_prior h)),
      (''job_material_digest'', PStr (hi_material h))]"

text \<open>\<open>_history_value\<close>: rows from before the specs carry the zero digest and do not name one.\<close>

definition history_value :: "history_row \<Rightarrow> py" where
  "history_value h = obj (history_items h
     @ (if hi_spec h = zero_digest then [] else [(''job_spec_digest'', PStr (hi_spec h))]))"

text \<open>The ten columns a transition may change, of a row of history and of a job.\<close>

type_synonym job_snapshot =
  "string \<times> int \<times> int \<times> string option \<times> string option \<times> string option \<times> string option \<times> string option \<times> string option \<times> string"

definition history_snapshot :: "history_row \<Rightarrow> job_snapshot" where
  "history_snapshot h = (hi_state h, hi_attempts h, hi_fence h, hi_owner h, hi_acquired h, hi_expires h, hi_not_before h,
     hi_reason h, hi_result h, hi_observed h)"

definition record_snapshot :: "job \<Rightarrow> job_snapshot" where
  "record_snapshot j = (job_state_value (jb_state j), jb_attempts j, jb_fence j, jb_owner j, jb_acquired j, jb_expires j,
     jb_not_before j, jb_reason j, jb_result j, jb_updated j)"

definition record_with_history_snapshot :: "job \<Rightarrow> history_row \<Rightarrow> job_error + job" where
  "record_with_history_snapshot j h =
     bind_res (of_option (JobValue (hi_state h)) (parse_job_state (hi_state h))) (\<lambda>st.
     Inr (j\<lparr>jb_state := st, jb_attempts := hi_attempts h, jb_fence := hi_fence h, jb_owner := hi_owner h,
       jb_acquired := hi_acquired h, jb_expires := hi_expires h, jb_not_before := hi_not_before h, jb_reason := hi_reason h,
       jb_result := hi_result h, jb_updated := hi_observed h\<rparr>))"

text \<open>\<open>_verify_transition\<close>: the moves each operation may record.\<close>

definition allowed_moves :: "(string \<times> (string option \<times> string) list) list" where
  "allowed_moves =
     [(''queued'', [(None, ''queued'')]),
      (''leased'', [(Some ''queued'', ''leased'')]),
      (''heartbeat'', [(Some ''leased'', ''leased'')]),
      (''lease_expired'', [(Some ''leased'', ''queued'')]),
      (''requeued'', [(Some ''retryable-failed'', ''queued'')]),
      (''succeeded'', [(Some ''leased'', ''succeeded'')]),
      (''invalid'', [(Some ''leased'', ''invalid'')]),
      (''stale'', [(Some ''leased'', ''stale'')]),
      (''cancelled'', [(Some ''queued'', ''cancelled''), (Some ''leased'', ''cancelled''), (Some ''retryable-failed'', ''cancelled'')]),
      (''retryable-failed'', [(Some ''leased'', ''retryable-failed'')]),
      (''permanent-failed'', [(Some ''queued'', ''permanent-failed''), (Some ''leased'', ''permanent-failed''),
         (Some ''retryable-failed'', ''permanent-failed'')])]"

definition move_allowed :: "string \<Rightarrow> string option \<Rightarrow> string \<Rightarrow> bool" where
  "move_allowed op from to \<longleftrightarrow> (case map_of allowed_moves op of None \<Rightarrow> False | Some ms \<Rightarrow> (from, to) \<in> set ms)"

definition verify_transition :: "history_row \<Rightarrow> job_error + unit" where
  "verify_transition h = guards [(\<not> move_allowed (hi_operation h) (hi_from h) (hi_state h),
     JobError ''job history contains an illegal transition'')]"

subsection \<open>Retry policy\<close>

record retry_policy =
  rp_version :: string
  rp_base_delay_ms :: int
  rp_maximum_delay_ms :: int
  rp_schema_retry_limit :: int
  rp_transport_attempt_limit :: int
  rp_process_attempt_limit :: int

definition mk_retry_policy :: "py \<Rightarrow> py \<Rightarrow> py \<Rightarrow> py \<Rightarrow> py \<Rightarrow> py \<Rightarrow> job_error + retry_policy" where
  "mk_retry_policy version base maximum schema transport process =
     bind_res (case version of
         PStr s \<Rightarrow> if machine_token_ok s then Inr s else Inl (JobError ''retry policy version must be a bounded machine token'')
       | _ \<Rightarrow> Inl (JobError ''retry policy version must be a bounded machine token'')) (\<lambda>v.
     bind_res (job_positive base ''base delay'') (\<lambda>b.
     bind_res (job_positive maximum ''maximum delay'') (\<lambda>m.
     bind_res (guards [(m < b, JobError ''maximum retry delay cannot be below the base'')]) (\<lambda>_.
     bind_res (job_nonnegative schema ''schema retry limit'') (\<lambda>s.
     bind_res (job_positive transport ''transport attempt limit'') (\<lambda>t.
     bind_res (job_positive process ''process attempt limit'') (\<lambda>p.
     Inr \<lparr>rp_version = v, rp_base_delay_ms = b, rp_maximum_delay_ms = m, rp_schema_retry_limit = s,
       rp_transport_attempt_limit = t, rp_process_attempt_limit = p\<rparr>)))))))"

definition policy_ok :: "retry_policy \<Rightarrow> bool" where
  "policy_ok p \<longleftrightarrow> machine_token_ok (rp_version p) \<and> 0 < rp_base_delay_ms p \<and> rp_base_delay_ms p \<le> rp_maximum_delay_ms p
     \<and> 0 \<le> rp_schema_retry_limit p \<and> 0 < rp_transport_attempt_limit p \<and> 0 < rp_process_attempt_limit p"

lemma mk_retry_policy_Inr:
  "mk_retry_policy a b c d e f = Inr p \<longleftrightarrow> a = PStr (rp_version p) \<and> b = PInt (rp_base_delay_ms p)
     \<and> c = PInt (rp_maximum_delay_ms p) \<and> d = PInt (rp_schema_retry_limit p) \<and> e = PInt (rp_transport_attempt_limit p)
     \<and> f = PInt (rp_process_attempt_limit p) \<and> policy_ok p"
  by (cases p) (auto simp: mk_retry_policy_def result_simps policy_ok_def split: py.splits if_splits)

lemmas job_state_value_simps [simp] = job_state_value.simps

text \<open>What no transition changes: the record with its ten changing columns blanked.\<close>

definition fixed_part :: "job \<Rightarrow> job" where
  "fixed_part j = j\<lparr>jb_state := JS_QUEUED, jb_attempts := 0, jb_fence := 0, jb_owner := None, jb_acquired := None,
     jb_expires := None, jb_not_before := None, jb_reason := None, jb_result := None, jb_updated := []\<rparr>"

lemma snapshot_restores:
  assumes "history_snapshot h = record_snapshot j'" "fixed_part j = fixed_part j'"
  shows "record_with_history_snapshot j h = Inr j'"
  using assms
  by (cases j; cases j') (auto simp: fixed_part_def record_with_history_snapshot_def history_snapshot_def record_snapshot_def)

lemma material_fixed: "fixed_part j = fixed_part j' \<Longrightarrow> record_material_digest j = record_material_digest j'"
  by (cases j; cases j') (auto simp: fixed_part_def record_material_digest_def)

end
