(* ===== verification/Job_Queue.thy ===== *)
theory Job_Queue
  imports Job_Contract "HOL-Library.Product_Lexorder"
begin

section \<open>The durable work queue (infrastructure/sqlite/jobs.py)\<close>

text \<open>
  One record per table and one for the part of the database the queue writes. Every operation is
  one transaction: an error leaves the state as it was. \<open>append_history\<close> is the single place that
  records a transition: a row in the digest chain, signed, with its restart delta and the new
  integrity checkpoint. What belongs to other components is a field of the environment: the
  recombination authority check (ingress, epochs and weights), the rolling card status tip, the
  provider audit tables, and the publish and context hooks of the application. A hook may refuse;
  the tables it writes are not those of the queue.
\<close>

record spec_row =
  sp_id :: string
  sp_revision :: int
  sp_json :: string
  sp_digest :: string
  sp_manifest :: string
  sp_created :: string

record publication_row =
  pu_id :: string
  pu_revision :: int
  pu_fence :: int
  pu_result :: string
  pu_published :: string
  pu_auth :: signed_manifest

record delta_row =
  dl_sequence :: int
  dl_prior :: string
  dl_base :: int
  dl_operation :: string
  dl_authority_kind :: string
  dl_authority_sequence :: int
  dl_authority_digest :: string
  dl_digest :: string
  dl_manifest :: string
  dl_created :: string

record job_checkpoint =
  jc_sequence :: int
  jc_digest :: string
  jc_deep_at :: string
  jc_manifest :: string

record queue =
  jq_jobs :: "job list"
  jq_history :: "history_row list"
  jq_specs :: "spec_row list"
  jq_publications :: "publication_row list"
  jq_closures :: "(string \<times> string) list" \<comment> \<open>closed epochs with the time of closing\<close>
  jq_base :: "int option" \<comment> \<open>sequence of the last restart checkpoint\<close>
  jq_deltas :: "delta_row list"
  jq_checkpoint :: "job_checkpoint option"

record job_env =
  je_capacity :: capacity_manifest
  je_signer :: signer
  je_trust :: trust
  je_recombination :: "py \<Rightarrow> job_error + unit"
  je_status_tip :: "job_error + unit"

definition max_delta_suffix :: nat where
  "max_delta_suffix = 64"

subsection \<open>Rows\<close>

definition find_job :: "queue \<Rightarrow> string \<Rightarrow> int \<Rightarrow> job option" where
  "find_job q jid rv = find (\<lambda>j. job_key_of j = (jid, rv)) (jq_jobs q)"

text \<open>\<open>_get_connection\<close>.\<close>

definition get_job :: "queue \<Rightarrow> string \<Rightarrow> int \<Rightarrow> job_error + job" where
  "get_job q jid rv = bind_res (job_identity jid rv) (\<lambda>_. of_option (JobKey jid rv) (find_job q jid rv))"

definition put_job :: "queue \<Rightarrow> job \<Rightarrow> queue" where
  "put_job q j = q\<lparr>jq_jobs := map (\<lambda>k. if job_key_of k = job_key_of j then j else k) (jq_jobs q)\<rparr>"

text \<open>\<open>payload()\<close> of a record.\<close>

definition job_payload :: "job \<Rightarrow> job_error + py" where
  "job_payload j = (case json_loads (jb_payload_json j) of
       None \<Rightarrow> Inl (JobValue ''job payload is not JSON'')
     | Some v \<Rightarrow> if is_mapping v then Inr v else Inl (JobError ''persisted job payload is not an object''))"

definition component_schema :: string where
  "component_schema = ''strathmark-v3-rolling-component-job-v1''"

definition recombination_schema :: string where
  "recombination_schema = ''strathmark-v3-weight-only-recombination-v1''"

text \<open>\<open>_rolling_job_epoch_id\<close>.\<close>

definition rolling_job_epoch_id :: "py \<Rightarrow> job_error + string option" where
  "rolling_job_epoch_id p =
     (if fld p ''schema_version'' = PStr component_schema
      then map_res Some (map_err (\<lambda>_. JobError ''rolling job epoch authority is invalid'')
        (require_identifier (if is_mapping (fld p ''card_key'') then fld (fld p ''card_key'') ''tournament_epoch_id'' else PNone) (Some ''epoch'')))
      else if fld p ''schema_version'' = PStr recombination_schema
      then map_res Some (map_err (\<lambda>_. JobError ''rolling job epoch authority is invalid'')
        (require_identifier (fld p ''tournament_epoch_id'') (Some ''epoch'')))
      else Inr None)"

text \<open>The epoch \<open>json_extract\<close> finds in a payload, in the SQL of \<open>claim\<close> and of the closing sweep.\<close>

definition sql_epoch :: "job \<Rightarrow> string option" where
  "sql_epoch j = (case json_loads (jb_payload_json j) of None \<Rightarrow> None
     | Some p \<Rightarrow>
        (case (if fld p ''schema_version'' = PStr component_schema then fld (fld p ''card_key'') ''tournament_epoch_id''
               else if fld p ''schema_version'' = PStr recombination_schema then fld p ''tournament_epoch_id'' else PNone) of
           PStr s \<Rightarrow> Some s | _ \<Rightarrow> None))"

definition epoch_closed :: "queue \<Rightarrow> string \<Rightarrow> bool" where
  "epoch_closed q e \<longleftrightarrow> e \<in> set (map fst (jq_closures q))"

definition active_state :: "job_state \<Rightarrow> bool" where
  "active_state s \<longleftrightarrow> s \<in> set [JS_QUEUED, JS_LEASED, JS_RETRYABLE_FAILED]"

text \<open>\<open>_load\<close>.\<close>

definition count_jobs :: "(job \<Rightarrow> bool) \<Rightarrow> queue \<Rightarrow> int" where
  "count_jobs P q = int (length (filter P (jq_jobs q)))"

definition queue_load_of :: "queue \<Rightarrow> job_lane \<Rightarrow> job_error + queue_load" where
  "queue_load_of q lane = job_capacity (mk_queue_load
     (count_jobs (\<lambda>j. active_state (jb_state j)) q)
     (count_jobs (\<lambda>j. jb_lane j = lane \<and> active_state (jb_state j)) q)
     (count_jobs (\<lambda>j. jb_lane j = lane \<and> jb_state j = JS_LEASED) q))"

definition gpu_leased :: "queue \<Rightarrow> bool" where
  "gpu_leased q \<longleftrightarrow> list_ex (\<lambda>j. jb_state j = JS_LEASED \<and> jb_resource j = JR_LOCAL_GPU) (jq_jobs q)"

subsection \<open>Recording a transition\<close>

definition history_tip :: "queue \<Rightarrow> int \<times> string" where
  "history_tip q = (case jq_history q of [] \<Rightarrow> (0, zero_digest) | hs \<Rightarrow> (hi_sequence (last hs), hi_digest (last hs)))"

definition delta_value :: "int \<Rightarrow> string \<Rightarrow> int \<Rightarrow> string \<Rightarrow> string \<Rightarrow> int \<Rightarrow> string \<Rightarrow> string \<Rightarrow> py" where
  "delta_value n prior base op kind an ad created = obj
     [(''schema_version'', PStr ''strathmark-v3-rolling-restart-delta-v1''), (''delta_sequence'', PInt n),
      (''prior_delta_digest'', PStr prior), (''base_checkpoint_sequence'', PInt base), (''operation_kind'', PStr op),
      (''authority_kind'', PStr kind), (''authority_sequence'', PInt an), (''authority_digest'', PStr ad),
      (''created_at'', PStr created)]"

text \<open>\<open>_append_rolling_restart_delta\<close>; at most 64 deltas may follow one restart checkpoint.\<close>

definition append_delta :: "job_env \<Rightarrow> queue \<Rightarrow> string \<Rightarrow> string \<Rightarrow> int \<Rightarrow> string \<Rightarrow> string \<Rightarrow> job_error + queue" where
  "append_delta env q op kind an ad observed =
     bind_res (job_token op ''rolling restart delta operation'') (\<lambda>_.
     bind_res (job_token kind ''rolling restart delta authority'') (\<lambda>_.
     bind_res (job_digest ad ''rolling restart delta authority'') (\<lambda>_.
     bind_res (job_instant observed) (\<lambda>created.
     bind_res (of_option (JobError ''rolling restart delta lacks a base checkpoint'') (jq_base q)) (\<lambda>base.
     bind_res (guards [(max_delta_suffix \<le> length (filter (\<lambda>r. dl_base r = base) (jq_deltas q)),
       JobError ''rolling restart delta suffix requires checkpoint refresh'')]) (\<lambda>_.
     let n = (if jq_deltas q = [] then 1 else dl_sequence (last (jq_deltas q)) + 1);
         prior = (if jq_deltas q = [] then zero_digest else dl_digest (last (jq_deltas q))) in
     bind_res (job_integrity (sign_manifest (je_signer env) (je_trust env) ''rolling_restart_delta''
       (delta_value n prior base op kind an ad created) created)) (\<lambda>m.
     bind_res (job_contract (canonical_text (signed_manifest_to_dict m))) (\<lambda>t.
     Inr (q\<lparr>jq_deltas := jq_deltas q @ [\<lparr>dl_sequence = n, dl_prior = prior, dl_base = base, dl_operation = op,
       dl_authority_kind = kind, dl_authority_sequence = an, dl_authority_digest = ad, dl_digest = sm_body_digest m,
       dl_manifest = t, dl_created = created\<rparr>]\<rparr>)))))))))"

definition job_checkpoint_value :: "int \<Rightarrow> string \<Rightarrow> string \<Rightarrow> py" where
  "job_checkpoint_value n dg deep = obj
     [(''schema_version'', PStr ''strathmark-v3-job-integrity-checkpoint-v1''), (''history_sequence'', PInt n),
      (''history_digest'', PStr dg), (''last_deep_verified_at'', PStr deep)]"

text \<open>\<open>_write_job_integrity_checkpoint\<close>; \<open>now\<close> is the given time or the wall clock.\<close>

definition write_job_checkpoint :: "job_env \<Rightarrow> queue \<Rightarrow> string \<Rightarrow> bool \<Rightarrow> job_error + queue" where
  "write_job_checkpoint env q now preserve =
     (let n = fst (history_tip q); dg = snd (history_tip q);
          deep = (case jq_checkpoint q of Some c \<Rightarrow> if preserve then jc_deep_at c else now | None \<Rightarrow> now) in
      bind_res (job_integrity (sign_manifest (je_signer env) (je_trust env) ''job_integrity_checkpoint''
        (job_checkpoint_value n dg deep) now)) (\<lambda>m.
      bind_res (job_contract (canonical_text (signed_manifest_to_dict m))) (\<lambda>t.
      Inr (q\<lparr>jq_checkpoint := Some \<lparr>jc_sequence = n, jc_digest = dg, jc_deep_at = deep, jc_manifest = t\<rparr>\<rparr>))))"

definition spec_digest_of :: "queue \<Rightarrow> string \<Rightarrow> int \<Rightarrow> string option" where
  "spec_digest_of q jid rv = map_option sp_digest (find (\<lambda>s. (sp_id s, sp_revision s) = (jid, rv)) (jq_specs q))"

text \<open>The row a transition is recorded as, before its digest and its signature are known.\<close>

definition history_draft :: "job \<Rightarrow> int \<Rightarrow> string \<Rightarrow> job_state option \<Rightarrow> string \<Rightarrow> string \<Rightarrow> string \<Rightarrow> string \<Rightarrow> history_row" where
  "history_draft j n op from now prior material spec =
     \<lparr>hi_sequence = n, hi_id = jb_id j, hi_revision = jb_revision j, hi_operation = op,
       hi_from = map_option job_state_value from, hi_state = job_state_value (jb_state j), hi_attempts = jb_attempts j,
       hi_fence = jb_fence j, hi_owner = jb_owner j, hi_acquired = jb_acquired j, hi_expires = jb_expires j,
       hi_not_before = jb_not_before j, hi_reason = jb_reason j, hi_result = jb_result j, hi_observed = now, hi_prior = prior,
       hi_digest = [], hi_material = material,
       hi_auth = \<lparr>sm_kind = [], sm_body_json = [], sm_body_digest = [], sm_key_id = [], sm_signature = []\<rparr>, hi_spec = spec\<rparr>"

definition append_history ::
    "job_env \<Rightarrow> queue \<Rightarrow> string \<Rightarrow> job_state option \<Rightarrow> job \<Rightarrow> string \<Rightarrow> job_error + queue" where
  "append_history env q op from j now =
     bind_res (record_material_digest j) (\<lambda>material.
     bind_res (of_option (JobError ''job spec authority is missing'') (spec_digest_of q (jb_id j) (jb_revision j))) (\<lambda>spec.
     let h = history_draft j (fst (history_tip q) + 1) op from now (snd (history_tip q)) material spec;
         v = obj (history_items h @ [(''job_spec_digest'', PStr spec)]) in
     bind_res (job_contract (canonical_digest v)) (\<lambda>dg.
     bind_res (job_integrity (sign_manifest (je_signer env) (je_trust env) ''job_transition'' v now)) (\<lambda>m.
     bind_res (guards [(dg \<in> set (map hi_digest (jq_history q)), JobValue ''UNIQUE constraint failed: v3_job_history.history_digest'')]) (\<lambda>_.
     let q1 = q\<lparr>jq_history := jq_history q @ [h\<lparr>hi_digest := dg, hi_auth := m\<rparr>]\<rparr> in
     bind_res (append_delta env q1 op ''job_history'' (hi_sequence h) dg now) (\<lambda>q2.
     write_job_checkpoint env q2 now True))))))"

text \<open>\<open>UPDATE v3_jobs\<close> of one row followed by the record of it.\<close>

definition move_job :: "job_env \<Rightarrow> queue \<Rightarrow> string \<Rightarrow> job \<Rightarrow> job \<Rightarrow> string \<Rightarrow> job_error + (job \<times> queue)" where
  "move_job env q op old j now =
     map_res (Pair j) (append_history env (put_job q j) op (Some (jb_state old)) j now)"

subsection \<open>Finishing and leasing\<close>

definition released :: "job \<Rightarrow> job" where
  "released j = j\<lparr>jb_owner := None, jb_acquired := None, jb_expires := None\<rparr>"

definition finish_job :: "job_env \<Rightarrow> queue \<Rightarrow> job \<Rightarrow> job_state \<Rightarrow> string \<Rightarrow> string \<Rightarrow> job_error + (job \<times> queue)" where
  "finish_job env q j target now reason =
     bind_res (guards [(target \<notin> set [JS_INVALID, JS_STALE, JS_PERMANENT_FAILED],
       JobError ''finish target must be a non-success terminal state'')]) (\<lambda>_.
     move_job env q (job_state_value target) j
       ((released j)\<lparr>jb_state := target, jb_not_before := None, jb_reason := Some reason, jb_updated := now\<rparr>) now)"

definition cancelled_job :: "job \<Rightarrow> string \<Rightarrow> string \<Rightarrow> job" where
  "cancelled_job j now reason = (released j)\<lparr>jb_state := JS_CANCELLED, jb_not_before := None, jb_fence := jb_fence j + 1,
     jb_reason := Some reason, jb_updated := now\<rparr>"

definition leased_job :: "job \<Rightarrow> string \<Rightarrow> string \<Rightarrow> string \<Rightarrow> job" where
  "leased_job j worker now expiry = j\<lparr>jb_state := JS_LEASED, jb_attempts := jb_attempts j + 1, jb_fence := jb_fence j + 1,
     jb_not_before := None, jb_owner := Some worker, jb_acquired := Some now, jb_expires := Some expiry, jb_reason := None,
     jb_updated := now\<rparr>"

text \<open>\<open>min(_add_milliseconds(now, duration), hard_deadline_at)\<close>.\<close>

definition lease_end :: "string \<Rightarrow> int \<Rightarrow> string \<Rightarrow> job_error + string" where
  "lease_end now duration deadline = bind_res (of_option JobOverflow (add_milliseconds now duration)) (\<lambda>e. Inr (min e deadline))"

definition lease_job :: "job_env \<Rightarrow> queue \<Rightarrow> job \<Rightarrow> string \<Rightarrow> string \<Rightarrow> int \<Rightarrow> job_error + (job \<times> queue)" where
  "lease_job env q j worker now duration =
     bind_res (lease_end now duration (jb_deadline j)) (\<lambda>expiry.
     move_job env q ''leased'' j (leased_job j worker now expiry) now)"

text \<open>\<open>_require_lease\<close>.\<close>

definition require_lease :: "queue \<Rightarrow> string \<Rightarrow> int \<Rightarrow> string \<Rightarrow> int \<Rightarrow> string \<Rightarrow> job_error + job" where
  "require_lease q jid rv worker token now =
     bind_res (job_identity jid rv) (\<lambda>_.
     bind_res (job_token worker ''worker id'') (\<lambda>_.
     bind_res (job_positive (PInt token) ''fencing token'') (\<lambda>_.
     bind_res (get_job q jid rv) (\<lambda>j.
     map_res (\<lambda>_. j) (guards
       [(jb_state j \<noteq> JS_LEASED \<or> jb_owner j \<noteq> Some worker \<or> jb_fence j \<noteq> token,
         JobConflict ''worker does not hold the current fencing lease''),
        (jb_expires j = None, JobValue ''AssertionError''),
        (the (jb_expires j) \<le> now \<or> jb_deadline j \<le> now, JobDeadline ''lease or hard deadline expired before commit'')])))))"

end
