(* ===== verification/Job_Ops.thy ===== *)
theory Job_Ops
  imports Job_Queue
begin

section \<open>The operations of the work queue (infrastructure/sqlite/jobs.py)\<close>

text \<open>
  The methods of \<open>DurableJobRepository\<close> that change a job: enqueueing, the reconciliation every
  claim starts with, the two claims, the calls of a worker that holds a lease, cancellation and
  the sweep of closed epochs. Each returns the record it reports and the new state, or the error
  that rolls the transaction back. \<open>SELECT\<close> without an order visits the rows as they were
  inserted; no property depends on that order.
\<close>

text \<open>A loop that updates the state once per row.\<close>

fun each_row :: "('r \<Rightarrow> 's \<Rightarrow> 'e + 's) \<Rightarrow> 'r list \<Rightarrow> 's \<Rightarrow> 'e + 's" where
  "each_row f [] s = Inr s"
| "each_row f (r # rs) s = bind_res (f r s) (each_row f rs)"

definition jobs_where :: "(job \<Rightarrow> bool) \<Rightarrow> queue \<Rightarrow> job list" where
  "jobs_where P q = filter P (jq_jobs q)"

subsection \<open>Enqueueing\<close>

text \<open>\<open>_install_job_spec\<close>.\<close>

definition install_job_spec :: "job_env \<Rightarrow> queue \<Rightarrow> job \<Rightarrow> job_error + queue" where
  "install_job_spec env q j =
     bind_res (job_contract (canonical_digest (job_spec_value j))) (\<lambda>dg.
     bind_res (job_integrity (sign_manifest (je_signer env) (je_trust env) ''job_spec'' (job_spec_value j) (jb_created j))) (\<lambda>m.
     bind_res (job_contract (canonical_text (job_spec_value j))) (\<lambda>json.
     bind_res (job_contract (canonical_text (signed_manifest_to_dict m))) (\<lambda>mt.
     map_res (\<lambda>_. q\<lparr>jq_specs := jq_specs q @ [\<lparr>sp_id = jb_id j, sp_revision = jb_revision j, sp_json = json, sp_digest = dg,
         sp_manifest = mt, sp_created = jb_created j\<rparr>]\<rparr>)
       (guards [((jb_id j, jb_revision j) \<in> set (map (\<lambda>s. (sp_id s, sp_revision s)) (jq_specs q)) \<or> dg \<in> set (map sp_digest (jq_specs q)),
         JobValue ''UNIQUE constraint failed: v3_job_specs'')])))))"

definition admit_request :: "job_env \<Rightarrow> queue \<Rightarrow> job_request \<Rightarrow> bool \<Rightarrow> job_error + unit" where
  "admit_request env q r suspended =
     bind_res (queue_load_of q (jr_lane r)) (\<lambda>load.
     bind_res (capacity_of_json (jr_capacity_json r)) (\<lambda>u.
     let operational = validate_capacity_use (je_capacity env) u in
     bind_res (guards [(\<not> ad_admitted operational, JobRejected (ad_reason operational))]) (\<lambda>_.
     bind_res (job_capacity (decide_admission (je_capacity env) (jr_lane r) (jr_priority r) load False suspended)) (\<lambda>decision.
     guards [(\<not> ad_admitted decision, JobRejected (ad_reason decision))]))))"

definition enqueue :: "job_env \<Rightarrow> queue \<Rightarrow> job_request \<Rightarrow> bool \<Rightarrow> job_error + (job \<times> queue)" where
  "enqueue env q r suspended =
     bind_res (of_option (JobValue ''job payload is not JSON'') (json_loads (jr_payload_json r))) (\<lambda>payload.
     bind_res (rolling_job_epoch_id payload) (\<lambda>epoch.
     bind_res (guards [(case epoch of None \<Rightarrow> False | Some e \<Rightarrow> epoch_closed q e, JobRejected ''rolling_epoch_closed'')]) (\<lambda>_.
     bind_res (if fld payload ''schema_version'' = PStr recombination_schema then je_recombination env payload else Inr ()) (\<lambda>_.
     case find (\<lambda>j. jb_key j = jr_key r) (jq_jobs q) of
       Some j \<Rightarrow>
         bind_res (record_material_digest j) (\<lambda>old.
         bind_res (request_material_digest r) (\<lambda>new.
         map_res (\<lambda>_. (j, q)) (guards [(old \<noteq> new, JobConflict ''idempotency key already binds different job material'')])))
     | None \<Rightarrow>
         bind_res (guards [(find_job q (jr_job_id r) (jr_revision r) \<noteq> None,
           JobConflict ''job revision already exists under another idempotency key'')]) (\<lambda>_.
         bind_res (admit_request env q r suspended) (\<lambda>_.
         let j = queued_job r in
         bind_res (install_job_spec env (q\<lparr>jq_jobs := jq_jobs q @ [j]\<rparr>) j) (\<lambda>q1.
         map_res (Pair j) (append_history env q1 ''queued'' None j (jr_created r)))))))))"

subsection \<open>Reconciliation\<close>

definition lease_expired :: "string \<Rightarrow> job \<Rightarrow> bool" where
  "lease_expired now j \<longleftrightarrow> jb_state j = JS_LEASED \<and> (case jb_expires j of None \<Rightarrow> False | Some e \<Rightarrow> e \<le> now)"

definition retry_due :: "string \<Rightarrow> job \<Rightarrow> bool" where
  "retry_due now j \<longleftrightarrow> jb_state j = JS_RETRYABLE_FAILED \<and> (case jb_not_before j of None \<Rightarrow> False | Some e \<Rightarrow> e \<le> now)"

definition queued_late :: "string \<Rightarrow> job \<Rightarrow> bool" where
  "queued_late now j \<longleftrightarrow> jb_state j = JS_QUEUED \<and> jb_deadline j \<le> now"

definition exhausted :: "string \<Rightarrow> job \<Rightarrow> bool" where
  "exhausted now j \<longleftrightarrow> jb_max_attempts j \<le> jb_attempts j \<or> jb_deadline j \<le> now"

definition end_reason :: "string \<Rightarrow> job \<Rightarrow> string \<Rightarrow> string" where
  "end_reason now j other = (if jb_deadline j \<le> now then ''deadline_exceeded'' else other)"

definition expire_lease :: "job_env \<Rightarrow> string \<Rightarrow> job \<Rightarrow> queue \<Rightarrow> job_error + queue" where
  "expire_lease env now j q = map_res snd
     (if exhausted now j
      then finish_job env q j JS_PERMANENT_FAILED now (end_reason now j ''lease_expired_attempts_exhausted'')
      else move_job env q ''lease_expired'' j
        ((released j)\<lparr>jb_state := JS_QUEUED, jb_not_before := Some now, jb_reason := Some ''lease_expired'', jb_updated := now\<rparr>) now)"

definition retry_job :: "job_env \<Rightarrow> string \<Rightarrow> job \<Rightarrow> queue \<Rightarrow> job_error + queue" where
  "retry_job env now j q = map_res snd
     (if exhausted now j
      then finish_job env q j JS_PERMANENT_FAILED now (end_reason now j ''retry_exhausted'')
      else move_job env q ''requeued'' j (j\<lparr>jb_state := JS_QUEUED, jb_reason := None, jb_updated := now\<rparr>) now)"

definition drop_late :: "job_env \<Rightarrow> string \<Rightarrow> job \<Rightarrow> queue \<Rightarrow> job_error + queue" where
  "drop_late env now j q = map_res snd (finish_job env q j JS_PERMANENT_FAILED now ''deadline_exceeded'')"

text \<open>\<open>_reconcile_for_claim\<close>: each selection is made when its loop starts.\<close>

definition reconcile_for_claim :: "job_env \<Rightarrow> queue \<Rightarrow> string \<Rightarrow> job_error + queue" where
  "reconcile_for_claim env q now =
     bind_res (each_row (expire_lease env now) (jobs_where (lease_expired now) q) q) (\<lambda>q1.
     bind_res (each_row (retry_job env now) (jobs_where (retry_due now) q1) q1) (\<lambda>q2.
     each_row (drop_late env now) (jobs_where (queued_late now) q2) q2))"

subsection \<open>Claiming\<close>

text \<open>Errors that are a \<open>DurableJobError\<close>.\<close>

fun durable :: "job_error \<Rightarrow> bool" where
  "durable (JobError _) = True"
| "durable (JobRejected _) = True"
| "durable (JobConflict _) = True"
| "durable (JobDeadline _) = True"
| "durable _ = False"

definition context_current :: "job_env \<Rightarrow> job \<Rightarrow> job_error + bool" where
  "context_current env j =
     bind_res (job_payload j) (\<lambda>payload.
     if fld payload ''schema_version'' \<noteq> PStr recombination_schema then Inr True
     else (case je_recombination env payload of
         Inr _ \<Rightarrow> Inr True
       | Inl e \<Rightarrow> if durable e then Inr False else Inl e))"

definition effective_priority :: "job_env \<Rightarrow> job \<Rightarrow> string \<Rightarrow> int" where
  "effective_priority env j now =
     (let age = max 0 (float_millis now - float_millis (jb_created j));
          increments = age div cm_aging_interval_ms (je_capacity env)
      in priority_value (jb_priority j) + min 99 (increments * cm_aging_increment (je_capacity env)))"

definition claim_rank :: "job_env \<Rightarrow> string \<Rightarrow> job \<Rightarrow> int \<times> string \<times> string \<times> string \<times> int" where
  "claim_rank env now j = (- effective_priority env j now, jb_deadline j, jb_created j, jb_id j, jb_revision j)"

definition claimable :: "queue \<Rightarrow> job_lane \<Rightarrow> string \<Rightarrow> job \<Rightarrow> bool" where
  "claimable q lane now j \<longleftrightarrow> jb_lane j = lane \<and> jb_state j = JS_QUEUED
     \<and> (case jb_not_before j of None \<Rightarrow> False | Some b \<Rightarrow> b \<le> now) \<and> now < jb_deadline j
     \<and> (case sql_epoch j of None \<Rightarrow> True | Some e \<Rightarrow> \<not> epoch_closed q e)"

text \<open>Queued work whose context is no longer current is finished as stale; the rest may be leased.\<close>

fun screen_jobs :: "job_env \<Rightarrow> string \<Rightarrow> job list \<Rightarrow> queue \<Rightarrow> job_error + (job list \<times> queue)" where
  "screen_jobs env now [] q = Inr ([], q)"
| "screen_jobs env now (j # js) q =
     bind_res (context_current env j) (\<lambda>ok.
     if ok then map_res (\<lambda>(ks, q1). (j # ks, q1)) (screen_jobs env now js q)
     else bind_res (finish_job env q j JS_STALE now ''recombination_authority_changed'') (\<lambda>(_, q1). screen_jobs env now js q1))"

text \<open>The checks of the arguments and of the clock, which both claims share.\<close>

definition claim_checks :: "string \<Rightarrow> string \<Rightarrow> int \<Rightarrow> job_error + string" where
  "claim_checks worker clock duration =
     bind_res (job_token worker ''worker id'') (\<lambda>_.
     bind_res (bounded_duration duration) (\<lambda>_.
     job_instant clock))"

definition claim_job :: "job_env \<Rightarrow> queue \<Rightarrow> job_lane \<Rightarrow> string \<Rightarrow> string \<Rightarrow> int \<Rightarrow> job_error + (job option \<times> queue)" where
  "claim_job env q lane worker clock duration =
     bind_res (claim_checks worker clock duration) (\<lambda>now.
     bind_res (reconcile_for_claim env q now) (\<lambda>q1.
     bind_res (queue_load_of q1 lane) (\<lambda>load.
     bind_res (job_capacity (decide_admission (je_capacity env) lane JP_IMMINENT_FIELD load True False)) (\<lambda>decision.
     if \<not> ad_admitted decision then Inr (None, q1) else
     let rows = jobs_where (claimable q1 lane now) q1 in
     if rows = [] then Inr (None, q1) else
     bind_res (screen_jobs env now rows q1) (\<lambda>(current, q2).
     let eligible = filter (\<lambda>j. \<not> (gpu_leased q1 \<and> jb_resource j = JR_LOCAL_GPU)) current in
     if eligible = [] then Inr (None, q2)
     else map_res (\<lambda>(j, q3). (Some j, q3)) (lease_job env q2 (arg_min_list (claim_rank env now) eligible) worker now duration))))))"

definition claim_exact :: "job_env \<Rightarrow> queue \<Rightarrow> string \<Rightarrow> int \<Rightarrow> string \<Rightarrow> string \<Rightarrow> int \<Rightarrow> job_error + (job option \<times> queue)" where
  "claim_exact env q jid rv worker clock duration =
     bind_res (job_identity jid rv) (\<lambda>_.
     bind_res (claim_checks worker clock duration) (\<lambda>now.
     bind_res (reconcile_for_claim env q now) (\<lambda>q1.
     bind_res (get_job q1 jid rv) (\<lambda>j.
     if jb_state j \<noteq> JS_QUEUED then Inr (None, q1)
     else if (case jb_not_before j of None \<Rightarrow> True | Some b \<Rightarrow> now < b) then Inr (None, q1)
     else if jb_deadline j \<le> now then Inr (None, q1) else
     bind_res (queue_load_of q1 (jb_lane j)) (\<lambda>load.
     bind_res (job_capacity (decide_admission (je_capacity env) (jb_lane j) (jb_priority j) load True False)) (\<lambda>decision.
     if \<not> ad_admitted decision then Inr (None, q1) else
     bind_res (context_current env j) (\<lambda>ok.
     if \<not> ok then map_res (\<lambda>(_, q2). (None, q2)) (finish_job env q1 j JS_STALE now ''recombination_authority_changed'')
     else if jb_resource j = JR_LOCAL_GPU \<and> gpu_leased q1 then Inr (None, q1)
     else map_res (\<lambda>(k, q2). (Some k, q2)) (lease_job env q1 j worker now duration))))))))"

subsection \<open>Working under a lease\<close>

definition heartbeat :: "job_env \<Rightarrow> queue \<Rightarrow> string \<Rightarrow> int \<Rightarrow> string \<Rightarrow> int \<Rightarrow> string \<Rightarrow> int \<Rightarrow> job_error + (job \<times> queue)" where
  "heartbeat env q jid rv worker token observed duration =
     bind_res (job_instant observed) (\<lambda>now.
     bind_res (bounded_duration duration) (\<lambda>_.
     bind_res (require_lease q jid rv worker token now) (\<lambda>j.
     bind_res (lease_end now duration (jb_deadline j)) (\<lambda>expiry.
     move_job env q ''heartbeat'' j (j\<lparr>jb_expires := Some expiry, jb_updated := now\<rparr>) now))))"

text \<open>\<open>_publication_values\<close> and the insertion of the row.\<close>

definition publication_value :: "job \<Rightarrow> string \<Rightarrow> string \<Rightarrow> string \<Rightarrow> string \<Rightarrow> py" where
  "publication_value j res now tip material = obj
     [(''schema_version'', PStr job_result_schema), (''job_id'', PStr (jb_id j)), (''job_revision'', PInt (jb_revision j)),
      (''fencing_token'', PInt (jb_fence j)), (''result_digest'', PStr res), (''published_at'', PStr now),
      (''authority_tip'', PStr tip), (''job_material_digest'', PStr material)]"

definition insert_publication :: "job_env \<Rightarrow> queue \<Rightarrow> job \<Rightarrow> string \<Rightarrow> string \<Rightarrow> job_error + queue" where
  "insert_publication env q j res now =
     bind_res (record_material_digest j) (\<lambda>material.
     bind_res (job_integrity (sign_manifest (je_signer env) (je_trust env) ''job_publication''
       (publication_value j res now (snd (history_tip q)) material) now)) (\<lambda>m.
     map_res (\<lambda>_. q\<lparr>jq_publications := jq_publications q @ [\<lparr>pu_id = jb_id j, pu_revision = jb_revision j, pu_fence = jb_fence j,
         pu_result = res, pu_published = now, pu_auth = m\<rparr>]\<rparr>)
       (guards [((jb_id j, jb_revision j) \<in> set (map (\<lambda>p. (pu_id p, pu_revision p)) (jq_publications q)),
         JobValue ''UNIQUE constraint failed: v3_job_publications'')])))"

definition succeeded_job :: "job \<Rightarrow> string \<Rightarrow> string \<Rightarrow> job" where
  "succeeded_job j res now = (released j)\<lparr>jb_state := JS_SUCCEEDED, jb_reason := None, jb_result := Some res, jb_updated := now\<rparr>"

text \<open>What the application passes to \<open>commit_success\<close>: the current evidence and bundle digests, the
  provider audit to persist and the publish hook.\<close>

record commit_hooks =
  ch_context :: "job \<Rightarrow> job_error + (string \<times> string)"
  ch_audit :: "job \<Rightarrow> job_error + unit"
  ch_publish :: "job \<Rightarrow> job_error + unit"

definition commit_success ::
    "job_env \<Rightarrow> queue \<Rightarrow> string \<Rightarrow> int \<Rightarrow> string \<Rightarrow> int \<Rightarrow> string \<Rightarrow> commit_hooks \<Rightarrow> string \<Rightarrow> job_error + (job \<times> queue)" where
  "commit_success env q jid rv worker token res hooks clock =
     bind_res (job_digest res ''result digest'') (\<lambda>_.
     bind_res (get_job q jid rv) (\<lambda>seen.
     if jb_state seen = JS_SUCCEEDED
     then map_res (\<lambda>_. (seen, q)) (guards [(\<not> (jb_fence seen = token \<and> jb_result seen = Some res),
       JobConflict ''job revision already has a different publication'')])
     else
     bind_res (ch_context hooks seen) (\<lambda>(evidence, bundle).
     bind_res (job_digest evidence ''current evidence digest'') (\<lambda>_.
     bind_res (job_digest bundle ''current bundle digest'') (\<lambda>_.
     bind_res (job_instant clock) (\<lambda>now.
     bind_res (require_lease q jid rv worker token now) (\<lambda>j.
     bind_res (job_payload j) (\<lambda>payload.
     bind_res (rolling_job_epoch_id payload) (\<lambda>epoch.
     if (case epoch of None \<Rightarrow> False | Some e \<Rightarrow> epoch_closed q e)
     then move_job env q ''cancelled'' j (cancelled_job j now ''epoch_closed'') now
     else if jb_evidence j \<noteq> evidence \<or> jb_bundle j \<noteq> bundle
     then finish_job env q j JS_STALE now (if jb_evidence j \<noteq> evidence then ''evidence_changed'' else ''bundle_changed'')
     else
     bind_res (context_current env j) (\<lambda>ok.
     if \<not> ok then finish_job env q j JS_STALE now ''recombination_authority_changed''
     else
     bind_res (ch_audit hooks j) (\<lambda>_.
     bind_res (insert_publication env q j res now) (\<lambda>q1.
     bind_res (ch_publish hooks j) (\<lambda>_.
     move_job env q1 ''succeeded'' j (succeeded_job j res now) now)))))))))))))"

text \<open>\<open>_retry_delay\<close>: exponential, bounded, with a jitter drawn from a digest.\<close>

definition hex_value :: "string \<Rightarrow> int" where
  "hex_value s = foldl (\<lambda>n c. 16 * n + (case hex_digit c of Some d \<Rightarrow> int d | None \<Rightarrow> 0)) 0 s"

definition retry_material :: "job \<Rightarrow> failure_kind \<Rightarrow> string \<Rightarrow> string" where
  "retry_material j kind reason = jb_id j @ '':'' @ int_string (jb_revision j) @ '':'' @ int_string (jb_attempts j) @ '':''
     @ failure_kind_value kind @ '':'' @ reason"

definition retry_delay :: "job \<Rightarrow> failure_kind \<Rightarrow> string \<Rightarrow> retry_policy \<Rightarrow> int" where
  "retry_delay j kind reason p =
     (let exponential = rp_base_delay_ms p * 2 ^ nat (min (jb_attempts j - 1) 20);
          bounded = min (rp_maximum_delay_ms p) exponential;
          window = max 1 (bounded div 4);
          jitter = hex_value (take 8 (sha256_hex (utf8 (retry_material j kind reason)))) mod window
      in min (rp_maximum_delay_ms p) (bounded + jitter))"

text \<open>The attempts a kind of failure may use; the two that end a job have none.\<close>

definition attempt_limit :: "failure_kind \<Rightarrow> retry_policy \<Rightarrow> int option" where
  "attempt_limit kind p = (case kind of
       FK_SCHEMA \<Rightarrow> Some (rp_schema_retry_limit p + 1)
     | FK_TRANSPORT \<Rightarrow> Some (rp_transport_attempt_limit p)
     | FK_PROCESS \<Rightarrow> Some (rp_process_attempt_limit p)
     | _ \<Rightarrow> None)"

definition retryable_job :: "job \<Rightarrow> string \<Rightarrow> string \<Rightarrow> string \<Rightarrow> job" where
  "retryable_job j not_before reason now = (released j)\<lparr>jb_state := JS_RETRYABLE_FAILED, jb_not_before := Some not_before,
     jb_reason := Some reason, jb_updated := now\<rparr>"

definition record_failure ::
    "job_env \<Rightarrow> queue \<Rightarrow> string \<Rightarrow> int \<Rightarrow> string \<Rightarrow> int \<Rightarrow> string \<Rightarrow> failure_kind \<Rightarrow> string \<Rightarrow> retry_policy
      \<Rightarrow> (job \<Rightarrow> job_error + unit) \<Rightarrow> job_error + (job \<times> queue)" where
  "record_failure env q jid rv worker token observed kind reason p audit =
     bind_res (job_reason reason) (\<lambda>_.
     bind_res (job_instant observed) (\<lambda>now.
     bind_res (require_lease q jid rv worker token now) (\<lambda>j.
     bind_res (guards [(jb_policy j \<noteq> rp_version p, JobConflict ''job retry policy version differs from worker policy'')]) (\<lambda>_.
     bind_res (audit j) (\<lambda>_.
     if kind = FK_VALIDATION then finish_job env q j JS_INVALID now reason
     else case attempt_limit kind p of
       None \<Rightarrow> finish_job env q j JS_PERMANENT_FAILED now reason
     | Some limit \<Rightarrow>
         if min (jb_max_attempts j) limit \<le> jb_attempts j then finish_job env q j JS_PERMANENT_FAILED now ''retry_exhausted''
         else
         bind_res (of_option JobOverflow (add_milliseconds now (retry_delay j kind reason p))) (\<lambda>not_before.
         if jb_deadline j \<le> not_before then finish_job env q j JS_PERMANENT_FAILED now ''deadline_exceeded''
         else move_job env q ''retryable-failed'' j (retryable_job j not_before reason now) now))))))"

definition terminal_from_lease ::
    "job_env \<Rightarrow> queue \<Rightarrow> string \<Rightarrow> int \<Rightarrow> string \<Rightarrow> int \<Rightarrow> string \<Rightarrow> job_state \<Rightarrow> string \<Rightarrow> job_error + (job \<times> queue)" where
  "terminal_from_lease env q jid rv worker token observed target reason =
     bind_res (job_reason reason) (\<lambda>_.
     bind_res (job_instant observed) (\<lambda>now.
     bind_res (require_lease q jid rv worker token now) (\<lambda>j.
     finish_job env q j target now reason)))"

definition mark_invalid where
  "mark_invalid env q jid rv worker token observed reason = terminal_from_lease env q jid rv worker token observed JS_INVALID reason"

definition mark_stale where
  "mark_stale env q jid rv worker token observed reason = terminal_from_lease env q jid rv worker token observed JS_STALE reason"

definition mark_permanent_failure where
  "mark_permanent_failure env q jid rv worker token observed reason =
     terminal_from_lease env q jid rv worker token observed JS_PERMANENT_FAILED reason"

subsection \<open>Cancellation\<close>

definition cancel_job :: "job_env \<Rightarrow> queue \<Rightarrow> string \<Rightarrow> int \<Rightarrow> string \<Rightarrow> string \<Rightarrow> job_error + (job \<times> queue)" where
  "cancel_job env q jid rv observed reason =
     bind_res (job_reason reason) (\<lambda>_.
     bind_res (job_instant observed) (\<lambda>now.
     bind_res (get_job q jid rv) (\<lambda>j.
     bind_res (guards [(\<not> active_state (jb_state j), JobConflict ''only active work may be cancelled'')]) (\<lambda>_.
     move_job env q ''cancelled'' j (cancelled_job j now reason) now))))"

text \<open>\<open>cancel_closed_rolling_jobs\<close>: active work of closed epochs, in the order of its creation.\<close>

definition closed_at :: "queue \<Rightarrow> job \<Rightarrow> string option" where
  "closed_at q j = Option.bind (sql_epoch j) (map_of (jq_closures q))"

definition sweep_job :: "job_env \<Rightarrow> job \<times> string \<Rightarrow> queue \<Rightarrow> job_error + queue" where
  "sweep_job env r q = (case r of (j, closing) \<Rightarrow>
     map_res snd (move_job env q ''cancelled'' j (cancelled_job j closing ''epoch_closed'') closing))"

definition swept_rows :: "queue \<Rightarrow> (job \<times> string) list" where
  "swept_rows q = map (\<lambda>j. (j, the (closed_at q j)))
     (sort_key (\<lambda>j. (jb_created j, jb_id j, jb_revision j)) (jobs_where (\<lambda>j. active_state (jb_state j) \<and> closed_at q j \<noteq> None) q))"

definition cancel_closed_rolling_jobs :: "job_env \<Rightarrow> queue \<Rightarrow> job_error + (job list \<times> queue)" where
  "cancel_closed_rolling_jobs env q =
     bind_res (je_status_tip env) (\<lambda>_.
     map_res (Pair (map (\<lambda>(j, closing). cancelled_job j closing ''epoch_closed'') (swept_rows q)))
       (each_row (sweep_job env) (swept_rows q) q))"

end
