(* ===== verification/Job_Moves.thy ===== *)
theory Job_Moves
  imports Job_Ops
begin

section \<open>The moves of a job\<close>

text \<open>
  The specification of the queue below its operations: the legal changes of one row, labelled by
  the operation kind the history records and the time of it, and the steps of the whole queue that
  are made of them. Every operation of the repository is shown to be a sequence of such steps, so
  a property of the steps is a property of every run of the queue.
\<close>

subsection \<open>One row\<close>

definition holds_lease :: "job \<Rightarrow> string \<Rightarrow> bool" where
  "holds_lease j now \<longleftrightarrow> jb_state j = JS_LEASED \<and> now < jb_deadline j \<and> (case jb_expires j of None \<Rightarrow> False | Some e \<Rightarrow> now < e)"

definition finished_job :: "job \<Rightarrow> job_state \<Rightarrow> string \<Rightarrow> string \<Rightarrow> job" where
  "finished_job j target now reason =
     (released j)\<lparr>jb_state := target, jb_not_before := None, jb_reason := Some reason, jb_updated := now\<rparr>"

definition requeued_lease :: "job \<Rightarrow> string \<Rightarrow> job" where
  "requeued_lease j now =
     (released j)\<lparr>jb_state := JS_QUEUED, jb_not_before := Some now, jb_reason := Some ''lease_expired'', jb_updated := now\<rparr>"

definition requeued_retry :: "job \<Rightarrow> string \<Rightarrow> job" where
  "requeued_retry j now = j\<lparr>jb_state := JS_QUEUED, jb_reason := None, jb_updated := now\<rparr>"

inductive move :: "string \<Rightarrow> string \<Rightarrow> job \<Rightarrow> job \<Rightarrow> bool" where
  lease: "jb_state j = JS_QUEUED \<Longrightarrow> jb_not_before j = Some b \<Longrightarrow> b \<le> now \<Longrightarrow> now < e \<Longrightarrow> e \<le> jb_deadline j
    \<Longrightarrow> utc_ok now \<Longrightarrow> utc_ok e \<or> e = jb_deadline j \<Longrightarrow> move ''leased'' now j (leased_job j w now e)"
| beat: "holds_lease j now \<Longrightarrow> now < e \<Longrightarrow> e \<le> jb_deadline j \<Longrightarrow> utc_ok e \<or> e = jb_deadline j
    \<Longrightarrow> move ''heartbeat'' now j (j\<lparr>jb_expires := Some e, jb_updated := now\<rparr>)"
| expire: "lease_expired now j \<Longrightarrow> \<not> exhausted now j \<Longrightarrow> move ''lease_expired'' now j (requeued_lease j now)"
| requeue: "retry_due now j \<Longrightarrow> \<not> exhausted now j \<Longrightarrow> move ''requeued'' now j (requeued_retry j now)"
| invalid: "holds_lease j now \<Longrightarrow> move ''invalid'' now j (finished_job j JS_INVALID now r)"
| stale: "holds_lease j now \<or> jb_state j = JS_QUEUED \<Longrightarrow> move ''stale'' now j (finished_job j JS_STALE now r)"
| failed: "active_state (jb_state j) \<Longrightarrow> move ''permanent-failed'' now j (finished_job j JS_PERMANENT_FAILED now r)"
| cancelled: "active_state (jb_state j) \<Longrightarrow> move ''cancelled'' now j (cancelled_job j now r)"
| retry: "holds_lease j now \<Longrightarrow> jb_attempts j < jb_max_attempts j \<Longrightarrow> nb < jb_deadline j
    \<Longrightarrow> move ''retryable-failed'' now j (retryable_job j nb r now)"
| succeeded: "holds_lease j now \<Longrightarrow> move ''succeeded'' now j (succeeded_job j res now)"

inductive_cases moveE: "move op now j j'"

lemmas row_defs = released_def finished_job_def requeued_lease_def requeued_retry_def leased_job_def cancelled_job_def
  retryable_job_def succeeded_job_def

lemma move_fixed: "move op now j j' \<Longrightarrow> fixed_part j' = fixed_part j"
  by (induction rule: move.induct) (simp_all add: row_defs fixed_part_def)

lemma fixed_fields:
  assumes "fixed_part j' = fixed_part j"
  shows "job_key_of j' = job_key_of j" "jb_lane j' = jb_lane j" "jb_resource j' = jb_resource j" "jb_deadline j' = jb_deadline j"
    "jb_max_attempts j' = jb_max_attempts j" "jb_priority j' = jb_priority j" "jb_key j' = jb_key j" "jb_created j' = jb_created j"
    "jb_id j' = jb_id j" "jb_revision j' = jb_revision j"
  using assms by (cases j; cases j'; simp add: fixed_part_def job_key_of_def)+

lemma move_active: "move op now j j' \<Longrightarrow> active_state (jb_state j)"
  by (induction rule: move.induct) (auto simp: holds_lease_def lease_expired_def retry_due_def active_state_def)

lemma move_updated: "move op now j j' \<Longrightarrow> jb_updated j' = now"
  by (induction rule: move.induct) (simp_all add: row_defs)

lemma move_fence: "move op now j j' \<Longrightarrow> jb_fence j \<le> jb_fence j'"
  by (induction rule: move.induct) (simp_all add: row_defs)

subsection \<open>The steps of the queue\<close>

text \<open>The authority of a run: capacity, key and trust store. The hooks may change from call to call.\<close>

definition same_authority :: "job_env \<Rightarrow> job_env \<Rightarrow> bool" where
  "same_authority a b \<longleftrightarrow> je_capacity a = je_capacity b \<and> je_signer a = je_signer b \<and> je_trust a = je_trust b"

inductive queue_step :: "job_env \<Rightarrow> queue \<Rightarrow> queue \<Rightarrow> bool" for a where
  enqueued: "same_authority a env \<Longrightarrow> mk_job_request r = Inr r \<Longrightarrow> \<forall>j \<in> set (jq_jobs q). jb_key j \<noteq> jr_key r
    \<Longrightarrow> find_job q (jr_job_id r) (jr_revision r) = None \<Longrightarrow> admit_request env q r s = Inr ()
    \<Longrightarrow> install_job_spec env (q\<lparr>jq_jobs := jq_jobs q @ [queued_job r]\<rparr>) (queued_job r) = Inr q1
    \<Longrightarrow> append_history env q1 ''queued'' None (queued_job r) (jr_created r) = Inr q' \<Longrightarrow> queue_step a q q'"
| moved: "same_authority a env \<Longrightarrow> find_job q (jb_id j) (jb_revision j) = Some j \<Longrightarrow> move op now j j' \<Longrightarrow> op \<noteq> ''succeeded''
    \<Longrightarrow> op \<noteq> ''leased'' \<Longrightarrow> append_history env (put_job q j') op (Some (jb_state j)) j' now = Inr q' \<Longrightarrow> queue_step a q q'"
| leased: "same_authority a env \<Longrightarrow> find_job q (jb_id j) (jb_revision j) = Some j \<Longrightarrow> move ''leased'' now j j'
    \<Longrightarrow> count_jobs (\<lambda>k. jb_lane k = jb_lane j \<and> jb_state k = JS_LEASED) q < lc_max_leased l
    \<Longrightarrow> manifest_lane (je_capacity a) (jb_lane j) = Some l \<Longrightarrow> \<not> (gpu_leased q \<and> jb_resource j = JR_LOCAL_GPU)
    \<Longrightarrow> append_history env (put_job q j') ''leased'' (Some (jb_state j)) j' now = Inr q' \<Longrightarrow> queue_step a q q'"
| published: "same_authority a env \<Longrightarrow> find_job q (jb_id j) (jb_revision j) = Some j \<Longrightarrow> holds_lease j now
    \<Longrightarrow> insert_publication env q j res now = Inr q1
    \<Longrightarrow> append_history env (put_job q1 (succeeded_job j res now)) ''succeeded'' (Some (jb_state j)) (succeeded_job j res now) now = Inr q'
    \<Longrightarrow> queue_step a q q'"
| elsewhere: "jq_jobs q' = jq_jobs q \<Longrightarrow> jq_history q' = jq_history q \<Longrightarrow> jq_specs q' = jq_specs q
    \<Longrightarrow> jq_publications q' = jq_publications q \<Longrightarrow> jq_checkpoint q' = jq_checkpoint q \<Longrightarrow> queue_step a q q'"

inductive_cases queue_stepE: "queue_step a q q'"

text \<open>Runs: any number of steps.\<close>

abbreviation queue_run :: "job_env \<Rightarrow> queue \<Rightarrow> queue \<Rightarrow> bool" where
  "queue_run a \<equiv> (queue_step a)\<^sup>*\<^sup>*"

lemma same_authority_refl [simp]: "same_authority a a"
  by (simp add: same_authority_def)

lemma queue_run_trans: "queue_run a q q1 \<Longrightarrow> queue_run a q1 q2 \<Longrightarrow> queue_run a q q2"
  by (rule rtranclp_trans)

subsection \<open>What a record of history leaves alone\<close>

lemma append_delta_frame:
  assumes "append_delta env q op kind an ad now = Inr q'"
  shows "jq_jobs q' = jq_jobs q \<and> jq_history q' = jq_history q \<and> jq_specs q' = jq_specs q \<and> jq_publications q' = jq_publications q
    \<and> jq_closures q' = jq_closures q \<and> jq_base q' = jq_base q \<and> jq_checkpoint q' = jq_checkpoint q \<and> utc_ok now"
  using assms by (auto simp: append_delta_def bind_res_Inr Let_def result_simps simp del: guards.simps)

lemma write_job_checkpoint_frame:
  assumes "write_job_checkpoint env q now p = Inr q'"
  shows "jq_jobs q' = jq_jobs q \<and> jq_history q' = jq_history q \<and> jq_specs q' = jq_specs q \<and> jq_publications q' = jq_publications q
    \<and> jq_closures q' = jq_closures q \<and> jq_base q' = jq_base q \<and> jq_deltas q' = jq_deltas q"
  using assms by (auto simp: write_job_checkpoint_def bind_res_Inr Let_def)

lemma append_history_Inr:
  assumes "append_history env q op from j now = Inr q'"
  obtains material spec dg m h q2 where "record_material_digest j = Inr material" "spec_digest_of q (jb_id j) (jb_revision j) = Some spec"
    "h = history_draft j (fst (history_tip q) + 1) op from now (snd (history_tip q)) material spec"
    "canonical_digest (obj (history_items h @ [(''job_spec_digest'', PStr spec)])) = Inr dg"
    "sign_manifest (je_signer env) (je_trust env) ''job_transition'' (obj (history_items h @ [(''job_spec_digest'', PStr spec)])) now = Inr m"
    "dg \<notin> set (map hi_digest (jq_history q))"
    "append_delta env (q\<lparr>jq_history := jq_history q @ [h\<lparr>hi_digest := dg, hi_auth := m\<rparr>]\<rparr>) op ''job_history'' (hi_sequence h) dg now = Inr q2"
    "write_job_checkpoint env q2 now True = Inr q'"
  using assms by (auto simp: append_history_def bind_res_Inr Let_def result_simps simp del: guards.simps)

lemma append_history_frame:
  assumes "append_history env q op from j now = Inr q'"
  shows "jq_jobs q' = jq_jobs q" "jq_specs q' = jq_specs q" "jq_publications q' = jq_publications q"
    "jq_closures q' = jq_closures q" "jq_base q' = jq_base q"
  using assms by (auto elim!: append_history_Inr dest!: append_delta_frame write_job_checkpoint_frame)

lemma append_history_row:
  assumes "append_history env q op from j now = Inr q'"
  shows "\<exists>h. jq_history q' = jq_history q @ [h] \<and> hi_key h = job_key_of j \<and> hi_operation h = op
    \<and> hi_from h = map_option job_state_value from \<and> hi_state h = job_state_value (jb_state j) \<and> hi_fence h = jb_fence j
    \<and> hi_observed h = now"
  using assms
  by (elim append_history_Inr)
    (auto simp: history_draft_def hi_key_def job_key_of_def dest!: append_delta_frame write_job_checkpoint_frame)

lemma put_job_frame [simp]:
  "jq_history (put_job q j) = jq_history q" "jq_specs (put_job q j) = jq_specs q" "jq_publications (put_job q j) = jq_publications q"
  "jq_closures (put_job q j) = jq_closures q" "jq_base (put_job q j) = jq_base q" "history_tip (put_job q j) = history_tip q"
  by (simp_all add: put_job_def history_tip_def)

lemma move_job_Inr [result_simps]:
  "move_job env q op old j now = Inr (k, q') \<longleftrightarrow> k = j \<and> append_history env (put_job q j) op (Some (jb_state old)) j now = Inr q'"
  by (auto simp: move_job_def map_res_Inr)

definition replaced :: "job \<Rightarrow> job list \<Rightarrow> job list" where
  "replaced j js = map (\<lambda>k. if job_key_of k = job_key_of j then j else k) js"

lemma move_job_jobs:
  assumes "move_job env q op old j now = Inr (k, q')"
  shows "k = j" "jq_jobs q' = replaced j (jq_jobs q)" "jq_closures q' = jq_closures q" "jq_publications q' = jq_publications q"
    "jq_specs q' = jq_specs q"
  using assms append_history_frame by (fastforce simp: move_job_Inr put_job_def replaced_def)+

lemma finish_job_Inr [result_simps]:
  "finish_job env q j t now r = Inr x \<longleftrightarrow> t \<in> {JS_INVALID, JS_STALE, JS_PERMANENT_FAILED}
     \<and> move_job env q (job_state_value t) j (finished_job j t now r) now = Inr x"
  by (auto simp: finish_job_def finished_job_def bind_res_Inr)

end
