(* ===== verification/Job_Runs.thy ===== *)
theory Job_Runs
  imports Job_Moves
begin

section \<open>Every operation is a run of moves\<close>

text \<open>
  The simulation: what each operation of \<open>Job_Ops\<close> does when it returns is a sequence of steps of
  \<open>Job_Moves\<close>. Reconciliation is moreover a function of each row by itself.
\<close>

subsection \<open>Finding rows\<close>

definition keyed_jobs :: "queue \<Rightarrow> bool" where
  "keyed_jobs q \<longleftrightarrow> distinct (map job_key_of (jq_jobs q))"

lemma find_job_iff:
  assumes "keyed_jobs q" shows "find_job q jid rv = Some j \<longleftrightarrow> j \<in> set (jq_jobs q) \<and> jb_id j = jid \<and> jb_revision j = rv"
proof -
  have "distinct (map job_key_of js) \<Longrightarrow> find (\<lambda>k. job_key_of k = (jid, rv)) js = Some j \<longleftrightarrow> j \<in> set js \<and> job_key_of j = (jid, rv)" for js
    by (induction js) (auto simp: rev_image_eqI)
  then show ?thesis using assms by (auto simp: find_job_def keyed_jobs_def job_key_of_def)
qed

lemma find_job_key: "find_job q jid rv = Some j \<Longrightarrow> jb_id j = jid \<and> jb_revision j = rv \<and> j \<in> set (jq_jobs q)"
  by (auto simp: find_job_def find_Some_iff job_key_of_def)

lemma replaced_keys [simp]: "map job_key_of (replaced j js) = map job_key_of js"
  by (induction js) (auto simp: replaced_def)

lemma find_replaced:
  "find (\<lambda>k. job_key_of k = key) (replaced j js)
     = (if key = job_key_of j then map_option (\<lambda>_. j) (find (\<lambda>k. job_key_of k = key) js) else find (\<lambda>k. job_key_of k = key) js)"
  by (induction js) (auto simp: replaced_def)

lemma find_job_replaced:
  "jq_jobs q' = replaced j (jq_jobs q) \<Longrightarrow> find_job q' jid rv
     = (if (jid, rv) = job_key_of j then map_option (\<lambda>_. j) (find_job q jid rv) else find_job q jid rv)"
  by (simp add: find_job_def find_replaced)

lemma get_job_Inr: "get_job q jid rv = Inr j \<longleftrightarrow> id_in ''job'' jid \<and> 0 < rv \<and> find_job q jid rv = Some j"
  by (simp add: get_job_def result_simps)

lemma require_lease_Inr:
  "require_lease q jid rv worker token now = Inr j \<longleftrightarrow> id_in ''job'' jid \<and> 0 < rv \<and> machine_token_ok worker \<and> 0 < token
     \<and> find_job q jid rv = Some j \<and> holds_lease j now \<and> jb_owner j = Some worker \<and> jb_fence j = token"
  by (auto simp: require_lease_def result_simps get_job_Inr holds_lease_def not_le split: option.splits simp del: guards.simps)

subsection \<open>Loops\<close>

lemma each_row_run:
  assumes key: "\<And>r. job_key_of (g r) = job_key_of r"
    and step: "\<And>r s s'. f r s = Inr s' \<Longrightarrow> r \<in> set rs \<Longrightarrow> find_job s (jb_id r) (jb_revision r) = Some r
      \<Longrightarrow> queue_run a s s' \<and> jq_jobs s' = replaced (g r) (jq_jobs s) \<and> jq_closures s' = jq_closures s"
    and "each_row f rs q = Inr q'" "distinct (map job_key_of rs)" "\<forall>r \<in> set rs. find_job q (jb_id r) (jb_revision r) = Some r"
  shows "queue_run a q q' \<and> jq_closures q' = jq_closures q
    \<and> jq_jobs q' = map (\<lambda>k. case find (\<lambda>r. job_key_of r = job_key_of k) rs of Some r \<Rightarrow> g r | None \<Rightarrow> k) (jq_jobs q)"
  using step assms(3-5)
proof (induction rs arbitrary: q)
  case (Cons r rs)
  obtain s where s: "f r q = Inr s" "each_row f rs s = Inr q'" using Cons.prems(2) by (auto simp: bind_res_Inr)
  have st: "queue_run a q s" "jq_jobs s = replaced (g r) (jq_jobs q)" "jq_closures s = jq_closures q"
    using Cons.prems(1) [OF s(1)] Cons.prems(4) by auto
  have found: "\<forall>k \<in> set rs. find_job s (jb_id k) (jb_revision k) = Some k"
  proof
    fix k assume k: "k \<in> set rs"
    then have "job_key_of k \<noteq> job_key_of r" using Cons.prems(3) by (metis distinct.simps(2) image_eqI list.set_map list.simps(9))
    then have "(jb_id k, jb_revision k) \<noteq> job_key_of (g r)" using key [of r] by (simp add: job_key_of_def)
    then show "find_job s (jb_id k) (jb_revision k) = Some k"
      using find_job_replaced [OF st(2)] Cons.prems(4) k by simp
  qed
  have ih: "queue_run a s q' \<and> jq_closures q' = jq_closures s
      \<and> jq_jobs q' = map (\<lambda>k. case find (\<lambda>r. job_key_of r = job_key_of k) rs of Some r \<Rightarrow> g r | None \<Rightarrow> k) (jq_jobs s)"
    by (rule Cons.IH [OF _ s(2) _ found]) (use Cons.prems(1,3) in auto)
  have none: "find (\<lambda>k. job_key_of k = job_key_of r) rs = None" using Cons.prems(3) by (fastforce simp: find_None_iff image_iff)
  have "(case find (\<lambda>r. job_key_of r = job_key_of k') rs of Some r \<Rightarrow> g r | None \<Rightarrow> k')
      = (case find (\<lambda>r. job_key_of r = job_key_of k) (r # rs) of Some r \<Rightarrow> g r | None \<Rightarrow> k)"
    if "k' = (if job_key_of k = job_key_of (g r) then g r else k)" for k k'
    using that none key by (cases "job_key_of k = job_key_of r") (auto split: option.split)
  then have "jq_jobs q' = map (\<lambda>k. case find (\<lambda>r. job_key_of r = job_key_of k) (r # rs) of Some r \<Rightarrow> g r | None \<Rightarrow> k) (jq_jobs q)"
    using ih st(2) by (simp add: replaced_def)
  then show ?case using ih st(1,3) queue_run_trans [of a q s q'] by simp
qed simp

lemma find_in_filter:
  assumes "distinct (map job_key_of js)" "k \<in> set js"
  shows "find (\<lambda>r. job_key_of r = job_key_of k) (filter P js) = (if P k then Some k else None)"
  using assms by (induction js) (auto simp: find_None_iff rev_image_eqI)

lemma each_row_where:
  assumes key: "\<And>r. job_key_of (g r) = job_key_of r"
    and "keyed_jobs q" "each_row f (jobs_where P q) q = Inr q'"
    and step: "\<And>r s s'. f r s = Inr s' \<Longrightarrow> P r \<Longrightarrow> find_job s (jb_id r) (jb_revision r) = Some r
      \<Longrightarrow> queue_run a s s' \<and> jq_jobs s' = replaced (g r) (jq_jobs s) \<and> jq_closures s' = jq_closures s"
  shows "queue_run a q q' \<and> jq_jobs q' = map (\<lambda>k. if P k then g k else k) (jq_jobs q) \<and> keyed_jobs q' \<and> jq_closures q' = jq_closures q"
proof -
  have d: "distinct (map job_key_of (jobs_where P q))"
    using assms(2) by (simp add: keyed_jobs_def jobs_where_def distinct_map_filter)
  have f: "\<forall>r \<in> set (jobs_where P q). find_job q (jb_id r) (jb_revision r) = Some r"
    using assms(2) by (auto simp: find_job_iff jobs_where_def)
  have r: "queue_run a q q' \<and> jq_closures q' = jq_closures q \<and> jq_jobs q' = map (\<lambda>k. case find (\<lambda>r. job_key_of r = job_key_of k) (jobs_where P q) of
      Some r \<Rightarrow> g r | None \<Rightarrow> k) (jq_jobs q)"
    by (rule each_row_run [OF key _ assms(3) d f]) (use step in \<open>auto simp: jobs_where_def\<close>)
  have m: "jq_jobs q' = map (\<lambda>k. if P k then g k else k) (jq_jobs q)"
    using r assms(2) by (auto simp: jobs_where_def keyed_jobs_def find_in_filter)
  have "map job_key_of (jq_jobs q') = map job_key_of (jq_jobs q)" by (simp add: m key)
  then have "keyed_jobs q'" using assms(2) by (simp add: keyed_jobs_def)
  then show ?thesis using r m by simp
qed

subsection \<open>Single moves\<close>

lemma move_job_step:
  assumes "move_job env q op j j' now = Inr (k, q')" "same_authority a env" "find_job q (jb_id j) (jb_revision j) = Some j"
    "move op now j j'" "op \<notin> {''succeeded'', ''leased''}"
  shows "queue_run a q q'"
proof -
  have "append_history env (put_job q j') op (Some (jb_state j)) j' now = Inr q'" using assms(1) by (simp add: move_job_Inr)
  then have "queue_step a q q'" using queue_step.moved [OF assms(2-4)] assms(5) by simp
  then show ?thesis ..
qed

lemma finish_job_step:
  assumes "finish_job env q j t now r = Inr (k, q')" "same_authority a env" "find_job q (jb_id j) (jb_revision j) = Some j"
    "t = JS_PERMANENT_FAILED \<and> active_state (jb_state j) \<or> holds_lease j now \<or> t = JS_STALE \<and> jb_state j = JS_QUEUED"
  shows "queue_run a q q'" "jq_jobs q' = replaced (finished_job j t now r) (jq_jobs q)" "k = finished_job j t now r"
    "jq_closures q' = jq_closures q"
proof -
  have t: "t \<in> {JS_INVALID, JS_STALE, JS_PERMANENT_FAILED}"
    and m: "move_job env q (job_state_value t) j (finished_job j t now r) now = Inr (k, q')"
    using assms(1) by (simp_all add: finish_job_Inr)
  have "move (job_state_value t) now j (finished_job j t now r)"
    using t assms(4) move.invalid move.stale move.failed by (auto simp: holds_lease_def active_state_def)
  moreover have "job_state_value t \<notin> {''succeeded'', ''leased''}" using t by auto
  ultimately show "queue_run a q q'" using move_job_step [OF m assms(2,3)] by simp
  show "jq_jobs q' = replaced (finished_job j t now r) (jq_jobs q)" "k = finished_job j t now r" "jq_closures q' = jq_closures q"
    using move_job_jobs [OF m] by simp_all
qed

lemma row_keys [simp]:
  "job_key_of (released j) = job_key_of j" "job_key_of (finished_job j t now r) = job_key_of j"
  "job_key_of (requeued_lease j now) = job_key_of j" "job_key_of (requeued_retry j now) = job_key_of j"
  "job_key_of (leased_job j w now e) = job_key_of j" "job_key_of (cancelled_job j now r) = job_key_of j"
  "job_key_of (retryable_job j nb r now) = job_key_of j" "job_key_of (succeeded_job j res now) = job_key_of j"
  by (simp_all add: row_defs job_key_of_def)

subsection \<open>Reconciliation is pointwise\<close>

definition expire_row :: "string \<Rightarrow> job \<Rightarrow> job" where
  "expire_row now j = (if exhausted now j
     then finished_job j JS_PERMANENT_FAILED now (end_reason now j ''lease_expired_attempts_exhausted'')
     else requeued_lease j now)"

definition retry_row :: "string \<Rightarrow> job \<Rightarrow> job" where
  "retry_row now j = (if exhausted now j
     then finished_job j JS_PERMANENT_FAILED now (end_reason now j ''retry_exhausted'') else requeued_retry j now)"

definition late_row :: "string \<Rightarrow> job \<Rightarrow> job" where
  "late_row now j = finished_job j JS_PERMANENT_FAILED now ''deadline_exceeded''"

definition reconcile_row :: "string \<Rightarrow> job \<Rightarrow> job" where
  "reconcile_row now j = (let j1 = (if lease_expired now j then expire_row now j else j);
       j2 = (if retry_due now j1 then retry_row now j1 else j1)
     in if queued_late now j2 then late_row now j2 else j2)"

lemma expire_lease_step:
  assumes "expire_lease env now j q = Inr q'" "same_authority a env" "find_job q (jb_id j) (jb_revision j) = Some j" "lease_expired now j"
  shows "queue_run a q q' \<and> jq_jobs q' = replaced (expire_row now j) (jq_jobs q) \<and> jq_closures q' = jq_closures q"
proof (cases "exhausted now j")
  case True
  then obtain k where "finish_job env q j JS_PERMANENT_FAILED now (end_reason now j ''lease_expired_attempts_exhausted'') = Inr (k, q')"
    using assms(1) by (auto simp: expire_lease_def map_res_Inr)
  from finish_job_step [OF this assms(2,3)] show ?thesis
    using True assms(4) by (simp add: expire_row_def lease_expired_def active_state_def)
next
  case False
  then obtain k where m: "move_job env q ''lease_expired'' j (requeued_lease j now) now = Inr (k, q')"
    using assms(1) by (auto simp: expire_lease_def map_res_Inr requeued_lease_def)
  show ?thesis using move_job_step [OF m assms(2,3) move.expire] move_job_jobs [OF m] False assms(4) by (simp add: expire_row_def)
qed

lemma retry_job_step:
  assumes "retry_job env now j q = Inr q'" "same_authority a env" "find_job q (jb_id j) (jb_revision j) = Some j" "retry_due now j"
  shows "queue_run a q q' \<and> jq_jobs q' = replaced (retry_row now j) (jq_jobs q) \<and> jq_closures q' = jq_closures q"
proof (cases "exhausted now j")
  case True
  then obtain k where "finish_job env q j JS_PERMANENT_FAILED now (end_reason now j ''retry_exhausted'') = Inr (k, q')"
    using assms(1) by (auto simp: retry_job_def map_res_Inr)
  from finish_job_step [OF this assms(2,3)] show ?thesis
    using True assms(4) by (simp add: retry_row_def retry_due_def active_state_def)
next
  case False
  then obtain k where m: "move_job env q ''requeued'' j (requeued_retry j now) now = Inr (k, q')"
    using assms(1) by (auto simp: retry_job_def map_res_Inr requeued_retry_def)
  show ?thesis using move_job_step [OF m assms(2,3) move.requeue] move_job_jobs [OF m] False assms(4) by (simp add: retry_row_def)
qed

lemma drop_late_step:
  assumes "drop_late env now j q = Inr q'" "same_authority a env" "find_job q (jb_id j) (jb_revision j) = Some j" "queued_late now j"
  shows "queue_run a q q' \<and> jq_jobs q' = replaced (late_row now j) (jq_jobs q) \<and> jq_closures q' = jq_closures q"
proof -
  obtain k where "finish_job env q j JS_PERMANENT_FAILED now ''deadline_exceeded'' = Inr (k, q')"
    using assms(1) by (auto simp: drop_late_def map_res_Inr)
  from finish_job_step [OF this assms(2,3)] show ?thesis using assms(4) by (simp add: late_row_def queued_late_def active_state_def)
qed

lemma reconcile_pointwise:
  assumes "reconcile_for_claim env q now = Inr q'" "same_authority a env" "keyed_jobs q"
  shows "queue_run a q q'" "jq_jobs q' = map (reconcile_row now) (jq_jobs q)" "keyed_jobs q'" "jq_closures q' = jq_closures q"
proof -
  obtain q1 q2 where q1: "each_row (expire_lease env now) (jobs_where (lease_expired now) q) q = Inr q1"
    and q2: "each_row (retry_job env now) (jobs_where (retry_due now) q1) q1 = Inr q2"
    and q3: "each_row (drop_late env now) (jobs_where (queued_late now) q2) q2 = Inr q'"
    using assms(1) by (auto simp: reconcile_for_claim_def bind_res_Inr)
  have k: "job_key_of (expire_row now j) = job_key_of j" "job_key_of (retry_row now j) = job_key_of j"
    "job_key_of (late_row now j) = job_key_of j" for j by (simp_all add: expire_row_def retry_row_def late_row_def)
  have r1: "queue_run a q q1 \<and> jq_jobs q1 = map (\<lambda>k. if lease_expired now k then expire_row now k else k) (jq_jobs q)
      \<and> keyed_jobs q1 \<and> jq_closures q1 = jq_closures q"
    by (rule each_row_where [OF k(1) assms(3) q1]) (rule expire_lease_step [OF _ assms(2)])
  then have r2: "queue_run a q1 q2 \<and> jq_jobs q2 = map (\<lambda>k. if retry_due now k then retry_row now k else k) (jq_jobs q1)
      \<and> keyed_jobs q2 \<and> jq_closures q2 = jq_closures q1"
    by (intro each_row_where [OF k(2) _ q2]) (simp, rule retry_job_step [OF _ assms(2)])
  then have r3: "queue_run a q2 q' \<and> jq_jobs q' = map (\<lambda>k. if queued_late now k then late_row now k else k) (jq_jobs q2)
      \<and> keyed_jobs q' \<and> jq_closures q' = jq_closures q2"
    by (intro each_row_where [OF k(3) _ q3]) (simp, rule drop_late_step [OF _ assms(2)])
  show "queue_run a q q'" using r1 r2 r3 queue_run_trans [of a q q1 q2] queue_run_trans [of a q q2 q'] by simp
  show "keyed_jobs q'" "jq_closures q' = jq_closures q" using r1 r2 r3 by simp_all
  show "jq_jobs q' = map (reconcile_row now) (jq_jobs q)"
    using r1 r2 r3 by (simp add: reconcile_row_def Let_def)
qed

end
