(* ===== verification/Job_Simulation.thy ===== *)
theory Job_Simulation
  imports Job_Runs
begin

section \<open>The public operations as runs\<close>

text \<open>Continues \<open>Job_Runs\<close> with the claims, the calls under a lease, enqueueing and cancellation.\<close>

subsection \<open>Leasing\<close>

lemma lease_end_Inr:
  assumes "lease_end now d deadline = Inr e" "utc_ok now" "0 < d" "now < deadline"
  shows "now < e" "e \<le> deadline" "utc_ok e \<or> e = deadline"
proof -
  obtain x where x: "add_milliseconds now d = Some x" "e = min x deadline"
    using assms(1) by (auto simp: lease_end_def bind_res_Inr of_option_Inr)
  have "now < x" using add_milliseconds_Some [OF x(1)] assms(2,3) by (simp add: utc_millis_order)
  then show "now < e" "e \<le> deadline" "utc_ok e \<or> e = deadline"
    using x assms(4) add_milliseconds_Some(1) [OF x(1)] by (auto simp: min_def)
qed

lemma lease_job_Inr:
  assumes "lease_job env q j w now d = Inr (k, q')" "utc_ok now" "0 < d" "jb_state j = JS_QUEUED"
    "jb_not_before j = Some b" "b \<le> now" "now < jb_deadline j"
  obtains e where "k = leased_job j w now e" "move ''leased'' now j k" "jq_jobs q' = replaced k (jq_jobs q)"
    "append_history env (put_job q k) ''leased'' (Some (jb_state j)) k now = Inr q'" "jq_closures q' = jq_closures q"
    "now < e" "e \<le> jb_deadline j" "lease_end now d (jb_deadline j) = Inr e"
proof -
  obtain e where e: "lease_end now d (jb_deadline j) = Inr e" and m: "move_job env q ''leased'' j (leased_job j w now e) now = Inr (k, q')"
    using assms(1) by (auto simp: lease_job_def bind_res_Inr)
  note b = lease_end_Inr [OF e assms(2,3,7)]
  show ?thesis using that move.lease [OF assms(4-6) b(1,2) assms(2) b(3)] m move_job_jobs [OF m] b e by (auto simp: move_job_Inr)
qed

lemma queue_load_Inr:
  "queue_load_of q lane = Inr l \<Longrightarrow> ql_total_active l = count_jobs (\<lambda>j. active_state (jb_state j)) q
     \<and> ql_lane_active l = count_jobs (\<lambda>j. jb_lane j = lane \<and> active_state (jb_state j)) q
     \<and> ql_lane_leased l = count_jobs (\<lambda>j. jb_lane j = lane \<and> jb_state j = JS_LEASED) q"
  by (auto simp: queue_load_of_def job_wrap_Inr mk_queue_load_def map_res_Inr)

lemma claim_decision:
  assumes "decide_admission m lane p load True False = Inr d" "ad_admitted d"
  shows "\<exists>l. manifest_lane m lane = Some l \<and> ql_lane_leased load < lc_max_leased l"
proof -
  obtain l where l: "manifest_lane m lane = Some l" using assms(1) by (auto simp: decide_admission_def bind_res_Inr of_option_Inr)
  from claim_admission [OF l, of p load False] show ?thesis using assms l by auto
qed

subsection \<open>Screening\<close>

definition stale_row :: "string \<Rightarrow> job \<Rightarrow> job" where
  "stale_row now j = finished_job j JS_STALE now ''recombination_authority_changed''"

definition screen_row :: "job_env \<Rightarrow> string \<Rightarrow> job \<Rightarrow> queue \<Rightarrow> job_error + queue" where
  "screen_row env now j q = map_res snd (finish_job env q j JS_STALE now ''recombination_authority_changed'')"

definition context_stale :: "job_env \<Rightarrow> job \<Rightarrow> bool" where
  "context_stale env j \<longleftrightarrow> context_current env j = Inr False"

lemma screen_split:
  "screen_jobs env now js q = Inr (ks, q') \<Longrightarrow> ks = filter (\<lambda>j. context_current env j = Inr True) js
     \<and> each_row (screen_row env now) (filter (context_stale env) js) q = Inr q'"
proof (induction js arbitrary: q ks)
  case (Cons j js)
  obtain ok where "context_current env j = Inr ok" using Cons.prems by (auto simp: bind_res_Inr)
  then show ?case using Cons by (cases ok) (auto simp: bind_res_Inr map_res_Inr screen_row_def context_stale_def)
qed simp

lemma screen_jobs_run:
  assumes "screen_jobs env now (jobs_where C q) q = Inr (ks, q')" "same_authority a env" "keyed_jobs q"
    "\<And>j. C j \<Longrightarrow> jb_state j = JS_QUEUED"
  shows "queue_run a q q' \<and> jq_jobs q' = map (\<lambda>k. if C k \<and> context_stale env k then stale_row now k else k) (jq_jobs q)
    \<and> keyed_jobs q' \<and> jq_closures q' = jq_closures q"
proof (rule each_row_where)
  show "job_key_of (stale_row now r) = job_key_of r" for r by (simp add: stale_row_def)
  show "each_row (screen_row env now) (jobs_where (\<lambda>k. C k \<and> context_stale env k) q) q = Inr q'"
    using screen_split [OF assms(1)] by (simp add: jobs_where_def conj_commute)
  show "keyed_jobs q" by fact
  fix r s s'
  assume r: "screen_row env now r s = Inr s'" "C r \<and> context_stale env r" "find_job s (jb_id r) (jb_revision r) = Some r"
  then obtain k where "finish_job env s r JS_STALE now ''recombination_authority_changed'' = Inr (k, s')"
    by (auto simp: screen_row_def map_res_Inr)
  from finish_job_step [OF this assms(2) r(3)] assms(4) r(2)
  show "queue_run a s s' \<and> jq_jobs s' = replaced (stale_row now r) (jq_jobs s) \<and> jq_closures s' = jq_closures s"
    by (simp add: stale_row_def)
qed

lemma count_map:
  assumes "jq_jobs q' = map h (jq_jobs q)" "\<And>k. k \<in> set (jq_jobs q) \<Longrightarrow> P (h k) \<longleftrightarrow> P k"
  shows "count_jobs P q' = count_jobs P q"
proof -
  have "length (filter P (map h js)) = length (filter P js)" if "\<forall>k \<in> set js. P (h k) \<longleftrightarrow> P k" for js
    using that by (induction js) auto
  then show ?thesis using assms by (simp add: count_jobs_def)
qed

lemma screened_leases:
  assumes "jq_jobs q' = map (\<lambda>k. if C k \<and> context_stale env k then stale_row now k else k) (jq_jobs q)"
    "\<And>j. C j \<Longrightarrow> jb_state j = JS_QUEUED"
  shows "count_jobs (\<lambda>k. jb_lane k = lane \<and> jb_state k = JS_LEASED) q' = count_jobs (\<lambda>k. jb_lane k = lane \<and> jb_state k = JS_LEASED) q"
    "gpu_leased q' = gpu_leased q"
proof -
  show "count_jobs (\<lambda>k. jb_lane k = lane \<and> jb_state k = JS_LEASED) q' = count_jobs (\<lambda>k. jb_lane k = lane \<and> jb_state k = JS_LEASED) q"
    using assms(2) by (intro count_map [OF assms(1)]) (auto simp: stale_row_def row_defs)
  have "list_ex (\<lambda>j. jb_state j = JS_LEASED \<and> jb_resource j = JR_LOCAL_GPU) (map (\<lambda>k. if C k \<and> context_stale env k then stale_row now k else k) js)
      = list_ex (\<lambda>j. jb_state j = JS_LEASED \<and> jb_resource j = JR_LOCAL_GPU) js" for js
    using assms(2) by (induction js) (auto simp: stale_row_def row_defs)
  then show "gpu_leased q' = gpu_leased q" by (simp add: gpu_leased_def assms(1))
qed

subsection \<open>The claims\<close>

lemma claim_checks_Inr: "claim_checks w c d = Inr now \<longleftrightarrow> machine_token_ok w \<and> 0 < d \<and> d \<le> 600000 \<and> now = c \<and> utc_ok c"
  by (auto simp: claim_checks_def result_simps)

lemma leased_step:
  assumes "lease_job env q j w now d = Inr (k, q')" "same_authority a env" "find_job q (jb_id j) (jb_revision j) = Some j"
    "utc_ok now" "0 < d" "jb_state j = JS_QUEUED" "jb_not_before j = Some b" "b \<le> now" "now < jb_deadline j"
    "manifest_lane (je_capacity env) (jb_lane j) = Some l"
    "count_jobs (\<lambda>k. jb_lane k = jb_lane j \<and> jb_state k = JS_LEASED) q < lc_max_leased l"
    "\<not> (gpu_leased q \<and> jb_resource j = JR_LOCAL_GPU)"
  shows "queue_step a q q'"
proof -
  obtain e where e: "move ''leased'' now j k" "append_history env (put_job q k) ''leased'' (Some (jb_state j)) k now = Inr q'"
    using lease_job_Inr [OF assms(1,4-9)] by metis
  have "manifest_lane (je_capacity a) (jb_lane j) = Some l" using assms(2,10) by (simp add: same_authority_def)
  then show ?thesis using queue_step.leased [OF assms(2,3) e(1) assms(11) _ assms(12) e(2)] by simp
qed

lemma claimable_queued: "claimable q lane now j \<Longrightarrow> jb_state j = JS_QUEUED"
  by (simp add: claimable_def)

text \<open>What a claim does, in the terms its callers can rely on.\<close>

lemma claim_job_cases:
  assumes "claim_job env q lane w clock d = Inr (c, q')" "same_authority a env" "keyed_jobs q"
  obtains q1 where "reconcile_for_claim env q clock = Inr q1" "utc_ok clock" "0 < d" "d \<le> 600000" "machine_token_ok w" "queue_run a q q'"
    "c = None" "jq_jobs q' = jq_jobs q1 \<or> jq_jobs q' = map (\<lambda>k. if claimable q1 lane clock k \<and> context_stale env k then stale_row clock k else k) (jq_jobs q1)"
  | q1 q2 j k where "reconcile_for_claim env q clock = Inr q1" "utc_ok clock" "0 < d" "d \<le> 600000" "machine_token_ok w" "queue_run a q q'"
    "c = Some k" "jq_jobs q2 = map (\<lambda>k. if claimable q1 lane clock k \<and> context_stale env k then stale_row clock k else k) (jq_jobs q1)"
    "j = arg_min_list (claim_rank env clock) (filter (\<lambda>j. \<not> (gpu_leased q1 \<and> jb_resource j = JR_LOCAL_GPU))
        (filter (\<lambda>j. context_current env j = Inr True) (jobs_where (claimable q1 lane clock) q1)))"
    "j \<in> set (filter (\<lambda>j. \<not> (gpu_leased q1 \<and> jb_resource j = JR_LOCAL_GPU))
        (filter (\<lambda>j. context_current env j = Inr True) (jobs_where (claimable q1 lane clock) q1)))"
    "lease_job env q2 j w clock d = Inr (k, q')" "find_job q2 (jb_id j) (jb_revision j) = Some j" "queue_run a q q2" "keyed_jobs q2"
    "jq_jobs q' = replaced k (jq_jobs q2)" "find_job q1 (jb_id j) (jb_revision j) = Some j"
proof -
  obtain q1 load dec where ck: "machine_token_ok w" "0 < d" "d \<le> 600000" "utc_ok clock"
    and q1: "reconcile_for_claim env q clock = Inr q1"
    and load: "queue_load_of q1 lane = Inr load"
    and dec: "decide_admission (je_capacity env) lane JP_IMMINENT_FIELD load True False = Inr dec"
    and rest: "(if \<not> ad_admitted dec then Inr (None, q1) else
     let rows = jobs_where (claimable q1 lane clock) q1 in
     if rows = [] then Inr (None, q1) else
     bind_res (screen_jobs env clock rows q1) (\<lambda>(current, q2).
     let eligible = filter (\<lambda>j. \<not> (gpu_leased q1 \<and> jb_resource j = JR_LOCAL_GPU)) current in
     if eligible = [] then Inr (None, q2)
     else map_res (\<lambda>(j, q3). (Some j, q3)) (lease_job env q2 (arg_min_list (claim_rank env clock) eligible) w clock d))) = Inr (c, q')"
    using assms(1) by (auto simp: claim_job_def bind_res_Inr claim_checks_Inr job_wrap_Inr)
  note rec = reconcile_pointwise [OF q1 assms(2,3)]
  let ?rows = "jobs_where (claimable q1 lane clock) q1"
  show thesis
  proof (cases "\<not> ad_admitted dec \<or> ?rows = []")
    case True
    then have "c = None" "q' = q1" using rest by (auto simp: Let_def split: if_splits)
    then show thesis using that(1) q1 ck rec(1) by blast
  next
    case False
    then obtain cur q2 where sc: "screen_jobs env clock ?rows q1 = Inr (cur, q2)"
      and r2: "(let eligible = filter (\<lambda>j. \<not> (gpu_leased q1 \<and> jb_resource j = JR_LOCAL_GPU)) cur in
        if eligible = [] then Inr (None, q2)
        else map_res (\<lambda>(j, q3). (Some j, q3)) (lease_job env q2 (arg_min_list (claim_rank env clock) eligible) w clock d)) = Inr (c, q')"
      using rest by (auto simp: Let_def bind_res_Inr)
    have scr: "queue_run a q1 q2 \<and> jq_jobs q2 = map (\<lambda>k. if claimable q1 lane clock k \<and> context_stale env k then stale_row clock k else k) (jq_jobs q1)
      \<and> keyed_jobs q2 \<and> jq_closures q2 = jq_closures q1"
      by (rule screen_jobs_run [OF sc assms(2) rec(3) claimable_queued])
    have cur: "cur = filter (\<lambda>j. context_current env j = Inr True) ?rows" using screen_split [OF sc] by simp
    let ?el = "filter (\<lambda>j. \<not> (gpu_leased q1 \<and> jb_resource j = JR_LOCAL_GPU)) cur"
    have run2: "queue_run a q q2" using rec(1) scr by (auto intro: queue_run_trans)
    show thesis
    proof (cases "?el = []")
      case True
      then have "c = None" "q' = q2" using r2 by (auto simp: Let_def)
      then show thesis using that(1) q1 ck run2 scr by blast
    next
      case el: False
      let ?j = "arg_min_list (claim_rank env clock) ?el"
      obtain k where k: "c = Some k" and lj: "lease_job env q2 ?j w clock d = Inr (k, q')"
        using r2 el by (auto simp: Let_def map_res_Inr)
      have jin: "?j \<in> set ?el" using el by (rule arg_min_list_in)
      then have j: "?j \<in> set (jq_jobs q1)" "claimable q1 lane clock ?j" "context_current env ?j = Inr True"
        "\<not> (gpu_leased q1 \<and> jb_resource ?j = JR_LOCAL_GPU)" by (auto simp: cur jobs_where_def)
      have "?j \<in> set (jq_jobs q2)" using j scr by (force simp: context_stale_def)
      then have f: "find_job q2 (jb_id ?j) (jb_revision ?j) = Some ?j" "find_job q1 (jb_id ?j) (jb_revision ?j) = Some ?j"
        using scr rec(3) j(1) by (simp_all add: find_job_iff)
      obtain b where b: "jb_not_before ?j = Some b" "b \<le> clock" "clock < jb_deadline ?j" "jb_state ?j = JS_QUEUED" "jb_lane ?j = lane"
        using j(2) by (auto simp: claimable_def split: option.splits)
      obtain l where l: "manifest_lane (je_capacity env) lane = Some l" "ql_lane_leased load < lc_max_leased l"
        using claim_decision [OF dec] False by auto
      have cnt: "count_jobs (\<lambda>k. jb_lane k = lane \<and> jb_state k = JS_LEASED) q2 < lc_max_leased l" "gpu_leased q2 = gpu_leased q1"
        using screened_leases [where q' = q2 and C = "claimable q1 lane clock" and env = env and now = clock and q = q1]
          scr claimable_queued l(2) queue_load_Inr [OF load] by auto
      have "queue_step a q2 q'"
        using leased_step [OF lj assms(2) f(1) ck(4,2) b(4,1,2,3)] l(1) cnt j(4) b(5) by simp
      then have run: "queue_run a q q'" using run2 by (rule rtranclp.rtrancl_into_rtrancl [rotated])
      have "jq_jobs q' = replaced k (jq_jobs q2)" using lease_job_Inr [OF lj ck(4,2) b(4,1,2,3)] by metis
      then show thesis using that(2) [OF q1 ck(4,2,3,1) run k _ _ _ lj f(1) run2 _ _ f(2)] scr jin by (simp add: cur)
    qed
  qed
qed

end
