(* ===== verification/Job_Calls.thy ===== *)
theory Job_Calls
  imports Job_Simulation
begin

section \<open>The calls of the repository\<close>

text \<open>
  The rest of the simulation: the exact claim, the calls under a lease, enqueueing and cancellation
  are runs of moves. \<open>queue_call\<close> is one successful call of the repository by any client, or a write
  of another component (closing an epoch, refreshing the restart checkpoint); a run of the system is
  any number of them, interleaved as the transactions commit. A failed call changes nothing.
\<close>

subsection \<open>The exact claim\<close>

lemma claim_exact_run:
  assumes "claim_exact env q jid rv w clock d = Inr (c, q')" "same_authority a env" "keyed_jobs q"
  shows "queue_run a q q'"
proof -
  obtain q1 j where ck: "0 < d" "utc_ok clock" and q1: "reconcile_for_claim env q clock = Inr q1" and j: "get_job q1 jid rv = Inr j"
    and rest: "(if jb_state j \<noteq> JS_QUEUED then Inr (None, q1)
     else if (case jb_not_before j of None \<Rightarrow> True | Some b \<Rightarrow> clock < b) then Inr (None, q1)
     else if jb_deadline j \<le> clock then Inr (None, q1) else
     bind_res (queue_load_of q1 (jb_lane j)) (\<lambda>load.
     bind_res (job_capacity (decide_admission (je_capacity env) (jb_lane j) (jb_priority j) load True False)) (\<lambda>decision.
     if \<not> ad_admitted decision then Inr (None, q1) else
     bind_res (context_current env j) (\<lambda>ok.
     if \<not> ok then map_res (\<lambda>(_, q2). (None, q2)) (finish_job env q1 j JS_STALE clock ''recombination_authority_changed'')
     else if jb_resource j = JR_LOCAL_GPU \<and> gpu_leased q1 then Inr (None, q1)
     else map_res (\<lambda>(k, q2). (Some k, q2)) (lease_job env q1 j w clock d))))) = Inr (c, q')"
    using assms(1) by (auto simp: claim_exact_def bind_res_Inr claim_checks_Inr)
  have r1: "queue_run a q q1" by (rule reconcile_pointwise [OF q1 assms(2,3)])
  have f: "find_job q1 (jb_id j) (jb_revision j) = Some j" using j by (auto simp: get_job_Inr dest: find_job_key)
  show ?thesis
  proof (cases "q' = q1")
    case False
    have "jb_state j = JS_QUEUED \<and> (\<exists>b. jb_not_before j = Some b \<and> b \<le> clock) \<and> clock < jb_deadline j"
      using rest False by (cases "jb_not_before j") (simp_all add: not_le not_less split: if_splits)
    then obtain b where s: "jb_state j = JS_QUEUED" "jb_not_before j = Some b" "b \<le> clock" "clock < jb_deadline j" by blast
    let ?last = "\<lambda>ok. if \<not> ok then map_res (\<lambda>(_, q2). (None, q2)) (finish_job env q1 j JS_STALE clock ''recombination_authority_changed'')
         else if jb_resource j = JR_LOCAL_GPU \<and> gpu_leased q1 then Inr (None, q1)
         else map_res (\<lambda>(k, q2). (Some k, q2)) (lease_job env q1 j w clock d)"
    have "bind_res (queue_load_of q1 (jb_lane j)) (\<lambda>load.
        bind_res (job_capacity (decide_admission (je_capacity env) (jb_lane j) (jb_priority j) load True False)) (\<lambda>decision.
        if \<not> ad_admitted decision then Inr (None, q1) else bind_res (context_current env j) ?last)) = Inr (c, q')"
      using rest by (simp only: s(1,2) option.case not_less [THEN iffD2, OF s(3)] not_le [THEN iffD2, OF s(4)] simp_thms if_False)
    then obtain load dec where load: "queue_load_of q1 (jb_lane j) = Inr load"
      and dec1: "decide_admission (je_capacity env) (jb_lane j) (jb_priority j) load True False = Inr dec"
      and inner: "(if \<not> ad_admitted dec then Inr (None, q1) else bind_res (context_current env j) ?last) = Inr (c, q')"
      unfolding bind_res_Inr job_wrap_Inr by blast
    have dec: "decide_admission (je_capacity env) (jb_lane j) (jb_priority j) load True False = Inr dec" "ad_admitted dec"
      using dec1 inner False by (auto split: if_splits)
    then have "bind_res (context_current env j) ?last = Inr (c, q')" using inner by simp
    then obtain ok where ok: "(if \<not> ok then map_res (\<lambda>(_, q2). (None, q2)) (finish_job env q1 j JS_STALE clock ''recombination_authority_changed'')
         else if jb_resource j = JR_LOCAL_GPU \<and> gpu_leased q1 then Inr (None, q1)
         else map_res (\<lambda>(k, q2). (Some k, q2)) (lease_job env q1 j w clock d)) = Inr (c, q')"
      unfolding bind_res_Inr by blast
    show ?thesis
    proof (cases ok)
      case True
      then obtain k where lj: "lease_job env q1 j w clock d = Inr (k, q')" and g: "\<not> (gpu_leased q1 \<and> jb_resource j = JR_LOCAL_GPU)"
        using ok False by (auto simp: map_res_Inr split: if_splits)
      obtain l where l: "manifest_lane (je_capacity env) (jb_lane j) = Some l" "ql_lane_leased load < lc_max_leased l"
        using claim_decision [OF dec] by blast
      have "queue_step a q1 q'"
        using leased_step [OF lj assms(2) f ck(2,1) s l(1) _ g] l(2) queue_load_Inr [OF load] by simp
      then show ?thesis using r1 by (rule rtranclp.rtrancl_into_rtrancl [rotated])
    next
      case False
      then obtain k where "finish_job env q1 j JS_STALE clock ''recombination_authority_changed'' = Inr (k, q')"
        using ok by (auto simp: map_res_Inr)
      from finish_job_step(1) [OF this assms(2) f] s(1) have "queue_run a q1 q'" by simp
      with r1 show ?thesis by (rule queue_run_trans)
    qed
  qed (use r1 in simp)
qed

subsection \<open>Enqueueing\<close>

lemma enqueue_step:
  assumes "enqueue env q r s = Inr (j, q')" "mk_job_request r = Inr r" "same_authority a env"
  shows "queue_run a q q'"
proof (cases "find (\<lambda>j. jb_key j = jr_key r) (jq_jobs q)")
  case None
  then obtain q1 where "find_job q (jr_job_id r) (jr_revision r) = None" "admit_request env q r s = Inr ()"
    "install_job_spec env (q\<lparr>jq_jobs := jq_jobs q @ [queued_job r]\<rparr>) (queued_job r) = Inr q1"
    "append_history env q1 ''queued'' None (queued_job r) (jr_created r) = Inr q'"
    using assms(1) by (auto simp: enqueue_def bind_res_Inr map_res_Inr Let_def result_simps simp del: guards.simps)
  moreover have "\<forall>j \<in> set (jq_jobs q). jb_key j \<noteq> jr_key r" using None by (auto simp: find_None_iff)
  ultimately have "queue_step a q q'" using queue_step.enqueued [OF assms(3,2)] by blast
  then show ?thesis ..
next
  case (Some k)
  then have "q' = q" using assms(1) by (auto simp: enqueue_def bind_res_Inr map_res_Inr)
  then show ?thesis by simp
qed

subsection \<open>Calls under a lease\<close>

lemma heartbeat_run:
  assumes "heartbeat env q jid rv w token now d = Inr (k, q')" "same_authority a env"
  shows "queue_run a q q'"
proof -
  obtain j e where ck: "utc_ok now" "0 < d" and l: "require_lease q jid rv w token now = Inr j"
    and e: "lease_end now d (jb_deadline j) = Inr e"
    and m: "move_job env q ''heartbeat'' j (j\<lparr>jb_expires := Some e, jb_updated := now\<rparr>) now = Inr (k, q')"
    using assms(1) by (auto simp: heartbeat_def bind_res_Inr job_checks_Inr)
  have h: "holds_lease j now" and f: "find_job q (jb_id j) (jb_revision j) = Some j"
    using l by (auto simp: require_lease_Inr dest: find_job_key)
  then have "now < jb_deadline j" by (simp add: holds_lease_def)
  note b = lease_end_Inr [OF e ck this]
  show ?thesis by (rule move_job_step [OF m assms(2) f move.beat [OF h b]]) simp
qed

lemma leased_finish_run:
  assumes "require_lease q jid rv w token now = Inr j" "finish_job env q j t now r = Inr (k, q')" "same_authority a env"
  shows "queue_run a q q'"
  using finish_job_step(1) [OF assms(2,3)] assms(1) by (auto simp: require_lease_Inr dest: find_job_key)

lemma terminal_from_lease_run:
  assumes "terminal_from_lease env q jid rv w token now t r = Inr (k, q')" "same_authority a env"
  shows "queue_run a q q'"
  using assms leased_finish_run by (auto simp: terminal_from_lease_def bind_res_Inr job_checks_Inr)

lemma record_failure_run:
  assumes "record_failure env q jid rv w token now kind r p audit = Inr (k, q')" "same_authority a env"
  shows "queue_run a q q'"
proof -
  obtain j where l: "require_lease q jid rv w token now = Inr j"
    and "(\<exists>t s. finish_job env q j t now s = Inr (k, q'))
      \<or> (\<exists>lim nb. min (jb_max_attempts j) lim > jb_attempts j \<and> nb < jb_deadline j
          \<and> move_job env q ''retryable-failed'' j (retryable_job j nb r now) now = Inr (k, q'))"
    using assms(1) by (auto simp: record_failure_def bind_res_Inr job_checks_Inr not_le simp del: guards.simps split: if_splits option.splits)
  then show ?thesis
  proof (elim disjE exE conjE)
    fix t s assume "finish_job env q j t now s = Inr (k, q')"
    from leased_finish_run [OF l this assms(2)] show ?thesis .
  next
    fix lim nb assume a: "min (jb_max_attempts j) lim > jb_attempts j" "nb < jb_deadline j"
      and m: "move_job env q ''retryable-failed'' j (retryable_job j nb r now) now = Inr (k, q')"
    have h: "holds_lease j now" and f: "find_job q (jb_id j) (jb_revision j) = Some j"
      using l by (auto simp: require_lease_Inr dest: find_job_key)
    have "jb_attempts j < jb_max_attempts j" using a(1) by simp
    from move_job_step [OF m assms(2) f move.retry [OF h this a(2)]] show ?thesis by simp
  qed
qed

lemma insert_publication_frame:
  assumes "insert_publication env q j res now = Inr q'"
  shows "jq_jobs q' = jq_jobs q" "jq_history q' = jq_history q" "jq_specs q' = jq_specs q" "jq_closures q' = jq_closures q"
    "\<exists>p. jq_publications q' = jq_publications q @ [p] \<and> pu_id p = jb_id j \<and> pu_revision p = jb_revision j \<and> pu_fence p = jb_fence j
      \<and> pu_result p = res \<and> (jb_id j, jb_revision j) \<notin> set (map (\<lambda>p. (pu_id p, pu_revision p)) (jq_publications q))"
  using assms by (auto simp: insert_publication_def bind_res_Inr map_res_Inr result_simps)

lemma commit_success_run:
  assumes "commit_success env q jid rv w token res hooks clock = Inr (k, q')" "same_authority a env"
  shows "queue_run a q q'"
proof -
  obtain seen where "get_job q jid rv = Inr seen" using assms(1) by (auto simp: commit_success_def bind_res_Inr)
  show ?thesis
  proof (cases "jb_state seen = JS_SUCCEEDED")
    case True
    then have "q' = q" using assms(1) \<open>get_job q jid rv = Inr seen\<close> by (auto simp: commit_success_def bind_res_Inr map_res_Inr)
    then show ?thesis by simp
  next
    case False
    then obtain j where l: "require_lease q jid rv w token clock = Inr j"
      and "(\<exists>t s. finish_job env q j t clock s = Inr (k, q')) \<or> move_job env q ''cancelled'' j (cancelled_job j clock ''epoch_closed'') clock = Inr (k, q')
        \<or> (\<exists>q1. insert_publication env q j res clock = Inr q1 \<and> move_job env q1 ''succeeded'' j (succeeded_job j res clock) clock = Inr (k, q'))"
      using assms(1) \<open>get_job q jid rv = Inr seen\<close>
      by (auto simp: commit_success_def bind_res_Inr job_checks_Inr split: if_splits prod.splits)
    moreover have h: "holds_lease j clock" "active_state (jb_state j)" and f: "find_job q (jb_id j) (jb_revision j) = Some j"
      using l by (auto simp: require_lease_Inr holds_lease_def active_state_def dest: find_job_key)
    ultimately show ?thesis
    proof (elim disjE exE conjE)
      fix t s assume "finish_job env q j t clock s = Inr (k, q')"
      from leased_finish_run [OF l this assms(2)] show ?thesis .
    next
      assume m: "move_job env q ''cancelled'' j (cancelled_job j clock ''epoch_closed'') clock = Inr (k, q')"
      show ?thesis by (rule move_job_step [OF m assms(2) f move.cancelled [OF h(2)]]) simp
    next
      fix q1 assume p: "insert_publication env q j res clock = Inr q1" "move_job env q1 ''succeeded'' j (succeeded_job j res clock) clock = Inr (k, q')"
      have "queue_step a q q'" using queue_step.published [OF assms(2) f h(1) p(1)] p(2) by (simp add: move_job_Inr)
      then show ?thesis ..
    qed
  qed
qed

subsection \<open>Cancellation\<close>

lemma cancel_job_run:
  assumes "cancel_job env q jid rv now r = Inr (k, q')" "same_authority a env"
  shows "queue_run a q q'"
proof -
  obtain j where j: "get_job q jid rv = Inr j" "active_state (jb_state j)"
    and m: "move_job env q ''cancelled'' j (cancelled_job j now r) now = Inr (k, q')"
    using assms(1) by (auto simp: cancel_job_def bind_res_Inr job_checks_Inr result_simps simp del: guards.simps)
  have "find_job q (jb_id j) (jb_revision j) = Some j" using j(1) by (auto simp: get_job_Inr dest: find_job_key)
  from move_job_step [OF m assms(2) this move.cancelled [OF j(2)]] show ?thesis by simp
qed

lemma each_row_map: "each_row f (map g rs) s = each_row (\<lambda>r. f (g r)) rs s"
proof (induction rs arbitrary: s)
  case (Cons r rs)
  then have "each_row f (map g rs) = each_row (\<lambda>r. f (g r)) rs" by (rule ext)
  then show ?case by simp
qed simp

lemma cancel_closed_run:
  assumes "cancel_closed_rolling_jobs env q = Inr (js, q')" "same_authority a env" "keyed_jobs q"
  shows "queue_run a q q'"
proof -
  let ?rs = "sort_key (\<lambda>j. (jb_created j, jb_id j, jb_revision j)) (jobs_where (\<lambda>j. active_state (jb_state j) \<and> closed_at q j \<noteq> None) q)"
  let ?g = "\<lambda>j. cancelled_job j (the (closed_at q j)) ''epoch_closed''"
  have e: "each_row (\<lambda>j. sweep_job env (j, the (closed_at q j))) ?rs q = Inr q'"
    using assms(1) by (auto simp: cancel_closed_rolling_jobs_def bind_res_Inr map_res_Inr swept_rows_def each_row_map)
  have d: "distinct (map job_key_of ?rs)"
    using assms(3) by (simp add: keyed_jobs_def jobs_where_def distinct_map inj_on_def)
  have f: "\<forall>r \<in> set ?rs. find_job q (jb_id r) (jb_revision r) = Some r"
    using assms(3) by (auto simp: find_job_iff jobs_where_def)
  have "queue_run a s s' \<and> jq_jobs s' = replaced (?g r) (jq_jobs s) \<and> jq_closures s' = jq_closures s"
    if r: "sweep_job env (r, the (closed_at q r)) s = Inr s'" "r \<in> set ?rs" "find_job s (jb_id r) (jb_revision r) = Some r" for r s s'
  proof -
    obtain k where m: "move_job env s ''cancelled'' r (?g r) (the (closed_at q r)) = Inr (k, s')"
      using r(1) by (auto simp: sweep_job_def map_res_Inr)
    have "active_state (jb_state r)" using r(2) by (simp add: jobs_where_def)
    from move_job_step [OF m assms(2) r(3) move.cancelled [OF this]] move_job_jobs [OF m] show ?thesis by simp
  qed
  then show ?thesis using each_row_run [OF _ _ e d f, where a = a and g = ?g] by simp
qed

subsection \<open>Runs of the system\<close>

text \<open>A job repository is created with one capacity manifest and one key; clients pass their own
  arguments, clocks and hooks.\<close>

inductive queue_call :: "job_env \<Rightarrow> queue \<Rightarrow> queue \<Rightarrow> bool" for a where
  enqueue: "same_authority a env \<Longrightarrow> mk_job_request r = Inr r \<Longrightarrow> enqueue env q r s = Inr (j, q') \<Longrightarrow> queue_call a q q'"
| claim: "same_authority a env \<Longrightarrow> claim_job env q lane w t d = Inr (c, q') \<Longrightarrow> queue_call a q q'"
| claim_exact: "same_authority a env \<Longrightarrow> claim_exact env q jid rv w t d = Inr (c, q') \<Longrightarrow> queue_call a q q'"
| heartbeat: "same_authority a env \<Longrightarrow> heartbeat env q jid rv w token t d = Inr (j, q') \<Longrightarrow> queue_call a q q'"
| commit_success: "same_authority a env \<Longrightarrow> commit_success env q jid rv w token res hooks t = Inr (j, q') \<Longrightarrow> queue_call a q q'"
| record_failure: "same_authority a env \<Longrightarrow> record_failure env q jid rv w token t kind r p audit = Inr (j, q') \<Longrightarrow> queue_call a q q'"
| mark_invalid: "same_authority a env \<Longrightarrow> mark_invalid env q jid rv w token t r = Inr (j, q') \<Longrightarrow> queue_call a q q'"
| mark_stale: "same_authority a env \<Longrightarrow> mark_stale env q jid rv w token t r = Inr (j, q') \<Longrightarrow> queue_call a q q'"
| mark_permanent_failure: "same_authority a env \<Longrightarrow> mark_permanent_failure env q jid rv w token t r = Inr (j, q') \<Longrightarrow> queue_call a q q'"
| cancel: "same_authority a env \<Longrightarrow> cancel_job env q jid rv t r = Inr (j, q') \<Longrightarrow> queue_call a q q'"
| cancel_closed: "same_authority a env \<Longrightarrow> cancel_closed_rolling_jobs env q = Inr (js, q') \<Longrightarrow> queue_call a q q'"
| elsewhere: "queue_call a q (q\<lparr>jq_closures := c, jq_base := b, jq_deltas := d\<rparr>)"

abbreviation queue_calls :: "job_env \<Rightarrow> queue \<Rightarrow> queue \<Rightarrow> bool" where
  "queue_calls a \<equiv> (queue_call a)\<^sup>*\<^sup>*"

lemma queue_call_run:
  assumes "queue_call a q q'" "keyed_jobs q"
  shows "queue_run a q q'"
  using assms
proof (induction rule: queue_call.induct)
  case (claim env q lane w t d c q')
  show ?case by (rule claim_job_cases [OF claim(2,1,3)])
next
  case (elsewhere q c b d)
  have "queue_step a q (q\<lparr>jq_closures := c, jq_base := b, jq_deltas := d\<rparr>)" for c b d by (rule queue_step.elsewhere) simp_all
  then show ?case ..
qed (auto simp: mark_invalid_def mark_stale_def mark_permanent_failure_def intro: enqueue_step claim_exact_run heartbeat_run
    commit_success_run record_failure_run terminal_from_lease_run cancel_job_run cancel_closed_run)

end
