(* ===== verification/Job_Invariants.thy ===== *)
theory Job_Invariants
  imports Job_Calls
begin

section \<open>Invariants of the work queue\<close>

text \<open>
  What every step keeps: the constraints of the table \<open>v3_jobs\<close> (migrations/0005_durable_jobs.sql)
  with the facts about attempts and times that the code relies on, the primary key, the fence that
  only grows, and the budget of attempts that bounds how many transitions a job can record. Each
  is proved for the steps of \<open>Job_Moves\<close> and carried to every run of calls.
\<close>

subsection \<open>The shape of a step\<close>

lemma queue_step_cases [consumes 1, case_names same new moved]:
  assumes "queue_step a q q'"
  obtains "jq_jobs q' = jq_jobs q" "jq_history q' = jq_history q" "jq_publications q' = jq_publications q"
  | r h where "mk_job_request r = Inr r" "find_job q (jr_job_id r) (jr_revision r) = None" "jq_jobs q' = jq_jobs q @ [queued_job r]"
    "jq_history q' = jq_history q @ [h]" "hi_key h = job_key_of (queued_job r)" "hi_operation h = ''queued''"
    "jq_publications q' = jq_publications q"
  | op now j j' h where "find_job q (jb_id j) (jb_revision j) = Some j" "move op now j j'" "jq_jobs q' = replaced j' (jq_jobs q)"
    "jq_history q' = jq_history q @ [h]" "hi_key h = job_key_of j" "hi_operation h = op"
    "if op = ''succeeded'' then \<exists>p. jq_publications q' = jq_publications q @ [p] \<and> (pu_id p, pu_revision p) = job_key_of j
        \<and> pu_fence p = jb_fence j' \<and> jb_result j' = Some (pu_result p)
      else jq_publications q' = jq_publications q"
  using assms
proof (cases rule: queue_step.cases)
  case (enqueued env r s q1)
  note f = append_history_frame [OF enqueued(7)]
  obtain h where "jq_history q' = jq_history q1 @ [h]" "hi_key h = job_key_of (queued_job r)" "hi_operation h = ''queued''"
    using append_history_row [OF enqueued(7)] by blast
  moreover have "jq_jobs q1 = jq_jobs q @ [queued_job r]" "jq_history q1 = jq_history q" "jq_publications q1 = jq_publications q"
    using enqueued(6) by (auto simp: install_job_spec_def bind_res_Inr map_res_Inr)
  ultimately show thesis using that(2) [OF enqueued(2,4)] f by simp
next
  case (moved env j op now j')
  obtain h where h: "jq_history q' = jq_history q @ [h]" "hi_key h = job_key_of j'" "hi_operation h = op"
    using append_history_row [OF moved(6)] by auto
  show thesis
    by (rule that(3) [OF moved(2,3) _ h(1)]) (use append_history_frame [OF moved(6)] moved(4) h fixed_fields(1) [OF move_fixed [OF moved(3)]]
      in \<open>simp_all add: put_job_def replaced_def\<close>)
next
  case (leased env j now j' l)
  obtain h where h: "jq_history q' = jq_history q @ [h]" "hi_key h = job_key_of j'" "hi_operation h = ''leased''"
    using append_history_row [OF leased(7)] by auto
  show thesis
    by (rule that(3) [OF leased(2,3) _ h(1)]) (use append_history_frame [OF leased(7)] h fixed_fields(1) [OF move_fixed [OF leased(3)]]
      in \<open>simp_all add: put_job_def replaced_def\<close>)
next
  case (published env j now res q1)
  obtain h where h: "jq_history q' = jq_history q1 @ [h]" "hi_key h = job_key_of j" "hi_operation h = ''succeeded''"
    using append_history_row [OF published(5)] by auto
  note p = insert_publication_frame [OF published(4)]
  have "jq_history q' = jq_history q @ [h]" using h(1) p(2) by simp
  then show thesis
    by (rule that(3) [OF published(2) move.succeeded [OF published(3)], rotated])
      (use append_history_frame [OF published(5)] h p in \<open>auto simp: put_job_def replaced_def job_key_of_def row_defs\<close>)
qed

lemma replaced_member: "k \<in> set (replaced j js) \<Longrightarrow> k = j \<or> k \<in> set js"
  by (auto simp: replaced_def)

lemma queued_job_key [simp]: "job_key_of (queued_job r) = (jr_job_id r, jr_revision r)"
  by (simp add: queued_job_def job_key_of_def)

lemma find_append: "find P (xs @ ys) = (case find P xs of None \<Rightarrow> find P ys | Some x \<Rightarrow> Some x)"
  by (induction xs) auto

lemma step_keyed: "queue_step a q q' \<Longrightarrow> keyed_jobs q \<Longrightarrow> keyed_jobs q'"
  by (cases rule: queue_step_cases) (fastforce simp: keyed_jobs_def find_job_def find_None_iff)+

lemma run_keyed: "queue_run a q q' \<Longrightarrow> keyed_jobs q \<Longrightarrow> keyed_jobs q'"
  by (induction rule: rtranclp_induct) (auto intro: step_keyed)

text \<open>Everything the steps keep, every run of calls keeps.\<close>

lemma calls_run: "queue_calls a q q' \<Longrightarrow> keyed_jobs q \<Longrightarrow> queue_run a q q' \<and> keyed_jobs q'"
proof (induction rule: rtranclp_induct)
  case (step q1 q2)
  then have "queue_run a q1 q2" by (blast intro: queue_call_run)
  with step show ?case by (blast intro: run_keyed queue_run_trans)
qed simp

subsection \<open>The constraints of a row\<close>

text \<open>The CHECK constraints of the table, column by column. Those of the columns whose values the code
  draws from an enum are the closed ones: the table compares strings and a number.\<close>

definition closed_columns :: "job \<Rightarrow> bool" where
  "closed_columns j \<longleftrightarrow>
     job_lane_value (jb_lane j) \<in> {''hot_field'', ''inference'', ''lookup_recovery'', ''maintenance''}
     \<and> job_resource_class_value (jb_resource j) \<in> {''local_cpu'', ''local_gpu'', ''cloud'', ''storage_io''}
     \<and> 1 \<le> priority_value (jb_priority j) \<and> priority_value (jb_priority j) \<le> 1000
     \<and> job_state_value (jb_state j) \<in> {''queued'', ''leased'', ''succeeded'', ''invalid'', ''stale'', ''cancelled'',
          ''retryable-failed'', ''permanent-failed''}"

definition row_checks :: "job \<Rightarrow> bool" where
  "row_checks j \<longleftrightarrow> 0 < jb_revision j \<and> closed_columns j \<and> length (utf8 (jb_payload_json j)) \<le> 1048576
     \<and> length (jb_payload_digest j) = 64 \<and> length (jb_evidence j) = 64 \<and> length (jb_bundle j) = 64
     \<and> 0 \<le> jb_attempts j \<and> 1 \<le> jb_max_attempts j \<and> jb_max_attempts j \<le> 32 \<and> 0 \<le> jb_fence j
     \<and> (if jb_state j = JS_LEASED then jb_owner j \<noteq> None \<and> jb_acquired j \<noteq> None \<and> jb_expires j \<noteq> None
        else jb_owner j = None \<and> jb_acquired j = None \<and> jb_expires j = None)
     \<and> (jb_state j = JS_SUCCEEDED \<longleftrightarrow> jb_result j \<noteq> None)"

lemma closed_columns [simp]: "closed_columns j"
  by (cases "jb_lane j"; cases "jb_resource j"; cases "jb_priority j"; cases "jb_state j") (simp_all add: closed_columns_def)

text \<open>What the code relies on beyond them.\<close>

definition row_sound :: "job \<Rightarrow> bool" where
  "row_sound j \<longleftrightarrow> row_checks j \<and> jb_attempts j \<le> jb_max_attempts j
     \<and> (jb_state j \<in> {JS_QUEUED, JS_RETRYABLE_FAILED} \<longrightarrow> jb_attempts j < jb_max_attempts j
          \<and> (\<exists>b. jb_not_before j = Some b \<and> b < jb_deadline j))
     \<and> (jb_state j = JS_LEASED \<longrightarrow> 0 < jb_attempts j \<and> (\<exists>e. jb_expires j = Some e \<and> e \<le> jb_deadline j))
     \<and> jb_attempts j \<le> jb_fence j \<and> (jb_state j = JS_SUCCEEDED \<longrightarrow> 0 < jb_fence j)"

lemma move_sound:
  assumes "move op now j j'" "row_sound j"
  shows "row_sound j'"
  using assms
proof (induction rule: move.induct)
  case (lease j b now e w)
  then show ?case by (auto simp: row_sound_def row_checks_def row_defs)
qed (auto simp: row_sound_def row_checks_def row_defs holds_lease_def lease_expired_def retry_due_def exhausted_def active_state_def
    split: if_splits)

lemma is_digest_length: "is_digest d \<Longrightarrow> length d = 64"
  by (simp add: is_digest_def)

lemma payload_digest_length: "check_payload_json s dg = Inr u \<Longrightarrow> length dg = 64"
  by (auto simp: check_payload_json_def bind_res_Inr result_simps simp del: guards.simps
      dest!: canonical_digest_is_digest is_digest_length)

lemma payload_bytes_bounded: "check_payload_json s dg = Inr u \<Longrightarrow> length (utf8 s) \<le> 1048576"
  by (auto simp: check_payload_json_def bind_res_Inr result_simps job_contract_def canonical_text_Inr default_max_bytes_def
      simp del: guards.simps)

lemma queued_sound: "mk_job_request r = Inr r \<Longrightarrow> row_sound (queued_job r)"
  by (auto simp: mk_job_request_def bind_res_Inr map_res_Inr result_simps row_sound_def row_checks_def queued_job_def is_digest_length
      dest: payload_digest_length payload_bytes_bounded simp del: guards.simps)

definition sound_queue :: "queue \<Rightarrow> bool" where
  "sound_queue q \<longleftrightarrow> keyed_jobs q \<and> (\<forall>j \<in> set (jq_jobs q). row_sound j)"

lemma step_sound: "queue_step a q q' \<Longrightarrow> sound_queue q \<Longrightarrow> sound_queue q'"
proof -
  assume s: "queue_step a q q'" and q: "sound_queue q"
  from s have "\<forall>j \<in> set (jq_jobs q'). row_sound j"
  proof (cases rule: queue_step_cases)
    case (moved op now j j' h)
    then have "row_sound j'" using q move_sound by (auto simp: sound_queue_def dest!: find_job_key)
    then show ?thesis using moved(3) q by (auto simp: sound_queue_def dest: replaced_member)
  qed (use q queued_sound in \<open>auto simp: sound_queue_def\<close>)
  then show ?thesis using step_keyed [OF s] q by (simp add: sound_queue_def)
qed

lemma run_sound: "queue_run a q q' \<Longrightarrow> sound_queue q \<Longrightarrow> sound_queue q'"
  by (induction rule: rtranclp_induct) (auto intro: step_sound)

lemma calls_sound: "queue_calls a q q' \<Longrightarrow> sound_queue q \<Longrightarrow> sound_queue q'"
  using calls_run [of a q q'] run_sound [of a q q'] by (simp add: sound_queue_def)

subsection \<open>What happens to one job\<close>

text \<open>A row never leaves the table; it keeps its specification, its counters only grow, and a row
  that is no longer active is never touched again.\<close>

definition descends :: "job \<Rightarrow> job \<Rightarrow> bool" where
  "descends j k \<longleftrightarrow> fixed_part k = fixed_part j \<and> jb_fence j \<le> jb_fence k \<and> jb_attempts j \<le> jb_attempts k
     \<and> (\<not> active_state (jb_state j) \<longrightarrow> k = j)"

lemma descends_refl [simp]: "descends j j"
  by (simp add: descends_def)

lemma descends_trans: "descends j k \<Longrightarrow> descends k l \<Longrightarrow> descends j l"
  by (auto simp: descends_def)

lemma move_descends: "move op now j j' \<Longrightarrow> descends j j'"
proof -
  assume m: "move op now j j'"
  then have "jb_attempts j \<le> jb_attempts j'" by (induction rule: move.induct) (simp_all add: row_defs)
  then show ?thesis using move_fixed [OF m] move_fence [OF m] move_active [OF m] by (simp add: descends_def)
qed

lemma step_descends:
  assumes "queue_step a q q'" "find_job q jid rv = Some j"
  shows "\<exists>k. find_job q' jid rv = Some k \<and> descends j k"
  using assms(1)
proof (cases rule: queue_step_cases)
  case (moved op now i i' h)
  have "job_key_of i' = job_key_of i" using fixed_fields(1) [OF move_fixed [OF moved(2)]] .
  then show ?thesis using find_job_replaced [OF moved(3), of jid rv] assms(2) moved(1) move_descends [OF moved(2)]
    by (auto simp: job_key_of_def split: if_splits)
qed (use assms(2) in \<open>auto simp: find_job_def find_append split: option.split\<close>)

lemma run_descends:
  assumes "queue_run a q q'" "find_job q jid rv = Some j"
  shows "\<exists>k. find_job q' jid rv = Some k \<and> descends j k"
  using assms
proof (induction rule: rtranclp_induct)
  case (step q1 q2)
  then show ?case by (metis step_descends descends_trans)
qed (auto intro: descends_refl)

lemma calls_descends:
  "queue_calls a q q' \<Longrightarrow> keyed_jobs q \<Longrightarrow> find_job q jid rv = Some j \<Longrightarrow> \<exists>k. find_job q' jid rv = Some k \<and> descends j k"
  using calls_run run_descends by blast

end
