(* ===== verification/Job_Budget.thy ===== *)
theory Job_Budget
  imports Job_Invariants
begin

section \<open>Bounds on what a run of the queue can do\<close>

text \<open>
  The budget of transitions of a job, the correspondence of publications with succeeded rows, and
  the limits on leased work, each an invariant of the steps.
\<close>

subsection \<open>Transitions\<close>

text \<open>How many transitions other than heartbeats a job can still record.\<close>

definition budget :: "job \<Rightarrow> int" where
  "budget j = (if \<not> active_state (jb_state j) then 0
     else 3 * (jb_max_attempts j - jb_attempts j)
       + (case jb_state j of JS_LEASED \<Rightarrow> 3 | JS_RETRYABLE_FAILED \<Rightarrow> 2 | _ \<Rightarrow> 1))"

definition transitions :: "queue \<Rightarrow> job \<Rightarrow> int" where
  "transitions q j = int (length (filter (\<lambda>h. hi_key h = job_key_of j \<and> hi_operation h \<noteq> ''heartbeat'') (jq_history q)))"

lemma budget_nonneg: "row_sound j \<Longrightarrow> 0 \<le> budget j"
  by (auto simp: budget_def row_sound_def split: job_state.split)

lemma move_budget:
  assumes "move op now j j'" "row_sound j"
  shows "if op = ''heartbeat'' then budget j' = budget j else budget j' + 1 \<le> budget j"
  using assms
  by (induction rule: move.induct)
    (auto simp: budget_def row_sound_def row_defs holds_lease_def lease_expired_def retry_due_def active_state_def split: job_state.splits)

definition within_budget :: "queue \<Rightarrow> bool" where
  "within_budget q \<longleftrightarrow> (\<forall>j \<in> set (jq_jobs q). transitions q j + budget j \<le> 3 * jb_max_attempts j + 2)
     \<and> (\<forall>h \<in> set (jq_history q). \<exists>j \<in> set (jq_jobs q). hi_key h = job_key_of j)"

lemma replaced_cover: "\<exists>k \<in> set js. key = job_key_of k \<Longrightarrow> \<exists>k \<in> set (replaced j js). key = job_key_of k"
  using replaced_keys [of j js] by (metis (no_types, lifting) image_iff list.set_map)

lemma transitions_append:
  assumes "jq_history q' = jq_history q @ [h]"
  shows "transitions q' j = transitions q j + (if hi_key h = job_key_of j \<and> hi_operation h \<noteq> ''heartbeat'' then 1 else 0)"
  using assms by (simp add: transitions_def)

lemma step_budget:
  assumes "queue_step a q q'" "sound_queue q" "within_budget q"
  shows "within_budget q'"
  using assms(1)
proof (cases rule: queue_step_cases)
  case same
  then show ?thesis using assms(3) by (simp add: within_budget_def transitions_def)
next
  case (new r h)
  have none: "\<forall>j \<in> set (jq_jobs q). job_key_of j \<noteq> job_key_of (queued_job r)"
    using new(2) by (auto simp: find_job_def find_None_iff)
  then have "filter (\<lambda>h. hi_key h = job_key_of (queued_job r) \<and> hi_operation h \<noteq> ''heartbeat'') (jq_history q) = []"
    using assms(3) by (auto simp: within_budget_def filter_empty_conv)
  then have "transitions q (queued_job r) = 0" unfolding transitions_def by simp
  moreover have "budget (queued_job r) = 3 * jb_max_attempts (queued_job r) + 1"
    by (simp add: budget_def queued_job_def active_state_def)
  ultimately show ?thesis using assms(3) new none transitions_append [OF new(4)]
    by (auto simp: within_budget_def)
next
  case (moved op now j j' h)
  note f = fixed_fields [OF move_fixed [OF moved(2)]]
  have j: "j \<in> set (jq_jobs q)" "row_sound j" using moved(1) assms(2) by (auto simp: sound_queue_def dest!: find_job_key)
  have t: "transitions q' k = transitions q k + (if job_key_of j = job_key_of k \<and> op \<noteq> ''heartbeat'' then 1 else 0)" for k
    using transitions_append [OF moved(4)] moved(5,6) by simp
  have "transitions q k + (if job_key_of j = job_key_of k \<and> op \<noteq> ''heartbeat'' then 1 else 0) + budget k \<le> 3 * jb_max_attempts k + 2"
    if k: "k \<in> set (replaced j' (jq_jobs q))" for k
  proof (cases "job_key_of k = job_key_of j")
    case True
    then have "k = j'" using k f(1) by (auto simp: replaced_def)
    moreover have "transitions q j' = transitions q j" using f(1) by (simp add: transitions_def)
    moreover have "transitions q j + budget j \<le> 3 * jb_max_attempts j + 2" using assms(3) j(1) by (simp add: within_budget_def)
    ultimately show ?thesis using move_budget [OF moved(2) j(2)] f(1,5) by (auto split: if_splits)
  next
    case False
    then have "k \<in> set (jq_jobs q)" using k f(1) by (auto simp: replaced_def)
    then show ?thesis using assms(3) False by (auto simp: within_budget_def)
  qed
  moreover have "\<exists>k \<in> set (replaced j' (jq_jobs q)). hi_key i = job_key_of k" if "i \<in> set (jq_history q')" for i
    by (rule replaced_cover) (use that moved(4,5) j(1) assms(3) in \<open>auto simp: within_budget_def\<close>)
  ultimately show ?thesis by (simp add: within_budget_def moved(3) t)
qed

lemma run_budget: "queue_run a q q' \<Longrightarrow> sound_queue q \<Longrightarrow> within_budget q \<Longrightarrow> within_budget q'"
proof (induction rule: rtranclp_induct)
  case (step q1 q2)
  then show ?case by (blast intro: step_budget run_sound)
qed simp

subsection \<open>Publications\<close>

text \<open>A publication belongs to a succeeded row and carries its fence and its result; there is one for each.\<close>

definition publication_key :: "publication_row \<Rightarrow> job_key" where
  "publication_key p = (pu_id p, pu_revision p)"

definition published_exactly :: "queue \<Rightarrow> bool" where
  "published_exactly q \<longleftrightarrow> distinct (map publication_key (jq_publications q))
     \<and> set (map publication_key (jq_publications q)) = job_key_of ` {j \<in> set (jq_jobs q). jb_state j = JS_SUCCEEDED}
     \<and> (\<forall>p \<in> set (jq_publications q). \<forall>j \<in> set (jq_jobs q). job_key_of j = publication_key p
          \<longrightarrow> pu_fence p = jb_fence j \<and> jb_result j = Some (pu_result p))"

lemma move_succeeded: "move op now j j' \<Longrightarrow> jb_state j' = JS_SUCCEEDED \<longleftrightarrow> op = ''succeeded''"
  by (induction rule: move.induct) (simp_all add: row_defs holds_lease_def)

lemma succeeded_keys_replaced:
  assumes "j \<in> set js" "job_key_of j' = job_key_of j" "distinct (map job_key_of js)" "jb_state j \<noteq> JS_SUCCEEDED"
  shows "job_key_of ` {k \<in> set (replaced j' js). jb_state k = JS_SUCCEEDED}
    = job_key_of ` {k \<in> set js. jb_state k = JS_SUCCEEDED} \<union> (if jb_state j' = JS_SUCCEEDED then {job_key_of j} else {})"
proof -
  have uniq: "k = j" if "k \<in> set js" "job_key_of k = job_key_of j" for k
    using that assms(1,3) by (auto simp: distinct_map inj_on_def)
  then show ?thesis using assms by (auto simp: replaced_def image_iff split: if_splits) (metis assms(2))+
qed

lemma step_published:
  assumes "queue_step a q q'" "keyed_jobs q" "published_exactly q"
  shows "published_exactly q'"
  using assms(1)
proof (cases rule: queue_step_cases)
  case same
  then show ?thesis using assms(3) by (simp add: published_exactly_def)
next
  case (new r h)
  have "\<forall>j \<in> set (jq_jobs q). job_key_of j \<noteq> job_key_of (queued_job r)" using new(2) by (auto simp: find_job_def find_None_iff)
  then have "job_key_of (queued_job r) \<noteq> publication_key p" if "p \<in> set (jq_publications q)" for p
    using assms(3) that by (force simp: published_exactly_def)
  moreover have "{j \<in> set (jq_jobs q'). jb_state j = JS_SUCCEEDED} = {j \<in> set (jq_jobs q). jb_state j = JS_SUCCEEDED}"
    using new(3) by (auto simp: queued_job_def)
  ultimately show ?thesis using assms(3) new(3,7) by (auto simp: published_exactly_def)
next
  case (moved op now j j' h)
  have key: "job_key_of j' = job_key_of j" by (rule fixed_fields(1) [OF move_fixed [OF moved(2)]])
  have j: "j \<in> set (jq_jobs q)" using moved(1) by (auto dest: find_job_key)
  have act: "jb_state j \<noteq> JS_SUCCEEDED" using move_active [OF moved(2)] by (auto simp: active_state_def)
  have d: "distinct (map job_key_of (jq_jobs q))" using assms(2) by (simp add: keyed_jobs_def)
  have fresh: "job_key_of j \<notin> set (map publication_key (jq_publications q))"
    using assms(3) act d j by (auto simp: published_exactly_def distinct_map inj_on_def)
  note keys = succeeded_keys_replaced [OF j key d act]
  have old: "pu_fence p = jb_fence k \<and> jb_result k = Some (pu_result p)"
    if "p \<in> set (jq_publications q)" "k \<in> set (replaced j' (jq_jobs q))" "job_key_of k = publication_key p" for p k
  proof -
    have "job_key_of k \<noteq> job_key_of j" using fresh that(1,3) by (metis image_eqI list.set_map)
    then have "k \<in> set (jq_jobs q)" using that(2) key by (auto simp: replaced_def)
    then show ?thesis using assms(3) that(1,3) by (simp add: published_exactly_def)
  qed
  have only: "k = j'" if "k \<in> set (replaced j' (jq_jobs q))" "job_key_of k = job_key_of j" for k
    using that key by (auto simp: replaced_def)
  show ?thesis
  proof (cases "op = ''succeeded''")
    case True
    then obtain p where p: "jq_publications q' = jq_publications q @ [p]" "publication_key p = job_key_of j"
      "pu_fence p = jb_fence j'" "jb_result j' = Some (pu_result p)" using moved(7) by (auto simp: publication_key_def)
    show ?thesis unfolding published_exactly_def p(1) moved(3) keys
      using True move_succeeded [OF moved(2)] assms(3) fresh p old only by (auto simp: published_exactly_def)
  next
    case False
    then show ?thesis unfolding published_exactly_def moved(3) keys
      using move_succeeded [OF moved(2)] assms(3) old moved(7) by (auto simp: published_exactly_def)
  qed
qed

lemma run_published: "queue_run a q q' \<Longrightarrow> keyed_jobs q \<Longrightarrow> published_exactly q \<Longrightarrow> published_exactly q'"
proof (induction rule: rtranclp_induct)
  case (step q1 q2)
  then show ?case by (blast intro: step_published run_keyed)
qed simp

end
