(* ===== verification/Job_Limits.thy ===== *)
theory Job_Limits
  imports Job_Invariants
begin

section \<open>Operational limits\<close>

text \<open>
  The limits of the capacity manifest as an invariant of the queue: admission and claiming test them
  once, the moves of a job never raise a count they do not test.
\<close>

subsection \<open>Counting rows\<close>

lemma replaced_other: "job_key_of j' \<notin> job_key_of ` set js \<Longrightarrow> replaced j' js = js"
  by (induction js) (auto simp: replaced_def)

lemma count_replaced:
  assumes "distinct (map job_key_of js)" "j \<in> set js" "job_key_of j' = job_key_of j"
  shows "int (length (filter P (replaced j' js))) = int (length (filter P js)) - of_bool (P j) + of_bool (P j')"
  using assms
proof (induction js)
  case (Cons k js)
  show ?case
  proof (cases "k = j")
    case True
    then have "replaced j' js = js" using Cons.prems by (intro replaced_other) simp
    then show ?thesis using True Cons.prems(3) by (simp add: replaced_def)
  next
    case False
    then have "job_key_of k \<noteq> job_key_of j'" "j \<in> set js" using Cons.prems by (auto simp: image_iff)
    then show ?thesis using Cons by (simp add: replaced_def)
  qed
qed simp

lemma count_moved:
  assumes "keyed_jobs q" "find_job q (jb_id j) (jb_revision j) = Some j" "fixed_part j' = fixed_part j" "jq_jobs q' = replaced j' (jq_jobs q)"
  shows "count_jobs P q' = count_jobs P q - of_bool (P j) + of_bool (P j')"
  using count_replaced [of "jq_jobs q" j j' P] assms fixed_fields(1) [OF assms(3)] find_job_key [OF assms(2)]
  by (simp add: count_jobs_def keyed_jobs_def)

lemma count_shrinks:
  assumes "keyed_jobs q" "find_job q (jb_id j) (jb_revision j) = Some j" "fixed_part j' = fixed_part j" "jq_jobs q' = replaced j' (jq_jobs q)"
    "P j' \<Longrightarrow> P j"
  shows "count_jobs P q' \<le> count_jobs P q"
  using count_moved [OF assms(1-4), of P] assms(5) by (cases "P j"; cases "P j'") auto

lemma count_append: "jq_jobs q' = jq_jobs q @ [j] \<Longrightarrow> count_jobs P q' = count_jobs P q + of_bool (P j)"
  by (simp add: count_jobs_def)

lemma count_mono: "(\<And>j. P j \<Longrightarrow> Q j) \<Longrightarrow> count_jobs P q \<le> count_jobs Q q"
proof -
  assume "\<And>j. P j \<Longrightarrow> Q j"
  then have "filter P js = filter P (filter Q js)" for js by (induction js) auto
  then show ?thesis unfolding count_jobs_def by (metis length_filter_le of_nat_mono)
qed

lemma count_nonneg [simp]: "0 \<le> count_jobs P q"
  by (simp add: count_jobs_def)

subsection \<open>The limits\<close>

definition active_job :: "job \<Rightarrow> bool" where
  "active_job j \<longleftrightarrow> active_state (jb_state j)"

definition leased_in :: "job_lane \<Rightarrow> job \<Rightarrow> bool" where
  "leased_in lane j \<longleftrightarrow> jb_lane j = lane \<and> jb_state j = JS_LEASED"

definition active_in :: "job_lane \<Rightarrow> job \<Rightarrow> bool" where
  "active_in lane j \<longleftrightarrow> jb_lane j = lane \<and> active_job j"

definition on_gpu :: "job \<Rightarrow> bool" where
  "on_gpu j \<longleftrightarrow> jb_state j = JS_LEASED \<and> jb_resource j = JR_LOCAL_GPU"

text \<open>Work that may not use the slots reserved for recovery, and work that may use no reserved slot.\<close>

definition not_recovery :: "job \<Rightarrow> bool" where
  "not_recovery j \<longleftrightarrow> active_job j \<and> jb_lane j \<noteq> JL_LOOKUP_RECOVERY"

definition ordinary :: "job \<Rightarrow> bool" where
  "ordinary j \<longleftrightarrow> not_recovery j \<and> jb_priority j \<notin> {JP_IMMINENT_FIELD, JP_RECOVERY}"

lemmas counted_defs = active_job_def leased_in_def active_in_def on_gpu_def not_recovery_def ordinary_def

definition lane_limits :: "capacity_manifest \<Rightarrow> queue \<Rightarrow> bool" where
  "lane_limits m q \<longleftrightarrow> (\<forall>l \<in> set (cm_lanes m). count_jobs (active_in (lc_lane l)) q \<le> lc_max_queued l
     \<and> count_jobs (leased_in (lc_lane l)) q \<le> lc_max_leased l)"

definition queue_limits :: "capacity_manifest \<Rightarrow> queue \<Rightarrow> bool" where
  "queue_limits m q \<longleftrightarrow> count_jobs active_job q \<le> cm_max_queued_jobs m
     \<and> count_jobs not_recovery q \<le> cm_max_queued_jobs m - cm_reserved_recovery_jobs m
     \<and> count_jobs ordinary q \<le> cm_max_queued_jobs m - cm_reserved_recovery_jobs m - cm_reserved_imminent_jobs m
     \<and> count_jobs on_gpu q \<le> 1"

definition within_limits :: "capacity_manifest \<Rightarrow> queue \<Rightarrow> bool" where
  "within_limits m q \<longleftrightarrow> lane_limits m q \<and> queue_limits m q"

lemma manifest_lane_member:
  assumes "manifest_ok m" "l \<in> set (cm_lanes m)" shows "manifest_lane m (lc_lane l) = Some l"
proof -
  have "distinct (map lc_lane (cm_lanes m))" using assms(1) by (simp add: manifest_ok_def)
  then have "find (\<lambda>k. lc_lane k = lc_lane l) ls = Some l" if "l \<in> set ls" "distinct (map lc_lane ls)" for ls
    using that by (induction ls) (auto simp: image_iff)
  then show ?thesis using assms by (simp add: manifest_lane_def manifest_ok_def)
qed

lemma gpu_leased_count: "gpu_leased q \<longleftrightarrow> count_jobs on_gpu q \<noteq> 0"
  by (auto simp: gpu_leased_def count_jobs_def on_gpu_def list_ex_iff filter_empty_conv)

lemma counts_same: "jq_jobs q' = jq_jobs q \<Longrightarrow> count_jobs P q' = count_jobs P q"
  by (simp add: count_jobs_def)

lemma move_keeps_class:
  assumes "move op now j j'"
  shows "active_job j' \<Longrightarrow> active_job j" "active_in lane j' \<Longrightarrow> active_in lane j" "not_recovery j' \<Longrightarrow> not_recovery j"
    "ordinary j' \<Longrightarrow> ordinary j"
  using move_active [OF assms] fixed_fields [OF move_fixed [OF assms]] by (simp_all add: counted_defs)

lemma move_keeps_lease:
  assumes "move op now j j'" "op \<noteq> ''leased''"
  shows "leased_in lane j' \<Longrightarrow> leased_in lane j" "on_gpu j' \<Longrightarrow> on_gpu j"
proof -
  have "jb_state j' = JS_LEASED \<Longrightarrow> jb_state j = JS_LEASED"
    using assms by (induction rule: move.induct) (auto simp: row_defs holds_lease_def)
  then show "leased_in lane j' \<Longrightarrow> leased_in lane j" "on_gpu j' \<Longrightarrow> on_gpu j"
    using fixed_fields [OF move_fixed [OF assms(1)]] by (simp_all add: counted_defs)
qed

lemma shrinking_limits:
  assumes "within_limits m q" "\<And>P. P \<in> {active_job, not_recovery, ordinary, on_gpu} \<union> range active_in \<union> range leased_in
    \<Longrightarrow> count_jobs P q' \<le> count_jobs P q"
  shows "within_limits m q'"
proof -
  have c: "count_jobs active_job q' \<le> count_jobs active_job q" "count_jobs not_recovery q' \<le> count_jobs not_recovery q"
    "count_jobs ordinary q' \<le> count_jobs ordinary q" "count_jobs on_gpu q' \<le> count_jobs on_gpu q"
    "\<And>lane. count_jobs (active_in lane) q' \<le> count_jobs (active_in lane) q"
    "\<And>lane. count_jobs (leased_in lane) q' \<le> count_jobs (leased_in lane) q"
    by (rule assms(2); simp)+
  have "lane_limits m q'" using assms(1) order_trans [OF c(5)] order_trans [OF c(6)] by (simp add: within_limits_def lane_limits_def)
  moreover have "queue_limits m q'" using assms(1) c(1-4) by (auto simp: within_limits_def queue_limits_def)
  ultimately show ?thesis by (simp add: within_limits_def)
qed

lemma moved_limits:
  assumes "move op now j j'" "op \<noteq> ''leased''" "find_job q (jb_id j) (jb_revision j) = Some j" "keyed_jobs q"
    "jq_jobs q' = replaced j' (jq_jobs q)" "within_limits m q"
  shows "within_limits m q'"
proof (rule shrinking_limits [OF assms(6)])
  fix P assume P: "P \<in> {active_job, not_recovery, ordinary, on_gpu} \<union> range active_in \<union> range leased_in"
  show "count_jobs P q' \<le> count_jobs P q"
    by (rule count_shrinks [OF assms(4,3) move_fixed [OF assms(1)] assms(5)])
      (use P move_keeps_class [OF assms(1)] move_keeps_lease [OF assms(1,2)] in auto)
qed

lemma leased_limits:
  assumes "manifest_ok m" "move ''leased'' now j j'" "find_job q (jb_id j) (jb_revision j) = Some j" "keyed_jobs q"
    "jq_jobs q' = replaced j' (jq_jobs q)" "within_limits m q" "manifest_lane m (jb_lane j) = Some l"
    "count_jobs (\<lambda>k. jb_lane k = jb_lane j \<and> jb_state k = JS_LEASED) q < lc_max_leased l"
    "\<not> (gpu_leased q \<and> jb_resource j = JR_LOCAL_GPU)"
  shows "within_limits m q'"
proof -
  note f = fixed_fields [OF move_fixed [OF assms(2)]]
  note shrink = count_shrinks [OF assms(4,3) move_fixed [OF assms(2)] assms(5)]
  note exact = count_moved [OF assms(4,3) move_fixed [OF assms(2)] assms(5)]
  note keep = move_keeps_class [OF assms(2)]
  have c: "count_jobs active_job q' \<le> count_jobs active_job q" "count_jobs not_recovery q' \<le> count_jobs not_recovery q"
    "count_jobs ordinary q' \<le> count_jobs ordinary q" "\<And>lane. count_jobs (active_in lane) q' \<le> count_jobs (active_in lane) q"
    by (rule shrink; use keep in blast)+
  have gpu: "count_jobs on_gpu q' \<le> 1"
  proof (cases "on_gpu j'")
    case True
    then have "count_jobs on_gpu q = 0" using assms(9) f(3) by (simp add: gpu_leased_count counted_defs)
    then show ?thesis using exact [of on_gpu] by (cases "on_gpu j"; cases "on_gpu j'") auto
  next
    case False
    then show ?thesis using exact [of on_gpu] assms(6) by (cases "on_gpu j") (auto simp: within_limits_def queue_limits_def)
  qed
  have lane: "count_jobs (leased_in (lc_lane k)) q' \<le> lc_max_leased k" if k: "k \<in> set (cm_lanes m)" for k
  proof (cases "lc_lane k = jb_lane j")
    case True
    then have "k = l" using manifest_lane_member [OF assms(1) k] assms(7) by simp
    moreover have "leased_in (jb_lane j) = (\<lambda>k. jb_lane k = jb_lane j \<and> jb_state k = JS_LEASED)" by (simp add: fun_eq_iff counted_defs)
    ultimately have "count_jobs (leased_in (lc_lane k)) q < lc_max_leased k" using assms(8) True by simp
    then show ?thesis using exact [of "leased_in (lc_lane k)"]
      by (cases "leased_in (lc_lane k) j"; cases "leased_in (lc_lane k) j'") auto
  next
    case False
    then have "\<not> leased_in (lc_lane k) j'" using f(2) by (auto simp: counted_defs)
    then have "count_jobs (leased_in (lc_lane k)) q' \<le> count_jobs (leased_in (lc_lane k)) q" by (intro shrink) simp
    then show ?thesis using assms(6) k by (auto simp: within_limits_def lane_limits_def)
  qed
  have "lane_limits m q'" using lane assms(6) order_trans [OF c(4)] by (simp add: within_limits_def lane_limits_def)
  moreover have "queue_limits m q'" using assms(6) c(1-3) gpu by (simp add: within_limits_def queue_limits_def)
  ultimately show ?thesis by (simp add: within_limits_def)
qed

lemma enqueued_limits:
  assumes "manifest_ok m" "je_capacity env = m" "admit_request env q r s = Inr ()" "jq_jobs q' = jq_jobs q @ [queued_job r]" "within_limits m q"
  shows "within_limits m q'"
proof -
  obtain load d where load: "queue_load_of q (jr_lane r) = Inr load"
    and d: "decide_admission m (jr_lane r) (jr_priority r) load False s = Inr d" "ad_admitted d"
    using assms(2,3) by (auto simp: admit_request_def bind_res_Inr Let_def job_wrap_Inr result_simps simp del: guards.simps)
  obtain l where l: "manifest_lane m (jr_lane r) = Some l" using manifest_lane_Some [OF assms(1)] by blast
  have adm: "ql_lane_active load < lc_max_queued l" "ql_total_active load < queue_ceiling m (jr_lane r) (jr_priority r)"
    using enqueue_admission [OF assms(1) l, of "jr_priority r" load s] d by auto
  have e: "active_in (jr_lane r) = (\<lambda>j. jb_lane j = jr_lane r \<and> active_state (jb_state j))" "active_job = (\<lambda>j. active_state (jb_state j))"
    by (simp_all add: fun_eq_iff counted_defs)
  have lane: "count_jobs (active_in (jr_lane r)) q < lc_max_queued l" "count_jobs active_job q < queue_ceiling m (jr_lane r) (jr_priority r)"
    using queue_load_Inr [OF load] adm by (simp_all add: e)
  have new: "jb_lane (queued_job r) = jr_lane r" "jb_state (queued_job r) = JS_QUEUED" "jb_priority (queued_job r) = jr_priority r"
    by (simp_all add: queued_job_def)
  note app = count_append [OF assms(4)]
  have sub: "count_jobs not_recovery q \<le> count_jobs active_job q" "count_jobs ordinary q \<le> count_jobs active_job q"
    by (rule count_mono; simp add: counted_defs)+
  have pos: "0 < cm_reserved_imminent_jobs m" "0 < cm_reserved_recovery_jobs m" using assms(1) by (simp_all add: manifest_ok_def)
  have "count_jobs (active_in (lc_lane k)) q' \<le> lc_max_queued k \<and> count_jobs (leased_in (lc_lane k)) q' \<le> lc_max_leased k"
    if k: "k \<in> set (cm_lanes m)" for k
  proof (cases "lc_lane k = jr_lane r")
    case True
    then have "k = l" using manifest_lane_member [OF assms(1) k] l by simp
    then show ?thesis using lane(1) True k assms(5) app [of "active_in (jr_lane r)"] app [of "leased_in (jr_lane r)"] new
      by (auto simp: within_limits_def lane_limits_def counted_defs)
  next
    case False
    then show ?thesis using k assms(5) app [of "active_in (lc_lane k)"] app [of "leased_in (lc_lane k)"] new
      by (auto simp: within_limits_def lane_limits_def counted_defs)
  qed
  moreover have "queue_limits m q'"
    using assms(5) lane(2) sub pos app [of active_job] app [of not_recovery] app [of ordinary] app [of on_gpu] new
    by (auto simp: within_limits_def queue_limits_def queue_ceiling_def counted_defs split: if_splits)
  ultimately show ?thesis by (simp add: within_limits_def lane_limits_def)
qed

lemma step_limits:
  assumes "queue_step a q q'" "manifest_ok (je_capacity a)" "keyed_jobs q" "within_limits (je_capacity a) q"
  shows "within_limits (je_capacity a) q'"
  using assms(1)
proof (cases rule: queue_step.cases)
  case (enqueued env r s q1)
  have "jq_jobs q' = jq_jobs q @ [queued_job r]"
    using append_history_frame [OF enqueued(7)] enqueued(6) by (auto simp: install_job_spec_def bind_res_Inr map_res_Inr)
  then show ?thesis using enqueued_limits [OF assms(2) _ enqueued(5) _ assms(4)] enqueued(1) by (simp add: same_authority_def)
next
  case (moved env j op now j')
  have "jq_jobs q' = replaced j' (jq_jobs q)" using append_history_frame [OF moved(6)] by (simp add: put_job_def replaced_def)
  from moved_limits [OF moved(3,5,2) assms(3) this assms(4)] show ?thesis .
next
  case (leased env j now j' l)
  have "jq_jobs q' = replaced j' (jq_jobs q)" using append_history_frame [OF leased(7)] by (simp add: put_job_def replaced_def)
  from leased_limits [OF assms(2) leased(3,2) assms(3) this assms(4) leased(5,4,6)] show ?thesis .
next
  case (published env j now res q1)
  have "jq_jobs q' = replaced (succeeded_job j res now) (jq_jobs q)"
    using append_history_frame [OF published(5)] insert_publication_frame [OF published(4)] by (simp add: put_job_def replaced_def)
  from moved_limits [OF move.succeeded [OF published(3)] _ published(2) assms(3) this assms(4)] show ?thesis by simp
next
  case elsewhere
  show ?thesis by (rule shrinking_limits [OF assms(4)]) (simp add: counts_same [OF elsewhere(1)])
qed

lemma run_limits:
  "queue_run a q q' \<Longrightarrow> manifest_ok (je_capacity a) \<Longrightarrow> keyed_jobs q \<Longrightarrow> within_limits (je_capacity a) q \<Longrightarrow> within_limits (je_capacity a) q'"
proof (induction rule: rtranclp_induct)
  case (step q1 q2)
  then show ?case by (blast intro: step_limits run_keyed)
qed simp

end
