(* ===== verification/Job_Claims.thy ===== *)
theory Job_Claims
  imports Job_Budget Job_Limits
begin

section \<open>Claims, leases and reconciliation\<close>

text \<open>
  What a claim leaves behind, which job it takes, and that every call under a lease presents the
  current fence of its job.
\<close>

lemma fence_monotone:
  assumes "queue_calls a q q'" "keyed_jobs q" "find_job q jid rv = Some j"
  obtains k where "find_job q' jid rv = Some k" "jb_fence j \<le> jb_fence k" "\<not> active_state (jb_state j) \<Longrightarrow> k = j"
  using calls_descends [OF assms] by (auto simp: descends_def)

text \<open>Every call under a lease that returns has presented the current fence.\<close>

lemma lease_calls_fence:
  assumes "find_job q jid rv = Some k"
  shows "heartbeat env q jid rv w token t d = Inr x \<Longrightarrow> token = jb_fence k"
    "commit_success env q jid rv w token res hooks t = Inr x \<Longrightarrow> token = jb_fence k"
    "record_failure env q jid rv w token t kind r p audit = Inr x \<Longrightarrow> token = jb_fence k"
    "terminal_from_lease env q jid rv w token t target r = Inr x \<Longrightarrow> token = jb_fence k"
proof -
  have l: "require_lease q jid rv w token t = Inr j \<Longrightarrow> token = jb_fence k" for j using assms by (auto simp: require_lease_Inr)
  show "heartbeat env q jid rv w token t d = Inr x \<Longrightarrow> token = jb_fence k"
    "record_failure env q jid rv w token t kind r p audit = Inr x \<Longrightarrow> token = jb_fence k"
    "terminal_from_lease env q jid rv w token t target r = Inr x \<Longrightarrow> token = jb_fence k"
    by (auto simp: heartbeat_def record_failure_def terminal_from_lease_def bind_res_Inr job_checks_Inr dest: l simp del: guards.simps)
  show "commit_success env q jid rv w token res hooks t = Inr x \<Longrightarrow> token = jb_fence k"
    using assms by (auto simp: commit_success_def bind_res_Inr map_res_Inr job_checks_Inr get_job_Inr guards_Inr dest: l
        simp del: guards.simps split: if_splits)
qed

lemma Inr_isl: "(\<And>x. m = Inr x \<Longrightarrow> False) \<Longrightarrow> isl m"
  by (cases m) auto

lemma lease_calls_refused:
  assumes "find_job q jid rv = Some k" "token \<noteq> jb_fence k"
  shows "isl (heartbeat env q jid rv w token t d)" "isl (commit_success env q jid rv w token res hooks t)"
    "isl (record_failure env q jid rv w token t kind r p audit)" "isl (terminal_from_lease env q jid rv w token t target r)"
proof -
  note f = lease_calls_fence [OF assms(1)]
  show "isl (heartbeat env q jid rv w token t d)" "isl (commit_success env q jid rv w token res hooks t)"
    "isl (record_failure env q jid rv w token t kind r p audit)" "isl (terminal_from_lease env q jid rv w token t target r)"
    using assms(2) f(1) [of env w token t d] f(2) [of env w token res hooks t] f(3) [of env w token t kind r p audit]
      f(4) [of env w token t target r] by (auto intro!: Inr_isl)
qed

lemma reconcile_settles:
  assumes "row_sound j" "k = reconcile_row now j"
  shows "active_state (jb_state k) \<Longrightarrow> now < jb_deadline k" "jb_state k = JS_LEASED \<Longrightarrow> \<exists>e. jb_expires k = Some e \<and> now < e"
    "jb_state k = JS_RETRYABLE_FAILED \<Longrightarrow> \<exists>b. jb_not_before k = Some b \<and> now < b"
proof -
  have "(active_state (jb_state k) \<longrightarrow> now < jb_deadline k) \<and> (jb_state k = JS_LEASED \<longrightarrow> (\<exists>e. jb_expires k = Some e \<and> now < e))
    \<and> (jb_state k = JS_RETRYABLE_FAILED \<longrightarrow> (\<exists>b. jb_not_before k = Some b \<and> now < b))"
    using assms(1) unfolding assms(2)
    by (cases "jb_state j")
      (auto simp: reconcile_row_def Let_def lease_expired_def retry_due_def queued_late_def expire_row_def retry_row_def late_row_def
        exhausted_def row_defs row_sound_def active_state_def not_le)
  then show "active_state (jb_state k) \<Longrightarrow> now < jb_deadline k" "jb_state k = JS_LEASED \<Longrightarrow> \<exists>e. jb_expires k = Some e \<and> now < e"
    "jb_state k = JS_RETRYABLE_FAILED \<Longrightarrow> \<exists>b. jb_not_before k = Some b \<and> now < b" by blast+
qed

text \<open>Nothing in the row has run out at \<open>now\<close>.\<close>

definition settled :: "string \<Rightarrow> job \<Rightarrow> bool" where
  "settled now j \<longleftrightarrow> (active_state (jb_state j) \<longrightarrow> now < jb_deadline j)
     \<and> (jb_state j = JS_LEASED \<longrightarrow> (case jb_expires j of None \<Rightarrow> False | Some e \<Rightarrow> now < e))
     \<and> (jb_state j = JS_RETRYABLE_FAILED \<longrightarrow> (case jb_not_before j of None \<Rightarrow> False | Some b \<Rightarrow> now < b))"

lemma reconcile_settled: "row_sound j \<Longrightarrow> settled now (reconcile_row now j)"
  using reconcile_settles [of j "reconcile_row now j" now] by (force simp: settled_def)

lemma stale_settled: "settled now (stale_row now j)"
  by (simp add: settled_def stale_row_def row_defs active_state_def)

lemma priority_band:
  assumes "manifest_ok (je_capacity env)"
  shows "priority_value (jb_priority j) \<le> effective_priority env j now" "effective_priority env j now < priority_value (jb_priority j) + 100"
proof -
  have "0 \<le> max 0 (float_millis now - float_millis (jb_created j)) div cm_aging_interval_ms (je_capacity env) * cm_aging_increment (je_capacity env)"
    using assms by (simp add: manifest_ok_def pos_imp_zdiv_nonneg_iff)
  then show "priority_value (jb_priority j) \<le> effective_priority env j now" "effective_priority env j now < priority_value (jb_priority j) + 100"
    by (simp_all add: effective_priority_def Let_def)
qed

lemma priority_gap: "p < (p' :: job_priority) \<Longrightarrow> priority_value p + 100 \<le> priority_value p'"
  by (cases p; cases p') (simp_all add: less_job_priority_def)

lemma rank_priority:
  assumes "manifest_ok (je_capacity env)" "claim_rank env now j \<le> claim_rank env now j'"
  shows "jb_priority j' \<le> jb_priority j"
proof (rule ccontr)
  assume "\<not> jb_priority j' \<le> jb_priority j"
  then have "jb_priority j < jb_priority j'" by simp
  from priority_gap [OF this] have "effective_priority env j now < effective_priority env j' now"
    using priority_band [OF assms(1), of j now] priority_band [OF assms(1), of j' now] by linarith
  then show False using assms(2) by (simp add: claim_rank_def less_eq_prod_simp)
qed

lemma arg_min_list_least: "x \<in> set xs \<Longrightarrow> f (arg_min_list f xs) \<le> (f x :: 'b :: linorder)"
  by (induction xs) (auto simp: f_arg_min_list_f)

end
