(* ===== verification/Job_Replay.thy ===== *)
theory Job_Replay
  imports Job_Claims "HOL-Library.AList"
begin

section \<open>Replaying the history (infrastructure/sqlite/jobs.py)\<close>

text \<open>
  \<open>_replay_job_projection_authority\<close>, the core of \<open>verify()\<close> and of the rebuild of the job table:
  the jobs are rebuilt from the signed specs and the signed history alone. A Python dict is an
  association list here; its keys are distinct because they are primary keys.
\<close>

subsection \<open>The code\<close>

definition replay_spec :: "job_env \<Rightarrow> spec_row \<Rightarrow> job_error + (job_key \<times> job)" where
  "replay_spec env s =
     (let invalid = JobError ''job spec authority is invalid'' in
      bind_res (of_option invalid (json_loads (sp_json s))) (\<lambda>v.
      bind_res (of_option invalid (json_loads (sp_manifest s))) (\<lambda>mv.
      bind_res (map_err (\<lambda>_. invalid) (signed_manifest_from_dict (je_trust env) mv)) (\<lambda>m.
      bind_res (map_err (\<lambda>_. invalid) (job_record_from_spec v)) (\<lambda>j.
      bind_res (guards [(job_key_of j \<noteq> (sp_id s, sp_revision s), JobError ''job spec authority differs'')]) (\<lambda>_.
      bind_res (job_contract (canonical_text v)) (\<lambda>t.
      bind_res (job_contract (canonical_digest v)) (\<lambda>dg.
      bind_res (guards [(t \<noteq> sp_json s \<or> dg \<noteq> sp_digest s, JobError ''job spec authority differs'')]) (\<lambda>_.
      bind_res (job_integrity (verify_manifest (je_trust env) m)) (\<lambda>p.
      map_res (\<lambda>_. (job_key_of j, j)) (guards
        [(\<not> same_dict p v \<or> jb_state j \<noteq> JS_QUEUED, JobError ''job spec authority differs'')])))))))))))"

fun replay_specs :: "job_env \<Rightarrow> spec_row list \<Rightarrow> job_error + (job_key \<times> job) list" where
  "replay_specs env [] = Inr []"
| "replay_specs env (s # ss) = bind_res (replay_spec env s) (\<lambda>x. map_res (Cons x) (replay_specs env ss))"

record replay =
  rp_records :: "(job_key \<times> job) list"
  rp_latest :: "(job_key \<times> job_snapshot) list"
  rp_next :: int
  rp_prior :: string

text \<open>A row whose spec digest is the zero digest is accepted up to the sequence of the legacy cutover.\<close>

definition replay_row :: "job_env \<Rightarrow> int \<Rightarrow> queue \<Rightarrow> replay \<Rightarrow> history_row \<Rightarrow> job_error + replay" where
  "replay_row env legacy q st h =
     bind_res (of_option (JobError ''job history references unknown work'') (map_of (rp_records st) (hi_key h))) (\<lambda>j.
     bind_res (job_integrity (mk_signed_manifest (je_trust env) ''job_transition'' (sm_body_json (hi_auth h)) (sm_body_digest (hi_auth h))
       (sm_key_id (hi_auth h)) (sm_signature (hi_auth h)))) (\<lambda>m.
     bind_res (guards [(hi_sequence h \<noteq> rp_next st \<or> hi_prior h \<noteq> rp_prior st, JobError ''job history authority differs'')]) (\<lambda>_.
     bind_res (job_contract (canonical_digest (history_value h))) (\<lambda>dg.
     bind_res (guards [(hi_digest h \<noteq> dg, JobError ''job history authority differs'')]) (\<lambda>_.
     bind_res (job_integrity (verify_manifest (je_trust env) m)) (\<lambda>p.
     bind_res (guards [(\<not> same_dict p (history_value h)
         \<or> spec_digest_of q (hi_id h) (hi_revision h) \<noteq> Some (hi_spec h) \<and> \<not> (hi_sequence h \<le> legacy \<and> hi_spec h = zero_digest),
       JobError ''job history authority differs'')]) (\<lambda>_.
     bind_res (record_material_digest j) (\<lambda>material.
     bind_res (guards [(hi_material h \<noteq> material, JobError ''job history does not bind current job material'')]) (\<lambda>_.
     bind_res (case map_of (rp_latest st) (hi_key h) of
         None \<Rightarrow> guards [(hi_operation h \<noteq> ''queued'' \<or> hi_from h \<noteq> None, JobError ''job history does not begin with queued'')]
       | Some s \<Rightarrow> guards [(hi_from h \<noteq> Some (fst s), JobError ''job history states are not contiguous'')]) (\<lambda>_.
     bind_res (verify_transition h) (\<lambda>_.
     bind_res (record_with_history_snapshot j h) (\<lambda>k.
     Inr \<lparr>rp_records = AList.update (hi_key h) k (rp_records st), rp_latest = AList.update (hi_key h) (history_snapshot h) (rp_latest st),
       rp_next = rp_next st + 1, rp_prior = hi_digest h\<rparr>))))))))))))"

fun replay_rows :: "job_env \<Rightarrow> int \<Rightarrow> queue \<Rightarrow> replay \<Rightarrow> history_row list \<Rightarrow> job_error + replay" where
  "replay_rows env legacy q st [] = Inr st"
| "replay_rows env legacy q st (h # hs) = bind_res (replay_row env legacy q st h) (\<lambda>st1. replay_rows env legacy q st1 hs)"

text \<open>The record of the migration from a queue without specs, and \<open>_verify_job_spec_cutover\<close>.\<close>

record cutover_row =
  cv_history_sequence :: int
  cv_history_digest :: string
  cv_spec_count :: int
  cv_spec_root :: string
  cv_digest :: string
  cv_manifest :: string
  cv_created :: string

definition cutover_value :: "cutover_row \<Rightarrow> py" where
  "cutover_value c = obj
     [(''schema_version'', PStr ''strathmark-v3-job-spec-cutover-v1''), (''cutover_sequence'', PInt 1),
      (''legacy_history_sequence'', PInt (cv_history_sequence c)), (''legacy_history_digest'', PStr (cv_history_digest c)),
      (''job_spec_count'', PInt (cv_spec_count c)), (''job_spec_root_digest'', PStr (cv_spec_root c)),
      (''created_at'', PStr (cv_created c))]"

definition spec_material :: "queue \<Rightarrow> py" where
  "spec_material q = PSeq (map (\<lambda>s. obj [(''job_id'', PStr (sp_id s)), (''job_revision'', PInt (sp_revision s)),
     (''spec_digest'', PStr (sp_digest s))]) (sort_key (\<lambda>s. (sp_id s, sp_revision s)) (jq_specs q)))"

definition verify_job_spec_cutover :: "job_env \<Rightarrow> cutover_row option \<Rightarrow> queue \<Rightarrow> job_error + unit" where
  "verify_job_spec_cutover env cutover q = (case cutover of None \<Rightarrow> Inr () | Some c \<Rightarrow>
     bind_res (of_option (JobError ''job spec cutover authority is invalid'') (json_loads (cv_manifest c))) (\<lambda>mv.
     bind_res (map_err (\<lambda>_. JobError ''job spec cutover authority is invalid'') (signed_manifest_from_dict (je_trust env) mv)) (\<lambda>m.
     bind_res (guards
       [(map (\<lambda>h. hi_digest h) (filter (\<lambda>h. hi_sequence h = cv_history_sequence c) (jq_history q)) \<noteq> [cv_history_digest c]
           \<or> int (length (jq_specs q)) \<noteq> cv_spec_count c, JobError ''job spec cutover authority differs'')]) (\<lambda>_.
     bind_res (job_contract (canonical_digest (spec_material q))) (\<lambda>root.
     bind_res (guards [(root \<noteq> cv_spec_root c \<or> cv_digest c \<noteq> sm_body_digest m, JobError ''job spec cutover authority differs'')]) (\<lambda>_.
     bind_res (job_integrity (verify_manifest (je_trust env) m)) (\<lambda>p.
     guards [(\<not> same_dict p (cutover_value c), JobError ''job spec cutover authority differs'')])))))))"

definition legacy_sequence :: "cutover_row option \<Rightarrow> int" where
  "legacy_sequence cutover = (case cutover of None \<Rightarrow> 0 | Some c \<Rightarrow> cv_history_sequence c)"

text \<open>The start of the replay, and the whole of it.\<close>

definition replay_start :: "(job_key \<times> job) list \<Rightarrow> replay" where
  "replay_start rs = \<lparr>rp_records = rs, rp_latest = [], rp_next = 1, rp_prior = zero_digest\<rparr>"

definition replay_jobs :: "job_env \<Rightarrow> cutover_row option \<Rightarrow> queue \<Rightarrow> job_error + (job_key \<times> job) list" where
  "replay_jobs env cutover q =
     bind_res (verify_job_spec_cutover env cutover q) (\<lambda>_.
     bind_res (replay_specs env (jq_specs q)) (\<lambda>rs.
     bind_res (replay_rows env (legacy_sequence cutover) q (replay_start rs) (jq_history q)) (\<lambda>st.
     map_res (\<lambda>_. rp_records st) (guards
       [(set (map fst (rp_latest st)) \<noteq> set (map fst (rp_records st)), JobError ''job spec lacks signed queued history'')]))))"

end
