(* ===== verification/Job_Replayable.thy ===== *)
theory Job_Replayable
  imports Job_Replay
begin

section \<open>The history determines the job table\<close>

text \<open>
  A declarative description of a history that replays, and the proof that every step of the queue
  keeps it. What a replay rebuilds is a function of the specs and of the last row of each job.
\<close>

subsection \<open>What a replay computes\<close>

definition last_row :: "history_row list \<Rightarrow> job_key \<Rightarrow> history_row option" where
  "last_row hs key = find (\<lambda>h. hi_key h = key) (rev hs)"

definition chain_digest :: "history_row list \<Rightarrow> string" where
  "chain_digest hs = (if hs = [] then zero_digest else hi_digest (last hs))"

text \<open>The queued job and the spec digest of a key.\<close>

definition spec_table :: "(job_key \<times> job) list \<Rightarrow> queue \<Rightarrow> job_key \<Rightarrow> (job \<times> string) option" where
  "spec_table rs q key = (case (map_of rs key, spec_digest_of q (fst key) (snd key)) of
     (Some j, Some dg) \<Rightarrow> Some (j, dg) | _ \<Rightarrow> None)"

definition auth_ok :: "trust \<Rightarrow> history_row \<Rightarrow> bool" where
  "auth_ok tr h \<longleftrightarrow> (\<exists>m p. mk_signed_manifest tr ''job_transition'' (sm_body_json (hi_auth h)) (sm_body_digest (hi_auth h))
       (sm_key_id (hi_auth h)) (sm_signature (hi_auth h)) = Inr m
     \<and> verify_manifest tr m = Inr p \<and> same_dict p (history_value h))"

definition follows :: "history_row list \<Rightarrow> history_row \<Rightarrow> bool" where
  "follows xs h \<longleftrightarrow> (case last_row xs (hi_key h) of
     None \<Rightarrow> hi_operation h = ''queued'' \<and> hi_from h = None | Some g \<Rightarrow> hi_from h = Some (hi_state g))"

definition row_ok :: "trust \<Rightarrow> (job_key \<Rightarrow> (job \<times> string) option) \<Rightarrow> history_row list \<Rightarrow> history_row \<Rightarrow> bool" where
  "row_ok tr sp xs h \<longleftrightarrow> hi_sequence h = int (length xs) + 1 \<and> hi_prior h = chain_digest xs
     \<and> canonical_digest (history_value h) = Inr (hi_digest h) \<and> auth_ok tr h
     \<and> (\<exists>r. sp (hi_key h) = Some (r, hi_spec h) \<and> record_material_digest r = Inr (hi_material h))
     \<and> follows xs h \<and> verify_transition h = Inr () \<and> parse_job_state (hi_state h) \<noteq> None"

definition rows_ok :: "trust \<Rightarrow> (job_key \<Rightarrow> (job \<times> string) option) \<Rightarrow> history_row list \<Rightarrow> bool" where
  "rows_ok tr sp hs \<longleftrightarrow> (\<forall>xs h ys. hs = xs @ h # ys \<longrightarrow> row_ok tr sp xs h)"

text \<open>The job a key is rebuilt as.\<close>

definition rebuilt :: "(job_key \<times> job) list \<Rightarrow> history_row list \<Rightarrow> job_key \<Rightarrow> job option" where
  "rebuilt rs hs key = Option.bind (map_of rs key) (\<lambda>j. case last_row hs key of
     None \<Rightarrow> Some j | Some h \<Rightarrow> (case record_with_history_snapshot j h of Inr k \<Rightarrow> Some k | Inl _ \<Rightarrow> None))"

definition reaches :: "(job_key \<times> job) list \<Rightarrow> history_row list \<Rightarrow> replay \<Rightarrow> bool" where
  "reaches rs xs st \<longleftrightarrow> map_of (rp_records st) = rebuilt rs xs
     \<and> map_of (rp_latest st) = (\<lambda>key. map_option history_snapshot (last_row xs key))
     \<and> rp_next st = int (length xs) + 1 \<and> rp_prior st = chain_digest xs"

lemma last_row_simps [simp]: "last_row [] key = None" "last_row (xs @ [h]) key = (if hi_key h = key then Some h else last_row xs key)"
  by (simp_all add: last_row_def)

lemma last_row_in: "last_row hs key = Some h \<Longrightarrow> h \<in> set hs \<and> hi_key h = key"
  unfolding last_row_def by (metis (mono_tags, lifting) find_Some_iff nth_mem set_rev)

lemma chain_digest_simps [simp]: "chain_digest [] = zero_digest" "chain_digest (xs @ [h]) = hi_digest h"
  by (simp_all add: chain_digest_def)

lemma snapshot_fixed: "record_with_history_snapshot j h = Inr k \<Longrightarrow> fixed_part k = fixed_part j"
  by (auto simp: record_with_history_snapshot_def bind_res_Inr fixed_part_def)

lemma snapshot_cong: "fixed_part j = fixed_part k \<Longrightarrow> record_with_history_snapshot j h = record_with_history_snapshot k h"
  by (cases j; cases k; cases "parse_job_state (hi_state h)") (auto simp: record_with_history_snapshot_def fixed_part_def of_option_def)

lemma rebuilt_fixed: "rebuilt rs xs key = Some k \<Longrightarrow> map_of rs key = Some j \<Longrightarrow> fixed_part k = fixed_part j"
  by (auto simp: rebuilt_def split: option.splits sum.splits dest: snapshot_fixed)

lemma reaches_start: "reaches rs [] (replay_start rs)"
  by (auto simp: reaches_def replay_start_def rebuilt_def fun_eq_iff split: option.split)

lemma snapshot_total: "parse_job_state (hi_state h) \<noteq> None \<Longrightarrow> \<exists>k. record_with_history_snapshot j h = Inr k"
  by (auto simp: record_with_history_snapshot_def of_option_def)

lemma replay_row_ok:
  assumes "reaches rs xs st" "row_ok (je_trust env) (spec_table rs q) xs h" "rebuilt rs xs (hi_key h) = Some j"
  shows "\<exists>st1. replay_row env l q st h = Inr st1 \<and> reaches rs (xs @ [h]) st1"
proof -
  obtain r where r: "map_of rs (hi_key h) = Some r" "spec_digest_of q (hi_id h) (hi_revision h) = Some (hi_spec h)"
    "record_material_digest r = Inr (hi_material h)"
    using assms(2) by (auto simp: row_ok_def spec_table_def hi_key_def split: option.splits)
  have j: "map_of (rp_records st) (hi_key h) = Some j" "fixed_part j = fixed_part r"
    using assms(1,3) rebuilt_fixed [OF assms(3) r(1)] by (simp_all add: reaches_def)
  obtain k where k: "record_with_history_snapshot j h = Inr k" "record_with_history_snapshot r h = Inr k"
    using snapshot_total [of h j] assms(2) snapshot_cong [OF j(2)] by (auto simp: row_ok_def)
  obtain m p where m: "mk_signed_manifest (je_trust env) ''job_transition'' (sm_body_json (hi_auth h)) (sm_body_digest (hi_auth h))
       (sm_key_id (hi_auth h)) (sm_signature (hi_auth h)) = Inr m" "verify_manifest (je_trust env) m = Inr p" "same_dict p (history_value h)"
    using assms(2) by (auto simp: row_ok_def auth_ok_def)
  let ?st1 = "\<lparr>rp_records = AList.update (hi_key h) k (rp_records st), rp_latest = AList.update (hi_key h) (history_snapshot h) (rp_latest st),
       rp_next = rp_next st + 1, rp_prior = hi_digest h\<rparr>"
  have from_ok: "(case map_of (rp_latest st) (hi_key h) of
         None \<Rightarrow> guards [(hi_operation h \<noteq> ''queued'' \<or> hi_from h \<noteq> None, JobError ''job history does not begin with queued'')]
       | Some s \<Rightarrow> guards [(hi_from h \<noteq> Some (fst s), JobError ''job history states are not contiguous'')]) = Inr ()"
    using assms(1,2) by (auto simp: reaches_def row_ok_def follows_def history_snapshot_def split: option.splits)
  have "replay_row env l q st h = Inr ?st1"
    unfolding replay_row_def from_ok using assms(1,2) j m r k(1) material_fixed [OF j(2)]
    by (simp add: reaches_def row_ok_def of_option_def job_integrity_def job_contract_def)
  moreover have "reaches rs (xs @ [h]) ?st1"
    using assms(1) r(1) k(2) by (auto simp: reaches_def AList.update_conv' rebuilt_def fun_eq_iff)
  ultimately show ?thesis by blast
qed

lemma rebuilt_defined:
  assumes "rows_ok tr (spec_table rs q) hs" "map_of rs key = Some r"
  shows "\<exists>j. rebuilt rs hs key = Some j"
proof (cases "last_row hs key")
  case (Some h)
  then have "h \<in> set hs" by (simp add: last_row_in)
  then obtain xs ys where "hs = xs @ h # ys" by (auto simp: in_set_conv_decomp)
  then have "parse_job_state (hi_state h) \<noteq> None" using assms(1) by (auto simp: rows_ok_def row_ok_def)
  then show ?thesis using Some assms(2) snapshot_total [of h r] by (auto simp: rebuilt_def)
qed (use assms(2) in \<open>simp add: rebuilt_def\<close>)

lemma rows_ok_prefix: "rows_ok tr sp (xs @ ys) \<Longrightarrow> rows_ok tr sp xs"
  by (auto simp: rows_ok_def)

lemma rows_ok_append: "rows_ok tr sp (xs @ [h]) \<longleftrightarrow> rows_ok tr sp xs \<and> row_ok tr sp xs h"
proof
  assume "rows_ok tr sp (xs @ [h])"
  then show "rows_ok tr sp xs \<and> row_ok tr sp xs h" using rows_ok_prefix by (auto simp: rows_ok_def)
next
  assume a: "rows_ok tr sp xs \<and> row_ok tr sp xs h"
  show "rows_ok tr sp (xs @ [h])" unfolding rows_ok_def
  proof (intro allI impI)
    fix us g vs assume "xs @ [h] = us @ g # vs"
    then show "row_ok tr sp us g" using a by (cases vs rule: rev_cases) (auto simp: rows_ok_def)
  qed
qed

lemma replay_rows_ok:
  assumes "rows_ok (je_trust env) (spec_table rs q) (xs @ ys)" "reaches rs xs st"
  shows "\<exists>st1. replay_rows env l q st ys = Inr st1 \<and> reaches rs (xs @ ys) st1"
  using assms
proof (induction ys arbitrary: xs st)
  case (Cons h ys)
  have ok: "row_ok (je_trust env) (spec_table rs q) xs h" using Cons.prems(1) by (auto simp: rows_ok_def)
  then obtain r where "map_of rs (hi_key h) = Some r" by (auto simp: row_ok_def spec_table_def split: option.splits)
  then obtain j where "rebuilt rs xs (hi_key h) = Some j" using rebuilt_defined [OF rows_ok_prefix [OF Cons.prems(1)]] by blast
  from replay_row_ok [OF Cons.prems(2) ok this]
  obtain st1 where "replay_row env l q st h = Inr st1" "reaches rs (xs @ [h]) st1" by blast
  then show ?case using Cons.IH [of "xs @ [h]" st1] Cons.prems(1) by simp
qed simp

subsection \<open>The invariant\<close>

definition aligned :: "(job_key \<times> job) list \<Rightarrow> job list \<Rightarrow> bool" where
  "aligned rs js \<longleftrightarrow> list_all2 (\<lambda>x j. fst x = job_key_of j \<and> fixed_part (snd x) = fixed_part j) rs js"

definition replayable :: "job_env \<Rightarrow> queue \<Rightarrow> (job_key \<times> job) list \<Rightarrow> bool" where
  "replayable a q rs \<longleftrightarrow> replay_specs a (jq_specs q) = Inr rs \<and> map fst rs = map (\<lambda>s. (sp_id s, sp_revision s)) (jq_specs q)
     \<and> aligned rs (jq_jobs q) \<and> rows_ok (je_trust a) (spec_table rs q) (jq_history q)
     \<and> (\<forall>j \<in> set (jq_jobs q). \<exists>h. last_row (jq_history q) (job_key_of j) = Some h \<and> history_snapshot h = record_snapshot j)"

lemma aligned_keys: "aligned rs js \<Longrightarrow> map fst rs = map job_key_of js"
  unfolding aligned_def by (induction rule: list_all2_induct) auto

lemma aligned_find:
  assumes "aligned rs js" "find (\<lambda>j. job_key_of j = key) js = Some j"
  shows "\<exists>r. map_of rs key = Some r \<and> fixed_part r = fixed_part j"
  using assms unfolding aligned_def by (induction rule: list_all2_induct) (auto split: if_splits)

lemma aligned_none: "aligned rs js \<Longrightarrow> find (\<lambda>j. job_key_of j = key) js = None \<Longrightarrow> map_of rs key = None"
  unfolding aligned_def by (induction rule: list_all2_induct) (auto split: if_splits)

lemma replayable_rebuilds:
  assumes "replayable a q rs" "keyed_jobs q"
  shows "rebuilt rs (jq_history q) (jid, rv) = find_job q jid rv"
proof (cases "find_job q jid rv")
  case None
  then have "map_of rs (jid, rv) = None"
    using assms(1) aligned_none [of rs "jq_jobs q" "(jid, rv)"] by (simp add: replayable_def find_job_def)
  then show ?thesis using None by (simp add: rebuilt_def)
next
  case (Some j)
  then have f: "find (\<lambda>j. job_key_of j = (jid, rv)) (jq_jobs q) = Some j" by (simp add: find_job_def)
  obtain r where r: "map_of rs (jid, rv) = Some r" "fixed_part r = fixed_part j"
    using aligned_find [OF _ f] assms(1) by (auto simp: replayable_def)
  have "j \<in> set (jq_jobs q)" "job_key_of j = (jid, rv)" using f by (auto simp: find_Some_iff dest: nth_mem)
  then obtain h where "last_row (jq_history q) (jid, rv) = Some h" "history_snapshot h = record_snapshot j"
    using assms(1) by (auto simp: replayable_def)
  then show ?thesis using r snapshot_restores Some by (simp add: rebuilt_def)
qed

lemma key_of_rows: "last_row hs key = None \<longleftrightarrow> key \<notin> hi_key ` set hs"
  by (auto simp: last_row_def find_None_iff)

lemma replayable_replays:
  assumes "replayable a q rs" "keyed_jobs q"
  shows "\<exists>out. replay_jobs a None q = Inr out \<and> map_of out = (\<lambda>key. find_job q (fst key) (snd key))"
proof -
  have rows: "rows_ok (je_trust a) (spec_table rs q) ([] @ jq_history q)" using assms(1) by (simp add: replayable_def)
  obtain st where st: "replay_rows a 0 q (replay_start rs) (jq_history q) = Inr st" "reaches rs (jq_history q) st"
    using replay_rows_ok [OF rows reaches_start] by auto
  have d: "set (map fst xs) = dom (map_of xs)" for xs :: "('k \<times> 'v) list" by (simp add: dom_map_of_conv_image_fst)
  have m: "map_of (rp_records st) key = find_job q (fst key) (snd key)" for key
    using st(2) replayable_rebuilds [OF assms, of "fst key" "snd key"] by (simp add: reaches_def)
  have "(last_row (jq_history q) key \<noteq> None) = (find_job q (fst key) (snd key) \<noteq> None)" for key
  proof
    assume "find_job q (fst key) (snd key) \<noteq> None"
    then obtain j where "j \<in> set (jq_jobs q)" "job_key_of j = key" by (auto simp: find_job_def find_Some_iff dest: nth_mem)
    then show "last_row (jq_history q) key \<noteq> None" using assms(1) by (auto simp: replayable_def)
  next
    assume "last_row (jq_history q) key \<noteq> None"
    then obtain h where h: "h \<in> set (jq_history q)" "hi_key h = key" by (auto simp: key_of_rows)
    then obtain xs ys where "jq_history q = xs @ h # ys" by (auto simp: in_set_conv_decomp)
    then have "row_ok (je_trust a) (spec_table rs q) xs h" using rows by (auto simp: rows_ok_def)
    then obtain r where "map_of rs key = Some r" using h(2) by (auto simp: row_ok_def spec_table_def split: option.splits)
    then show "find_job q (fst key) (snd key) \<noteq> None"
      using assms(1) aligned_none [of rs "jq_jobs q" key] by (auto simp: replayable_def find_job_def)
  qed
  then have "dom (map_of (rp_latest st)) = dom (map_of (rp_records st))"
    using st(2) m by (auto simp: reaches_def dom_def)
  then show ?thesis using assms(1) st(1) m
    by (auto simp: replay_jobs_def verify_job_spec_cutover_def legacy_sequence_def replayable_def d simp del: set_map)
qed

subsection \<open>What append_history writes replays\<close>

lemma plain_py_of: "plain_ok (py_of j)"
proof (induction j)
  case (JObj kvs)
  then have "plain_ok (obj (map (\<lambda>(k, v). (k, py_of v)) kvs))" by (fastforce simp: snds.simps)
  then show ?case by (simp add: obj_def comp_def case_prod_unfold)
qed simp_all

lemma rl_idem:
  assumes "canonical_text v = Inr t" "plain_ok v"
  shows "rl (rl v) = rl v" "canonical_text (rl v) = Inr t" "canonical_digest (rl v) = canonical_digest v"
proof -
  have r: "reloaded v = rl v" by (rule reloaded_plain [OF assms])
  have t: "canonical_text (rl v) = Inr t" and c: "content (rl v) = content v" using canonical_text_reload [OF assms(1)] r by simp_all
  have "plain_ok (rl v)" using assms(2) plain_py_of by (auto simp: rl_def plain_ok_def split: option.splits)
  then have "reloaded (rl v) = rl (rl v)" using reloaded_plain [OF t] by simp
  then show "rl (rl v) = rl v" using c r by (cases "content v") (simp_all add: reloaded_def)
  show "canonical_text (rl v) = Inr t" by (rule t)
  have "canonical_bytes (rl v) = canonical_bytes v" using t assms(1) by (simp add: canonical_text_bytes)
  then show "canonical_digest (rl v) = canonical_digest v" by (simp add: canonical_digest_def)
qed

lemma rows_tip:
  assumes "rows_ok tr sp (jq_history q)"
  shows "history_tip q = (int (length (jq_history q)), chain_digest (jq_history q))"
proof (cases "jq_history q" rule: rev_cases)
  case (snoc xs h)
  then have "row_ok tr sp xs h" using assms rows_ok_append by simp
  moreover have "history_tip q = (hi_sequence h, hi_digest h)" using snoc by (cases xs) (simp_all add: history_tip_def)
  ultimately show ?thesis using snoc by (simp add: row_ok_def)
qed (simp add: history_tip_def)

lemma draft_items:
  "history_items (h\<lparr>hi_digest := dg, hi_auth := m\<rparr>) = history_items h" "plain_ok (obj (history_items h @ [(''job_spec_digest'', PStr spec)]))"
  by (simp_all add: history_items_def)

lemma appended_row:
  assumes ap: "append_history env q op prev j now = Inr q'" "same_authority a env" "honours (je_trust a) (je_signer a)"
    and rows: "rows_ok (je_trust a) sp (jq_history q)" "spec_digest_of q (jb_id j) (jb_revision j) = Some dg" "dg \<noteq> zero_digest"
    and sp: "sp (job_key_of j) = Some (r, dg)" "fixed_part r = fixed_part j"
    and prev: "case last_row (jq_history q) (job_key_of j) of None \<Rightarrow> op = ''queued'' \<and> prev = None
      | Some g \<Rightarrow> map_option job_state_value prev = Some (hi_state g)"
    and allowed: "move_allowed op (map_option job_state_value prev) (job_state_value (jb_state j))" and upd: "jb_updated j = now"
  obtains h where "jq_history q' = jq_history q @ [h]" "row_ok (je_trust a) sp (jq_history q) h" "hi_key h = job_key_of j"
    "history_snapshot h = record_snapshot j" "hi_operation h = op" "hi_from h = map_option job_state_value prev"
proof -
  obtain material spec hdg m h0 q2 where m: "record_material_digest j = Inr material" "spec_digest_of q (jb_id j) (jb_revision j) = Some spec"
    and h0: "h0 = history_draft j (fst (history_tip q) + 1) op prev now (snd (history_tip q)) material spec"
    and d: "canonical_digest (obj (history_items h0 @ [(''job_spec_digest'', PStr spec)])) = Inr hdg"
    and sg: "sign_manifest (je_signer env) (je_trust env) ''job_transition'' (obj (history_items h0 @ [(''job_spec_digest'', PStr spec)])) now = Inr m"
    and q2: "append_delta env (q\<lparr>jq_history := jq_history q @ [h0\<lparr>hi_digest := hdg, hi_auth := m\<rparr>]\<rparr>) op ''job_history'' (hi_sequence h0) hdg now = Inr q2"
    and q': "write_job_checkpoint env q2 now True = Inr q'"
    by (rule append_history_Inr [OF ap(1)])
  let ?v = "obj (history_items h0 @ [(''job_spec_digest'', PStr spec)])"
  let ?h = "h0\<lparr>hi_digest := hdg, hi_auth := m\<rparr>"
  have auth: "je_trust env = je_trust a" "je_signer env = je_signer a" using ap(2) by (simp_all add: same_authority_def)
  have "hi_spec h0 = spec" "spec \<noteq> zero_digest" using rows(2,3) m(2) by (simp_all add: h0 history_draft_def)
  then have val: "history_value ?h = ?v" by (simp add: history_value_def draft_items(1))
  obtain t where t: "canonical_text ?v = Inr t" using d by (auto simp: canonical_digest_def canonical_text_def map_res_Inr)
  have "verify_manifest (je_trust a) m = Inr (rl ?v)"
    using signed_verifies [OF sg [unfolded auth] ap(3) draft_items(2)] .
  moreover have "mk_signed_manifest (je_trust a) ''job_transition'' (sm_body_json m) (sm_body_digest m) (sm_key_id m) (sm_signature m) = Inr m"
    using sg auth by (auto simp: sign_manifest_Inr mk_signed_manifest_Inr)
  moreover have "same_dict (rl ?v) ?v" using rl_idem(1) [OF t draft_items(2)] by (simp add: same_dict_def)
  ultimately have "auth_ok (je_trust a) ?h" unfolding auth_ok_def val by auto
  moreover have key: "hi_key ?h = job_key_of j" by (simp add: h0 history_draft_def hi_key_def job_key_of_def)
  moreover have "follows (jq_history q) ?h"
    using prev unfolding follows_def key by (auto simp: h0 history_draft_def split: option.splits)
  moreover have "hi_spec ?h = dg" "hi_material ?h = material" "hi_operation ?h = op" "hi_from ?h = map_option job_state_value prev"
    "hi_state ?h = job_state_value (jb_state j)"
    using rows(2) m(2) by (simp_all add: h0 history_draft_def)
  moreover have "hi_sequence ?h = int (length (jq_history q)) + 1" "hi_prior ?h = chain_digest (jq_history q)"
    using rows_tip [OF rows(1)] by (simp_all add: h0 history_draft_def)
  moreover have "record_material_digest r = Inr material" using m(1) material_fixed [OF sp(2)] by simp
  ultimately have "row_ok (je_trust a) sp (jq_history q) ?h"
    using sp(1) d val allowed by (simp add: row_ok_def verify_transition_def)
  moreover have "jq_history q' = jq_history q @ [?h]"
    using append_delta_frame [OF q2] write_job_checkpoint_frame [OF q'] by simp
  moreover have "history_snapshot ?h = record_snapshot j"
    using upd by (simp add: history_snapshot_def record_snapshot_def h0 history_draft_def)
  ultimately show thesis using that [of ?h] key h0 by (simp add: history_draft_def)
qed

end
