(* ===== verification/Job_Rebuild.thy ===== *)
theory Job_Rebuild
  imports Job_Replayable
begin

section \<open>Every run of the queue replays\<close>

text \<open>
  The invariant of \<open>Job_Replayable\<close> along the steps of the queue. Two things can break it: a spec
  whose digest is sixty-four zeros, and a queued job recorded as stale, a move that the code makes
  when the recombination authority of queued work has changed and that \<open>_verify_transition\<close> does not
  list.
\<close>

subsection \<open>Moves\<close>

text \<open>A history without the move that is not listed.\<close>

definition queued_stale :: "history_row \<Rightarrow> bool" where
  "queued_stale h \<longleftrightarrow> hi_operation h = ''stale'' \<and> hi_from h = Some ''queued''"

definition real_digests :: "queue \<Rightarrow> bool" where
  "real_digests q \<longleftrightarrow> (\<forall>s \<in> set (jq_specs q). sp_digest s \<noteq> zero_digest)"

lemma move_listed:
  assumes "move op now j j'" "\<not> (op = ''stale'' \<and> jb_state j = JS_QUEUED)"
  shows "move_allowed op (Some (job_state_value (jb_state j))) (job_state_value (jb_state j'))"
  using assms
  by (induction rule: move.induct)
    (auto simp: move_allowed_def allowed_moves_def row_defs holds_lease_def lease_expired_def retry_due_def active_state_def)

lemma spec_digest_known:
  assumes "map fst rs = map (\<lambda>s. (sp_id s, sp_revision s)) (jq_specs q)" "map_of rs key = Some r" "real_digests q"
  obtains dg where "spec_digest_of q (fst key) (snd key) = Some dg" "dg \<noteq> zero_digest" "spec_table rs q key = Some (r, dg)"
proof -
  have "key \<in> fst ` set rs" using assms(2) by (force dest: map_of_SomeD)
  then have "key \<in> set (map (\<lambda>s. (sp_id s, sp_revision s)) (jq_specs q))" unfolding assms(1) [symmetric] by simp
  then have "find (\<lambda>s. (sp_id s, sp_revision s) = key) (jq_specs q) \<noteq> None" by (auto simp: find_None_iff)
  then obtain s where s: "find (\<lambda>s. (sp_id s, sp_revision s) = key) (jq_specs q) = Some s" by blast
  then have "s \<in> set (jq_specs q)" by (auto simp: find_Some_iff dest: nth_mem)
  then have "sp_digest s \<noteq> zero_digest" using assms(3) by (simp add: real_digests_def)
  moreover have "spec_digest_of q (fst key) (snd key) = Some (sp_digest s)" using s by (simp add: spec_digest_of_def)
  ultimately show thesis using that assms(2) by (simp add: spec_table_def)
qed

lemma aligned_replaced:
  assumes "aligned rs js" "distinct (map job_key_of js)" "j \<in> set js" "fixed_part j' = fixed_part j"
  shows "aligned rs (replaced j' js)"
proof -
  have key: "job_key_of j' = job_key_of j" using fixed_fields(1) [OF assms(4)] .
  have "k = j" if "k \<in> set js" "job_key_of k = job_key_of j" for k
    using that assms(2,3) by (auto simp: distinct_map inj_on_def)
  then have "fixed_part (js ! i) = fixed_part j" if "i < length js" "job_key_of (js ! i) = job_key_of j" for i
    using that by (metis nth_mem)
  then show ?thesis using assms(1,4) key unfolding aligned_def replaced_def by (auto simp: list_all2_conv_all_nth)
qed

lemma moved_replayable:
  assumes q: "replayable a q rs" "keyed_jobs q" "find_job q (jb_id j) (jb_revision j) = Some j" and mv: "move op now j j'"
    and ap: "append_history env q1 op (Some (jb_state j)) j' now = Inr q'" "jq_jobs q1 = replaced j' (jq_jobs q)" "jq_history q1 = jq_history q"
      "jq_specs q1 = jq_specs q"
    and au: "same_authority a env" "honours (je_trust a) (je_signer a)" "real_digests q"
    and lt: "\<not> (op = ''stale'' \<and> jb_state j = JS_QUEUED)"
  shows "replayable a q' rs"
proof -
  note f = fixed_fields [OF move_fixed [OF mv]]
  have j: "j \<in> set (jq_jobs q)" using q(3) by (auto dest: find_job_key)
  have "find (\<lambda>k. job_key_of k = job_key_of j) (jq_jobs q) = Some j" using q(3) by (simp add: find_job_def job_key_of_def)
  from aligned_find [OF _ this] obtain r where r: "map_of rs (job_key_of j) = Some r" "fixed_part r = fixed_part j"
    using q(1) by (auto simp: replayable_def)
  obtain dg where dg: "spec_digest_of q (fst (job_key_of j)) (snd (job_key_of j)) = Some dg" "dg \<noteq> zero_digest"
      "spec_table rs q (job_key_of j) = Some (r, dg)"
    using spec_digest_known [OF _ r(1) au(3)] q(1) by (auto simp: replayable_def)
  obtain g where g: "last_row (jq_history q) (job_key_of j) = Some g" "history_snapshot g = record_snapshot j"
    using q(1) j by (auto simp: replayable_def)
  have sd: "spec_digest_of q1 (jb_id j') (jb_revision j') = Some dg" using dg(1) f(9,10) ap(4) by (simp add: spec_digest_of_def job_key_of_def)
  have rows: "rows_ok (je_trust a) (spec_table rs q) (jq_history q1)" using q(1) ap(3) by (simp add: replayable_def)
  obtain h where h: "jq_history q' = jq_history q1 @ [h]" "row_ok (je_trust a) (spec_table rs q) (jq_history q1) h" "hi_key h = job_key_of j'"
    "history_snapshot h = record_snapshot j'"
  proof (rule appended_row [OF ap(1) au(1,2) rows sd dg(2)])
    show "spec_table rs q (job_key_of j') = Some (r, dg)" using dg(3) f(1) by simp
    show "fixed_part r = fixed_part j'" using r(2) move_fixed [OF mv] by simp
    show "case last_row (jq_history q1) (job_key_of j') of None \<Rightarrow> op = ''queued'' \<and> Some (jb_state j) = None
      | Some g \<Rightarrow> map_option job_state_value (Some (jb_state j)) = Some (hi_state g)"
      using g f(1) ap(3) by (simp add: history_snapshot_def record_snapshot_def)
    show "move_allowed op (map_option job_state_value (Some (jb_state j))) (job_state_value (jb_state j'))" using move_listed [OF mv lt] by simp
    show "jb_updated j' = now" by (rule move_updated [OF mv])
  qed
  have jobs: "jq_jobs q' = replaced j' (jq_jobs q)" "jq_specs q' = jq_specs q" using append_history_frame [OF ap(1)] ap(2,4) by simp_all
  have "aligned rs (jq_jobs q')" unfolding jobs(1)
    by (rule aligned_replaced [OF _ _ j move_fixed [OF mv]]) (use q(1,2) in \<open>simp_all add: replayable_def keyed_jobs_def\<close>)
  moreover have "spec_table rs q' = spec_table rs q" by (simp add: spec_table_def spec_digest_of_def jobs(2) fun_eq_iff)
  moreover have "\<exists>h. last_row (jq_history q') (job_key_of k) = Some h \<and> history_snapshot h = record_snapshot k" if "k \<in> set (jq_jobs q')" for k
  proof (cases "job_key_of k = job_key_of j'")
    case True
    then have "k = j'" using that by (auto simp: jobs(1) replaced_def)
    then show ?thesis using h by simp
  next
    case False
    then have "k \<in> set (jq_jobs q)" using that by (auto simp: jobs(1) replaced_def)
    then show ?thesis using False h(1,3) ap(3) q(1) by (auto simp: replayable_def)
  qed
  ultimately show ?thesis using q(1) h(1,2) ap(3) jobs(2) by (simp add: replayable_def rows_ok_append)
qed

subsection \<open>Specs\<close>

lemma replay_specs_append:
  "replay_specs env (ss @ [s]) = bind_res (replay_specs env ss) (\<lambda>rs. map_res (\<lambda>x. rs @ [x]) (replay_spec env s))"
proof (induction ss)
  case Nil
  show ?case by (cases "replay_spec env s") simp_all
next
  case (Cons t ss)
  then show ?case by (cases "replay_spec env t"; cases "replay_specs env ss"; cases "replay_spec env s") simp_all
qed

text \<open>An installed spec is read back as the queued job.\<close>

lemma installed_spec:
  assumes "install_job_spec env q j = Inr q'" "same_authority a env" "honours (je_trust a) (je_signer a)" "jb_state j = JS_QUEUED"
  obtains s where "q' = q\<lparr>jq_specs := jq_specs q @ [s]\<rparr>" "replay_spec a s = Inr (job_key_of j, j)" "(sp_id s, sp_revision s) = job_key_of j"
proof -
  let ?v = "job_spec_value j"
  obtain dg m json mt where d: "canonical_digest ?v = Inr dg" and m: "sign_manifest (je_signer env) (je_trust env) ''job_spec'' ?v (jb_created j) = Inr m"
    and json: "canonical_text ?v = Inr json" and mt: "canonical_text (signed_manifest_to_dict m) = Inr mt"
    and q': "q' = q\<lparr>jq_specs := jq_specs q @ [\<lparr>sp_id = jb_id j, sp_revision = jb_revision j, sp_json = json, sp_digest = dg,
         sp_manifest = mt, sp_created = jb_created j\<rparr>]\<rparr>"
    using assms(1) by (auto simp: install_job_spec_def bind_res_Inr map_res_Inr result_simps simp del: guards.simps)
  have auth: "je_trust env = je_trust a" "je_signer env = je_signer a" using assms(2) by (simp_all add: same_authority_def)
  have jl: "json_loads json = Some (rl ?v)"
    using canonical_text_reload [OF json] reloaded_plain [OF json job_spec_plain] by simp
  note idem = rl_idem [OF json job_spec_plain]
  obtain kind body mdg key sig where mk: "mk_signed_manifest (je_trust a) kind body mdg key sig = Inr m"
    using m auth by (auto simp: sign_manifest_Inr)
  obtain mv where mv: "json_loads mt = Some mv" "signed_manifest_from_dict (je_trust a) mv = Inr m"
    using manifest_from_dict_text [OF mk mt] by blast
  have "verify_manifest (je_trust a) m = Inr (rl ?v)" using signed_verifies [OF m [unfolded auth] assms(3) job_spec_plain] .
  then have "replay_spec a \<lparr>sp_id = jb_id j, sp_revision = jb_revision j, sp_json = json, sp_digest = dg, sp_manifest = mt,
      sp_created = jb_created j\<rparr> = Inr (job_key_of j, j)"
    using jl mv idem(2) idem(3) d assms(4)
    by (simp add: replay_spec_def Let_def job_spec_reload job_contract_def job_integrity_def same_dict_def job_key_of_def)
  then show thesis using that q' by (simp add: job_key_of_def)
qed

lemma row_ok_mono:
  assumes "row_ok tr sp xs h" "\<And>key x. sp key = Some x \<Longrightarrow> sp' key = Some x"
  shows "row_ok tr sp' xs h"
proof -
  obtain r where "sp (hi_key h) = Some (r, hi_spec h)" "record_material_digest r = Inr (hi_material h)"
    using assms(1) by (auto simp: row_ok_def)
  with assms show ?thesis by (simp add: row_ok_def)
qed

lemma spec_table_mono:
  assumes "spec_table rs q key = Some x" "jq_specs q' = jq_specs q @ [s]"
  shows "spec_table (rs @ ys) q' key = Some x"
  using assms by (auto simp: spec_table_def spec_digest_of_def find_append map_add_def split: option.splits)

lemma enqueued_replayable:
  assumes q: "replayable a q rs" "find_job q (jr_job_id r) (jr_revision r) = None"
    and inst: "install_job_spec env (q\<lparr>jq_jobs := jq_jobs q @ [queued_job r]\<rparr>) (queued_job r) = Inr q1"
    and ap: "append_history env q1 ''queued'' None (queued_job r) (jr_created r) = Inr q'"
    and au: "same_authority a env" "honours (je_trust a) (je_signer a)" "real_digests q'"
  shows "\<exists>rs1. replayable a q' rs1"
proof -
  let ?j = "queued_job r"
  have st: "jb_state ?j = JS_QUEUED" "jb_updated ?j = jr_created r" by (simp_all add: queued_job_def)
  obtain s where s: "q1 = q\<lparr>jq_jobs := jq_jobs q @ [?j], jq_specs := jq_specs q @ [s]\<rparr>" "replay_spec a s = Inr (job_key_of ?j, ?j)"
      "(sp_id s, sp_revision s) = job_key_of ?j"
    using installed_spec [OF inst au(1,2) st(1)] by auto
  let ?rs = "rs @ [(job_key_of ?j, ?j)]"
  have none: "find (\<lambda>k. job_key_of k = job_key_of ?j) (jq_jobs q) = None" using q(2) by (simp add: find_job_def)
  have fresh: "map_of rs (job_key_of ?j) = None" using aligned_none [OF _ none] q(1) by (simp add: replayable_def)
  have specs: "replay_specs a (jq_specs q1) = Inr ?rs" "map fst ?rs = map (\<lambda>s. (sp_id s, sp_revision s)) (jq_specs q1)"
    using q(1) s by (simp_all add: replayable_def replay_specs_append)
  have frame: "jq_jobs q' = jq_jobs q @ [?j]" "jq_specs q' = jq_specs q1" using append_history_frame [OF ap] s(1) by simp_all
  have tab: "spec_table ?rs q1 = spec_table ?rs q'" by (simp add: spec_table_def spec_digest_of_def frame(2) fun_eq_iff)
  have old: "rows_ok (je_trust a) (spec_table rs q) (jq_history q)" using q(1) by (simp add: replayable_def)
  have rows: "rows_ok (je_trust a) (spec_table ?rs q1) (jq_history q1)"
    unfolding rows_ok_def
  proof (intro allI impI)
    fix xs h ys assume "jq_history q1 = xs @ h # ys"
    then have "row_ok (je_trust a) (spec_table rs q) xs h" using old s(1) by (simp add: rows_ok_def)
    then show "row_ok (je_trust a) (spec_table ?rs q1) xs h"
      by (rule row_ok_mono) (rule spec_table_mono, assumption, simp add: s(1))
  qed
  have key: "map_of ?rs (job_key_of ?j) = Some ?j" using fresh by (simp add: map_add_def)
  obtain dg where dg: "spec_digest_of q1 (fst (job_key_of ?j)) (snd (job_key_of ?j)) = Some dg" "dg \<noteq> zero_digest"
      "spec_table ?rs q1 (job_key_of ?j) = Some (?j, dg)"
    by (rule spec_digest_known [OF specs(2) key]) (use au(3) frame(2) in \<open>simp_all add: real_digests_def\<close>)
  have lr: "last_row (jq_history q1) (job_key_of ?j) = None"
  proof (rule ccontr)
    assume "last_row (jq_history q1) (job_key_of ?j) \<noteq> None"
    then obtain h where h: "h \<in> set (jq_history q)" "hi_key h = job_key_of ?j" using s(1) by (auto dest!: last_row_in)
    then obtain xs ys where "jq_history q = xs @ h # ys" by (auto simp: in_set_conv_decomp)
    then have "row_ok (je_trust a) (spec_table rs q) xs h" using old by (auto simp: rows_ok_def)
    then show False using fresh h(2) by (auto simp: row_ok_def spec_table_def)
  qed
  obtain h where h: "jq_history q' = jq_history q1 @ [h]" "row_ok (je_trust a) (spec_table ?rs q1) (jq_history q1) h" "hi_key h = job_key_of ?j"
    "history_snapshot h = record_snapshot ?j"
  proof (rule appended_row [OF ap au(1,2) rows _ dg(2)])
    show "spec_digest_of q1 (jb_id ?j) (jb_revision ?j) = Some dg" using dg(1) by (simp add: job_key_of_def)
    show "spec_table ?rs q1 (job_key_of ?j) = Some (?j, dg)" by (rule dg(3))
    show "case last_row (jq_history q1) (job_key_of ?j) of None \<Rightarrow> ''queued'' = ''queued'' \<and> None = None
      | Some g \<Rightarrow> map_option job_state_value None = Some (hi_state g)" using lr by simp
    show "move_allowed ''queued'' (map_option job_state_value None) (job_state_value (jb_state ?j))"
      by (simp add: st move_allowed_def allowed_moves_def)
  qed (use st in simp_all)
  have "\<exists>h. last_row (jq_history q') (job_key_of k) = Some h \<and> history_snapshot h = record_snapshot k" if "k \<in> set (jq_jobs q')" for k
  proof (cases "job_key_of k = job_key_of ?j")
    case True
    then have "k \<notin> set (jq_jobs q)" using none by (auto simp: find_None_iff)
    then show ?thesis using that h by (simp add: frame(1))
  next
    case False
    then show ?thesis using that h(1,3) q(1) s(1) by (auto simp: frame(1) replayable_def)
  qed
  moreover have "aligned ?rs (jq_jobs q')" using q(1) by (simp add: frame(1) replayable_def aligned_def list_all2_appendI)
  ultimately have "replayable a q' ?rs" using specs frame(2) h(1,2) rows tab by (simp add: replayable_def rows_ok_append)
  then show ?thesis ..
qed

subsection \<open>Runs\<close>

lemma step_grows:
  assumes "queue_step a q q'"
  shows "(\<exists>hs. jq_history q' = jq_history q @ hs) \<and> (\<exists>ss. jq_specs q' = jq_specs q @ ss)"
  using assms
proof (cases rule: queue_step.cases)
  case (enqueued env r s q1)
  then show ?thesis using append_history_row [OF enqueued(7)] append_history_frame(2) [OF enqueued(7)]
    by (auto simp: install_job_spec_def bind_res_Inr map_res_Inr)
next
  case (published env j now res q1)
  then show ?thesis using append_history_row [OF published(5)] append_history_frame(2) [OF published(5)]
      insert_publication_frame [OF published(4)] by auto
next
  case (moved env j op now j')
  then show ?thesis using append_history_row [OF moved(6)] append_history_frame(2) [OF moved(6)] by auto
next
  case (leased env j now j' l)
  then show ?thesis using append_history_row [OF leased(7)] append_history_frame(2) [OF leased(7)] by auto
qed simp

definition clean :: "queue \<Rightarrow> bool" where
  "clean q \<longleftrightarrow> real_digests q \<and> (\<forall>h \<in> set (jq_history q). \<not> queued_stale h)"

lemma step_clean: "queue_step a q q' \<Longrightarrow> clean q' \<Longrightarrow> clean q"
  using step_grows [of a q q'] by (auto simp: clean_def real_digests_def)

lemma moved_not_stale:
  assumes "append_history env q1 op (Some (jb_state j)) j' now = Inr q'" "clean q'"
  shows "\<not> (op = ''stale'' \<and> jb_state j = JS_QUEUED)"
  using append_history_row [OF assms(1)] assms(2) by (auto simp: clean_def queued_stale_def)

lemma step_replayable:
  assumes "queue_step a q q'" "honours (je_trust a) (je_signer a)" "keyed_jobs q" "clean q'" "replayable a q rs"
  shows "\<exists>rs1. replayable a q' rs1"
proof -
  have cl: "real_digests q" using step_clean [OF assms(1,4)] by (simp add: clean_def)
  note jobs = put_job_def replaced_def
  show ?thesis using assms(1)
  proof (cases rule: queue_step.cases)
    case (enqueued env r s q1)
    show ?thesis by (rule enqueued_replayable [OF assms(5) enqueued(4,6,7,1) assms(2)]) (use assms(4) in \<open>simp add: clean_def\<close>)
  next
    case (moved env j op now j')
    from moved_replayable [OF assms(5,3) moved(2,3,6) _ _ _ moved(1) assms(2) cl moved_not_stale [OF moved(6) assms(4)]]
    have "replayable a q' rs" by (simp add: jobs)
    then show ?thesis ..
  next
    case (leased env j now j' l)
    from moved_replayable [OF assms(5,3) leased(2,3,7) _ _ _ leased(1) assms(2) cl]
    have "replayable a q' rs" by (simp add: jobs)
    then show ?thesis ..
  next
    case (published env j now res q1)
    note p = insert_publication_frame [OF published(4)]
    from moved_replayable [OF assms(5,3) published(2) move.succeeded [OF published(3)] published(5) _ _ _ published(1) assms(2) cl]
    have "replayable a q' rs" using p by (simp add: jobs)
    then show ?thesis ..
  next
    case elsewhere
    then have "spec_table rs q' = spec_table rs q" by (simp add: spec_table_def spec_digest_of_def fun_eq_iff)
    then show ?thesis using elsewhere assms(5) by (auto simp: replayable_def)
  qed
qed

lemma run_clean: "queue_run a q q' \<Longrightarrow> clean q' \<Longrightarrow> clean q"
  by (induction rule: rtranclp_induct) (blast dest: step_clean)+

lemma run_replayable:
  assumes "queue_run a q q'" "honours (je_trust a) (je_signer a)" "keyed_jobs q" "clean q'" "replayable a q rs"
  shows "\<exists>rs1. replayable a q' rs1"
  using assms(1,4)
proof (induction rule: rtranclp_induct)
  case base
  show ?case using assms(5) by blast
next
  case (step q1 q2)
  then show ?case using step_replayable [OF step(2) assms(2) run_keyed [OF step(1) assms(3)] step(4)] step_clean by blast
qed

subsection \<open>What a replay refuses\<close>

lemma listed_rows: "replay_rows env l q st hs = Inr st1 \<Longrightarrow> h \<in> set hs \<Longrightarrow> verify_transition h = Inr ()"
  by (induction hs arbitrary: st) (auto simp: bind_res_Inr replay_row_def)

lemma queued_stale_unlisted: "queued_stale h \<Longrightarrow> verify_transition h \<noteq> Inr ()"
  by (auto simp: queued_stale_def verify_transition_def move_allowed_def allowed_moves_def)

lemma queued_stale_refused:
  assumes "h \<in> set (jq_history q)" "queued_stale h"
  shows "isl (replay_jobs env c q)"
proof (rule Inr_isl)
  fix x assume "replay_jobs env c q = Inr x"
  then show False using listed_rows [OF _ assms(1)] queued_stale_unlisted [OF assms(2)] by (auto simp: replay_jobs_def bind_res_Inr)
qed

lemma run_grows: "queue_run a q q' \<Longrightarrow> set (jq_history q) \<subseteq> set (jq_history q') \<and> length (jq_specs q) \<le> length (jq_specs q')"
  by (induction rule: rtranclp_induct) (fastforce dest!: step_grows)+

text \<open>Reconciliation never makes a queued job stale, a lease never does, so a claim that does has recorded the move.\<close>

lemma reconcile_not_stale: "jb_state j = JS_QUEUED \<Longrightarrow> jb_state (reconcile_row now j) \<noteq> JS_STALE"
  by (auto simp: reconcile_row_def Let_def lease_expired_def retry_due_def late_row_def finished_job_def released_def)

lemma claim_exact_stale:
  assumes "claim_exact env q jid rv w now d = Inr (c, q')" "keyed_jobs q" "find_job q jid rv = Some j" "jb_state j = JS_QUEUED"
    "find_job q' jid rv = Some k" "jb_state k = JS_STALE"
  shows "\<exists>h \<in> set (jq_history q'). queued_stale h"
proof -
  obtain q1 i where ck: "0 < d" "utc_ok now" and q1: "reconcile_for_claim env q now = Inr q1" and i: "get_job q1 jid rv = Inr i"
    and rest: "(if jb_state i \<noteq> JS_QUEUED then Inr (None, q1)
     else if (case jb_not_before i of None \<Rightarrow> True | Some b \<Rightarrow> now < b) then Inr (None, q1)
     else if jb_deadline i \<le> now then Inr (None, q1) else
     bind_res (queue_load_of q1 (jb_lane i)) (\<lambda>load.
     bind_res (job_capacity (decide_admission (je_capacity env) (jb_lane i) (jb_priority i) load True False)) (\<lambda>decision.
     if \<not> ad_admitted decision then Inr (None, q1) else
     bind_res (context_current env i) (\<lambda>ok.
     if \<not> ok then map_res (\<lambda>(_, q2). (None, q2)) (finish_job env q1 i JS_STALE now ''recombination_authority_changed'')
     else if jb_resource i = JR_LOCAL_GPU \<and> gpu_leased q1 then Inr (None, q1)
     else map_res (\<lambda>(k, q2). (Some k, q2)) (lease_job env q1 i w now d))))) = Inr (c, q')"
    using assms(1) by (auto simp: claim_exact_def bind_res_Inr claim_checks_Inr)
  note rec = reconcile_pointwise [OF q1 same_authority_refl assms(2)]
  have f1: "find_job q1 jid rv = Some i" using i by (simp add: get_job_Inr)
  then have "i \<in> set (jq_jobs q1)" "job_key_of i = (jid, rv)" by (auto dest: find_job_key simp: job_key_of_def)
  then obtain g where g: "g \<in> set (jq_jobs q)" "i = reconcile_row now g" using rec(2) by auto
  have rk: "job_key_of (reconcile_row now g) = job_key_of g"
    by (simp add: reconcile_row_def Let_def expire_row_def retry_row_def late_row_def)
  have "find_job q jid rv = Some g"
    using g rk \<open>job_key_of i = (jid, rv)\<close> assms(2) by (simp add: find_job_iff job_key_of_def)
  then have ns: "jb_state i \<noteq> JS_STALE" using g(2) assms(3,4) reconcile_not_stale by simp
  have not1: "q' \<noteq> q1" using f1 ns assms(5,6) by auto
  have "(\<exists>x. finish_job env q1 i JS_STALE now ''recombination_authority_changed'' = Inr (x, q')) \<and> jb_state i = JS_QUEUED
     \<or> (\<exists>x. lease_job env q1 i w now d = Inr (x, q'))"
    using rest not1 by (auto simp: bind_res_Inr map_res_Inr split: if_splits)
  then show ?thesis
  proof (elim disjE exE conjE)
    fix x assume "finish_job env q1 i JS_STALE now ''recombination_authority_changed'' = Inr (x, q')" "jb_state i = JS_QUEUED"
    then have "append_history env (put_job q1 x) ''stale'' (Some JS_QUEUED) x now = Inr q'" by (auto simp: finish_job_Inr move_job_Inr)
    from append_history_row [OF this] show ?thesis by (auto simp: queued_stale_def)
  next
    fix x assume "lease_job env q1 i w now d = Inr (x, q')"
    then obtain e where "move_job env q1 ''leased'' i (leased_job i w now e) now = Inr (x, q')" by (auto simp: lease_job_def bind_res_Inr)
    from move_job_jobs(2) [OF this] have "find_job q' jid rv = Some (leased_job i w now e)"
      using find_job_replaced f1 \<open>job_key_of i = (jid, rv)\<close> by simp
    then show ?thesis using assms(5,6) by (simp add: leased_job_def)
  qed
qed

text \<open>A cutover counts the specs of its time, so it refuses every job that was enqueued after it.\<close>

lemma cutover_counts:
  "verify_job_spec_cutover env (Some c) q = Inr () \<Longrightarrow> int (length (jq_specs q)) = cv_spec_count c"
  by (auto simp: verify_job_spec_cutover_def bind_res_Inr guards_Inr simp del: guards.simps)

lemma enqueue_installs:
  assumes "enqueue env q r s = Inr (j, q')" "find (\<lambda>j. jb_key j = jr_key r) (jq_jobs q) = None"
  shows "length (jq_specs q') = length (jq_specs q) + 1"
proof -
  obtain q1 where "install_job_spec env (q\<lparr>jq_jobs := jq_jobs q @ [queued_job r]\<rparr>) (queued_job r) = Inr q1"
    "append_history env q1 ''queued'' None (queued_job r) (jr_created r) = Inr q'"
    using assms by (auto simp: enqueue_def bind_res_Inr map_res_Inr Let_def result_simps simp del: guards.simps)
  then show ?thesis using append_history_frame(2) by (auto simp: install_job_spec_def bind_res_Inr map_res_Inr)
qed

lemma cutover_refuses_later_jobs:
  assumes "verify_job_spec_cutover env (Some c) q = Inr ()" "enqueue env q r s = Inr (j, q')"
    "find (\<lambda>j. jb_key j = jr_key r) (jq_jobs q) = None"
  shows "isl (replay_jobs env2 (Some c) q')"
proof (rule Inr_isl)
  fix x assume "replay_jobs env2 (Some c) q' = Inr x"
  then have "int (length (jq_specs q')) = cv_spec_count c" using cutover_counts by (auto simp: replay_jobs_def bind_res_Inr)
  then show False using cutover_counts [OF assms(1)] enqueue_installs [OF assms(2,3)] by simp
qed

end
