(* ===== verification/Job_Deltas.thy ===== *)
theory Job_Deltas
  imports Job_Claims
begin

section \<open>The restart deltas bound a transaction\<close>

text \<open>
  Every recorded transition appends a delta to the suffix of the last restart checkpoint, and a
  suffix holds at most 64. A transaction that has to record more transitions than that cannot
  commit, however fresh the checkpoint is. Reconciliation is one transaction.
\<close>

definition suffix_length :: "queue \<Rightarrow> nat" where
  "suffix_length q = length (filter (\<lambda>r. Some (dl_base r) = jq_base q) (jq_deltas q))"

lemma history_delta:
  assumes "append_history env q op prev j now = Inr q'"
  shows "jq_base q' = jq_base q" "suffix_length q' = suffix_length q + 1" "suffix_length q < max_delta_suffix"
proof -
  obtain h q1 q2 where h: "q1 = q\<lparr>jq_history := jq_history q @ [h]\<rparr>"
    and q2: "\<exists>op kind an dg. append_delta env q1 op kind an dg now = Inr q2" and q': "write_job_checkpoint env q2 now True = Inr q'"
    using append_history_Inr [OF assms] by metis
  note f = write_job_checkpoint_frame [OF q']
  obtain op kind an dg where d: "append_delta env q1 op kind an dg now = Inr q2" using q2 by blast
  obtain base where b: "jq_base q1 = Some base" "length (filter (\<lambda>r. dl_base r = base) (jq_deltas q1)) < max_delta_suffix"
      "\<exists>r. jq_deltas q2 = jq_deltas q1 @ [r] \<and> dl_base r = base" "jq_base q2 = jq_base q1"
    using d by (auto simp: append_delta_def bind_res_Inr Let_def of_option_Inr not_le guards_Inr simp del: guards.simps)
  show "jq_base q' = jq_base q" using b(4) f h by simp
  show "suffix_length q' = suffix_length q + 1" "suffix_length q < max_delta_suffix"
    using b f h by (auto simp: suffix_length_def)
qed

lemma move_delta:
  assumes "move_job env q op old j now = Inr (k, q')"
  shows "jq_base q' = jq_base q" "suffix_length q' = suffix_length q + 1" "suffix_length q < max_delta_suffix"
proof -
  have a: "append_history env (put_job q j) op (Some (jb_state old)) j now = Inr q'" using assms by (simp add: move_job_Inr)
  have "suffix_length (put_job q j) = suffix_length q" "jq_base (put_job q j) = jq_base q"
    by (simp_all add: suffix_length_def put_job_def)
  then show "jq_base q' = jq_base q" "suffix_length q' = suffix_length q + 1" "suffix_length q < max_delta_suffix"
    using history_delta [OF a] by simp_all
qed

lemma reconcile_deltas:
  assumes "f \<in> {expire_lease env now, retry_job env now, drop_late env now}" "f j q = Inr q'"
  shows "suffix_length q' = suffix_length q + 1 \<and> suffix_length q < max_delta_suffix"
  using assms move_delta by (auto simp: expire_lease_def retry_job_def drop_late_def map_res_Inr finish_job_Inr split: if_splits)

lemma each_row_deltas:
  assumes "f \<in> {expire_lease env now, retry_job env now, drop_late env now}"
  shows "each_row f rs q = Inr q' \<Longrightarrow> suffix_length q \<le> max_delta_suffix
    \<Longrightarrow> suffix_length q' = suffix_length q + length rs \<and> suffix_length q' \<le> max_delta_suffix"
proof (induction rs arbitrary: q)
  case (Cons r rs)
  obtain s where s: "f r q = Inr s" "each_row f rs s = Inr q'" using Cons.prems(1) by (auto simp: bind_res_Inr)
  from reconcile_deltas [OF assms s(1)] Cons.IH [OF s(2)] show ?case by simp
qed simp

text \<open>A job that reconciliation has to touch.\<close>

definition overdue :: "string \<Rightarrow> job \<Rightarrow> bool" where
  "overdue now j \<longleftrightarrow> lease_expired now j \<or> retry_due now j \<or> queued_late now j"

lemma length_filter_map: "length (filter P (map h js)) = length (filter (\<lambda>j. P (h j)) js)"
  by (induction js) simp_all

lemma filter_disj_le: "length (filter (\<lambda>j. P j \<or> Q j \<or> R j) js) \<le> length (filter P js) + length (filter Q js) + length (filter R js)"
  by (induction js) auto

lemma filter_mono_le: "(\<And>j. P j \<Longrightarrow> Q j) \<Longrightarrow> length (filter P js) \<le> length (filter Q js)"
  by (induction js) auto

lemma reconcile_touches_few:
  assumes "reconcile_for_claim env q now = Inr q'" "keyed_jobs q" "suffix_length q \<le> max_delta_suffix"
  shows "suffix_length q + length (filter (overdue now) (jq_jobs q)) \<le> max_delta_suffix"
proof -
  obtain q1 q2 where q1: "each_row (expire_lease env now) (jobs_where (lease_expired now) q) q = Inr q1"
    and q2: "each_row (retry_job env now) (jobs_where (retry_due now) q1) q1 = Inr q2"
    and q3: "each_row (drop_late env now) (jobs_where (queued_late now) q2) q2 = Inr q'"
    using assms(1) by (auto simp: reconcile_for_claim_def bind_res_Inr)
  have key: "job_key_of (expire_row now j) = job_key_of j" "job_key_of (retry_row now j) = job_key_of j" for j
    by (simp_all add: expire_row_def retry_row_def)
  have r1: "queue_run env q q1 \<and> jq_jobs q1 = map (\<lambda>k. if lease_expired now k then expire_row now k else k) (jq_jobs q)
      \<and> keyed_jobs q1 \<and> jq_closures q1 = jq_closures q"
    by (rule each_row_where [OF key(1) assms(2) q1]) (rule expire_lease_step [OF _ same_authority_refl])
  then have r2: "queue_run env q1 q2 \<and> jq_jobs q2 = map (\<lambda>k. if retry_due now k then retry_row now k else k) (jq_jobs q1)
      \<and> keyed_jobs q2 \<and> jq_closures q2 = jq_closures q1"
    by (intro each_row_where [OF key(2) _ q2]) (simp, rule retry_job_step [OF _ same_authority_refl])
  have d1: "suffix_length q1 = suffix_length q + length (filter (lease_expired now) (jq_jobs q))" "suffix_length q1 \<le> max_delta_suffix"
    using each_row_deltas [of "expire_lease env now" env now, OF _ q1 assms(3)] by (simp_all add: jobs_where_def)
  have d2: "suffix_length q2 = suffix_length q1 + length (filter (retry_due now) (jq_jobs q1))" "suffix_length q2 \<le> max_delta_suffix"
    using each_row_deltas [of "retry_job env now" env now, OF _ q2 d1(2)] by (simp_all add: jobs_where_def)
  have d3: "suffix_length q' = suffix_length q2 + length (filter (queued_late now) (jq_jobs q2))" "suffix_length q' \<le> max_delta_suffix"
    using each_row_deltas [of "drop_late env now" env now, OF _ q3 d2(2)] by (simp_all add: jobs_where_def)
  have "length (filter (retry_due now) (jq_jobs q)) \<le> length (filter (retry_due now) (jq_jobs q1))"
    using r1 by (simp add: length_filter_map) (rule filter_mono_le, simp add: lease_expired_def retry_due_def)
  moreover have "length (filter (queued_late now) (jq_jobs q)) \<le> length (filter (queued_late now) (jq_jobs q2))"
    using r1 r2 by (simp add: length_filter_map) (rule filter_mono_le, simp add: lease_expired_def retry_due_def queued_late_def)
  moreover have "length (filter (overdue now) (jq_jobs q)) \<le> length (filter (lease_expired now) (jq_jobs q))
      + length (filter (retry_due now) (jq_jobs q)) + length (filter (queued_late now) (jq_jobs q))"
    unfolding overdue_def by (rule filter_disj_le)
  ultimately show ?thesis using d1 d2 d3 by linarith
qed

end
