(* ===== verification/Job_Sample.thy ===== *)
theory Job_Sample
  imports Job_Rebuild Job_Deltas Event_Store_Sample
begin

section \<open>A sample queue\<close>

text \<open>
  A capacity manifest, a signing key, a request and two queues: the empty one, which accepts the
  request, and one that holds the queued job, which can be claimed. Digests and signed texts stay
  symbolic; that every canonical form exists follows from sizes, as in \<open>Event_Store_Sample\<close>.
\<close>

subsection \<open>Bounded texts\<close>

text \<open>The size of the canonical form, whatever the characters of the strings.\<close>

definition fits :: "nat \<Rightarrow> py \<Rightarrow> bool" where
  "fits n v \<longleftrightarrow> (case plain (blank v) of None \<Rightarrow> False
     | Some j \<Rightarrow> jwf j \<and> jfits default_max_depth j \<and> jcount j \<le> default_max_items \<and> jsize j \<le> n)"

lemma fits_small: "fits n v \<Longrightarrow> n \<le> 500000 \<Longrightarrow> small_enough (blank v)"
  by (auto simp: fits_def small_enough_def default_max_bytes_def split: option.splits)

lemma fits_text:
  assumes "fits n v" "n \<le> 500000"
  shows "\<exists>b t. canonical_bytes v = Inr b \<and> canonical_text v = Inr t \<and> canonical_digest v = Inr (sha256_hex b)
    \<and> t = utf8_decode b \<and> length t \<le> n"
proof -
  obtain b t where bt: "canonical_bytes v = Inr b" "canonical_text v = Inr t" "canonical_digest v = Inr (sha256_hex b)"
    using small_text [OF fits_small [OF assms]] by blast
  obtain j m where j: "normalize default_max_depth default_max_items 0 0 v = Inr (j, m)" "t = dumps j"
    using bt(2) by (auto simp: canonical_text_Inr)
  obtain i where i: "plain v = Some i" using assms(1) by (auto simp: fits_def plain_blank split: option.splits)
  have s: "small_enough v" using small_enough_blank [OF fits_small [OF assms]] .
  then have "normalize default_max_depth default_max_items 0 0 v = Inr (i, jcount i)"
    using normalize_complete [of default_max_depth default_max_items i] py_of_plain [OF i] i
    unfolding reloads_def small_enough_def by simp
  then have "t = dumps i" using j by simp
  then have "length t \<le> jsize i" using print_jv_length [of "canon i"] by (simp add: dumps_print jsize_canon)
  also have "\<dots> \<le> jsize (jblank i)" by (rule jblank_measures(4))
  also have "\<dots> \<le> n" using assms(1) i by (simp add: fits_def plain_blank)
  finally show ?thesis using bt by (auto simp: canonical_text_def)
qed

lemma signed_text:
  assumes "length (sm_body_json m) \<le> 60000" "length (sm_kind m) \<le> 100" "length (sm_body_digest m) \<le> 100" "length (sm_key_id m) \<le> 100"
    "length (sm_signature m) \<le> 100"
  shows "\<exists>t. canonical_text (signed_manifest_to_dict m) = Inr t"
proof -
  have "fits 500000 (signed_manifest_to_dict m)"
    using assms by (simp add: fits_def signed_manifest_to_dict_def blank_obj obj_def default_max_depth_def default_max_items_def)
  then show ?thesis using fits_text [of 500000] by blast
qed

subsection \<open>The authority\<close>

definition sample_signer :: signer where
  "sample_signer = \<lparr>sg_key_id = ''key'', sg_sign = (\<lambda>b. ''c2ln'')\<rparr>"

definition sample_trust :: trust where
  "sample_trust = \<lparr>tr_encoded = (\<lambda>s. s = ''c2ln''), tr_known = (\<lambda>k. k = ''key''), tr_verifies = (\<lambda>k b s. k = ''key'' \<and> s = ''c2ln'')\<rparr>"

lemma sample_honours: "honours sample_trust sample_signer"
  by (simp add: honours_def sample_trust_def sample_signer_def) code_simp

definition sample_lane :: "job_lane \<Rightarrow> lane_capacity" where
  "sample_lane lane = \<lparr>lc_lane = lane, lc_max_queued = 4, lc_max_leased = 2\<rparr>"

definition sample_capacity :: capacity_manifest where
  "sample_capacity = \<lparr>cm_max_open_tournaments = 2, cm_max_round_entrants = 8, cm_max_field_entrants = 8, cm_max_plausible_qualifiers = 8,
     cm_max_context_cards = 8, cm_max_queued_jobs = 8, cm_max_receipt_bytes = 100, cm_max_blob_bytes = 100, cm_max_api_page_size = 10,
     cm_reserved_imminent_jobs = 1, cm_reserved_recovery_jobs = 1, cm_aging_interval_ms = 1000, cm_aging_increment = 5,
     cm_lanes = map sample_lane job_lanes\<rparr>"

lemma sample_capacity_ok: "manifest_ok sample_capacity"
  by (simp add: manifest_ok_def sample_capacity_def sample_lane_def job_lanes_def)

definition sample_env :: job_env where
  "sample_env = \<lparr>je_capacity = sample_capacity, je_signer = sample_signer, je_trust = sample_trust,
     je_recombination = (\<lambda>_. Inr ()), je_status_tip = Inr ()\<rparr>"

lemma sample_signs:
  assumes "machine_token_ok kind" "is_mapping v" "utc_ok t" "fits 60000 (manifest_body kind ''key'' t v)"
  shows "\<exists>m. sign_manifest (je_signer sample_env) (je_trust sample_env) kind v t = Inr m \<and> is_digest (sm_body_digest m)"
    and "\<And>m. sign_manifest (je_signer sample_env) (je_trust sample_env) kind v t = Inr m \<Longrightarrow> length kind \<le> 100
      \<Longrightarrow> \<exists>s. canonical_text (signed_manifest_to_dict m) = Inr s"
proof -
  let ?body = "manifest_body kind ''key'' t v"
  obtain b where b: "canonical_bytes ?body = Inr b" "canonical_digest ?body = Inr (sha256_hex b)" "length (utf8_decode b) \<le> 60000"
    using fits_text [OF assms(4)] by auto
  have sg: "je_signer sample_env = sample_signer" "je_trust sample_env = sample_trust" "sg_key_id sample_signer = ''key''"
    "sg_sign sample_signer b = ''c2ln''" by (simp_all add: sample_env_def sample_signer_def)
  show "\<exists>m. sign_manifest (je_signer sample_env) (je_trust sample_env) kind v t = Inr m \<and> is_digest (sm_body_digest m)"
    using sign_manifest_exists [OF sample_honours assms(1-3)] b sg by (auto simp: sign_manifest_Inr mk_signed_manifest_Inr)
  fix m assume m: "sign_manifest (je_signer sample_env) (je_trust sample_env) kind v t = Inr m" "length kind \<le> 100"
  then have "sm_body_json m = utf8_decode b" "sm_kind m = kind" "sm_body_digest m = sha256_hex b" "sm_key_id m = ''key''" "sm_signature m = ''c2ln''"
    using b sg by (auto simp: sign_manifest_Inr mk_signed_manifest_Inr)
  then show "\<exists>s. canonical_text (signed_manifest_to_dict m) = Inr s"
    using b(3) m(2) by (intro signed_text) (simp_all add: sha.digest_length)
qed

subsection \<open>The request and the job\<close>

definition sample_use :: string where
  "sample_use = ''{'' @ concat (map (\<lambda>(k, sep). [CHR 0x22] @ k @ [CHR 0x22] @ '':1'' @ sep)
     [(''api_page_size'', '',''), (''blob_bytes'', '',''), (''context_cards'', '',''), (''field_entrants'', '',''),
      (''open_tournaments'', '',''), (''plausible_qualifiers'', '',''), (''receipt_bytes'', '',''), (''round_entrants'', [])]) @ ''}''"

text \<open>A weight-only recombination, whose authority is checked when it is claimed.\<close>

definition sample_payload :: py where
  "sample_payload = obj [(''schema_version'', PStr recombination_schema), (''tournament_epoch_id'', PStr ''epoch:a'')]"

definition sample_text :: string where
  "sample_text = ''{'' @ concat (map (\<lambda>(k, v, sep). [CHR 0x22] @ k @ [CHR 0x22] @ '':'' @ [CHR 0x22] @ v @ [CHR 0x22] @ sep)
     [(''schema_version'', recombination_schema, '',''), (''tournament_epoch_id'', ''epoch:a'', [])]) @ ''}''"

definition sample_digest :: string where
  "sample_digest = digest_of sample_payload"

definition sample_request :: job_request where
  "sample_request = \<lparr>jr_job_id = ''job:a'', jr_revision = 1, jr_key = ''k'', jr_kind = JK_LOCAL_LLM_CARD, jr_lane = JL_INFERENCE,
     jr_resource = JR_LOCAL_GPU, jr_priority = JP_IMMINENT_FIELD, jr_capacity_json = sample_use, jr_payload_json = sample_text,
     jr_payload_digest = sample_digest, jr_evidence = zero_digest, jr_bundle = zero_digest, jr_policy = ''p1'',
     jr_created = ''2026-02-28T10:00:00.000Z'', jr_not_before = ''2026-02-28T10:00:00.000Z'',
     jr_deadline = ''2026-02-28T11:00:00.000Z'', jr_max_attempts = 3\<rparr>"

definition sample_job :: job where
  "sample_job = queued_job sample_request"

lemma sample_use_loads: "capacity_of_json sample_use = Inr \<lparr>cu_open_tournaments = 1, cu_round_entrants = 1, cu_field_entrants = 1,
     cu_plausible_qualifiers = 1, cu_context_cards = 1, cu_receipt_bytes = 1, cu_blob_bytes = 1, cu_api_page_size = 1\<rparr>"
  by code_simp

lemma sample_use_checked: "check_capacity_json sample_use = Inr ()"
  by code_simp

lemma payload_digest: "canonical_digest sample_payload = Inr sample_digest"
  unfolding sample_digest_def by (rule digest_of_small) code_simp

lemma sample_text_loads: "json_loads sample_text = Some sample_payload" "canonical_text sample_payload = Inr sample_text" "is_mapping sample_payload"
  "length sample_text \<le> 200"
  by code_simp+

lemma sample_payload_checked: "check_payload_json sample_text sample_digest = Inr ()"
  by (simp add: check_payload_json_def sample_text_loads payload_digest job_contract_def)

lemma sample_request_ok: "mk_job_request sample_request = Inr sample_request"
proof -
  have "id_in ''job'' ''job:a''" "machine_token_ok ''p1''" "is_digest zero_digest" "utc_ok ''2026-02-28T10:00:00.000Z''"
    "utc_ok ''2026-02-28T11:00:00.000Z''" "''2026-02-28T10:00:00.000Z'' < ''2026-02-28T11:00:00.000Z''" by code_simp+
  then show ?thesis
    using sample_use_checked sample_payload_checked
    by (auto simp: mk_job_request_def bind_res_Inr map_res_Inr result_simps sample_request_def id_in_def simp del: guards.simps)
qed

lemmas fits_simps = fits_def blank_obj obj_def default_max_depth_def default_max_items_def int64_ok_def int64_min_def int64_max_def
  blank_text_def

lemma payload_digest_64: "length sample_digest = 64"
  unfolding sample_digest_def by (rule digest_of_length [THEN conjunct2]) code_simp

lemma sample_use_length: "length sample_use \<le> 200"
  by code_simp

lemma sample_material: "\<exists>d. record_material_digest sample_job = Inr d \<and> length d = 64"
proof -
  have "fits 60000 (material_value ''job:a'' 1 ''k'' JK_LOCAL_LLM_CARD JL_INFERENCE JR_LOCAL_GPU JP_IMMINENT_FIELD
      \<lparr>cu_open_tournaments = 1, cu_round_entrants = 1, cu_field_entrants = 1, cu_plausible_qualifiers = 1, cu_context_cards = 1,
        cu_receipt_bytes = 1, cu_blob_bytes = 1, cu_api_page_size = 1\<rparr> sample_digest zero_digest zero_digest ''p1''
      ''2026-02-28T10:00:00.000Z'' ''2026-02-28T10:00:00.000Z'' ''2026-02-28T11:00:00.000Z'' 3)"
    by (simp add: material_value_def capacity_use_to_dict_def fits_simps payload_digest_64 zero_digest_def job_result_schema_def)
  then show ?thesis using fits_text
    by (fastforce simp: record_material_digest_def sample_job_def queued_job_def sample_request_def sample_use_loads bind_res_Inr
        job_contract_def sha.digest_length)
qed

subsection \<open>A transition of the sample job can be recorded\<close>

text \<open>The canonical form of an optional text, with its letters blanked.\<close>

definition opt_jv :: "string option \<Rightarrow> jv" where
  "opt_jv x = (case x of None \<Rightarrow> JNull | Some s \<Rightarrow> JStr (replicate (length s) (CHR ''x'')))"

lemma opt_jv_simps [simp]:
  "plain (blank (opt_str x)) = Some (opt_jv x)" "jwf (opt_jv x)" "jcount (opt_jv x) = 1" "0 \<le> k \<Longrightarrow> jfits k (opt_jv x)"
  by (auto simp: opt_jv_def opt_str_def split: option.split)

text \<open>A job whose changing columns hold texts of ordinary length.\<close>

definition moderate :: "job \<Rightarrow> bool" where
  "moderate j \<longleftrightarrow> int64_ok (jb_attempts j) \<and> int64_ok (jb_fence j)
     \<and> (\<forall>x \<in> {jb_owner j, jb_acquired j, jb_expires j, jb_not_before j, jb_reason j, jb_result j}. jsize (opt_jv x) \<le> 1000)"

lemma history_fits:
  assumes "moderate j" "length op \<le> 30" "length now = 24" "length material = 64" "length spec = 64" "jb_id j = ''job:a''" "jb_revision j = 1"
    "h = history_draft j 1 op prev now zero_digest material spec"
  shows "fits 20000 (obj (history_items h @ [(''job_spec_digest'', PStr spec)]))"
    "fits 60000 (manifest_body ''job_transition'' ''key'' now (obj (history_items h @ [(''job_spec_digest'', PStr spec)])))"
proof -
  have f: "jsize (opt_jv (map_option job_state_value prev)) \<le> 1000" "length (job_state_value (jb_state j)) \<le> 30"
    by (cases prev; simp add: opt_jv_def; cases "the prev"; simp) (cases "jb_state j"; simp)
  show "fits 20000 (obj (history_items h @ [(''job_spec_digest'', PStr spec)]))"
    "fits 60000 (manifest_body ''job_transition'' ''key'' now (obj (history_items h @ [(''job_spec_digest'', PStr spec)])))"
    using assms(1-7) f unfolding assms(8)
    by (simp_all add: manifest_body_def history_items_def history_draft_def fits_simps moderate_def zero_digest_def job_result_schema_def)
qed

lemma delta_fits:
  assumes "length op \<le> 30" "length now = 24" "length dg = 64"
  shows "fits 60000 (manifest_body ''rolling_restart_delta'' ''key'' now (delta_value 1 zero_digest 1 op ''job_history'' 1 dg now))"
  using assms by (simp add: manifest_body_def delta_value_def fits_simps zero_digest_def int64_ok_def)

lemma checkpoint_fits:
  assumes "length now = 24" "length dg = 64" "length deep = 24"
  shows "fits 60000 (manifest_body ''job_integrity_checkpoint'' ''key'' now (job_checkpoint_value 1 dg deep))"
  using assms by (simp add: manifest_body_def job_checkpoint_value_def fits_simps int64_ok_def)

lemma sample_kinds: "machine_token_ok ''job_transition''" "machine_token_ok ''rolling_restart_delta''" "machine_token_ok ''job_history''"
    "machine_token_ok ''job_integrity_checkpoint''" "machine_token_ok ''job_spec''"
  by code_simp+

definition fresh_queue :: "queue \<Rightarrow> bool" where
  "fresh_queue q \<longleftrightarrow> jq_history q = [] \<and> jq_deltas q = [] \<and> jq_base q = Some 1 \<and> jq_checkpoint q = None"

lemma obj_is_mapping [simp]: "is_mapping (obj kvs)"
  by (simp add: obj_def is_mapping_def)

lemma sample_append:
  assumes q: "fresh_queue q" "spec_digest_of q ''job:a'' 1 = Some spec" "length spec = 64" and j: "fixed_part j = fixed_part sample_job" "moderate j"
    and op: "machine_token_ok op" "length op \<le> 30" "utc_ok now" "length now = 24"
  shows "\<exists>q'. append_history sample_env q op prev j now = Inr q'"
proof -
  obtain material where mat: "record_material_digest j = Inr material" "length material = 64"
    using sample_material material_fixed [OF j(1)] by auto
  have id: "jb_id j = ''job:a''" "jb_revision j = 1"
    using fixed_fields [OF j(1)] by (simp_all add: sample_job_def queued_job_def sample_request_def)
  have tip: "history_tip q = (0, zero_digest)" using q(1) by (simp add: history_tip_def fresh_queue_def)
  define h where "h = history_draft j 1 op prev now zero_digest material spec"
  let ?v = "obj (history_items h @ [(''job_spec_digest'', PStr spec)])"
  note hf = history_fits [OF j(2) op(2,4) mat(2) q(3) id h_def]
  obtain dg where dg: "canonical_digest ?v = Inr dg" "length dg = 64" "is_digest dg"
    using fits_text [OF hf(1)] sha.digest_length sha.digest_form by auto
  obtain m where m: "sign_manifest (je_signer sample_env) (je_trust sample_env) ''job_transition'' ?v now = Inr m"
    using sample_signs(1) [OF sample_kinds(1) _ op(3) hf(2)] by auto
  have one: "hi_sequence h = 1" by (simp add: h_def history_draft_def)
  let ?q1 = "q\<lparr>jq_history := jq_history q @ [h\<lparr>hi_digest := dg, hi_auth := m\<rparr>]\<rparr>"
  let ?d = "delta_value 1 zero_digest 1 op ''job_history'' 1 dg now"
  have dm: "is_mapping ?d" by (simp add: delta_value_def)
  obtain md where md: "sign_manifest (je_signer sample_env) (je_trust sample_env) ''rolling_restart_delta'' ?d now = Inr md"
    using sample_signs(1) [OF sample_kinds(2) dm op(3) delta_fits [OF op(2,4) dg(2)]] by auto
  obtain td where td: "canonical_text (signed_manifest_to_dict md) = Inr td"
    using sample_signs(2) [OF sample_kinds(2) dm op(3) delta_fits [OF op(2,4) dg(2)] md] by auto
  obtain q2 where q2: "append_delta sample_env ?q1 op ''job_history'' 1 dg now = Inr q2"
    using q(1) op(1,3) dg(3) md td sample_kinds(3)
    by (auto simp: append_delta_def bind_res_Inr result_simps fresh_queue_def max_delta_suffix_def job_contract_def job_integrity_def simp del: guards.simps)
  have tip2: "history_tip q2 = (1, dg)" "jq_checkpoint q2 = None" using append_delta_frame [OF q2] q(1) one
    by (simp_all add: history_tip_def fresh_queue_def)
  let ?c = "job_checkpoint_value 1 dg now"
  have cm: "is_mapping ?c" by (simp add: job_checkpoint_value_def)
  obtain mc where mc: "sign_manifest (je_signer sample_env) (je_trust sample_env) ''job_integrity_checkpoint'' ?c now = Inr mc"
    using sample_signs(1) [OF sample_kinds(4) cm op(3) checkpoint_fits [OF op(4) dg(2) op(4)]] by auto
  obtain tc where tc: "canonical_text (signed_manifest_to_dict mc) = Inr tc"
    using sample_signs(2) [OF sample_kinds(4) cm op(3) checkpoint_fits [OF op(4) dg(2) op(4)] mc] by auto
  have "\<exists>q3. write_job_checkpoint sample_env q2 now True = Inr q3"
    using mc tc by (simp add: write_job_checkpoint_def tip2 job_contract_def job_integrity_def)
  then show ?thesis using q(1,2) dg m q2 mat(1)
    by (simp add: append_history_def tip id h_def [symmetric] one job_contract_def job_integrity_def fresh_queue_def)
qed

subsection \<open>Enqueueing the sample request\<close>

definition empty_queue :: queue where
  "empty_queue = \<lparr>jq_jobs = [], jq_history = [], jq_specs = [], jq_publications = [], jq_closures = [], jq_base = Some 1,
     jq_deltas = [], jq_checkpoint = None\<rparr>"

lemma sample_job_plain: "fixed_part (queued_job sample_request) = fixed_part sample_job" "job_key_of sample_job = (''job:a'', 1)"
    "jb_id sample_job = ''job:a''" "jb_revision sample_job = 1" "jb_created sample_job = ''2026-02-28T10:00:00.000Z''"
    "moderate sample_job"
  by (simp_all add: sample_job_def queued_job_def sample_request_def job_key_of_def moderate_def int64_ok_def int64_min_def int64_max_def
      opt_jv_def)

lemma spec_fits:
  "fits 20000 (job_spec_value sample_job)" "fits 60000 (manifest_body ''job_spec'' ''key'' ''2026-02-28T10:00:00.000Z'' (job_spec_value sample_job))"
  using sample_use_length payload_digest_64 sample_text_loads(4)
  by (simp_all add: job_spec_value_def manifest_body_def sample_job_def queued_job_def sample_request_def fits_simps zero_digest_def
      int64_ok_def opt_jv_def)

lemma sample_install:
  assumes "jq_specs q = []"
  shows "\<exists>s. install_job_spec sample_env q sample_job = Inr (q\<lparr>jq_specs := [s]\<rparr>) \<and> sp_id s = ''job:a'' \<and> sp_revision s = 1
    \<and> length (sp_digest s) = 64"
proof -
  let ?v = "job_spec_value sample_job" and ?t = "''2026-02-28T10:00:00.000Z''"
  obtain dg json where dg: "canonical_digest ?v = Inr dg" "length dg = 64" "canonical_text ?v = Inr json"
    using fits_text [OF spec_fits(1)] sha.digest_length by auto
  have im: "is_mapping ?v" and t: "utc_ok ?t" by (simp add: job_spec_value_def) code_simp
  obtain m where m: "sign_manifest (je_signer sample_env) (je_trust sample_env) ''job_spec'' ?v ?t = Inr m"
    using sample_signs(1) [OF sample_kinds(5) im t spec_fits(2)] by auto
  obtain mt where mt: "canonical_text (signed_manifest_to_dict m) = Inr mt"
    using sample_signs(2) [OF sample_kinds(5) im t spec_fits(2) m] by auto
  show ?thesis using assms dg m mt
    by (auto simp: install_job_spec_def bind_res_Inr map_res_Inr job_contract_def job_integrity_def sample_job_plain)
qed

lemma sample_request_simps: "jr_lane sample_request = JL_INFERENCE" "jr_priority sample_request = JP_IMMINENT_FIELD"
    "jr_payload_json sample_request = sample_text" "jr_capacity_json sample_request = sample_use"
    "jr_created sample_request = ''2026-02-28T10:00:00.000Z''"
  by (simp_all add: sample_request_def)

lemma sample_admitted: "admit_request sample_env empty_queue sample_request False = Inr ()"
proof -
  have c: "je_capacity sample_env = sample_capacity" by (simp add: sample_env_def)
  show ?thesis unfolding admit_request_def sample_request_simps sample_use_loads c by code_simp
qed

lemma sample_payload_epoch: "rolling_job_epoch_id sample_payload = Inr (Some ''epoch:a'')"
    "fld sample_payload ''schema_version'' = PStr recombination_schema"
  by code_simp+

lemma sample_enqueue: "\<exists>q. enqueue sample_env empty_queue sample_request False = Inr (sample_job, q) \<and> jq_jobs q = [sample_job]"
proof -
  obtain s where s: "install_job_spec sample_env (empty_queue\<lparr>jq_jobs := [sample_job]\<rparr>) sample_job
      = Inr (empty_queue\<lparr>jq_jobs := [sample_job], jq_specs := [s]\<rparr>)" "sp_id s = ''job:a''" "sp_revision s = 1" "length (sp_digest s) = 64"
    using sample_install [of "empty_queue\<lparr>jq_jobs := [sample_job]\<rparr>"] by (auto simp: empty_queue_def)
  have "machine_token_ok ''queued''" "utc_ok ''2026-02-28T10:00:00.000Z''" by code_simp+
  then obtain q where q: "append_history sample_env (empty_queue\<lparr>jq_jobs := [sample_job], jq_specs := [s]\<rparr>) ''queued'' None sample_job
      ''2026-02-28T10:00:00.000Z'' = Inr q"
    using sample_append [of "empty_queue\<lparr>jq_jobs := [sample_job], jq_specs := [s]\<rparr>" "sp_digest s" sample_job "''queued''"
        "''2026-02-28T10:00:00.000Z''" None] s sample_job_plain
    by (auto simp: fresh_queue_def empty_queue_def spec_digest_of_def)
  have e: "jq_jobs empty_queue = []" "find_job empty_queue jid rv = None" "\<not> epoch_closed empty_queue x"
    "je_recombination sample_env p = Inr ()" for jid rv x p
    by (simp_all add: empty_queue_def find_job_def epoch_closed_def sample_env_def)
  have "enqueue sample_env empty_queue sample_request False = Inr (sample_job, q)"
    using sample_payload_epoch sample_text_loads(1) sample_admitted s(1) q
    by (simp add: enqueue_def e Let_def sample_request_simps flip: sample_job_def)
  then show ?thesis using append_history_frame(1) [OF q] by auto
qed

subsection \<open>Claiming the sample job\<close>

definition stocked :: "job \<Rightarrow> queue" where
  "stocked j = empty_queue\<lparr>jq_jobs := [j], jq_specs := [\<lparr>sp_id = ''job:a'', sp_revision = 1, sp_json = [], sp_digest = zero_digest,
     sp_manifest = [], sp_created = ''2026-02-28T10:00:00.000Z''\<rparr>]\<rparr>"

lemma stocked_simps [simp]: "jq_jobs (stocked j) = [j]" "jq_closures (stocked j) = []" "jq_publications (stocked j) = []" "jq_history (stocked j) = []"
  "fresh_queue (stocked j)" "spec_digest_of (stocked j) ''job:a'' 1 = Some zero_digest" "keyed_jobs (stocked j)"
  by (simp_all add: stocked_def empty_queue_def fresh_queue_def spec_digest_of_def keyed_jobs_def)

lemma put_stocked: "job_key_of k = job_key_of j \<Longrightarrow> put_job (stocked j) k = stocked k"
  by (simp add: put_job_def stocked_def)

lemma sample_job_columns: "jb_state sample_job = JS_QUEUED" "jb_not_before sample_job = Some ''2026-02-28T10:00:00.000Z''"
  "jb_deadline sample_job = ''2026-02-28T11:00:00.000Z''" "jb_lane sample_job = JL_INFERENCE" "jb_resource sample_job = JR_LOCAL_GPU"
  "jb_payload_json sample_job = sample_text" "jb_attempts sample_job = 0" "jb_max_attempts sample_job = 3" "jb_fence sample_job = 0"
  by (simp_all add: sample_job_def queued_job_def sample_request_def)

definition half_past :: string where "half_past = ''2026-02-28T10:30:00.000Z''"
definition next_minute :: string where "next_minute = ''2026-02-28T10:31:00.000Z''"

lemma sample_times: "utc_ok half_past" "utc_ok next_minute" "''2026-02-28T10:00:00.000Z'' \<le> half_past" "half_past < ''2026-02-28T11:00:00.000Z''"
  "next_minute \<le> ''2026-02-28T11:00:00.000Z''" "length half_past = 24" "half_past < next_minute" "utc_ok ''2026-02-28T11:00:00.000Z''"
  by code_simp+

lemma one_minute: "add_milliseconds half_past 60000 = Some next_minute"
  by (rule add_millisecondsI [OF sample_times(2)]) (simp add: half_past_def next_minute_def calendar_eval)

definition sample_leased :: job where
  "sample_leased = leased_job sample_job ''worker'' half_past next_minute"

lemma sample_leased_moderate: "moderate sample_leased" "fixed_part sample_leased = fixed_part sample_job" "job_key_of sample_leased = job_key_of sample_job"
  using sample_job_plain(6) sample_job_columns sample_times
  by (simp_all add: sample_leased_def leased_job_def moderate_def fixed_part_def job_key_of_def opt_jv_def int64_ok_def int64_min_def
      int64_max_def next_minute_def half_past_def)

lemma sample_lease: "\<exists>q. lease_job sample_env (stocked sample_job) sample_job ''worker'' half_past 60000 = Inr (sample_leased, q)"
proof -
  have "machine_token_ok ''leased''" by code_simp
  then obtain q where "append_history sample_env (stocked sample_leased) ''leased'' (Some JS_QUEUED) sample_leased half_past = Inr q"
    using sample_append [of "stocked sample_leased" zero_digest sample_leased "''leased''" half_past] sample_leased_moderate sample_times
    by (auto simp: zero_digest_def)
  then show ?thesis using sample_times one_minute put_stocked [OF sample_leased_moderate(3)]
    by (auto simp: lease_job_def lease_end_def of_option_def sample_job_columns move_job_def min_def simp flip: sample_leased_def)
qed

lemma sample_quiet: "reconcile_for_claim env (stocked sample_job) half_past = Inr (stocked sample_job)"
  using not_le [THEN iffD2, OF sample_times(4)] by (simp add: reconcile_for_claim_def jobs_where_def lease_expired_def retry_due_def queued_late_def sample_job_columns)

lemma sample_current: "context_current sample_env sample_job = Inr True"
  by (simp add: context_current_def job_payload_def sample_job_columns sample_text_loads sample_payload_epoch sample_env_def)

lemma sample_claim: "\<exists>q. claim_job sample_env (stocked sample_job) JL_INFERENCE ''worker'' half_past 60000 = Inr (Some sample_leased, q)"
proof -
  obtain q where q: "lease_job sample_env (stocked sample_job) sample_job ''worker'' half_past 60000 = Inr (sample_leased, q)"
    using sample_lease by blast
  have ck: "claim_checks ''worker'' half_past 60000 = Inr half_past"
    using sample_times by (simp add: claim_checks_Inr) code_simp
  have load: "queue_load_of (stocked sample_job) JL_INFERENCE = Inr \<lparr>ql_total_active = 1, ql_lane_active = 1, ql_lane_leased = 0\<rparr>"
    by (simp add: queue_load_of_def count_jobs_def sample_job_columns active_state_def) code_simp
  have adm: "\<exists>d. decide_admission (je_capacity sample_env) JL_INFERENCE JP_IMMINENT_FIELD
      \<lparr>ql_total_active = 1, ql_lane_active = 1, ql_lane_leased = 0\<rparr> True False = Inr d \<and> ad_admitted d"
  proof -
    have "manifest_lane (je_capacity sample_env) JL_INFERENCE = Some (sample_lane JL_INFERENCE)"
      by (simp add: sample_env_def sample_capacity_def manifest_lane_def job_lanes_def sample_lane_def)
    from claim_admission [OF this, of JP_IMMINENT_FIELD "\<lparr>ql_total_active = 1, ql_lane_active = 1, ql_lane_leased = 0\<rparr>" False]
    show ?thesis by (simp add: sample_lane_def)
  qed
  have cl: "jobs_where (claimable (stocked sample_job) JL_INFERENCE half_past) (stocked sample_job) = [sample_job]"
    using sample_times by (simp add: jobs_where_def claimable_def sample_job_columns epoch_closed_def split: option.split)
  have g: "\<not> gpu_leased (stocked sample_job)" by (simp add: gpu_leased_def sample_job_columns)
  show ?thesis using adm q by (auto simp: claim_job_def ck sample_quiet load cl sample_current g job_capacity_def)
qed

subsection \<open>Cancelling it under the worker, and finding it late\<close>

definition sample_cancelled :: job where
  "sample_cancelled = cancelled_job sample_leased next_minute ''operator''"

lemma sample_cancelled_moderate: "moderate sample_cancelled" "fixed_part sample_cancelled = fixed_part sample_job"
  "job_key_of sample_cancelled = job_key_of sample_leased" "jb_fence sample_cancelled = 2"
  using sample_leased_moderate
  by (simp_all add: sample_cancelled_def cancelled_job_def released_def moderate_def opt_jv_def fixed_part_def job_key_of_def int64_ok_def
      int64_min_def int64_max_def sample_leased_def leased_job_def sample_job_columns)

lemma sample_cancel: "\<exists>q. cancel_job sample_env (stocked sample_leased) ''job:a'' 1 next_minute ''operator'' = Inr (sample_cancelled, q)"
proof -
  have op: "machine_token_ok ''cancelled''" "id_in ''job'' ''job:a''" "head_tail_pattern is_lower job_reason_rest 127 ''operator''" "length next_minute = 24"
    by code_simp+
  have st: "jb_state sample_leased = JS_LEASED" by (simp add: sample_leased_def leased_job_def)
  obtain q where "append_history sample_env (stocked sample_cancelled) ''cancelled'' (Some JS_LEASED) sample_cancelled next_minute = Inr q"
    using sample_append [of "stocked sample_cancelled" zero_digest sample_cancelled "''cancelled''" next_minute] sample_cancelled_moderate
      sample_times op by (auto simp: zero_digest_def)
  then have m: "move_job sample_env (stocked sample_leased) ''cancelled'' sample_leased sample_cancelled next_minute = Inr (sample_cancelled, q)"
    by (simp add: move_job_def put_stocked [OF sample_cancelled_moderate(3)] st)
  have "job_reason ''operator'' = Inr ()" "job_instant next_minute = Inr next_minute" using op sample_times by (simp_all add: job_checks_Inr)
  moreover have "get_job (stocked sample_leased) ''job:a'' 1 = Inr sample_leased"
    using op(2) sample_leased_moderate(3) sample_job_plain(2) by (simp add: get_job_Inr find_job_def)
  ultimately show ?thesis using m by (simp add: cancel_job_def st active_state_def flip: sample_cancelled_def)
qed

definition eleven :: string where "eleven = ''2026-02-28T11:00:00.000Z''"

lemma sample_late: "\<exists>q. reconcile_for_claim sample_env (stocked sample_job) eleven = Inr q"
proof -
  let ?k = "finished_job sample_job JS_PERMANENT_FAILED eleven ''deadline_exceeded''"
  have op: "machine_token_ok ''permanent-failed''" "utc_ok eleven" "length eleven = 24" by code_simp+
  have k: "moderate ?k" "fixed_part ?k = fixed_part sample_job" "job_key_of ?k = job_key_of sample_job"
    using sample_job_plain(6) by (simp_all add: finished_job_def released_def moderate_def opt_jv_def fixed_part_def job_key_of_def)
  obtain q where "append_history sample_env (stocked ?k) ''permanent-failed'' (Some JS_QUEUED) ?k eleven = Inr q"
    using sample_append [of "stocked ?k" zero_digest ?k "''permanent-failed''" eleven] k op by (auto simp: zero_digest_def)
  then have m: "move_job sample_env (stocked sample_job) ''permanent-failed'' sample_job ?k eleven = Inr (?k, q)"
    by (simp add: move_job_def put_stocked [OF k(3)] sample_job_columns)
  have f: "finish_job sample_env (stocked sample_job) sample_job JS_PERMANENT_FAILED eleven ''deadline_exceeded'' = Inr (?k, q)"
    using m by (simp add: finish_job_Inr)
  have "queued_late eleven sample_job" by (simp add: queued_late_def sample_job_columns eleven_def)
  then have "reconcile_for_claim sample_env (stocked sample_job) eleven = Inr q"
    using f by (simp add: reconcile_for_claim_def jobs_where_def lease_expired_def retry_due_def drop_late_def sample_job_columns)
  then show ?thesis by blast
qed

subsection \<open>Claiming it when its authority has changed\<close>

definition sample_moved_env :: job_env where
  "sample_moved_env = sample_env\<lparr>je_recombination := (\<lambda>_. Inl (JobRejected ''recombination_authority_changed''))\<rparr>"

lemma append_history_authority:
  assumes "je_signer e = je_signer f" "je_trust e = je_trust f"
  shows "append_history e = append_history f"
  using assms by (simp add: append_history_def append_delta_def write_job_checkpoint_def fun_eq_iff)

lemma sample_stale:
  "\<exists>q k. claim_exact sample_moved_env (stocked sample_job) ''job:a'' 1 ''worker'' half_past 60000 = Inr (None, q)
    \<and> find_job q ''job:a'' 1 = Some k \<and> jb_state k = JS_STALE"
proof -
  let ?k = "finished_job sample_job JS_STALE half_past ''recombination_authority_changed''"
  have op: "machine_token_ok ''stale''" by code_simp
  have k: "moderate ?k" "fixed_part ?k = fixed_part sample_job" "job_key_of ?k = job_key_of sample_job"
    using sample_job_plain(6) by (simp_all add: finished_job_def released_def moderate_def opt_jv_def fixed_part_def job_key_of_def)
  have env: "append_history sample_moved_env = append_history sample_env"
    by (rule append_history_authority) (simp_all add: sample_moved_env_def)
  obtain q where q: "append_history sample_moved_env (stocked ?k) ''stale'' (Some JS_QUEUED) ?k half_past = Inr q"
    using sample_append [of "stocked ?k" zero_digest ?k "''stale''" half_past] k op sample_times by (auto simp: zero_digest_def env)
  then have m: "move_job sample_moved_env (stocked sample_job) ''stale'' sample_job ?k half_past = Inr (?k, q)"
    by (simp add: move_job_def put_stocked [OF k(3)] sample_job_columns)
  have f: "finish_job sample_moved_env (stocked sample_job) sample_job JS_STALE half_past ''recombination_authority_changed'' = Inr (?k, q)"
    using m by (simp add: finish_job_Inr)
  have ck: "claim_checks ''worker'' half_past 60000 = Inr half_past" using sample_times by (simp add: claim_checks_Inr) code_simp
  have id: "id_in ''job'' ''job:a''" by code_simp
  then have gj: "get_job (stocked sample_job) ''job:a'' 1 = Inr sample_job" and ji: "job_identity ''job:a'' 1 = Inr ()"
    using sample_job_plain(2) by (simp_all add: get_job_Inr find_job_def job_identity_Inr)
  have load: "queue_load_of (stocked sample_job) JL_INFERENCE = Inr \<lparr>ql_total_active = 1, ql_lane_active = 1, ql_lane_leased = 0\<rparr>"
    by (simp add: queue_load_of_def count_jobs_def sample_job_columns active_state_def) code_simp
  have adm: "\<exists>d. decide_admission (je_capacity sample_moved_env) JL_INFERENCE (jb_priority sample_job)
      \<lparr>ql_total_active = 1, ql_lane_active = 1, ql_lane_leased = 0\<rparr> True False = Inr d \<and> ad_admitted d"
  proof -
    have "manifest_lane (je_capacity sample_moved_env) JL_INFERENCE = Some (sample_lane JL_INFERENCE)"
      by (simp add: sample_moved_env_def sample_env_def sample_capacity_def manifest_lane_def job_lanes_def sample_lane_def)
    from claim_admission [OF this, of "jb_priority sample_job" "\<lparr>ql_total_active = 1, ql_lane_active = 1, ql_lane_leased = 0\<rparr>" False]
    show ?thesis by (simp add: sample_lane_def)
  qed
  have cc: "context_current sample_moved_env sample_job = Inr False"
    by (simp add: context_current_def job_payload_def sample_job_columns sample_text_loads sample_payload_epoch sample_moved_env_def)
  have nl: "\<not> half_past < ''2026-02-28T10:00:00.000Z''" "\<not> ''2026-02-28T11:00:00.000Z'' \<le> half_past" by code_simp+
  have "claim_exact sample_moved_env (stocked sample_job) ''job:a'' 1 ''worker'' half_past 60000 = Inr (None, q)"
    using adm f nl by (auto simp: claim_exact_def ji ck sample_quiet gj sample_job_columns load job_capacity_def cc)
  moreover have "find_job q ''job:a'' 1 = Some ?k"
    using move_job_jobs(2) [OF m] k(3) sample_job_plain(2) by (simp add: find_job_def replaced_def)
  ultimately show ?thesis by (auto simp: finished_job_def)
qed

end
