(* ===== verification/Job_Theorems.thy ===== *)
theory Job_Theorems
  imports Job_Sample
begin

section \<open>Properties of the work queue\<close>

text \<open>
  What the durable work queue guarantees over any interleaving of successful calls
  (\<open>queue_calls\<close>), and what its operations return.
\<close>

lemma sample_call:
  obtains q where "queue_calls sample_env empty_queue q" "jq_jobs q = [sample_job]"
proof -
  obtain q where q: "enqueue sample_env empty_queue sample_request False = Inr (sample_job, q)" "jq_jobs q = [sample_job]"
    using sample_enqueue by blast
  have "queue_call sample_env empty_queue q" by (rule queue_call.enqueue [OF _ sample_request_ok q(1)]) simp
  then show thesis using that q(2) by blast
qed

lemma empty_invariants: "sound_queue empty_queue" "within_budget empty_queue" "published_exactly empty_queue"
    "manifest_ok (je_capacity sample_env)" "within_limits sample_capacity empty_queue"
  by (simp_all add: sound_queue_def keyed_jobs_def empty_queue_def within_budget_def published_exactly_def sample_env_def sample_capacity_ok
      within_limits_def lane_limits_def queue_limits_def count_jobs_def)
    (simp_all add: sample_capacity_def sample_lane_def job_lanes_def)

text \<open>C16. Whatever calls are made, every row of the job table keeps the CHECK constraints of the table: the
  closed columns, the size of the payload and of the digests, the counters in range, lease columns exactly when
  leased, a result exactly when succeeded; and beyond them the bounds on its attempts and times.\<close>

theorem job_rows_keep_constraints:
  assumes "queue_calls a q q'" "keyed_jobs q" "\<forall>j \<in> set (jq_jobs q). row_sound j"
  shows "\<forall>j \<in> set (jq_jobs q'). row_sound j"
  using calls_sound [OF assms(1)] assms(2,3) by (simp add: sound_queue_def)

theorem job_rows_keep_constraints_witness: "row_sound sample_job"
proof -
  obtain q where q: "queue_calls sample_env empty_queue q" "jq_jobs q = [sample_job]" by (rule sample_call)
  have "\<forall>j \<in> set (jq_jobs q). row_sound j"
    by (rule job_rows_keep_constraints [OF q(1)]) (use empty_invariants(1) in \<open>simp_all add: sound_queue_def\<close>)
  then show ?thesis using q(2) by simp
qed

text \<open>C28. A job row never leaves the table, its specification never changes, its attempt count and fence never
  decrease, and once it is in a terminal state it never changes again.\<close>

theorem job_rows_only_advance:
  assumes "queue_calls a q q'" "keyed_jobs q" "find_job q jid rv = Some j"
  shows "\<exists>k. find_job q' jid rv = Some k \<and> fixed_part k = fixed_part j \<and> jb_fence j \<le> jb_fence k \<and> jb_attempts j \<le> jb_attempts k
    \<and> (active_state (jb_state j) \<or> k = j)"
  using calls_descends [OF assms] by (auto simp: descends_def)

theorem job_rows_only_advance_witness:
  "\<exists>q k. queue_calls sample_env (stocked sample_job) q \<and> find_job q ''job:a'' 1 = Some k \<and> fixed_part k = fixed_part sample_job"
proof -
  obtain q where c: "claim_job sample_env (stocked sample_job) JL_INFERENCE ''worker'' half_past 60000 = Inr (Some sample_leased, q)"
    using sample_claim by blast
  have s: "queue_calls sample_env (stocked sample_job) q" using queue_call.claim [OF same_authority_refl c] by blast
  have "find_job (stocked sample_job) ''job:a'' 1 = Some sample_job" using sample_job_plain(2) by (simp add: find_job_def)
  from job_rows_only_advance [OF s _ this] s show ?thesis by auto
qed

text \<open>C13. A job records at most three transitions per permitted attempt and two more, heartbeats aside, so at most
  98: it cannot be requeued, retried or leased for ever.\<close>

theorem job_transitions_bounded:
  assumes "queue_calls a q q'" "jq_jobs q = []" "jq_history q = []" "j \<in> set (jq_jobs q')"
  shows "transitions q' j \<le> 3 * jb_max_attempts j + 2 \<and> transitions q' j \<le> 98"
proof -
  have s: "sound_queue q" "within_budget q" using assms(2,3) by (simp_all add: sound_queue_def keyed_jobs_def within_budget_def)
  have r: "queue_run a q q'" using calls_run [OF assms(1)] s(1) by (simp add: sound_queue_def)
  have "row_sound j" using run_sound [OF r s(1)] assms(4) by (simp add: sound_queue_def)
  then have "0 \<le> budget j" "jb_max_attempts j \<le> 32" by (simp_all add: budget_nonneg row_sound_def row_checks_def)
  moreover have "transitions q' j + budget j \<le> 3 * jb_max_attempts j + 2"
    using run_budget [OF r s] assms(4) by (simp add: within_budget_def)
  ultimately show ?thesis by linarith
qed

theorem job_transitions_bounded_witness:
  "\<exists>q. queue_calls sample_env empty_queue q \<and> jq_jobs q = [sample_job] \<and> transitions q sample_job \<le> 11"
proof -
  obtain q where q: "queue_calls sample_env empty_queue q" "jq_jobs q = [sample_job]" by (rule sample_call)
  have "transitions q sample_job \<le> 3 * jb_max_attempts sample_job + 2"
    using job_transitions_bounded [OF q(1), of sample_job] q(2) by (simp add: empty_queue_def)
  then show ?thesis using q by (auto simp: sample_job_columns)
qed

text \<open>C14. There is exactly one publication for each succeeded job, it carries the job's fence and result, and no other
  publication exists: a result becomes visible once, under the fence of the lease that committed it.\<close>

theorem publications_match_succeeded:
  assumes "queue_calls a q q'" "keyed_jobs q" "published_exactly q"
  shows "published_exactly q'"
  using calls_run [OF assms(1,2)] run_published assms(2,3) by blast

theorem publications_match_succeeded_witness:
  "\<exists>q. queue_calls sample_env empty_queue q \<and> jq_jobs q = [sample_job] \<and> published_exactly q"
proof -
  obtain q where q: "queue_calls sample_env empty_queue q" "jq_jobs q = [sample_job]" by (rule sample_call)
  have "published_exactly q"
    by (rule publications_match_succeeded [OF q(1)]) (use empty_invariants in \<open>simp_all add: sound_queue_def\<close>)
  then show ?thesis using q by blast
qed

text \<open>C15. The limits of the capacity manifest hold in every state: active and leased jobs per lane, active jobs in all
  with the slots reserved for recovery and for imminent fields kept free of other work, and one job on the local GPU.\<close>

theorem capacity_limits_hold:
  assumes "queue_calls a q q'" "manifest_ok (je_capacity a)" "keyed_jobs q" "within_limits (je_capacity a) q"
  shows "within_limits (je_capacity a) q'"
  using calls_run [OF assms(1,3)] run_limits assms(2-4) by blast

theorem capacity_limits_hold_witness:
  "\<exists>q. queue_calls sample_env empty_queue q \<and> jq_jobs q = [sample_job] \<and> within_limits sample_capacity q"
proof -
  obtain q where q: "queue_calls sample_env empty_queue q" "jq_jobs q = [sample_job]" by (rule sample_call)
  have "within_limits (je_capacity sample_env) q"
    by (rule capacity_limits_hold [OF q(1)]) (use empty_invariants in \<open>simp_all add: sound_queue_def sample_env_def\<close>)
  then show ?thesis using q by (auto simp: sample_env_def)
qed

text \<open>C10. Once the fence of a job has moved past a worker's token (another lease or a cancellation), every later call of that
  worker is refused: it cannot extend the lease, commit a result, record a failure or end the job.\<close>

theorem stale_worker_refused:
  assumes "queue_calls a q q'" "keyed_jobs q" "find_job q jid rv = Some j" "token < jb_fence j"
  shows "isl (heartbeat env q' jid rv w token t d) \<and> isl (commit_success env q' jid rv w token res hooks t)
    \<and> isl (record_failure env q' jid rv w token t kind r p audit) \<and> isl (terminal_from_lease env q' jid rv w token t target r)"
proof -
  obtain k where "find_job q' jid rv = Some k" "jb_fence j \<le> jb_fence k" using fence_monotone [OF assms(1-3)] by blast
  then show ?thesis using lease_calls_refused [of q' jid rv k token] assms(4) by simp
qed

theorem stale_worker_refused_witness:
  "\<exists>q. cancel_job sample_env (stocked sample_leased) ''job:a'' 1 next_minute ''operator'' = Inr (sample_cancelled, q)
    \<and> jb_fence sample_leased = 1 \<and> isl (heartbeat sample_env q ''job:a'' 1 ''worker'' 1 next_minute 1000)"
proof -
  obtain q where c: "cancel_job sample_env (stocked sample_leased) ''job:a'' 1 next_minute ''operator'' = Inr (sample_cancelled, q)"
    using sample_cancel by blast
  have run: "queue_calls sample_env (stocked sample_leased) q" using queue_call.cancel [OF same_authority_refl c] by blast
  have k: "keyed_jobs q" using calls_run [OF run] by simp
  have "find_job (stocked sample_leased) ''job:a'' 1 = Some sample_leased"
    using sample_leased_moderate(3) sample_job_plain(2) by (simp add: find_job_def)
  obtain u where "move_job sample_env (stocked sample_leased) ''cancelled'' sample_leased sample_cancelled next_minute = Inr (sample_cancelled, u)"
      "u = q"
    using c sample_leased_moderate(3) sample_job_plain(2)
    by (auto simp: cancel_job_def bind_res_Inr job_checks_Inr get_job_Inr find_job_def sample_cancelled_def move_job_def map_res_Inr split: if_splits)
  then have "jq_jobs q = [sample_cancelled]" using move_job_jobs(2) sample_cancelled_moderate(3) by (simp add: replaced_def)
  then have f: "find_job q ''job:a'' 1 = Some sample_cancelled"
    using sample_cancelled_moderate(3) sample_leased_moderate(3) sample_job_plain(2) by (simp add: find_job_def)
  have "isl (heartbeat sample_env q ''job:a'' 1 ''worker'' 1 next_minute 1000)"
    using stale_worker_refused [OF _ k f, of sample_env q 1] sample_cancelled_moderate(4) by simp
  then show ?thesis using c sample_job_columns by (auto simp: sample_leased_def leased_job_def)
qed

lemma claim_settled:
  assumes "claim_job env q lane w now d = Inr (c, q')" "keyed_jobs q" "\<forall>j \<in> set (jq_jobs q). row_sound j"
  shows "\<forall>j \<in> set (jq_jobs q'). settled now j"
proof -
  have rec: "\<forall>j \<in> set (jq_jobs q1). settled now j" if "reconcile_for_claim env q now = Inr q1" for q1
    using reconcile_pointwise(2) [OF that same_authority_refl assms(2)] assms(3) reconcile_settled by auto
  have screened: "\<forall>j \<in> set (map (\<lambda>k. if claimable q1 lane now k \<and> context_stale env k then stale_row now k else k) (jq_jobs q1)). settled now j"
    if "reconcile_for_claim env q now = Inr q1" for q1
    using rec [OF that] by (auto simp: stale_settled)
  show ?thesis
  proof (rule claim_job_cases [OF assms(1) same_authority_refl assms(2)])
    fix q1
    assume q1: "reconcile_for_claim env q now = Inr q1"
      and or: "jq_jobs q' = jq_jobs q1 \<or> jq_jobs q' = map (\<lambda>k. if claimable q1 lane now k \<and> context_stale env k then stale_row now k else k) (jq_jobs q1)"
    from or show ?thesis
    proof
      assume e: "jq_jobs q' = jq_jobs q1"
      show ?thesis unfolding e by (rule rec [OF q1])
    next
      assume e: "jq_jobs q' = map (\<lambda>k. if claimable q1 lane now k \<and> context_stale env k then stale_row now k else k) (jq_jobs q1)"
      show ?thesis unfolding e by (rule screened [OF q1])
    qed
  next
    fix q1 q2 j k
    assume q1: "reconcile_for_claim env q now = Inr q1" and u: "utc_ok now" "0 < d"
      and q2: "jq_jobs q2 = map (\<lambda>k. if claimable q1 lane now k \<and> context_stale env k then stale_row now k else k) (jq_jobs q1)"
      and j: "j \<in> set (filter (\<lambda>j. \<not> (gpu_leased q1 \<and> jb_resource j = JR_LOCAL_GPU))
        (filter (\<lambda>j. context_current env j = Inr True) (jobs_where (claimable q1 lane now) q1)))"
      and lj: "lease_job env q2 j w now d = Inr (k, q')" and q': "jq_jobs q' = replaced k (jq_jobs q2)"
    have cl: "claimable q1 lane now j" using j by (simp add: jobs_where_def)
    then obtain b where b: "jb_state j = JS_QUEUED" "jb_not_before j = Some b" "b \<le> now" "now < jb_deadline j"
      by (auto simp: claimable_def split: option.splits)
    obtain e where e: "k = leased_job j w now e" "now < e" "e \<le> jb_deadline j" by (rule lease_job_Inr [OF lj u b])
    have "settled now k" using e b(4) by (simp add: settled_def leased_job_def)
    then show ?thesis using screened [OF q1] unfolding q' q2 [symmetric] by (auto dest: replaced_member)
  qed
qed

text \<open>C12. Liveness of abandoned work: after any claim, successful or empty-handed, no job is left leased past its lease,
  waiting past its retry time or active past its deadline; each has been requeued, retried or ended.\<close>

theorem claim_leaves_nothing_overdue:
  assumes "claim_job env q lane w now d = Inr (c, q')" "keyed_jobs q" "\<forall>j \<in> set (jq_jobs q). row_sound j" "j \<in> set (jq_jobs q')"
  shows "(active_state (jb_state j) \<longrightarrow> now < jb_deadline j)
    \<and> (jb_state j = JS_LEASED \<longrightarrow> (\<exists>e. jb_expires j = Some e \<and> now < e))
    \<and> (jb_state j = JS_RETRYABLE_FAILED \<longrightarrow> (\<exists>b. jb_not_before j = Some b \<and> now < b))"
proof -
  have "settled now j" using claim_settled [OF assms(1-3)] assms(4) by blast
  then show ?thesis by (cases "jb_expires j"; cases "jb_not_before j") (simp_all add: settled_def)
qed

theorem claim_leaves_nothing_overdue_witness:
  "\<exists>q. claim_job sample_env (stocked sample_job) JL_INFERENCE ''worker'' half_past 60000 = Inr (Some sample_leased, q)
    \<and> (\<forall>j \<in> set (jq_jobs q). jb_state j = JS_LEASED \<longrightarrow> (\<exists>e. jb_expires j = Some e \<and> half_past < e))"
proof -
  obtain q where c: "claim_job sample_env (stocked sample_job) JL_INFERENCE ''worker'' half_past 60000 = Inr (Some sample_leased, q)"
    using sample_claim by blast
  have "row_sound sample_job" using queued_sound [OF sample_request_ok] by (simp add: sample_job_def)
  then show ?thesis using claim_leaves_nothing_overdue [OF c] c by fastforce
qed

text \<open>What a claim may take from the reconciled queue.\<close>

definition eligible :: "job_env \<Rightarrow> queue \<Rightarrow> job_lane \<Rightarrow> string \<Rightarrow> job \<Rightarrow> bool" where
  "eligible env q lane now j \<longleftrightarrow> j \<in> set (jq_jobs q) \<and> claimable q lane now j \<and> context_current env j = Inr True
     \<and> \<not> (gpu_leased q \<and> jb_resource j = JR_LOCAL_GPU)"

text \<open>C17. A successful claim leases the eligible job of the least rank (aged priority, deadline, age, identity) for the time
  asked, cut at its deadline; aging never lifts a job over one of a higher priority class.\<close>

theorem claim_takes_first:
  assumes "claim_job env q lane w now d = Inr (Some k, q')" "keyed_jobs q" "manifest_ok (je_capacity env)"
  shows "\<exists>q1 j e. reconcile_for_claim env q now = Inr q1 \<and> eligible env q1 lane now j \<and> lease_end now d (jb_deadline j) = Inr e
    \<and> k = leased_job j w now e \<and> find_job q' (jb_id j) (jb_revision j) = Some k
    \<and> (\<forall>i. eligible env q1 lane now i \<longrightarrow> claim_rank env now j \<le> claim_rank env now i \<and> jb_priority i \<le> jb_priority j)"
proof (rule claim_job_cases [OF assms(1) same_authority_refl assms(2)])
  fix q1 q2 j k'
  let ?el = "filter (\<lambda>j. \<not> (gpu_leased q1 \<and> jb_resource j = JR_LOCAL_GPU))
        (filter (\<lambda>j. context_current env j = Inr True) (jobs_where (claimable q1 lane now) q1))"
  assume q1: "reconcile_for_claim env q now = Inr q1" and u: "utc_ok now" "0 < d" and k: "Some k = Some k'"
    and min: "j = arg_min_list (claim_rank env now) ?el" and j: "j \<in> set ?el"
    and lj: "lease_job env q2 j w now d = Inr (k', q')" and f2: "find_job q2 (jb_id j) (jb_revision j) = Some j"
  have el: "eligible env q1 lane now i \<longleftrightarrow> i \<in> set ?el" for i by (auto simp: eligible_def jobs_where_def)
  obtain b where b: "jb_state j = JS_QUEUED" "jb_not_before j = Some b" "b \<le> now" "now < jb_deadline j"
    using j by (auto simp: claimable_def jobs_where_def split: option.splits)
  obtain e where e: "k' = leased_job j w now e" "jq_jobs q' = replaced k' (jq_jobs q2)" "lease_end now d (jb_deadline j) = Inr e"
    by (rule lease_job_Inr [OF lj u b])
  have "(jb_id j, jb_revision j) = job_key_of k'" by (simp add: e(1)) (simp add: job_key_of_def)
  then have "find_job q' (jb_id j) (jb_revision j) = Some k" using find_job_replaced [OF e(2)] f2 k by simp
  moreover have least: "claim_rank env now j \<le> claim_rank env now i" if "eligible env q1 lane now i" for i
    using arg_min_list_least [of i ?el "claim_rank env now"] that by (simp only: el min)
  moreover have "jb_priority i \<le> jb_priority j" if "eligible env q1 lane now i" for i
    by (rule rank_priority [OF assms(3) least [OF that]])
  ultimately show ?thesis using q1 el j e(1,3) k by blast
qed simp

theorem claim_takes_first_witness:
  "\<exists>q1 j e. reconcile_for_claim sample_env (stocked sample_job) half_past = Inr q1 \<and> eligible sample_env q1 JL_INFERENCE half_past j
    \<and> sample_leased = leased_job j ''worker'' half_past e"
proof -
  obtain q where c: "claim_job sample_env (stocked sample_job) JL_INFERENCE ''worker'' half_past 60000 = Inr (Some sample_leased, q)"
    using sample_claim by blast
  from claim_takes_first [OF c] show ?thesis using empty_invariants(4) by auto
qed

text \<open>Reconciliation, three passes over the table each with its own selection, treats every job by itself: the table
  afterwards is the table before with one function of the row and the clock applied to each row.\<close>

theorem reconcile_is_pointwise:
  assumes "reconcile_for_claim env q now = Inr q'" "keyed_jobs q"
  shows "jq_jobs q' = map (reconcile_row now) (jq_jobs q)"
  by (rule reconcile_pointwise(2) [OF assms(1) same_authority_refl assms(2)])

theorem reconcile_is_pointwise_witness:
  "\<exists>q. reconcile_for_claim sample_env (stocked sample_job) eleven = Inr q
    \<and> jq_jobs q = [finished_job sample_job JS_PERMANENT_FAILED eleven ''deadline_exceeded'']"
proof -
  obtain q where q: "reconcile_for_claim sample_env (stocked sample_job) eleven = Inr q" using sample_late by blast
  have "reconcile_row eleven sample_job = finished_job sample_job JS_PERMANENT_FAILED eleven ''deadline_exceeded''"
    by (simp add: reconcile_row_def lease_expired_def retry_due_def queued_late_def late_row_def sample_job_columns eleven_def)
  then show ?thesis using reconcile_is_pointwise [OF q] q by simp
qed

subsection \<open>Retries\<close>

lemma hex_value_nonneg: "0 \<le> hex_value s"
proof -
  have "0 \<le> n \<Longrightarrow> 0 \<le> foldl (\<lambda>n c. 16 * n + (case hex_digit c of Some d \<Rightarrow> int d | None \<Rightarrow> 0)) n s" for n
    by (induction s arbitrary: n) (auto split: option.split)
  then show ?thesis by (simp add: hex_value_def)
qed

lemma max_positive: "(0 :: int) < max 1 n"
  by simp

lemma jittered_bounds:
  fixes b m x t :: int
  assumes "b \<le> m" "b \<le> x" "0 \<le> t" "t < max 1 (min m x div 4)"
  shows "b \<le> min m (min m x + t) \<and> min m (min m x + t) \<le> m \<and> min m (min m x + t) < x + max 1 (x div 4)"
proof -
  have "min m x div 4 \<le> x div 4" by (rule zdiv_mono1) simp_all
  then have "t < max 1 (x div 4)" using assms(4) by simp
  then show ?thesis using assms(1-3) by (auto simp: min_def)
qed

text \<open>The delay before a retry is never below the policy's base nor above its maximum, and exceeds the exponential
  backoff by less than a quarter of it (or not at all when that quarter rounds to nothing).\<close>

theorem retry_delay_bounds:
  assumes "policy_ok p"
  shows "rp_base_delay_ms p \<le> retry_delay j kind reason p \<and> retry_delay j kind reason p \<le> rp_maximum_delay_ms p
    \<and> retry_delay j kind reason p
        < rp_base_delay_ms p * 2 ^ nat (min (jb_attempts j - 1) 20) + max 1 (rp_base_delay_ms p * 2 ^ nat (min (jb_attempts j - 1) 20) div 4)"
proof -
  have p: "0 < rp_base_delay_ms p" "rp_base_delay_ms p \<le> rp_maximum_delay_ms p" using assms by (simp_all add: policy_ok_def)
  have x: "rp_base_delay_ms p * 1 \<le> rp_base_delay_ms p * 2 ^ nat (min (jb_attempts j - 1) 20)"
    using p(1) by (intro mult_left_mono) simp_all
  show ?thesis unfolding retry_delay_def Let_def
    by (rule jittered_bounds [OF p(2) x [unfolded mult_1_right]]) (simp_all only: pos_mod_bound pos_mod_sign max_positive)
qed

theorem retry_delay_bounds_witness:
  "100 \<le> retry_delay sample_leased FK_TRANSPORT ''timeout''
      \<lparr>rp_version = ''p1'', rp_base_delay_ms = 100, rp_maximum_delay_ms = 5000, rp_schema_retry_limit = 1, rp_transport_attempt_limit = 3,
        rp_process_attempt_limit = 2\<rparr>"
proof -
  have "machine_token_ok ''p1''" by code_simp
  then show ?thesis
    using retry_delay_bounds [of "\<lparr>rp_version = ''p1'', rp_base_delay_ms = 100, rp_maximum_delay_ms = 5000, rp_schema_retry_limit = 1,
        rp_transport_attempt_limit = 3, rp_process_attempt_limit = 2\<rparr>" sample_leased FK_TRANSPORT "''timeout''"]
    by (simp add: policy_ok_def)
qed

subsection \<open>Rebuilding the table\<close>

lemma empty_replayable: "replayable a empty_queue []"
  by (simp add: replayable_def empty_queue_def aligned_def rows_ok_def)

text \<open>C11. The signed specs and the signed history determine the job table: after any run, the replay that \<open>verify()\<close> and the
  rebuild make returns exactly the rows of the table, unless a queued job was recorded as stale (or a spec digest is
  sixty-four zeros).\<close>

theorem replay_rebuilds_table:
  assumes "queue_calls a q q'" "keyed_jobs q" "replayable a q rs" "honours (je_trust a) (je_signer a)"
    "list_all (\<lambda>h. \<not> queued_stale h) (jq_history q')"
  shows "(\<exists>s \<in> set (jq_specs q'). sp_digest s = zero_digest)
    \<or> (\<exists>out. replay_jobs a None q' = Inr out \<and> map_of out = (\<lambda>key. find_job q' (fst key) (snd key)))"
proof (rule disjCI)
  assume "\<not> (\<exists>out. replay_jobs a None q' = Inr out \<and> map_of out = (\<lambda>key. find_job q' (fst key) (snd key)))"
  moreover have "queue_run a q q'" "keyed_jobs q'" using calls_run [OF assms(1,2)] by simp_all
  ultimately have "\<not> clean q'"
    using run_replayable [OF _ assms(4,2) _ assms(3)] replayable_replays by blast
  then show "\<exists>s \<in> set (jq_specs q'). sp_digest s = zero_digest"
    using assms(5) by (auto simp: clean_def real_digests_def list_all_iff)
qed

theorem replay_rebuilds_table_witness:
  "\<exists>q. queue_calls sample_env empty_queue q \<and> jq_jobs q = [sample_job] \<and> ((\<exists>s \<in> set (jq_specs q). sp_digest s = zero_digest)
    \<or> (\<exists>out. replay_jobs sample_env None q = Inr out \<and> map_of out = (\<lambda>key. find_job q (fst key) (snd key))))"
proof -
  obtain q where q: "enqueue sample_env empty_queue sample_request False = Inr (sample_job, q)" "jq_jobs q = [sample_job]"
    using sample_enqueue by blast
  have s: "queue_calls sample_env empty_queue q"
    using queue_call.enqueue [OF same_authority_refl sample_request_ok q(1)] by blast
  have "keyed_jobs empty_queue" "jq_jobs empty_queue = []" using empty_invariants(1) by (simp_all add: sound_queue_def empty_queue_def)
  then obtain q1 where a: "append_history sample_env q1 ''queued'' None (queued_job sample_request) (jr_created sample_request) = Inr q"
      "jq_history q1 = []"
    using q(1) by (auto simp: enqueue_def bind_res_Inr map_res_Inr Let_def install_job_spec_def empty_queue_def simp del: guards.simps)
  have "list_all (\<lambda>h. \<not> queued_stale h) (jq_history q)" using append_history_row [OF a(1)] a(2) by (auto simp: queued_stale_def)
  moreover have "honours (je_trust sample_env) (je_signer sample_env)" using sample_honours by (simp add: sample_env_def)
  ultimately show ?thesis
    using replay_rebuilds_table [OF s \<open>keyed_jobs empty_queue\<close> empty_replayable] s q(2) by blast
qed

text \<open>C29. When a claim finds that the recombination authority of a queued job has changed and records the job as stale, every
  later replay of the queue is refused, whatever is done next: \<open>verify()\<close> and reopening the repository fail.\<close>

theorem stale_claim_blocks_replay:
  assumes "claim_exact env q jid rv w now d = Inr (c, q')" "keyed_jobs q" "find_job q jid rv = Some j" "jb_state j = JS_QUEUED"
    "find_job q' jid rv = Some k" "jb_state k = JS_STALE" "queue_calls env q' q2"
  shows "isl (replay_jobs env2 cutover q2)"
proof -
  obtain h where h: "h \<in> set (jq_history q')" "queued_stale h" using claim_exact_stale [OF assms(1-6)] by blast
  have "keyed_jobs q'" using claim_exact_run [OF assms(1) same_authority_refl assms(2)] run_keyed assms(2) by blast
  then have "h \<in> set (jq_history q2)" using calls_run [OF assms(7)] run_grows h(1) by blast
  then show ?thesis using queued_stale_refused h(2) by blast
qed

theorem stale_claim_blocks_replay_witness:
  "\<exists>q. claim_exact sample_moved_env (stocked sample_job) ''job:a'' 1 ''worker'' half_past 60000 = Inr (None, q)
    \<and> isl (replay_jobs sample_env None q)"
proof -
  obtain q k where q: "claim_exact sample_moved_env (stocked sample_job) ''job:a'' 1 ''worker'' half_past 60000 = Inr (None, q)"
    "find_job q ''job:a'' 1 = Some k" "jb_state k = JS_STALE" using sample_stale by blast
  have "find_job (stocked sample_job) ''job:a'' 1 = Some sample_job" using sample_job_plain(2) by (simp add: find_job_def)
  from stale_claim_blocks_replay [OF q(1) stocked_simps(7) this sample_job_columns(1) q(2,3) rtranclp.rtrancl_refl]
  show ?thesis using q(1) by blast
qed

subsection \<open>A limit of reconciliation\<close>

text \<open>C30. A claim settles at most 64 overdue jobs, whatever the checkpoint: when more than 64 jobs have run out of lease,
  retry delay or deadline, every claim of every lane fails and rolls back, so none of them is ever settled.\<close>

theorem too_many_overdue_block_claims:
  assumes "keyed_jobs q" "64 < count_jobs (overdue now) q" "suffix_length q \<le> 64"
  shows "isl (claim_job env q lane w now d) \<and> isl (claim_exact env q jid rv w now d)"
proof -
  have none: "reconcile_for_claim env q now \<noteq> Inr q1" for q1
    using reconcile_touches_few [of env q now q1] assms by (auto simp: count_jobs_def max_delta_suffix_def)
  have "claim_job env q lane w now d \<noteq> Inr x" "claim_exact env q jid rv w now d \<noteq> Inr x" for x
    using none by (auto simp: claim_job_def claim_exact_def bind_res_Inr claim_checks_Inr)
  then show ?thesis by (auto intro!: Inr_isl)
qed

lemma late_jobs: "keyed_jobs (empty_queue\<lparr>jq_jobs := map (\<lambda>i. sample_job\<lparr>jb_revision := int i\<rparr>) [1..<66]\<rparr>)"
  "count_jobs (overdue eleven) (empty_queue\<lparr>jq_jobs := map (\<lambda>i. sample_job\<lparr>jb_revision := int i\<rparr>) [1..<66]\<rparr>) = 65"
proof -
  have "overdue eleven (sample_job\<lparr>jb_revision := int i\<rparr>)" for i
    using sample_job_columns by (simp add: overdue_def queued_late_def eleven_def)
  then show "count_jobs (overdue eleven) (empty_queue\<lparr>jq_jobs := map (\<lambda>i. sample_job\<lparr>jb_revision := int i\<rparr>) [1..<66]\<rparr>) = 65"
    by (simp add: count_jobs_def length_filter_map del: upt_conv_Cons upt_rec_numeral)
  show "keyed_jobs (empty_queue\<lparr>jq_jobs := map (\<lambda>i. sample_job\<lparr>jb_revision := int i\<rparr>) [1..<66]\<rparr>)"
    by (auto simp: keyed_jobs_def distinct_map inj_on_def job_key_of_def simp del: upt_conv_Cons upt_rec_numeral)
qed

theorem too_many_overdue_block_claims_witness:
  "isl (claim_job sample_env (empty_queue\<lparr>jq_jobs := map (\<lambda>i. sample_job\<lparr>jb_revision := int i\<rparr>) [1..<66]\<rparr>) JL_INFERENCE ''worker'' eleven 60000)"
  using too_many_overdue_block_claims [OF late_jobs(1), of eleven sample_env JL_INFERENCE "''worker''" 60000] late_jobs(2)
  by (simp add: suffix_length_def empty_queue_def)

end
