(* ===== verification/Decimal_Arith.thy ===== *)
theory Decimal_Arith
  imports Canonical
begin

section \<open>Decimal arithmetic in a context (the standard module decimal)\<close>

text \<open>
  The optimizer computes with \<open>Decimal\<close> under a context that fixes a precision and rounds half to
  even. A finite decimal is a coefficient and an exponent; every operation returns the exact result
  rounded to the precision of the context (\<open>to_dec\<close>). Of the several representations of a value the
  model keeps one, and no signed zero: the code only compares decimals, computes with them and
  writes them with \<open>canonical_decimal_string\<close>, all of which depend on the value alone
  (\<open>render_decimal_cong\<close>). The exponent limits of the default context (999999) are out of reach of
  the bounded inputs.
\<close>

subsection \<open>Values\<close>

datatype dec = Dc (dc_coeff: int) (dc_exp: int)

definition p10 :: "int \<Rightarrow> rat" where
  "p10 e = (if 0 \<le> e then 10 ^ nat e else 1 / 10 ^ nat (- e))"

definition dv :: "dec \<Rightarrow> rat" where
  "dv d = of_int (dc_coeff d) * p10 (dc_exp d)"

lemma p10_powi: "p10 e = 10 powi e"
  by (simp add: p10_def power_int_def inverse_eq_divide power_one_over)

lemma p10_pos [simp]: "0 < p10 e"
  by (simp add: p10_powi)

lemma p10_nz [simp]: "p10 e \<noteq> 0"
  using p10_pos [of e] by linarith

lemma p10_add: "p10 (a + b) = p10 a * p10 b"
  by (simp add: p10_powi power_int_add)

lemma p10_mono: "a \<le> b \<Longrightarrow> p10 a \<le> p10 b"
  by (simp add: p10_powi power_int_increasing)

lemma p10_nat: "p10 (int k) = 10 ^ k"
  by (simp add: p10_def)

lemma p10_diff: "p10 a / p10 b = p10 (a - b)"
  using p10_add [of "a - b" b] by (simp add: field_simps)

subsection \<open>Rounding to a number of digits\<close>

function ndigits :: "int \<Rightarrow> int" where
  "ndigits n = (if n < 10 then 1 else 1 + ndigits (n div 10))"
  by auto
termination by (relation "measure nat") auto

declare ndigits.simps [simp del]

text \<open>The integer nearest to a rational, ties to even.\<close>

definition half_even :: "rat \<Rightarrow> int" where
  "half_even x = (let q = \<lfloor>x\<rfloor>; r = x - of_int q in
     if r < 1 / 2 then q else if 1 / 2 < r then q + 1 else if even q then q else q + 1)"

text \<open>The exponent of the leading digit of a positive rational.\<close>

definition lead_exp :: "rat \<Rightarrow> int" where
  "lead_exp x = (case quotient_of x of (n, d) \<Rightarrow>
     let g = ndigits n - ndigits d in if p10 g \<le> x then g else g - 1)"

definition to_dec :: "int \<Rightarrow> rat \<Rightarrow> dec" where
  "to_dec p x = (if x = 0 then Dc 0 0
     else let e = lead_exp \<bar>x\<bar> - (p - 1) in Dc (half_even (x / p10 e)) e)"

subsection \<open>The operations\<close>

definition dec_int :: "int \<Rightarrow> dec" where "dec_int n = Dc n 0"

definition dec_add :: "int \<Rightarrow> dec \<Rightarrow> dec \<Rightarrow> dec" where "dec_add p a b = to_dec p (dv a + dv b)"
definition dec_sub :: "int \<Rightarrow> dec \<Rightarrow> dec \<Rightarrow> dec" where "dec_sub p a b = to_dec p (dv a - dv b)"
definition dec_mul :: "int \<Rightarrow> dec \<Rightarrow> dec \<Rightarrow> dec" where "dec_mul p a b = to_dec p (dv a * dv b)"
definition dec_neg :: "int \<Rightarrow> dec \<Rightarrow> dec" where "dec_neg p a = to_dec p (- dv a)"
definition dec_abs :: "int \<Rightarrow> dec \<Rightarrow> dec" where "dec_abs p a = to_dec p \<bar>dv a\<bar>"

text \<open>Division; a zero divisor raises \<open>DivisionByZero\<close>, which no caller reaches (the model's value
  there is zero).\<close>

definition dec_div :: "int \<Rightarrow> dec \<Rightarrow> dec \<Rightarrow> dec" where "dec_div p a b = to_dec p (dv a / dv b)"

definition dec_less :: "dec \<Rightarrow> dec \<Rightarrow> bool" where "dec_less a b \<longleftrightarrow> dv a < dv b"
definition dec_le :: "dec \<Rightarrow> dec \<Rightarrow> bool" where "dec_le a b \<longleftrightarrow> dv a \<le> dv b"
definition dec_zero :: "dec \<Rightarrow> bool" where "dec_zero a \<longleftrightarrow> dc_coeff a = 0"

lemma dec_zero_iff: "dec_zero a \<longleftrightarrow> dv a = 0"
  by (simp add: dec_zero_def dv_def)

text \<open>\<open>sqrt\<close>: the integer square root of the value scaled to more than the precision, its last digit
  moved off a multiple of five when the root is inexact (as the module does), rounded.\<close>

function isqrt_search :: "int \<Rightarrow> int \<Rightarrow> int \<Rightarrow> int" where
  "isqrt_search n lo hi = (if hi - lo \<le> 1 then lo
     else let m = (lo + hi) div 2 in if m * m \<le> n then isqrt_search n m hi else isqrt_search n lo m)"
  by auto
termination by (relation "measure (\<lambda>(n, lo, hi). nat (hi - lo))") auto

declare isqrt_search.simps [simp del]

definition dec_sqrt :: "int \<Rightarrow> dec \<Rightarrow> dec" where
  "dec_sqrt p a = (if dec_zero a then Dc 0 0
     else let e = lead_exp (dv a) div 2 - p;
              y = dv a / p10 (2 * e);
              n = \<lfloor>y\<rfloor>;
              q = isqrt_search n 0 (n + 1);
              q' = (if of_int q * of_int q \<noteq> y \<and> q mod 5 = 0 then q + 1 else q)
          in to_dec p (of_int q' * p10 e))"

text \<open>\<open>quantize(Decimal(1))\<close>: rounded to an integer; more digits than the precision raise
  \<open>InvalidOperation\<close>.\<close>

definition dec_quantize :: "int \<Rightarrow> dec \<Rightarrow> int option" where
  "dec_quantize p a = (let q = half_even (dv a) in if p10 p \<le> of_int \<bar>q\<bar> then None else Some q)"

text \<open>\<open>Decimal(s)\<close> of a canonical string and back.\<close>

definition dec_py :: "dec \<Rightarrow> pydec" where
  "dec_py d = Dec (dc_coeff d < 0) (nat \<bar>dc_coeff d\<bar>) (dc_exp d)"

definition dec_string :: "dec \<Rightarrow> v3_error + string" where
  "dec_string d = canonical_decimal_string (PDec (dec_py d))"

definition dec_of_string :: "string \<Rightarrow> dec" where
  "dec_of_string s = (case parse_decimal s of
     Some (Dec sg c e) \<Rightarrow> Dc (if sg then - int c else int c) e | _ \<Rightarrow> Dc 0 0)"

lemma dec_value_py: "dec_value (dec_py d) = Some (dv d)"
proof -
  have "(of_nat (nat \<bar>dc_coeff d\<bar>) :: rat) = of_int \<bar>dc_coeff d\<bar>" by simp
  then show ?thesis by (simp add: dec_value_def dec_py_def dv_def p10_powi abs_if)
qed

text \<open>Writing a decimal and reading it back keeps its value, and equal values are written alike.\<close>

lemma dec_string_value:
  assumes "dec_string d = Inr s"
  shows "dv (dec_of_string s) = dv d"
proof -
  obtain d1 d' where d: "decimal_of_value (PDec (dec_py d)) = Inr d1" "parse_decimal s = Some d'" "dec_value d' = dec_value d1"
    using assms unfolding dec_string_def by (rule canonical_decimal_string_parse)
  have "d1 = dec_py d" using d(1) by (simp add: decimal_of_value_def)
  then have v: "dec_value d' = Some (dv d)" using d(3) by (simp add: dec_value_py)
  then obtain sg c e where d': "d' = Dec sg c e" by (cases d') (simp_all add: dec_value_def)
  show ?thesis using v by (cases sg) (simp_all add: dec_of_string_def d(2) d' dec_value_def dv_def p10_powi)
qed

lemma dec_string_cong: "dv a = dv b \<Longrightarrow> dec_string a = dec_string b"
  by (simp add: dec_string_def canonical_decimal_string_def decimal_of_value_def
      render_decimal_cong [of "dec_py a" "dec_py b"] dec_value_py)

subsection \<open>What rounding keeps\<close>

lemma ndigits_bounds:
  assumes "0 < n"
  shows "1 \<le> ndigits n \<and> p10 (ndigits n - 1) \<le> of_int n \<and> of_int n < p10 (ndigits n)"
  using assms
proof (induction n rule: ndigits.induct)
  case (1 n)
  show ?case
  proof (cases "n < 10")
    case True
    then show ?thesis using 1 by (simp add: ndigits.simps [of n] p10_def)
  next
    case False
    let ?m = "n div 10"
    have ih: "1 \<le> ndigits ?m" "p10 (ndigits ?m - 1) \<le> of_int ?m" "of_int ?m < p10 (ndigits ?m)"
      using 1 False by simp_all
    define k where "k = nat (ndigits ?m)"
    have k: "ndigits ?m = int k" "k \<noteq> 0" using ih(1) by (simp_all add: k_def)
    have le: "10 ^ (k - 1) \<le> ?m" "?m < 10 ^ k"
      using ih(2,3) k p10_nat [of "k - 1"] of_int_le_iff [of "10 ^ (k - 1)" ?m, where ?'a = rat]
        of_int_less_iff [of ?m "10 ^ k", where ?'a = rat]
      by (simp_all add: p10_nat of_nat_diff)
    have "10 ^ k \<le> n" "n < 10 ^ Suc k"
      using le k(2) by (simp_all add: power_eq_if [of 10 k])
    then have "(of_int (10 ^ k) :: rat) \<le> of_int n" "(of_int n :: rat) < of_int (10 ^ Suc k)"
      by (simp_all only: of_int_le_iff of_int_less_iff)
    moreover have "ndigits n = int (Suc k)" using False k(1) by (simp add: ndigits.simps [of n])
    ultimately show ?thesis using p10_nat [of k] p10_nat [of "Suc k"] by simp
  qed
qed

lemma lead_exp_spec:
  assumes "0 < x"
  shows "p10 (lead_exp x) \<le> x \<and> x < p10 (lead_exp x + 1)"
proof -
  obtain n d where q: "quotient_of x = (n, d)" by (cases "quotient_of x")
  have d: "0 < d" by (rule quotient_of_denom_pos [OF q])
  have x: "x = of_int n / of_int d" by (rule quotient_of_div [OF q])
  have n: "0 < n" using assms d by (simp add: x zero_less_divide_iff)
  note bn = ndigits_bounds [OF n] and bd = ndigits_bounds [OF d]
  let ?g = "ndigits n - ndigits d"
  have pd: "(0::rat) < of_int d" using d by simp
  have "p10 (?g - 1) \<le> x"
  proof -
    have "p10 (?g - 1) * of_int d \<le> p10 (?g - 1) * p10 (ndigits d)"
      using bd by (intro mult_left_mono) (simp_all add: less_imp_le)
    also have "\<dots> = p10 (ndigits n - 1)" by (simp flip: p10_add)
    also have "\<dots> \<le> of_int n" using bn by simp
    finally show ?thesis using pd by (simp add: x field_simps)
  qed
  moreover have "x < p10 (?g + 1)"
  proof -
    have "of_int n < p10 (ndigits n)" using bn by simp
    also have "\<dots> = p10 (?g + 1) * p10 (ndigits d - 1)" by (simp flip: p10_add)
    also have "\<dots> \<le> p10 (?g + 1) * of_int d" using bd by (intro mult_left_mono) (simp_all add: less_imp_le)
    finally show ?thesis using pd by (simp add: x field_simps)
  qed
  ultimately show ?thesis by (auto simp: lead_exp_def q Let_def)
qed

lemma half_even_int [simp]: "half_even (of_int n) = n"
  by (simp add: half_even_def)

lemma half_even_0 [simp]: "half_even 0 = 0"
  using half_even_int [of 0] by simp

lemma half_even_near: "\<bar>of_int (half_even x) - x\<bar> \<le> 1 / 2"
  using floor_correct [of x] by (simp add: half_even_def Let_def abs_if) linarith

lemma half_even_mono:
  assumes "x \<le> y"
  shows "half_even x \<le> half_even y"
proof (cases "\<lfloor>x\<rfloor> = \<lfloor>y\<rfloor>")
  case True
  then show ?thesis using assms by (auto simp: half_even_def Let_def)
next
  case False
  then have "\<lfloor>x\<rfloor> + 1 \<le> \<lfloor>y\<rfloor>" using floor_mono [OF assms] by simp
  then show ?thesis by (auto simp: half_even_def Let_def)
qed

lemma half_even_neg: "half_even (- x) = - half_even x"
proof (cases "x = of_int \<lfloor>x\<rfloor>")
  case True
  then show ?thesis by (metis half_even_int of_int_minus)
next
  case False
  then have "\<lfloor>- x\<rfloor> = - \<lfloor>x\<rfloor> - 1" using floor_correct [of x] by (intro floor_unique) (auto simp: less_le)
  then show ?thesis by (auto simp: half_even_def Let_def)
qed

lemma dv_int [simp]: "dv (dec_int n) = of_int n"
  by (simp add: dv_def dec_int_def p10_def)

lemma dv_zero [simp]: "dv (Dc 0 e) = 0"
  by (simp add: dv_def)

lemma to_dec_0 [simp]: "to_dec p 0 = Dc 0 0"
  by (simp add: to_dec_def)

lemma to_dec_neg: "dv (to_dec p (- x)) = - dv (to_dec p x)"
  by (simp add: to_dec_def Let_def dv_def half_even_neg)

text \<open>A positive value lies in the decade of its leading digit, before and after rounding.\<close>

lemma to_dec_decade:
  assumes "0 < x" "1 \<le> p"
  shows "p10 (lead_exp x) \<le> dv (to_dec p x) \<and> dv (to_dec p x) \<le> p10 (lead_exp x + 1)"
proof -
  let ?e = "lead_exp x - (p - 1)"
  define k where "k = nat p"
  have k: "p = int k" "1 \<le> k" using assms(2) by (simp_all add: k_def)
  have lo: "of_int (10 ^ (k - 1)) \<le> x / p10 ?e" "x / p10 ?e \<le> of_int (10 ^ k)"
  proof -
    have "p10 (p - 1) * p10 ?e \<le> x" "x \<le> p10 p * p10 ?e"
      using lead_exp_spec [OF assms(1)] by (simp_all add: less_imp_le add.commute flip: p10_add)
    moreover have "p10 (p - 1) = of_int (10 ^ (k - 1))" "p10 p = of_int (10 ^ k)"
      using k p10_nat [of "k - 1"] p10_nat [of k] by (simp_all add: of_nat_diff)
    ultimately show "of_int (10 ^ (k - 1)) \<le> x / p10 ?e" "x / p10 ?e \<le> of_int (10 ^ k)"
      using p10_pos [of ?e] by (simp_all add: pos_le_divide_eq pos_divide_le_eq)
  qed
  have "10 ^ (k - 1) \<le> half_even (x / p10 ?e)" "half_even (x / p10 ?e) \<le> 10 ^ k"
    using half_even_mono [OF lo(1)] half_even_mono [OF lo(2)] by (simp_all only: half_even_int)
  then have h: "(of_int (10 ^ (k - 1)) :: rat) \<le> of_int (half_even (x / p10 ?e))"
    "(of_int (half_even (x / p10 ?e)) :: rat) \<le> of_int (10 ^ k)"
    by (simp_all only: of_int_le_iff)
  have v: "dv (to_dec p x) = of_int (half_even (x / p10 ?e)) * p10 ?e"
    using assms(1) by (simp add: to_dec_def Let_def dv_def)
  have "p10 (lead_exp x) = of_int (10 ^ (k - 1)) * p10 ?e" "p10 (lead_exp x + 1) = of_int (10 ^ k) * p10 ?e"
    using k p10_add [of "int (k - 1)" ?e] p10_add [of "int k" ?e] p10_nat [of "k - 1"] p10_nat [of k]
    by (simp_all add: of_nat_diff add.commute)
  then show ?thesis unfolding v using h by (simp add: mult_right_mono less_imp_le)
qed

lemma lead_exp_mono:
  assumes "0 < x" "x \<le> y"
  shows "lead_exp x \<le> lead_exp y"
proof (rule ccontr)
  assume "\<not> ?thesis"
  then have "p10 (lead_exp y + 1) \<le> p10 (lead_exp x)" by (intro p10_mono) simp
  then show False using lead_exp_spec [of x] lead_exp_spec [of y] assms by linarith
qed

lemma to_dec_mono_pos:
  assumes "0 < x" "x \<le> y" "1 \<le> p"
  shows "dv (to_dec p x) \<le> dv (to_dec p y)"
proof (cases "lead_exp x = lead_exp y")
  case True
  let ?e = "lead_exp y - (p - 1)"
  have "half_even (x / p10 ?e) \<le> half_even (y / p10 ?e)"
    using assms(2) by (intro half_even_mono divide_right_mono) (simp_all add: less_imp_le)
  then show ?thesis using assms(1,2) True by (simp add: to_dec_def Let_def dv_def mult_right_mono less_imp_le)
next
  case False
  then have "lead_exp x + 1 \<le> lead_exp y" using lead_exp_mono [OF assms(1,2)] by simp
  from p10_mono [OF this] show ?thesis
    using to_dec_decade [OF assms(1,3)] to_dec_decade [of y p] assms by linarith
qed

lemma to_dec_pos: "0 < x \<Longrightarrow> 1 \<le> p \<Longrightarrow> 0 < dv (to_dec p x)"
  using to_dec_decade [of x p] p10_pos [of "lead_exp x"] by linarith

text \<open>Rounding is monotone.\<close>

lemma to_dec_mono:
  assumes "x \<le> y" "1 \<le> p"
  shows "dv (to_dec p x) \<le> dv (to_dec p y)"
proof -
  have neg: "z < 0 \<Longrightarrow> dv (to_dec p z) < 0" for z
    using to_dec_pos [of "- z" p] to_dec_neg [of p z] assms(2) by simp
  consider "0 < x" | "x = 0" | "x < 0" "0 \<le> y" | "y < 0" using assms(1) by linarith
  then show ?thesis
  proof cases
    case 1
    then show ?thesis by (rule to_dec_mono_pos [OF _ assms])
  next
    case 2
    then show ?thesis using to_dec_pos [of y p] assms by (cases "y = 0") auto
  next
    case 3
    then show ?thesis using neg [of x] to_dec_pos [of y p] assms(2) by (cases "y = 0") auto
  next
    case 4
    have "dv (to_dec p (- y)) \<le> dv (to_dec p (- x))" using 4 assms by (intro to_dec_mono_pos) simp_all
    then show ?thesis by (simp add: to_dec_neg)
  qed
qed

lemma to_dec_nonneg: "0 \<le> x \<Longrightarrow> 1 \<le> p \<Longrightarrow> 0 \<le> dv (to_dec p x)"
  using to_dec_mono [of 0 x p] by simp

lemma to_dec_zero_iff: "1 \<le> p \<Longrightarrow> dv (to_dec p x) = 0 \<longleftrightarrow> x = 0"
  using to_dec_pos [of x p] to_dec_pos [of "- x" p] to_dec_neg [of p x] by (cases x "0 :: rat" rule: linorder_cases) auto

text \<open>A value with no more digits than the precision is kept.\<close>

lemma to_dec_exact:
  assumes "\<bar>c\<bar> < 10 ^ nat p" "1 \<le> p"
  shows "dv (to_dec p (of_int c * p10 e)) = of_int c * p10 e"
proof (cases "c = 0")
  case False
  let ?x = "of_int \<bar>c\<bar> * p10 e"
  have x: "0 < ?x" using False by simp
  have "p10 (lead_exp ?x) < p10 p * p10 e"
  proof -
    have "(of_int \<bar>c\<bar> :: rat) < of_int (10 ^ nat p)" using assms(1) by (simp only: of_int_less_iff)
    then have "(of_int \<bar>c\<bar> :: rat) < p10 p" using assms(2) by (simp add: p10_def)
    then have "?x < p10 p * p10 e" by (rule mult_strict_right_mono) simp
    then show ?thesis using lead_exp_spec [OF x] by linarith
  qed
  moreover have "p + e \<le> lead_exp ?x \<Longrightarrow> p10 p * p10 e \<le> p10 (lead_exp ?x)"
    using p10_mono [of "p + e" "lead_exp ?x"] by (simp add: p10_add)
  ultimately have "lead_exp ?x < p + e" by (meson not_le)
  then obtain k where k: "e = lead_exp ?x - (p - 1) + int k" using zle_iff_zadd [of "lead_exp ?x - (p - 1)" e] by auto
  have "of_int c * p10 e / p10 (lead_exp ?x - (p - 1)) = of_int (c * 10 ^ k)"
  proof -
    have "e - (lead_exp ?x - (p - 1)) = int k" using k by linarith
    then have "p10 e / p10 (lead_exp ?x - (p - 1)) = 10 ^ k" by (simp only: p10_diff p10_nat)
    then show ?thesis by (simp only: times_divide_eq_right [symmetric]) simp
  qed
  moreover have "\<bar>of_int c * p10 e\<bar> = ?x" by (simp add: abs_mult abs_of_pos)
  ultimately have "dv (to_dec p (of_int c * p10 e))
      = of_int c * p10 e / p10 (lead_exp ?x - (p - 1)) * p10 (lead_exp ?x - (p - 1))"
    using False half_even_int [of "c * 10 ^ k"] by (simp add: to_dec_def Let_def dv_def)
  then show ?thesis by simp
qed simp

lemma to_dec_int: "\<bar>n\<bar> < 10 ^ nat p \<Longrightarrow> 1 \<le> p \<Longrightarrow> dv (to_dec p (of_int n)) = of_int n"
  using to_dec_exact [of n p 0] by (simp add: p10_def)

lemma to_dec_1: "1 \<le> p \<Longrightarrow> dv (to_dec p 1) = 1"
  using to_dec_int [of 1 p] by (simp add: one_less_power)

subsection \<open>Which decimals can be written\<close>

lemma digits_length_bounds:
  assumes "0 < n"
  shows "10 ^ (length (digits n) - 1) \<le> n \<and> n < 10 ^ length (digits n)"
  using assms
proof (induction n rule: digits.induct)
  case (1 n)
  show ?case
  proof (cases "n < 10")
    case True
    then show ?thesis using 1 by (simp add: digits.simps [of n])
  next
    case False
    let ?m = "n div 10" and ?k = "length (digits (n div 10))"
    have ih: "10 ^ (?k - 1) \<le> ?m" "?m < 10 ^ ?k" using 1 False by simp_all
    have k: "?k \<noteq> 0" by simp
    have "10 ^ ?k \<le> n" "n < 10 * 10 ^ ?k" using ih k by (simp_all add: power_eq_if [of 10 ?k])
    then show ?thesis using False by (simp add: digits.simps [of n])
  qed
qed

lemma digits_length_scaled:
  assumes "0 < n" "n * 10 ^ j < 10 ^ k"
  shows "length (digits n) + j \<le> k"
proof -
  have "(10::nat) ^ (length (digits n) - 1 + j) \<le> n * 10 ^ j"
    using digits_length_bounds [OF assms(1)] by (simp add: power_add)
  also have "\<dots> < 10 ^ k" by (rule assms(2))
  finally have "length (digits n) - 1 + j < k" by simp
  moreover have "length (digits n) \<noteq> 0" by simp
  ultimately show ?thesis by linarith
qed

lemma dec_string_ok:
  assumes "dv d = of_int c * p10 e" "\<bar>c\<bar> < 10 ^ k" "- m \<le> e" "e \<le> 0" "k \<le> 126" "m \<le> 125"
  obtains s where "dec_string d = Inr s"
proof -
  have d: "dec_string d = dec_string (Dc c e)" by (rule dec_string_cong) (simp add: assms(1) dv_def [of "Dc c e"])
  show thesis
  proof (cases "c = 0")
    case True
    then have "dec_string d = Inr ''0''"
      unfolding d by (simp add: dec_string_def canonical_decimal_string_def decimal_of_value_def dec_py_def render_decimal_zero)
    with that show thesis by blast
  next
    case False
    define n where "n = nat \<bar>c\<bar>"
    have n: "n \<noteq> 0" "n < 10 ^ k" using False assms(2) by (simp_all add: n_def nat_less_iff)
    obtain n' e' where st: "strip_zeros n e = (n', e')" by (cases "strip_zeros n e")
    have sp: "n' mod 10 \<noteq> 0" "e \<le> e'" "n = n' * 10 ^ nat (e' - e)" using strip_zeros_spec [OF st n(1)] by simp_all
    then have n': "0 < n'" using n(1) by (cases n') auto
    have len: "int (length (digits n')) + (e' - e) \<le> int k"
      using digits_length_scaled [of n' "nat (e' - e)" k] n' n(2) sp(2) by (simp add: sp(3))
    have "rendered_width (length (digits n')) e' \<le> 127"
      using len assms(3-6) sp(2) by (auto simp: rendered_width_def)
    then have "render_decimal (Dec (c < 0) n e) = Inr ((if c < 0 then ''-'' else []) @ format_f n' e')"
      by (subst render_decimal_nonzero [OF n(1) st]) auto
    then show thesis
      using that unfolding d by (simp add: dec_string_def canonical_decimal_string_def decimal_of_value_def dec_py_def n_def)
  qed
qed

end
