(* ===== verification/Mark_Sheet.thy ===== *)
theory Mark_Sheet
  imports Decimal_Arith "HOL-Library.Product_Lexorder"
begin

section \<open>Mark sheets (domain/optimizer.py)\<close>

text \<open>
  A mark is the number of seconds a competitor starts after the count of three; a sheet assigns one
  to every competitor of a field. \<open>canonical_rounded_sheet\<close> computes the ideal sheet (each slower
  time made up exactly) and its rounding to whole seconds, \<open>_is_legal\<close> says which sheets may be
  issued, \<open>_small_candidates\<close> enumerates the sheets near the rounded one for small fields, and the
  beam search of larger fields moves between legal sheets one second at a time.

  The integers of the code are typed as \<open>int\<close>, so its checks for \<open>bool\<close> have no counterpart.
\<close>

subsection \<open>Errors and fallbacks\<close>

datatype (plugins only: code size) optimizer_fallback =
    OF_EMPTY_FIELD
  | OF_OPTIMIZER_FAILURE
  | OF_EMPTY_FRONTIER
  | OF_NONFINITE_FRONTIER
  | OF_RANK_INVALID
  | OF_NO_VALID_IMPROVEMENT

primrec optimizer_fallback_value :: "optimizer_fallback \<Rightarrow> string" where
  "optimizer_fallback_value OF_EMPTY_FIELD = ''empty_field''"
| "optimizer_fallback_value OF_OPTIMIZER_FAILURE = ''optimizer_failure''"
| "optimizer_fallback_value OF_EMPTY_FRONTIER = ''empty_frontier''"
| "optimizer_fallback_value OF_NONFINITE_FRONTIER = ''nonfinite_frontier''"
| "optimizer_fallback_value OF_RANK_INVALID = ''rank_invalid''"
| "optimizer_fallback_value OF_NO_VALID_IMPROVEMENT = ''no_valid_improvement''"

text \<open>What the optimizer may raise: a contract error, \<open>decimal.InvalidOperation\<close>, the private abort
  of the search, or \<open>KeyError\<close>.\<close>

datatype opt_error = Contract v3_error | InvalidOperation | Abort optimizer_fallback | KeyError

subsection \<open>Bounds and rounding\<close>

definition mark_bounds :: "int \<Rightarrow> int \<Rightarrow> opt_error + unit" where
  "mark_bounds low high = guards
     [(low \<noteq> 3 \<or> high < low \<or> 183 < high,
       Contract (ContractError ''optimizer bounds require Mark 3 and a ceiling through 183''))]"

definition round_half_even_seconds :: "int \<Rightarrow> opt_error + int" where
  "round_half_even_seconds ms =
     of_option InvalidOperation (dec_quantize 32 (dec_div 32 (dec_int ms) (dec_int 1000)))"

definition round_fraction_half_even :: "int \<Rightarrow> int \<Rightarrow> opt_error + int" where
  "round_fraction_half_even numerator denominator =
     of_option InvalidOperation (dec_quantize 64 (dec_div 64 (dec_int numerator) (dec_int denominator)))"

definition canonical_rounded_sheet :: "int list \<Rightarrow> int \<Rightarrow> int \<Rightarrow> opt_error + string list \<times> int list" where
  "canonical_rounded_sheet expected low high =
     bind_res (mark_bounds low high) (\<lambda>_.
     bind_res (guards [(list_ex (\<lambda>v. v \<le> 0) expected,
         Contract (ContractError ''expected times must be positive integer milliseconds''))]) (\<lambda>_.
     if expected = [] then Inr ([], [])
     else (let slowest = Max (set expected) in
       bind_res (map_err Contract (map_all (\<lambda>v. dec_string (dec_add 96 (dec_int low)
           (dec_div 96 (dec_int (slowest - v)) (dec_int 1000)))) expected)) (\<lambda>ideal.
       bind_res (map_all (\<lambda>v. map_res (\<lambda>s. min high (max low (low + s)))
           (round_half_even_seconds (slowest - v))) expected) (\<lambda>baseline.
       Inr (ideal, baseline))))))"

subsection \<open>Legal sheets\<close>

text \<open>\<open>sorted(range(n), key=lambda index: (-expected[index], index))\<close>: from the slowest on.\<close>

definition slowest_first :: "int list \<Rightarrow> nat list" where
  "slowest_first expected = sort_key (\<lambda>i. (- expected ! i, i)) [0..<length expected]"

definition tied_pairs :: "int list \<Rightarrow> (nat \<times> nat) list" where
  "tied_pairs expected = [(i, j). i \<leftarrow> [0..<length expected], j \<leftarrow> [i + 1..<length expected],
     expected ! i = expected ! j]"

definition is_legal :: "int list \<Rightarrow> int list \<Rightarrow> int \<Rightarrow> int \<Rightarrow> bool" where
  "is_legal expected marks low high =
     (if length expected \<noteq> length marks \<or> marks = [] \<or> Min (set marks) \<noteq> low then False
      else if list_ex (\<lambda>m. m < low \<or> high < m) marks then False
      else (let ordered = map (\<lambda>i. marks ! i) (slowest_first expected) in
        if ordered \<noteq> sort ordered then False
        else list_all (\<lambda>i. list_all (\<lambda>j. expected ! i \<noteq> expected ! j \<or> marks ! i = marks ! j)
               [i + 1..<length expected]) [0..<length expected]))"

text \<open>The test of the beam search on a neighbour of a legal sheet.\<close>

definition legal_sheet :: "int list \<Rightarrow> int \<Rightarrow> int \<Rightarrow> int list \<Rightarrow> bool" where
  "legal_sheet expected low high marks =
     (if Min (set marks) \<noteq> low \<or> list_ex (\<lambda>m. m < low \<or> high < m) marks then False
      else (let ordered = map (\<lambda>i. marks ! i) (slowest_first expected) in
        list_all (\<lambda>i. ordered ! i \<le> ordered ! (i + 1)) [0..<length ordered - 1]
        \<and> list_all (\<lambda>(i, j). marks ! i = marks ! j) (tied_pairs expected)))"

text \<open>\<open>_small_candidates\<close>: the sheets within the radius of the baseline, in the order of
  \<open>itertools.product\<close>.\<close>

definition mark_range :: "int \<Rightarrow> int \<Rightarrow> int \<Rightarrow> int \<Rightarrow> int list" where
  "mark_range low high radius mark = [max low (mark - radius)..min high (mark + radius)]"

definition small_candidates :: "int list \<Rightarrow> int list \<Rightarrow> int \<Rightarrow> int \<Rightarrow> int \<Rightarrow> int list list" where
  "small_candidates expected baseline low high radius =
     filter (\<lambda>marks.
        let ordered = map (\<lambda>i. marks ! i) (slowest_first expected) in
        Min (set marks) = low \<and> ordered = sort ordered
        \<and> list_all (\<lambda>(i, j). marks ! i = marks ! j) (tied_pairs expected))
       (product_lists (map (mark_range low high radius) baseline))"

text \<open>The neighbours of a sheet in the order of the loops: each mark one second down, then up.\<close>

definition neighbours :: "int list \<Rightarrow> int list list" where
  "neighbours marks = concat (map (\<lambda>i. [marks[i := marks ! i - 1], marks[i := marks ! i + 1]]) [0..<length marks])"

subsection \<open>What a legal sheet is\<close>

text \<open>The contract behind the tests: somebody starts at the floor, nobody beyond the ceiling, and a
  competitor who is expected to be at least as slow never starts later.\<close>

definition fair_sheet :: "int list \<Rightarrow> int \<Rightarrow> int \<Rightarrow> int list \<Rightarrow> bool" where
  "fair_sheet expected low high marks \<longleftrightarrow>
     length marks = length expected \<and> low \<in> set marks \<and> (\<forall>m \<in> set marks. low \<le> m \<and> m \<le> high)
     \<and> (\<forall>i < length marks. \<forall>j < length marks. expected ! j \<le> expected ! i \<longrightarrow> marks ! i \<le> marks ! j)"

lemma sorted_by_other_key:
  fixes k :: "'a \<Rightarrow> 'k::linorder" and g :: "'a \<Rightarrow> 'g::linorder"
  assumes "sorted (map k xs)" "distinct (map k xs)"
  shows "sorted (map g xs) \<longleftrightarrow> (\<forall>x \<in> set xs. \<forall>y \<in> set xs. k x < k y \<longrightarrow> g x \<le> g y)"
  using assms
proof (induction xs)
  case (Cons x xs)
  have first: "k x < k y" if "y \<in> set xs" for y using Cons.prems that by (auto simp: less_le)
  then show ?case using Cons by (auto dest: less_asym)
qed simp

lemma slowest_first_facts:
  "set (slowest_first e) = {..<length e}" "distinct (slowest_first e)" "length (slowest_first e) = length e"
  "sorted (map (\<lambda>i. (- e ! i, i)) (slowest_first e))"
  "distinct (map (\<lambda>i. (- e ! i, i)) (slowest_first e))"
  by (auto simp: slowest_first_def distinct_map inj_on_def)

lemma sorted_slowest_first:
  "sorted (map (\<lambda>i. m ! i) (slowest_first e))
    \<longleftrightarrow> (\<forall>i < length e. \<forall>j < length e. e ! j < e ! i \<or> e ! i = e ! j \<and> i < j \<longrightarrow> m ! i \<le> m ! j)"
proof -
  have key: "(- e ! i, i) < (- e ! j, j) \<longleftrightarrow> e ! j < e ! i \<or> e ! i = e ! j \<and> i < j" for i j
    by (auto simp: less_prod_def)
  show ?thesis
    unfolding sorted_by_other_key [OF slowest_first_facts(4,5)] slowest_first_facts(1) key by auto
qed

lemma fair_order:
  "(\<forall>i < n. \<forall>j < n. e ! j \<le> e ! i \<longrightarrow> (m ! i :: int) \<le> m ! j)
    \<longleftrightarrow> (\<forall>i < n. \<forall>j < n. e ! j < (e ! i :: int) \<or> e ! i = e ! j \<and> i < j \<longrightarrow> m ! i \<le> m ! j)
        \<and> (\<forall>i < n. \<forall>j. i < j \<and> j < n \<and> e ! i = e ! j \<longrightarrow> m ! i = m ! j)" (is "?l \<longleftrightarrow> ?r1 \<and> ?r2")
proof
  assume l: ?l
  then show "?r1 \<and> ?r2" by (simp add: order.antisym)
next
  assume r: "?r1 \<and> ?r2"
  show ?l
  proof (intro allI impI)
    fix i j assume ij: "i < n" "j < n" "e ! j \<le> e ! i"
    have r1: "e ! j < e ! i \<or> e ! i = e ! j \<and> i < j \<Longrightarrow> m ! i \<le> m ! j" using r ij(1,2) by blast
    have r2: "j < i \<Longrightarrow> e ! j = e ! i \<Longrightarrow> m ! j = m ! i" using r ij(1,2) by blast
    show "m ! i \<le> m ! j"
    proof (cases "j < i \<and> e ! j = e ! i")
      case True
      then show ?thesis using r2 by simp
    next
      case False
      then consider "i = j" | "e ! j < e ! i" | "e ! i = e ! j" "i < j" using ij(3) by linarith
      then show ?thesis using r1 by cases simp_all
    qed
  qed
qed

lemma tied_pairs_all:
  "list_all (\<lambda>(i, j). m ! i = m ! j) (tied_pairs e)
    \<longleftrightarrow> (\<forall>i < length e. \<forall>j. i < j \<and> j < length e \<and> e ! i = e ! j \<longrightarrow> m ! i = m ! j)"
  by (auto simp: list_all_iff tied_pairs_def)

lemma min_is_low:
  "marks \<noteq> [] \<Longrightarrow> Min (set marks) = low \<and> \<not> list_ex (\<lambda>m. m < low \<or> high < m) marks
    \<longleftrightarrow> low \<in> set marks \<and> (\<forall>m \<in> set marks. low \<le> m \<and> m \<le> (high :: int))"
  by (auto simp: list_ex_iff Min_eq_iff)

lemma sort_fixed_iff: "xs = sort xs \<longleftrightarrow> sorted (xs :: 'a::linorder list)"
  by (metis sorted_sort sorted_sort_id)

lemma is_legal_fair: "is_legal e m f c \<longleftrightarrow> fair_sheet e f c m"
proof (cases "length e = length m \<and> m \<noteq> []")
  case True
  have ties: "list_all (\<lambda>i. list_all (\<lambda>j. e ! i \<noteq> e ! j \<or> m ! i = m ! j) [i + 1..<length e]) [0..<length e]
      \<longleftrightarrow> (\<forall>i < length e. \<forall>j. i < j \<and> j < length e \<and> e ! i = e ! j \<longrightarrow> m ! i = m ! j)"
    by (auto simp: list_all_iff)
  have "is_legal e m f c \<longleftrightarrow> (Min (set m) = f \<and> \<not> list_ex (\<lambda>m. m < f \<or> c < m) m)
      \<and> sorted (map (\<lambda>i. m ! i) (slowest_first e))
      \<and> list_all (\<lambda>i. list_all (\<lambda>j. e ! i \<noteq> e ! j \<or> m ! i = m ! j) [i + 1..<length e]) [0..<length e]"
    using True by (simp add: is_legal_def Let_def sort_fixed_iff)
  also have "\<dots> \<longleftrightarrow> fair_sheet e f c m"
    unfolding min_is_low [OF conjunct2 [OF True]] sorted_slowest_first ties fair_sheet_def
    using True by (simp only: conj_assoc fair_order simp_thms)
  finally show ?thesis .
next
  case False
  then show ?thesis by (auto simp: is_legal_def fair_sheet_def)
qed

text \<open>The two other tests of the code are the same one.\<close>

lemma legal_sheet_fair:
  assumes "length m = length e" "m \<noteq> []"
  shows "legal_sheet e f c m \<longleftrightarrow> fair_sheet e f c m"
proof -
  have chain: "list_all (\<lambda>i. xs ! i \<le> xs ! (i + 1)) [0..<length xs - 1] \<longleftrightarrow> sorted xs"
    for xs :: "int list"
    by (auto simp: list_all_iff sorted_iff_nth_Suc)
  have "legal_sheet e f c m \<longleftrightarrow> (Min (set m) = f \<and> \<not> list_ex (\<lambda>m. m < f \<or> c < m) m)
      \<and> sorted (map (\<lambda>i. m ! i) (slowest_first e)) \<and> list_all (\<lambda>(i, j). m ! i = m ! j) (tied_pairs e)"
    unfolding legal_sheet_def Let_def chain by (simp only: if_bool_eq_conj) blast
  also have "\<dots> \<longleftrightarrow> fair_sheet e f c m"
    unfolding min_is_low [OF assms(2)] sorted_slowest_first tied_pairs_all fair_sheet_def
    using assms by (simp only: conj_assoc fair_order simp_thms)
  finally show ?thesis .
qed

text \<open>The exhaustive search enumerates every legal sheet within the radius, once, in order.\<close>

lemma product_lists_sorted:
  assumes "\<forall>xs \<in> set xss. sorted xs \<and> distinct (xs :: 'a::linorder list)"
  shows "sorted (product_lists xss) \<and> distinct (product_lists xss)"
  using assms
proof (induction xss)
  case (Cons xs xss)
  then have ih: "sorted (product_lists xss)" "distinct (product_lists xss)" and xs: "sorted xs" "distinct xs" by simp_all
  have one: "sorted (map (Cons x) (product_lists xss))" for x
    using ih(1) by (simp add: sorted_map sorted_wrt_iff_nth_less)
  have "sorted (concat (map (\<lambda>x. map (Cons x) (product_lists xss)) xs))
      \<and> distinct (concat (map (\<lambda>x. map (Cons x) (product_lists xss)) xs))"
    using xs
  proof (induction xs)
    case (Cons x xs)
    then show ?case using one [of x] ih(2)
      by (auto simp: sorted_append distinct_map inj_on_def less_le)
  qed simp
  then show ?case by simp
qed simp

lemma small_candidates_set:
  assumes "length b = length e" "e \<noteq> []"
  shows "set (small_candidates e b f c r) = {m. fair_sheet e f c m \<and> (\<forall>i < length e. \<bar>m ! i - b ! i\<bar> \<le> r)}"
proof -
  have prod: "m \<in> set (product_lists (map (mark_range f c r) b))
      \<longleftrightarrow> length m = length e \<and> (\<forall>i < length e. m ! i \<in> {max f (b ! i - r)..min c (b ! i + r)})" for m
    using assms by (auto simp: product_lists_set list_all2_conv_all_nth mark_range_def)
  have "m \<in> set (small_candidates e b f c r) \<longleftrightarrow> fair_sheet e f c m \<and> (\<forall>i < length e. \<bar>m ! i - b ! i\<bar> \<le> r)" for m
  proof (cases "length m = length e")
    case True
    then have ne: "m \<noteq> []" using assms(2) by auto
    have rng: "(\<forall>i < length e. m ! i \<in> {max f (b ! i - r)..min c (b ! i + r)}) \<and> (\<forall>x \<in> set m. f \<le> x)
        \<longleftrightarrow> (\<forall>i < length e. \<bar>m ! i - b ! i\<bar> \<le> r) \<and> (\<forall>x \<in> set m. f \<le> x \<and> x \<le> c)"
      unfolding all_set_conv_all_nth True by (auto simp: abs_le_iff algebra_simps)
    have mn: "Min (set m) = f \<longleftrightarrow> f \<in> set m \<and> (\<forall>x \<in> set m. f \<le> x)" using ne by (auto simp: Min_eq_iff)
    have "m \<in> set (small_candidates e b f c r) \<longleftrightarrow>
        (\<forall>i < length e. m ! i \<in> {max f (b ! i - r)..min c (b ! i + r)}) \<and> (f \<in> set m \<and> (\<forall>x \<in> set m. f \<le> x))
        \<and> sorted (map (\<lambda>i. m ! i) (slowest_first e)) \<and> list_all (\<lambda>(i, j). m ! i = m ! j) (tied_pairs e)"
      unfolding small_candidates_def Let_def set_filter mem_Collect_eq prod sort_fixed_iff mn using True by simp
    also have "\<dots> \<longleftrightarrow> (\<forall>i < length e. \<bar>m ! i - b ! i\<bar> \<le> r) \<and> fair_sheet e f c m"
      unfolding sorted_slowest_first tied_pairs_all fair_sheet_def True fair_order using rng by blast
    finally show ?thesis by blast
  next
    case False
    then show ?thesis by (auto simp: small_candidates_def prod fair_sheet_def)
  qed
  then show ?thesis by blast
qed

lemma small_candidates_order: "sorted (small_candidates e b f c r) \<and> distinct (small_candidates e b f c r)"
proof -
  have "sorted (product_lists (map (mark_range f c r) b)) \<and> distinct (product_lists (map (mark_range f c r) b))"
    by (rule product_lists_sorted) (auto simp: mark_range_def)
  then show ?thesis by (simp add: small_candidates_def sorted_wrt_filter)
qed

subsection \<open>The canonical sheet\<close>

lemma thousandth: "of_int n / 1000 = of_int n * p10 (- 3)"
  by (simp add: p10_def)

text \<open>Every time the code admits is far below the 32 digits of the rounding context.\<close>

lemma dec_div_1000:
  assumes "0 \<le> ms" "ms < 10 ^ 31" "p = 32 \<or> p = 96"
  shows "dv (dec_div p (dec_int ms) (dec_int 1000)) = of_int ms / 1000"
proof -
  have "\<bar>ms\<bar> < 10 ^ nat p" "1 \<le> p"
    using assms by (auto intro: less_le_trans)
  then show ?thesis unfolding dec_div_def by (simp add: thousandth to_dec_exact)
qed

lemma round_half_even_seconds_exact:
  assumes "0 \<le> ms" "ms < 10 ^ 31"
  shows "round_half_even_seconds ms = Inr (half_even (of_int ms / 1000))"
proof -
  let ?x = "of_int ms / 1000 :: rat"
  have "(of_int ms :: rat) < of_int (10 ^ 31)" using assms(2) by (simp only: of_int_less_iff)
  then have "0 \<le> ?x" "?x \<le> of_int (10 ^ 31)" using assms(1) by simp_all
  then have "half_even 0 \<le> half_even ?x" "half_even ?x \<le> half_even (of_int (10 ^ 31))"
    using half_even_mono [of 0 ?x] half_even_mono [of ?x "of_int (10 ^ 31)"] by blast+
  then have h: "0 \<le> half_even ?x" "half_even ?x \<le> 10 ^ 31"
    unfolding half_even_int by simp_all
  from h(2) have "(of_int (half_even ?x) :: rat) \<le> of_int (10 ^ 31)" by (simp only: of_int_le_iff)
  then have "of_int \<bar>half_even ?x\<bar> < p10 32" using h(1) by (simp add: p10_def)
  then show ?thesis
    by (simp add: round_half_even_seconds_def dec_quantize_def Let_def dec_div_1000 [OF assms disjI1 [OF refl]])
qed

text \<open>The times of a field: positive and, with every sum and difference taken of them, bounded.\<close>

definition time_ok :: "int \<Rightarrow> bool" where
  "time_ok v \<longleftrightarrow> 0 < v \<and> v \<le> 2000000000"

definition rounded_mark :: "int \<Rightarrow> int \<Rightarrow> int list \<Rightarrow> int \<Rightarrow> int" where
  "rounded_mark low high expected v = min high (low + half_even (of_int (Max (set expected) - v) / 1000))"

lemma ideal_mark:
  assumes "0 \<le> ms" "ms < 10 ^ 31" "0 \<le> low" "low \<le> 183"
  shows "dv (dec_add 96 (dec_int low) (dec_div 96 (dec_int ms) (dec_int 1000))) = of_int low + of_int ms / 1000"
    "\<exists>s. dec_string (dec_add 96 (dec_int low) (dec_div 96 (dec_int ms) (dec_int 1000))) = Inr s"
proof -
  let ?c = "1000 * low + ms"
  have b: "\<bar>?c\<bar> < 10 ^ 40" using assms by simp
  have c: "of_int low + of_int ms / 1000 = of_int ?c * p10 (- 3)" by (simp add: p10_def field_simps)
  have "dv (dec_add 96 (dec_int low) (dec_div 96 (dec_int ms) (dec_int 1000))) = dv (to_dec 96 (of_int ?c * p10 (- 3)))"
    by (simp only: dec_add_def dec_div_1000 [OF assms(1,2) disjI2 [OF refl]] dv_int c)
  also have "\<dots> = of_int ?c * p10 (- 3)" using b by (intro to_dec_exact) simp_all
  finally have v: "dv (dec_add 96 (dec_int low) (dec_div 96 (dec_int ms) (dec_int 1000))) = of_int ?c * p10 (- 3)" .
  then show "dv (dec_add 96 (dec_int low) (dec_div 96 (dec_int ms) (dec_int 1000))) = of_int low + of_int ms / 1000"
    by (simp only: c)
  show "\<exists>s. dec_string (dec_add 96 (dec_int low) (dec_div 96 (dec_int ms) (dec_int 1000))) = Inr s"
    by (rule dec_string_ok [OF v b, of 3]) auto
qed

lemma canonical_sheet:
  assumes "mark_bounds low high = Inr ()" "list_all time_ok expected" "expected \<noteq> []"
  obtains ideal where
    "canonical_rounded_sheet expected low high = Inr (ideal, map (rounded_mark low high expected) expected)"
    "list_all2 (\<lambda>s v. dv (dec_of_string s) = of_int low + of_int (Max (set expected) - v) / 1000) ideal expected"
proof -
  let ?ms = "\<lambda>v. Max (set expected) - v"
  let ?d = "\<lambda>v. dec_add 96 (dec_int low) (dec_div 96 (dec_int (?ms v)) (dec_int 1000))"
  have lh: "low = 3" "3 \<le> high" "high \<le> 183" using assms(1) by (simp_all add: mark_bounds_def split: if_splits)
  have range: "0 \<le> ?ms v" "?ms v < 10 ^ 31" if "v \<in> set expected" for v
  proof -
    have "Max (set expected) \<in> set expected" using assms(3) by simp
    then have "Max (set expected) \<le> 2000000000" "0 < v" using assms(2) that by (auto simp: list_all_iff time_ok_def)
    then show "?ms v < 10 ^ 31" by simp
    show "0 \<le> ?ms v" using that by simp
  qed
  note im = ideal_mark [OF range, of _ low]
  define wr where "wr = (\<lambda>v. projr (dec_string (?d v)))"
  have ok: "dec_string (?d v) = Inr (wr v)" if "v \<in> set expected" for v
    using im(2) [OF that that] lh by (auto simp: wr_def)
  have ideal: "map_all (\<lambda>v. dec_string (?d v)) expected = Inr (map wr expected)"
    using ok by (rule map_all_InrI)
  have base: "map_all (\<lambda>v. map_res (\<lambda>s. min high (max low (low + s))) (round_half_even_seconds (?ms v))) expected
      = Inr (map (rounded_mark low high expected) expected)"
  proof (rule map_all_InrI)
    fix v assume v: "v \<in> set expected"
    have "half_even 0 \<le> half_even (of_int (?ms v) / 1000)" using range(1) [OF v] by (intro half_even_mono) simp
    then show "map_res (\<lambda>s. min high (max low (low + s))) (round_half_even_seconds (?ms v)) = Inr (rounded_mark low high expected v)"
      using round_half_even_seconds_exact [OF range [OF v]] by (simp add: rounded_mark_def)
  qed
  have pos: "\<not> list_ex (\<lambda>v. v \<le> 0) expected" using assms(2) by (auto simp: list_ex_iff list_all_iff time_ok_def)
  have sheet: "canonical_rounded_sheet expected low high = Inr (map wr expected, map (rounded_mark low high expected) expected)"
    unfolding canonical_rounded_sheet_def using assms(1,3) pos ideal base by (simp add: Let_def)
  have "list_all2 (\<lambda>s v. dv (dec_of_string s) = of_int low + of_int (?ms v) / 1000) (map wr expected) expected"
    unfolding list_all2_map1
  proof (rule list_all2I)
    show "\<forall>x \<in> set (zip expected expected). case x of (u, v) \<Rightarrow> dv (dec_of_string (wr u)) = of_int low + of_int (?ms v) / 1000"
      using dec_string_value [OF ok] im(1) lh by (auto simp: zip_same)
  qed simp
  with sheet show thesis by (rule that)
qed

lemma rounded_sheet_fair:
  assumes "mark_bounds low high = Inr ()" "expected \<noteq> []"
  shows "fair_sheet expected low high (map (rounded_mark low high expected) expected)"
proof -
  have lh: "low \<le> high" using assms(1) by (simp add: mark_bounds_def split: if_splits)
  have mono: "rounded_mark low high expected v \<le> rounded_mark low high expected w" if "w \<le> v" for v w
  proof -
    have "half_even (of_int (Max (set expected) - v) / 1000) \<le> half_even (of_int (Max (set expected) - w) / 1000)"
      using that by (intro half_even_mono) (simp add: divide_right_mono)
    then show ?thesis by (auto simp: rounded_mark_def)
  qed
  have slow: "rounded_mark low high expected (Max (set expected)) = low"
    using lh by (simp add: rounded_mark_def)
  have "Max (set expected) \<in> set expected" using assms(2) by simp
  then have "low \<in> rounded_mark low high expected ` set expected" using slow by (metis image_eqI)
  moreover have "low \<le> rounded_mark low high expected v" if "v \<in> set expected" for v
    using mono [of v "Max (set expected)"] slow that by simp
  ultimately show ?thesis using mono by (auto simp: fair_sheet_def rounded_mark_def)
qed

end
