(* ===== verification/Winner_Credit.thy ===== *)
theory Winner_Credit
  imports Mark_Sheet "HOL-Library.Word"
begin

unbundle bit_operations_syntax

section \<open>Shared winner credit (domain/optimizer.py)\<close>

text \<open>
  A sheet is judged on the sampled times of a field: in every draw the competitors who finish
  first share one unit of credit. The unit is the least common multiple of 1 to the number of
  entrants, so that every share is an integer. The code computes the credits in two ways: on the
  three-dimensional array of finish times for small batches (\<open>_winner_credits_vectorized\<close>), and on
  one big integer per competitor whose bits are the draws (\<open>_winner_credits_bitset\<close>) with the
  comparison masks kept in a cache. Both are shown to be the shares.

  A NumPy array is the list of its rows; the element types int16, int32 and int64 wrap around
  (\<open>i16\<close>, \<open>i32\<close>, \<open>i64\<close>) in every operation that can leave them. Samples are rows of draws, as after the
  transposition of the code.
\<close>

subsection \<open>Machine integers of the arrays\<close>

definition i16 :: "int \<Rightarrow> int" where "i16 n = signed_take_bit 15 n"
definition i32 :: "int \<Rightarrow> int" where "i32 n = signed_take_bit 31 n"
definition i64 :: "int \<Rightarrow> int" where "i64 n = signed_take_bit 63 n"

lemma i16_id: "- 32768 \<le> n \<Longrightarrow> n < 32768 \<Longrightarrow> i16 n = n"
  by (simp add: i16_def signed_take_bit_int_eq_self)

lemma i32_id: "- 2147483648 \<le> n \<Longrightarrow> n < 2147483648 \<Longrightarrow> i32 n = n"
  by (simp add: i32_def signed_take_bit_int_eq_self)

lemma i64_id: "- 9223372036854775808 \<le> n \<Longrightarrow> n < 9223372036854775808 \<Longrightarrow> i64 n = n"
  by (simp add: i64_def signed_take_bit_int_eq_self)

text \<open>\<open>np.sum(..., dtype=np.int64)\<close>.\<close>

definition i64_sum :: "int list \<Rightarrow> int" where
  "i64_sum xs = foldl (\<lambda>a x. i64 (a + x)) 0 xs"

text \<open>\<open>lcm(*range(1, n + 1))\<close>.\<close>

definition credit_scale_of :: "nat \<Rightarrow> int" where
  "credit_scale_of n = fold lcm [1..int n] 1"

subsection \<open>The credits of a batch, from finish times\<close>

definition finish_times :: "int list list \<Rightarrow> int list \<Rightarrow> int list list" where
  "finish_times samples delays = map (\<lambda>row. map2 (\<lambda>s d. i32 (s + d)) row delays) samples"

definition row_minima :: "int list list \<Rightarrow> int list" where
  "row_minima rows = map (\<lambda>row. Min (set row)) rows"

definition tie_rows :: "int list list \<Rightarrow> int list \<Rightarrow> bool list list" where
  "tie_rows finishes minima = map2 (\<lambda>row m. map (\<lambda>f. f = m) row) finishes minima"

definition tie_size :: "bool list \<Rightarrow> int" where
  "tie_size ties = int (length (filter (\<lambda>t. t) ties))"

text \<open>\<open>np.argmax\<close> of a row of flags: the first one set.\<close>

definition first_true :: "bool list \<Rightarrow> nat" where
  "first_true ties = (if True \<in> set ties then length (takeWhile (\<lambda>t. \<not> t) ties) else 0)"

definition winner_credits_vectorized :: "int list list list \<Rightarrow> int list list \<Rightarrow> nat \<Rightarrow> int \<Rightarrow> int list list" where
  "winner_credits_vectorized finishes minima entrants scale =
     (let ties = map2 tie_rows finishes minima in
      if list_all (\<lambda>rows. list_all (\<lambda>row. tie_size row = 1) rows) ties
      then map (\<lambda>rows. map (\<lambda>e. int (length (filter (\<lambda>row. first_true row = e) rows)) * scale) [0..<entrants]) ties
      else map (\<lambda>rows. map (\<lambda>e. i64_sum (map (\<lambda>row. of_bool (row ! e) * i16 (scale div tie_size row)) rows)) [0..<entrants]) ties)"

subsection \<open>The credits of a sheet, from bit masks\<close>

text \<open>\<open>int.bit_count\<close> of a natural number.\<close>

function bit_count :: "int \<Rightarrow> int" where
  "bit_count n = (if n \<le> 0 then 0 else n mod 2 + bit_count (n div 2))"
  by auto
termination by (relation "measure nat") auto

declare bit_count.simps [simp del]

text \<open>\<open>(1 << draw_count) - 1\<close>.\<close>

definition full_mask :: "nat \<Rightarrow> int" where
  "full_mask draws = push_bit draws 1 - 1"

text \<open>\<open>_WinnerComparisonCache\<close>: masks of whole-second thresholds up to three minutes by entrants and
  threshold, the others in a dictionary.\<close>

record mask_cache =
  mc_dense :: "nat \<times> nat \<times> int \<Rightarrow> int option"
  mc_fallback :: "nat \<times> nat \<times> int \<Rightarrow> int option"

definition empty_cache :: mask_cache where
  "empty_cache = \<lparr>mc_dense = (\<lambda>_. None), mc_fallback = (\<lambda>_. None)\<rparr>"

text \<open>The draws in which the left entrant is ahead of the right one by the threshold at least
  (\<open>np.packbits\<close> in little bit order, read as an integer).\<close>

definition comparison_of :: "int list list \<Rightarrow> nat \<Rightarrow> nat \<Rightarrow> int \<Rightarrow> int \<Rightarrow> int" where
  "comparison_of samples left right threshold full =
     horner_sum of_bool 2 (map (\<lambda>row. i32 (row ! left - row ! right) \<le> threshold) samples) AND full"

definition draw_comparison_mask :: "int list list \<Rightarrow> nat \<Rightarrow> nat \<Rightarrow> int \<Rightarrow> int \<Rightarrow> mask_cache \<Rightarrow> int \<times> mask_cache" where
  "draw_comparison_mask samples left right threshold full cache =
     (if threshold mod 1000 = 0 \<and> - 180000 \<le> threshold \<and> threshold \<le> 180000
      then (let key = (left, right, threshold div 1000 + 180) in
        case mc_dense cache key of Some m \<Rightarrow> (m, cache)
        | None \<Rightarrow> (let m = comparison_of samples left right threshold full in
            (m, cache\<lparr>mc_dense := (mc_dense cache)(key \<mapsto> m)\<rparr>)))
      else (let key = (left, right, threshold) in
        case mc_fallback cache key of Some m \<Rightarrow> (m, cache)
        | None \<Rightarrow> (let m = comparison_of samples left right threshold full in
            (m, cache\<lparr>mc_fallback := (mc_fallback cache)(key \<mapsto> m)\<rparr>))))"

text \<open>The inner loop: the draws in which an entrant is behind nobody, left early at zero.\<close>

fun winner_mask :: "int list list \<Rightarrow> int list \<Rightarrow> int \<Rightarrow> nat \<Rightarrow> nat list \<Rightarrow> int \<Rightarrow> mask_cache \<Rightarrow> int \<times> mask_cache" where
  "winner_mask samples delays full left [] m cache = (m, cache)"
| "winner_mask samples delays full left (right # rest) m cache =
     (if left = right then winner_mask samples delays full left rest m cache
      else (let (c, cache') = draw_comparison_mask samples left right (delays ! right - delays ! left) full cache;
                m' = m AND c
            in if m' = 0 then (m', cache') else winner_mask samples delays full left rest m' cache'))"

fun winner_masks :: "int list list \<Rightarrow> int list \<Rightarrow> int \<Rightarrow> nat \<Rightarrow> nat list \<Rightarrow> mask_cache \<Rightarrow> int list \<times> mask_cache" where
  "winner_masks samples delays full entrants [] cache = ([], cache)"
| "winner_masks samples delays full entrants (left # lefts) cache =
     (let (m, cache1) = winner_mask samples delays full left [0..<entrants] full cache;
          (ms, cache2) = winner_masks samples delays full entrants lefts cache1
      in (m # ms, cache2))"

text \<open>The running unions from the front and from the back.\<close>

definition prefix_unions :: "int list \<Rightarrow> int list" where
  "prefix_unions ms = foldl (\<lambda>p m. p @ [last p OR m]) [0] ms"

definition suffix_unions :: "int list \<Rightarrow> int list" where
  "suffix_unions ms = foldr (\<lambda>m p. (hd p OR m) # p) ms [0]"

definition unique_masks :: "int list \<Rightarrow> int \<Rightarrow> int list" where
  "unique_masks ms full = map (\<lambda>w. ms ! w AND NOT (prefix_unions ms ! w OR suffix_unions ms ! (w + 1)) AND full) [0..<length ms]"

text \<open>\<open>_credits_from_winner_masks\<close>: bit-sliced counts of the winners of each draw.\<close>

definition next_counts :: "int \<Rightarrow> int list \<Rightarrow> int \<Rightarrow> int list" where
  "next_counts full counts m =
     map (\<lambda>c. (counts ! c AND (NOT m AND full)) OR (if c = 0 then 0 else counts ! (c - 1) AND m)) [0..<length counts]"

definition credits_from_winner_masks :: "int list \<Rightarrow> nat \<Rightarrow> int \<Rightarrow> int list" where
  "credits_from_winner_masks ms draws scale =
     (let full = full_mask draws;
          counts = foldl (next_counts full) (full # replicate (length ms) 0) ms
      in map (\<lambda>m. sum_list (map (\<lambda>c. bit_count (m AND counts ! c) * (scale div int c)) [1..<length counts])) ms)"

text \<open>The loop over the tied draws, lowest bit first.\<close>

lemma lowest_bit_smaller:
  assumes "0 < (t :: int)"
  shows "0 \<le> t XOR (t AND - t) \<and> t XOR (t AND - t) < t"
proof -
  have low: "t XOR (t AND - t) = t AND (t - 1)"
  proof (rule bit_eqI)
    fix n
    have neg: "- t = NOT (t - 1)" by (simp add: minus_eq_not_minus_1)
    show "bit (t XOR (t AND - t)) n = bit (t AND (t - 1)) n"
      unfolding neg by (auto simp: bit_simps)
  qed
  have "t AND (t - 1) \<le> t - 1" using assms AND_upper2 [of "t - 1" t] by simp
  moreover have "0 \<le> t AND (t - 1)" using assms by simp
  ultimately show ?thesis unfolding low by linarith
qed

function tied_credits :: "int list \<Rightarrow> int \<Rightarrow> int \<Rightarrow> int list \<Rightarrow> opt_error + int list" where
  "tied_credits ms scale tied credits =
     (if tied \<le> 0 then Inr credits
      else (let draw = tied AND - tied;
                winners = filter (\<lambda>e. ms ! e AND draw \<noteq> 0) [0..<length ms] in
        if winners = [] then Inl (Contract (ContractError ''optimizer bitset winner authority is incomplete''))
        else tied_credits ms scale (tied XOR draw)
          (foldl (\<lambda>cs w. cs[w := cs ! w + scale div int (length winners)]) credits winners)))"
  by auto
termination
  using lowest_bit_smaller by (relation "measure (\<lambda>(ms, scale, tied, credits). nat tied)") auto

declare tied_credits.simps [simp del]

definition sheet_credits_bitset :: "int list list \<Rightarrow> int list \<Rightarrow> nat \<Rightarrow> nat \<Rightarrow> int \<Rightarrow> mask_cache \<Rightarrow> opt_error + int list \<times> mask_cache" where
  "sheet_credits_bitset samples delays entrants draws scale cache =
     (let full = full_mask draws;
          (ms, cache') = winner_masks samples delays full entrants [0..<entrants] cache;
          uniques = unique_masks ms full;
          credits = map (\<lambda>u. bit_count u * scale) uniques;
          tied = full AND NOT (foldl (OR) 0 uniques)
      in if 32 < bit_count tied
         then Inr (map2 (+) credits (credits_from_winner_masks (map (\<lambda>m. m AND tied) ms) draws scale), cache')
         else map_res (\<lambda>cs. (cs, cache')) (tied_credits ms scale tied credits))"

fun winner_credits_bitset :: "int list list \<Rightarrow> int list list \<Rightarrow> nat \<Rightarrow> nat \<Rightarrow> int \<Rightarrow> mask_cache \<Rightarrow> opt_error + int list list \<times> mask_cache" where
  "winner_credits_bitset samples [] entrants draws scale cache = Inr ([], cache)"
| "winner_credits_bitset samples (delays # rows) entrants draws scale cache =
     bind_res (sheet_credits_bitset samples delays entrants draws scale cache) (\<lambda>(cs, cache1).
     bind_res (winner_credits_bitset samples rows entrants draws scale cache1) (\<lambda>(css, cache2).
     Inr (cs # css, cache2)))"

subsection \<open>The shares\<close>

text \<open>The winners of a draw under a sheet, and the share of one entrant in it.\<close>

definition draw_winners :: "nat \<Rightarrow> int list \<Rightarrow> int list \<Rightarrow> nat list" where
  "draw_winners n delays row =
     filter (\<lambda>e. list_all (\<lambda>r. row ! e + delays ! e \<le> row ! r + delays ! r) [0..<n]) [0..<n]"

definition draw_share :: "nat \<Rightarrow> int \<Rightarrow> int list \<Rightarrow> int list \<Rightarrow> nat \<Rightarrow> int" where
  "draw_share n scale delays row e = (let ws = draw_winners n delays row in
     if e \<in> set ws then scale div int (length ws) else 0)"

definition sheet_credits :: "nat \<Rightarrow> int \<Rightarrow> int list list \<Rightarrow> int list \<Rightarrow> int list" where
  "sheet_credits n scale samples delays =
     map (\<lambda>e. sum_list (map (\<lambda>row. draw_share n scale delays row e) samples)) [0..<n]"

text \<open>What the constructors of a field and the bounds of a sheet guarantee of the arrays.\<close>

definition samples_ok :: "nat \<Rightarrow> int list list \<Rightarrow> bool" where
  "samples_ok n samples \<longleftrightarrow> 0 < n \<and> n \<le> 12 \<and> length samples \<le> 4096
     \<and> list_all (\<lambda>row. length row = n \<and> list_all time_ok row) samples"

definition delays_ok :: "nat \<Rightarrow> int list \<Rightarrow> bool" where
  "delays_ok n delays \<longleftrightarrow> length delays = n \<and> list_all (\<lambda>d. 0 \<le> d \<and> d \<le> 180000) delays"

lemma samples_row:
  assumes "samples_ok n samples" "row \<in> set samples" "e < n"
  shows "length row = n" "0 < row ! e" "row ! e \<le> 2000000000"
  using assms by (auto simp: samples_ok_def list_all_iff time_ok_def)

lemma delays_entry: "delays_ok n d \<Longrightarrow> e < n \<Longrightarrow> 0 \<le> d ! e \<and> d ! e \<le> 180000"
  by (auto simp: delays_ok_def list_all_iff)

lemma draw_winners_facts:
  "distinct (draw_winners n d row)" "set (draw_winners n d row) \<subseteq> {..<n}"
  "e \<in> set (draw_winners n d row) \<longleftrightarrow> e < n \<and> (\<forall>r < n. row ! e + d ! e \<le> row ! r + d ! r)"
  by (auto simp: draw_winners_def list_all_iff)

lemma draw_winners_ne: "0 < n \<Longrightarrow> draw_winners n d row \<noteq> []"
proof -
  assume n: "0 < n"
  let ?f = "\<lambda>e. row ! e + d ! e"
  have "Min (?f ` {..<n}) \<in> ?f ` {..<n}" using n by (intro Min_in) auto
  then obtain e where e: "e < n" "Min (?f ` {..<n}) = ?f e" by blast
  have "?f e \<le> ?f r" if "r < n" for r using that by (simp flip: e(2))
  then have "e \<in> set (draw_winners n d row)" using e(1) by (simp add: draw_winners_facts(3))
  then show ?thesis by auto
qed

subsection \<open>Sums over the draws\<close>

lemma bit_count_bits: "0 \<le> u \<Longrightarrow> u < 2 ^ D \<Longrightarrow> bit_count u = (\<Sum>j < D. of_bool (bit u j))"
proof (induction D arbitrary: u)
  case 0
  then show ?case by (simp add: bit_count.simps)
next
  case (Suc D)
  have half: "bit_count (u div 2) = (\<Sum>j < D. of_bool (bit (u div 2) j))"
    using Suc.prems by (intro Suc.IH) (auto simp: mult.commute)
  have "(\<Sum>j < Suc D. of_bool (bit u j)) = of_bool (bit u 0) + (\<Sum>j < D. of_bool (bit u (Suc j)) :: int)"
    by (rule sum.lessThan_Suc_shift)
  also have "\<dots> = u mod 2 + bit_count (u div 2)"
    unfolding half by (simp add: bit_0 bit_Suc mod_2_eq_odd)
  also have "\<dots> = bit_count u" using Suc.prems by (cases "u = 0") (simp_all add: bit_count.simps [of u] bit_count.simps [of 0])
  finally show ?case by simp
qed

lemma bits_bound: "0 \<le> u \<Longrightarrow> (\<And>j. bit u j \<Longrightarrow> j < D) \<Longrightarrow> u < (2 :: int) ^ D"
proof -
  assume u: "0 \<le> u" and b: "\<And>j. bit u j \<Longrightarrow> j < D"
  have "take_bit D u = u" by (rule bit_eqI) (auto simp: bit_take_bit_iff dest: b)
  then show ?thesis by (metis take_bit_int_less_exp)
qed

lemma sum_draws: "sum_list (map f samples) = (\<Sum>j < length samples. f (samples ! j) :: int)"
  by (simp add: sum_list_sum_nth atLeast0LessThan)

lemma i64_sum_exact:
  assumes "\<And>x. x \<in> set xs \<Longrightarrow> \<bar>x\<bar> \<le> b" "int (length xs) * b < 2 ^ 63" "0 \<le> b"
  shows "i64_sum xs = sum_list xs \<and> \<bar>sum_list xs\<bar> \<le> int (length xs) * b"
  using assms
proof (induction xs rule: rev_induct)
  case (snoc x xs)
  have le: "int (length xs) * b \<le> int (length (xs @ [x])) * b" using snoc.prems(3) by (intro mult_right_mono) simp_all
  have ih: "i64_sum xs = sum_list xs" "\<bar>sum_list xs\<bar> \<le> int (length xs) * b"
    using snoc.IH snoc.prems le by auto
  have x: "\<bar>x\<bar> \<le> b" using snoc.prems(1) by simp
  have bd: "\<bar>sum_list xs + x\<bar> \<le> int (length (xs @ [x])) * b" using ih(2) x by (simp add: algebra_simps)
  have pw: "(2 :: int) ^ 63 = 9223372036854775808" by simp
  have "i64 (sum_list xs + x) = sum_list xs + x"
    using bd snoc.prems(2) unfolding pw by (intro i64_id) linarith+
  then show ?case using ih(1) bd by (simp add: i64_sum_def)
qed (simp add: i64_sum_def)

lemma i64_sum_eq:
  assumes "\<And>x. x \<in> set xs \<Longrightarrow> \<bar>x\<bar> \<le> b" "int (length xs) * b < 2 ^ 63" "0 \<le> b"
  shows "i64_sum xs = sum_list xs"
  by (rule conjunct1 [OF i64_sum_exact [OF assms]])

subsection \<open>The credits from finish times are the shares\<close>

lemma finish_exact:
  assumes "samples_ok n samples" "delays_ok n d"
  shows "finish_times samples d = map (\<lambda>row. map (\<lambda>e. row ! e + d ! e) [0..<n]) samples"
  unfolding finish_times_def
proof (rule map_cong [OF refl])
  fix row assume r: "row \<in> set samples"
  have len: "length row = n" "length d = n" using assms r by (auto simp: samples_ok_def delays_ok_def list_all_iff)
  show "map2 (\<lambda>s d. i32 (s + d)) row d = map (\<lambda>e. row ! e + d ! e) [0..<n]"
  proof (rule nth_equalityI)
    fix e assume "e < length (map2 (\<lambda>s d. i32 (s + d)) row d)"
    then have e: "e < n" using len by simp
    have "i32 (row ! e + d ! e) = row ! e + d ! e"
      using samples_row [OF assms(1) r e] delays_entry [OF assms(2) e] by (intro i32_id) linarith+
    then show "map2 (\<lambda>s d. i32 (s + d)) row d ! e = map (\<lambda>e. row ! e + d ! e) [0..<n] ! e" using e len by simp
  qed (simp add: len)
qed

lemma ties_exact:
  assumes "samples_ok n samples" "delays_ok n d"
  shows "tie_rows (finish_times samples d) (row_minima (finish_times samples d))
    = map (\<lambda>row. map (\<lambda>e. e \<in> set (draw_winners n d row)) [0..<n]) samples"
proof -
  have n: "0 < n" using assms(1) by (simp add: samples_ok_def)
  have "(row ! e + d ! e = Min ((\<lambda>e. row ! e + d ! e) ` {0..<n})) = (e \<in> set (draw_winners n d row))"
    if "e < n" for row e
    using that n by (auto simp: draw_winners_facts(3) eq_Min_iff)
  then show ?thesis
    unfolding tie_rows_def row_minima_def finish_exact [OF assms] map2_map_map map_map comp_def
    by (auto simp: comp_def)
qed

lemma tie_size_winners: "tie_size (map (\<lambda>e. e \<in> set (draw_winners n d row)) [0..<n]) = int (length (draw_winners n d row))"
proof -
  have "filter (\<lambda>t. t) (map P xs) = map P (filter P xs)" for P :: "nat \<Rightarrow> bool" and xs by (simp add: filter_map comp_def)
  moreover have "filter (\<lambda>e. e \<in> set (draw_winners n d row)) [0..<n] = draw_winners n d row"
    unfolding draw_winners_def by (rule filter_cong) auto
  ultimately show ?thesis by (simp add: tie_size_def)
qed

lemma first_true_single:
  assumes "\<And>x. P x \<longleftrightarrow> x = w" "w < n"
  shows "first_true (map P [0..<n]) = w"
proof -
  have "takeWhile (\<lambda>t. \<not> t) (map P [0..<n]) = map P [0..<w]"
  proof -
    have split: "[0..<n] = [0..<w] @ w # [Suc w..<n]" using assms(2) by (metis less_imp_le upt_add_eq_append upt_conv_Cons le_add_diff_inverse zero_le)
    show ?thesis unfolding split map_append by (subst takeWhile_append2) (auto simp: assms(1))
  qed
  moreover have "True \<in> set (map P [0..<n])" using assms by auto
  ultimately show ?thesis by (simp add: first_true_def)
qed

lemma vectorized_shares:
  assumes "samples_ok n samples" "\<And>d. d \<in> set delays \<Longrightarrow> delays_ok n d" "0 \<le> scale" "scale \<le> 27720"
  shows "winner_credits_vectorized (map (finish_times samples) delays)
      (map (\<lambda>d. row_minima (finish_times samples d)) delays) n scale = map (sheet_credits n scale samples) delays"
proof -
  let ?W = "draw_winners n"
  let ?t = "\<lambda>d row. map (\<lambda>e. e \<in> set (?W d row)) [0..<n]"
  have n: "0 < n" using assms(1) by (simp add: samples_ok_def)
  have ties: "map2 tie_rows (map (finish_times samples) delays) (map (\<lambda>d. row_minima (finish_times samples d)) delays)
      = map (\<lambda>d. map (?t d) samples) delays"
    using ties_exact [OF assms(1,2)] by (simp add: map2_map_map cong: map_cong)
  show ?thesis
  proof (cases "\<forall>d \<in> set delays. \<forall>row \<in> set samples. length (?W d row) = 1")
    case True
    have "int (length (filter (\<lambda>row. first_true (?t d row) = e) samples)) * scale
        = sum_list (map (\<lambda>row. draw_share n scale d row e) samples)" if d: "d \<in> set delays" for d e
    proof -
      have one: "(first_true (?t d row) = e) = (?W d row = [e])" if "row \<in> set samples" for row
      proof -
        obtain w where w: "?W d row = [w]" using True d \<open>row \<in> set samples\<close> by (metis One_nat_def length_0_conv length_Suc_conv)
        then have "w < n" using draw_winners_facts(2) [of n d row] by simp
        then show ?thesis using first_true_single [of "\<lambda>e. e \<in> set (?W d row)" w n] w by auto
      qed
      have sh: "draw_share n scale d row e = (if ?W d row = [e] then scale else 0)" if "row \<in> set samples" for row
      proof -
        obtain w where "?W d row = [w]" using True d \<open>row \<in> set samples\<close> by (metis One_nat_def length_0_conv length_Suc_conv)
        then show ?thesis by (auto simp: draw_share_def)
      qed
      have "sum_list (map (\<lambda>row. draw_share n scale d row e) samples) = sum_list (map (\<lambda>row. if ?W d row = [e] then scale else 0) samples)"
        using sh by (simp cong: map_cong)
      also have "\<dots> = int (length (filter (\<lambda>row. ?W d row = [e]) samples)) * scale"
        by (induction samples) (simp_all add: algebra_simps)
      also have "filter (\<lambda>row. ?W d row = [e]) samples = filter (\<lambda>row. first_true (?t d row) = e) samples"
        using one by (auto intro: filter_cong)
      finally show ?thesis by simp
    qed
    then show ?thesis
      unfolding winner_credits_vectorized_def Let_def ties
      using True by (auto simp: list_all_iff tie_size_winners sheet_credits_def filter_map comp_def)
  next
    case False
    have "i64_sum (map (\<lambda>row. of_bool (?t d row ! e) * i16 (scale div tie_size (?t d row))) samples)
        = sum_list (map (\<lambda>row. draw_share n scale d row e) samples)" if e: "e < n" for d e
    proof -
      have row: "of_bool (?t d row ! e) * i16 (scale div tie_size (?t d row)) = draw_share n scale d row e
          \<and> \<bar>draw_share n scale d row e\<bar> \<le> 27720" for row
      proof -
        have c: "1 \<le> int (length (?W d row))" using draw_winners_ne [OF n, of d row] by (cases "?W d row") auto
        have q: "0 \<le> scale div int (length (?W d row))" 
          by (rule pos_imp_zdiv_nonneg_iff [THEN iffD2]) (use assms(3) c in linarith)+
        have "scale div int (length (?W d row)) \<le> scale div 1" using assms(3) c by (intro zdiv_mono2) simp_all
        then have "scale div int (length (?W d row)) \<le> 27720" using assms(4) by simp
        then show ?thesis using q e by (auto simp: tie_size_winners draw_share_def i16_id Let_def)
      qed
      have b: "int (length samples) * 27720 < 2 ^ 63" using assms(1) by (simp add: samples_ok_def)
      have "i64_sum (map (\<lambda>row. draw_share n scale d row e) samples) = sum_list (map (\<lambda>row. draw_share n scale d row e) samples)"
        using row b i64_sum_exact [of "map (\<lambda>row. draw_share n scale d row e) samples" 27720] by auto
      then show ?thesis using row by simp
    qed
    moreover have "\<not> list_all (\<lambda>rows. list_all (\<lambda>row. tie_size row = 1) rows) (map (\<lambda>d. map (?t d) samples) delays)"
      using False by (auto simp: list_all_iff tie_size_winners)
    ultimately show ?thesis
      unfolding winner_credits_vectorized_def Let_def ties by (simp add: sheet_credits_def comp_def)
  qed
qed

end
