(* ===== verification/Winner_Bits.thy ===== *)
theory Winner_Bits
  imports Winner_Credit
begin

unbundle bit_operations_syntax

section \<open>The bit masks carry the shares\<close>

text \<open>
  The proof that \<open>_winner_credits_bitset\<close> computes the shares of \<open>Winner_Credit\<close> whatever valid entries
  its cache holds, and that it keeps the cache valid.
\<close>

subsection \<open>The cache\<close>

definition cache_ok :: "int list list \<Rightarrow> int \<Rightarrow> mask_cache \<Rightarrow> bool" where
  "cache_ok samples full cache \<longleftrightarrow>
     (\<forall>l r i m. mc_dense cache (l, r, i) = Some m \<longrightarrow> m = comparison_of samples l r ((i - 180) * 1000) full)
     \<and> (\<forall>l r t m. mc_fallback cache (l, r, t) = Some m \<longrightarrow> m = comparison_of samples l r t full)"

lemma cache_ok_empty: "cache_ok samples full empty_cache"
  by (simp add: cache_ok_def empty_cache_def)

lemma cache_okD:
  assumes "cache_ok samples full cache"
  shows "mc_dense cache (l, r, i) = Some m \<Longrightarrow> m = comparison_of samples l r ((i - 180) * 1000) full"
    "mc_fallback cache (l, r, t) = Some m \<Longrightarrow> m = comparison_of samples l r t full"
  using assms by (simp_all add: cache_ok_def)

lemma cache_ok_upd:
  assumes "cache_ok samples full cache"
  shows "cache_ok samples full (cache\<lparr>mc_dense := (mc_dense cache)((l, r, i) \<mapsto> comparison_of samples l r ((i - 180) * 1000) full)\<rparr>)"
    "cache_ok samples full (cache\<lparr>mc_fallback := (mc_fallback cache)((l, r, t) \<mapsto> comparison_of samples l r t full)\<rparr>)"
  using assms by (auto simp: cache_ok_def)

lemma draw_comparison_mask_ok:
  assumes "cache_ok samples full cache" "draw_comparison_mask samples l r t full cache = (m, cache')"
  shows "m = comparison_of samples l r t full \<and> cache_ok samples full cache'"
proof (cases "t mod 1000 = 0 \<and> - 180000 \<le> t \<and> t \<le> 180000")
  case True
  let ?i = "t div 1000 + 180"
  have "t div 1000 * 1000 + t mod 1000 = t" by (rule div_mult_mod_eq)
  moreover have "t mod 1000 = 0" using True by blast
  ultimately have t: "(?i - 180) * 1000 = t" by (simp only: add_diff_cancel_right' add_0_right)
  show ?thesis
  proof (cases "mc_dense cache (l, r, ?i)")
    case None
    then have "m = comparison_of samples l r t full"
      "cache' = cache\<lparr>mc_dense := (mc_dense cache)((l, r, ?i) \<mapsto> comparison_of samples l r ((?i - 180) * 1000) full)\<rparr>"
      using assms(2) True unfolding t by (auto simp add: draw_comparison_mask_def Let_def)
    then show ?thesis by (simp only: cache_ok_upd(1) [OF assms(1)] simp_thms)
  next
    case (Some c)
    then have "m = c" "cache' = cache" using assms(2) True by (simp_all add: draw_comparison_mask_def Let_def)
    then show ?thesis using cache_okD(1) [OF assms(1) Some] assms(1) unfolding t by simp
  qed
next
  case False
  then have d: "draw_comparison_mask samples l r t full cache = (case mc_fallback cache (l, r, t) of Some m \<Rightarrow> (m, cache)
      | None \<Rightarrow> (comparison_of samples l r t full,
          cache\<lparr>mc_fallback := (mc_fallback cache)((l, r, t) \<mapsto> comparison_of samples l r t full)\<rparr>))"
    unfolding draw_comparison_mask_def Let_def by (simp only: if_False)
  show ?thesis
    using assms cache_ok_upd(2) [OF assms(1)] cache_okD(2) [OF assms(1)] unfolding d
    by (cases "mc_fallback cache (l, r, t)") auto
qed

lemma winner_mask_ok:
  assumes "cache_ok samples full cache" "winner_mask samples d full left rs m cache = (w, cache')"
  shows "(\<forall>j. bit w j \<longleftrightarrow> bit m j \<and> (\<forall>r \<in> set rs. r \<noteq> left \<longrightarrow> bit (comparison_of samples left r (d ! r - d ! left) full) j))
    \<and> cache_ok samples full cache'"
  using assms
proof (induction rs arbitrary: m cache)
  case (Cons r rs)
  show ?case
  proof (cases "left = r")
    case True
    then show ?thesis using Cons by auto
  next
    case False
    obtain c cache1 where dc: "draw_comparison_mask samples left r (d ! r - d ! left) full cache = (c, cache1)"
      by (cases "draw_comparison_mask samples left r (d ! r - d ! left) full cache")
    note ok = draw_comparison_mask_ok [OF Cons.prems(1) dc]
    show ?thesis
    proof (cases "m AND c = 0")
      case True
      then have "w = 0" "cache' = cache1" using Cons.prems(2) False dc by auto
      moreover have "\<not> (bit m j \<and> bit c j)" for j using True by (metis bit_0_eq bit_and_iff bot_fun_def bot_bool_def)
      ultimately show ?thesis using ok False by auto
    next
      case nz: False
      then have "winner_mask samples d full left rs (m AND c) cache1 = (w, cache')"
        using Cons.prems(2) False dc by simp
      from Cons.IH [OF _ this] ok False show ?thesis by (auto simp: bit_and_iff)
    qed
  qed
qed auto

lemma winner_masks_ok:
  assumes "cache_ok samples full cache" "winner_masks samples d full n lefts cache = (ms, cache')"
  shows "length ms = length lefts
    \<and> (\<forall>i < length lefts. \<forall>j. bit (ms ! i) j \<longleftrightarrow> bit full j \<and> (\<forall>r < n. r \<noteq> lefts ! i \<longrightarrow>
          bit (comparison_of samples (lefts ! i) r (d ! r - d ! (lefts ! i)) full) j))
    \<and> cache_ok samples full cache'"
  using assms
proof (induction lefts arbitrary: cache ms cache')
  case (Cons left lefts)
  obtain m cache1 where wm: "winner_mask samples d full left [0..<n] full cache = (m, cache1)"
    by (cases "winner_mask samples d full left [0..<n] full cache")
  obtain rest cache2 where wr: "winner_masks samples d full n lefts cache1 = (rest, cache2)"
    by (cases "winner_masks samples d full n lefts cache1")
  have res: "ms = m # rest" "cache' = cache2" using Cons.prems(2) wm wr by auto
  note m = winner_mask_ok [OF Cons.prems(1) wm]
  note rest = Cons.IH [OF conjunct2 [OF m] wr]
  show ?case using m rest by (auto simp: res nth_Cons split: nat.splits)
qed auto

text \<open>Bit \<open>j\<close> of the mask of an entrant: the entrant is among the winners of draw \<open>j\<close>.\<close>

definition masks_of :: "int list list \<Rightarrow> int list \<Rightarrow> nat \<Rightarrow> int list \<Rightarrow> bool" where
  "masks_of samples d n ms \<longleftrightarrow> length ms = n
     \<and> (\<forall>e < n. 0 \<le> ms ! e \<and> (\<forall>j. bit (ms ! e) j \<longleftrightarrow> j < length samples \<and> e \<in> set (draw_winners n d (samples ! j))))"

lemma full_bits: "bit (full_mask D) j \<longleftrightarrow> j < D"
  by (simp add: full_mask_def push_bit_eq_mult bit_mask_iff flip: mask_eq_exp_minus_1)

lemma nonneg_of_bits: "(\<And>j. bit (u :: int) j \<Longrightarrow> j < D) \<Longrightarrow> 0 \<le> u"
proof (rule ccontr)
  assume b: "\<And>j. bit u j \<Longrightarrow> j < D" and "\<not> 0 \<le> u"
  then have neg: "u < 0" by simp
  have "take_bit D u = u" by (rule bit_eqI) (auto simp: bit_take_bit_iff dest: b)
  moreover have "0 \<le> take_bit D u" by simp
  ultimately show False using neg by linarith
qed

lemma comparison_bits:
  assumes "samples_ok n samples" "l < n" "r < n"
  shows "bit (comparison_of samples l r t (full_mask (length samples))) j
    \<longleftrightarrow> j < length samples \<and> samples ! j ! l - samples ! j ! r \<le> t"
proof -
  have "i32 (samples ! j ! l - samples ! j ! r) = samples ! j ! l - samples ! j ! r" if "j < length samples" for j
    using samples_row [OF assms(1) nth_mem [OF that] assms(2)] samples_row [OF assms(1) nth_mem [OF that] assms(3)]
    by (intro i32_id) linarith+
  then show ?thesis by (auto simp: comparison_of_def bit_and_iff full_bits bit_horner_sum_bit_iff)
qed

lemma winner_masks_winners:
  assumes "samples_ok n samples" "cache_ok samples (full_mask (length samples)) cache"
    "winner_masks samples d (full_mask (length samples)) n [0..<n] cache = (ms, cache')"
  shows "masks_of samples d n ms \<and> cache_ok samples (full_mask (length samples)) cache'"
proof -
  note ok = winner_masks_ok [OF assms(2,3)]
  have b: "bit (ms ! e) j \<longleftrightarrow> j < length samples \<and> e \<in> set (draw_winners n d (samples ! j))" if e: "e < n" for e j
  proof -
    have "bit (ms ! e) j \<longleftrightarrow> j < length samples \<and> (\<forall>r < n. r \<noteq> e \<longrightarrow> samples ! j ! e - samples ! j ! r \<le> d ! r - d ! e)"
      using ok e comparison_bits [OF assms(1) e] by (auto simp: full_bits)
    also have "\<dots> \<longleftrightarrow> j < length samples \<and> (\<forall>r < n. samples ! j ! e + d ! e \<le> samples ! j ! r + d ! r)"
      by (auto simp: algebra_simps)
    finally show ?thesis using e by (auto simp: draw_winners_facts(3))
  qed
  have "0 \<le> ms ! e" if "e < n" for e by (rule nonneg_of_bits [of _ "length samples"]) (simp add: b [OF that])
  with b ok show ?thesis by (auto simp: masks_of_def)
qed

subsection \<open>Unions and draws with one winner\<close>

lemma prefix_unions_bits:
  "length (prefix_unions ms) = Suc (length ms)
    \<and> (\<forall>w \<le> length ms. \<forall>j. bit (prefix_unions ms ! w) j \<longleftrightarrow> (\<exists>e < w. bit (ms ! e) j))"
proof (induction ms rule: rev_induct)
  case (snoc m ms)
  have p: "prefix_unions (ms @ [m]) = prefix_unions ms @ [last (prefix_unions ms) OR m]"
    by (simp add: prefix_unions_def)
  have ne: "prefix_unions ms \<noteq> []" using snoc by (metis length_0_conv nat.distinct(1))
  have l: "last (prefix_unions ms) = prefix_unions ms ! length ms" using snoc ne by (simp add: last_conv_nth)
  show ?case
    using snoc unfolding p l
    by (auto simp: nth_append bit_or_iff less_Suc_eq le_Suc_eq)
qed (simp add: prefix_unions_def)

lemma suffix_unions_bits:
  "length (suffix_unions ms) = Suc (length ms)
    \<and> (\<forall>w \<le> length ms. \<forall>j. bit (suffix_unions ms ! w) j \<longleftrightarrow> (\<exists>e. w \<le> e \<and> e < length ms \<and> bit (ms ! e) j))"
proof (induction ms)
  case (Cons m ms)
  have s: "suffix_unions (m # ms) = (hd (suffix_unions ms) OR m) # suffix_unions ms"
    by (simp add: suffix_unions_def)
  have h: "hd (suffix_unions ms) = suffix_unions ms ! 0" using Cons by (cases "suffix_unions ms") auto
  have "bit (suffix_unions (m # ms) ! w) j \<longleftrightarrow> (\<exists>e. w \<le> e \<and> e < length (m # ms) \<and> bit ((m # ms) ! e) j)"
    if "w \<le> length (m # ms)" for w j
  proof (cases w)
    case 0
    have "(\<exists>e. e < Suc (length ms) \<and> bit ((m # ms) ! e) j) \<longleftrightarrow> bit m j \<or> (\<exists>e < length ms. bit (ms ! e) j)"
      by (metis less_Suc_eq_0_disj nth_Cons_0 nth_Cons_Suc)
    then show ?thesis using Cons by (auto simp: s h 0 bit_or_iff)
  next
    case (Suc v)
    have "(\<exists>e. Suc v \<le> e \<and> e < Suc (length ms) \<and> bit ((m # ms) ! e) j) \<longleftrightarrow> (\<exists>e. v \<le> e \<and> e < length ms \<and> bit (ms ! e) j)"
      by (metis Suc_le_D Suc_le_mono Suc_less_eq nth_Cons_Suc)
    then show ?thesis using Cons that by (auto simp: s Suc)
  qed
  then show ?case using Cons by (simp add: s)
qed (simp add: suffix_unions_def)

lemma unique_bits:
  assumes "masks_of samples d n ms" "w < n"
  shows "bit (unique_masks ms (full_mask (length samples)) ! w) j
    \<longleftrightarrow> j < length samples \<and> draw_winners n d (samples ! j) = [w]"
proof -
  have len: "length ms = n" using assms by (simp add: masks_of_def)
  have b: "bit (ms ! e) j \<longleftrightarrow> j < length samples \<and> e \<in> set (draw_winners n d (samples ! j))" if "e < n" for e
    using assms(1) that by (simp add: masks_of_def)
  have "bit (unique_masks ms (full_mask (length samples)) ! w) j
      \<longleftrightarrow> bit (ms ! w) j \<and> \<not> (\<exists>e < n. e \<noteq> w \<and> bit (ms ! e) j) \<and> j < length samples"
  proof -
    have pre: "bit (prefix_unions ms ! w) j \<longleftrightarrow> (\<exists>e < w. bit (ms ! e) j)"
      using prefix_unions_bits [of ms] assms(2) len by simp
    have suf: "bit (suffix_unions ms ! (w + 1)) j \<longleftrightarrow> (\<exists>e. w < e \<and> e < n \<and> bit (ms ! e) j)"
      using suffix_unions_bits [of ms] assms(2) len by (simp add: Suc_le_eq)
    have eq: "(\<exists>e < w. bit (ms ! e) j) \<or> (\<exists>e. w < e \<and> e < n \<and> bit (ms ! e) j) \<longleftrightarrow> (\<exists>e < n. e \<noteq> w \<and> bit (ms ! e) j)"
      (is "?a \<or> ?b \<longleftrightarrow> ?c")
    proof
      assume "?a \<or> ?b"
      then show ?c using assms(2) less_trans by blast
    next
      assume ?c
      then obtain e where e: "e < n" "e \<noteq> w" "bit (ms ! e) j" by blast
      then have "e < w \<or> w < e" by linarith
      then show "?a \<or> ?b" using e by blast
    qed
    have "bit (unique_masks ms (full_mask (length samples)) ! w) j
        \<longleftrightarrow> bit (ms ! w) j \<and> \<not> (bit (prefix_unions ms ! w) j \<or> bit (suffix_unions ms ! (w + 1)) j) \<and> j < length samples"
      using assms(2) len by (simp add: unique_masks_def bit_and_iff bit_or_iff bit_not_iff full_bits)
    then show ?thesis unfolding pre suf eq .
  qed
  also have "\<dots> \<longleftrightarrow> j < length samples \<and> set (draw_winners n d (samples ! j)) = {w}"
    using b assms(2) draw_winners_facts(2) [of n d "samples ! j"] by auto
  also have "set (draw_winners n d (samples ! j)) = {w} \<longleftrightarrow> draw_winners n d (samples ! j) = [w]"
    using draw_winners_facts(1) [of n d "samples ! j"]
    by (cases "draw_winners n d (samples ! j)") (auto simp: subset_singleton_iff)
  finally show ?thesis .
qed

lemma foldl_or_bits: "bit (foldl (OR) a us) j \<longleftrightarrow> bit a j \<or> (\<exists>u \<in> set us. bit u j)"
  by (induction us arbitrary: a) (auto simp: bit_or_iff)

subsection \<open>The tied draws one by one\<close>

lemma odd_and_minus:
  assumes "odd (u :: int)"
  shows "u AND - u = 1"
proof -
  obtain v where v: "u = 2 * v + 1" using assms by (auto elim: oddE)
  define x where "x = NOT v"
  have m: "- u = 2 * x + 1" unfolding v x_def by (simp add: not_eq_complement)
  have bx: "bit x k \<longleftrightarrow> \<not> bit v k" for k by (simp add: x_def bit_not_iff)
  have "bit ((2 * v + 1) AND (2 * x + 1)) k = bit (1 :: int) k" for k
    unfolding bit_and_iff by (cases k) (simp_all add: bit_0 bit_Suc bx)
  then show ?thesis unfolding m unfolding v by (rule bit_eqI)
qed

lemma lowest_bit:
  assumes "0 < (t :: int)"
  obtains k where "bit t k" "t AND - t = 2 ^ k"
proof -
  have "\<exists>k u. t = push_bit k u \<and> odd u" using assms
  proof (induction "nat t" arbitrary: t rule: less_induct)
    case less
    show ?case
    proof (cases "odd t")
      case True
      then show ?thesis by (intro exI [of _ 0] exI [of _ t]) simp
    next
      case False
      then have "nat (t div 2) < nat t" "0 < t div 2" using less.prems by auto
      then obtain k u where "t div 2 = push_bit k u" "odd u" using less.hyps by blast
      moreover have "t = push_bit 1 (t div 2)" using False by (simp add: push_bit_eq_mult)
      ultimately show ?thesis by (intro exI [of _ "Suc k"] exI [of _ u]) (simp add: push_bit_push_bit)
    qed
  qed
  then obtain k u where t: "t = push_bit k u" and u: "odd u" by blast
  have "- t = push_bit k (- u)" by (simp add: t push_bit_eq_mult)
  then have "t AND - t = push_bit k (u AND - u)" unfolding t by (simp add: push_bit_and)
  then have "t AND - t = 2 ^ k" using odd_and_minus [OF u] by (simp add: push_bit_eq_mult)
  moreover have "bit t k" using u by (simp add: t bit_push_bit_iff bit_0)
  ultimately show thesis using that by blast
qed

lemma foldl_credit_nth:
  assumes "distinct ws" "\<forall>w \<in> set ws. w < length cs" "e < length cs"
  shows "length (foldl (\<lambda>cs w. cs[w := cs ! w + (s :: int)]) cs ws) = length cs
    \<and> foldl (\<lambda>cs w. cs[w := cs ! w + s]) cs ws ! e = cs ! e + (if e \<in> set ws then s else 0)"
  using assms by (induction ws arbitrary: cs) (auto simp: nth_list_update)

definition share_sum :: "nat \<Rightarrow> int \<Rightarrow> int list list \<Rightarrow> int list \<Rightarrow> int \<Rightarrow> nat \<Rightarrow> int" where
  "share_sum n scale samples d tied e =
     (\<Sum>j < length samples. of_bool (bit tied j) * draw_share n scale d (samples ! j) e)"

lemma exp_bits: "bit (2 ^ k :: int) j \<longleftrightarrow> j = k"
  by (auto simp: bit_exp_iff)

lemma share_sum_remove:
  assumes "k < length samples" "bit tied k" "\<And>j. bit tied' j \<longleftrightarrow> bit tied j \<and> j \<noteq> k"
  shows "share_sum n scale samples d tied e = draw_share n scale d (samples ! k) e + share_sum n scale samples d tied' e"
proof -
  have "share_sum n scale samples d tied e = of_bool (bit tied k) * draw_share n scale d (samples ! k) e
      + (\<Sum>j \<in> {..<length samples} - {k}. of_bool (bit tied j) * draw_share n scale d (samples ! j) e)"
    unfolding share_sum_def using assms(1) by (intro sum.remove) auto
  also have "(\<Sum>j \<in> {..<length samples} - {k}. of_bool (bit tied j) * draw_share n scale d (samples ! j) e)
      = (\<Sum>j \<in> {..<length samples} - {k}. of_bool (bit tied' j) * draw_share n scale d (samples ! j) e)"
    by (intro sum.cong) (auto simp: assms(3))
  also have "\<dots> = share_sum n scale samples d tied' e"
    unfolding share_sum_def using assms(1)
    by (subst (2) sum.remove [of _ k]) (auto simp: assms(3))
  finally show ?thesis by (simp add: assms(2))
qed

lemma tied_credits_shares:
  assumes "masks_of samples d n ms" "0 < n" "0 \<le> tied" "\<And>j. bit tied j \<Longrightarrow> j < length samples" "length credits = n"
  shows "tied_credits ms scale tied credits = Inr (map (\<lambda>e. credits ! e + share_sum n scale samples d tied e) [0..<n])"
  using assms
proof (induction ms scale tied credits rule: tied_credits.induct)
  case (1 ms scale tied credits)
  show ?case
  proof (cases "tied = 0")
    case True
    then show ?thesis using "1.prems"(5) by (simp add: tied_credits.simps [of ms scale 0] share_sum_def flip: "1.prems"(5)) (simp add: map_nth)
  next
    case False
    then have pos: "0 < tied" using "1.prems"(3) by simp
    obtain k where k: "bit tied k" "tied AND - tied = 2 ^ k" by (rule lowest_bit [OF pos])
    have kD: "k < length samples" by (rule "1.prems"(4) [OF k(1)])
    have len: "length ms = n" using "1.prems"(1) by (simp add: masks_of_def)
    let ?ws = "draw_winners n d (samples ! k)"
    let ?tied = "tied XOR 2 ^ k"
    let ?cs = "foldl (\<lambda>cs w. cs[w := cs ! w + scale div int (length ?ws)]) credits ?ws"
    have bk: "(m AND 2 ^ k \<noteq> 0) = bit m k" for m :: int
    proof -
      have "bit (m AND 2 ^ k) j \<longleftrightarrow> j = k \<and> bit m k" for j by (auto simp: bit_and_iff exp_bits)
      then show ?thesis by (metis bit_0_eq bit_eqI bot_bool_def bot_fun_def)
    qed
    have ws: "filter (\<lambda>e. ms ! e AND (tied AND - tied) \<noteq> 0) [0..<length ms] = ?ws"
    proof -
      have "filter (\<lambda>e. ms ! e AND (tied AND - tied) \<noteq> 0) [0..<length ms] = filter (\<lambda>e. e \<in> set ?ws) [0..<n]"
        unfolding k(2) bk using "1.prems"(1) kD len by (intro filter_cong) (auto simp: masks_of_def)
      also have "\<dots> = ?ws" unfolding draw_winners_def by (rule filter_cong) auto
      finally show ?thesis .
    qed
    have ne: "?ws \<noteq> []" by (rule draw_winners_ne [OF "1.prems"(2)])
    have bits: "bit ?tied j \<longleftrightarrow> bit tied j \<and> j \<noteq> k" for j using k(1) by (auto simp: bit_xor_iff exp_bits)
    have nn: "0 \<le> ?tied" using lowest_bit_smaller [OF pos] k(2) by simp
    have sub: "\<forall>w \<in> set ?ws. w < length credits" using draw_winners_facts(2) [of n d "samples ! k"] "1.prems"(5) by auto
    have lenc: "length ?cs = n" using "1.prems"(2,5) foldl_credit_nth [OF draw_winners_facts(1) sub, of 0] by simp
    have step: "tied_credits ms scale tied credits = tied_credits ms scale ?tied ?cs"
      using pos ne ws unfolding tied_credits.simps [of ms scale tied credits] Let_def by (simp add: k(2) flip: ws)
    have ih: "tied_credits ms scale ?tied ?cs = Inr (map (\<lambda>e. ?cs ! e + share_sum n scale samples d ?tied e) [0..<n])"
    proof (rule "1.IH" [of "tied AND - tied" ?ws, unfolded k(2)])
      show "\<not> tied \<le> 0" using pos by simp
      show "\<And>j. bit ?tied j \<Longrightarrow> j < length samples" using "1.prems"(4) bits by blast
    qed (use "1.prems" ws ne nn lenc k(2) in simp_all)
    have "?cs ! e + share_sum n scale samples d ?tied e = credits ! e + share_sum n scale samples d tied e" if "e < n" for e
    proof -
      have "?cs ! e = credits ! e + draw_share n scale d (samples ! k) e"
        using foldl_credit_nth [OF draw_winners_facts(1) sub, of e] that "1.prems"(5) by (simp add: draw_share_def Let_def)
      then show ?thesis using share_sum_remove [OF kD k(1) bits, of n scale d e] by simp
    qed
    then show ?thesis unfolding step ih by simp
  qed
qed

subsection \<open>The tied draws by bit-sliced counts\<close>

definition mask_count :: "int list \<Rightarrow> nat \<Rightarrow> nat" where
  "mask_count ms j = length (filter (\<lambda>m. bit m j) ms)"

lemma next_counts_bits:
  assumes "length counts = Suc N" "\<And>c j. c \<le> N \<Longrightarrow> bit (counts ! c) j \<longleftrightarrow> j < D \<and> mask_count p j = c"
  shows "length (next_counts (full_mask D) counts m) = Suc N
    \<and> (\<forall>c \<le> N. \<forall>j. bit (next_counts (full_mask D) counts m ! c) j \<longleftrightarrow> j < D \<and> mask_count (p @ [m]) j = c)"
proof -
  have "bit (next_counts (full_mask D) counts m ! c) j \<longleftrightarrow> j < D \<and> mask_count (p @ [m]) j = c" if c: "c \<le> N" for c j
  proof -
    have "bit (next_counts (full_mask D) counts m ! c) j \<longleftrightarrow>
        (j < D \<and> mask_count p j = c \<and> \<not> bit m j) \<or> (c \<noteq> 0 \<and> j < D \<and> mask_count p j = c - 1 \<and> bit m j)"
      using assms c by (auto simp: next_counts_def bit_or_iff bit_and_iff bit_not_iff full_bits simp del: upt_Suc)
    also have "\<dots> \<longleftrightarrow> j < D \<and> mask_count (p @ [m]) j = c" by (auto simp: mask_count_def)
    finally show ?thesis .
  qed
  then show ?thesis using assms(1) by (simp add: next_counts_def)
qed

lemma exact_counts_bits:
  assumes "length ms \<le> N"
  shows "length (foldl (next_counts (full_mask D)) (full_mask D # replicate N 0) ms) = Suc N
    \<and> (\<forall>c \<le> N. \<forall>j. bit (foldl (next_counts (full_mask D)) (full_mask D # replicate N 0) ms ! c) j
          \<longleftrightarrow> j < D \<and> mask_count ms j = c)"
  using assms
proof (induction ms rule: rev_induct)
  case Nil
  have "bit ((full_mask D # replicate N 0) ! c) j \<longleftrightarrow> j < D \<and> 0 = c" if "c \<le> N" for c j
    using that by (cases c) (auto simp: full_bits)
  then show ?case by (simp add: mask_count_def)
next
  case (snoc m ms)
  then have ih: "length (foldl (next_counts (full_mask D)) (full_mask D # replicate N 0) ms) = Suc N"
    "\<And>c j. c \<le> N \<Longrightarrow> bit (foldl (next_counts (full_mask D)) (full_mask D # replicate N 0) ms ! c) j \<longleftrightarrow> j < D \<and> mask_count ms j = c"
    by simp_all
  show ?case using next_counts_bits [OF ih, of m] by simp
qed

lemma credits_from_winner_masks_sum:
  assumes "e < length ms" "\<And>m. m \<in> set ms \<Longrightarrow> 0 \<le> m \<and> (\<forall>j. bit m j \<longrightarrow> j < D)"
  shows "credits_from_winner_masks ms D scale ! e
    = (\<Sum>j < D. of_bool (bit (ms ! e) j) * (scale div int (mask_count ms j)))"
proof -
  let ?N = "length ms" and ?m = "ms ! e"
  define counts where "counts = foldl (next_counts (full_mask D)) (full_mask D # replicate ?N 0) ms"
  have c: "length counts = Suc ?N" "\<And>c j. c \<le> ?N \<Longrightarrow> bit (counts ! c) j \<longleftrightarrow> j < D \<and> mask_count ms j = c"
    using exact_counts_bits [of ms ?N D] by (simp_all add: counts_def)
  have m: "0 \<le> ?m" "\<And>j. bit ?m j \<Longrightarrow> j < D" using assms(2) [of ?m] assms(1) by auto
  have bc: "bit_count (?m AND counts ! c) = (\<Sum>j < D. of_bool (bit ?m j \<and> mask_count ms j = c))" if "c \<le> ?N" for c
  proof -
    have "0 \<le> ?m AND counts ! c" using m(1) by simp
    moreover have "?m AND counts ! c < 2 ^ D" using calculation by (rule bits_bound) (auto simp: bit_and_iff dest: m(2))
    ultimately have "bit_count (?m AND counts ! c) = (\<Sum>j < D. of_bool (bit (?m AND counts ! c) j))" by (rule bit_count_bits)
    also have "\<dots> = (\<Sum>j < D. of_bool (bit ?m j \<and> mask_count ms j = c))"
      using that by (intro sum.cong) (auto simp: bit_and_iff c(2))
    finally show ?thesis .
  qed
  have "credits_from_winner_masks ms D scale ! e = sum_list (map (\<lambda>c. bit_count (?m AND counts ! c) * (scale div int c)) [1..<length counts])"
    using assms(1) by (simp add: credits_from_winner_masks_def Let_def counts_def)
  also have "\<dots> = (\<Sum>c \<in> {1..<Suc ?N}. bit_count (?m AND counts ! c) * (scale div int c))"
    unfolding c(1) by (simp only: interv_sum_list_conv_sum_set_nat set_upt)
  also have "\<dots> = (\<Sum>c \<in> {1..<Suc ?N}. \<Sum>j < D. of_bool (bit ?m j \<and> mask_count ms j = c) * (scale div int c))"
    using bc by (intro sum.cong) (auto simp: sum_distrib_right)
  also have "\<dots> = (\<Sum>j < D. \<Sum>c \<in> {1..<Suc ?N}. of_bool (bit ?m j \<and> mask_count ms j = c) * (scale div int c))"
    by (rule sum.swap)
  also have "\<dots> = (\<Sum>j < D. of_bool (bit ?m j) * (scale div int (mask_count ms j)))"
  proof (rule sum.cong [OF refl])
    fix j assume "j \<in> {..<D}"
    show "(\<Sum>c \<in> {1..<Suc ?N}. of_bool (bit ?m j \<and> mask_count ms j = c) * (scale div int c))
        = of_bool (bit ?m j) * (scale div int (mask_count ms j))"
    proof (cases "bit ?m j")
      case True
      then have "?m \<in> set (filter (\<lambda>m. bit m j) ms)" using assms(1) by simp
      then have "filter (\<lambda>m. bit m j) ms \<noteq> []" by (metis empty_iff list.set(1))
      then have "mask_count ms j \<noteq> 0" by (simp add: mask_count_def)
      moreover have "mask_count ms j \<le> ?N" by (simp add: mask_count_def)
      ultimately have mem: "mask_count ms j \<in> {1..<Suc ?N}" by simp
      have "(\<Sum>c \<in> {1..<Suc ?N}. of_bool (bit ?m j \<and> mask_count ms j = c) * (scale div int c))
          = (\<Sum>c \<in> {1..<Suc ?N}. if c = mask_count ms j then scale div int c else 0)"
        using True by (intro sum.cong) auto
      also have "\<dots> = scale div int (mask_count ms j)" by (subst sum.delta) (use mem in simp_all)
      finally show ?thesis using True by simp
    qed simp
  qed
  finally show ?thesis .
qed

lemma credits_from_masks_shares:
  assumes "masks_of samples d n ms" "e < n" "\<And>j. bit tied j \<Longrightarrow> j < length samples"
  shows "credits_from_winner_masks (map (\<lambda>m. m AND tied) ms) (length samples) scale ! e = share_sum n scale samples d tied e"
proof -
  have len: "length ms = n" and b: "\<And>e j. e < n \<Longrightarrow> bit (ms ! e) j \<longleftrightarrow> j < length samples \<and> e \<in> set (draw_winners n d (samples ! j))"
    and nn: "\<And>e. e < n \<Longrightarrow> 0 \<le> ms ! e"
    using assms(1) by (auto simp: masks_of_def)
  let ?ms = "map (\<lambda>m. m AND tied) ms"
  have cnt: "mask_count ?ms j = length (draw_winners n d (samples ! j))" if "bit tied j" for j
  proof -
    have "filter (\<lambda>m. bit m j) ?ms = map (\<lambda>m. m AND tied) (filter (\<lambda>m. bit m j) ms)"
      using that by (simp add: filter_map comp_def bit_and_iff)
    then have "mask_count ?ms j = length (filter (\<lambda>m. bit m j) ms)" by (simp add: mask_count_def)
    also have "\<dots> = length (filter (\<lambda>m. bit m j) (map (\<lambda>e. ms ! e) [0..<n]))" by (simp add: map_nth flip: len)
    also have "\<dots> = length (filter (\<lambda>e. bit (ms ! e) j) [0..<n])"
      by (simp add: filter_map comp_def)
    also have "filter (\<lambda>e. bit (ms ! e) j) [0..<n] = filter (\<lambda>e. e \<in> set (draw_winners n d (samples ! j))) [0..<n]"
      using b assms(3) [OF that] by (intro filter_cong) auto
    also have "\<dots> = draw_winners n d (samples ! j)" unfolding draw_winners_def by (rule filter_cong) auto
    finally show ?thesis .
  qed
  have "credits_from_winner_masks ?ms (length samples) scale ! e
      = (\<Sum>j < length samples. of_bool (bit (?ms ! e) j) * (scale div int (mask_count ?ms j)))"
    using assms(2,3) len nn by (intro credits_from_winner_masks_sum) (auto simp: in_set_conv_nth bit_and_iff)
  also have "\<dots> = share_sum n scale samples d tied e"
    unfolding share_sum_def using assms(2) len b cnt
    by (intro sum.cong) (auto simp: bit_and_iff draw_share_def Let_def)
  finally show ?thesis .
qed

subsection \<open>The credits of a sheet and of a batch\<close>

lemma sheet_credits_bitset_shares:
  assumes "samples_ok n samples" "cache_ok samples (full_mask (length samples)) cache"
  obtains cache' where
    "sheet_credits_bitset samples d n (length samples) scale cache = Inr (sheet_credits n scale samples d, cache')"
    "cache_ok samples (full_mask (length samples)) cache'"
proof -
  let ?D = "length samples" and ?W = "\<lambda>j. draw_winners n d (samples ! j)"
  let ?full = "full_mask ?D"
  have n: "0 < n" using assms(1) by (simp add: samples_ok_def)
  obtain ms cache' where wm: "winner_masks samples d ?full n [0..<n] cache = (ms, cache')"
    by (cases "winner_masks samples d ?full n [0..<n] cache")
  have ms: "masks_of samples d n ms" and ok: "cache_ok samples ?full cache'"
    using winner_masks_winners [OF assms wm] by simp_all
  have len: "length ms = n" using ms by (simp add: masks_of_def)
  define us where "us = unique_masks ms ?full"
  define tied where "tied = ?full AND NOT (foldl (OR) 0 us)"
  have lenu: "length us = n" by (simp add: us_def unique_masks_def len)
  have ub: "bit (us ! w) j \<longleftrightarrow> j < ?D \<and> ?W j = [w]" if "w < n" for w j
    unfolding us_def by (rule unique_bits [OF ms that])
  have tb: "bit tied j \<longleftrightarrow> j < ?D \<and> \<not> (\<exists>w < n. ?W j = [w])" for j
  proof -
    have "(\<exists>u \<in> set us. bit u j) \<longleftrightarrow> (\<exists>w < n. j < ?D \<and> ?W j = [w])"
    proof -
      have "(\<exists>u \<in> set us. bit u j) \<longleftrightarrow> (\<exists>w < n. bit (us ! w) j)" using lenu by (metis in_set_conv_nth)
      then show ?thesis using ub by auto
    qed
    then show ?thesis by (auto simp: tied_def bit_and_iff bit_not_iff foldl_or_bits full_bits)
  qed
  have tD: "\<And>j. bit tied j \<Longrightarrow> j < ?D" by (simp add: tb)
  have tn: "0 \<le> tied" by (rule nonneg_of_bits [OF tD])
  have share: "bit_count (us ! w) * scale + share_sum n scale samples d tied w
      = sum_list (map (\<lambda>row. draw_share n scale d row w) samples)" if w: "w < n" for w
  proof -
    have "0 \<le> us ! w" by (rule nonneg_of_bits [of _ ?D]) (simp add: ub [OF w])
    moreover have "us ! w < 2 ^ ?D" using calculation by (rule bits_bound) (simp add: ub [OF w])
    ultimately have "bit_count (us ! w) = (\<Sum>j < ?D. of_bool (bit (us ! w) j))" by (rule bit_count_bits)
    then have "bit_count (us ! w) * scale + share_sum n scale samples d tied w
        = (\<Sum>j < ?D. of_bool (bit (us ! w) j) * scale + of_bool (bit tied j) * draw_share n scale d (samples ! j) w)"
      by (simp add: share_sum_def sum_distrib_right sum.distrib)
    also have "\<dots> = (\<Sum>j < ?D. draw_share n scale d (samples ! j) w)"
    proof (rule sum.cong [OF refl])
      fix j assume "j \<in> {..<?D}"
      then have j: "j < ?D" by simp
      show "of_bool (bit (us ! w) j) * scale + of_bool (bit tied j) * draw_share n scale d (samples ! j) w = draw_share n scale d (samples ! j) w"
      proof (cases "\<exists>v < n. ?W j = [v]")
        case True
        then obtain v where "v < n" "?W j = [v]" by blast
        then show ?thesis using j w True by (auto simp: ub tb draw_share_def)
      next
        case False
        then show ?thesis using j w by (auto simp: ub tb)
      qed
    qed
    also have "\<dots> = sum_list (map (\<lambda>row. draw_share n scale d row w) samples)" by (simp add: sum_draws)
    finally show ?thesis .
  qed
  have base: "map (\<lambda>u. bit_count u * scale) us = map (\<lambda>w. bit_count (us ! w) * scale) [0..<n]"
    by (rule nth_equalityI) (simp_all add: lenu)
  have "sheet_credits_bitset samples d n ?D scale cache = Inr (sheet_credits n scale samples d, cache')"
  proof (cases "32 < bit_count tied")
    case True
    have cm: "credits_from_winner_masks (map (\<lambda>m. m AND tied) ms) ?D scale ! w = share_sum n scale samples d tied w" if "w < n" for w
      by (rule credits_from_masks_shares [OF ms that]) (rule tD)
    have "map2 (+) (map (\<lambda>u. bit_count u * scale) us) (credits_from_winner_masks (map (\<lambda>m. m AND tied) ms) ?D scale)
        = sheet_credits n scale samples d"
    proof (rule nth_equalityI)
      have l: "length (credits_from_winner_masks (map (\<lambda>m. m AND tied) ms) ?D scale) = n"
        by (simp add: credits_from_winner_masks_def Let_def len)
      show "length (map2 (+) (map (\<lambda>u. bit_count u * scale) us) (credits_from_winner_masks (map (\<lambda>m. m AND tied) ms) ?D scale))
          = length (sheet_credits n scale samples d)"
        by (simp add: l lenu sheet_credits_def)
      fix w assume "w < length (map2 (+) (map (\<lambda>u. bit_count u * scale) us) (credits_from_winner_masks (map (\<lambda>m. m AND tied) ms) ?D scale))"
      then have w: "w < n" by (simp add: l lenu)
      show "map2 (+) (map (\<lambda>u. bit_count u * scale) us) (credits_from_winner_masks (map (\<lambda>m. m AND tied) ms) ?D scale) ! w
          = sheet_credits n scale samples d ! w"
        using share [OF w] w cm [OF w] l lenu by (simp add: sheet_credits_def)
    qed
    then show ?thesis
      using True unfolding sheet_credits_bitset_def Let_def wm prod.case us_def [symmetric] tied_def [symmetric] by simp
  next
    case False
    have "tied_credits ms scale tied (map (\<lambda>u. bit_count u * scale) us) = Inr (sheet_credits n scale samples d)"
      using tied_credits_shares [OF ms n tn tD, of "map (\<lambda>u. bit_count u * scale) us" scale] lenu share
      by (simp add: sheet_credits_def)
    then show ?thesis
      using False unfolding sheet_credits_bitset_def Let_def wm prod.case us_def [symmetric] tied_def [symmetric] by simp
  qed
  then show thesis using ok by (rule that)
qed

lemma winner_credits_bitset_shares:
  assumes "samples_ok n samples" "cache_ok samples (full_mask (length samples)) cache"
  obtains cache' where
    "winner_credits_bitset samples delays n (length samples) scale cache = Inr (map (sheet_credits n scale samples) delays, cache')"
    "cache_ok samples (full_mask (length samples)) cache'"
  using assms(2)
proof (induction delays arbitrary: cache thesis)
  case (Cons d delays)
  obtain cache1 where 1: "sheet_credits_bitset samples d n (length samples) scale cache = Inr (sheet_credits n scale samples d, cache1)"
    "cache_ok samples (full_mask (length samples)) cache1"
    by (rule sheet_credits_bitset_shares [OF assms(1) Cons.prems(2)])
  obtain cache2 where 2: "winner_credits_bitset samples delays n (length samples) scale cache1 = Inr (map (sheet_credits n scale samples) delays, cache2)"
    "cache_ok samples (full_mask (length samples)) cache2"
    by (rule Cons.IH [OF _ 1(2)])
  show ?case by (rule Cons.prems(1) [OF _ 2(2)]) (simp add: 1(1) 2(1))
qed simp

end
