(* ===== verification/Sheet_Evaluation.thy ===== *)
theory Sheet_Evaluation
  imports Winner_Bits "HOL-Library.AList"
begin

section \<open>The objectives of a sheet (domain/optimizer.py)\<close>

text \<open>
  A sheet is compared by four integers: the squared error of its gaps against the ideal ones, the
  largest deviation of a win share from parity, the total spread of the finish times, and the
  distance from the baseline. \<open>_evaluate_candidates_impl\<close> computes them in batches of 96, small
  batches from finish times and large ones from bit masks, and above 2048 candidates in eight chunks
  by threads that share the mask cache. The model is the host without the native kernel, which the
  code loads on Windows only; the threads only write the cache, whose content does not matter
  (\<open>Winner_Bits\<close>), so the chunks are evaluated one after the other.
\<close>

type_synonym raw_objective = "int \<times> int \<times> int \<times> int"

subsection \<open>_compile_evaluation_context\<close>

record eval_context =
  ec_samples :: "int list list"
  ec_baseline :: "int list"
  ec_ideal_delays :: "int list"
  ec_ideal_square_sum :: int
  ec_entrants :: nat
  ec_credit_scale :: int
  ec_draws :: nat
  ec_parity_denominator :: int

text \<open>The arguments are what the code reads of the competitors: the expected times and the samples of
  each; the transposition turns the samples into rows of draws.\<close>

definition transpose_samples :: "int list list \<Rightarrow> int list list" where
  "transpose_samples columns = (case columns of [] \<Rightarrow> []
     | c # _ \<Rightarrow> map (\<lambda>j. map (\<lambda>col. col ! j) columns) [0..<length c])"

definition compile_evaluation_context :: "int list \<Rightarrow> int list list \<Rightarrow> int list \<Rightarrow> eval_context" where
  "compile_evaluation_context expected columns baseline =
     (let samples = transpose_samples columns;
          ideal = map (\<lambda>v. Max (set expected) - v) expected;
          n = length expected;
          scale = credit_scale_of n
      in \<lparr>ec_samples = samples, ec_baseline = baseline, ec_ideal_delays = ideal,
          ec_ideal_square_sum = sum_list (map (\<lambda>v. v * v) ideal), ec_entrants = n, ec_credit_scale = scale,
          ec_draws = length samples, ec_parity_denominator = scale * int (length samples) * int n\<rparr>)"

subsection \<open>One batch\<close>

text \<open>\<open>(mark_array - floor) * 1000\<close> in int32.\<close>

definition delays_of :: "int \<Rightarrow> int list \<Rightarrow> int list" where
  "delays_of low marks = map (\<lambda>m. i32 (i32 (m - low) * 1000)) marks"

text \<open>\<open>np.sum(np.max(finishes, axis=2) - minima, axis=1)\<close>.\<close>

definition spread_of_finishes :: "int list list \<Rightarrow> int" where
  "spread_of_finishes finishes = i64_sum (map (\<lambda>row. i32 (Max (set row) - Min (set row))) finishes)"

text \<open>\<open>_streamed_finish_extremes\<close>: running minima and maxima over the entrants.\<close>

definition streamed_spread :: "int list list \<Rightarrow> int list \<Rightarrow> int" where
  "streamed_spread samples delays =
     (let start = map (\<lambda>row. i32 (row ! 0 + delays ! 0)) samples;
          (lo, hi) = foldl (\<lambda>(lo, hi) e.
             let values = map (\<lambda>row. i32 (row ! e + delays ! e)) samples
             in (map2 min lo values, map2 max hi values)) (start, start) [1..<length delays]
      in i64_sum (map2 (\<lambda>h l. i32 (h - l)) hi lo))"

definition variable_gap :: "int list \<Rightarrow> int list \<Rightarrow> int" where
  "variable_gap ideal delays =
     i64_sum (map2 (\<lambda>d i. i64 (i64 (d * d) - i64 (i64 (2 * d) * i))) delays ideal)"

definition mark_movement :: "int list \<Rightarrow> int list \<Rightarrow> int" where
  "mark_movement baseline marks = i64_sum (map2 (\<lambda>m b. \<bar>i64 (m - b)\<bar>) marks baseline)"

definition parity_numerator :: "nat \<Rightarrow> int \<Rightarrow> nat \<Rightarrow> int list \<Rightarrow> int" where
  "parity_numerator n scale draws credits =
     Max (set (map (\<lambda>c. \<bar>i64 (i64 (c * int n) - scale * int draws)\<bar>) credits))"

definition evaluate_batch :: "eval_context \<Rightarrow> int \<Rightarrow> int list list \<Rightarrow> mask_cache \<Rightarrow>
    opt_error + (int list \<times> raw_objective) list \<times> mask_cache" where
  "evaluate_batch ctx low batch cache =
     (let samples = ec_samples ctx; n = ec_entrants ctx; scale = ec_credit_scale ctx;
          delays = map (delays_of low) batch;
          values = (\<lambda>(spreads, credits). map (\<lambda>(marks, d, s, cs).
            (marks, (ec_ideal_square_sum ctx + variable_gap (ec_ideal_delays ctx) d,
                     parity_numerator n scale (ec_draws ctx) cs, s, mark_movement (ec_baseline ctx) marks)))
            (zip batch (zip delays (zip spreads credits))))
      in if length batch < 32
         then (let finishes = map (finish_times samples) delays in
           Inr (values (map spread_of_finishes finishes,
             winner_credits_vectorized finishes (map row_minima finishes) n scale), cache))
         else bind_res (winner_credits_bitset samples delays n (ec_draws ctx) scale cache) (\<lambda>(credits, cache').
           Inr (values (map (streamed_spread samples) delays, credits), cache')))"

subsection \<open>All candidates\<close>

fun chunks :: "nat \<Rightarrow> 'a list \<Rightarrow> 'a list list" where
  "chunks k xs = (if k = 0 \<or> xs = [] then [] else take k xs # chunks k (drop k xs))"

declare chunks.simps [simp del]

fun evaluate_batches :: "eval_context \<Rightarrow> int \<Rightarrow> int list list list \<Rightarrow> mask_cache \<Rightarrow>
    opt_error + (int list \<times> raw_objective) list \<times> mask_cache" where
  "evaluate_batches ctx low [] cache = Inr ([], cache)"
| "evaluate_batches ctx low (b # bs) cache =
     bind_res (evaluate_batch ctx low b cache) (\<lambda>(r, cache1).
     bind_res (evaluate_batches ctx low bs cache1) (\<lambda>(rs, cache2). Inr (r @ rs, cache2)))"

text \<open>A dictionary is its items in insertion order; assigning an existing key keeps its place.\<close>

definition py_dict :: "('k \<times> 'v) list \<Rightarrow> ('k \<times> 'v) list" where
  "py_dict items = foldl (\<lambda>d (k, v). AList.update k v d) [] items"

definition evaluation_batch_size :: nat where "evaluation_batch_size = 96"

definition evaluate_serial :: "eval_context \<Rightarrow> int \<Rightarrow> int list list \<Rightarrow> mask_cache \<Rightarrow>
    opt_error + (int list \<times> raw_objective) list \<times> mask_cache" where
  "evaluate_serial ctx low candidates cache =
     map_res (\<lambda>(items, cache'). (py_dict items, cache'))
       (evaluate_batches ctx low (chunks evaluation_batch_size candidates) cache)"

fun evaluate_parts :: "eval_context \<Rightarrow> int \<Rightarrow> int list list list \<Rightarrow> mask_cache \<Rightarrow>
    opt_error + (int list \<times> raw_objective) list \<times> mask_cache" where
  "evaluate_parts ctx low [] cache = Inr ([], cache)"
| "evaluate_parts ctx low (p # ps) cache =
     bind_res (evaluate_serial ctx low p cache) (\<lambda>(r, cache1).
     bind_res (evaluate_parts ctx low ps cache1) (\<lambda>(rs, cache2). Inr (r @ rs, cache2)))"

definition evaluate_candidates :: "eval_context \<Rightarrow> int \<Rightarrow> bool \<Rightarrow> int list list \<Rightarrow> mask_cache \<Rightarrow>
    opt_error + (int list \<times> raw_objective) list \<times> mask_cache" where
  "evaluate_candidates ctx low threaded candidates cache =
     (if candidates = [] then Inr ([], cache)
      else if threaded \<and> 2048 < length candidates
      then map_res (\<lambda>(items, cache'). (py_dict items, cache'))
             (evaluate_parts ctx low (chunks ((length candidates + 7) div 8) candidates) cache)
      else evaluate_serial ctx low candidates cache)"

subsection \<open>The objectives, without arrays\<close>

definition sheet_delays :: "int \<Rightarrow> int list \<Rightarrow> int list" where
  "sheet_delays low marks = map (\<lambda>m. (m - low) * 1000) marks"

definition finish_spread :: "int list \<Rightarrow> int list \<Rightarrow> int" where
  "finish_spread delays row = (let f = map2 (+) row delays in Max (set f) - Min (set f))"

definition raw_objectives :: "eval_context \<Rightarrow> int \<Rightarrow> int list \<Rightarrow> raw_objective" where
  "raw_objectives ctx low marks =
     (let d = sheet_delays low marks; n = ec_entrants ctx; scale = ec_credit_scale ctx in
       (sum_list (map2 (\<lambda>d i. (d - i) * (d - i)) d (ec_ideal_delays ctx)),
        Max (set (map (\<lambda>c. \<bar>c * int n - scale * int (ec_draws ctx)\<bar>) (sheet_credits n scale (ec_samples ctx) d))),
        sum_list (map (finish_spread d) (ec_samples ctx)),
        sum_list (map2 (\<lambda>m b. \<bar>m - b\<bar>) marks (ec_baseline ctx))))"

subsection \<open>No operation leaves its type\<close>

definition context_ok :: "eval_context \<Rightarrow> bool" where
  "context_ok ctx \<longleftrightarrow> (let n = ec_entrants ctx in
     samples_ok n (ec_samples ctx) \<and> ec_draws ctx = length (ec_samples ctx) \<and> ec_credit_scale ctx = credit_scale_of n
     \<and> length (ec_ideal_delays ctx) = n \<and> list_all (\<lambda>i. 0 \<le> i \<and> i \<le> 2000000000) (ec_ideal_delays ctx)
     \<and> ec_ideal_square_sum ctx = sum_list (map (\<lambda>v. v * v) (ec_ideal_delays ctx))
     \<and> length (ec_baseline ctx) = n \<and> list_all (\<lambda>b. 3 \<le> b \<and> b \<le> 183) (ec_baseline ctx))"

definition marks_ok :: "nat \<Rightarrow> int list \<Rightarrow> bool" where
  "marks_ok n marks \<longleftrightarrow> length marks = n \<and> list_all (\<lambda>m. 3 \<le> m \<and> m \<le> 183) marks"

lemma credit_scale_range: "n \<le> 12 \<Longrightarrow> 0 < credit_scale_of n \<and> credit_scale_of n \<le> 27720"
proof -
  have all: "\<forall>n \<in> set [0..<13]. 0 < credit_scale_of n \<and> credit_scale_of n \<le> 27720" by code_simp
  assume "n \<le> 12"
  then have "n \<in> set [0..<13]" by simp
  then show ?thesis using all by blast
qed

lemma delays_exact:
  assumes "marks_ok n marks"
  shows "delays_of 3 marks = sheet_delays 3 marks" "delays_ok n (sheet_delays 3 marks)"
proof -
  show "delays_of 3 marks = sheet_delays 3 marks"
    unfolding delays_of_def sheet_delays_def
  proof (rule map_cong [OF refl])
    fix m assume "m \<in> set marks"
    then have "3 \<le> m" "m \<le> 183" using assms by (auto simp: marks_ok_def list_all_iff)
    then show "i32 (i32 (m - 3) * 1000) = (m - 3) * 1000" by (simp add: i32_id)
  qed
  show "delays_ok n (sheet_delays 3 marks)"
    using assms by (auto simp: delays_ok_def marks_ok_def sheet_delays_def list_all_iff)
qed

lemma sum_list_abs_bound:
  fixes xs :: "int list"
  shows "(\<And>x. x \<in> set xs \<Longrightarrow> 0 \<le> x \<and> x \<le> b) \<Longrightarrow> 0 \<le> sum_list xs \<and> sum_list xs \<le> int (length xs) * b"
  by (induction xs) (auto simp: algebra_simps add_mono)

lemma finish_row:
  assumes "samples_ok n samples" "delays_ok n d" "row \<in> set samples"
  shows "map (\<lambda>e. row ! e + d ! e) [0..<n] = map2 (+) row d"
    "\<And>f. f \<in> set (map2 (+) row d) \<Longrightarrow> 0 < f \<and> f \<le> 2000180000"
    "map2 (+) row d \<noteq> []"
proof -
  have len: "length row = n" "length d = n" "0 < n"
    using assms by (auto simp: samples_ok_def delays_ok_def list_all_iff)
  show eq: "map (\<lambda>e. row ! e + d ! e) [0..<n] = map2 (+) row d"
    by (rule nth_equalityI) (simp_all add: len)
  show "0 < f \<and> f \<le> 2000180000" if f: "f \<in> set (map2 (+) row d)" for f
  proof -
    obtain e where e: "e < n" "f = row ! e + d ! e" using f unfolding eq [symmetric] by auto
    show ?thesis using samples_row [OF assms(1,3) e(1)] delays_entry [OF assms(2) e(1)] e(2) by linarith
  qed
  show "map2 (+) row d \<noteq> []" using len by (auto simp: eq [symmetric])
qed

lemma finish_spread_range:
  assumes "samples_ok n samples" "delays_ok n d" "row \<in> set samples"
  shows "0 \<le> finish_spread d row \<and> finish_spread d row \<le> 2000180000"
proof -
  let ?f = "set (map2 (+) row d)"
  have ne: "?f \<noteq> {}" using finish_row(3) [OF assms] by simp
  have "Max ?f \<in> ?f" "Min ?f \<in> ?f" using ne by simp_all
  then have "Max ?f \<le> 2000180000" "0 < Min ?f" "Min ?f \<le> Max ?f" using finish_row(2) [OF assms] by auto
  then show ?thesis by (simp add: finish_spread_def Let_def)
qed

lemma spread_sum:
  assumes "samples_ok n samples" "delays_ok n d"
  shows "i64_sum (map (\<lambda>row. i32 (finish_spread d row)) samples) = sum_list (map (finish_spread d) samples)"
proof -
  have eq: "map (\<lambda>row. i32 (finish_spread d row)) samples = map (finish_spread d) samples"
    using finish_spread_range [OF assms] by (auto intro!: map_cong i32_id) (smt (verit))+
  have "int (length samples) * 2000180000 < 2 ^ 63" using assms(1) by (simp add: samples_ok_def)
  then show ?thesis
    unfolding eq by (intro i64_sum_eq [where b = 2000180000]) (use finish_spread_range [OF assms] in auto)
qed

lemma spread_exact:
  assumes "samples_ok n samples" "delays_ok n d"
  shows "spread_of_finishes (finish_times samples d) = sum_list (map (finish_spread d) samples)"
proof -
  have "map (\<lambda>row. i32 (Max (set row) - Min (set row))) (finish_times samples d) = map (\<lambda>row. i32 (finish_spread d row)) samples"
    unfolding finish_exact [OF assms] map_map comp_def
    by (rule map_cong [OF refl]) (simp add: finish_row(1) [OF assms] finish_spread_def Let_def del: set_map)
  then show ?thesis unfolding spread_of_finishes_def using spread_sum [OF assms] by simp
qed

lemma streamed_exact:
  assumes "samples_ok n samples" "delays_ok n d"
  shows "streamed_spread samples d = sum_list (map (finish_spread d) samples)"
proof -
  let ?f = "\<lambda>row e. row ! e + d ! e"
  have len: "length d = n" "0 < n" using assms by (auto simp: samples_ok_def delays_ok_def)
  have v: "map (\<lambda>row. i32 (row ! e + d ! e)) samples = map (\<lambda>row. ?f row e) samples" if "e < n" for e
  proof (rule map_cong [OF refl])
    fix row assume "row \<in> set samples"
    then show "i32 (row ! e + d ! e) = row ! e + d ! e"
      using samples_row [OF assms(1) _ that] delays_entry [OF assms(2) that] by (intro i32_id) (smt (verit))+
  qed
  have fold: "foldl (\<lambda>(lo, hi) e. let values = map (\<lambda>row. i32 (row ! e + d ! e)) samples in (map2 min lo values, map2 max hi values))
      (map (\<lambda>row. i32 (row ! 0 + d ! 0)) samples, map (\<lambda>row. i32 (row ! 0 + d ! 0)) samples) [1..<Suc k]
      = (map (\<lambda>row. Min (?f row ` {..k})) samples, map (\<lambda>row. Max (?f row ` {..k})) samples)" if "k < n" for k
    using that
  proof (induction k)
    case 0
    have "{..0::nat} = {0}" by auto
    then show ?case using v [OF 0] by simp
  next
    case (Suc k)
    have mm: "Min (?f row ` {..Suc k}) = min (Min (?f row ` {..k})) (?f row (Suc k))"
      "Max (?f row ` {..Suc k}) = max (Max (?f row ` {..k})) (?f row (Suc k))" for row
      by (simp_all add: atMost_Suc min.commute max.commute)
    have snoc: "[1..<Suc (Suc k)] = [1..<Suc k] @ [Suc k]" by simp
    show ?case unfolding snoc foldl_append Suc.IH [OF Suc_lessD [OF Suc.prems]]
      using v [OF Suc.prems] by (simp add: map2_map_map mm Let_def)
  qed
  obtain k where k: "n = Suc k" using len(2) by (cases n) auto
  have set: "?f row ` {..k} = set (map2 (+) row d)" if "row \<in> set samples" for row
    unfolding finish_row(1) [OF assms that, symmetric] k set_map set_upt atLeast0LessThan lessThan_Suc_atMost ..
  have "streamed_spread samples d = i64_sum (map (\<lambda>row. i32 (Max (?f row ` {..k}) - Min (?f row ` {..k}))) samples)"
    unfolding streamed_spread_def Let_def len(1) k using fold [of k] by (simp add: k map2_map_map Let_def)
  also have "map (\<lambda>row. i32 (Max (?f row ` {..k}) - Min (?f row ` {..k}))) samples = map (\<lambda>row. i32 (finish_spread d row)) samples"
    by (rule map_cong [OF refl]) (simp only: set finish_spread_def Let_def)
  finally show ?thesis using spread_sum [OF assms] by simp
qed

lemma gap_exact:
  assumes "delays_ok n d" "length ideal = n" "n \<le> 12" "list_all (\<lambda>i. 0 \<le> i \<and> i \<le> 2000000000) ideal"
  shows "sum_list (map (\<lambda>v. v * v) ideal) + variable_gap ideal d = sum_list (map2 (\<lambda>d i. (d - i) * (d - i)) d ideal)"
proof -
  have len: "length d = n" using assms(1) by (simp add: delays_ok_def)
  have entry: "i64 (i64 (x * x) - i64 (i64 (2 * x) * i)) = x * x - 2 * x * i \<and> \<bar>x * x - 2 * x * i\<bar> \<le> 1000000000000000"
    if "(x, i) \<in> set (zip d ideal)" for x i
  proof -
    have x: "0 \<le> x" "x \<le> 180000" and i: "0 \<le> i" "i \<le> 2000000000"
      using that assms(1,4) by (auto simp: delays_ok_def list_all_iff dest: set_zip_leftD set_zip_rightD)
    have "x * x \<le> 180000 * 180000" by (rule mult_mono) (use x in simp_all)
    then have xx: "0 \<le> x * x" "x * x \<le> 32400000000" using x by simp_all
    have "2 * x * i \<le> 360000 * 2000000000" by (rule mult_mono) (use x i in simp_all)
    then have xi: "0 \<le> 2 * x * i" "2 * x * i \<le> 720000000000000" using x i by simp_all
    have "i64 (2 * x) = 2 * x" using x by (intro i64_id) simp_all
    moreover have "i64 (2 * x * i) = 2 * x * i" "i64 (x * x) = x * x" using xx xi by (intro i64_id; linarith)+
    moreover have "i64 (x * x - 2 * x * i) = x * x - 2 * x * i" using xx xi by (intro i64_id) linarith+
    moreover have "\<bar>x * x - 2 * x * i\<bar> \<le> 1000000000000000" unfolding abs_le_iff using xx xi by (intro conjI; linarith)
    ultimately show ?thesis by simp
  qed
  let ?g = "map2 (\<lambda>d i. d * d - 2 * d * i) d ideal"
  have "variable_gap ideal d = i64_sum ?g"
    unfolding variable_gap_def using entry by (intro arg_cong [where f = i64_sum] map_cong) auto
  moreover have gb: "\<bar>x\<bar> \<le> 1000000000000000" if "x \<in> set ?g" for x using that entry by auto
  moreover have "int (length ?g) * 1000000000000000 < 2 ^ 63" using len assms(2,3) by simp
  ultimately have "variable_gap ideal d = sum_list ?g"
    using gb i64_sum_eq [of ?g 1000000000000000] by simp
  moreover have "sum_list (map (\<lambda>v. v * v) ideal) + sum_list ?g = sum_list (map2 (\<lambda>d i. (d - i) * (d - i)) d ideal)"
    using len assms(2) by (induction d ideal arbitrary: n rule: list_induct2') (auto simp: algebra_simps)
  ultimately show ?thesis by simp
qed

lemma movement_exact:
  assumes "marks_ok n marks" "length b = n" "list_all (\<lambda>b. 3 \<le> b \<and> b \<le> 183) b" "n \<le> 12"
  shows "mark_movement b marks = sum_list (map2 (\<lambda>m b. \<bar>m - b\<bar>) marks b)"
proof -
  have entry: "\<bar>i64 (m - c)\<bar> = \<bar>m - c\<bar> \<and> \<bar>m - c\<bar> \<le> 180" if "(m, c) \<in> set (zip marks b)" for m c
  proof -
    have "3 \<le> m" "m \<le> 183" "3 \<le> c" "c \<le> 183"
      using that assms(1,3) by (auto simp: marks_ok_def list_all_iff dest: set_zip_leftD set_zip_rightD)
    then show ?thesis by (simp add: i64_id)
  qed
  let ?g = "map2 (\<lambda>m b. \<bar>m - b\<bar>) marks b"
  have "mark_movement b marks = i64_sum ?g"
    unfolding mark_movement_def using entry by (intro arg_cong [where f = i64_sum] map_cong) auto
  moreover have "int (length ?g) * 180 < 2 ^ 63" using assms(2,4) by simp
  moreover have "\<bar>x\<bar> \<le> 180" if "x \<in> set ?g" for x using that entry by auto
  ultimately show ?thesis using i64_sum_eq [of ?g 180] by simp
qed

lemma sheet_credits_range:
  assumes "samples_ok n samples" "0 \<le> scale" "c \<in> set (sheet_credits n scale samples d)"
  shows "0 \<le> c \<and> c \<le> int (length samples) * scale"
proof -
  obtain e where "c = sum_list (map (\<lambda>row. draw_share n scale d row e) samples)" using assms(3) by (auto simp: sheet_credits_def)
  moreover have "0 \<le> draw_share n scale d row e \<and> draw_share n scale d row e \<le> scale" for row
  proof -
    have c: "1 \<le> int (length (draw_winners n d row))"
      using draw_winners_ne [of n d row] assms(1) by (cases "draw_winners n d row") (auto simp: samples_ok_def)
    have "0 \<le> scale div int (length (draw_winners n d row))"
      by (rule pos_imp_zdiv_nonneg_iff [THEN iffD2]) (use assms(2) c in linarith)+
    moreover have "scale div int (length (draw_winners n d row)) \<le> scale div 1" using assms(2) c by (intro zdiv_mono2) simp_all
    ultimately show ?thesis using assms(2) by (simp add: draw_share_def Let_def)
  qed
  ultimately show ?thesis using sum_list_abs_bound [of "map (\<lambda>row. draw_share n scale d row e) samples" scale] by auto
qed

lemma parity_exact:
  assumes "samples_ok n samples" "scale = credit_scale_of n"
  shows "parity_numerator n scale (length samples) (sheet_credits n scale samples d)
    = Max (set (map (\<lambda>c. \<bar>c * int n - scale * int (length samples)\<bar>) (sheet_credits n scale samples d)))"
proof -
  have n: "n \<le> 12" "length samples \<le> 4096" using assms(1) by (simp_all add: samples_ok_def)
  have sc: "0 < scale" "scale \<le> 27720" using credit_scale_range [OF n(1)] assms(2) by simp_all
  have "i64 (i64 (c * int n) - scale * int (length samples)) = c * int n - scale * int (length samples)"
    if c: "c \<in> set (sheet_credits n scale samples d)" for c
  proof -
    have "int (length samples) * scale \<le> 4096 * 27720" using n sc by (intro mult_mono) simp_all
    then have b: "0 \<le> c" "c \<le> 113541120" "0 \<le> scale * int (length samples)" "scale * int (length samples) \<le> 113541120"
      using sheet_credits_range [OF assms(1) _ c] sc by (auto simp: mult.commute)
    have "c * int n \<le> 113541120 * 12" by (rule mult_mono) (use b n(1) in simp_all)
    moreover have nn: "0 \<le> c * int n" using b by simp
    ultimately have "i64 (c * int n) = c * int n"
      "i64 (c * int n - scale * int (length samples)) = c * int n - scale * int (length samples)"
      using b by (intro i64_id; linarith)+
    then show ?thesis by simp
  qed
  then show ?thesis unfolding parity_numerator_def by (simp cong: image_cong)
qed

subsection \<open>Every batch computes the objectives\<close>

lemma evaluate_batch_exact:
  assumes "context_ok ctx" "list_all (marks_ok (ec_entrants ctx)) batch"
    "cache_ok (ec_samples ctx) (full_mask (ec_draws ctx)) cache"
  obtains cache' where
    "evaluate_batch ctx 3 batch cache = Inr (map (\<lambda>m. (m, raw_objectives ctx 3 m)) batch, cache')"
    "cache_ok (ec_samples ctx) (full_mask (ec_draws ctx)) cache'"
proof -
  let ?n = "ec_entrants ctx" and ?s = "ec_samples ctx" and ?scale = "ec_credit_scale ctx"
  have c: "samples_ok ?n ?s" "ec_draws ctx = length ?s" "?scale = credit_scale_of ?n"
    "length (ec_ideal_delays ctx) = ?n" "list_all (\<lambda>i. 0 \<le> i \<and> i \<le> 2000000000) (ec_ideal_delays ctx)"
    "ec_ideal_square_sum ctx = sum_list (map (\<lambda>v. v * v) (ec_ideal_delays ctx))"
    "length (ec_baseline ctx) = ?n" "list_all (\<lambda>b. 3 \<le> b \<and> b \<le> 183) (ec_baseline ctx)"
    using assms(1) by (simp_all add: context_ok_def Let_def)
  have n: "?n \<le> 12" using c(1) by (simp add: samples_ok_def)
  have sc: "0 \<le> ?scale" "?scale \<le> 27720" using credit_scale_range [OF n] c(3) by simp_all
  have ok: "marks_ok ?n m" "delays_of 3 m = sheet_delays 3 m" "delays_ok ?n (sheet_delays 3 m)" if "m \<in> set batch" for m
    using assms(2) that delays_exact [of ?n m] by (auto simp: list_all_iff)
  let ?ds = "map (sheet_delays 3) batch"
  have ds: "map (delays_of 3) batch = ?ds" using ok(2) by simp
  have dok: "delays_ok ?n d" if "d \<in> set ?ds" for d using that ok(3) by auto
  let ?spreads = "map (\<lambda>d. sum_list (map (finish_spread d) ?s)) ?ds"
  let ?credits = "map (sheet_credits ?n ?scale ?s) ?ds"
  have vals: "map (\<lambda>(marks, d, s, cs). (marks, (ec_ideal_square_sum ctx + variable_gap (ec_ideal_delays ctx) d,
        parity_numerator ?n ?scale (ec_draws ctx) cs, s, mark_movement (ec_baseline ctx) marks)))
      (zip batch (zip ?ds (zip ?spreads ?credits))) = map (\<lambda>m. (m, raw_objectives ctx 3 m)) batch"
  proof -
    have z: "zip batch (zip ?ds (zip ?spreads ?credits)) = map (\<lambda>m. let d = sheet_delays 3 m in
        (m, d, sum_list (map (finish_spread d) ?s), sheet_credits ?n ?scale ?s d)) batch"
      by (rule nth_equalityI) (simp_all add: Let_def)
    show ?thesis
    proof (subst z, unfold map_map, rule map_cong [OF refl])
      fix m assume m: "m \<in> set batch"
      have gap: "ec_ideal_square_sum ctx + variable_gap (ec_ideal_delays ctx) (sheet_delays 3 m)
          = sum_list (map2 (\<lambda>d i. (d - i) * (d - i)) (sheet_delays 3 m) (ec_ideal_delays ctx))"
        unfolding c(6) by (rule gap_exact [OF ok(3) [OF m] c(4) n c(5)])
      have parity: "parity_numerator ?n ?scale (ec_draws ctx) (sheet_credits ?n ?scale ?s (sheet_delays 3 m))
          = Max (set (map (\<lambda>c. \<bar>c * int ?n - ?scale * int (ec_draws ctx)\<bar>) (sheet_credits ?n ?scale ?s (sheet_delays 3 m))))"
        unfolding c(2) by (rule parity_exact [OF c(1,3)])
      have move: "mark_movement (ec_baseline ctx) m = sum_list (map2 (\<lambda>m b. \<bar>m - b\<bar>) m (ec_baseline ctx))"
        by (rule movement_exact [OF ok(1) [OF m] c(7,8) n])
      show "((\<lambda>(marks, d, s, cs). (marks, (ec_ideal_square_sum ctx + variable_gap (ec_ideal_delays ctx) d,
          parity_numerator ?n ?scale (ec_draws ctx) cs, s, mark_movement (ec_baseline ctx) marks)))
          \<circ> (\<lambda>m. let d = sheet_delays 3 m in (m, d, sum_list (map (finish_spread d) ?s), sheet_credits ?n ?scale ?s d))) m
          = (m, raw_objectives ctx 3 m)"
        by (simp only: comp_def Let_def prod.case gap parity move raw_objectives_def)
    qed
  qed
  show thesis
  proof (cases "length batch < 32")
    case True
    have sp: "map spread_of_finishes (map (finish_times ?s) ?ds) = ?spreads"
      using spread_exact [OF c(1) dok] by simp
    have cr: "winner_credits_vectorized (map (finish_times ?s) ?ds) (map row_minima (map (finish_times ?s) ?ds)) ?n ?scale = ?credits"
    proof -
      have rm: "map row_minima (map (finish_times ?s) ?ds) = map (\<lambda>d. row_minima (finish_times ?s d)) ?ds" by simp
      show ?thesis unfolding rm by (rule vectorized_shares [OF c(1) dok sc])
    qed
    have "evaluate_batch ctx 3 batch cache = Inr (map (\<lambda>m. (m, raw_objectives ctx 3 m)) batch, cache)"
      unfolding evaluate_batch_def Let_def ds if_P [OF True] prod.case sp cr vals ..
    then show thesis using assms(3) by (rule that)
  next
    case False
    have sp: "map (streamed_spread ?s) ?ds = ?spreads" using streamed_exact [OF c(1) dok] by simp
    obtain cache' where w: "winner_credits_bitset ?s ?ds ?n (length ?s) ?scale cache = Inr (?credits, cache')"
      "cache_ok ?s (full_mask (length ?s)) cache'"
      by (rule winner_credits_bitset_shares [OF c(1) assms(3) [unfolded c(2)]])
    have "evaluate_batch ctx 3 batch cache = Inr (map (\<lambda>m. (m, raw_objectives ctx 3 m)) batch, cache')"
      unfolding evaluate_batch_def Let_def ds if_not_P [OF False] c(2) w(1) bind_res.simps prod.case sp
      unfolding c(2) [symmetric] vals ..
    then show thesis using w(2) unfolding c(2) [symmetric] by (rule that)
  qed
qed

lemma evaluate_batches_exact:
  assumes "context_ok ctx" "list_all (list_all (marks_ok (ec_entrants ctx))) bs"
    "cache_ok (ec_samples ctx) (full_mask (ec_draws ctx)) cache"
  obtains cache' where
    "evaluate_batches ctx 3 bs cache = Inr (map (\<lambda>m. (m, raw_objectives ctx 3 m)) (concat bs), cache')"
    "cache_ok (ec_samples ctx) (full_mask (ec_draws ctx)) cache'"
  using assms(2,3)
proof (induction bs arbitrary: cache thesis)
  case (Cons b bs)
  have b: "list_all (marks_ok (ec_entrants ctx)) b" "list_all (list_all (marks_ok (ec_entrants ctx))) bs"
    using Cons.prems(2) by simp_all
  obtain cache1 where 1: "evaluate_batch ctx 3 b cache = Inr (map (\<lambda>m. (m, raw_objectives ctx 3 m)) b, cache1)"
    "cache_ok (ec_samples ctx) (full_mask (ec_draws ctx)) cache1"
    by (rule evaluate_batch_exact [OF assms(1) b(1) Cons.prems(3)])
  obtain cache2 where 2: "evaluate_batches ctx 3 bs cache1 = Inr (map (\<lambda>m. (m, raw_objectives ctx 3 m)) (concat bs), cache2)"
    "cache_ok (ec_samples ctx) (full_mask (ec_draws ctx)) cache2"
    by (rule Cons.IH [OF _ b(2) 1(2)])
  show ?case by (rule Cons.prems(1) [OF _ 2(2)]) (simp add: 1(1) 2(1))
qed simp

lemma concat_chunks: "0 < k \<Longrightarrow> concat (chunks k xs) = xs"
  by (induction k xs rule: chunks.induct) (simp add: chunks.simps)

lemma chunks_subset: "0 < k \<Longrightarrow> c \<in> set (chunks k xs) \<Longrightarrow> set c \<subseteq> set xs"
  using concat_chunks [of k xs] by (metis UN_upper set_concat)

lemma update_new: "k \<notin> fst ` set d \<Longrightarrow> AList.update k v d = d @ [(k, v)]"
  by (induction d) auto

lemma py_dict_distinct:
  assumes "distinct (map fst items)"
  shows "py_dict items = items"
proof -
  have "foldl (\<lambda>d (k, v). AList.update k v d) d items = d @ items"
    if "distinct (map fst (d @ items))" for d
    using that
  proof (induction items arbitrary: d)
    case (Cons p items)
    obtain k v where p: "p = (k, v)" by (cases p)
    have "AList.update k v d = d @ [(k, v)]" using Cons.prems by (intro update_new) (auto simp: p)
    then show ?case using Cons.IH [of "d @ [(k, v)]"] Cons.prems by (simp add: p)
  qed simp
  from this [of "[]"] assms show ?thesis by (simp add: py_dict_def)
qed

lemma evaluate_serial_exact:
  assumes "context_ok ctx" "list_all (marks_ok (ec_entrants ctx)) cs" "distinct cs"
    "cache_ok (ec_samples ctx) (full_mask (ec_draws ctx)) cache"
  obtains cache' where
    "evaluate_serial ctx 3 cs cache = Inr (map (\<lambda>m. (m, raw_objectives ctx 3 m)) cs, cache')"
    "cache_ok (ec_samples ctx) (full_mask (ec_draws ctx)) cache'"
proof -
  have k: "0 < evaluation_batch_size" by (simp add: evaluation_batch_size_def)
  have all: "list_all (list_all (marks_ok (ec_entrants ctx))) (chunks evaluation_batch_size cs)"
    using assms(2) chunks_subset [OF k] by (force simp: list_all_iff)
  obtain cache' where e: "evaluate_batches ctx 3 (chunks evaluation_batch_size cs) cache
      = Inr (map (\<lambda>m. (m, raw_objectives ctx 3 m)) (concat (chunks evaluation_batch_size cs)), cache')"
    and ok: "cache_ok (ec_samples ctx) (full_mask (ec_draws ctx)) cache'"
    by (rule evaluate_batches_exact [OF assms(1) all assms(4)])
  have "distinct (map fst (map (\<lambda>m. (m, raw_objectives ctx 3 m)) cs))" using assms(3) by (simp add: comp_def)
  then have "evaluate_serial ctx 3 cs cache = Inr (map (\<lambda>m. (m, raw_objectives ctx 3 m)) cs, cache')"
    unfolding evaluate_serial_def e concat_chunks [OF k] by (simp add: py_dict_distinct del: map_map)
  then show thesis using ok by (rule that)
qed

lemma evaluate_parts_exact:
  assumes "context_ok ctx" "list_all (list_all (marks_ok (ec_entrants ctx))) ps" "distinct (concat ps)"
    "cache_ok (ec_samples ctx) (full_mask (ec_draws ctx)) cache"
  obtains cache' where
    "evaluate_parts ctx 3 ps cache = Inr (map (\<lambda>m. (m, raw_objectives ctx 3 m)) (concat ps), cache')"
    "cache_ok (ec_samples ctx) (full_mask (ec_draws ctx)) cache'"
  using assms(2-)
proof (induction ps arbitrary: cache thesis)
  case (Cons p ps)
  have p: "list_all (marks_ok (ec_entrants ctx)) p" "list_all (list_all (marks_ok (ec_entrants ctx))) ps"
    "distinct p" "distinct (concat ps)"
    using Cons.prems(2,3) by simp_all
  obtain cache1 where 1: "evaluate_serial ctx 3 p cache = Inr (map (\<lambda>m. (m, raw_objectives ctx 3 m)) p, cache1)"
    "cache_ok (ec_samples ctx) (full_mask (ec_draws ctx)) cache1"
    by (rule evaluate_serial_exact [OF assms(1) p(1,3) Cons.prems(4)])
  obtain cache2 where 2: "evaluate_parts ctx 3 ps cache1 = Inr (map (\<lambda>m. (m, raw_objectives ctx 3 m)) (concat ps), cache2)"
    "cache_ok (ec_samples ctx) (full_mask (ec_draws ctx)) cache2"
    by (rule Cons.IH [OF _ p(2,4) 1(2)])
  show ?case by (rule Cons.prems(1) [OF _ 2(2)]) (simp add: 1(1) 2(1))
qed simp

lemma evaluate_candidates_exact:
  assumes "context_ok ctx" "list_all (marks_ok (ec_entrants ctx)) cs" "distinct cs"
    "cache_ok (ec_samples ctx) (full_mask (ec_draws ctx)) cache"
  obtains cache' where
    "evaluate_candidates ctx 3 threads cs cache = Inr (map (\<lambda>m. (m, raw_objectives ctx 3 m)) cs, cache')"
    "cache_ok (ec_samples ctx) (full_mask (ec_draws ctx)) cache'"
proof (cases "cs \<noteq> [] \<and> threads \<and> 2048 < length cs")
  case True
  let ?k = "(length cs + 7) div 8"
  have "2048 < length cs" using True by blast
  then have k: "0 < ?k" by simp
  have all: "list_all (list_all (marks_ok (ec_entrants ctx))) (chunks ?k cs)"
    using assms(2) chunks_subset [OF k] by (force simp: list_all_iff)
  have dist: "distinct (concat (chunks ?k cs))" unfolding concat_chunks [OF k] by (rule assms(3))
  obtain cache' where e: "evaluate_parts ctx 3 (chunks ?k cs) cache
      = Inr (map (\<lambda>m. (m, raw_objectives ctx 3 m)) (concat (chunks ?k cs)), cache')"
    and ok: "cache_ok (ec_samples ctx) (full_mask (ec_draws ctx)) cache'"
    by (rule evaluate_parts_exact [OF assms(1) all dist assms(4)])
  have "distinct (map fst (map (\<lambda>m. (m, raw_objectives ctx 3 m)) cs))" using assms(3) by (simp add: comp_def)
  then have "evaluate_candidates ctx 3 threads cs cache = Inr (map (\<lambda>m. (m, raw_objectives ctx 3 m)) cs, cache')"
    using True unfolding evaluate_candidates_def e concat_chunks [OF k] by (simp add: py_dict_distinct del: map_map)
  then show thesis using ok by (rule that)
next
  case False
  show thesis
  proof (cases "cs = []")
    case True
    then show thesis using assms(4) that by (simp add: evaluate_candidates_def)
  next
    case ne: False
    obtain cache' where "evaluate_serial ctx 3 cs cache = Inr (map (\<lambda>m. (m, raw_objectives ctx 3 m)) cs, cache')"
      "cache_ok (ec_samples ctx) (full_mask (ec_draws ctx)) cache'"
      by (rule evaluate_serial_exact [OF assms])
    then show thesis using False ne by (intro that) (auto simp: evaluate_candidates_def)
  qed
qed

subsection \<open>The context of a field\<close>

text \<open>The arguments \<open>OptimizationField\<close> provides: one expected time and one column of samples per
  competitor, every column of the same length.\<close>

definition columns_ok :: "int list \<Rightarrow> int list list \<Rightarrow> bool" where
  "columns_ok expected columns \<longleftrightarrow> expected \<noteq> [] \<and> length expected \<le> 12 \<and> list_all time_ok expected
     \<and> length columns = length expected
     \<and> list_all (\<lambda>c. length c = length (hd columns) \<and> length c \<le> 4096 \<and> list_all time_ok c) columns"

lemma compiled_context_ok:
  assumes "columns_ok expected columns" "length baseline = length expected"
    "list_all (\<lambda>b. 3 \<le> b \<and> b \<le> 183) baseline"
  shows "context_ok (compile_evaluation_context expected columns baseline)"
proof -
  obtain c cols where cols: "columns = c # cols" using assms(1) by (cases columns) (auto simp: columns_ok_def)
  have t: "transpose_samples columns = map (\<lambda>j. map (\<lambda>col. col ! j) columns) [0..<length c]"
    by (simp add: transpose_samples_def cols)
  have "samples_ok (length expected) (transpose_samples columns)"
    using assms(1) unfolding t by (auto simp: samples_ok_def columns_ok_def list_all_iff cols time_ok_def)
  moreover have "list_all (\<lambda>i. 0 \<le> i \<and> i \<le> 2000000000) (map (\<lambda>v. Max (set expected) - v) expected)"
  proof -
    have "Max (set expected) \<in> set expected" using assms(1) by (simp add: columns_ok_def)
    then have "Max (set expected) \<le> 2000000000" using assms(1) by (auto simp: columns_ok_def list_all_iff time_ok_def)
    moreover have "v \<le> Max (set expected)" "0 < v" if "v \<in> set expected" for v
      using that assms(1) by (auto simp: columns_ok_def list_all_iff time_ok_def)
    ultimately show ?thesis by (fastforce simp: list_all_iff)
  qed
  ultimately show ?thesis using assms(2,3)
    by (simp add: context_ok_def compile_evaluation_context_def Let_def comp_def)
qed

end
