(* ===== verification/Pareto_Front.thy ===== *)
theory Pareto_Front
  imports Sheet_Evaluation
begin

section \<open>Pareto frontiers (domain/optimizer.py)\<close>

text \<open>
  A sheet dominates another if it is no worse in any objective, up to a tolerance of 1e-9, and
  better in one by more than that. The objectives are fractions with a fixed denominator each, so
  the comparison is one of integers. The code keeps the nondominated sheets in two ways: a skyline
  for small fields (\<open>_pareto_frontier_raw_skyline\<close>), and for the beam search an index that takes
  additions in rounds and compares rows of int64 by blocks (\<open>_GlobalRawParetoIndex\<close>). Both are shown
  to hold exactly the sheets that nothing seen dominates, and this set is shown to be nonempty.
\<close>

type_synonym pareto_item = "int list \<times> raw_objective"

subsection \<open>Dominance\<close>

definition objective_list :: "raw_objective \<Rightarrow> int list" where
  "objective_list v = (case v of (g, p, s, m) \<Rightarrow> [g, p, s, m])"

text \<open>The denominators of the four objectives.\<close>

definition raw_denominators :: "nat \<Rightarrow> nat \<Rightarrow> int list" where
  "raw_denominators n draws = [int n, credit_scale_of n * int draws * int n, int draws, int n]"

definition dominates_raw :: "raw_objective \<Rightarrow> raw_objective \<Rightarrow> int list \<Rightarrow> bool" where
  "dominates_raw left right dens =
     (let differences = map2 (\<lambda>a b. (a - b) * 1000000000) (objective_list left) (objective_list right) in
      list_all (\<lambda>(x, d). x \<le> d) (zip differences dens) \<and> list_ex (\<lambda>(x, d). x < - d) (zip differences dens))"

subsection \<open>The skyline of a small field\<close>

definition value_order :: "pareto_item \<Rightarrow> int \<times> int \<times> int \<times> int \<times> int list" where
  "value_order item = (case item of (marks, (g, p, s, m)) \<Rightarrow> (g, p, s, m, marks))"

fun skyline_of :: "int list \<Rightarrow> pareto_item list \<Rightarrow> pareto_item list \<Rightarrow> pareto_item list" where
  "skyline_of dens [] skyline = skyline"
| "skyline_of dens (item # rest) skyline =
     (if list_ex (\<lambda>c. dominates_raw (snd c) (snd item) dens) skyline then skyline_of dens rest skyline
      else skyline_of dens rest (filter (\<lambda>c. \<not> dominates_raw (snd item) (snd c) dens) skyline @ [item]))"

definition raw_skyline :: "int list \<Rightarrow> pareto_item list \<Rightarrow> pareto_item list" where
  "raw_skyline dens evaluated = skyline_of dens (sort_key value_order evaluated) []"

subsection \<open>The index of the beam search\<close>

text \<open>Comparison of two rows of int64: tolerances are added in int64.\<close>

definition row_dominates :: "int list \<Rightarrow> int list \<Rightarrow> raw_objective \<Rightarrow> raw_objective \<Rightarrow> bool" where
  "row_dominates nonstrict strict source target =
     (list_all (\<lambda>(s, t, x). s \<le> i64 (t + x)) (zip (objective_list source) (zip (objective_list target) nonstrict))
      \<and> list_ex (\<lambda>(s, t, x). s \<le> i64 (t + x)) (zip (objective_list source) (zip (objective_list target) strict)))"

definition dominance_block_size :: nat where "dominance_block_size = 256"

text \<open>The loops of \<open>_mark_raw_targets_dominated\<close>: sources in blocks, against the targets that are
  still active, in blocks; left when no target is active.\<close>

definition mark_targets_by :: "(raw_objective \<Rightarrow> raw_objective \<Rightarrow> bool) \<Rightarrow> raw_objective list \<Rightarrow> raw_objective list \<Rightarrow> nat list \<Rightarrow> bool list \<Rightarrow> bool list" where
  "mark_targets_by beats source targets indices flags =
     foldl (\<lambda>fs i. fs[i := fs ! i \<or> list_ex (\<lambda>s. beats s (targets ! i)) source]) flags indices"

fun mark_blocks :: "(raw_objective \<Rightarrow> raw_objective \<Rightarrow> bool) \<Rightarrow> raw_objective list list \<Rightarrow> raw_objective list \<Rightarrow> bool list \<Rightarrow> bool list" where
  "mark_blocks beats [] targets flags = flags"
| "mark_blocks beats (source # rest) targets flags =
     (let active = filter (\<lambda>i. \<not> flags ! i) [0..<length flags] in
      if active = [] then flags
      else mark_blocks beats rest targets
        (foldl (\<lambda>fs indices. mark_targets_by beats source targets indices fs) flags (chunks dominance_block_size active)))"

definition mark_raw_targets_dominated :: "(raw_objective \<Rightarrow> raw_objective \<Rightarrow> bool) \<Rightarrow> raw_objective list \<Rightarrow> raw_objective list \<Rightarrow> bool list \<Rightarrow> bool list" where
  "mark_raw_targets_dominated beats sources targets flags =
     (if sources = [] \<or> targets = [] then flags
      else mark_blocks beats (chunks dominance_block_size (sort sources)) targets flags)"

record pareto_index =
  px_entrants :: nat
  px_draws :: nat
  px_nonstrict :: "int list"
  px_strict :: "int list"
  px_items :: "pareto_item list"
  px_dominated :: "bool list"
  px_gap_origin :: "int option"
  px_vectors :: "raw_objective list"

definition new_index :: "nat \<Rightarrow> nat \<Rightarrow> pareto_index" where
  "new_index n draws =
     (let dens = raw_denominators n draws in
      \<lparr>px_entrants = n, px_draws = draws, px_nonstrict = map (\<lambda>d. d div 1000000000) dens,
       px_strict = map (\<lambda>d. (- d - 1) div 1000000000) dens, px_items = [], px_dominated = [],
       px_gap_origin = None, px_vectors = []\<rparr>)"

definition offset_raw_vectors :: "raw_objective list \<Rightarrow> int \<Rightarrow> opt_error + raw_objective list" where
  "offset_raw_vectors values origin = map_all (\<lambda>(g, p, s, m).
     if g - origin < - 9223372036854775808 \<or> 9223372036854775807 < g - origin
     then Inl (Contract (ContractError ''optimizer field gap delta exceeds signed work capacity''))
     else Inr (g - origin, p, s, m)) values"

definition index_add :: "pareto_index \<Rightarrow> pareto_item list \<Rightarrow> opt_error + pareto_index" where
  "index_add idx additions =
     (if additions = [] then Inr idx
      else if list_ex (\<lambda>(marks, _). marks \<in> set (map fst (px_items idx))) additions
      then Inl (Contract (ContractError ''Pareto index additions must be new candidates''))
      else (let origin = (case px_gap_origin idx of Some g \<Rightarrow> g | None \<Rightarrow> fst (snd (hd additions)));
                prior = px_vectors idx;
                beats = row_dominates (px_nonstrict idx) (px_strict idx) in
        bind_res (offset_raw_vectors (map snd additions) origin) (\<lambda>new.
          let new1 = mark_raw_targets_dominated beats prior new (replicate (length additions) False);
              old1 = mark_raw_targets_dominated beats new prior (px_dominated idx);
              new2 = mark_raw_targets_dominated beats new new new1
          in Inr (idx\<lparr>px_items := px_items idx @ additions, px_dominated := old1 @ new2,
                      px_gap_origin := Some origin, px_vectors := prior @ new\<rparr>))))"

definition raw_frontier :: "pareto_index \<Rightarrow> pareto_item list" where
  "raw_frontier idx = sort (py_dict (map fst (filter (\<lambda>(_, dominated). \<not> dominated) (zip (px_items idx) (px_dominated idx)))))"

subsection \<open>The nondominated sheets\<close>

definition nondominated :: "int list \<Rightarrow> pareto_item list \<Rightarrow> pareto_item list" where
  "nondominated dens items = filter (\<lambda>i. \<not> list_ex (\<lambda>j. dominates_raw (snd j) (snd i) dens) items) items"

lemma dominates_raw_simps:
  "dominates_raw (g, p, s, m) (g', p', s', m') [dg, dp, ds, dm] \<longleftrightarrow>
     ((g - g') * 1000000000 \<le> dg \<and> (p - p') * 1000000000 \<le> dp \<and> (s - s') * 1000000000 \<le> ds \<and> (m - m') * 1000000000 \<le> dm)
     \<and> ((g - g') * 1000000000 < - dg \<or> (p - p') * 1000000000 < - dp \<or> (s - s') * 1000000000 < - ds \<or> (m - m') * 1000000000 < - dm)"
  by (simp add: dominates_raw_def objective_list_def)

text \<open>The two tolerances of the index are those of the integer comparison.\<close>

lemma tolerance_nonstrict: "(x :: int) * 1000000000 \<le> d \<longleftrightarrow> x \<le> d div 1000000000"
proof
  assume "x * 1000000000 \<le> d"
  from zdiv_mono1 [OF this, of 1000000000] show "x \<le> d div 1000000000" by simp
next
  assume "x \<le> d div 1000000000"
  then have "x * 1000000000 \<le> d div 1000000000 * 1000000000" by simp
  moreover have "d div 1000000000 * 1000000000 + d mod 1000000000 = d" by (rule div_mult_mod_eq)
  moreover have "0 \<le> d mod 1000000000" by simp
  ultimately show "x * 1000000000 \<le> d" by linarith
qed

lemma tolerance_strict: "(x :: int) * 1000000000 < - d \<longleftrightarrow> x \<le> (- d - 1) div 1000000000"
  using tolerance_nonstrict [of x "- d - 1"] by linarith

lemma tolerance_nonstrict_diff: "((a :: int) - b) * 1000000000 \<le> d \<longleftrightarrow> a \<le> b + d div 1000000000"
  unfolding tolerance_nonstrict by linarith

lemma tolerance_strict_diff: "((a :: int) - b) * 1000000000 < - d \<longleftrightarrow> a \<le> b + (- d - 1) div 1000000000"
  unfolding tolerance_strict by linarith

definition small_value :: "int \<Rightarrow> bool" where
  "small_value x \<longleftrightarrow> \<bar>x\<bar> \<le> 1152921504606846976"

definition small_row :: "raw_objective \<Rightarrow> bool" where
  "small_row v = list_all small_value (objective_list v)"

lemma small_denominators:
  assumes "n \<le> 12" "draws \<le> 4096"
  shows "\<forall>d \<in> set (raw_denominators n draws). 0 \<le> d \<and> d \<le> 2000000000"
proof -
  have s: "0 < credit_scale_of n" "credit_scale_of n \<le> 27720" using credit_scale_range [OF assms(1)] by simp_all
  have "credit_scale_of n * int draws \<le> 27720 * 4096" by (rule mult_mono) (use s assms in simp_all)
  then have "credit_scale_of n * int draws * int n \<le> 113541120 * 12" by (intro mult_mono) (use s assms in simp_all)
  then show ?thesis using assms s by (simp add: raw_denominators_def)
qed

lemma row_dominates_exact:
  assumes "\<forall>d \<in> set [dg, dp, ds, dm]. 0 \<le> d \<and> d \<le> (2000000000 :: int)" "small_row target"
  shows "row_dominates (map (\<lambda>d. d div 1000000000) [dg, dp, ds, dm]) (map (\<lambda>d. (- d - 1) div 1000000000) [dg, dp, ds, dm]) source target
    \<longleftrightarrow> dominates_raw source target [dg, dp, ds, dm]"
proof -
  obtain g p s m where src: "source = (g, p, s, m)" by (cases source)
  obtain g' p' s' m' where tgt: "target = (g', p', s', m')" by (cases target)
  have w: "i64 (x + d div 1000000000) = x + d div 1000000000 \<and> i64 (x + (- d - 1) div 1000000000) = x + (- d - 1) div 1000000000"
    if "small_value x" "0 \<le> d \<and> d \<le> 2000000000" for x d
  proof -
    have "0 \<le> d div 1000000000" "d div 1000000000 \<le> 2" "- 3 \<le> (- d - 1) div 1000000000" "(- d - 1) div 1000000000 \<le> 0"
      using that(2) zdiv_mono1 [of 0 d 1000000000] zdiv_mono1 [of d 2000000000 1000000000]
        zdiv_mono1 [of "- 2000000001" "- d - 1" 1000000000] zdiv_mono1 [of "- d - 1" 0 1000000000] by simp_all
    then show ?thesis using that(1) unfolding small_value_def by (intro conjI i64_id) linarith+
  qed
  have "small_value g'" "small_value p'" "small_value s'" "small_value m'"
    using assms(2) by (simp_all add: small_row_def tgt objective_list_def)
  then show ?thesis
    unfolding src tgt dominates_raw_simps tolerance_nonstrict_diff tolerance_strict_diff
    using assms(1) w by (simp add: row_dominates_def objective_list_def)
qed

subsection \<open>Marking by blocks\<close>

lemma mark_targets_by_nth:
  "length (mark_targets_by beats source targets indices flags) = length flags
    \<and> (\<forall>i < length flags. mark_targets_by beats source targets indices flags ! i
        \<longleftrightarrow> flags ! i \<or> i \<in> set indices \<and> (\<exists>s \<in> set source. beats s (targets ! i)))"
  unfolding mark_targets_by_def
proof (induction indices arbitrary: flags)
  case (Cons j indices)
  show ?case using Cons [of "flags[j := flags ! j \<or> list_ex (\<lambda>s. beats s (targets ! j)) source]"]
    by (cases "j < length flags") (auto simp: nth_list_update list_ex_iff list_update_beyond)
qed simp

lemma mark_targets_by_concat:
  "foldl (\<lambda>fs indices. mark_targets_by beats source targets indices fs) flags iss
    = mark_targets_by beats source targets (concat iss) flags"
  by (induction iss arbitrary: flags) (simp_all add: mark_targets_by_def)

lemma mark_blocks_nth:
  "length (mark_blocks beats blocks targets flags) = length flags
    \<and> (\<forall>i < length flags. mark_blocks beats blocks targets flags ! i
        \<longleftrightarrow> flags ! i \<or> (\<exists>s \<in> set (concat blocks). beats s (targets ! i)))"
proof (induction blocks arbitrary: flags)
  case (Cons source rest)
  define active where "active = filter (\<lambda>i. \<not> flags ! i) [0..<length flags]"
  show ?case
  proof (cases "active = []")
    case True
    then have "flags ! i" if "i < length flags" for i using that by (simp add: active_def filter_empty_conv)
    then show ?thesis using True by (simp add: active_def Let_def)
  next
    case False
    define fs where "fs = mark_targets_by beats source targets active flags"
    have fs: "length fs = length flags"
      "\<And>i. i < length flags \<Longrightarrow> fs ! i \<longleftrightarrow> flags ! i \<or> (\<exists>s \<in> set source. beats s (targets ! i))"
      using mark_targets_by_nth [of beats source targets active flags] by (auto simp: fs_def active_def)
    have "foldl (\<lambda>fs indices. mark_targets_by beats source targets indices fs) flags (chunks dominance_block_size active) = fs"
      unfolding mark_targets_by_concat fs_def by (simp add: concat_chunks dominance_block_size_def)
    then have "mark_blocks beats (source # rest) targets flags = mark_blocks beats rest targets fs"
      using False by (simp add: active_def Let_def)
    then show ?thesis using Cons [of fs] fs by auto
  qed
qed simp

lemma mark_raw_targets_dominated_eq:
  assumes "length flags = length targets"
  shows "mark_raw_targets_dominated beats sources targets flags
    = map2 (\<lambda>t f. f \<or> list_ex (\<lambda>s. beats s t) sources) targets flags"
proof (cases "sources = [] \<or> targets = []")
  case True
  have "map2 (\<lambda>t f. f) targets flags = flags" using assms by (intro nth_equalityI) simp_all
  then show ?thesis using True assms by (auto simp: mark_raw_targets_dominated_def)
next
  case False
  have c: "set (concat (chunks dominance_block_size (sort sources))) = set sources"
    by (simp add: concat_chunks dominance_block_size_def)
  show ?thesis
  proof (rule nth_equalityI)
    show "length (mark_raw_targets_dominated beats sources targets flags)
        = length (map2 (\<lambda>t f. f \<or> list_ex (\<lambda>s. beats s t) sources) targets flags)"
      using False assms mark_blocks_nth [of beats "chunks dominance_block_size (sort sources)" targets flags]
      by (auto simp: mark_raw_targets_dominated_def)
    fix i assume "i < length (mark_raw_targets_dominated beats sources targets flags)"
    then have i: "i < length flags"
      using False mark_blocks_nth [of beats "chunks dominance_block_size (sort sources)" targets flags]
      by (auto simp: mark_raw_targets_dominated_def)
    show "mark_raw_targets_dominated beats sources targets flags ! i
        = map2 (\<lambda>t f. f \<or> list_ex (\<lambda>s. beats s t) sources) targets flags ! i"
      using i False assms mark_blocks_nth [of beats "chunks dominance_block_size (sort sources)" targets flags]
      unfolding c by (auto simp: mark_raw_targets_dominated_def list_ex_iff)
  qed
qed

subsection \<open>The index holds the nondominated sheets\<close>

text \<open>Objectives that fit the work capacity of the index: gaps close to a common origin, the rest
  small.\<close>

definition near_item :: "int \<Rightarrow> pareto_item \<Rightarrow> bool" where
  "near_item base item = (case snd item of (g, p, s, m) \<Rightarrow>
     \<bar>g - base\<bar> \<le> 288230376151711744 \<and> small_value p \<and> small_value s \<and> small_value m)"

definition offset_row :: "int \<Rightarrow> raw_objective \<Rightarrow> raw_objective" where
  "offset_row origin v = (case v of (g, p, s, m) \<Rightarrow> (g - origin, p, s, m))"

lemma offset_dominates [simp]:
  "dominates_raw (offset_row o1 v) (offset_row o1 w) [a, b, c, d] = dominates_raw v w [a, b, c, d]"
  by (cases v; cases w) (simp add: offset_row_def dominates_raw_simps)

definition index_ok :: "nat \<Rightarrow> nat \<Rightarrow> int \<Rightarrow> pareto_index \<Rightarrow> bool" where
  "index_ok n draws base idx \<longleftrightarrow>
     (let items = px_items idx; dens = raw_denominators n draws in
       px_nonstrict idx = map (\<lambda>d. d div 1000000000) dens \<and> px_strict idx = map (\<lambda>d. (- d - 1) div 1000000000) dens
       \<and> distinct (map fst items) \<and> list_all (near_item base) items
       \<and> px_dominated idx = map (\<lambda>i. list_ex (\<lambda>j. dominates_raw (snd j) (snd i) dens) items) items
       \<and> (case px_gap_origin idx of None \<Rightarrow> items = [] \<and> px_vectors idx = []
          | Some origin \<Rightarrow> \<bar>origin - base\<bar> \<le> 288230376151711744 \<and> px_vectors idx = map (\<lambda>i. offset_row origin (snd i)) items))"

lemma new_index_ok: "index_ok n draws base (new_index n draws)"
  by (simp add: index_ok_def new_index_def Let_def)

lemma near_small:
  assumes "near_item base i" "\<bar>origin - base\<bar> \<le> 288230376151711744"
  shows "small_row (offset_row origin (snd i))"
  using assms by (cases "snd i") (auto simp: near_item_def small_row_def offset_row_def objective_list_def small_value_def)

lemma offset_vectors_ok:
  assumes "list_all (near_item base) items" "\<bar>origin - base\<bar> \<le> 288230376151711744"
  shows "offset_raw_vectors (map snd items) origin = Inr (map (\<lambda>i. offset_row origin (snd i)) items)"
  unfolding offset_raw_vectors_def map_all_map
proof (rule map_all_InrI)
  fix i assume "i \<in> set items"
  then have "near_item base i" using assms(1) by (simp add: list_all_iff)
  then show "((\<lambda>(g, p, s, m). if g - origin < - 9223372036854775808 \<or> 9223372036854775807 < g - origin
       then Inl (Contract (ContractError ''optimizer field gap delta exceeds signed work capacity''))
       else Inr (g - origin, p, s, m)) \<circ> snd) i = Inr (offset_row origin (snd i))"
    using assms(2) by (cases "snd i") (auto simp: near_item_def offset_row_def)
qed

lemma index_add_ok:
  assumes "index_ok n draws base idx" "n \<le> 12" "draws \<le> 4096" "list_all (near_item base) additions"
    "distinct (map fst (px_items idx @ additions))"
  obtains idx' where "index_add idx additions = Inr idx'" "index_ok n draws base idx'"
    "px_items idx' = px_items idx @ additions"
proof (cases "additions = []")
  case True
  then show thesis using that [of idx] assms(1) by (simp add: index_add_def)
next
  case False
  let ?items = "px_items idx" and ?dens = "raw_denominators n draws"
  obtain dg dp ds dm where dens: "?dens = [dg, dp, ds, dm]" by (simp add: raw_denominators_def)
  have small: "\<forall>d \<in> set [dg, dp, ds, dm]. 0 \<le> d \<and> d \<le> 2000000000"
    using small_denominators [OF assms(2,3)] by (simp only: dens)
  have ok: "px_nonstrict idx = map (\<lambda>d. d div 1000000000) [dg, dp, ds, dm]"
    "px_strict idx = map (\<lambda>d. (- d - 1) div 1000000000) [dg, dp, ds, dm]"
    "list_all (near_item base) ?items"
    "px_dominated idx = map (\<lambda>i. list_ex (\<lambda>j. dominates_raw (snd j) (snd i) [dg, dp, ds, dm]) ?items) ?items"
    using assms(1) by (simp_all add: index_ok_def Let_def dens del: list.map)
  define origin where "origin = (case px_gap_origin idx of Some g \<Rightarrow> g | None \<Rightarrow> fst (snd (hd additions)))"
  have near: "near_item base (hd additions)" using assms(4) False by (simp add: list_all_iff)
  have origin: "\<bar>origin - base\<bar> \<le> 288230376151711744"
    "px_vectors idx = map (\<lambda>i. offset_row origin (snd i)) ?items"
    using assms(1) near by (auto simp: origin_def index_ok_def Let_def near_item_def split: option.splits prod.splits)
  let ?off = "\<lambda>i. offset_row origin (snd i)"
  let ?new = "map ?off additions" and ?old = "map ?off ?items"
  define beats where "beats = row_dominates (px_nonstrict idx) (px_strict idx)"
  have b: "beats v (?off i) = dominates_raw v (?off i) [dg, dp, ds, dm]" if "near_item base i" for v i
    unfolding beats_def ok(1,2) by (rule row_dominates_exact [OF small near_small [OF that origin(1)]])
  have near_new: "near_item base i" if "i \<in> set additions" for i using assms(4) that by (simp add: list_all_iff)
  have near_old: "near_item base i" if "i \<in> set ?items" for i using ok(3) that by (simp add: list_all_iff)
  let ?D = "\<lambda>js i. list_ex (\<lambda>j. dominates_raw (snd j) (snd i) [dg, dp, ds, dm]) js"
  have ex: "list_ex (\<lambda>s. beats s (?off i)) (map ?off js) = ?D js i" if "near_item base i" for js i
    using b [OF that] by (simp add: list_ex_iff)
  have m1: "mark_raw_targets_dominated beats ?old ?new (replicate (length additions) False) = map (?D ?items) additions"
    by (subst mark_raw_targets_dominated_eq) (auto simp: ex near_new intro: nth_equalityI)
  have m2: "mark_raw_targets_dominated beats ?new ?old (px_dominated idx) = map (\<lambda>i. ?D ?items i \<or> ?D additions i) ?items"
    unfolding ok(4) by (subst mark_raw_targets_dominated_eq) (auto simp: ex near_old map2_map_map)
  have m3: "mark_raw_targets_dominated beats ?new ?new (map (?D ?items) additions) = map (\<lambda>i. ?D ?items i \<or> ?D additions i) additions"
    by (subst mark_raw_targets_dominated_eq) (auto simp: ex near_new map2_map_map)
  have keys: "\<not> list_ex (\<lambda>(marks, _). marks \<in> set (map fst ?items)) additions"
    using assms(5) by (force simp: list_ex_iff)
  define idx' where "idx' = idx\<lparr>px_items := ?items @ additions,
     px_dominated := map (\<lambda>i. ?D ?items i \<or> ?D additions i) ?items @ map (\<lambda>i. ?D ?items i \<or> ?D additions i) additions,
     px_gap_origin := Some origin, px_vectors := ?old @ ?new\<rparr>"
  have "index_add idx additions = Inr idx'"
    unfolding index_add_def if_not_P [OF False] if_not_P [OF keys] Let_def origin_def [symmetric] beats_def [symmetric]
      offset_vectors_ok [OF assms(4) origin(1)] bind_res.simps origin(2) m1 m2 m3 idx'_def ..
  moreover have "index_ok n draws base idx'"
    using assms(4,5) ok origin(1) by (simp add: index_ok_def Let_def idx'_def dens)
  ultimately show thesis by (rule that) (simp add: idx'_def)
qed

lemma raw_frontier_eq:
  assumes "index_ok n draws base idx"
  shows "raw_frontier idx = sort (nondominated (raw_denominators n draws) (px_items idx))"
proof -
  let ?items = "px_items idx" and ?D = "\<lambda>i. list_ex (\<lambda>j. dominates_raw (snd j) (snd i) (raw_denominators n draws)) (px_items idx)"
  have d: "px_dominated idx = map ?D ?items" "distinct (map fst ?items)" using assms by (simp_all add: index_ok_def Let_def)
  have "map fst (filter (\<lambda>(_, dominated). \<not> dominated) (zip xs (map ?D xs))) = filter (\<lambda>i. \<not> ?D i) xs" for xs
    by (induction xs) auto
  then have eq: "map fst (filter (\<lambda>(_, dominated). \<not> dominated) (zip ?items (px_dominated idx)))
      = nondominated (raw_denominators n draws) ?items"
    by (simp add: d(1) nondominated_def)
  have "distinct (map fst (nondominated (raw_denominators n draws) ?items))"
    unfolding nondominated_def by (rule distinct_map_filter [OF d(2)])
  then show ?thesis unfolding raw_frontier_def eq by (simp add: py_dict_distinct)
qed

subsection \<open>The skyline holds the nondominated sheets\<close>

lemma no_tolerance:
  fixes a b d :: int
  assumes "0 \<le> d \<and> d < 1000000000"
  shows "(a - b) * 1000000000 \<le> d \<longleftrightarrow> a \<le> b" "(a - b) * 1000000000 < - d \<longleftrightarrow> a < b"
proof -
  have d: "0 \<le> d" "d < 1000000000" using assms by simp_all
  show "(a - b) * 1000000000 \<le> d \<longleftrightarrow> a \<le> b"
    unfolding left_diff_distrib by (rule iffI) (use d in linarith)+
  show "(a - b) * 1000000000 < - d \<longleftrightarrow> a < b"
    unfolding left_diff_distrib by (rule iffI) (use d in linarith)+
qed

lemma exact_dominates:
  assumes "\<forall>d \<in> set [dg, dp, ds, dm]. 0 \<le> d \<and> d < (1000000000 :: int)"
  shows "dominates_raw (g, p, s, m) (g', p', s', m') [dg, dp, ds, dm] \<longleftrightarrow>
    (g \<le> g' \<and> p \<le> p' \<and> s \<le> s' \<and> m \<le> m') \<and> (g < g' \<or> p < p' \<or> s < s' \<or> m < m')"
proof -
  have d: "0 \<le> dg \<and> dg < 1000000000" "0 \<le> dp \<and> dp < 1000000000" "0 \<le> ds \<and> ds < 1000000000" "0 \<le> dm \<and> dm < 1000000000"
    using assms by simp_all
  show ?thesis unfolding dominates_raw_simps no_tolerance [OF d(1)] no_tolerance [OF d(2)] no_tolerance [OF d(3)] no_tolerance [OF d(4)] ..
qed

lemma dominates_transitive:
  assumes "\<forall>d \<in> set [dg, dp, ds, dm]. 0 \<le> d \<and> d < (1000000000 :: int)"
    "dominates_raw u v [dg, dp, ds, dm]" "dominates_raw v w [dg, dp, ds, dm]"
  shows "dominates_raw u w [dg, dp, ds, dm]"
  using assms(2,3) by (cases u; cases v; cases w) (auto simp: exact_dominates [OF assms(1)])

text \<open>The invariant of the loop: the skyline is the nondominated part of what was seen, and covers it.\<close>

definition skyline_covers :: "int list \<Rightarrow> pareto_item set \<Rightarrow> pareto_item list \<Rightarrow> bool" where
  "skyline_covers dens seen skyline \<longleftrightarrow>
     set skyline = {i \<in> seen. \<forall>j \<in> seen. \<not> dominates_raw (snd j) (snd i) dens}
     \<and> (\<forall>i \<in> seen. i \<in> set skyline \<or> (\<exists>j \<in> set skyline. dominates_raw (snd j) (snd i) dens))"

lemma skyline_coversI:
  assumes "\<And>i. i \<in> set skyline \<longleftrightarrow> i \<in> seen \<and> (\<forall>j \<in> seen. \<not> dominates_raw (snd j) (snd i) dens)"
    "\<And>i. i \<in> seen \<Longrightarrow> i \<in> set skyline \<or> (\<exists>j \<in> set skyline. dominates_raw (snd j) (snd i) dens)"
  shows "skyline_covers dens seen skyline"
  unfolding skyline_covers_def using assms by blast

lemma skyline_step:
  assumes "skyline_covers dens seen skyline"
    "transp (\<lambda>v w. dominates_raw v w dens)" "\<forall>u. \<not> dominates_raw u u dens"
  shows "skyline_covers dens (insert i seen)
    (if list_ex (\<lambda>c. dominates_raw (snd c) (snd i) dens) skyline then skyline
     else filter (\<lambda>c. \<not> dominates_raw (snd i) (snd c) dens) skyline @ [i])"
proof -
  let ?B = "\<lambda>x y. dominates_raw (snd x) (snd y) dens"
  have mem: "\<And>s. s \<in> set skyline \<longleftrightarrow> s \<in> seen \<and> (\<forall>j \<in> seen. \<not> ?B j s)"
    and cov: "\<And>s. s \<in> seen \<Longrightarrow> s \<in> set skyline \<or> (\<exists>j \<in> set skyline. ?B j s)"
    using assms(1) unfolding skyline_covers_def by blast+
  have tr: "?B x y \<Longrightarrow> ?B y z \<Longrightarrow> ?B x z" for x y z using transpD [OF assms(2)] by blast
  show ?thesis
  proof (cases "list_ex (\<lambda>c. ?B c i) skyline")
    case True
    then obtain c where c: "c \<in> set skyline" "?B c i" by (auto simp: list_ex_iff)
    have no: "\<not> ?B i s" if "s \<in> set skyline" for s
    proof
      assume "?B i s"
      then have "?B c s" by (rule tr [OF c(2)])
      then show False using mem c(1) that by blast
    qed
    have "skyline_covers dens (insert i seen) skyline"
      by (rule skyline_coversI) (use mem no c cov in blast)+
    then show ?thesis using True by (simp only: if_True)
  next
    case False
    then have no: "\<not> ?B s i" if "s \<in> set skyline" for s using that by (auto simp: list_ex_iff)
    have no': "\<not> ?B j i" if "j \<in> seen" for j
    proof
      assume b: "?B j i"
      from cov [OF that] show False
      proof
        assume "j \<in> set skyline"
        then show False using no b by blast
      next
        assume "\<exists>k \<in> set skyline. ?B k j"
        then obtain k where "k \<in> set skyline" "?B k j" by blast
        then show False using no tr [of k j i] b by blast
      qed
    qed
    let ?new = "filter (\<lambda>c. \<not> ?B i c) skyline @ [i]"
    have irr: "\<not> ?B i i" using assms(3) by blast
    have mem': "s \<in> set ?new \<longleftrightarrow> s \<in> insert i seen \<and> (\<forall>j \<in> insert i seen. \<not> ?B j s)" for s
      using mem [of s] no' irr by auto
    have "skyline_covers dens (insert i seen) ?new"
    proof (rule skyline_coversI [OF mem'])
      fix s assume s: "s \<in> insert i seen"
      show "s \<in> set ?new \<or> (\<exists>j \<in> set ?new. ?B j s)"
      proof (cases "?B i s \<or> s = i")
        case True
        then show ?thesis by auto
      next
        case f: False
        then have "s \<in> set skyline \<or> (\<exists>j \<in> set skyline. ?B j s)" using s cov by blast
        then show ?thesis
        proof
          assume "\<exists>j \<in> set skyline. ?B j s"
          then obtain j where j: "j \<in> set skyline" "?B j s" by blast
          then have "\<not> ?B i j" using tr [of i j s] f by blast
          then have "j \<in> set ?new" using j(1) by simp
          then show ?thesis using j(2) by blast
        qed (use f in auto)
      qed
    qed
    then show ?thesis using False by (simp only: if_False)
  qed
qed

lemma skyline_of_covers:
  assumes "skyline_covers dens seen skyline"
    "transp (\<lambda>v w. dominates_raw v w dens)" "\<forall>u. \<not> dominates_raw u u dens"
  shows "skyline_covers dens (seen \<union> set items) (skyline_of dens items skyline)"
  using assms(1)
proof (induction items arbitrary: seen skyline)
  case (Cons i items)
  let ?next = "if list_ex (\<lambda>c. dominates_raw (snd c) (snd i) dens) skyline then skyline
     else filter (\<lambda>c. \<not> dominates_raw (snd i) (snd c) dens) skyline @ [i]"
  have "skyline_of dens (i # items) skyline = skyline_of dens items ?next" by simp
  moreover have "seen \<union> set (i # items) = insert i seen \<union> set items" by simp
  ultimately show ?case using Cons.IH [OF skyline_step [OF Cons.prems assms(2,3)], of i] by (simp only:)
qed simp

lemma skyline_of_distinct:
  "distinct (skyline @ items) \<Longrightarrow> distinct (skyline_of dens items skyline) \<and> set (skyline_of dens items skyline) \<subseteq> set skyline \<union> set items"
proof (induction items arbitrary: skyline)
  case (Cons i items)
  show ?case
    using Cons.IH [of skyline] Cons.IH [of "filter (\<lambda>c. \<not> dominates_raw (snd i) (snd c) dens) skyline @ [i]"] Cons.prems
    by auto
qed simp

lemma raw_skyline_eq:
  assumes "\<forall>d \<in> set dens. 0 \<le> d \<and> d < 1000000000" "length dens = 4" "distinct items"
  shows "sort (raw_skyline dens items) = sort (nondominated dens items)"
proof -
  obtain dg dp ds dm where dens: "dens = [dg, dp, ds, dm]"
    using assms(2) by (auto simp: numeral_eq_Suc length_Suc_conv)
  have ex: "\<forall>d \<in> set [dg, dp, ds, dm]. 0 \<le> d \<and> d < 1000000000" using assms(1) by (simp add: dens)
  have irr: "\<forall>u. \<not> dominates_raw u u dens" by (auto simp: dens exact_dominates [OF ex])
  have tr: "transp (\<lambda>v w. dominates_raw v w dens)"
    unfolding dens by (rule transpI) (rule dominates_transitive [OF ex])
  have "skyline_covers dens {} []" by (simp add: skyline_covers_def)
  from skyline_of_covers [OF this tr irr, of "sort_key value_order items"]
  have s: "set (raw_skyline dens items) = set (nondominated dens items)"
    by (auto simp: raw_skyline_def skyline_covers_def nondominated_def list_ex_iff)
  have d: "distinct (raw_skyline dens items)"
    using skyline_of_distinct [of "[]" "sort_key value_order items" dens] assms(3) by (simp add: raw_skyline_def)
  have d': "distinct (nondominated dens items)" using assms(3) by (simp add: nondominated_def)
  show ?thesis by (rule sorted_distinct_eq) (simp_all add: s d d')
qed

lemma small_field_denominators:
  assumes "n \<le> 6" "draws \<le> 4096"
  shows "\<forall>d \<in> set (raw_denominators n draws). 0 \<le> d \<and> d < 1000000000"
proof -
  have all: "\<forall>n \<in> set [0..<7]. 0 < credit_scale_of n \<and> credit_scale_of n \<le> 60" by code_simp
  have "n \<in> set [0..<7]" using assms(1) by simp
  then have s: "0 < credit_scale_of n" "credit_scale_of n \<le> 60" using all by blast+
  have "credit_scale_of n * int draws \<le> 60 * 4096" by (rule mult_mono) (use s assms in simp_all)
  then have "credit_scale_of n * int draws * int n \<le> 245760 * 6" by (intro mult_mono) (use s assms in simp_all)
  then show ?thesis using assms s by (simp add: raw_denominators_def)
qed

subsection \<open>Some sheet is never dominated\<close>

text \<open>Only the parity has a tolerance of one unit or more (from eleven entrants on), so dominance
  decreases the sum of the other objectives or keeps it and decreases the parity: it has no cycles,
  although it is not transitive.\<close>

definition dominance_rank :: "raw_objective \<Rightarrow> int \<times> int" where
  "dominance_rank v = (case v of (g, p, s, m) \<Rightarrow> (g + s + m, p))"

lemma dominates_rank:
  assumes "\<forall>d \<in> {dg, ds, dm}. 0 \<le> d \<and> d < 1000000000" "0 \<le> dp"
    "dominates_raw v w [dg, dp, ds, dm]"
  shows "dominance_rank v < dominance_rank w"
proof -
  obtain g p s m g' p' s' m' where vw: "v = (g, p, s, m)" "w = (g', p', s', m')" by (cases v; cases w)
  have par: "(p - p') * 1000000000 < - dp \<Longrightarrow> p < p'" unfolding left_diff_distrib using assms(2) by linarith
  have d: "0 \<le> dg \<and> dg < 1000000000" "0 \<le> ds \<and> ds < 1000000000" "0 \<le> dm \<and> dm < 1000000000"
    using assms(1) by simp_all
  show ?thesis
    using assms(3) par
    unfolding vw dominates_raw_simps no_tolerance [OF d(1)] no_tolerance [OF d(2)] no_tolerance [OF d(3)]
    by (auto simp: dominance_rank_def less_prod_def)
qed

lemma nondominated_nonempty:
  assumes "items \<noteq> []" "n \<le> 12" "draws \<le> 4096"
  shows "nondominated (raw_denominators n draws) items \<noteq> []"
proof -
  let ?key = "\<lambda>i. dominance_rank (snd i)"
  have "Min (?key ` set items) \<in> ?key ` set items" using assms(1) by (intro Min_in) auto
  then obtain x where x: "x \<in> set items" "Min (?key ` set items) = ?key x" by blast
  have le: "?key x \<le> ?key y" if "y \<in> set items" for y using that by (simp flip: x(2))
  have d: "\<forall>d \<in> {int n, int draws, int n}. 0 \<le> d \<and> d < 1000000000" using assms(2,3) by simp
  have p: "0 \<le> credit_scale_of n * int draws * int n"
    using small_denominators [OF assms(2,3)] by (simp add: raw_denominators_def)
  have "\<not> dominates_raw (snd y) (snd x) (raw_denominators n draws)" if "y \<in> set items" for y
    using dominates_rank [OF d p, of "snd y" "snd x"] le [OF that]
    by (auto simp: raw_denominators_def)
  then have "x \<in> set (nondominated (raw_denominators n draws) items)" using x(1) by (simp add: nondominated_def list_ex_iff)
  then show ?thesis by auto
qed

end
