(* ===== verification/Mark_Search.thy ===== *)
theory Mark_Search
  imports Pareto_Front
begin

section \<open>The search for sheets (domain/optimizer.py)\<close>

text \<open>
  The objectives as decimal fractions, the order in which the beam is kept, and the beam search of
  larger fields: rounds of neighbours of the beam, evaluated, added to the Pareto index, and cut to
  the beam width. The loops are bounded by the policy, so they are recursions on the number of
  rounds left.
\<close>

subsection \<open>OptimizerPolicy\<close>

record optimizer_policy =
  op_sample_count :: nat
  op_small_field_maximum :: nat
  op_small_field_radius :: int
  op_beam_width :: nat
  op_maximum_rounds :: nat
  op_parallel_workers :: nat
  op_pareto_tolerance :: string
  op_version :: string

definition optimizer_version :: string where "optimizer_version = ''fairness-frontier-v1''"

definition default_optimizer_policy :: optimizer_policy where
  "default_optimizer_policy = \<lparr>op_sample_count = 4096, op_small_field_maximum = 6, op_small_field_radius = 3,
     op_beam_width = 512, op_maximum_rounds = 128, op_parallel_workers = 8,
     op_pareto_tolerance = ''0.000000001'', op_version = optimizer_version\<rparr>"

definition mk_optimizer_policy :: "optimizer_policy \<Rightarrow> opt_error + optimizer_policy" where
  "mk_optimizer_policy p = bind_res (guards
     [(p \<noteq> default_optimizer_policy, Contract (ContractError ''optimizer policy differs from the frozen V3 bootstrap''))])
     (\<lambda>_. Inr p)"

subsection \<open>ObjectiveVector\<close>

record objective_vector =
  ov_gap :: string
  ov_parity :: string
  ov_spread :: string
  ov_movement :: string

definition objective_check :: "string \<Rightarrow> opt_error + string" where
  "objective_check s =
     bind_res (map_err Contract (canonical_decimal_string (PStr s))) (\<lambda>c.
     if dv (dec_of_string c) < 0 then Inl (Contract (ContractError ''optimizer objectives must be nonnegative'')) else Inr c)"

definition mk_objective_vector :: "string \<Rightarrow> string \<Rightarrow> string \<Rightarrow> string \<Rightarrow> opt_error + objective_vector" where
  "mk_objective_vector g p s m =
     bind_res (objective_check g) (\<lambda>g'. bind_res (objective_check p) (\<lambda>p'.
     bind_res (objective_check s) (\<lambda>s'. bind_res (objective_check m) (\<lambda>m'.
     Inr \<lparr>ov_gap = g', ov_parity = p', ov_spread = s', ov_movement = m'\<rparr>))))"

text \<open>\<open>values()\<close>.\<close>

definition ov_values :: "objective_vector \<Rightarrow> dec list" where
  "ov_values v = map dec_of_string [ov_gap v, ov_parity v, ov_spread v, ov_movement v]"

definition decimal_ratio :: "int \<Rightarrow> int \<Rightarrow> opt_error + string" where
  "decimal_ratio numerator denominator =
     map_err Contract (dec_string (dec_div 80 (dec_int numerator) (dec_int denominator)))"

definition materialize_raw_objective :: "raw_objective \<Rightarrow> nat \<Rightarrow> int \<Rightarrow> nat \<Rightarrow> opt_error + objective_vector" where
  "materialize_raw_objective v n parity_denominator draws =
     (case v of (g, p, s, m) \<Rightarrow>
       bind_res (decimal_ratio g (int n)) (\<lambda>g'. bind_res (decimal_ratio p parity_denominator) (\<lambda>p'.
       bind_res (decimal_ratio s (int draws)) (\<lambda>s'. bind_res (decimal_ratio m (int n)) (\<lambda>m'.
       mk_objective_vector g' p' s' m')))))"

definition materialize_frontier :: "pareto_item list \<Rightarrow> nat \<Rightarrow> nat \<Rightarrow> opt_error + (int list \<times> objective_vector) list" where
  "materialize_frontier skyline n draws =
     map_all (\<lambda>(marks, v). map_res (\<lambda>ov. (marks, ov))
       (materialize_raw_objective v n (credit_scale_of n * int draws * int n) draws)) (sort skyline)"

definition pareto_frontier_small :: "pareto_item list \<Rightarrow> nat \<Rightarrow> nat \<Rightarrow> opt_error + (int list \<times> objective_vector) list" where
  "pareto_frontier_small evaluated n draws =
     materialize_frontier (py_dict (raw_skyline (raw_denominators n draws) evaluated)) n draws"

subsection \<open>The order of the beam\<close>

text \<open>Python's \<open>min(..., key=...)\<close> of a nonempty sequence: the first of the least.\<close>

definition least_by :: "('a \<Rightarrow> 'k::linorder) \<Rightarrow> 'a list \<Rightarrow> 'a" where
  "least_by key xs = hd (sort_key key xs)"

definition sheet_distance :: "int list \<Rightarrow> int list \<Rightarrow> int" where
  "sheet_distance marks baseline = sum_list (map2 (\<lambda>a b. \<bar>a - b\<bar>) marks baseline)"

definition column_of :: "int list list \<Rightarrow> nat \<Rightarrow> int list" where
  "column_of rows column = map (\<lambda>row. row ! column) rows"

text \<open>Objectives scaled to a common denominator, so that the comparison of the normalized fractions is
  one of integers.\<close>

definition beam_matrix :: "int list list \<Rightarrow> int list list" where
  "beam_matrix rows =
     (let minima = map (\<lambda>c. Min (set (column_of rows c))) [0..<4];
          maxima = map (\<lambda>c. Max (set (column_of rows c))) [0..<4];
          denominators = map2 (-) maxima minima;
          shared = foldl (\<lambda>a d. if d \<noteq> 0 then a * d else a) 1 denominators;
          scales = map (\<lambda>d. if d = 0 then 0 else shared div d) denominators
      in map (\<lambda>row. map (\<lambda>c. (row ! c - minima ! c) * scales ! c) [0..<4]) rows)"

definition beam_key :: "int list list \<Rightarrow> pareto_item list \<Rightarrow> int list \<Rightarrow> nat \<Rightarrow> int \<times> int \<times> int \<times> int list" where
  "beam_key matrix frontier baseline i =
     (Max (set (matrix ! i)), sum_list (matrix ! i), sheet_distance (fst (frontier ! i)) baseline, fst (frontier ! i))"

definition beam_anchors :: "int list list \<Rightarrow> (nat \<Rightarrow> 'k::linorder) \<Rightarrow> nat list" where
  "beam_anchors matrix key =
     foldl (\<lambda>anchors c.
        let least = Min (set (column_of matrix c));
            anchor = least_by key (filter (\<lambda>i. matrix ! i ! c = least) [0..<length matrix])
        in if anchor \<in> set anchors then anchors else anchors @ [anchor]) [] [0..<4]"

definition normalized_beam :: "pareto_item list \<Rightarrow> int list \<Rightarrow> nat \<Rightarrow> int list list" where
  "normalized_beam frontier baseline width =
     (let matrix = beam_matrix (map (\<lambda>i. objective_list (snd i)) frontier);
          key = beam_key matrix frontier baseline;
          anchors = beam_anchors matrix key;
          ranked = sort_key key (filter (\<lambda>i. i \<notin> set anchors) [0..<length frontier])
      in map (\<lambda>i. fst (frontier ! i)) (take width (anchors @ ranked)))"

subsection \<open>The beam search\<close>

record beam_state =
  bs_evaluated :: "pareto_item list"
  bs_index :: pareto_index
  bs_beam :: "int list list"
  bs_generated :: nat
  bs_completed :: nat
  bs_cache :: mask_cache

definition beam_neighbours :: "int list \<Rightarrow> int \<Rightarrow> int \<Rightarrow> beam_state \<Rightarrow> int list list" where
  "beam_neighbours expected low high st =
     sort (remdups (filter (\<lambda>trial. trial \<notin> set (map fst (bs_evaluated st)) \<and> legal_sheet expected low high trial)
       (concat (map neighbours (bs_beam st)))))"

text \<open>One round on the neighbours that still fit the limit.\<close>

definition beam_round :: "eval_context \<Rightarrow> int \<Rightarrow> int list \<Rightarrow> nat \<Rightarrow> nat \<Rightarrow> int list list \<Rightarrow> beam_state \<Rightarrow> opt_error + beam_state" where
  "beam_round ctx low baseline width round_number ordered st =
     bind_res (evaluate_candidates ctx low True ordered (bs_cache st)) (\<lambda>(additions, cache).
     bind_res (index_add (bs_index st) additions) (\<lambda>idx.
     Inr \<lparr>bs_evaluated = foldl (\<lambda>d (k, v). AList.update k v d) (bs_evaluated st) additions,
          bs_index = idx, bs_beam = normalized_beam (raw_frontier idx) baseline width,
          bs_generated = bs_generated st + length ordered, bs_completed = round_number + 1, bs_cache = cache\<rparr>))"

fun beam_rounds :: "eval_context \<Rightarrow> int list \<Rightarrow> int \<Rightarrow> int \<Rightarrow> int list \<Rightarrow> nat \<Rightarrow> nat \<Rightarrow> nat \<Rightarrow> nat \<Rightarrow> beam_state \<Rightarrow> opt_error + beam_state" where
  "beam_rounds ctx expected low high baseline width limit round_number 0 st = Inr st"
| "beam_rounds ctx expected low high baseline width limit round_number (Suc left) st =
     (let ordered = beam_neighbours expected low high st;
          remaining = limit - length (bs_evaluated st) in
      if ordered = [] \<or> remaining = 0 then Inr st
      else bind_res (beam_round ctx low baseline width round_number (take remaining ordered) st) (\<lambda>st'.
        beam_rounds ctx expected low high baseline width limit (round_number + 1) left st'))"

record beam_result =
  br_evaluated :: "pareto_item list"
  br_generated :: nat
  br_rounds :: nat
  br_limit :: nat
  br_frontier :: "(int list \<times> objective_vector) list"

definition beam_search :: "int list \<Rightarrow> int list list \<Rightarrow> int list \<Rightarrow> int \<Rightarrow> int \<Rightarrow> optimizer_policy \<Rightarrow> opt_error + beam_result" where
  "beam_search expected columns baseline low high policy =
     (let n = length expected;
          round_limit = min (8 * n) (op_maximum_rounds policy);
          limit = 1 + round_limit * op_beam_width policy;
          ctx = compile_evaluation_context expected columns baseline;
          draws = length (hd columns) in
      bind_res (evaluate_candidates ctx low False [baseline] empty_cache) (\<lambda>(evaluated, cache).
      bind_res (index_add (new_index n draws) evaluated) (\<lambda>idx.
      bind_res (beam_rounds ctx expected low high baseline (op_beam_width policy) limit 0 round_limit
        \<lparr>bs_evaluated = evaluated, bs_index = idx, bs_beam = [baseline], bs_generated = 1, bs_completed = 0, bs_cache = cache\<rparr>) (\<lambda>st.
      bind_res (materialize_frontier (py_dict (raw_frontier (bs_index st))) n draws) (\<lambda>pairs.
      Inr \<lparr>br_evaluated = bs_evaluated st, br_generated = bs_generated st, br_rounds = bs_completed st,
           br_limit = limit, br_frontier = pairs\<rparr>)))))"

end
