(* ===== verification/Beam_Search.thy ===== *)
theory Beam_Search
  imports Mark_Search
begin

section \<open>The beam search ends within its budget\<close>

text \<open>
  Every objective of a sheet can be written, every sheet fits the index, and every round keeps the
  invariant: the sheets evaluated are the items of the index, all of them legal and within as many
  single steps of the baseline as there were rounds.
\<close>

subsection \<open>Every objective can be written\<close>

lemma canonical_decimal_string_idem:
  assumes "canonical_decimal_string v = Inr s"
  shows "canonical_decimal_string (PStr s) = Inr s"
proof -
  obtain d d' where d: "render_decimal d = Inr s" "decimal_of_value (PStr s) = Inr d'" "dec_value d' = dec_value d"
    using assms by (rule canonical_decimal_string_parse)
  have "render_decimal d' = render_decimal d" by (rule render_decimal_cong [OF d(3)])
  then show ?thesis using d by (simp add: canonical_decimal_string_def)
qed

lemma ratio_lead:
  assumes "0 < num" "num < 10 ^ 30" "0 < den" "den < 10 ^ 12"
  shows "- 12 \<le> lead_exp (of_int num / of_int den)" "lead_exp (of_int num / of_int den) \<le> 30"
proof -
  let ?x = "of_int num / of_int den :: rat"
  have d: "(0 :: rat) < of_int den" "(of_int den :: rat) < 10 ^ 12"
    using assms(3,4) of_int_less_iff [of den "10 ^ 12", where ?'a = rat] by simp_all
  have n: "(1 :: rat) \<le> of_int num" "(of_int num :: rat) < 10 ^ 30"
    using assms(1,2) of_int_less_iff [of num "10 ^ 30", where ?'a = rat] by simp_all
  have x: "0 < ?x" using d n by (simp add: zero_less_divide_iff)
  note sp = lead_exp_spec [OF x]
  have "p10 (- 12) \<le> 1 / of_int den" using d by (simp add: p10_def field_simps)
  also have "\<dots> \<le> ?x" using n d by (intro divide_right_mono) simp_all
  finally have lo: "p10 (- 12) \<le> ?x" .
  have "?x \<le> of_int num / 1" using d n assms(3) by (intro divide_left_mono) simp_all
  then have hi: "?x < p10 30" using n by (simp add: p10_def)
  show "- 12 \<le> lead_exp ?x"
  proof (rule ccontr)
    assume "\<not> ?thesis"
    then have "p10 (lead_exp ?x + 1) \<le> p10 (- 12)" by (intro p10_mono) simp
    then show False using sp lo by linarith
  qed
  show "lead_exp ?x \<le> 30"
  proof (rule ccontr)
    assume "\<not> ?thesis"
    then have "p10 30 \<le> p10 (lead_exp ?x)" by (intro p10_mono) simp
    then show False using sp hi by linarith
  qed
qed

lemma to_dec_positive: "0 < x \<Longrightarrow> dv (to_dec p x) = of_int (half_even (x / p10 (lead_exp x - (p - 1)))) * p10 (lead_exp x - (p - 1))"
  by (simp add: to_dec_def Let_def dv_def)

lemma decimal_ratio_ok:
  assumes "0 \<le> num" "num < 10 ^ 30" "0 < den" "den < 10 ^ 12"
  obtains s where "decimal_ratio num den = Inr s" "dec_string (to_dec 80 (of_int num / of_int den)) = Inr s"
proof -
  let ?x = "of_int num / of_int den :: rat"
  obtain s where s: "dec_string (to_dec 80 ?x) = Inr s"
  proof (cases "num = 0")
    case True
    then show thesis using that dec_string_ok [of "to_dec 80 ?x" 0 0 1 0] by (auto simp: p10_def)
  next
    case False
    then have x: "0 < ?x" "0 < num" using assms by (simp_all add: zero_less_divide_iff)
    define e where "e = lead_exp ?x - 79"
    have e: "- 91 \<le> e" "e \<le> 0" using ratio_lead [OF x(2) assms(2-4)] by (simp_all add: e_def)
    have dv: "dv (to_dec 80 ?x) = of_int (half_even (?x / p10 e)) * p10 e"
      using to_dec_positive [OF x(1), of 80] by (simp add: e_def)
    have "\<bar>half_even (?x / p10 e)\<bar> < 10 ^ 81"
    proof -
      have "dv (to_dec 80 ?x) \<le> p10 (80 + e)" using to_dec_decade [OF x(1), of 80] by (simp add: e_def add.commute)
      then have "of_int (half_even (?x / p10 e)) \<le> p10 80" unfolding dv p10_add by simp
      then have "(of_int (half_even (?x / p10 e)) :: rat) \<le> of_int (10 ^ 80)" by (simp add: p10_def)
      then have "half_even (?x / p10 e) \<le> 10 ^ 80" by (simp only: of_int_le_iff)
      moreover have "0 \<le> half_even (?x / p10 e)" using half_even_mono [OF less_imp_le [OF divide_pos_pos [OF x(1) p10_pos]], of e] by simp
      ultimately show ?thesis by simp
    qed
    from dec_string_ok [OF dv this, of 91] e show thesis using that by auto
  qed
  moreover have "decimal_ratio num den = Inr s" using s by (simp add: decimal_ratio_def dec_div_def)
  ultimately show thesis using that by blast
qed

lemma objective_check_ratio:
  assumes "dec_string (to_dec 80 (of_int num / of_int den)) = Inr s" "0 \<le> num" "0 < den"
  shows "objective_check s = Inr s"
proof -
  have "0 \<le> (of_int num / of_int den :: rat)" using assms(2,3) by simp
  then have "\<not> dv (dec_of_string s) < 0"
    using to_dec_nonneg [of "of_int num / of_int den" 80] dec_string_value [OF assms(1)] by simp
  then show ?thesis
    using canonical_decimal_string_idem [of "PDec (dec_py (to_dec 80 (of_int num / of_int den)))" s] assms(1)
    by (simp add: objective_check_def dec_string_def)
qed

definition ratio_text :: "int \<Rightarrow> int \<Rightarrow> string" where
  "ratio_text num den = projr (dec_string (to_dec 80 (of_int num / of_int den)))"

definition objective_texts :: "nat \<Rightarrow> nat \<Rightarrow> raw_objective \<Rightarrow> objective_vector" where
  "objective_texts n draws v = (case v of (g, p, s, m) \<Rightarrow>
     \<lparr>ov_gap = ratio_text g (int n), ov_parity = ratio_text p (credit_scale_of n * int draws * int n),
      ov_spread = ratio_text s (int draws), ov_movement = ratio_text m (int n)\<rparr>)"

lemma ratio_text_ok:
  assumes "0 \<le> num" "num < 10 ^ 30" "0 < den" "den < 10 ^ 12"
  shows "decimal_ratio num den = Inr (ratio_text num den)" "objective_check (ratio_text num den) = Inr (ratio_text num den)"
    "dec_string (to_dec 80 (of_int num / of_int den)) = Inr (ratio_text num den)"
proof -
  obtain s where s: "decimal_ratio num den = Inr s" "dec_string (to_dec 80 (of_int num / of_int den)) = Inr s"
    by (rule decimal_ratio_ok [OF assms])
  have t: "ratio_text num den = s" by (simp add: ratio_text_def s(2))
  show "decimal_ratio num den = Inr (ratio_text num den)" "objective_check (ratio_text num den) = Inr (ratio_text num den)"
    "dec_string (to_dec 80 (of_int num / of_int den)) = Inr (ratio_text num den)"
    unfolding t using s objective_check_ratio [OF s(2) assms(1,3)] by simp_all
qed

definition writable :: "raw_objective \<Rightarrow> bool" where
  "writable v \<longleftrightarrow> list_all (\<lambda>x. 0 \<le> x \<and> x < 10 ^ 30) (objective_list v)"

lemma materialize_ok:
  assumes "writable v" "0 < n" "n \<le> 12" "0 < draws" "draws \<le> 4096"
  shows "materialize_raw_objective v n (credit_scale_of n * int draws * int n) draws = Inr (objective_texts n draws v)"
proof -
  obtain g p s m where v: "v = (g, p, s, m)" by (cases v)
  have d: "\<forall>d \<in> set (raw_denominators n draws). 0 \<le> d \<and> d \<le> 2000000000" by (rule small_denominators [OF assms(3,5)])
  have sc: "0 < credit_scale_of n" using credit_scale_range [OF assms(3)] by simp
  have pd: "0 < credit_scale_of n * int draws * int n" "credit_scale_of n * int draws * int n < 10 ^ 12"
    "(0 :: int) < int n" "int n < 10 ^ 12" "(0 :: int) < int draws" "int draws < 10 ^ 12"
    using d sc assms by (simp_all add: raw_denominators_def)
  have w: "0 \<le> g" "g < 10 ^ 30" "0 \<le> p" "p < 10 ^ 30" "0 \<le> s" "s < 10 ^ 30" "0 \<le> m" "m < 10 ^ 30"
    using assms(1) by (simp_all add: writable_def v objective_list_def)
  show ?thesis
    using ratio_text_ok [OF w(1,2) pd(3,4)] ratio_text_ok [OF w(3,4) pd(1,2)]
      ratio_text_ok [OF w(5,6) pd(5,6)] ratio_text_ok [OF w(7,8) pd(3,4)]
    by (simp add: materialize_raw_objective_def v mk_objective_vector_def objective_texts_def)
qed

lemma materialize_frontier_ok:
  assumes "list_all (\<lambda>i. writable (snd i)) items" "0 < n" "n \<le> 12" "0 < draws" "draws \<le> 4096"
  shows "materialize_frontier items n draws = Inr (map (\<lambda>(marks, v). (marks, objective_texts n draws v)) (sort items))"
  unfolding materialize_frontier_def
proof (rule map_all_InrI)
  fix i assume "i \<in> set (sort items)"
  then have "writable (snd i)" using assms(1) by (simp add: list_all_iff)
  from materialize_ok [OF this assms(2-5)]
  show "(case i of (marks, v) \<Rightarrow> map_res (\<lambda>ov. (marks, ov)) (materialize_raw_objective v n (credit_scale_of n * int draws * int n) draws))
      = Inr (case i of (marks, v) \<Rightarrow> (marks, objective_texts n draws v))"
    by (cases i) simp
qed

subsection \<open>Every sheet fits the index\<close>

lemma sum_list_range:
  fixes xs :: "int list"
  assumes "\<And>x. x \<in> set xs \<Longrightarrow> lo \<le> x \<and> x \<le> hi"
  shows "int (length xs) * lo \<le> sum_list xs \<and> sum_list xs \<le> int (length xs) * hi"
  using assms by (induction xs) (auto simp: algebra_simps add_mono)

lemma gap_range:
  assumes "delays_ok n d" "length ideal = n" "n \<le> 12" "list_all (\<lambda>i. 0 \<le> i \<and> i \<le> 2000000000) ideal"
  shows "\<bar>sum_list (map2 (\<lambda>d i. (d - i) * (d - i)) d ideal) - sum_list (map (\<lambda>v. v * v) ideal)\<bar> \<le> 288230376151711744"
    "0 \<le> sum_list (map2 (\<lambda>d i. (d - i) * (d - i)) d ideal)"
    "sum_list (map2 (\<lambda>d i. (d - i) * (d - i)) d ideal) < 10 ^ 30"
proof -
  have len: "length d = n" using assms(1) by (simp add: delays_ok_def)
  have e: "0 \<le> x" "x \<le> 180000" "0 \<le> i" "i \<le> 2000000000" if "(x, i) \<in> set (zip d ideal)" for x i
    using that assms(1,4) by (auto simp: delays_ok_def list_all_iff dest: set_zip_leftD set_zip_rightD)
  let ?sq = "map2 (\<lambda>d i. (d - i) * (d - i)) d ideal"
  have sq: "0 \<le> y \<and> y \<le> 4001000000000000000" if "y \<in> set ?sq" for y
  proof -
    obtain x i where xi: "(x, i) \<in> set (zip d ideal)" "y = (x - i) * (x - i)" using \<open>y \<in> set ?sq\<close> by auto
    have "\<bar>x - i\<bar> * \<bar>x - i\<bar> \<le> 2000200000 * 2000200000" by (rule mult_mono) (use e [OF xi(1)] in simp_all)
    then show ?thesis by (simp add: xi(2))
  qed
  have s: "0 \<le> sum_list ?sq" "sum_list ?sq \<le> int n * 4001000000000000000"
    using sum_list_range [of ?sq 0 4001000000000000000, OF sq] len assms(2) by simp_all
  then show "0 \<le> sum_list ?sq" "sum_list ?sq < 10 ^ 30" using assms(3) by simp_all
  let ?df = "map2 (\<lambda>x i. x * x - 2 * x * i) d ideal"
  have df: "- 1000000000000000 \<le> y \<and> y \<le> 1000000000000000" if "y \<in> set ?df" for y
  proof -
    obtain x i where xi: "(x, i) \<in> set (zip d ideal)" "y = x * x - 2 * x * i" using \<open>y \<in> set ?df\<close> by auto
    have "x * x \<le> 180000 * 180000" "0 \<le> x * x" by (rule mult_mono) (use e [OF xi(1)] in simp_all)
    moreover have "x * i \<le> 180000 * 2000000000" "0 \<le> x * i"
      by (rule mult_mono) (use e [OF xi(1)] in simp_all)
    moreover have "2 * x * i = 2 * (x * i)" by simp
    ultimately show ?thesis unfolding xi(2) by linarith
  qed
  have split: "sum_list (map2 (\<lambda>d i. (d - i) * (d - i)) d ideal) - sum_list (map (\<lambda>v. v * v) ideal)
      = sum_list (map2 (\<lambda>x i. x * x - 2 * x * i) d ideal)"
    if "length d = length ideal" for d ideal :: "int list" using that
    by (induction d ideal rule: list_induct2) (simp_all add: algebra_simps)
  have "- 12000000000000000 \<le> sum_list ?df" "sum_list ?df \<le> 12000000000000000"
    using sum_list_range [of ?df "- 1000000000000000" 1000000000000000, OF df] len assms(2,3) by simp_all
  then show "\<bar>sum_list ?sq - sum_list (map (\<lambda>v. v * v) ideal)\<bar> \<le> 288230376151711744"
    unfolding split [OF trans [OF len assms(2) [symmetric]]] by linarith
qed

lemma raw_objectives_fit:
  assumes "context_ok ctx" "marks_ok (ec_entrants ctx) marks"
  shows "near_item (ec_ideal_square_sum ctx) (marks, raw_objectives ctx 3 marks)" "writable (raw_objectives ctx 3 marks)"
proof -
  let ?n = "ec_entrants ctx" and ?s = "ec_samples ctx" and ?scale = "ec_credit_scale ctx" and ?d = "sheet_delays 3 marks"
  have c: "samples_ok ?n ?s" "ec_draws ctx = length ?s" "?scale = credit_scale_of ?n"
    "length (ec_ideal_delays ctx) = ?n" "list_all (\<lambda>i. 0 \<le> i \<and> i \<le> 2000000000) (ec_ideal_delays ctx)"
    "ec_ideal_square_sum ctx = sum_list (map (\<lambda>v. v * v) (ec_ideal_delays ctx))"
    "length (ec_baseline ctx) = ?n" "list_all (\<lambda>b. 3 \<le> b \<and> b \<le> 183) (ec_baseline ctx)"
    using assms(1) by (simp_all add: context_ok_def Let_def)
  have n: "0 < ?n" "?n \<le> 12" "length ?s \<le> 4096" using c(1) by (simp_all add: samples_ok_def)
  have d: "delays_ok ?n ?d" by (rule delays_exact(2) [OF assms(2)])
  obtain g p s m where v: "raw_objectives ctx 3 marks = (g, p, s, m)" by (cases "raw_objectives ctx 3 marks")
  have gap: "\<bar>g - ec_ideal_square_sum ctx\<bar> \<le> 288230376151711744" "0 \<le> g" "g < 10 ^ 30"
    using gap_range [OF d c(4) n(2) c(5)] v by (simp_all add: raw_objectives_def Let_def c(6))
  have sc: "0 < ?scale" "?scale \<le> 27720" using credit_scale_range [OF n(2)] c(3) by simp_all
  have prod: "int (length ?s) * ?scale \<le> 4096 * 27720" by (rule mult_mono) (use n sc in simp_all)
  have par: "0 \<le> p \<and> p \<le> 2000000000"
  proof -
    let ?P = "map (\<lambda>c. \<bar>c * int ?n - ?scale * int (length ?s)\<bar>) (sheet_credits ?n ?scale ?s ?d)"
    have "p = Max (set ?P)" using v by (simp add: raw_objectives_def Let_def c(2))
    moreover have "set ?P \<noteq> {}" using n(1) by (simp add: sheet_credits_def)
    ultimately have "p \<in> set ?P" by (metis List.finite_set Max_in)
    then obtain x where x: "x \<in> set (sheet_credits ?n ?scale ?s ?d)" "p = \<bar>x * int ?n - ?scale * int (length ?s)\<bar>" by auto
    have xr: "0 \<le> x" "x \<le> 113541120"
      using sheet_credits_range [OF c(1) _ x(1)] sc(1) prod by auto
    have "x * int ?n \<le> 113541120 * 12" "0 \<le> x * int ?n" by (rule mult_mono) (use xr n(2) in simp_all)
    moreover have "0 \<le> ?scale * int (length ?s)" "?scale * int (length ?s) \<le> 113541120"
      using sc(1) prod by (simp_all add: mult.commute)
    ultimately show ?thesis unfolding x(2) by linarith
  qed
  have spr: "0 \<le> s \<and> s \<le> 10000000000000"
  proof -
    have s: "s = sum_list (map (finish_spread ?d) ?s)" using v by (simp add: raw_objectives_def Let_def)
    have "0 \<le> s \<and> s \<le> int (length ?s) * 2000180000"
      unfolding s using sum_list_range [of "map (finish_spread ?d) ?s" 0 2000180000] finish_spread_range [OF c(1) d] by auto
    moreover have "int (length ?s) * 2000180000 \<le> 4096 * 2000180000" using n(3) by simp
    ultimately show ?thesis by linarith
  qed
  have mov: "0 \<le> m \<and> m \<le> 2160"
  proof -
    let ?M = "map2 (\<lambda>m b. \<bar>m - b\<bar>) marks (ec_baseline ctx)"
    have m: "m = sum_list ?M" using v by (simp add: raw_objectives_def Let_def)
    have e: "0 \<le> y \<and> y \<le> 180" if "y \<in> set ?M" for y
    proof -
      obtain a b where ab: "(a, b) \<in> set (zip marks (ec_baseline ctx))" "y = \<bar>a - b\<bar>" using \<open>y \<in> set ?M\<close> by auto
      have "3 \<le> a" "a \<le> 183" "3 \<le> b" "b \<le> 183"
        using ab(1) assms(2) c(8) by (auto simp: marks_ok_def list_all_iff dest: set_zip_leftD set_zip_rightD)
      then show ?thesis by (simp add: ab(2))
    qed
    have len: "length ?M = ?n" using assms(2) c(7) by (simp add: marks_ok_def)
    have "int (length ?M) * 0 \<le> sum_list ?M \<and> sum_list ?M \<le> int (length ?M) * 180" by (rule sum_list_range) (rule e)
    then show ?thesis unfolding m len using n(2) by linarith
  qed
  show "near_item (ec_ideal_square_sum ctx) (marks, raw_objectives ctx 3 marks)"
    using gap(1) par spr mov by (simp add: near_item_def v small_value_def)
  show "writable (raw_objectives ctx 3 marks)"
    using gap par spr mov by (simp add: writable_def v objective_list_def)
qed

subsection \<open>The beam consists of evaluated sheets\<close>

lemma least_by_in:
  assumes "xs \<noteq> []"
  shows "least_by key xs \<in> set xs"
proof -
  have "sort_key key xs \<noteq> []" using assms by (metis length_0_conv length_sort)
  then show ?thesis unfolding least_by_def using hd_in_set [of "sort_key key xs"] by simp
qed

lemma beam_anchors_range: "length matrix \<noteq> 0 \<Longrightarrow> set (beam_anchors matrix key) \<subseteq> {..<length matrix}"
proof -
  assume ne: "length matrix \<noteq> 0"
  have anchor: "least_by key (filter (\<lambda>i. matrix ! i ! c = Min (set (column_of matrix c))) [0..<length matrix]) < length matrix" for c
  proof -
    have "Min (set (column_of matrix c)) \<in> set (column_of matrix c)"
      using ne by (intro Min_in) (auto simp: column_of_def)
    then obtain i where "i < length matrix" "matrix ! i ! c = Min (set (column_of matrix c))"
      by (auto simp: column_of_def in_set_conv_nth simp del: Min_in)
    then have "filter (\<lambda>i. matrix ! i ! c = Min (set (column_of matrix c))) [0..<length matrix] \<noteq> []"
      by (auto simp: filter_empty_conv)
    from least_by_in [OF this, of key] show ?thesis by simp
  qed
  have "set (foldl (\<lambda>anchors c. let least = Min (set (column_of matrix c));
      anchor = least_by key (filter (\<lambda>i. matrix ! i ! c = least) [0..<length matrix])
      in if anchor \<in> set anchors then anchors else anchors @ [anchor]) as cs) \<subseteq> {..<length matrix}"
    if "set as \<subseteq> {..<length matrix}" for as cs
    using that by (induction cs arbitrary: as) (auto simp: Let_def anchor)
  then show ?thesis by (simp add: beam_anchors_def)
qed

lemma length_beam_matrix [simp]: "length (beam_matrix rows) = length rows"
  by (simp add: beam_matrix_def Let_def)

lemma normalized_beam_subset:
  assumes "frontier \<noteq> []"
  shows "set (normalized_beam frontier baseline width) \<subseteq> set (map fst frontier)"
proof -
  let ?matrix = "beam_matrix (map (\<lambda>i. objective_list (snd i)) frontier)"
  let ?key = "beam_key ?matrix frontier baseline"
  have a: "set (beam_anchors ?matrix ?key) \<subseteq> {..<length frontier}"
    using beam_anchors_range [of ?matrix ?key] assms by simp
  define anchors where "anchors = beam_anchors ?matrix ?key"
  define ranked where "ranked = sort_key ?key (filter (\<lambda>i. i \<notin> set anchors) [0..<length frontier])"
  have beam: "normalized_beam frontier baseline width = map (\<lambda>i. fst (frontier ! i)) (take width (anchors @ ranked))"
    by (simp add: normalized_beam_def Let_def anchors_def ranked_def)
  have "set ranked \<subseteq> {..<length frontier}" by (auto simp: ranked_def)
  then have r: "set (anchors @ ranked) \<subseteq> {..<length frontier}" using a by (simp add: anchors_def)
  show ?thesis
  proof
    fix x assume "x \<in> set (normalized_beam frontier baseline width)"
    then obtain i where i: "i \<in> set (take width (anchors @ ranked))" "x = fst (frontier ! i)"
      unfolding beam set_map by blast
    then have "i < length frontier" using in_set_takeD [OF i(1)] r by blast
    then show "x \<in> set (map fst frontier)" unfolding i(2) by simp
  qed
qed

lemma normalized_beam_width: "length (normalized_beam frontier baseline width) \<le> width"
  by (simp add: normalized_beam_def Let_def)

subsection \<open>Neighbours\<close>

lemma distance_step:
  assumes "length m = length b" "i < length m" "\<bar>x - m ! i\<bar> \<le> 1"
  shows "sheet_distance (m[i := x]) b \<le> sheet_distance m b + 1"
  using assms
proof (induction m b arbitrary: i rule: list_induct2)
  case (Cons a m c b)
  show ?case
  proof (cases i)
    case 0
    then show ?thesis using Cons.prems by (simp add: sheet_distance_def)
  next
    case (Suc j)
    then show ?thesis using Cons by (simp add: sheet_distance_def)
  qed
qed simp

lemma neighbours_step:
  assumes "t \<in> set (neighbours m)" "length m = length b"
  shows "length t = length m" "sheet_distance t b \<le> sheet_distance m b + 1"
proof -
  obtain i x where t: "i < length m" "t = m[i := x]" "\<bar>x - m ! i\<bar> \<le> 1"
    using assms(1) by (auto simp: neighbours_def)
  show "length t = length m" by (simp add: t(2))
  show "sheet_distance t b \<le> sheet_distance m b + 1"
    unfolding t(2) by (rule distance_step [OF assms(2) t(1,3)])
qed

lemma beam_neighbours_facts:
  assumes "t \<in> set (beam_neighbours expected low high st)"
    "\<And>m. m \<in> set (bs_beam st) \<Longrightarrow> fair_sheet expected low high m" "expected \<noteq> []" "length baseline = length expected"
  shows "t \<notin> set (map fst (bs_evaluated st))" "fair_sheet expected low high t"
    "\<exists>m \<in> set (bs_beam st). sheet_distance t baseline \<le> sheet_distance m baseline + 1"
proof -
  obtain m where m: "m \<in> set (bs_beam st)" "t \<in> set (neighbours m)"
    "t \<notin> set (map fst (bs_evaluated st))" "legal_sheet expected low high t"
    using assms(1) by (auto simp: beam_neighbours_def)
  have len: "length m = length expected" using assms(2) [OF m(1)] by (simp add: fair_sheet_def)
  note st = neighbours_step [OF m(2), of baseline]
  have "length t = length expected" "t \<noteq> []" using st(1) len assms(3,4) by auto
  from legal_sheet_fair [OF this] m(4) show "fair_sheet expected low high t" by blast
  show "t \<notin> set (map fst (bs_evaluated st))" by (rule m(3))
  show "\<exists>m \<in> set (bs_beam st). sheet_distance t baseline \<le> sheet_distance m baseline + 1"
    using m(1) st(2) len assms(4) by auto
qed

lemma beam_neighbours_distinct: "distinct (beam_neighbours expected low high st)"
  by (simp add: beam_neighbours_def)

subsection \<open>Every round keeps the invariant\<close>

definition beam_ok :: "eval_context \<Rightarrow> int list \<Rightarrow> int \<Rightarrow> int list \<Rightarrow> int list list \<Rightarrow> beam_state \<Rightarrow> bool" where
  "beam_ok ctx expected high baseline ms st \<longleftrightarrow>
     bs_evaluated st = map (\<lambda>m. (m, raw_objectives ctx 3 m)) ms \<and> distinct ms \<and> baseline \<in> set ms
     \<and> (\<forall>m \<in> set ms. fair_sheet expected 3 high m \<and> sheet_distance m baseline \<le> int (bs_completed st))
     \<and> set (bs_beam st) \<subseteq> set ms \<and> bs_generated st = length ms
     \<and> px_items (bs_index st) = bs_evaluated st
     \<and> index_ok (ec_entrants ctx) (ec_draws ctx) (ec_ideal_square_sum ctx) (bs_index st)
     \<and> cache_ok (ec_samples ctx) (full_mask (ec_draws ctx)) (bs_cache st)"

lemma dict_update_distinct:
  "distinct (map fst (d @ items)) \<Longrightarrow> foldl (\<lambda>d (k, v). AList.update k v d) d items = d @ items"
proof (induction items arbitrary: d)
  case (Cons p items)
  obtain k v where p: "p = (k, v)" by (cases p)
  have "AList.update k v d = d @ [(k, v)]" using Cons.prems by (intro update_new) (auto simp: p)
  then show ?case using Cons.IH [of "d @ [(k, v)]"] Cons.prems by (simp add: p)
qed simp

lemma fair_marks_ok: "fair_sheet expected 3 high m \<Longrightarrow> high \<le> 183 \<Longrightarrow> marks_ok (length expected) m"
  by (auto simp: fair_sheet_def marks_ok_def list_all_iff)

lemma map_fst_pair [simp]: "map (fst \<circ> (\<lambda>m. (m, f m))) xs = xs"
  by (simp add: comp_def)

lemma beam_round_ok:
  assumes "context_ok ctx" "ec_entrants ctx = length expected" "high \<le> 183" "beam_ok ctx expected high baseline ms st"
    "length baseline = length expected" "ordered = take k (beam_neighbours expected 3 high st)"
  obtains st' where "beam_round ctx 3 baseline width (bs_completed st) ordered st = Inr st'"
    "beam_ok ctx expected high baseline (ms @ ordered) st'" "bs_completed st' = bs_completed st + 1"
proof -
  let ?v = "\<lambda>m. (m, raw_objectives ctx 3 m)"
  have inv: "bs_evaluated st = map ?v ms" "distinct ms" "baseline \<in> set ms"
    "\<And>m. m \<in> set ms \<Longrightarrow> fair_sheet expected 3 high m \<and> sheet_distance m baseline \<le> int (bs_completed st)"
    "set (bs_beam st) \<subseteq> set ms" "bs_generated st = length ms" "px_items (bs_index st) = bs_evaluated st"
    "index_ok (ec_entrants ctx) (ec_draws ctx) (ec_ideal_square_sum ctx) (bs_index st)"
    "cache_ok (ec_samples ctx) (full_mask (ec_draws ctx)) (bs_cache st)"
    using assms(4) by (simp_all add: beam_ok_def)
  have dims: "0 < ec_entrants ctx" "ec_entrants ctx \<le> 12" "ec_draws ctx \<le> 4096"
    using assms(1) by (auto simp: context_ok_def Let_def samples_ok_def)
  have ne: "expected \<noteq> []" using dims(1) assms(2) by auto
  have nb: "t \<notin> set ms" "fair_sheet expected 3 high t" "sheet_distance t baseline \<le> int (bs_completed st) + 1"
    if "t \<in> set ordered" for t
  proof -
    have t: "t \<in> set (beam_neighbours expected 3 high st)" using that assms(6) by (auto dest: in_set_takeD)
    have "fair_sheet expected 3 high m" if "m \<in> set (bs_beam st)" for m using inv(4,5) that by blast
    note f = beam_neighbours_facts [OF t this ne assms(5)]
    show "t \<notin> set ms" using f(1) by (simp add: inv(1))
    show "fair_sheet expected 3 high t" by (rule f(2))
    show "sheet_distance t baseline \<le> int (bs_completed st) + 1" using f(3) inv(4,5) by fastforce
  qed
  have dist: "distinct ordered" unfolding assms(6) by (rule distinct_take [OF beam_neighbours_distinct])
  have marks: "list_all (marks_ok (ec_entrants ctx)) ordered"
    using nb(2) fair_marks_ok [OF _ assms(3)] by (simp add: list_all_iff assms(2))
  obtain cache where ev: "evaluate_candidates ctx 3 True ordered (bs_cache st) = Inr (map ?v ordered, cache)"
    "cache_ok (ec_samples ctx) (full_mask (ec_draws ctx)) cache"
    by (rule evaluate_candidates_exact [OF assms(1) marks dist inv(9)])
  have new: "distinct (map fst (map ?v ms @ map ?v ordered))" using inv(2) dist nb(1) by auto
  have near: "list_all (near_item (ec_ideal_square_sum ctx)) (map ?v ordered)"
    using marks raw_objectives_fit(1) [OF assms(1)] by (auto simp: list_all_iff)
  obtain idx where idx: "index_add (bs_index st) (map ?v ordered) = Inr idx"
    "index_ok (ec_entrants ctx) (ec_draws ctx) (ec_ideal_square_sum ctx) idx"
    "px_items idx = px_items (bs_index st) @ map ?v ordered"
    by (rule index_add_ok [OF inv(8) dims(2,3) near]) (use new in \<open>simp_all only: inv(1,7)\<close>)
  have items: "px_items idx = map ?v (ms @ ordered)" by (simp add: idx(3) inv(1,7))
  have fr: "raw_frontier idx = sort (nondominated (raw_denominators (ec_entrants ctx) (ec_draws ctx)) (px_items idx))"
    by (rule raw_frontier_eq [OF idx(2)])
  have "px_items idx \<noteq> []" using inv(3) by (auto simp: items)
  then have "nondominated (raw_denominators (ec_entrants ctx) (ec_draws ctx)) (px_items idx) \<noteq> []"
    by (rule nondominated_nonempty [OF _ dims(2,3)])
  then have fne: "raw_frontier idx \<noteq> []" unfolding fr by (metis length_0_conv length_sort)
  have "set (raw_frontier idx) \<subseteq> set (px_items idx)" unfolding fr by (auto simp: nondominated_def)
  then have "set (map fst (raw_frontier idx)) \<subseteq> set (ms @ ordered)" by (auto simp: items)
  then have beam: "set (normalized_beam (raw_frontier idx) baseline width) \<subseteq> set (ms @ ordered)"
    using normalized_beam_subset [OF fne] by blast
  let ?st = "\<lparr>bs_evaluated = map ?v (ms @ ordered), bs_index = idx, bs_beam = normalized_beam (raw_frontier idx) baseline width,
    bs_generated = bs_generated st + length ordered, bs_completed = bs_completed st + 1, bs_cache = cache\<rparr>"
  have up: "foldl (\<lambda>d (k, v). AList.update k v d) (bs_evaluated st) (map ?v ordered) = map ?v (ms @ ordered)"
    unfolding inv(1) by (subst dict_update_distinct [OF new]) simp
  have eq: "beam_round ctx 3 baseline width (bs_completed st) ordered st = Inr ?st"
    unfolding beam_round_def ev(1) bind_res.simps prod.case idx(1) up ..
  have "beam_ok ctx expected high baseline (ms @ ordered) ?st"
    unfolding beam_ok_def using inv(2-4,6) nb dist idx(2) ev(2) beam items by (fastforce simp del: map_append)
  then show thesis using eq that by force
qed

subsection \<open>The search\<close>

text \<open>It stops only when the rounds are used up, the budget is used up, or every legal neighbour of the
  beam has been evaluated.\<close>

lemma beam_rounds_ok:
  assumes "context_ok ctx" "ec_entrants ctx = length expected" "high \<le> 183" "length baseline = length expected"
    "beam_ok ctx expected high baseline ms st" "length ms \<le> limit"
  obtains ms' st' where
    "beam_rounds ctx expected 3 high baseline width limit (bs_completed st) left st = Inr st'"
    "beam_ok ctx expected high baseline (ms @ ms') st'" "bs_completed st' \<le> bs_completed st + left" "length (ms @ ms') \<le> limit"
    "bs_completed st' = bs_completed st + left \<or> length (ms @ ms') = limit \<or> beam_neighbours expected 3 high st' = []"
  using assms(5,6)
proof (induction left arbitrary: ms st thesis)
  case 0
  show ?case by (rule 0(1) [of st "[]"]) (use 0 in simp_all)
next
  case (Suc left)
  let ?ordered = "beam_neighbours expected 3 high st" and ?remaining = "limit - length ms"
  have ev: "length (bs_evaluated st) = length ms" using Suc.prems(2) by (simp add: beam_ok_def)
  show ?case
  proof (cases "?ordered = [] \<or> ?remaining = 0")
    case True
    have stop: "beam_rounds ctx expected 3 high baseline width limit (bs_completed st) (Suc left) st = Inr st"
      using True by (simp add: ev Let_def)
    show ?thesis by (rule Suc.prems(1) [of st "[]", OF stop]) (use Suc.prems(2,3) True in auto)
  next
    case False
    obtain st1 where 1: "beam_round ctx 3 baseline width (bs_completed st) (take ?remaining ?ordered) st = Inr st1"
      "beam_ok ctx expected high baseline (ms @ take ?remaining ?ordered) st1" "bs_completed st1 = bs_completed st + 1"
      by (rule beam_round_ok [OF assms(1-3) Suc.prems(2) assms(4) refl])
    have lim: "length (ms @ take ?remaining ?ordered) \<le> limit" using Suc.prems(3) by simp
    obtain ms' st' where 2: "beam_rounds ctx expected 3 high baseline width limit (bs_completed st1) left st1 = Inr st'"
      "beam_ok ctx expected high baseline ((ms @ take ?remaining ?ordered) @ ms') st'"
      "bs_completed st' \<le> bs_completed st1 + left" "length ((ms @ take ?remaining ?ordered) @ ms') \<le> limit"
      "bs_completed st' = bs_completed st1 + left \<or> length ((ms @ take ?remaining ?ordered) @ ms') = limit
        \<or> beam_neighbours expected 3 high st' = []"
      by (rule Suc.IH [OF _ 1(2) lim])
    have go: "beam_rounds ctx expected 3 high baseline width limit (bs_completed st) (Suc left) st = Inr st'"
      using False 1(1,3) 2(1) by (simp add: ev Let_def)
    show ?thesis
      by (rule Suc.prems(1) [of st' "take ?remaining ?ordered @ ms'", OF go]) (use 1(3) 2 in auto)
  qed
qed

definition search_frontier :: "nat \<Rightarrow> nat \<Rightarrow> pareto_item list \<Rightarrow> (int list \<times> objective_vector) list" where
  "search_frontier n draws items =
     map (\<lambda>(marks, v). (marks, objective_texts n draws v)) (sort (nondominated (raw_denominators n draws) items))"

lemma sort_idem: "sort (sort xs) = sort xs"
  by (simp add: sorted_sort_id)

lemma beam_search_ok:
  assumes "columns_ok expected columns" "fair_sheet expected 3 high baseline" "high \<le> 183" "hd columns \<noteq> []"
  obtains ms r where
    "beam_search expected columns baseline 3 high policy = Inr r"
    "br_evaluated r = map (\<lambda>m. (m, raw_objectives (compile_evaluation_context expected columns baseline) 3 m)) ms"
    "distinct ms" "baseline \<in> set ms"
    "\<And>m. m \<in> set ms \<Longrightarrow> fair_sheet expected 3 high m \<and> sheet_distance m baseline \<le> int (br_rounds r)"
    "br_generated r = length ms" "length ms \<le> br_limit r"
    "br_rounds r \<le> min (8 * length expected) (op_maximum_rounds policy)"
    "br_limit r = 1 + min (8 * length expected) (op_maximum_rounds policy) * op_beam_width policy"
    "br_frontier r = search_frontier (length expected) (length (hd columns)) (br_evaluated r)"
proof -
  let ?n = "length expected" and ?draws = "length (hd columns)"
  let ?ctx = "compile_evaluation_context expected columns baseline"
  let ?v = "\<lambda>m. (m, raw_objectives ?ctx 3 m)"
  let ?rl = "min (8 * ?n) (op_maximum_rounds policy)"
  let ?limit = "1 + ?rl * op_beam_width policy"
  have lenb: "length baseline = ?n" using assms(2) by (simp add: fair_sheet_def)
  have mk: "marks_ok ?n baseline" by (rule fair_marks_ok [OF assms(2,3)])
  have ctx: "context_ok ?ctx"
    by (rule compiled_context_ok [OF assms(1) lenb]) (use mk in \<open>simp add: marks_ok_def\<close>)
  have en: "ec_entrants ?ctx = ?n" by (simp add: compile_evaluation_context_def Let_def)
  have dr: "ec_draws ?ctx = ?draws"
    using assms(1) by (cases columns) (auto simp: compile_evaluation_context_def Let_def transpose_samples_def columns_ok_def)
  have dims: "0 < ?n" "?n \<le> 12" "0 < ?draws" "?draws \<le> 4096"
    using assms(1,4) by (cases columns; auto simp: columns_ok_def)+
  obtain cache where ev: "evaluate_candidates ?ctx 3 False [baseline] empty_cache = Inr (map ?v [baseline], cache)"
    "cache_ok (ec_samples ?ctx) (full_mask (ec_draws ?ctx)) cache"
    by (rule evaluate_candidates_exact [OF ctx, of "[baseline]" empty_cache False])
      (use mk en in \<open>simp_all add: cache_ok_def empty_cache_def\<close>)
  have near: "list_all (near_item (ec_ideal_square_sum ?ctx)) (map ?v [baseline])"
    using raw_objectives_fit(1) [OF ctx] mk en by simp
  obtain idx where idx: "index_add (new_index ?n ?draws) (map ?v [baseline]) = Inr idx"
    "index_ok ?n ?draws (ec_ideal_square_sum ?ctx) idx" "px_items idx = px_items (new_index ?n ?draws) @ map ?v [baseline]"
    by (rule index_add_ok [OF new_index_ok dims(2,4) near]) (simp_all add: new_index_def Let_def)
  let ?st = "\<lparr>bs_evaluated = map ?v [baseline], bs_index = idx, bs_beam = [baseline], bs_generated = 1, bs_completed = 0, bs_cache = cache\<rparr>"
  have "sheet_distance m m = 0" for m by (induction m) (simp_all add: sheet_distance_def)
  then have inv: "beam_ok ?ctx expected high baseline [baseline] ?st"
    using assms(2) ev(2) idx(2,3) en dr by (simp add: beam_ok_def new_index_def Let_def)
  have lim: "length [baseline] \<le> ?limit" by simp
  obtain ms' st' where run: "beam_rounds ?ctx expected 3 high baseline (op_beam_width policy) ?limit (bs_completed ?st) ?rl ?st = Inr st'"
    and inv': "beam_ok ?ctx expected high baseline ([baseline] @ ms') st'"
    and bounds: "bs_completed st' \<le> bs_completed ?st + ?rl" "length ([baseline] @ ms') \<le> ?limit"
    by (rule beam_rounds_ok [OF ctx en assms(3) lenb inv lim])
  let ?ms = "[baseline] @ ms'" and ?dens = "raw_denominators ?n ?draws"
  have i: "bs_evaluated st' = map ?v ?ms" "distinct ?ms"
    "\<And>m. m \<in> set ?ms \<Longrightarrow> fair_sheet expected 3 high m \<and> sheet_distance m baseline \<le> int (bs_completed st')"
    "bs_generated st' = length ?ms" "px_items (bs_index st') = bs_evaluated st'"
    "index_ok ?n ?draws (ec_ideal_square_sum ?ctx) (bs_index st')"
    using inv' by (auto simp: beam_ok_def en dr)
  have fr: "raw_frontier (bs_index st') = sort (nondominated ?dens (bs_evaluated st'))"
    using raw_frontier_eq [OF i(6)] by (simp add: i(5))
  have "distinct (map fst (bs_evaluated st'))" using i(2) by (simp add: i(1))
  then have "distinct (map fst (nondominated ?dens (bs_evaluated st')))" unfolding nondominated_def by (rule distinct_map_filter)
  then have dict: "py_dict (raw_frontier (bs_index st')) = raw_frontier (bs_index st')"
    unfolding fr by (intro py_dict_distinct) (simp add: distinct_map)
  have wr: "list_all (\<lambda>i. writable (snd i)) (raw_frontier (bs_index st'))"
  proof -
    have "writable (raw_objectives ?ctx 3 m)" if "m \<in> set ?ms" for m
      using raw_objectives_fit(2) [OF ctx] fair_marks_ok [OF _ assms(3)] i(3) [OF that] en by simp
    then show ?thesis unfolding fr i(1) by (auto simp: list_all_iff nondominated_def)
  qed
  have mat: "materialize_frontier (py_dict (raw_frontier (bs_index st'))) ?n ?draws = Inr (search_frontier ?n ?draws (bs_evaluated st'))"
    using materialize_frontier_ok [OF wr dims] by (simp only: dict) (simp only: search_frontier_def fr sort_idem)
  let ?r = "\<lparr>br_evaluated = bs_evaluated st', br_generated = bs_generated st', br_rounds = bs_completed st', br_limit = ?limit,
    br_frontier = search_frontier ?n ?draws (bs_evaluated st')\<rparr>"
  have run': "beam_rounds ?ctx expected 3 high baseline (op_beam_width policy) ?limit 0 ?rl ?st = Inr st'" using run by simp
  have "beam_search expected columns baseline 3 high policy = Inr ?r"
    unfolding beam_search_def Let_def ev(1) bind_res.simps prod.case idx(1) run' mat ..
  then show thesis by (rule that [of ?r ?ms]) (use i bounds in auto)
qed

end
