(* ===== verification/Chim_Selection.thy ===== *)
theory Chim_Selection
  imports Beam_Search
begin

section \<open>The choice of one sheet of the frontier (domain/optimizer.py)\<close>

text \<open>
  \<open>_select_chim_exact\<close> normalizes the objectives of the frontier, takes the best sheet of every
  objective as an anchor, and measures how far every sheet lies from the plane through the anchors
  towards the ideal point (the convex hull of individual minima). The normal of the plane comes from
  the null space of the differences of the anchors, by Jacobi rotations of their Gram matrix in
  decimal arithmetic of 80 digits. Of the sheets that improve on the baseline the farthest is chosen.

  The divisors of the code are never zero (lemmas \<open>..._divisor\<close>), so division is the total
  \<open>dec_div\<close>. The loops are folds in the order of the code.
\<close>

abbreviation dadd :: "dec \<Rightarrow> dec \<Rightarrow> dec" where "dadd \<equiv> dec_add 80"
abbreviation dsub :: "dec \<Rightarrow> dec \<Rightarrow> dec" where "dsub \<equiv> dec_sub 80"
abbreviation dmul :: "dec \<Rightarrow> dec \<Rightarrow> dec" where "dmul \<equiv> dec_mul 80"
abbreviation ddiv :: "dec \<Rightarrow> dec \<Rightarrow> dec" where "ddiv \<equiv> dec_div 80"

abbreviation dzero :: dec where "dzero \<equiv> Dc 0 0"
abbreviation dunit :: dec where "dunit \<equiv> Dc 1 0"

text \<open>\<open>sum\<close>, \<open>min\<close> and \<open>max\<close> of decimals.\<close>

definition dec_sum :: "dec list \<Rightarrow> dec" where "dec_sum xs = foldl dadd dzero xs"
definition dec_min :: "dec list \<Rightarrow> dec" where "dec_min xs = foldl (\<lambda>a b. if dec_less b a then b else a) (hd xs) (tl xs)"
definition dec_max :: "dec list \<Rightarrow> dec" where "dec_max xs = foldl (\<lambda>a b. if dec_less a b then b else a) (hd xs) (tl xs)"

definition dec_dot :: "dec list \<Rightarrow> dec list \<Rightarrow> dec" where "dec_dot xs ys = dec_sum (map2 dmul xs ys)"

subsection \<open>The null space\<close>

definition jacobi_threshold :: dec where "jacobi_threshold = Dc 1 (- 60)"

text \<open>One rotation of the pair \<open>left\<close>, \<open>right\<close>: the columns, then the rows of the Gram matrix, and the
  columns of the vectors.\<close>

definition rotated :: "dec \<Rightarrow> dec \<Rightarrow> dec \<Rightarrow> dec \<Rightarrow> dec \<times> dec" where
  "rotated cosine sine a b = (dsub (dmul cosine a) (dmul sine b), dadd (dmul sine a) (dmul cosine b))"

definition rotate_columns :: "nat \<Rightarrow> nat \<Rightarrow> dec \<Rightarrow> dec \<Rightarrow> dec list list \<Rightarrow> dec list list" where
  "rotate_columns left right cosine sine rows =
     map (\<lambda>row. case rotated cosine sine (row ! left) (row ! right) of (a, b) \<Rightarrow> row[left := a, right := b]) rows"

definition rotate_rows :: "nat \<Rightarrow> nat \<Rightarrow> dec \<Rightarrow> dec \<Rightarrow> dec list list \<Rightarrow> dec list list" where
  "rotate_rows left right cosine sine rows =
     rows[left := map2 (\<lambda>a b. fst (rotated cosine sine a b)) (rows ! left) (rows ! right),
          right := map2 (\<lambda>a b. snd (rotated cosine sine a b)) (rows ! left) (rows ! right)]"

definition jacobi_tangent :: "dec \<Rightarrow> dec" where
  "jacobi_tangent tau = ddiv (if 0 \<le> dv tau then dunit else Dc (- 1) 0)
     (dadd (dec_abs 80 tau) (dec_sqrt 80 (dadd dunit (dmul tau tau))))"

definition jacobi_step :: "nat \<Rightarrow> nat \<Rightarrow> dec list list \<times> dec list list \<Rightarrow> dec list list \<times> dec list list" where
  "jacobi_step left right gv =
     (let (gram, vectors) = gv; off = gram ! left ! right in
      if dec_le (dec_abs 80 off) jacobi_threshold then gv
      else (let tau = ddiv (dsub (gram ! right ! right) (gram ! left ! left)) (dmul (Dc 2 0) off);
                tangent = jacobi_tangent tau;
                cosine = ddiv dunit (dec_sqrt 80 (dadd dunit (dmul tangent tangent)));
                sine = dmul tangent cosine
            in (rotate_rows left right cosine sine (rotate_columns left right cosine sine gram),
                rotate_columns left right cosine sine vectors)))"

definition jacobi_pairs :: "nat \<Rightarrow> (nat \<times> nat) list" where
  "jacobi_pairs width = [(l, r). l \<leftarrow> [0..<width - 1], r \<leftarrow> [l + 1..<width]]"

definition jacobi_sweeps :: nat where "jacobi_sweeps = 96"

definition gram_matrix :: "dec list list \<Rightarrow> nat \<Rightarrow> dec list list" where
  "gram_matrix rows width =
     map (\<lambda>l. map (\<lambda>r. dec_sum (map (\<lambda>row. dmul (row ! l) (row ! r)) rows)) [0..<width]) [0..<width]"

definition identity_matrix :: "nat \<Rightarrow> dec list list" where
  "identity_matrix width = map (\<lambda>r. map (\<lambda>c. if r = c then dunit else dzero) [0..<width]) [0..<width]"

definition jacobi :: "dec list list \<Rightarrow> nat \<Rightarrow> dec list list \<times> dec list list" where
  "jacobi rows width = foldl (\<lambda>gv (l, r). jacobi_step l r gv) (gram_matrix rows width, identity_matrix width)
     (concat (replicate jacobi_sweeps (jacobi_pairs width)))"

text \<open>The sign convention of a basis vector.\<close>

definition oriented :: "dec list \<Rightarrow> dec list" where
  "oriented vector =
     (let first = (case find (\<lambda>v. dec_less jacobi_threshold (dec_abs 80 v)) vector of Some v \<Rightarrow> v | None \<Rightarrow> dunit);
          multiplier = ddiv (dec_abs 80 first) first
      in map (dmul multiplier) vector)"

definition svd_nullspace :: "dec list list \<Rightarrow> nat \<Rightarrow> dec list list" where
  "svd_nullspace rows width =
     (let (gram, vectors) = jacobi rows width;
          value = (\<lambda>i. dec_abs 80 (gram ! i ! i));
          order = sort_key (\<lambda>i. (dv (value i), i)) [0..<width];
          scale = (if width = 0 then dzero else dec_max (map value order));
          tolerance = dec_max [Dc 1 (- 50), dmul scale (Dc 1 (- 45))];
          null = filter (\<lambda>i. dec_le (value i) tolerance) order
      in map (\<lambda>column. oriented (map (\<lambda>row. row ! column) vectors)) null)"

subsection \<open>The projection\<close>

definition project_out :: "dec list \<Rightarrow> dec list \<Rightarrow> dec list" where
  "project_out current existing =
     (let coefficient = ddiv (dec_dot current existing) (dec_dot existing existing)
      in map2 (\<lambda>l r. dsub l (dmul coefficient r)) current existing)"

definition orthogonalized :: "dec list list \<Rightarrow> dec list list" where
  "orthogonalized basis = foldl (\<lambda>orth candidate.
     let current = foldl project_out candidate orth
     in if list_ex (\<lambda>v. dv v \<noteq> 0) current then orth @ [current] else orth) [] basis"

definition project_onto_basis :: "dec list \<Rightarrow> dec list list \<Rightarrow> dec list" where
  "project_onto_basis vector basis = foldl (\<lambda>result existing.
     let coefficient = ddiv (dec_dot vector existing) (dec_dot existing existing)
     in map2 (\<lambda>l r. dadd l (dmul coefficient r)) result existing)
     (replicate (length vector) dzero) (orthogonalized basis)"

subsection \<open>The frontier in normalized objectives\<close>

record frontier_candidate =
  fc_marks :: "int list"
  fc_objectives :: objective_vector
  fc_normalized :: "string list"
  fc_knee :: string

definition mk_frontier_candidate :: "int list \<Rightarrow> objective_vector \<Rightarrow> string list \<Rightarrow> string \<Rightarrow> opt_error + frontier_candidate" where
  "mk_frontier_candidate marks objectives normalized knee =
     bind_res (guards [(length normalized \<noteq> 4, Contract (ContractError ''frontier normalization must cover four objectives''))]) (\<lambda>_.
     bind_res (map_all (\<lambda>s. bind_res (map_err Contract (canonical_decimal_string (PStr s))) (\<lambda>c.
         if 0 \<le> dv (dec_of_string c) \<and> dv (dec_of_string c) \<le> 1 then Inr c
         else Inl (Contract (ContractError ''normalized objective must be inside zero and one'')))) normalized) (\<lambda>_.
     bind_res (map_err Contract (canonical_decimal_string (PStr knee))) (\<lambda>_.
     Inr \<lparr>fc_marks = marks, fc_objectives = objectives, fc_normalized = normalized, fc_knee = knee\<rparr>)))"

definition dec_column :: "dec list list \<Rightarrow> nat \<Rightarrow> dec list" where
  "dec_column rows column = map (\<lambda>row. row ! column) rows"

definition normalized_rows :: "dec list list \<Rightarrow> dec list list" where
  "normalized_rows matrix =
     (let ideal = map (\<lambda>c. dec_min (dec_column matrix c)) [0..<4];
          nadir = map (\<lambda>c. dec_max (dec_column matrix c)) [0..<4]
      in map (\<lambda>row. map (\<lambda>c. if dv (nadir ! c) = dv (ideal ! c) then dzero
           else ddiv (dsub (row ! c) (ideal ! c)) (dsub (nadir ! c) (ideal ! c))) [0..<4]) matrix)"

definition tie_key :: "dec list \<Rightarrow> int list \<Rightarrow> int list \<Rightarrow> rat \<times> rat \<times> int \<times> int list" where
  "tie_key normalized marks baseline =
     (dv (dec_max normalized), dv (dec_sum normalized), sheet_distance marks baseline, marks)"

definition anchor_indices :: "dec list list \<Rightarrow> int list list \<Rightarrow> int list \<Rightarrow> nat list" where
  "anchor_indices normalized sheets baseline = map (\<lambda>c.
     let least = dv (dec_min (dec_column normalized c)) in
     least_by (\<lambda>i. tie_key (normalized ! i) (sheets ! i) baseline)
       (filter (\<lambda>i. dv (normalized ! i ! c) = least) [0..<length normalized])) [0..<4]"

text \<open>The distance of every sheet from the plane; \<open>None\<close> when no null vector was found.\<close>

definition knee_distances :: "dec list list \<Rightarrow> nat list \<Rightarrow> dec list option" where
  "knee_distances normalized anchors =
     (let points = map (\<lambda>i. normalized ! i) anchors;
          base = hd points;
          null = svd_nullspace (map (\<lambda>row. map2 dsub row base) (tl points)) 4
      in if null = [] then None
         else (let toward = map (dec_neg 80) base;
                   projected = project_onto_basis toward null;
                   normal = (if list_all (\<lambda>v. dv v = 0) projected then hd null else projected);
                   normal' = (if dv (dec_dot normal toward) < 0 then map (dec_neg 80) normal else normal)
               in Some (map (\<lambda>point. dec_dot normal' (map2 dsub point base)) normalized)))"

subsection \<open>The choice\<close>

definition pareto_tolerance :: dec where "pareto_tolerance = Dc 1 (- 9)"

definition better_flags :: "dec list \<Rightarrow> dec list \<Rightarrow> bool list" where
  "better_flags values baseline = map2 (\<lambda>a b. dec_less a (dsub b pareto_tolerance)) values baseline"

definition not_worse_flags :: "dec list \<Rightarrow> dec list \<Rightarrow> bool list" where
  "not_worse_flags values baseline = map2 (\<lambda>a b. dec_le a (dadd b pareto_tolerance)) values baseline"

definition count_true :: "bool list \<Rightarrow> nat" where "count_true bs = length (filter (\<lambda>b. b) bs)"

definition meaningful :: "objective_vector \<Rightarrow> objective_vector \<Rightarrow> bool" where
  "meaningful objectives baseline =
     (let better = count_true (better_flags (ov_values objectives) (ov_values baseline));
          kept = count_true (not_worse_flags (ov_values objectives) (ov_values baseline))
      in 2 \<le> better \<or> better = 1 \<and> 2 \<le> kept)"

definition annotate :: "(int list \<times> objective_vector) list \<Rightarrow> dec list list \<Rightarrow> nat list \<Rightarrow> dec list \<Rightarrow>
    opt_error + frontier_candidate list" where
  "annotate frontier normalized anchors knee = map_all (\<lambda>i.
     bind_res (map_err Contract (map_all dec_string (normalized ! i))) (\<lambda>ns.
     bind_res (if i \<in> set anchors then Inr ''0'' else map_err Contract (dec_string (knee ! i))) (\<lambda>k.
     mk_frontier_candidate (fst (frontier ! i)) (snd (frontier ! i)) ns k))) [0..<length frontier]"

definition select_chim :: "(int list \<times> objective_vector) list \<Rightarrow> int list \<Rightarrow> objective_vector \<Rightarrow>
    opt_error + int list option \<times> frontier_candidate list" where
  "select_chim frontier baseline baseline_objectives =
     (let normalized = normalized_rows (map (\<lambda>p. ov_values (snd p)) frontier);
          sheets = map fst frontier;
          anchors = anchor_indices normalized sheets baseline
      in case knee_distances normalized anchors of
           None \<Rightarrow> Inl (Abort OF_RANK_INVALID)
         | Some knee \<Rightarrow> bind_res (annotate frontier normalized anchors knee) (\<lambda>candidates.
             let improving = filter (\<lambda>i. meaningful (fc_objectives (candidates ! i)) baseline_objectives) [0..<length candidates]
             in if improving = [] then Inr (None, candidates)
                else Inr (Some (fc_marks (candidates ! least_by
                   (\<lambda>i. (dv (dec_neg 80 (knee ! i)), tie_key (normalized ! i) (fc_marks (candidates ! i)) baseline)) improving)),
                   candidates)))"

subsection \<open>No divisor is zero\<close>

lemma dunit_value [simp]: "dv dunit = 1" "dv (Dc (- 1) 0) = - 1" "dv (Dc 2 0) = 2"
  by (simp_all add: dv_def p10_def)

lemma dec_abs_nonneg: "0 \<le> dv (dec_abs 80 a)"
  by (simp add: dec_abs_def to_dec_nonneg)

lemma isqrt_search_spec:
  assumes "0 \<le> lo" "lo < hi" "lo * lo \<le> n" "n < hi * hi"
  shows "lo \<le> isqrt_search n lo hi \<and> isqrt_search n lo hi * isqrt_search n lo hi \<le> n
    \<and> n < (isqrt_search n lo hi + 1) * (isqrt_search n lo hi + 1)"
  using assms
proof (induction n lo hi rule: isqrt_search.induct)
  case (1 n lo hi)
  show ?case
  proof (cases "hi - lo \<le> 1")
    case True
    then have hi: "hi = lo + 1" using 1 by simp
    have "isqrt_search n lo hi = lo" using True by (simp add: isqrt_search.simps [of n lo hi])
    then show ?thesis using 1(5,6) by (simp add: hi)
  next
    case False
    define m where "m = (lo + hi) div 2"
    have m: "lo < m" "m < hi" using False by (simp_all add: m_def)
    show ?thesis
    proof (cases "m * m \<le> n")
      case True
      have "isqrt_search n lo hi = isqrt_search n m hi" using True False by (simp add: isqrt_search.simps [of n lo hi] m_def)
      then show ?thesis using 1(1) [OF False m_def] True m 1 by simp
    next
      case False': False
      have "isqrt_search n lo hi = isqrt_search n lo m" using False' False by (simp add: isqrt_search.simps [of n lo hi] m_def)
      then show ?thesis using 1(2) [OF False m_def] False' m 1 by simp
    qed
  qed
qed

lemma dec_sqrt_pos:
  assumes "0 < dv a"
  shows "0 < dv (dec_sqrt 80 a)"
proof -
  define e where "e = lead_exp (dv a) div 2 - 80"
  define y where "y = dv a / p10 (2 * e)"
  define q where "q = isqrt_search \<lfloor>y\<rfloor> 0 (\<lfloor>y\<rfloor> + 1)"
  have "2 * e \<le> lead_exp (dv a)" unfolding e_def by simp
  then have "p10 (2 * e) \<le> dv a" using p10_mono [of "2 * e" "lead_exp (dv a)"] lead_exp_spec [OF assms] by linarith
  then have "1 \<le> y" by (simp add: y_def pos_le_divide_eq)
  then have n: "1 \<le> \<lfloor>y\<rfloor>" by simp
  have "\<lfloor>y\<rfloor> < 1 * (\<lfloor>y\<rfloor> + 1)" by simp
  also have "\<dots> \<le> (\<lfloor>y\<rfloor> + 1) * (\<lfloor>y\<rfloor> + 1)" using n by (intro mult_right_mono) simp_all
  finally have "\<lfloor>y\<rfloor> < (\<lfloor>y\<rfloor> + 1) * (\<lfloor>y\<rfloor> + 1)" .
  then have s: "0 \<le> q" "\<lfloor>y\<rfloor> < (q + 1) * (q + 1)"
    using isqrt_search_spec [of 0 "\<lfloor>y\<rfloor> + 1" "\<lfloor>y\<rfloor>"] n by (simp_all add: q_def)
  have "q \<noteq> 0" using s(2) n by auto
  define q' where "q' = (if of_int q * of_int q \<noteq> y \<and> q mod 5 = 0 then q + 1 else q)"
  have q': "0 < q'" using s(1) \<open>q \<noteq> 0\<close> by (simp add: q'_def)
  have "\<not> dec_zero a" using assms by (auto simp: dec_zero_iff)
  then have "dec_sqrt 80 a = to_dec 80 (of_int q' * p10 e)"
    unfolding dec_sqrt_def Let_def q'_def q_def y_def e_def by (simp only: if_False)
  then show ?thesis using to_dec_pos [of "of_int q' * p10 e" 80] q' by simp
qed

lemma root_pos: "0 < dv (dec_sqrt 80 (dadd dunit (dmul t t)))"
proof (rule dec_sqrt_pos)
  have "0 \<le> dv (dmul t t)" by (simp add: dec_mul_def to_dec_nonneg)
  then show "0 < dv (dadd dunit (dmul t t))" by (simp add: dec_add_def to_dec_pos)
qed

lemma jacobi_divisors:
  "\<not> dec_le (dec_abs 80 off) jacobi_threshold \<Longrightarrow> dv (dmul (Dc 2 0) off) \<noteq> 0"
  "dv (dadd (dec_abs 80 tau) (dec_sqrt 80 (dadd dunit (dmul tau tau)))) \<noteq> 0"
  "dv (dec_sqrt 80 (dadd dunit (dmul tangent tangent))) \<noteq> 0"
proof -
  assume "\<not> dec_le (dec_abs 80 off) jacobi_threshold"
  then have "dv off \<noteq> 0" by (auto simp: dec_le_def dec_abs_def jacobi_threshold_def dv_def less_imp_le)
  then show "dv (dmul (Dc 2 0) off) \<noteq> 0" by (simp add: dec_mul_def to_dec_zero_iff)
next
  have "0 < dv (dec_abs 80 tau) + dv (dec_sqrt 80 (dadd dunit (dmul tau tau)))"
    using dec_abs_nonneg [of tau] root_pos [of tau] by linarith
  from to_dec_pos [OF this, of 80]
  show "dv (dadd (dec_abs 80 tau) (dec_sqrt 80 (dadd dunit (dmul tau tau)))) \<noteq> 0" by (simp add: dec_add_def)
next
  show "dv (dec_sqrt 80 (dadd dunit (dmul tangent tangent))) \<noteq> 0" using root_pos [of tangent] by simp
qed

lemma oriented_divisor:
  "dv (case find (\<lambda>v. dec_less jacobi_threshold (dec_abs 80 v)) vector of Some v \<Rightarrow> v | None \<Rightarrow> dunit) \<noteq> 0"
proof (cases "find (\<lambda>v. dec_less jacobi_threshold (dec_abs 80 v)) vector")
  case (Some v)
  then have "dv jacobi_threshold < dv (dec_abs 80 v)" by (auto simp: find_Some_iff dec_less_def)
  moreover have "0 < dv jacobi_threshold" by (simp add: jacobi_threshold_def dv_def)
  ultimately have "dv v \<noteq> 0" by (auto simp: dec_abs_def)
  then show ?thesis by (simp add: Some)
qed simp

text \<open>A vector kept by the projection has a positive square.\<close>

lemma dec_sum_nonneg: "(\<And>x. x \<in> set xs \<Longrightarrow> 0 \<le> dv x) \<Longrightarrow> 0 \<le> dv (dec_sum xs) \<and> ((\<exists>x \<in> set xs. dv x \<noteq> 0) \<longrightarrow> 0 < dv (dec_sum xs))"
  unfolding dec_sum_def
proof (induction xs rule: rev_induct)
  case (snoc x xs)
  let ?s = "dv (foldl dadd dzero xs)"
  have ih: "0 \<le> ?s" "(\<exists>x \<in> set xs. dv x \<noteq> 0) \<longrightarrow> 0 < ?s" using snoc by auto
  have x: "0 \<le> dv x" using snoc.prems by simp
  have "dv (foldl dadd dzero (xs @ [x])) = dv (to_dec 80 (?s + dv x))" by (simp add: dec_add_def)
  moreover have "0 \<le> dv (to_dec 80 (?s + dv x))" using ih(1) x by (simp add: to_dec_nonneg)
  moreover have "0 < dv (to_dec 80 (?s + dv x))" if "\<exists>y \<in> set (xs @ [x]). dv y \<noteq> 0"
  proof (rule to_dec_pos)
    show "0 < ?s + dv x" using that ih x by (auto simp: less_le)
  qed simp
  ultimately show ?case by presburger
qed simp

lemma dot_self_divisor:
  assumes "list_ex (\<lambda>v. dv v \<noteq> 0) xs"
  shows "dv (dec_dot xs xs) \<noteq> 0"
proof -
  have m: "map2 dmul xs xs = map (\<lambda>x. dmul x x) xs" by (simp add: zip_same_conv_map)
  have nn: "0 \<le> dv y" if "y \<in> set (map (\<lambda>x. dmul x x) xs)" for y
    using that by (auto simp: dec_mul_def to_dec_nonneg)
  obtain v where "v \<in> set xs" "dv v \<noteq> 0" using assms by (auto simp: list_ex_iff)
  then have "\<exists>y \<in> set (map (\<lambda>x. dmul x x) xs). dv y \<noteq> 0" by (auto simp: dec_mul_def to_dec_zero_iff)
  with dec_sum_nonneg [OF nn] have "0 < dv (dec_sum (map (\<lambda>x. dmul x x) xs))" by blast
  then show ?thesis by (simp add: dec_dot_def m)
qed

lemma orthogonalized_divisors: "existing \<in> set (orthogonalized basis) \<Longrightarrow> dv (dec_dot existing existing) \<noteq> 0"
proof -
  have "list_ex (\<lambda>v. dv v \<noteq> 0) e" if "e \<in> set (orthogonalized basis)" for e
    using that unfolding orthogonalized_def
    by (induction basis rule: rev_induct) (auto simp: Let_def split: if_splits)
  then show "existing \<in> set (orthogonalized basis) \<Longrightarrow> ?thesis" using dot_self_divisor by blast
qed

subsection \<open>Minima, maxima and normalized objectives\<close>

lemma dec_min_le: "xs \<noteq> [] \<Longrightarrow> dec_min xs \<in> set xs \<and> (\<forall>x \<in> set xs. dv (dec_min xs) \<le> dv x)"
proof -
  assume ne: "xs \<noteq> []"
  let ?f = "\<lambda>a b. if dec_less b a then b else a"
  have "foldl ?f a ys \<in> set (a # ys) \<and> (\<forall>x \<in> set (a # ys). dv (foldl ?f a ys) \<le> dv x)" for a ys
  proof (induction ys rule: rev_induct)
    case (snoc y ys)
    then show ?case by (auto simp: dec_less_def)
  qed simp
  from this [of "hd xs" "tl xs"] show ?thesis using ne by (simp add: dec_min_def)
qed

lemma dec_max_ge: "xs \<noteq> [] \<Longrightarrow> dec_max xs \<in> set xs \<and> (\<forall>x \<in> set xs. dv x \<le> dv (dec_max xs))"
proof -
  assume ne: "xs \<noteq> []"
  let ?f = "\<lambda>a b. if dec_less a b then b else a"
  have "foldl ?f a ys \<in> set (a # ys) \<and> (\<forall>x \<in> set (a # ys). dv x \<le> dv (foldl ?f a ys))" for a ys
  proof (induction ys rule: rev_induct)
    case (snoc y ys)
    then show ?case by (auto simp: dec_less_def)
  qed simp
  from this [of "hd xs" "tl xs"] show ?thesis using ne by (simp add: dec_max_def)
qed

definition normalized_entry :: "dec list list \<Rightarrow> dec list \<Rightarrow> nat \<Rightarrow> dec" where
  "normalized_entry matrix row c =
     (let lo = dec_min (dec_column matrix c); hi = dec_max (dec_column matrix c) in
      if dv hi = dv lo then dzero else ddiv (dsub (row ! c) lo) (dsub hi lo))"

lemma normalized_rows_eq: "normalized_rows matrix = map (\<lambda>row. map (normalized_entry matrix row) [0..<4]) matrix"
  by (simp add: normalized_rows_def Let_def normalized_entry_def)

lemma normalized_range:
  assumes "row \<in> set (normalized_rows matrix)" "v \<in> set row"
  shows "0 \<le> dv v \<and> dv v \<le> 1"
proof -
  obtain r c where r: "r \<in> set matrix" and e: "v = normalized_entry matrix r c"
    using assms by (auto simp: normalized_rows_eq)
  let ?lo = "dec_min (dec_column matrix c)" and ?hi = "dec_max (dec_column matrix c)"
  have "r ! c \<in> set (dec_column matrix c)" using r by (simp add: dec_column_def)
  then have b: "dv ?lo \<le> dv (r ! c)" "dv (r ! c) \<le> dv ?hi"
    using dec_min_le [of "dec_column matrix c"] dec_max_ge [of "dec_column matrix c"] by force+
  show ?thesis
  proof (cases "dv ?hi = dv ?lo")
    case False
    let ?x = "dv (dsub (r ! c) ?lo)" and ?y = "dv (dsub ?hi ?lo)"
    have y: "0 < ?y" using b False by (simp add: dec_sub_def to_dec_pos)
    have x: "0 \<le> ?x" "?x \<le> ?y" using b by (simp_all add: dec_sub_def to_dec_nonneg to_dec_mono)
    have "0 \<le> ?x / ?y" "?x / ?y \<le> 1" using x y by simp_all
    then have "0 \<le> dv (to_dec 80 (?x / ?y))" "dv (to_dec 80 (?x / ?y)) \<le> dv (to_dec 80 1)"
      by (simp_all add: to_dec_nonneg to_dec_mono)
    then show ?thesis using False by (simp add: e normalized_entry_def Let_def dec_div_def to_dec_1)
  qed (simp add: e normalized_entry_def Let_def)
qed

lemma normalized_divisor: "dv b \<noteq> dv a \<Longrightarrow> dv (dsub b a) \<noteq> 0"
  by (simp add: dec_sub_def to_dec_zero_iff)

lemma normalized_rows_length: "length (normalized_rows matrix) = length matrix" "row \<in> set (normalized_rows matrix) \<Longrightarrow> length row = 4"
  by (auto simp: normalized_rows_eq)

lemma mk_frontier_candidate_ok:
  assumes "list_all2 (\<lambda>d s. dec_string d = Inr s) ds ns" "list_all (\<lambda>d. 0 \<le> dv d \<and> dv d \<le> 1) ds" "length ds = 4"
    "canonical_decimal_string (PStr k) = Inr k"
  shows "mk_frontier_candidate m v ns k = Inr \<lparr>fc_marks = m, fc_objectives = v, fc_normalized = ns, fc_knee = k\<rparr>"
proof -
  have len: "length ns = 4" using assms(1,3) by (auto dest: list_all2_lengthD)
  have "map_all (\<lambda>s. bind_res (map_err Contract (canonical_decimal_string (PStr s))) (\<lambda>c.
      if 0 \<le> dv (dec_of_string c) \<and> dv (dec_of_string c) \<le> 1 then Inr c
      else Inl (Contract (ContractError ''normalized objective must be inside zero and one'')))) ns = Inr (map (\<lambda>s. s) ns)"
  proof (rule map_all_InrI)
    fix s assume "s \<in> set ns"
    then obtain i where i: "i < length ns" "s = ns ! i" by (auto simp: in_set_conv_nth)
    have d: "dec_string (ds ! i) = Inr s" using assms(1) i by (simp add: list_all2_conv_all_nth)
    have "0 \<le> dv (ds ! i) \<and> dv (ds ! i) \<le> 1" using assms(1,2) i by (simp add: list_all2_conv_all_nth list_all_length)
    then have "0 \<le> dv (dec_of_string s) \<and> dv (dec_of_string s) \<le> 1" using dec_string_value [OF d] by simp
    moreover have "canonical_decimal_string (PStr s) = Inr s"
      using d unfolding dec_string_def by (rule canonical_decimal_string_idem)
    ultimately show "bind_res (map_err Contract (canonical_decimal_string (PStr s))) (\<lambda>c.
        if 0 \<le> dv (dec_of_string c) \<and> dv (dec_of_string c) \<le> 1 then Inr c
        else Inl (Contract (ContractError ''normalized objective must be inside zero and one''))) = Inr s" by simp
  qed
  then show ?thesis using len assms(4) by (simp add: mk_frontier_candidate_def)
qed

subsection \<open>What is chosen\<close>

text \<open>Rounding a rounded value changes nothing.\<close>

lemma to_dec_idem: "dv (to_dec 80 (dv (to_dec 80 x))) = dv (to_dec 80 x)"
proof -
  have pos: "dv (to_dec 80 (dv (to_dec 80 y))) = dv (to_dec 80 y)" if y: "0 < y" for y
  proof -
    define e where "e = lead_exp y - 79"
    define c where "c = half_even (y / p10 e)"
    have v: "dv (to_dec 80 y) = of_int c * p10 e" using to_dec_positive [OF y, of 80] by (simp add: e_def c_def)
    have "of_int c * p10 e \<le> p10 80 * p10 e"
      using to_dec_decade [OF y, of 80] unfolding v p10_add [symmetric] by (simp add: e_def add.commute)
    then have "of_int c \<le> p10 80" by (rule mult_right_le_imp_le) simp
    then have "of_int c \<le> (of_int (10 ^ 80) :: rat)" by (simp add: p10_def)
    then have le: "c \<le> 10 ^ 80" by (simp only: of_int_le_iff)
    have "0 < of_int c * p10 e" using to_dec_pos [OF y, of 80] by (simp add: v)
    then have "0 < (of_int c :: rat)" by (rule zero_less_mult_pos2) simp
    then have pos: "0 < c" by simp
    show ?thesis
    proof (cases "c = 10 ^ 80")
      case True
      then have "dv (to_dec 80 y) = of_int 1 * p10 (80 + e)" by (simp add: v p10_add) (simp add: p10_def)
      then show ?thesis using to_dec_exact [of 1 80 "80 + e"] by simp
    next
      case False
      then show ?thesis unfolding v using to_dec_exact [of c 80 e] le pos by simp
    qed
  qed
  consider "0 < x" | "x = 0" | "0 < - x" by linarith
  then show ?thesis
  proof cases
    case 3
    from pos [OF this] show ?thesis by (simp add: to_dec_neg)
  qed (simp_all add: pos)
qed

lemma dec_dot_rounded: "dv (dec_neg 80 (dec_dot xs ys)) = - dv (dec_dot xs ys)"
proof (cases "map2 dmul xs ys" rule: rev_cases)
  case Nil
  show ?thesis unfolding dec_dot_def dec_sum_def Nil by (simp add: dec_neg_def)
next
  case (snoc zs z)
  then have "dec_dot xs ys = to_dec 80 (dv (foldl dadd dzero zs) + dv z)"
    by (simp add: dec_dot_def dec_sum_def dec_add_def)
  then show ?thesis by (simp add: dec_neg_def to_dec_neg to_dec_idem)
qed

lemma knee_distances_dot:
  assumes "knee_distances normalized anchors = Some knee" "j < length normalized"
  shows "\<exists>xs ys. knee ! j = dec_dot xs ys"
proof -
  obtain normal base where "knee = map (\<lambda>point. dec_dot normal (map2 dsub point base)) normalized"
    using assms(1) by (auto simp: knee_distances_def Let_def split: if_splits)
  then show ?thesis using assms(2) by auto
qed

lemma fst_mono: "x \<le> y \<Longrightarrow> fst x \<le> fst (y :: 'a::linorder \<times> 'b::linorder)"
  by (auto simp: less_eq_prod_def)

lemma least_by_least:
  assumes "x \<in> set xs"
  shows "key (least_by key xs) \<le> key x"
proof -
  have ne: "sort_key key xs \<noteq> []" using assms by (metis length_pos_if_in_set length_sort less_numeral_extra(3) list.size(3))
  have "sorted (map key (sort_key key xs))" by simp
  then have "\<forall>y \<in> set (sort_key key xs). key (hd (sort_key key xs)) \<le> key y"
    using ne by (cases "sort_key key xs") auto
  then show ?thesis using assms by (simp add: least_by_def)
qed

lemma mk_frontier_candidate_Inr: "mk_frontier_candidate m v ns k = Inr c \<Longrightarrow> fc_marks c = m \<and> fc_objectives c = v"
  by (auto simp: mk_frontier_candidate_def result_simps)

lemma annotate_Inr:
  assumes "annotate frontier normalized anchors knee = Inr candidates"
  shows "map fc_marks candidates = map fst frontier" "map fc_objectives candidates = map snd frontier"
    "length candidates = length frontier"
proof -
  have a: "list_all2 (\<lambda>i c. bind_res (map_err Contract (map_all dec_string (normalized ! i))) (\<lambda>ns.
     bind_res (if i \<in> set anchors then Inr ''0'' else map_err Contract (dec_string (knee ! i))) (\<lambda>k.
     mk_frontier_candidate (fst (frontier ! i)) (snd (frontier ! i)) ns k)) = Inr c) [0..<length frontier] candidates"
    using assms by (simp only: annotate_def map_all_Inr_iff)
  then show len: "length candidates = length frontier" by (auto dest: list_all2_lengthD)
  have "fc_marks (candidates ! i) = fst (frontier ! i) \<and> fc_objectives (candidates ! i) = snd (frontier ! i)" if "i < length frontier" for i
    using list_all2_nthD [OF a, of i] that by (auto simp: result_simps dest: mk_frontier_candidate_Inr)
  then show "map fc_marks candidates = map fst frontier" "map fc_objectives candidates = map snd frontier"
    using len by (auto intro: nth_equalityI)
qed

lemma if_None: "(if b then None else Some x) = None \<longleftrightarrow> b"
  by simp

text \<open>The choice is an improvement, and no improvement lies farther from the plane.\<close>

lemma select_chim_Inr:
  assumes "select_chim frontier baseline bo = Inr (choice, candidates)"
  obtains knee where
    "knee_distances (normalized_rows (map (\<lambda>p. ov_values (snd p)) frontier))
       (anchor_indices (normalized_rows (map (\<lambda>p. ov_values (snd p)) frontier)) (map fst frontier) baseline) = Some knee"
    "map fc_marks candidates = map fst frontier" "map fc_objectives candidates = map snd frontier"
    "choice = None \<longleftrightarrow> (\<forall>p \<in> set frontier. \<not> meaningful (snd p) bo)"
    "\<And>m. choice = Some m \<Longrightarrow> \<exists>i < length frontier. fst (frontier ! i) = m \<and> meaningful (snd (frontier ! i)) bo
       \<and> (\<forall>j < length frontier. meaningful (snd (frontier ! j)) bo \<longrightarrow> dv (knee ! j) \<le> dv (knee ! i))"
proof -
  let ?normalized = "normalized_rows (map (\<lambda>p. ov_values (snd p)) frontier)"
  let ?anchors = "anchor_indices ?normalized (map fst frontier) baseline"
  obtain knee where k: "knee_distances ?normalized ?anchors = Some knee"
    using assms by (cases "knee_distances ?normalized ?anchors") (simp_all add: select_chim_def Let_def)
  let ?improving = "filter (\<lambda>i. meaningful (fc_objectives (candidates ! i)) bo) [0..<length candidates]"
  let ?key = "\<lambda>i. (dv (dec_neg 80 (knee ! i)), tie_key (?normalized ! i) (fc_marks (candidates ! i)) baseline)"
  have an: "annotate frontier ?normalized ?anchors knee = Inr candidates"
    and ch: "choice = (if ?improving = [] then None else Some (fc_marks (candidates ! least_by ?key ?improving)))"
    using assms k by (auto simp: select_chim_def Let_def result_simps split: if_splits)
  note c = annotate_Inr [OF an]
  have nth: "fc_marks (candidates ! i) = fst (frontier ! i)" "fc_objectives (candidates ! i) = snd (frontier ! i)"
    if "i < length frontier" for i
    using arg_cong [OF c(1), of "\<lambda>xs. xs ! i"] arg_cong [OF c(2), of "\<lambda>xs. xs ! i"] that c(3) by simp_all
  have imp: "i \<in> set ?improving \<longleftrightarrow> i < length frontier \<and> meaningful (snd (frontier ! i)) bo" for i
    using nth(2) [of i] by (auto simp: c(3))
  have none: "?improving = [] \<longleftrightarrow> (\<forall>p \<in> set frontier. \<not> meaningful (snd p) bo)"
  proof -
    have "?improving = [] \<longleftrightarrow> (\<forall>i. i \<notin> set ?improving)" by (metis empty_iff list.set(1) list.set_intros(1) neq_Nil_conv)
    also have "\<dots> \<longleftrightarrow> (\<forall>i < length frontier. \<not> meaningful (snd (frontier ! i)) bo)" unfolding imp by blast
    also have "\<dots> \<longleftrightarrow> (\<forall>p \<in> set frontier. \<not> meaningful (snd p) bo)" by (metis in_set_conv_nth)
    finally show ?thesis .
  qed
  have far: "\<exists>i < length frontier. fst (frontier ! i) = m \<and> meaningful (snd (frontier ! i)) bo
      \<and> (\<forall>j < length frontier. meaningful (snd (frontier ! j)) bo \<longrightarrow> dv (knee ! j) \<le> dv (knee ! i))"
    if "choice = Some m" for m
  proof -
    have ne: "?improving \<noteq> []" and m: "m = fc_marks (candidates ! least_by ?key ?improving)"
      using that ch by (auto split: if_splits)
    let ?i = "least_by ?key ?improving"
    have i: "?i < length frontier" "meaningful (snd (frontier ! ?i)) bo"
      using least_by_in [OF ne, of ?key] unfolding imp by blast+
    have neg: "dv (dec_neg 80 (knee ! j)) = - dv (knee ! j)" if jl: "j < length frontier" for j
    proof -
      obtain xs ys where "knee ! j = dec_dot xs ys"
        using knee_distances_dot [OF k, of j] jl by (auto simp: normalized_rows_length)
      then show ?thesis by (simp add: dec_dot_rounded)
    qed
    have best: "dv (knee ! j) \<le> dv (knee ! ?i)" if "j < length frontier" "meaningful (snd (frontier ! j)) bo" for j
    proof -
      have "j \<in> set ?improving" unfolding imp using that by blast
      from fst_mono [OF least_by_least [OF this, of ?key]]
      have "dv (dec_neg 80 (knee ! ?i)) \<le> dv (dec_neg 80 (knee ! j))" by (simp only: fst_conv)
      then show ?thesis using neg [OF i(1)] neg [OF that(1)] by simp
    qed
    have "fst (frontier ! ?i) = m" by (simp only: m nth(1) [OF i(1)])
    from conjI [OF i(1) conjI [OF this conjI [OF i(2)]]] show ?thesis
      by (rule exI [where x = ?i]) (intro allI impI best)
  qed
  have "choice = None \<longleftrightarrow> ?improving = []" unfolding ch by (rule if_None) 
  also note none
  finally show thesis by (rule that [OF k c(1,2) _ far])
qed

text \<open>One distance that cannot be written aborts the whole selection.\<close>

lemma select_chim_unwritable:
  assumes "knee_distances (normalized_rows (map (\<lambda>p. ov_values (snd p)) frontier))
      (anchor_indices (normalized_rows (map (\<lambda>p. ov_values (snd p)) frontier)) (map fst frontier) baseline) = Some knee"
    "i < length frontier" "i \<notin> set (anchor_indices (normalized_rows (map (\<lambda>p. ov_values (snd p)) frontier)) (map fst frontier) baseline)"
    "dec_string (knee ! i) = Inl e"
  shows "\<exists>e'. select_chim frontier baseline bo = Inl e'"
proof -
  let ?normalized = "normalized_rows (map (\<lambda>p. ov_values (snd p)) frontier)"
  let ?anchors = "anchor_indices ?normalized (map fst frontier) baseline"
  have "annotate frontier ?normalized ?anchors knee \<noteq> Inr candidates" for candidates
  proof
    assume "annotate frontier ?normalized ?anchors knee = Inr candidates"
    then have "list_all2 (\<lambda>i c. bind_res (map_err Contract (map_all dec_string (?normalized ! i))) (\<lambda>ns.
       bind_res (if i \<in> set ?anchors then Inr ''0'' else map_err Contract (dec_string (knee ! i))) (\<lambda>k.
       mk_frontier_candidate (fst (frontier ! i)) (snd (frontier ! i)) ns k)) = Inr c) [0..<length frontier] candidates"
      by (simp only: annotate_def map_all_Inr_iff)
    from list_all2_nthD [OF this, of i] show False using assms(2-4) by (auto simp: result_simps)
  qed
  then obtain e' where "annotate frontier ?normalized ?anchors knee = Inl e'"
    by (cases "annotate frontier ?normalized ?anchors knee") auto
  then show ?thesis using assms(1) by (simp add: select_chim_def Let_def)
qed

end
