(* ===== verification/Field_Optimizer.thy ===== *)
theory Field_Optimizer
  imports Chim_Selection Json
begin

section \<open>Optimizing a field (domain/optimizer.py)\<close>

text \<open>
  The inputs of the optimizer (\<open>OptimizationCompetitor\<close>, \<open>OptimizationField\<close>), its result
  (\<open>OptimizerReceipt\<close>) and \<open>optimize_field\<close>, which joins the parts: the canonical sheet, the
  candidates of a small field or the beam search of a larger one, the choice, and the fallback to
  the canonical sheet when any of it raises. What the module reads of its surroundings once (the
  version of NumPy, the identity of the bundled kernel, the digest of its own source file) is the
  record \<open>optimizer_env\<close>. The inputs are typed, so the checks for foreign types have no counterpart.
\<close>

subsection \<open>Checks\<close>

definition opt_digest :: "string \<Rightarrow> string \<Rightarrow> opt_error + unit" where
  "opt_digest s label = guards
     [(\<not> is_digest s, Contract (ContractError (label @ '' must be a lowercase SHA-256 digest'')))]"

definition opt_identifier :: "string \<Rightarrow> string \<Rightarrow> opt_error + string" where
  "opt_identifier s namespace = map_err Contract (require_identifier (PStr s) (Some namespace))"

definition opt_canonical_digest :: "py \<Rightarrow> opt_error + string" where
  "opt_canonical_digest v = map_err Contract (canonical_digest v)"

fun check_all :: "('a \<Rightarrow> 'e + 'b) \<Rightarrow> 'a list \<Rightarrow> 'e + unit" where
  "check_all f [] = Inr ()"
| "check_all f (x # xs) = bind_res (f x) (\<lambda>_. check_all f xs)"

subsection \<open>The policy and the implementation\<close>

definition optimizer_policy_to_dict :: "optimizer_policy \<Rightarrow> py" where
  "optimizer_policy_to_dict p = obj
     [(''sample_count'', PInt (int (op_sample_count p))), (''small_field_maximum'', PInt (int (op_small_field_maximum p))),
      (''small_field_radius_seconds'', PInt (op_small_field_radius p)), (''beam_width'', PInt (int (op_beam_width p))),
      (''maximum_expansion_rounds'', PInt (int (op_maximum_rounds p))), (''parallel_workers'', PInt (int (op_parallel_workers p))),
      (''pareto_tolerance'', PStr (op_pareto_tolerance p)), (''version'', PStr (op_version p))]"

definition optimizer_policy_digest :: "optimizer_policy \<Rightarrow> opt_error + string" where
  "optimizer_policy_digest p = opt_canonical_digest (optimizer_policy_to_dict p)"

record optimizer_env =
  oe_numpy :: string
  oe_kernel :: py
  oe_source :: string
  oe_artifact :: string \<comment> \<open>\<open>OPTIMIZER_IMPLEMENTATION_DIGEST\<close>\<close>

definition implementation_artifact_digest :: "optimizer_env \<Rightarrow> opt_error + string" where
  "implementation_artifact_digest env = opt_canonical_digest (obj
     [(''schema_version'', PStr ''strathmark-v3-optimizer-implementation-v1''), (''algorithm'', PStr optimizer_version),
      (''policy'', optimizer_policy_to_dict default_optimizer_policy),
      (''numeric_core'', PStr ''numpy-integer-vector-with-sealed-rust-kernel-v1''), (''numpy_version'', PStr (oe_numpy env)),
      (''native_kernel'', oe_kernel env), (''chim_geometry'', PStr ''decimal-jacobi-svd-v1''),
      (''tie_credit'', PStr ''exact-lcm-split-v1''), (''source_sha256'', PStr (oe_source env))])"

subsection \<open>OptimizationCompetitor\<close>

record optimization_competitor =
  oc_id :: string
  oc_expected :: int
  oc_samples :: "int list"
  oc_index :: int
  oc_distribution :: string
  oc_samples_digest :: string

text \<open>\<open>_validated_sample_tuple_digest\<close>.\<close>

definition sample_tuple_digest :: "int list \<Rightarrow> string" where
  "sample_tuple_digest values = sha256_hex (utf8 (''['' @ comma_join (map int_string values) @ '']''))"

definition mk_optimization_competitor :: "string \<Rightarrow> int \<Rightarrow> int list \<Rightarrow> int \<Rightarrow> string option \<Rightarrow> opt_error + optimization_competitor" where
  "mk_optimization_competitor cid expected samples index distribution =
     bind_res (opt_identifier cid ''competitor'') (\<lambda>_.
     bind_res (guards
       [(expected \<le> 0, Contract (ContractError ''expected_time_ms must be a positive integer'')),
        (length samples \<noteq> op_sample_count default_optimizer_policy,
          Contract (ContractError ''optimizer competitors require exactly 4096 joint samples'')),
        (list_ex (\<lambda>v. v \<le> 0) samples, Contract (ContractError ''optimizer samples must be positive integer milliseconds'')),
        (2000000000 < expected \<or> 2000000000 < Max (set samples),
          Contract (ContractError ''optimizer time inputs exceed the frozen int32 capacity bound'')),
        (index < 0, Contract (ContractError ''upstream_index must be a nonnegative integer''))]) (\<lambda>_.
     bind_res (case distribution of Some d \<Rightarrow> Inr d
       | None \<Rightarrow> opt_canonical_digest (obj [(''expected_time_ms'', PInt expected), (''samples_digest'', PStr (sample_tuple_digest samples))])) (\<lambda>d.
     bind_res (opt_digest d ''distribution_digest'') (\<lambda>_.
     Inr \<lparr>oc_id = cid, oc_expected = expected, oc_samples = samples, oc_index = index, oc_distribution = d,
          oc_samples_digest = sample_tuple_digest samples\<rparr>))))"

subsection \<open>OptimizationField\<close>

record optimization_field =
  of_id :: string
  of_source :: string
  of_seed :: int
  of_competitors :: "optimization_competitor list"
  of_joint :: string
  of_matrix :: string
  of_pool :: string
  of_input :: string

definition competitor_value :: "optimization_competitor \<Rightarrow> py" where
  "competitor_value c = obj
     [(''competitor_id'', PStr (oc_id c)), (''expected_time_ms'', PInt (oc_expected c)), (''upstream_index'', PInt (oc_index c)),
      (''distribution_digest'', PStr (oc_distribution c)), (''samples_digest'', PStr (oc_samples_digest c))]"

definition field_content :: "optimization_field \<Rightarrow> py" where
  "field_content f = obj
     [(''schema_version'', PStr ''strathmark-v3-optimizer-input-v1''), (''field_id'', PStr (of_id f)),
      (''source_receipt_digest'', PStr (of_source f)), (''seed'', PInt (of_seed f)),
      (''competitors'', PSeq (map competitor_value (of_competitors f))),
      (''joint_samples_digest'', PStr (of_joint f)), (''sample_matrix_digest'', PStr (of_matrix f)),
      (''pool_receipt_digest'', PStr (of_pool f))]"

definition sample_matrix_value :: "optimization_competitor list \<Rightarrow> py" where
  "sample_matrix_value cs = PSeq (map (\<lambda>c. PStr (oc_samples_digest c)) cs)"

definition max_optimizer_entrants :: nat where "max_optimizer_entrants = 12"

definition mk_optimization_field :: "optimization_field \<Rightarrow> opt_error + optimization_field" where
  "mk_optimization_field f =
     bind_res (opt_identifier (of_id f) ''field'') (\<lambda>_.
     bind_res (opt_digest (of_source f) ''source_receipt_digest'') (\<lambda>_.
     bind_res (guards
       [(of_seed f < 0, Contract (ContractError ''optimizer seed must be a nonnegative integer'')),
        (max_optimizer_entrants < length (of_competitors f), Contract (ContractError ''optimizer field supports at most 12 entrants'')),
        (\<not> distinct (map oc_id (of_competitors f)), Contract (ContractError ''optimizer field contains duplicate competitor identity'')),
        (map oc_index (of_competitors f) \<noteq> map int [0..<length (of_competitors f)],
          Contract (ContractError ''optimizer field upstream indices must be contiguous and ordered''))]) (\<lambda>_.
     bind_res (opt_digest (of_joint f) ''joint_samples_digest'') (\<lambda>_.
     bind_res (opt_digest (of_matrix f) ''sample_matrix_digest'') (\<lambda>_.
     bind_res (opt_digest (of_pool f) ''pool_receipt_digest'') (\<lambda>_.
     bind_res (opt_digest (of_input f) ''input_digest'') (\<lambda>_.
     bind_res (opt_canonical_digest (sample_matrix_value (of_competitors f))) (\<lambda>m.
     bind_res (guards [(of_matrix f \<noteq> m, Contract (ContractError ''optimizer sample matrix digest mismatch''))]) (\<lambda>_.
     bind_res (opt_canonical_digest (field_content f)) (\<lambda>d.
     bind_res (guards [(of_input f \<noteq> d, Contract (ContractError ''optimizer field input digest mismatch''))]) (\<lambda>_.
     Inr f)))))))))))"

text \<open>\<open>int(value[:16], 16) & ((1 << 63) - 1)\<close>.\<close>

definition hex_number :: "string \<Rightarrow> int" where
  "hex_number s = foldl (\<lambda>n c. 16 * n + int (length (takeWhile (\<lambda>x. x \<noteq> c) ''0123456789abcdef''))) 0 s"

definition seed_from_digest :: "string \<Rightarrow> opt_error + int" where
  "seed_from_digest s = bind_res (opt_digest s ''receipt digest'') (\<lambda>_. Inr (hex_number (take 16 s) mod 2 ^ 63))"

definition create_optimization_field :: "string \<Rightarrow> string \<Rightarrow> optimization_competitor list \<Rightarrow> string option \<Rightarrow> opt_error + optimization_field" where
  "create_optimization_field fid source cs pool =
     bind_res (opt_digest source ''source_receipt_digest'') (\<lambda>_.
     bind_res (guards [(\<not> distinct (map oc_id cs), Contract (ContractError ''optimizer field contains duplicate competitor identity''))]) (\<lambda>_.
     bind_res (opt_canonical_digest (sample_matrix_value cs)) (\<lambda>m.
     let pd = (case pool of None \<Rightarrow> source | Some p \<Rightarrow> if p = [] then source else p) in
     bind_res (opt_digest pd ''pool_receipt_digest'') (\<lambda>_.
     bind_res (seed_from_digest source) (\<lambda>seed.
     let f = \<lparr>of_id = fid, of_source = source, of_seed = seed, of_competitors = cs, of_joint = m, of_matrix = m, of_pool = pd, of_input = []\<rparr> in
     bind_res (opt_canonical_digest (field_content f)) (\<lambda>d. mk_optimization_field (f\<lparr>of_input := d\<rparr>)))))))"

subsection \<open>OptimizerWorkBudget\<close>

record work_budget =
  wb_samples :: int
  wb_radius :: int
  wb_beam_width :: int
  wb_round_limit :: int
  wb_rounds :: int
  wb_generated :: int
  wb_evaluated :: int
  wb_limit :: int
  wb_workers :: int

definition work_budget_values :: "work_budget \<Rightarrow> int list" where
  "work_budget_values b = [wb_samples b, wb_radius b, wb_beam_width b, wb_round_limit b, wb_rounds b, wb_generated b,
     wb_evaluated b, wb_limit b, wb_workers b]"

definition mk_work_budget :: "work_budget \<Rightarrow> opt_error + work_budget" where
  "mk_work_budget b = bind_res (guards
     [(list_ex (\<lambda>v. v < 0) (work_budget_values b), Contract (ContractError ''optimizer work budget values must be nonnegative integers'')),
      (wb_samples b \<noteq> 4096 \<or> wb_radius b \<noteq> 3 \<or> wb_beam_width b \<noteq> 512,
        Contract (ContractError ''optimizer work budget differs from frozen policy'')),
      (wb_workers b \<noteq> 8, Contract (ContractError ''optimizer parallel work budget differs from frozen policy'')),
      (wb_round_limit b < wb_rounds b, Contract (ContractError ''optimizer expansion rounds exceed the work budget'')),
      (wb_limit b < wb_evaluated b, Contract (ContractError ''optimizer candidate evaluations exceed the work budget''))])
     (\<lambda>_. Inr b)"

text \<open>The budgets \<open>optimize_field\<close> builds: the first three and the last are those of the policy.\<close>

definition budget_of :: "nat \<Rightarrow> nat \<Rightarrow> nat \<Rightarrow> nat \<Rightarrow> nat \<Rightarrow> opt_error + work_budget" where
  "budget_of round_limit rounds generated evaluated limit = mk_work_budget
     \<lparr>wb_samples = 4096, wb_radius = 3, wb_beam_width = 512, wb_round_limit = int round_limit, wb_rounds = int rounds,
      wb_generated = int generated, wb_evaluated = int evaluated, wb_limit = int limit, wb_workers = 8\<rparr>"

definition work_budget_to_dict :: "work_budget \<Rightarrow> py" where
  "work_budget_to_dict b = obj
     [(''sample_count'', PInt (wb_samples b)), (''small_field_radius_seconds'', PInt (wb_radius b)),
      (''beam_width'', PInt (wb_beam_width b)), (''expansion_round_limit'', PInt (wb_round_limit b)),
      (''expansion_rounds'', PInt (wb_rounds b)), (''candidates_generated'', PInt (wb_generated b)),
      (''candidates_evaluated'', PInt (wb_evaluated b)), (''candidate_limit'', PInt (wb_limit b)),
      (''parallel_workers'', PInt (wb_workers b))]"

subsection \<open>OptimizerReceipt\<close>

record optimizer_receipt =
  or_field :: string
  or_input :: string
  or_policy :: string
  or_source :: string
  or_joint :: string
  or_competitors :: "string list"
  or_expected :: "int list"
  or_low :: int
  or_high :: int
  or_version :: string
  or_dependency :: string
  or_artifact :: string
  or_ideal :: "string list"
  or_baseline :: "int list"
  or_frontier :: "frontier_candidate list"
  or_selected :: "int list"
  or_selected_objectives :: objective_vector
  or_baseline_objectives :: objective_vector
  or_deltas :: "int list"
  or_fairness_gain :: string
  or_spread_change :: string
  or_gap_cost :: string
  or_seed :: int
  or_samples :: int
  or_strategy :: string
  or_budget :: work_budget
  or_frontier_digest :: string
  or_fallback :: "optimizer_fallback option"
  or_digest :: string

definition objective_to_dict :: "objective_vector \<Rightarrow> py" where
  "objective_to_dict v = obj
     [(''gap_fidelity'', PStr (ov_gap v)), (''win_probability_parity'', PStr (ov_parity v)),
      (''expected_finish_spread_ms'', PStr (ov_spread v)), (''baseline_movement'', PStr (ov_movement v))]"

definition candidate_to_dict :: "frontier_candidate \<Rightarrow> py" where
  "candidate_to_dict c = obj
     [(''marks'', PSeq (map PInt (fc_marks c))), (''objectives'', objective_to_dict (fc_objectives c)),
      (''normalized_objectives'', PSeq (map PStr (fc_normalized c))), (''knee_distance'', PStr (fc_knee c))]"

definition frontier_value :: "frontier_candidate list \<Rightarrow> py" where
  "frontier_value cs = PSeq (map candidate_to_dict cs)"

definition receipt_content :: "optimizer_receipt \<Rightarrow> py" where
  "receipt_content r = obj
     [(''schema_version'', PStr ''strathmark-v3-optimizer-receipt-v1''), (''field_id'', PStr (or_field r)),
      (''input_digest'', PStr (or_input r)), (''policy_digest'', PStr (or_policy r)),
      (''source_receipt_digest'', PStr (or_source r)), (''joint_samples_digest'', PStr (or_joint r)),
      (''competitor_ids'', PSeq (map PStr (or_competitors r))), (''expected_times_ms'', PSeq (map PInt (or_expected r))),
      (''floor'', PInt (or_low r)), (''ceiling'', PInt (or_high r)), (''optimizer_version'', PStr (or_version r)),
      (''dependency_version'', PStr (or_dependency r)), (''implementation_artifact_digest'', PStr (or_artifact r)),
      (''continuous_ideal'', PSeq (map PStr (or_ideal r))), (''rounded_baseline'', PSeq (map PInt (or_baseline r))),
      (''frontier'', frontier_value (or_frontier r)), (''selected_marks'', PSeq (map PInt (or_selected r))),
      (''selected_objectives'', objective_to_dict (or_selected_objectives r)),
      (''baseline_objectives'', objective_to_dict (or_baseline_objectives r)), (''deltas'', PSeq (map PInt (or_deltas r))),
      (''fairness_gain'', PStr (or_fairness_gain r)), (''spread_change_ms'', PStr (or_spread_change r)),
      (''gap_fidelity_cost'', PStr (or_gap_cost r)), (''seed'', PInt (or_seed r)), (''sample_count'', PInt (or_samples r)),
      (''search_strategy'', PStr (or_strategy r)), (''work_budget'', work_budget_to_dict (or_budget r)),
      (''frontier_digest'', PStr (or_frontier_digest r)),
      (''fallback_reason'', opt_str (map_option optimizer_fallback_value (or_fallback r)))]"

definition opt_string :: "string \<Rightarrow> opt_error + string" where
  "opt_string s = map_err Contract (canonical_decimal_string (PStr s))"

text \<open>\<open>canonical_decimal_string(Decimal(a) - Decimal(b))\<close> in the context of the optimizer.\<close>

definition decimal_change :: "string \<Rightarrow> string \<Rightarrow> opt_error + string" where
  "decimal_change a b = map_err Contract (dec_string (dec_sub 96 (dec_of_string a) (dec_of_string b)))"

abbreviation receipt_error :: "string \<Rightarrow> opt_error" where
  "receipt_error s \<equiv> Contract (ContractError s)"

text \<open>What the fallback reason requires of the rest.\<close>

definition fallback_check :: "optimizer_receipt \<Rightarrow> opt_error + unit" where
  "fallback_check r = (case or_fallback r of
     None \<Rightarrow> guards [(or_frontier r = [] \<or> or_strategy r \<notin> {''single_competitor'', ''exhaustive_radius_v1'', ''deterministic_beam_v1''},
       receipt_error ''successful optimizer receipt lacks its frontier/strategy'')]
   | Some OF_EMPTY_FIELD \<Rightarrow> guards [(or_ideal r \<noteq> [] \<or> or_selected r \<noteq> [] \<or> or_frontier r \<noteq> [] \<or> or_strategy r \<noteq> ''empty_field'',
       receipt_error ''empty-field fallback is inconsistent'')]
   | Some reason \<Rightarrow> bind_res (guards [(or_selected r \<noteq> or_baseline r \<or> or_strategy r \<noteq> ''canonical_fallback'',
       receipt_error ''optimizer fallback must return the canonical baseline'')]) (\<lambda>_.
       if reason = OF_NO_VALID_IMPROVEMENT
       then guards [(or_frontier r = [], receipt_error ''no-improvement fallback requires the evaluated frontier'')]
       else guards [(or_frontier r \<noteq> [] \<or> wb_evaluated (or_budget r) \<noteq> 0,
         receipt_error ''failure fallback cannot claim a frontier or completed work'')]))"

definition mk_optimizer_receipt :: "optimizer_receipt \<Rightarrow> opt_error + optimizer_receipt" where
  "mk_optimizer_receipt r =
     bind_res (opt_identifier (or_field r) ''field'') (\<lambda>_.
     bind_res (check_all (\<lambda>(s, label). opt_digest s label)
       [(or_input r, ''input_digest''), (or_policy r, ''policy_digest''), (or_source r, ''source_receipt_digest''),
        (or_joint r, ''joint_samples_digest''), (or_artifact r, ''implementation_artifact_digest''),
        (or_frontier_digest r, ''frontier_digest''), (or_digest r, ''receipt_digest'')]) (\<lambda>_.
     bind_res (opt_canonical_digest (frontier_value (or_frontier r))) (\<lambda>fd.
     bind_res (guards
       [(or_frontier_digest r \<noteq> fd, receipt_error ''optimizer frontier digest mismatch''),
        (length (or_competitors r) \<noteq> length (or_ideal r) \<or> \<not> distinct (or_competitors r),
          receipt_error ''optimizer competitor roster differs'')]) (\<lambda>_.
     bind_res (check_all (\<lambda>c. opt_identifier c ''competitor'') (or_competitors r)) (\<lambda>_.
     bind_res (guards [(length (or_expected r) \<noteq> length (or_ideal r), receipt_error ''optimizer expected-time basis differs from roster'')]) (\<lambda>_.
     bind_res (mark_bounds (or_low r) (or_high r)) (\<lambda>_.
     bind_res (guards [(or_version r \<noteq> optimizer_version \<or> take 6 (or_dependency r) \<noteq> ''numpy:'',
       receipt_error ''optimizer receipt algorithm/dependency differs'')]) (\<lambda>_.
     bind_res (canonical_rounded_sheet (or_expected r) (or_low r) (or_high r)) (\<lambda>(ideal, baseline).
     bind_res (guards
       [(or_ideal r \<noteq> ideal \<or> or_baseline r \<noteq> baseline, receipt_error ''optimizer continuous ideal or canonical baseline differs''),
        (length (or_baseline r) \<noteq> length (or_ideal r) \<or> length (or_selected r) \<noteq> length (or_ideal r) \<or> length (or_deltas r) \<noteq> length (or_ideal r),
          receipt_error ''optimizer receipt field arrays differ''),
        (or_deltas r \<noteq> map2 (-) (or_selected r) (or_baseline r), receipt_error ''optimizer deltas differ from selected and baseline sheets''),
        (or_frontier r \<noteq> [] \<and> or_selected r \<notin> set (map fc_marks (or_frontier r)), receipt_error ''selected sheet is absent from the frontier''),
        (or_selected r \<noteq> [] \<and> \<not> is_legal (or_expected r) (or_selected r) (or_low r) (or_high r),
          receipt_error ''selected optimizer sheet is illegal''),
        (list_ex (\<lambda>c. \<not> is_legal (or_expected r) (fc_marks c) (or_low r) (or_high r)) (or_frontier r),
          receipt_error ''optimizer frontier contains an illegal sheet'')]) (\<lambda>_.
     bind_res (check_all opt_string [or_fairness_gain r, or_spread_change r, or_gap_cost r]) (\<lambda>_.
     bind_res (guards [(or_gap_cost r \<noteq> ov_gap (or_selected_objectives r), receipt_error ''optimizer gap-fidelity consequence differs'')]) (\<lambda>_.
     bind_res (decimal_change (ov_parity (or_baseline_objectives r)) (ov_parity (or_selected_objectives r))) (\<lambda>fairness.
     bind_res (if or_fairness_gain r \<noteq> fairness then Inr True
       else map_res (\<lambda>spread. or_spread_change r \<noteq> spread)
         (decimal_change (ov_spread (or_selected_objectives r)) (ov_spread (or_baseline_objectives r)))) (\<lambda>differs.
     bind_res (guards
       [(differs, receipt_error ''optimizer consequence deltas differ from objectives''),
        (or_samples r \<noteq> 4096 \<or> or_seed r < 0, receipt_error ''optimizer sampling authority differs'')]) (\<lambda>_.
     bind_res (fallback_check r) (\<lambda>_.
     bind_res (opt_canonical_digest (receipt_content r)) (\<lambda>d.
     bind_res (guards [(or_digest r \<noteq> d, receipt_error ''optimizer receipt digest mismatch'')]) (\<lambda>_.
     Inr r))))))))))))))))))"

subsection \<open>optimize_field\<close>

text \<open>\<open>_receipt\<close>.\<close>

definition build_receipt :: "optimizer_env \<Rightarrow> optimization_field \<Rightarrow> optimizer_policy \<Rightarrow> int \<Rightarrow> string list \<Rightarrow> int list \<Rightarrow>
    frontier_candidate list \<Rightarrow> int list \<Rightarrow> objective_vector \<Rightarrow> objective_vector \<Rightarrow> string \<Rightarrow> work_budget \<Rightarrow>
    optimizer_fallback option \<Rightarrow> opt_error + optimizer_receipt" where
  "build_receipt env f policy high ideal baseline frontier selected selected_objectives baseline_objectives strategy budget fallback =
     bind_res (opt_canonical_digest (frontier_value frontier)) (\<lambda>fd.
     bind_res (optimizer_policy_digest policy) (\<lambda>pd.
     bind_res (decimal_change (ov_parity baseline_objectives) (ov_parity selected_objectives)) (\<lambda>fairness.
     bind_res (decimal_change (ov_spread selected_objectives) (ov_spread baseline_objectives)) (\<lambda>spread.
     let r = \<lparr>or_field = of_id f, or_input = of_input f, or_policy = pd, or_source = of_source f, or_joint = of_joint f,
       or_competitors = map oc_id (of_competitors f), or_expected = map oc_expected (of_competitors f), or_low = 3, or_high = high,
       or_version = optimizer_version, or_dependency = ''numpy:'' @ oe_numpy env, or_artifact = oe_artifact env,
       or_ideal = ideal, or_baseline = baseline, or_frontier = frontier, or_selected = selected,
       or_selected_objectives = selected_objectives, or_baseline_objectives = baseline_objectives,
       or_deltas = map2 (-) selected baseline, or_fairness_gain = fairness, or_spread_change = spread,
       or_gap_cost = ov_gap selected_objectives, or_seed = of_seed f, or_samples = 4096, or_strategy = strategy, or_budget = budget,
       or_frontier_digest = fd, or_fallback = fallback, or_digest = []\<rparr> in
     bind_res (opt_canonical_digest (receipt_content r)) (\<lambda>d. mk_optimizer_receipt (r\<lparr>or_digest := d\<rparr>))))))"

text \<open>\<open>_evaluate_one\<close>: the arguments are the expected times and the samples of the field.\<close>

definition evaluate_one :: "int list \<Rightarrow> int list list \<Rightarrow> int list \<Rightarrow> int list \<Rightarrow> int \<Rightarrow> opt_error + objective_vector" where
  "evaluate_one expected columns marks baseline low =
     (let ctx = compile_evaluation_context expected columns baseline in
      bind_res (evaluate_candidates ctx low True [marks] empty_cache) (\<lambda>(items, _).
      bind_res (of_option KeyError (map_of items marks)) (\<lambda>v.
      materialize_raw_objective v (ec_entrants ctx) (ec_parity_denominator ctx) (ec_draws ctx))))"

text \<open>What a search reports: the strategy, the rounds, the sheets generated and evaluated, the limit and
  the frontier.\<close>

record search_outcome =
  so_strategy :: string
  so_rounds :: nat
  so_generated :: nat
  so_evaluated :: nat
  so_limit :: nat
  so_frontier :: "(int list \<times> objective_vector) list"

definition search_field :: "optimizer_policy \<Rightarrow> int list \<Rightarrow> int list list \<Rightarrow> int list \<Rightarrow> int \<Rightarrow> int \<Rightarrow> opt_error + search_outcome" where
  "search_field policy expected columns baseline low high =
     (if length expected \<le> op_small_field_maximum policy
      then (let marks = small_candidates expected baseline low high (op_small_field_radius policy);
                ctx = compile_evaluation_context expected columns baseline in
        bind_res (evaluate_candidates ctx low True marks empty_cache) (\<lambda>(evaluated, _).
        bind_res (pareto_frontier_small evaluated (length expected) (op_sample_count default_optimizer_policy)) (\<lambda>frontier.
        Inr \<lparr>so_strategy = ''exhaustive_radius_v1'', so_rounds = 0, so_generated = length marks, so_evaluated = length evaluated,
             so_limit = length marks, so_frontier = frontier\<rparr>)))
      else bind_res (beam_search expected columns baseline low high policy) (\<lambda>r.
        Inr \<lparr>so_strategy = ''deterministic_beam_v1'', so_rounds = br_rounds r, so_generated = br_generated r,
             so_evaluated = length (br_evaluated r), so_limit = br_limit r, so_frontier = br_frontier r\<rparr>))"

definition expansion_limit :: "nat \<Rightarrow> nat" where
  "expansion_limit n = (if 6 < n then min (8 * n) 128 else 0)"

text \<open>The body of the \<open>try\<close> statement: the search, the choice, and the receipt of the choice.\<close>

definition choice_receipt :: "optimizer_env \<Rightarrow> optimization_field \<Rightarrow> optimizer_policy \<Rightarrow> int \<Rightarrow> string list \<Rightarrow> int list \<Rightarrow>
    objective_vector \<Rightarrow> search_outcome \<Rightarrow> int list option \<Rightarrow> frontier_candidate list \<Rightarrow> opt_error + optimizer_receipt" where
  "choice_receipt env f policy high ideal baseline bo s choice candidates =
     (let budget = budget_of (expansion_limit (length (of_competitors f))) (so_rounds s) (so_generated s) (so_evaluated s) (so_limit s) in
      case choice of
        None \<Rightarrow> bind_res budget (\<lambda>budget.
          build_receipt env f policy high ideal baseline candidates baseline bo bo ''canonical_fallback'' budget (Some OF_NO_VALID_IMPROVEMENT))
      | Some selected \<Rightarrow>
          bind_res (of_option KeyError (map_of (rev (map (\<lambda>c. (fc_marks c, fc_objectives c)) candidates)) selected)) (\<lambda>so.
          bind_res budget (\<lambda>budget.
          build_receipt env f policy high ideal baseline candidates selected so bo (so_strategy s) budget None)))"

definition attempt_field :: "optimizer_env \<Rightarrow> optimization_field \<Rightarrow> optimizer_policy \<Rightarrow> int \<Rightarrow> int \<Rightarrow> string list \<Rightarrow> int list \<Rightarrow>
    objective_vector \<Rightarrow> opt_error + optimizer_receipt" where
  "attempt_field env f policy low high ideal baseline bo =
     bind_res (search_field policy (map oc_expected (of_competitors f)) (map oc_samples (of_competitors f)) baseline low high) (\<lambda>s.
     bind_res (guards [(so_frontier s = [], Abort OF_EMPTY_FRONTIER)]) (\<lambda>_.
     bind_res (select_chim (so_frontier s) baseline bo) (\<lambda>(choice, candidates).
     choice_receipt env f policy high ideal baseline bo s choice candidates)))"

definition fallback_of :: "opt_error \<Rightarrow> optimizer_fallback" where
  "fallback_of e = (case e of Abort reason \<Rightarrow> reason | _ \<Rightarrow> OF_OPTIMIZER_FAILURE)"

definition optimize_field :: "optimizer_env \<Rightarrow> optimization_field \<Rightarrow> int \<Rightarrow> int \<Rightarrow> optimizer_policy \<Rightarrow> opt_error + optimizer_receipt" where
  "optimize_field env f high low policy =
     bind_res (mark_bounds low high) (\<lambda>_.
     let expected = map oc_expected (of_competitors f); zero = \<lparr>ov_gap = ''0'', ov_parity = ''0'', ov_spread = ''0'', ov_movement = ''0''\<rparr> in
     bind_res (canonical_rounded_sheet expected low high) (\<lambda>(ideal, baseline).
     if of_competitors f = []
     then bind_res (budget_of 0 0 0 0 0) (\<lambda>budget.
       build_receipt env f policy high ideal baseline [] [] zero zero ''empty_field'' budget (Some OF_EMPTY_FIELD))
     else bind_res (evaluate_one expected (map oc_samples (of_competitors f)) baseline baseline low) (\<lambda>bo.
       if length (of_competitors f) = 1
       then bind_res (mk_frontier_candidate baseline bo [''0'', ''0'', ''0'', ''0''] ''0'') (\<lambda>candidate.
         bind_res (budget_of 0 0 1 1 1) (\<lambda>budget.
         build_receipt env f policy high ideal baseline [candidate] baseline bo bo ''single_competitor'' budget None))
       else (case attempt_field env f policy low high ideal baseline bo of
           Inr r \<Rightarrow> Inr r
         | Inl e \<Rightarrow> bind_res (budget_of 0 0 0 0 0) (\<lambda>budget.
             build_receipt env f policy high ideal baseline [] baseline bo bo ''canonical_fallback'' budget (Some (fallback_of e)))))))"

text \<open>\<open>evaluate_sheet\<close>: the public evaluation of one legal sheet against the canonical one.\<close>

definition evaluate_sheet :: "optimization_field \<Rightarrow> int list \<Rightarrow> int list \<Rightarrow> int \<Rightarrow> opt_error + objective_vector" where
  "evaluate_sheet f marks baseline low =
     (let expected = map oc_expected (of_competitors f) in
      bind_res (guards
        [(length marks \<noteq> length (of_competitors f), Contract (ContractError ''optimizer mark sheet is not legal'')),
         (length baseline \<noteq> length marks, Contract (ContractError ''baseline must cover the complete optimizer field''))]) (\<lambda>_.
      let high = (if marks @ baseline = [] then low else Max (set (marks @ baseline))) in
      bind_res (mark_bounds low high) (\<lambda>_.
      bind_res (guards [(\<not> is_legal expected marks low high, Contract (ContractError ''optimizer mark sheet is not legal''))]) (\<lambda>_.
      bind_res (canonical_rounded_sheet expected low high) (\<lambda>(_, canonical).
      bind_res (guards [(baseline \<noteq> canonical, Contract (ContractError ''baseline must equal the canonical rounded sheet''))]) (\<lambda>_.
      evaluate_one expected (map oc_samples (of_competitors f)) marks baseline low))))))"

end
