(* ===== verification/Optimizer_Receipts.thy ===== *)
theory Optimizer_Receipts
  imports Field_Optimizer
begin

section \<open>Receipts of the optimizer exist\<close>

text \<open>
  The fallback of \<open>optimize_field\<close> is outside its \<open>try\<close>, so its receipt must never raise: every text of
  it is bounded, hence it has a digest, and every check of the receipt holds.
\<close>

subsection \<open>Bounded values have digests\<close>

text \<open>Depth, number of items and size of the canonical form.\<close>

definition sized :: "int \<Rightarrow> nat \<Rightarrow> nat \<Rightarrow> py \<Rightarrow> bool" where
  "sized d c n v \<longleftrightarrow> (\<exists>j. plain v = Some j \<and> jwf j \<and> jfits d j \<and> jcount j \<le> int c \<and> jsize j \<le> n)"

lemma sized_null: "0 \<le> d \<Longrightarrow> 1 \<le> c \<Longrightarrow> 4 \<le> n \<Longrightarrow> sized d c n PNone"
  by (simp add: sized_def)

lemma sized_str: "0 \<le> d \<Longrightarrow> 1 \<le> c \<Longrightarrow> 2 + 6 * length s \<le> n \<Longrightarrow> sized d c n (PStr s)"
  by (simp add: sized_def)

lemma int64_string_length: "int64_ok i \<Longrightarrow> length (int_string i) \<le> 20"
proof -
  assume i: "int64_ok i"
  have "length (digits m) \<le> 19" if "m < 10 ^ 19" for m
    using digits_length_scaled [of m 0 19] that by (cases "m = 0") (simp_all add: digits.simps [of 0])
  moreover have "nat \<bar>i\<bar> < 10 ^ 19" using i by (simp add: int64_ok_def int64_min_def int64_max_def abs_if nat_less_iff)
  ultimately show ?thesis by (fastforce simp: int_string_def abs_if split: if_splits)
qed

lemma sized_int: "int64_ok i \<Longrightarrow> 0 \<le> d \<Longrightarrow> 1 \<le> c \<Longrightarrow> 20 \<le> n \<Longrightarrow> sized d c n (PInt i)"
  using int64_string_length [of i] by (simp add: sized_def)

lemma those_Some: "(\<And>x. x \<in> set xs \<Longrightarrow> f x = Some (g x)) \<Longrightarrow> those (map f xs) = Some (map g xs)"
  by (induction xs) auto

lemma those_map_Some: "those (map (\<lambda>x. Some (g x)) xs) = Some (map g xs)"
  by (induction xs) auto

lemma sum_bound: "(\<And>x. x \<in> set xs \<Longrightarrow> f x \<le> (b :: 'a::{linordered_semidom})) \<Longrightarrow> sum_list (map f xs) \<le> of_nat (length xs) * b"
proof (induction xs)
  case (Cons x xs)
  then have "f x \<le> b" "sum_list (map f xs) \<le> of_nat (length xs) * b" by simp_all
  then show ?case by (simp add: algebra_simps add_mono)
qed simp

lemma sized_seq:
  assumes "\<And>x. x \<in> set xs \<Longrightarrow> sized (d - 1) c n x" "0 \<le> d" "1 + length xs * c \<le> c'" "2 + length xs * (1 + n) \<le> n'"
  shows "sized d c' n' (PSeq xs)"
proof -
  let ?g = "\<lambda>x. the (plain x)"
  have g: "plain x = Some (?g x)" "jwf (?g x)" "jfits (d - 1) (?g x)" "jcount (?g x) \<le> int c" "jsize (?g x) \<le> n" if "x \<in> set xs" for x
    using assms(1) [OF that] by (auto simp: sized_def)
  have p: "plain (PSeq xs) = Some (JArr (map ?g xs))" using g(1) by (simp add: those_Some)
  have "sum_list (map (\<lambda>x. jcount (?g x)) xs) \<le> of_nat (length xs) * int c" by (rule sum_bound) (rule g(4))
  moreover have "int (1 + length xs * c) \<le> int c'" using assms(3) by (simp only: of_nat_le_iff)
  ultimately have c: "jcount (JArr (map ?g xs)) \<le> int c'" by (simp add: comp_def)
  have "sum_list (map (\<lambda>x. 1 + jsize (?g x)) xs) \<le> of_nat (length xs) * (1 + n)" by (rule sum_bound) (use g(5) in auto)
  then have "jsize (JArr (map ?g xs)) \<le> n'" using assms(4) by (simp add: comp_def)
  then show ?thesis using p c g(2,3) assms(2) by (auto simp: sized_def)
qed

lemma sized_obj:
  assumes "\<And>k v. (k, v) \<in> set kvs \<Longrightarrow> length k \<le> 40 \<and> sized (d - 1) c n v" "distinct (map fst kvs)" "0 \<le> d"
    "1 + length kvs * c \<le> c'" "2 + length kvs * (244 + n) \<le> n'"
  shows "sized d c' n' (obj kvs)"
proof -
  let ?g = "\<lambda>(k, v). (k, the (plain v))"
  have g: "plain v = Some (the (plain v))" "jwf (the (plain v))" "jfits (d - 1) (the (plain v))" "jcount (the (plain v)) \<le> int c"
    "jsize (the (plain v)) \<le> n" "length k \<le> 40" if "(k, v) \<in> set kvs" for k v
    using assms(1) [OF that] by (auto simp: sized_def)
  have "those (map ((\<lambda>(k, v). case k of PStr s \<Rightarrow> map_option (Pair s) (plain v) | _ \<Rightarrow> None) \<circ> (\<lambda>(k, v). (PStr k, v))) kvs) = Some (map ?g kvs)"
    by (rule those_Some) (use g(1) in \<open>auto split: prod.splits\<close>)
  then have p: "plain (obj kvs) = Some (JObj (map ?g kvs))" unfolding obj_def by simp
  have "sum_list (map (\<lambda>kv. jcount (snd (?g kv))) kvs) \<le> of_nat (length kvs) * int c" by (rule sum_bound) (use g(4) in auto)
  moreover have "int (1 + length kvs * c) \<le> int c'" using assms(4) by (simp only: of_nat_le_iff)
  ultimately have c: "jcount (JObj (map ?g kvs)) \<le> int c'" by (simp add: comp_def case_prod_unfold)
  have "sum_list (map (\<lambda>kv. 4 + 6 * length (fst (?g kv)) + jsize (snd (?g kv))) kvs) \<le> of_nat (length kvs) * (244 + n)"
    by (rule sum_bound) (use g(5,6) in fastforce)
  then have s: "jsize (JObj (map ?g kvs)) \<le> n'" using assms(5) by (simp add: comp_def case_prod_unfold)
  have "map fst (map ?g kvs) = map fst kvs" by (simp add: case_prod_unfold)
  then have "jwf (JObj (map ?g kvs))" using assms(2) g(2) by (auto simp del: map_map)
  moreover have "jfits d (JObj (map ?g kvs))" using assms(3) g(3) by auto
  ultimately show ?thesis using p c s unfolding sized_def by blast
qed

lemma sized_digest:
  assumes "sized 32 c n v" "c \<le> 100000" "n \<le> 524288"
  obtains d where "canonical_digest v = Inr d" "is_digest d"
proof -
  have "small_enough v" using assms
    by (auto simp: sized_def small_enough_def default_max_depth_def default_max_items_def default_max_bytes_def)
  then obtain b where "canonical_bytes v = Inr b" using canonical_bytes_exist by blast
  then have "canonical_digest v = Inr (sha256_hex b)" by (simp add: canonical_digest_def)
  then show thesis using that sha256_hex_is_digest by blast
qed

subsection \<open>Errors other than the abort of the search\<close>

definition clean :: "opt_error + 'a \<Rightarrow> bool" where
  "clean m \<longleftrightarrow> (\<forall>reason. m \<noteq> Inl (Abort reason))"

lemma clean_values: "clean (Inr x)" "clean (Inl (Contract c))" "clean (Inl InvalidOperation)" "clean (Inl KeyError)"
  by (simp_all add: clean_def)

lemma clean_bind: "clean m \<Longrightarrow> (\<And>x. clean (f x)) \<Longrightarrow> clean (bind_res m f)"
  by (cases m) (auto simp: clean_def)

lemma clean_map: "clean m \<Longrightarrow> clean (map_res f m)"
  by (cases m) (auto simp: clean_def)

lemma clean_contract: "clean (map_err Contract m)"
  by (cases m) (auto simp: clean_def)

lemma clean_option: "clean (of_option InvalidOperation m)" "clean (of_option KeyError m)"
  by (cases m; simp add: clean_def)+

lemma clean_guards: "list_all (\<lambda>(b, e). \<exists>c. e = Contract c) gs \<Longrightarrow> clean (guards gs)"
  by (induction gs rule: guards.induct) (auto simp: clean_def)

lemma clean_split: "(\<And>a b. clean (f a b)) \<Longrightarrow> clean (case p of (a, b) \<Rightarrow> f a b)"
  by (cases p) simp

lemma clean_if: "clean m \<Longrightarrow> clean m' \<Longrightarrow> clean (if b then m else m')"
  by simp

lemma clean_check_all: "(\<And>x. clean (f x)) \<Longrightarrow> clean (check_all f xs)"
  by (induction xs) (auto intro: clean_values clean_bind)

lemma clean_map_all: "(\<And>x. clean (f x)) \<Longrightarrow> clean (map_all f xs)"
  by (induction xs) (auto intro: clean_values clean_bind clean_map)

lemmas clean_rules = clean_values clean_bind clean_map clean_contract clean_option clean_split clean_if clean_check_all clean_map_all

lemma clean_parts:
  "clean (opt_digest s l)" "clean (opt_identifier s n)" "clean (opt_canonical_digest v)" "clean (opt_string s)"
  "clean (decimal_change a b)" "clean (mark_bounds low high)" "clean (optimizer_policy_digest p)" "clean (budget_of a' b' c' d' e')"
  unfolding opt_digest_def opt_identifier_def opt_canonical_digest_def opt_string_def decimal_change_def mark_bounds_def
    optimizer_policy_digest_def budget_of_def mk_work_budget_def
  by (rule clean_rules clean_guards | simp)+

lemma clean_sheet: "clean (canonical_rounded_sheet expected low high)"
  unfolding canonical_rounded_sheet_def round_half_even_seconds_def Let_def
  by (rule clean_rules clean_parts clean_guards | simp)+

lemma clean_fallback_check: "clean (fallback_check r)"
  unfolding fallback_check_def
  by (cases "or_fallback r"; simp split: optimizer_fallback.splits) (auto simp: clean_def split: if_splits)

lemma clean_receipt: "clean (mk_optimizer_receipt r)"
  unfolding mk_optimizer_receipt_def
  by (rule clean_rules clean_parts clean_sheet clean_fallback_check | (rule clean_guards, simp; fail))+

lemma clean_build: "clean (build_receipt env f p h i b fr s so bo st bu fa)"
  unfolding build_receipt_def Let_def by (rule clean_rules clean_parts clean_receipt)+

lemma clean_candidate: "clean (mk_frontier_candidate m v ns k)"
  unfolding mk_frontier_candidate_def by (rule clean_rules | (rule clean_guards, simp; fail))+

text \<open>Elimination of the calls that succeeded.\<close>

lemma bind_resE: "bind_res m f = Inr r \<Longrightarrow> (\<And>x. m = Inr x \<Longrightarrow> f x = Inr r \<Longrightarrow> thesis) \<Longrightarrow> thesis"
  by (cases m) simp_all

lemma case_resE: "(case p of (a, b) \<Rightarrow> f a b) = Inr r \<Longrightarrow> (\<And>a b. p = (a, b) \<Longrightarrow> f a b = Inr r \<Longrightarrow> thesis) \<Longrightarrow> thesis"
  by (cases p) simp

lemma if_Inl_Inr: "(if b then Inl e else m) = Inr x \<longleftrightarrow> \<not> b \<and> m = Inr x"
  by simp

subsection \<open>What constructed fields satisfy\<close>

definition competitor_ok :: "optimization_competitor \<Rightarrow> bool" where
  "competitor_ok c \<longleftrightarrow> mk_optimization_competitor (oc_id c) (oc_expected c) (oc_samples c) (oc_index c) (Some (oc_distribution c)) = Inr c"

definition field_ok :: "optimization_field \<Rightarrow> bool" where
  "field_ok f \<longleftrightarrow> mk_optimization_field f = Inr f \<and> list_all competitor_ok (of_competitors f)"

lemma opt_digest_Inr [result_simps]: "opt_digest s l = Inr u \<longleftrightarrow> is_digest s"
  by (simp add: opt_digest_def)

lemma opt_identifier_Inr [result_simps]:
  "opt_identifier s n = Inr t \<longleftrightarrow> t = s \<and> identifier_ok s \<and> namespace_ok n \<and> identifier_namespace s = n"
  by (auto simp: opt_identifier_def map_err_Inr require_identifier_Inr)

lemma opt_canonical_digest_Inr [result_simps]: "opt_canonical_digest v = Inr d \<longleftrightarrow> canonical_digest v = Inr d"
  by (simp add: opt_canonical_digest_def map_err_Inr)

lemma competitor_okD:
  assumes "competitor_ok c"
  shows "identifier_ok (oc_id c)" "identifier_namespace (oc_id c) = ''competitor''" "time_ok (oc_expected c)" "length (oc_samples c) = 4096"
    "list_all time_ok (oc_samples c)"
proof -
  have "identifier_ok (oc_id c) \<and> identifier_namespace (oc_id c) = ''competitor'' \<and> 0 < oc_expected c
      \<and> length (oc_samples c) = 4096 \<and> \<not> list_ex (\<lambda>v. v \<le> 0) (oc_samples c)
      \<and> oc_expected c \<le> 2000000000 \<and> Max (set (oc_samples c)) \<le> 2000000000"
    using assms unfolding competitor_ok_def mk_optimization_competitor_def
    by (auto simp: result_simps default_optimizer_policy_def not_less split: if_splits)
  then have m: "identifier_ok (oc_id c)" "identifier_namespace (oc_id c) = ''competitor''"
    "0 < oc_expected c" "length (oc_samples c) = 4096" "\<not> list_ex (\<lambda>v. v \<le> 0) (oc_samples c)"
    "oc_expected c \<le> 2000000000" "Max (set (oc_samples c)) \<le> 2000000000" by blast+
  then show "identifier_ok (oc_id c)" "identifier_namespace (oc_id c) = ''competitor''" "time_ok (oc_expected c)" "length (oc_samples c) = 4096"
    by (simp_all add: time_ok_def)
  show "list_all time_ok (oc_samples c)"
    unfolding list_all_iff time_ok_def
  proof (rule ballI, rule conjI)
    fix v assume v: "v \<in> set (oc_samples c)"
    then show "0 < v" using m(5) by (auto simp: list_ex_iff not_le)
    have "v \<le> Max (set (oc_samples c))" using v by simp
    then show "v \<le> 2000000000" using m(7) by linarith
  qed
qed

lemma identifier_length: "identifier_ok s \<Longrightarrow> length s \<le> 128"
proof -
  assume s: "identifier_ok s"
  have h: "head_tail_pattern p q n t \<Longrightarrow> length t \<le> n + 1" for p q n t
    by (cases t) (auto simp: head_tail_pattern_def)
  have "length (before_colon s) \<le> 32" "length (after_colon s) \<le> 95"
    using s h [of id_head ns_rest 31 "before_colon s"] h [of is_alnum local_rest 94 "after_colon s"]
    by (simp_all add: identifier_ok_def namespace_ok_def)
  moreover have "s = before_colon s @ CHR '':'' # after_colon s" using s by (intro identifier_parts) (simp add: identifier_ok_def)
  then have "length s = length (before_colon s) + 1 + length (after_colon s)" by (metis add.assoc length_Cons length_append plus_1_eq_Suc)
  ultimately show ?thesis by simp
qed

lemma field_okD:
  assumes "field_ok f"
  shows "identifier_ok (of_id f)" "identifier_namespace (of_id f) = ''field''" "is_digest (of_source f)" "is_digest (of_joint f)"
    "is_digest (of_input f)" "0 \<le> of_seed f" "length (of_competitors f) \<le> 12" "distinct (map oc_id (of_competitors f))"
    "int64_ok (of_seed f)" "\<And>c. c \<in> set (of_competitors f) \<Longrightarrow> competitor_ok c"
proof -
  have mk: "identifier_ok (of_id f) \<and> identifier_namespace (of_id f) = ''field'' \<and> is_digest (of_source f) \<and> is_digest (of_joint f)
      \<and> is_digest (of_input f) \<and> 0 \<le> of_seed f \<and> length (of_competitors f) \<le> 12 \<and> distinct (map oc_id (of_competitors f))
      \<and> canonical_digest (field_content f) = Inr (of_input f)"
    using assms unfolding field_ok_def mk_optimization_field_def
    by (auto simp: result_simps max_optimizer_entrants_def not_less split: if_splits)
  then show "identifier_ok (of_id f)" "identifier_namespace (of_id f) = ''field''" "is_digest (of_source f)" "is_digest (of_joint f)"
    "is_digest (of_input f)" "0 \<le> of_seed f" "length (of_competitors f) \<le> 12" "distinct (map oc_id (of_competitors f))" by simp_all
  show "\<And>c. c \<in> set (of_competitors f) \<Longrightarrow> competitor_ok c" using assms by (simp add: field_ok_def list_all_iff)
  obtain b where "canonical_bytes (field_content f) = Inr b" using mk by (auto simp: canonical_digest_def map_res_Inr)
  then obtain j m where j: "normalize default_max_depth default_max_items 0 0 (field_content f) = Inr (j, m)"
    by (auto simp: canonical_bytes_Inr)
  then have "jwf j" using normalize_sound(1) by blast
  moreover have "plain (field_content f) = Some i \<Longrightarrow> i = j" for i using normalize_plain(1) [OF j] by blast
  moreover obtain cs where "plain (field_content f) = Some (JObj
     [(''schema_version'', JStr ''strathmark-v3-optimizer-input-v1''), (''field_id'', JStr (of_id f)),
      (''source_receipt_digest'', JStr (of_source f)), (''seed'', JInt (of_seed f)), (''competitors'', cs),
      (''joint_samples_digest'', JStr (of_joint f)), (''sample_matrix_digest'', JStr (of_matrix f)), (''pool_receipt_digest'', JStr (of_pool f))])"
  proof -
    have "plain (competitor_value c) = Some (the (plain (competitor_value c)))" for c
      by (simp add: competitor_value_def obj_def)
    then have "those (map plain (map competitor_value cs)) = Some (map (\<lambda>c. the (plain (competitor_value c))) cs)" for cs
      unfolding map_map by (intro those_Some) simp
    then show thesis by (intro that) (simp add: field_content_def obj_def)
  qed
  ultimately show "int64_ok (of_seed f)" by fastforce
qed

lemma field_columns:
  assumes "field_ok f" "of_competitors f \<noteq> []"
  shows "columns_ok (map oc_expected (of_competitors f)) (map oc_samples (of_competitors f))"
    "length (hd (map oc_samples (of_competitors f))) = 4096"
proof -
  have hd: "hd (map oc_samples (of_competitors f)) = oc_samples (hd (of_competitors f))" "hd (of_competitors f) \<in> set (of_competitors f)"
    using assms(2) by (simp_all add: hd_map)
  note c = competitor_okD [OF field_okD(10) [OF assms(1)]]
  show len: "length (hd (map oc_samples (of_competitors f))) = 4096" unfolding hd(1) by (rule c(4) [OF hd(2)])
  show "columns_ok (map oc_expected (of_competitors f)) (map oc_samples (of_competitors f))"
    unfolding columns_ok_def len using assms(2) field_okD(7) [OF assms(1)] c(3-5) by (auto simp: list_all_iff)
qed

subsection \<open>Receipts on the canonical sheet\<close>

definition env_ok :: "optimizer_env \<Rightarrow> bool" where
  "env_ok env \<longleftrightarrow> implementation_artifact_digest env = Inr (oe_artifact env) \<and> length (oe_numpy env) \<le> 100"

definition objectives_ok :: "objective_vector \<Rightarrow> bool" where
  "objectives_ok v \<longleftrightarrow> list_all (\<lambda>s. length s \<le> 128) [ov_gap v, ov_parity v, ov_spread v, ov_movement v]
     \<and> opt_string (ov_gap v) = Inr (ov_gap v)"

lemma zero_text: "dec_string (Dc 0 0) = Inr ''0''" "opt_string ''0'' = Inr ''0''"
proof -
  show z: "dec_string (Dc 0 0) = Inr ''0''"
    by (simp add: dec_string_def canonical_decimal_string_def decimal_of_value_def dec_py_def render_decimal_zero)
  show "opt_string ''0'' = Inr ''0''"
    using canonical_decimal_string_idem [OF z [unfolded dec_string_def]] by (simp add: opt_string_def)
qed

lemma decimal_change_self: "decimal_change s s = Inr ''0''"
  by (simp add: decimal_change_def dec_sub_def zero_text)

lemma sized_obj_list:
  assumes "list_all (\<lambda>(k, v). length k \<le> 40 \<and> sized (d - 1) c n v) kvs" "distinct (map fst kvs)" "0 \<le> d"
    "1 + length kvs * c \<le> c'" "2 + length kvs * (244 + n) \<le> n'"
  shows "sized d c' n' (obj kvs)"
  by (rule sized_obj [OF _ assms(2-5)]) (use assms(1) in \<open>auto simp: list_all_iff\<close>)

lemma sized_texts:
  assumes "\<forall>s \<in> set ss. length s \<le> 128" "length ss \<le> 12" "1 \<le> d"
  shows "sized d 54 17500 (PSeq (map PStr ss))"
  by (rule sized_seq [where c = 1 and n = 770]) (use assms in \<open>auto intro!: sized_str\<close>)

lemma sized_numbers:
  assumes "\<forall>n \<in> set ns. int64_ok n" "length ns \<le> 12" "1 \<le> d" "13 \<le> c" "260 \<le> n"
  shows "sized d c n (PSeq (map PInt ns))"
  by (rule sized_seq [where c = 1 and n = 20]) (use assms in \<open>auto intro!: sized_int\<close>)

lemma small_int64: "0 \<le> n \<Longrightarrow> n \<le> 2000000000 \<Longrightarrow> int64_ok n"
  by (simp add: int64_ok_def int64_min_def int64_max_def)

lemma sized_objectives: "objectives_ok v \<Longrightarrow> 1 \<le> d \<Longrightarrow> 5 \<le> c \<Longrightarrow> 4100 \<le> n \<Longrightarrow> sized d c n (objective_to_dict v)"
  unfolding objective_to_dict_def
  by (rule sized_obj_list [where c = 1 and n = 770]) (auto simp: objectives_ok_def intro!: sized_str)

lemma sized_budget:
  assumes "list_all (\<lambda>v. 0 \<le> v \<and> v \<le> 2000000000) (work_budget_values b)" "1 \<le> d"
  shows "sized d 54 17500 (work_budget_to_dict b)"
  unfolding work_budget_to_dict_def
  by (rule sized_obj_list [where c = 1 and n = 20]) (use assms in \<open>auto simp: work_budget_values_def intro!: sized_int small_int64\<close>)

text \<open>The candidate of a field of one.\<close>

lemma sized_candidate:
  assumes "\<forall>m \<in> set (fc_marks c). 0 \<le> m \<and> m \<le> 2000000000" "length (fc_marks c) \<le> 12" "objectives_ok (fc_objectives c)"
    "fc_normalized c = [''0'', ''0'', ''0'', ''0'']" "fc_knee c = ''0''" "2 \<le> d"
  shows "sized d 53 17400 (candidate_to_dict c)"
proof -
  have m: "sized (d - 1) 13 4100 (PSeq (map PInt (fc_marks c)))" using assms(1,2,6) by (intro sized_numbers) (auto intro: small_int64)
  have o: "sized (d - 1) 13 4100 (objective_to_dict (fc_objectives c))" using assms(3,6) by (intro sized_objectives) auto
  have n: "sized (d - 1) 13 4100 (PSeq (map PStr (fc_normalized c)))"
    by (rule sized_seq [where c = 1 and n = 10]) (use assms(4,6) in \<open>auto intro!: sized_str\<close>)
  have k: "sized (d - 1) 13 4100 (PStr (fc_knee c))" using assms(5,6) by (intro sized_str) auto
  show ?thesis unfolding candidate_to_dict_def
    by (rule sized_obj_list [where c = 13 and n = 4100]) (use m o n k assms(6) in simp_all)
qed

lemma policy_digest_exists: obtains d where "optimizer_policy_digest default_optimizer_policy = Inr d" "is_digest d"
proof -
  have "sized 32 100 100000 (optimizer_policy_to_dict default_optimizer_policy)"
    unfolding optimizer_policy_to_dict_def
    by (rule sized_obj_list [where c = 1 and n = 200])
      (simp_all add: default_optimizer_policy_def optimizer_version_def sized_int sized_str small_int64)
  then obtain d where "canonical_digest (optimizer_policy_to_dict default_optimizer_policy) = Inr d" "is_digest d"
    by (rule sized_digest) simp_all
  then show thesis by (intro that) (simp_all add: optimizer_policy_digest_def opt_canonical_digest_def)
qed

text \<open>The digest of the content of a receipt, whatever the digest field holds.\<close>

lemma receipt_content_digest [simp]: "receipt_content (r\<lparr>or_digest := d\<rparr>) = receipt_content r"
  by (simp add: receipt_content_def)

definition receipt_bounded :: "optimizer_receipt \<Rightarrow> bool" where
  "receipt_bounded r \<longleftrightarrow>
     list_all (\<lambda>s. length s \<le> 128) [or_field r, or_input r, or_policy r, or_source r, or_joint r, or_version r, or_dependency r, or_artifact r,
       or_fairness_gain r, or_spread_change r, or_gap_cost r, or_strategy r, or_frontier_digest r]
     \<and> list_all int64_ok [or_low r, or_high r, or_samples r, or_seed r]
     \<and> list_all (\<lambda>ns. list_all int64_ok ns \<and> length ns \<le> 12) [or_expected r, or_baseline r, or_selected r, or_deltas r]
     \<and> list_all (\<lambda>ss. list_all (\<lambda>s. length s \<le> 128) ss \<and> length ss \<le> 12) [or_competitors r, or_ideal r]
     \<and> objectives_ok (or_selected_objectives r) \<and> objectives_ok (or_baseline_objectives r)
     \<and> list_all (\<lambda>v. 0 \<le> v \<and> v \<le> 2000000000) (work_budget_values (or_budget r))
     \<and> sized 31 54 17500 (frontier_value (or_frontier r))"

lemma fallback_value_length: "length (optimizer_fallback_value x) \<le> 40"
  by (cases x) simp_all

lemma receipt_sized:
  assumes "receipt_bounded r"
  shows "sized 32 10000 520000 (receipt_content r)"
proof -
  note b = assms [unfolded receipt_bounded_def list.pred_inject(2) list.pred_inject(1)]
  have one: "sized 31 54 17500 (PStr s)" if "length s \<le> 128" for s using that by (intro sized_str) simp_all
  have num: "sized 31 54 17500 (PInt n)" if "int64_ok n" for n using that by (intro sized_int) simp_all
  have texts: "sized 31 54 17500 (PSeq (map PStr ss))" if "list_all (\<lambda>s. length s \<le> 128) ss \<and> length ss \<le> 12" for ss
    using that by (intro sized_texts) (auto simp: list_all_iff)
  have nums: "sized 31 54 17500 (PSeq (map PInt ns))" if "list_all int64_ok ns \<and> length ns \<le> 12" for ns
    using that by (intro sized_numbers) (auto simp: list_all_iff)
  have objectives: "sized 31 54 17500 (objective_to_dict v)" if "objectives_ok v" for v
    using that by (intro sized_objectives) simp_all
  have budget: "sized 31 54 17500 (work_budget_to_dict (or_budget r))" using b by (intro sized_budget) simp_all
  have fb: "sized 31 54 17500 (opt_str (map_option optimizer_fallback_value (or_fallback r)))"
  proof (cases "or_fallback r")
    case None
    then show ?thesis by (simp add: opt_str_def sized_null)
  next
    case (Some x)
    then show ?thesis using fallback_value_length [of x] by (simp add: opt_str_def one)
  qed
  show ?thesis unfolding receipt_content_def
    by (rule sized_obj_list [where c = 54 and n = 17500])
      (use b in \<open>simp_all add: one num texts nums objectives budget fb\<close>)
qed

lemma check_all_Inr: "(\<And>x. x \<in> set xs \<Longrightarrow> \<exists>y. f x = Inr y) \<Longrightarrow> check_all f xs = Inr ()"
proof (induction xs)
  case (Cons x xs)
  obtain y where "f x = Inr y" using Cons.prems [of x] by auto
  then show ?case using Cons by simp
qed simp

lemma digest_short: "is_digest s \<Longrightarrow> length s \<le> 128"
  by (simp add: is_digest_def)

lemma namespaces_ok: "namespace_ok ''field''" "namespace_ok ''competitor''"
  by code_simp+

text \<open>All checks of a receipt, one after the other.\<close>

lemma mk_optimizer_receipt_ok:
  assumes "opt_identifier (or_field r) ''field'' = Inr (or_field r)" "is_digest (or_input r)" "is_digest (or_policy r)" "is_digest (or_source r)"
    "is_digest (or_joint r)" "is_digest (or_artifact r)" "is_digest (or_frontier_digest r)" "is_digest (or_digest r)"
    "canonical_digest (frontier_value (or_frontier r)) = Inr (or_frontier_digest r)"
    "length (or_competitors r) = length (or_ideal r)" "distinct (or_competitors r)"
    "check_all (\<lambda>c. opt_identifier c ''competitor'') (or_competitors r) = Inr ()" "length (or_expected r) = length (or_ideal r)"
    "mark_bounds (or_low r) (or_high r) = Inr ()" "or_version r = optimizer_version" "take 6 (or_dependency r) = ''numpy:''"
    "canonical_rounded_sheet (or_expected r) (or_low r) (or_high r) = Inr (or_ideal r, or_baseline r)"
    "length (or_baseline r) = length (or_ideal r)" "length (or_selected r) = length (or_ideal r)"
    "or_deltas r = map2 (-) (or_selected r) (or_baseline r)" "or_frontier r \<noteq> [] \<longrightarrow> or_selected r \<in> set (map fc_marks (or_frontier r))"
    "or_selected r \<noteq> [] \<longrightarrow> is_legal (or_expected r) (or_selected r) (or_low r) (or_high r)"
    "\<forall>c \<in> set (or_frontier r). is_legal (or_expected r) (fc_marks c) (or_low r) (or_high r)"
    "check_all opt_string [or_fairness_gain r, or_spread_change r, or_gap_cost r] = Inr ()" "or_gap_cost r = ov_gap (or_selected_objectives r)"
    "decimal_change (ov_parity (or_baseline_objectives r)) (ov_parity (or_selected_objectives r)) = Inr (or_fairness_gain r)"
    "decimal_change (ov_spread (or_selected_objectives r)) (ov_spread (or_baseline_objectives r)) = Inr (or_spread_change r)"
    "or_samples r = 4096" "0 \<le> or_seed r" "fallback_check r = Inr ()" "canonical_digest (receipt_content r) = Inr (or_digest r)"
  shows "mk_optimizer_receipt r = Inr r"
proof -
  have dg: "check_all (\<lambda>(s, label). opt_digest s label)
       [(or_input r, ''input_digest''), (or_policy r, ''policy_digest''), (or_source r, ''source_receipt_digest''),
        (or_joint r, ''joint_samples_digest''), (or_artifact r, ''implementation_artifact_digest''),
        (or_frontier_digest r, ''frontier_digest''), (or_digest r, ''receipt_digest'')] = Inr ()"
    using assms(2-8) by (intro check_all_Inr) (auto simp: opt_digest_Inr)
  have fd: "opt_canonical_digest (frontier_value (or_frontier r)) = Inr (or_frontier_digest r)"
    "opt_canonical_digest (receipt_content r) = Inr (or_digest r)" using assms by (simp_all add: opt_canonical_digest_Inr)
  have g: "\<not> (or_frontier r \<noteq> [] \<and> or_selected r \<notin> set (map fc_marks (or_frontier r)))"
    "\<not> (or_selected r \<noteq> [] \<and> \<not> is_legal (or_expected r) (or_selected r) (or_low r) (or_high r))"
    "\<not> list_ex (\<lambda>c. \<not> is_legal (or_expected r) (fc_marks c) (or_low r) (or_high r)) (or_frontier r)"
    using assms(21-23) by (auto simp: list_ex_iff)
  have ng: "\<not> or_seed r < 0" "length (or_deltas r) = length (or_ideal r)" using assms(18-20,29) by simp_all
  show ?thesis unfolding mk_optimizer_receipt_def assms(1) bind_res.simps dg fd assms(12,14) assms(17) prod.case assms(24,26,27,30)
    by (simp only: guards.simps assms(10,11,13,15,16,18,19,25,28) assms(20) [symmetric] g ng bind_res.simps map_res.simps simp_thms if_False refl not_True_eq_False not_False_eq_True if_True)
qed

text \<open>A receipt that returns the canonical sheet is complete.\<close>

lemma build_receipt_ok:
  assumes "field_ok f" "env_ok env" "mark_bounds 3 high = Inr ()"
    "canonical_rounded_sheet (map oc_expected (of_competitors f)) 3 high = Inr (ideal, baseline)"
    "length ideal = length (of_competitors f)" "length baseline = length (of_competitors f)"
    "list_all (\<lambda>s. length s \<le> 128) ideal" "list_all (\<lambda>m. 3 \<le> m \<and> m \<le> 183) baseline"
    "baseline = [] \<or> is_legal (map oc_expected (of_competitors f)) baseline 3 high"
    "objectives_ok bo" "list_all (\<lambda>v. 0 \<le> v \<and> v \<le> 2000000000) (work_budget_values budget)" "length strategy \<le> 128"
    "\<And>d. 30 \<le> d \<Longrightarrow> sized d 54 17500 (frontier_value frontier)" "\<forall>c \<in> set frontier. fc_marks c = baseline"
    "frontier \<noteq> [] \<longrightarrow> baseline \<noteq> []"
    "\<And>r. or_ideal r = ideal \<Longrightarrow> or_frontier r = frontier \<Longrightarrow> or_selected r = baseline \<Longrightarrow> or_baseline r = baseline
       \<Longrightarrow> or_strategy r = strategy \<Longrightarrow> or_budget r = budget \<Longrightarrow> or_fallback r = fallback \<Longrightarrow> fallback_check r = Inr ()"
  obtains r where
    "build_receipt env f default_optimizer_policy high ideal baseline frontier baseline bo bo strategy budget fallback = Inr r"
    "or_selected r = baseline" "or_baseline r = baseline" "or_frontier r = frontier" "or_fallback r = fallback"
    "or_selected_objectives r = bo" "or_baseline_objectives r = bo"
proof -
  let ?cs = "of_competitors f"
  note fd = field_okD [OF assms(1)] and cd = competitor_okD [OF field_okD(10) [OF assms(1)]]
  obtain fdg where fdg: "canonical_digest (frontier_value frontier) = Inr fdg" "is_digest fdg"
    by (rule sized_digest [OF assms(13)]) simp_all
  obtain pdg where pdg: "optimizer_policy_digest default_optimizer_policy = Inr pdg" "is_digest pdg"
    by (rule policy_digest_exists)
  have art: "is_digest (oe_artifact env)" "length (oe_numpy env) \<le> 100"
    using assms(2) canonical_digest_is_digest by (auto simp: env_ok_def implementation_artifact_digest_def opt_canonical_digest_Inr)
  define r where "r = \<lparr>or_field = of_id f, or_input = of_input f, or_policy = pdg, or_source = of_source f, or_joint = of_joint f,
       or_competitors = map oc_id ?cs, or_expected = map oc_expected ?cs, or_low = 3, or_high = high,
       or_version = optimizer_version, or_dependency = ''numpy:'' @ oe_numpy env, or_artifact = oe_artifact env,
       or_ideal = ideal, or_baseline = baseline, or_frontier = frontier, or_selected = baseline,
       or_selected_objectives = bo, or_baseline_objectives = bo,
       or_deltas = map2 (-) baseline baseline, or_fairness_gain = ''0'', or_spread_change = ''0'',
       or_gap_cost = ov_gap bo, or_seed = of_seed f, or_samples = 4096, or_strategy = strategy, or_budget = budget,
       or_frontier_digest = fdg, or_fallback = fallback, or_digest = []\<rparr>"
  have hb: "3 \<le> high" "high \<le> 183" using assms(3) by (simp_all add: mark_bounds_def split: if_splits)
  have deltas: "map2 (-) baseline baseline = map (\<lambda>_. 0) baseline" by (induction baseline) simp_all
  have times: "list_all int64_ok (map oc_expected ?cs)"
    using cd(3) by (auto simp: list_all_iff time_ok_def int64_ok_def int64_min_def int64_max_def ) (smt (verit))+
  have marks: "list_all int64_ok baseline" using assms(8) small_int64 by (fastforce simp: list_all_iff)
  have ids: "list_all (\<lambda>s. length s \<le> 128) (map oc_id ?cs)" using identifier_length [OF cd(1)] by (simp add: list_all_iff)
  have bounded: "receipt_bounded r"
    unfolding receipt_bounded_def r_def optimizer_receipt.select_convs deltas
    using identifier_length [OF fd(1)] digest_short [OF fd(5)] digest_short [OF pdg(2)] digest_short [OF fd(3)] digest_short [OF fd(4)]
      digest_short [OF art(1)] digest_short [OF fdg(2)] art(2) assms(5-7,10-12) fd(7,9) hb ids times marks assms(13) [of 31]
    by (simp add: small_int64 objectives_ok_def optimizer_version_def list_all_iff comp_def)
  obtain d where d: "canonical_digest (receipt_content r) = Inr d" "is_digest d"
    by (rule sized_digest [OF receipt_sized [OF bounded]]) simp_all
  have content: "receipt_content (r\<lparr>or_digest := d\<rparr>) = receipt_content r" by simp
  have fb: "fallback_check (r\<lparr>or_digest := d\<rparr>) = Inr ()" by (rule assms(16)) (simp_all add: r_def)
  have cids: "check_all (\<lambda>c. opt_identifier c ''competitor'') (map oc_id ?cs) = Inr ()"
    using cd(1,2) namespaces_ok by (intro check_all_Inr) (auto simp: opt_identifier_Inr)
  have frl: "\<not> list_ex (\<lambda>c. \<not> is_legal (map oc_expected ?cs) (fc_marks c) 3 high) frontier"
    using assms(9,14,15) by (cases frontier) (auto simp: list_ex_iff)
  have sel: "\<not> (frontier \<noteq> [] \<and> baseline \<notin> set (map fc_marks frontier))" using assms(14) by (cases frontier) auto
  have mk: "mk_optimizer_receipt (r\<lparr>or_digest := d\<rparr>) = Inr (r\<lparr>or_digest := d\<rparr>)"
  proof (rule mk_optimizer_receipt_ok)
    show "check_all opt_string [or_fairness_gain (r\<lparr>or_digest := d\<rparr>), or_spread_change (r\<lparr>or_digest := d\<rparr>), or_gap_cost (r\<lparr>or_digest := d\<rparr>)] = Inr ()"
      using assms(10) by (simp add: r_def zero_text objectives_ok_def)
    show "or_frontier (r\<lparr>or_digest := d\<rparr>) \<noteq> [] \<longrightarrow> or_selected (r\<lparr>or_digest := d\<rparr>) \<in> set (map fc_marks (or_frontier (r\<lparr>or_digest := d\<rparr>)))"
      using sel by (auto simp: r_def)
    show "\<forall>c \<in> set (or_frontier (r\<lparr>or_digest := d\<rparr>)). is_legal (or_expected (r\<lparr>or_digest := d\<rparr>)) (fc_marks c) (or_low (r\<lparr>or_digest := d\<rparr>)) (or_high (r\<lparr>or_digest := d\<rparr>))"
      using frl by (simp add: r_def list_ex_iff)
    show "or_selected (r\<lparr>or_digest := d\<rparr>) \<noteq> [] \<longrightarrow> is_legal (or_expected (r\<lparr>or_digest := d\<rparr>)) (or_selected (r\<lparr>or_digest := d\<rparr>))
        (or_low (r\<lparr>or_digest := d\<rparr>)) (or_high (r\<lparr>or_digest := d\<rparr>))"
      using assms(9) by (auto simp: r_def)
    show "fallback_check (r\<lparr>or_digest := d\<rparr>) = Inr ()" by (rule fb)
    show "canonical_digest (receipt_content (r\<lparr>or_digest := d\<rparr>)) = Inr (or_digest (r\<lparr>or_digest := d\<rparr>))" using d(1) by simp
  qed (use fd(1-6,8) pdg(2) art(1) fdg d namespaces_ok cids assms(3-6) in
      \<open>simp_all add: r_def opt_identifier_Inr decimal_change_self\<close>)
  have "build_receipt env f default_optimizer_policy high ideal baseline frontier baseline bo bo strategy budget fallback
      = Inr (r\<lparr>or_digest := d\<rparr>)"
    unfolding build_receipt_def decimal_change_self pdg(1) opt_canonical_digest_def fdg(1) map_err.simps bind_res.simps Let_def
    unfolding r_def [symmetric] using d(1) mk by simp
  then show thesis by (rule that) (simp_all add: r_def)
qed

end
