(* ===== verification/Optimizer_Outcome.thy ===== *)
theory Optimizer_Outcome
  imports Optimizer_Receipts
begin

section \<open>What optimize_field returns\<close>

text \<open>
  The search and the evaluation never raise on a constructed field; the choice and the receipt of the
  result may, and then the fallback returns the canonical sheet.
\<close>

subsection \<open>Evaluations\<close>

lemma dec_string_length: "dec_string d = Inr s \<Longrightarrow> length s \<le> 128"
proof -
  assume "dec_string d = Inr s"
  then obtain d' where "render_decimal d' = Inr s"
    unfolding dec_string_def by (rule canonical_decimal_string_parse)
  then show ?thesis using render_decimal_parse by blast
qed

lemma ratio_text_facts:
  assumes "0 \<le> num" "num < 10 ^ 30" "0 < den" "den < 10 ^ 12"
  shows "length (ratio_text num den) \<le> 128" "opt_string (ratio_text num den) = Inr (ratio_text num den)"
proof -
  note d = ratio_text_ok(3) [OF assms]
  show "length (ratio_text num den) \<le> 128" by (rule dec_string_length [OF d])
  show "opt_string (ratio_text num den) = Inr (ratio_text num den)"
    using canonical_decimal_string_idem [OF d [unfolded dec_string_def]] by (simp add: opt_string_def)
qed

lemma objective_texts_ok:
  assumes "writable v" "0 < n" "n \<le> 12" "0 < draws" "draws \<le> 4096"
  shows "objectives_ok (objective_texts n draws v)"
proof -
  obtain g p s m where v: "v = (g, p, s, m)" by (cases v)
  have d: "\<forall>d \<in> set (raw_denominators n draws). 0 \<le> d \<and> d \<le> 2000000000" by (rule small_denominators [OF assms(3,5)])
  have sc: "0 < credit_scale_of n" using credit_scale_range [OF assms(3)] by simp
  have pd: "0 < credit_scale_of n * int draws * int n" "credit_scale_of n * int draws * int n < 10 ^ 12"
    "(0 :: int) < int n" "int n < 10 ^ 12" "(0 :: int) < int draws" "int draws < 10 ^ 12"
    using d sc assms by (simp_all add: raw_denominators_def)
  have w: "0 \<le> g" "g < 10 ^ 30" "0 \<le> p" "p < 10 ^ 30" "0 \<le> s" "s < 10 ^ 30" "0 \<le> m" "m < 10 ^ 30"
    using assms(1) by (simp_all add: writable_def v objective_list_def)
  show ?thesis
    using ratio_text_facts [OF w(1,2) pd(3,4)] ratio_text_facts [OF w(3,4) pd(1,2)]
      ratio_text_facts [OF w(5,6) pd(5,6)] ratio_text_facts [OF w(7,8) pd(3,4)]
    by (simp add: objectives_ok_def objective_texts_def v)
qed

lemma compiled_simps [simp]:
  "ec_entrants (compile_evaluation_context expected columns baseline) = length expected"
  "ec_draws (compile_evaluation_context expected columns baseline) = length (transpose_samples columns)"
  by (simp_all add: compile_evaluation_context_def Let_def)

lemma transpose_length: "columns \<noteq> [] \<Longrightarrow> length (transpose_samples columns) = length (hd columns)"
  by (cases columns) (simp_all add: transpose_samples_def)

text \<open>The exact objectives of a sheet of a field.\<close>

definition sheet_objectives :: "int list \<Rightarrow> int list list \<Rightarrow> int list \<Rightarrow> int list \<Rightarrow> objective_vector" where
  "sheet_objectives expected columns baseline marks =
     objective_texts (length expected) (length (hd columns)) (raw_objectives (compile_evaluation_context expected columns baseline) 3 marks)"

lemma columns_dims:
  assumes "columns_ok expected columns" "hd columns \<noteq> []"
  shows "0 < length expected" "length expected \<le> 12" "0 < length (hd columns)" "length (hd columns) \<le> 4096" "columns \<noteq> []"
  using assms by (cases columns; auto simp: columns_ok_def)+

lemma evaluate_one_ok:
  assumes "columns_ok expected columns" "hd columns \<noteq> []" "marks_ok (length expected) marks" "marks_ok (length expected) baseline"
  shows "evaluate_one expected columns marks baseline 3 = Inr (sheet_objectives expected columns baseline marks)"
    "objectives_ok (sheet_objectives expected columns baseline marks)"
proof -
  let ?ctx = "compile_evaluation_context expected columns baseline"
  have ctx: "context_ok ?ctx"
    using assms(1,4) by (intro compiled_context_ok) (simp_all add: marks_ok_def)
  note dims = columns_dims(1-4) [OF assms(1,2)] and cne = columns_dims(5) [OF assms(1,2)]
  have empty: "cache_ok (ec_samples ?ctx) (full_mask (ec_draws ?ctx)) empty_cache" by (simp add: cache_ok_def empty_cache_def)
  obtain cache where "evaluate_candidates ?ctx 3 True [marks] empty_cache = Inr (map (\<lambda>m. (m, raw_objectives ?ctx 3 m)) [marks], cache)"
    by (rule evaluate_candidates_exact [OF ctx _ _ empty, of "[marks]" True]) (use assms(3) in simp_all)
  then have ev: "evaluate_candidates ?ctx 3 True [marks] empty_cache = Inr ([(marks, raw_objectives ?ctx 3 marks)], cache)" by simp
  have w: "writable (raw_objectives ?ctx 3 marks)" by (rule raw_objectives_fit(2) [OF ctx]) (simp add: assms(3))
  have pd: "ec_parity_denominator ?ctx = credit_scale_of (length expected) * int (length (hd columns)) * int (length expected)"
    using transpose_length [OF cne] by (simp add: compile_evaluation_context_def Let_def)
  show "evaluate_one expected columns marks baseline 3 = Inr (sheet_objectives expected columns baseline marks)"
    using materialize_ok [OF w dims] transpose_length [OF cne]
    by (simp add: evaluate_one_def Let_def ev pd sheet_objectives_def)
  show "objectives_ok (sheet_objectives expected columns baseline marks)"
    unfolding sheet_objectives_def by (rule objective_texts_ok [OF w dims])
qed

subsection \<open>The search\<close>

definition evaluated_sheets :: "int list \<Rightarrow> int list list \<Rightarrow> int list \<Rightarrow> int list list \<Rightarrow> pareto_item list" where
  "evaluated_sheets expected columns baseline ms =
     map (\<lambda>m. (m, raw_objectives (compile_evaluation_context expected columns baseline) 3 m)) ms"

lemma search_frontier_sheets:
  assumes "p \<in> set (search_frontier (length expected) (length (hd columns)) (evaluated_sheets expected columns baseline ms))"
  shows "fst p \<in> set ms" "snd p = sheet_objectives expected columns baseline (fst p)"
proof -
  let ?items = "evaluated_sheets expected columns baseline ms"
  let ?dens = "raw_denominators (length expected) (length (hd columns))"
  obtain m v where mv: "(m, v) \<in> set (nondominated ?dens ?items)" "p = (m, objective_texts (length expected) (length (hd columns)) v)"
    using assms unfolding search_frontier_def set_map set_sort by (auto simp: image_iff)
  have "(m, v) \<in> set ?items" using mv(1) unfolding nondominated_def by simp
  then have "m \<in> set ms" "v = raw_objectives (compile_evaluation_context expected columns baseline) 3 m"
    by (auto simp: evaluated_sheets_def)
  then show "fst p \<in> set ms" "snd p = sheet_objectives expected columns baseline (fst p)"
    by (simp_all add: mv(2) sheet_objectives_def)
qed

lemma search_frontier_nonempty:
  assumes "ms \<noteq> []" "length expected \<le> 12" "draws \<le> 4096"
  shows "search_frontier (length expected) draws (evaluated_sheets expected columns baseline ms) \<noteq> []"
proof -
  have "evaluated_sheets expected columns baseline ms \<noteq> []" using assms(1) by (simp add: evaluated_sheets_def)
  note ne = nondominated_nonempty [OF this assms(2,3)]
  have "length (search_frontier (length expected) draws (evaluated_sheets expected columns baseline ms))
      = length (nondominated (raw_denominators (length expected) draws) (evaluated_sheets expected columns baseline ms))"
    by (simp add: search_frontier_def)
  then show ?thesis using ne by auto
qed

lemma small_search_ok:
  assumes "columns_ok expected columns" "length (hd columns) = 4096" "fair_sheet expected 3 high baseline" "high \<le> 183" "length expected \<le> 6"
    "0 \<le> radius" "ms = small_candidates expected baseline 3 high radius"
  obtains cache where
    "evaluate_candidates (compile_evaluation_context expected columns baseline) 3 True ms empty_cache
       = Inr (evaluated_sheets expected columns baseline ms, cache)"
    "pareto_frontier_small (evaluated_sheets expected columns baseline ms) (length expected) 4096
       = Inr (search_frontier (length expected) 4096 (evaluated_sheets expected columns baseline ms))"
    "baseline \<in> set ms" "\<And>m. m \<in> set ms \<Longrightarrow> fair_sheet expected 3 high m"
proof -
  let ?n = "length expected" and ?ctx = "compile_evaluation_context expected columns baseline"
  let ?items = "evaluated_sheets expected columns baseline ms" and ?dens = "raw_denominators (length expected) 4096"
  have hne: "hd columns \<noteq> []" using assms(2) by auto
  note dims = columns_dims [OF assms(1) hne]
  have lenb: "length baseline = ?n" using assms(3) by (simp add: fair_sheet_def)
  have mb: "marks_ok ?n baseline" by (rule fair_marks_ok [OF assms(3,4)])
  have ctx: "context_ok ?ctx" by (rule compiled_context_ok [OF assms(1) lenb]) (use mb in \<open>simp add: marks_ok_def\<close>)
  have ene: "expected \<noteq> []" using dims(1) by auto
  note set = small_candidates_set [OF lenb ene, of 3 high radius, folded assms(7)]
  have fair: "fair_sheet expected 3 high m" if "m \<in> set ms" for m using that unfolding set by blast
  have base: "baseline \<in> set ms" unfolding set using assms(3,6) by simp
  have dist: "distinct ms" unfolding assms(7) using small_candidates_order by blast
  have marks: "list_all (marks_ok (ec_entrants ?ctx)) ms"
    using fair fair_marks_ok [OF _ assms(4)] by (simp add: list_all_iff)
  have empty: "cache_ok (ec_samples ?ctx) (full_mask (ec_draws ?ctx)) empty_cache" by (simp add: cache_ok_def empty_cache_def)
  obtain cache where ev: "evaluate_candidates ?ctx 3 True ms empty_cache = Inr (?items, cache)"
    unfolding evaluated_sheets_def by (rule evaluate_candidates_exact [OF ctx marks dist empty, of True])
  have df: "distinct (map fst ?items)" using dist by (simp add: evaluated_sheets_def)
  have dens: "\<forall>d \<in> set ?dens. 0 \<le> d \<and> d < 1000000000" by (rule small_field_denominators [OF assms(5)]) simp
  have eq: "sort (raw_skyline ?dens ?items) = sort (nondominated ?dens ?items)"
    by (rule raw_skyline_eq [OF dens]) (use df in \<open>simp_all add: raw_denominators_def distinct_map\<close>)
  have ms: "mset (raw_skyline ?dens ?items) = mset (nondominated ?dens ?items)" by (metis eq mset_sort)
  have "distinct (map fst (nondominated ?dens ?items))" unfolding nondominated_def by (rule distinct_map_filter [OF df])
  then have "distinct (map fst (raw_skyline ?dens ?items))" 
    using mset_eq_imp_distinct_iff [of "map fst (raw_skyline ?dens ?items)" "map fst (nondominated ?dens ?items)"] ms by simp
  then have dict: "py_dict (raw_skyline ?dens ?items) = raw_skyline ?dens ?items" by (rule py_dict_distinct)
  have wr: "list_all (\<lambda>i. writable (snd i)) (raw_skyline ?dens ?items)"
  proof -
    have "set (raw_skyline ?dens ?items) \<subseteq> set ?items" using mset_eq_setD [OF ms] by (auto simp: nondominated_def)
    moreover have "writable (snd i)" if "i \<in> set ?items" for i
      using that marks raw_objectives_fit(2) [OF ctx] by (auto simp: evaluated_sheets_def list_all_iff)
    ultimately show ?thesis by (auto simp: list_all_iff)
  qed
  have "pareto_frontier_small ?items ?n 4096 = Inr (search_frontier ?n 4096 ?items)"
    unfolding pareto_frontier_small_def dict
    using materialize_frontier_ok [OF wr dims(1,2), of 4096] by (simp add: eq search_frontier_def)
  from that [OF ev this base fair] show thesis .
qed

text \<open>Either search succeeds: the frontier holds the nondominated ones of the legal sheets evaluated, the
  canonical sheet among them.\<close>

lemma search_field_ok:
  assumes "columns_ok expected columns" "length (hd columns) = 4096" "fair_sheet expected 3 high baseline" "high \<le> 183"
  obtains s ms where "search_field default_optimizer_policy expected columns baseline 3 high = Inr s"
    "so_frontier s = search_frontier (length expected) (length (hd columns)) (evaluated_sheets expected columns baseline ms)"
    "baseline \<in> set ms" "\<And>m. m \<in> set ms \<Longrightarrow> fair_sheet expected 3 high m"
    "so_evaluated s = length ms" "so_generated s = length ms" "length ms \<le> so_limit s"
    "so_rounds s \<le> expansion_limit (length expected)"
proof (cases "length expected \<le> 6")
  case True
  define ms where "ms = small_candidates expected baseline 3 high 3"
  obtain cache where s: "evaluate_candidates (compile_evaluation_context expected columns baseline) 3 True ms empty_cache
       = Inr (evaluated_sheets expected columns baseline ms, cache)"
    "pareto_frontier_small (evaluated_sheets expected columns baseline ms) (length expected) 4096
       = Inr (search_frontier (length expected) 4096 (evaluated_sheets expected columns baseline ms))"
    "baseline \<in> set ms" "\<And>m. m \<in> set ms \<Longrightarrow> fair_sheet expected 3 high m"
    by (rule small_search_ok [OF assms True _ ms_def]) simp_all
  let ?s = "\<lparr>so_strategy = ''exhaustive_radius_v1'', so_rounds = 0, so_generated = length ms, so_evaluated = length ms,
             so_limit = length ms, so_frontier = search_frontier (length expected) 4096 (evaluated_sheets expected columns baseline ms)\<rparr>"
  have "search_field default_optimizer_policy expected columns baseline 3 high = Inr ?s"
    using True s(1,2) by (simp add: search_field_def default_optimizer_policy_def Let_def ms_def [symmetric]) (simp add: evaluated_sheets_def)
  then show thesis by (rule that [of _ ms]) (use s(3,4) assms(2) in simp_all)
next
  case False
  have hne: "hd columns \<noteq> []" using assms(2) by auto
  let ?ctx = "compile_evaluation_context expected columns baseline"
  obtain ms r where b: "beam_search expected columns baseline 3 high default_optimizer_policy = Inr r"
    "br_evaluated r = map (\<lambda>m. (m, raw_objectives ?ctx 3 m)) ms" "distinct ms" "baseline \<in> set ms"
    "\<And>m. m \<in> set ms \<Longrightarrow> fair_sheet expected 3 high m \<and> sheet_distance m baseline \<le> int (br_rounds r)"
    "br_generated r = length ms" "length ms \<le> br_limit r"
    "br_rounds r \<le> min (8 * length expected) (op_maximum_rounds default_optimizer_policy)"
    "br_limit r = 1 + min (8 * length expected) (op_maximum_rounds default_optimizer_policy) * op_beam_width default_optimizer_policy"
    "br_frontier r = search_frontier (length expected) (length (hd columns)) (br_evaluated r)"
    by (rule beam_search_ok [OF assms(1,3,4) hne, of default_optimizer_policy]) blast
  let ?s = "\<lparr>so_strategy = ''deterministic_beam_v1'', so_rounds = br_rounds r, so_generated = br_generated r,
             so_evaluated = length (br_evaluated r), so_limit = br_limit r, so_frontier = br_frontier r\<rparr>"
  have pol: "op_small_field_maximum default_optimizer_policy = 6" "op_maximum_rounds default_optimizer_policy = 128"
    by (simp_all add: default_optimizer_policy_def)
  have "search_field default_optimizer_policy expected columns baseline 3 high = Inr ?s"
    using False by (simp add: search_field_def pol b(1))
  then show thesis
    by (rule that [of _ ms]) (use b(2-) False in \<open>simp_all add: expansion_limit_def pol evaluated_sheets_def\<close>)
qed

subsection \<open>What a receipt says\<close>

lemma mk_optimizer_receipt_Inr:
  assumes "mk_optimizer_receipt r = Inr r'"
  shows "r' = r" "fallback_check r = Inr ()"
    "or_selected r \<noteq> [] \<Longrightarrow> is_legal (or_expected r) (or_selected r) (or_low r) (or_high r)"
    "or_frontier r \<noteq> [] \<Longrightarrow> or_selected r \<in> set (map fc_marks (or_frontier r))"
    "length (or_selected r) = length (or_competitors r)"
proof -
  have "r' = r \<and> fallback_check r = Inr ()
      \<and> (or_selected r \<noteq> [] \<longrightarrow> is_legal (or_expected r) (or_selected r) (or_low r) (or_high r))
      \<and> (or_frontier r \<noteq> [] \<longrightarrow> or_selected r \<in> set (map fc_marks (or_frontier r)))
      \<and> length (or_selected r) = length (or_ideal r) \<and> length (or_competitors r) = length (or_ideal r)"
    using assms unfolding mk_optimizer_receipt_def
    by (elim bind_resE case_resE) (simp only: guards.simps if_Inl_Inr sum.inject de_Morgan_conj de_Morgan_disj not_not list_ex_iff
      unit_eq simp_thms, blast)
  then show "r' = r" "fallback_check r = Inr ()"
    "or_selected r \<noteq> [] \<Longrightarrow> is_legal (or_expected r) (or_selected r) (or_low r) (or_high r)"
    "or_frontier r \<noteq> [] \<Longrightarrow> or_selected r \<in> set (map fc_marks (or_frontier r))"
    "length (or_selected r) = length (or_competitors r)" by simp_all
qed

lemma build_receipt_Inr:
  assumes "build_receipt env f policy high ideal baseline frontier selected so bo strategy budget fallback = Inr r"
  shows "or_selected r = selected" "or_baseline r = baseline" "or_frontier r = frontier" "or_fallback r = fallback"
    "or_selected_objectives r = so" "or_baseline_objectives r = bo" "fallback_check r = Inr ()" "or_strategy r = strategy"
    "selected \<noteq> [] \<Longrightarrow> is_legal (map oc_expected (of_competitors f)) selected 3 high"
    "length selected = length (of_competitors f)"
proof -
  obtain fd pd fairness spread d where mk: "mk_optimizer_receipt
      \<lparr>or_field = of_id f, or_input = of_input f, or_policy = pd, or_source = of_source f, or_joint = of_joint f,
       or_competitors = map oc_id (of_competitors f), or_expected = map oc_expected (of_competitors f), or_low = 3, or_high = high,
       or_version = optimizer_version, or_dependency = ''numpy:'' @ oe_numpy env, or_artifact = oe_artifact env,
       or_ideal = ideal, or_baseline = baseline, or_frontier = frontier, or_selected = selected,
       or_selected_objectives = so, or_baseline_objectives = bo,
       or_deltas = map2 (-) selected baseline, or_fairness_gain = fairness, or_spread_change = spread,
       or_gap_cost = ov_gap so, or_seed = of_seed f, or_samples = 4096, or_strategy = strategy, or_budget = budget,
       or_frontier_digest = fd, or_fallback = fallback, or_digest = d\<rparr> = Inr r"
    using assms unfolding build_receipt_def Let_def by (auto simp: bind_res_Inr)
  note m = mk_optimizer_receipt_Inr [OF mk]
  show "or_selected r = selected" "or_baseline r = baseline" "or_frontier r = frontier" "or_fallback r = fallback"
    "or_selected_objectives r = so" "or_baseline_objectives r = bo" "or_strategy r = strategy" by (simp_all add: m(1))
  show "fallback_check r = Inr ()" using m(2) by (simp only: m(1))
  show "selected \<noteq> [] \<Longrightarrow> is_legal (map oc_expected (of_competitors f)) selected 3 high" using m(3) by simp
  show "length selected = length (of_competitors f)" using m(5) by simp
qed

subsection \<open>The canonical sheet and the errors of an attempt\<close>

lemma canonical_sheet_total:
  assumes "mark_bounds low high = Inr ()" "list_all time_ok expected"
  obtains ideal baseline where "canonical_rounded_sheet expected low high = Inr (ideal, baseline)"
    "length ideal = length expected" "length baseline = length expected" "list_all (\<lambda>s. length s \<le> 128) ideal"
    "expected \<noteq> [] \<Longrightarrow> fair_sheet expected low high baseline"
proof (cases "expected = []")
  case True
  show thesis by (rule that [of "[]" "[]"]) (use True assms(1) in \<open>simp_all add: canonical_rounded_sheet_def\<close>)
next
  case False
  obtain ideal where c: "canonical_rounded_sheet expected low high = Inr (ideal, map (rounded_mark low high expected) expected)"
    "list_all2 (\<lambda>s v. dv (dec_of_string s) = of_int low + of_int (Max (set expected) - v) / 1000) ideal expected"
    by (rule canonical_sheet [OF assms False])
  from c(1) have "map_all (\<lambda>v. dec_string (dec_add 96 (dec_int low) (dec_div 96 (dec_int (Max (set expected) - v)) (dec_int 1000)))) expected
      = Inr ideal"
    using False by (auto simp: canonical_rounded_sheet_def Let_def bind_res_Inr map_err_Inr)
  then have l2: "list_all2 (\<lambda>v s. dec_string (dec_add 96 (dec_int low) (dec_div 96 (dec_int (Max (set expected) - v)) (dec_int 1000))) = Inr s)
      expected ideal" by (simp only: map_all_Inr_iff)
  have short: "list_all (\<lambda>s. length s \<le> 128) ideal"
    unfolding list_all_length
  proof (intro allI impI)
    fix i assume "i < length ideal"
    then show "length (ideal ! i) \<le> 128" using list_all2_nthD2 [OF l2] dec_string_length by blast
  qed
  show thesis
    by (rule that [OF c(1) list_all2_lengthD [OF c(2)] _ short]) (simp_all add: rounded_sheet_fair [OF assms(1) False])
qed

lemma annotate_clean: "clean (annotate frontier normalized anchors knee)"
  unfolding annotate_def by (rule clean_rules clean_candidate)+

lemma select_chim_clean:
  assumes "knee_distances (normalized_rows (map (\<lambda>p. ov_values (snd p)) frontier))
    (anchor_indices (normalized_rows (map (\<lambda>p. ov_values (snd p)) frontier)) (map fst frontier) baseline) = Some knee"
  shows "clean (select_chim frontier baseline bo)"
  unfolding select_chim_def Let_def assms option.case by (intro clean_bind annotate_clean) (simp add: clean_values)

lemma select_chim_errors: "select_chim frontier baseline bo = Inl (Abort reason) \<Longrightarrow> reason = OF_RANK_INVALID"
proof (cases "knee_distances (normalized_rows (map (\<lambda>p. ov_values (snd p)) frontier))
    (anchor_indices (normalized_rows (map (\<lambda>p. ov_values (snd p)) frontier)) (map fst frontier) baseline)")
  case None
  then show "select_chim frontier baseline bo = Inl (Abort reason) \<Longrightarrow> ?thesis" by (simp add: select_chim_def Let_def)
next
  case (Some knee)
  from select_chim_clean [OF this] show "select_chim frontier baseline bo = Inl (Abort reason) \<Longrightarrow> ?thesis" by (simp add: clean_def)
qed

text \<open>The sheets and the search of a constructed field.\<close>

lemma attempt_search:
  assumes "field_ok f" "of_competitors f \<noteq> []" "mark_bounds 3 high = Inr ()"
    "canonical_rounded_sheet (map oc_expected (of_competitors f)) 3 high = Inr (ideal, baseline)"
  obtains s ms where
    "search_field default_optimizer_policy (map oc_expected (of_competitors f)) (map oc_samples (of_competitors f)) baseline 3 high = Inr s"
    "so_frontier s \<noteq> []" "\<And>m. m \<in> set ms \<Longrightarrow> fair_sheet (map oc_expected (of_competitors f)) 3 high m"
    "\<And>p. p \<in> set (so_frontier s) \<Longrightarrow> fst p \<in> set ms
       \<and> snd p = sheet_objectives (map oc_expected (of_competitors f)) (map oc_samples (of_competitors f)) baseline (fst p)"
    "so_evaluated s = length ms" "so_generated s = length ms" "length ms \<le> so_limit s"
    "so_rounds s \<le> expansion_limit (length (of_competitors f))"
proof -
  let ?e = "map oc_expected (of_competitors f)" and ?c = "map oc_samples (of_competitors f)"
  note fc = field_columns [OF assms(1,2)]
  have times: "list_all time_ok ?e" using competitor_okD(3) [OF field_okD(10) [OF assms(1)]] by (simp add: list_all_iff)
  obtain i b where "canonical_rounded_sheet ?e 3 high = Inr (i, b)" "?e \<noteq> [] \<Longrightarrow> fair_sheet ?e 3 high b"
    by (rule canonical_sheet_total [OF assms(3) times]) blast
  then have fair: "fair_sheet ?e 3 high baseline" using assms(2,4) by simp
  have hb: "high \<le> 183" using assms(3) by (simp add: mark_bounds_def split: if_splits)
  obtain s ms where s: "search_field default_optimizer_policy ?e ?c baseline 3 high = Inr s"
    "so_frontier s = search_frontier (length ?e) (length (hd ?c)) (evaluated_sheets ?e ?c baseline ms)"
    "baseline \<in> set ms" "\<And>m. m \<in> set ms \<Longrightarrow> fair_sheet ?e 3 high m"
    "so_evaluated s = length ms" "so_generated s = length ms" "length ms \<le> so_limit s"
    "so_rounds s \<le> expansion_limit (length ?e)"
    by (rule search_field_ok [OF fc fair hb]) blast
  have ne: "so_frontier s \<noteq> []"
    unfolding s(2) by (rule search_frontier_nonempty) (use s(3) fc(2) field_okD(7) [OF assms(1)] in auto)
  have "fst p \<in> set ms \<and> snd p = sheet_objectives ?e ?c baseline (fst p)" if "p \<in> set (so_frontier s)" for p
    using search_frontier_sheets that unfolding s(2) by blast
  from that [OF s(1) ne s(4) this s(5-7)] show thesis using s(8) by simp
qed

lemma attempt_errors:
  assumes "field_ok f" "of_competitors f \<noteq> []" "mark_bounds 3 high = Inr ()"
    "canonical_rounded_sheet (map oc_expected (of_competitors f)) 3 high = Inr (ideal, baseline)"
    "attempt_field env f default_optimizer_policy 3 high ideal baseline bo = Inl e"
  shows "fallback_of e = OF_OPTIMIZER_FAILURE \<or> fallback_of e = OF_RANK_INVALID"
proof -
  obtain s ms where s: "search_field default_optimizer_policy (map oc_expected (of_competitors f)) (map oc_samples (of_competitors f)) baseline 3 high = Inr s"
    "so_frontier s \<noteq> []"
    by (rule attempt_search [OF assms(1-4)])
  have "clean (choice_receipt env f default_optimizer_policy high ideal baseline bo s choice candidates)" for choice candidates
    unfolding choice_receipt_def Let_def
    by (cases choice; simp only: option.case; intro clean_bind clean_parts clean_build clean_option)
  then have after: "clean (case x of (choice, candidates) \<Rightarrow>
      choice_receipt env f default_optimizer_policy high ideal baseline bo s choice candidates)" for x by (rule clean_split)
  have eq: "attempt_field env f default_optimizer_policy 3 high ideal baseline bo = bind_res (select_chim (so_frontier s) baseline bo)
      (\<lambda>(choice, candidates). choice_receipt env f default_optimizer_policy high ideal baseline bo s choice candidates)"
    using s by (simp add: attempt_field_def)
  have "select_chim (so_frontier s) baseline bo = Inl e \<or> (\<exists>x. (case x of (choice, candidates) \<Rightarrow>
      choice_receipt env f default_optimizer_policy high ideal baseline bo s choice candidates) = Inl e)"
    using assms(5) [unfolded eq bind_res_Inl] by blast
  then have "select_chim (so_frontier s) baseline bo = Inl e \<or> (\<forall>reason. e \<noteq> Abort reason)"
    using after unfolding clean_def by blast
  then show ?thesis using select_chim_errors by (auto simp: fallback_of_def split: opt_error.splits)
qed

subsection \<open>The result\<close>

abbreviation expected_of :: "optimization_field \<Rightarrow> int list" where
  "expected_of f \<equiv> map oc_expected (of_competitors f)"

abbreviation columns_of :: "optimization_field \<Rightarrow> int list list" where
  "columns_of f \<equiv> map oc_samples (of_competitors f)"

text \<open>A receipt of the search: the objectives are those of the sheets, and a sheet other than the canonical one
  improves on it.\<close>

lemma attempt_Inr:
  assumes "field_ok f" "of_competitors f \<noteq> []" "mark_bounds 3 high = Inr ()"
    "canonical_rounded_sheet (expected_of f) 3 high = Inr (ideal, baseline)"
    "attempt_field env f default_optimizer_policy 3 high ideal baseline bo = Inr r"
  shows "or_baseline r = baseline" "or_baseline_objectives r = bo" "fair_sheet (expected_of f) 3 high (or_selected r)"
    "or_fallback r \<noteq> None \<Longrightarrow> or_selected_objectives r = bo \<and> or_frontier r \<noteq> []"
    "or_fallback r = None \<or> or_fallback r = Some OF_NO_VALID_IMPROVEMENT \<and> or_selected r = baseline"
    "\<forall>c \<in> set (or_frontier r). fair_sheet (expected_of f) 3 high (fc_marks c)
       \<and> fc_objectives c = sheet_objectives (expected_of f) (columns_of f) baseline (fc_marks c)"
    "or_fallback r = None \<Longrightarrow> or_selected r \<in> fc_marks ` set (or_frontier r) \<and> meaningful (or_selected_objectives r) bo
       \<and> or_selected_objectives r = sheet_objectives (expected_of f) (columns_of f) baseline (or_selected r)"
    "or_fallback r \<noteq> None \<Longrightarrow> \<forall>c \<in> set (or_frontier r). \<not> meaningful (fc_objectives c) bo"
proof -
  let ?e = "expected_of f" and ?obj = "sheet_objectives (expected_of f) (columns_of f) baseline"
  obtain s ms where s: "search_field default_optimizer_policy ?e (columns_of f) baseline 3 high = Inr s"
    "so_frontier s \<noteq> []" "\<And>m. m \<in> set ms \<Longrightarrow> fair_sheet ?e 3 high m"
    "\<And>p. p \<in> set (so_frontier s) \<Longrightarrow> fst p \<in> set ms \<and> snd p = ?obj (fst p)"
    by (rule attempt_search [OF assms(1-4)]) blast
  obtain choice candidates where ch: "select_chim (so_frontier s) baseline bo = Inr (choice, candidates)"
    "choice_receipt env f default_optimizer_policy high ideal baseline bo s choice candidates = Inr r"
    using assms(5) s(1,2) by (auto simp: attempt_field_def bind_res_Inr)
  obtain knee where c: "map fc_marks candidates = map fst (so_frontier s)" "map fc_objectives candidates = map snd (so_frontier s)"
    "choice = None \<longleftrightarrow> (\<forall>p \<in> set (so_frontier s). \<not> meaningful (snd p) bo)"
    "\<And>m. choice = Some m \<Longrightarrow> \<exists>i < length (so_frontier s). fst (so_frontier s ! i) = m \<and> meaningful (snd (so_frontier s ! i)) bo
       \<and> (\<forall>j < length (so_frontier s). meaningful (snd (so_frontier s ! j)) bo \<longrightarrow> dv (knee ! j) \<le> dv (knee ! i))"
    by (rule select_chim_Inr [OF ch(1)]) blast
  have pairs: "map (\<lambda>c. (fc_marks c, fc_objectives c)) candidates = so_frontier s"
  proof (rule nth_equalityI)
    show len: "length (map (\<lambda>c. (fc_marks c, fc_objectives c)) candidates) = length (so_frontier s)"
      using arg_cong [OF c(1), of length] by simp
    fix i assume "i < length (map (\<lambda>c. (fc_marks c, fc_objectives c)) candidates)"
    then show "map (\<lambda>c. (fc_marks c, fc_objectives c)) candidates ! i = so_frontier s ! i"
      using len arg_cong [OF c(1), of "\<lambda>xs. xs ! i"] arg_cong [OF c(2), of "\<lambda>xs. xs ! i"] by (simp add: prod_eq_iff)
  qed
  have cand: "(fc_marks c, fc_objectives c) \<in> set (so_frontier s)" if "c \<in> set candidates" for c
    unfolding pairs [symmetric] using that by simp
  obtain selected so strategy budget where b: "build_receipt env f default_optimizer_policy high ideal baseline candidates selected so bo
      strategy budget (if choice = None then Some OF_NO_VALID_IMPROVEMENT else None) = Inr r"
    "case choice of None \<Rightarrow> selected = baseline \<and> so = bo | Some m \<Rightarrow> selected = m \<and> map_of (rev (so_frontier s)) m = Some so"
    using ch(2) by (cases choice) (auto simp: choice_receipt_def Let_def bind_res_Inr of_option_Inr pairs)
  note br = build_receipt_Inr [OF b(1)]
  show "or_baseline r = baseline" "or_baseline_objectives r = bo" using br by simp_all
  have "selected \<noteq> []" using br(10) assms(2) by auto
  then show "fair_sheet ?e 3 high (or_selected r)" using br(1,9) by (simp add: is_legal_fair)
  show "or_fallback r \<noteq> None \<Longrightarrow> or_selected_objectives r = bo \<and> or_frontier r \<noteq> []"
    using br(3,4,5) b(2) s(2) pairs by (cases choice) auto
  show "or_fallback r = None \<or> or_fallback r = Some OF_NO_VALID_IMPROVEMENT \<and> or_selected r = baseline"
    using br(1,4) b(2) by (cases choice) simp_all
  show "\<forall>c \<in> set (or_frontier r). fair_sheet ?e 3 high (fc_marks c) \<and> fc_objectives c = ?obj (fc_marks c)"
    using s(3,4) cand unfolding br(3) by fastforce
  show "or_fallback r = None \<Longrightarrow> or_selected r \<in> fc_marks ` set (or_frontier r) \<and> meaningful (or_selected_objectives r) bo
       \<and> or_selected_objectives r = ?obj (or_selected r)"
  proof -
    assume "or_fallback r = None"
    then obtain m where m: "choice = Some m" using br(4) by (cases choice) simp_all
    have sel: "selected = m" "(m, so) \<in> set (so_frontier s)" using b(2) m by (auto dest: map_of_SomeD)
    obtain i where i: "i < length (so_frontier s)" "fst (so_frontier s ! i) = m" "meaningful (snd (so_frontier s ! i)) bo"
      using c(4) [OF m] by blast
    have "snd (so_frontier s ! i) = ?obj m" using s(4) [OF nth_mem [OF i(1)]] i(2) by simp
    moreover have so: "so = ?obj m" using s(4) [OF sel(2)] by simp
    ultimately have "meaningful so bo" using i(3) by simp
    moreover have "m \<in> fc_marks ` set candidates" using nth_mem [OF i(1)] i(2) arg_cong [OF c(1), of set] by force
    ultimately show ?thesis using br(1,3,5) sel(1) so by simp
  qed
  show "or_fallback r \<noteq> None \<Longrightarrow> \<forall>c \<in> set (or_frontier r). \<not> meaningful (fc_objectives c) bo"
    using br(3,4) c(3) cand by (auto split: if_splits) fastforce+
qed

text \<open>Every constructed field gets a receipt. What it says is the contract of the optimizer.\<close>

definition receipt_keeps :: "optimization_field \<Rightarrow> int \<Rightarrow> optimizer_receipt \<Rightarrow> bool" where
  "receipt_keeps f high r \<longleftrightarrow>
     (of_competitors f = [] \<longrightarrow> or_selected r = [] \<and> or_fallback r = Some OF_EMPTY_FIELD)
     \<and> (of_competitors f \<noteq> [] \<longrightarrow> fair_sheet (expected_of f) 3 high (or_selected r)
        \<and> (\<exists>ideal. canonical_rounded_sheet (expected_of f) 3 high = Inr (ideal, or_baseline r))
        \<and> or_baseline_objectives r = sheet_objectives (expected_of f) (columns_of f) (or_baseline r) (or_baseline r)
        \<and> or_selected_objectives r = sheet_objectives (expected_of f) (columns_of f) (or_baseline r) (or_selected r)
        \<and> or_fallback r \<in> {None, Some OF_NO_VALID_IMPROVEMENT, Some OF_OPTIMIZER_FAILURE, Some OF_RANK_INVALID})
     \<and> (or_fallback r \<noteq> None \<longrightarrow> or_selected r = or_baseline r)
     \<and> (\<forall>c \<in> set (or_frontier r). fair_sheet (expected_of f) 3 high (fc_marks c)
        \<and> fc_objectives c = sheet_objectives (expected_of f) (columns_of f) (or_baseline r) (fc_marks c))
     \<and> (or_fallback r = None \<longrightarrow> or_selected r \<in> fc_marks ` set (or_frontier r)
        \<and> (2 \<le> length (of_competitors f) \<longrightarrow> meaningful (or_selected_objectives r) (or_baseline_objectives r)))
     \<and> (or_fallback r = Some OF_NO_VALID_IMPROVEMENT \<longrightarrow>
        or_frontier r \<noteq> [] \<and> (\<forall>c \<in> set (or_frontier r). \<not> meaningful (fc_objectives c) (or_baseline_objectives r)))"

lemma zero_budgets:
  obtains b where "budget_of 0 0 0 0 0 = Inr b" "list_all (\<lambda>v. 0 \<le> v \<and> v \<le> 2000000000) (work_budget_values b)" "wb_evaluated b = 0"
  by (simp add: budget_of_def mk_work_budget_def work_budget_values_def)

lemma one_budget:
  obtains b where "budget_of 0 0 1 1 1 = Inr b" "list_all (\<lambda>v. 0 \<le> v \<and> v \<le> 2000000000) (work_budget_values b)"
  by (simp add: budget_of_def mk_work_budget_def work_budget_values_def)

lemma zeros_candidate: "mk_frontier_candidate m v [''0'', ''0'', ''0'', ''0''] ''0''
    = Inr \<lparr>fc_marks = m, fc_objectives = v, fc_normalized = [''0'', ''0'', ''0'', ''0''], fc_knee = ''0''\<rparr>"
proof (rule mk_frontier_candidate_ok)
  show "list_all2 (\<lambda>d s. dec_string d = Inr s) (replicate 4 (Dc 0 0)) [''0'', ''0'', ''0'', ''0'']"
    using zero_text(1) by (simp add: numeral_eq_Suc)
  show "canonical_decimal_string (PStr ''0'') = Inr ''0''" 
    using canonical_decimal_string_idem [OF zero_text(1) [unfolded dec_string_def]] .
qed (simp_all add: numeral_eq_Suc)

lemma zero_objectives_ok: "objectives_ok \<lparr>ov_gap = ''0'', ov_parity = ''0'', ov_spread = ''0'', ov_movement = ''0''\<rparr>"
  by (simp add: objectives_ok_def zero_text)

lemma sized_empty: "30 \<le> d \<Longrightarrow> sized d 54 17500 (frontier_value [])"
  unfolding frontier_value_def by (rule sized_seq [where c = 1 and n = 1]) simp_all

lemma sized_one:
  assumes "\<forall>m \<in> set (fc_marks c). 0 \<le> m \<and> m \<le> 2000000000" "length (fc_marks c) \<le> 12" "objectives_ok (fc_objectives c)"
    "fc_normalized c = [''0'', ''0'', ''0'', ''0'']" "fc_knee c = ''0''" "30 \<le> d"
  shows "sized d 54 17500 (frontier_value [c])"
  unfolding frontier_value_def
proof (rule sized_seq [where c = 53 and n = 17400])
  show "sized (d - 1) 53 17400 x" if "x \<in> set (map candidate_to_dict [c])" for x
    using that sized_candidate [OF assms(1-5), of "d - 1"] assms(6) by simp
qed (use assms(6) in simp_all)

lemma fallback_checks:
  "or_fallback r = Some OF_EMPTY_FIELD \<Longrightarrow> or_ideal r = [] \<Longrightarrow> or_selected r = [] \<Longrightarrow> or_frontier r = [] \<Longrightarrow> or_strategy r = ''empty_field''
    \<Longrightarrow> fallback_check r = Inr ()"
  "or_fallback r = None \<Longrightarrow> or_frontier r \<noteq> [] \<Longrightarrow> or_strategy r = ''single_competitor'' \<Longrightarrow> fallback_check r = Inr ()"
  "or_fallback r = Some OF_OPTIMIZER_FAILURE \<or> or_fallback r = Some OF_RANK_INVALID \<Longrightarrow> or_selected r = or_baseline r
    \<Longrightarrow> or_strategy r = ''canonical_fallback'' \<Longrightarrow> or_frontier r = [] \<Longrightarrow> wb_evaluated (or_budget r) = 0 \<Longrightarrow> fallback_check r = Inr ()"
  by (auto simp: fallback_check_def)

lemma optimize_field_ok:
  assumes "field_ok f" "env_ok env" "mark_bounds low high = Inr ()"
  obtains r where "optimize_field env f high low default_optimizer_policy = Inr r" "receipt_keeps f high r"
proof -
  let ?e = "expected_of f" and ?cs = "of_competitors f"
  have lh: "low = 3" "3 \<le> high" "high \<le> 183" using assms(3) by (simp_all add: mark_bounds_def split: if_splits)
  note mb = assms(3) [unfolded lh(1)]
  have times: "list_all time_ok ?e" using competitor_okD(3) [OF field_okD(10) [OF assms(1)]] by (simp add: list_all_iff)
  obtain ideal baseline where c: "canonical_rounded_sheet ?e 3 high = Inr (ideal, baseline)"
    "length ideal = length ?e" "length baseline = length ?e" "list_all (\<lambda>s. length s \<le> 128) ideal"
    "?e \<noteq> [] \<Longrightarrow> fair_sheet ?e 3 high baseline"
    by (rule canonical_sheet_total [OF mb times]) blast
  have fair: "fair_sheet ?e 3 high baseline" if "?cs \<noteq> []" using c(5) that by simp
  have nob: "baseline = [] \<longleftrightarrow> ?cs = []" using c(3) by auto
  have marks: "list_all (\<lambda>m. 3 \<le> m \<and> m \<le> 183) baseline"
    using fair nob lh(3) by (cases "?cs = []") (fastforce simp: fair_sheet_def list_all_iff)+
  have legal: "baseline = [] \<or> is_legal ?e baseline 3 high" using fair nob by (auto simp: is_legal_fair)
  note build = build_receipt_ok [OF assms(1,2) mb c(1) c(2,3) [unfolded length_map] c(4) marks legal]
  obtain b0 where b0: "budget_of 0 0 0 0 0 = Inr b0" "list_all (\<lambda>v. 0 \<le> v \<and> v \<le> 2000000000) (work_budget_values b0)" "wb_evaluated b0 = 0"
    by (rule zero_budgets)
  consider (none) "?cs = []" | (some) "?cs \<noteq> []" by blast
  then show thesis
  proof cases
    case none
    let ?zero = "\<lparr>ov_gap = ''0'', ov_parity = ''0'', ov_spread = ''0'', ov_movement = ''0''\<rparr>"
    obtain r where r: "build_receipt env f default_optimizer_policy high ideal baseline [] baseline ?zero ?zero ''empty_field'' b0 (Some OF_EMPTY_FIELD) = Inr r"
      "or_selected r = baseline" "or_baseline r = baseline" "or_frontier r = []" "or_fallback r = Some OF_EMPTY_FIELD"
      by (rule build [OF zero_objectives_ok b0(2) _ sized_empty _ _ fallback_checks(1)])
        (use none nob c(2) in simp_all)
    have "optimize_field env f high low default_optimizer_policy = Inr r"
      using r(1) none nob c(1) mb b0(1) lh(1) by (simp add: optimize_field_def Let_def)
    then show thesis by (rule that) (use r none nob in \<open>simp add: receipt_keeps_def\<close>)
  next
    case some
    note fc = field_columns [OF assms(1) some]
    have ne: "hd (columns_of f) \<noteq> []" using fc(2) by auto
    have mk: "marks_ok (length ?e) baseline" by (rule fair_marks_ok [OF fair [OF some] lh(3)])
    let ?bo = "sheet_objectives ?e (columns_of f) baseline baseline"
    note bo = evaluate_one_ok [OF fc(1) ne mk mk]
    have fb: "receipt_keeps f high r" if "or_selected r = baseline" "or_baseline r = baseline" "or_frontier r = []"
      "or_fallback r = Some OF_OPTIMIZER_FAILURE \<or> or_fallback r = Some OF_RANK_INVALID" "or_selected_objectives r = ?bo" "or_baseline_objectives r = ?bo" for r
      using that fair some c(1) by (auto simp: receipt_keeps_def)
    show thesis
    proof (cases "length ?cs = 1")
      case True
      let ?c = "\<lparr>fc_marks = baseline, fc_objectives = ?bo, fc_normalized = [''0'', ''0'', ''0'', ''0''], fc_knee = ''0''\<rparr>"
      obtain b1 where b1: "budget_of 0 0 1 1 1 = Inr b1" "list_all (\<lambda>v. 0 \<le> v \<and> v \<le> 2000000000) (work_budget_values b1)"
        by (rule one_budget)
      obtain r where r: "build_receipt env f default_optimizer_policy high ideal baseline [?c] baseline ?bo ?bo ''single_competitor'' b1 None = Inr r"
        "or_selected r = baseline" "or_baseline r = baseline" "or_frontier r = [?c]" "or_fallback r = None"
        "or_selected_objectives r = ?bo" "or_baseline_objectives r = ?bo"
      proof (rule build [OF bo(2) b1(2)])
        show "sized d 54 17500 (frontier_value [?c])" if "30 \<le> d" for d
          by (rule sized_one [OF _ _ _ _ _ that]) (use marks c(3) True bo(2) in \<open>force simp: list_all_iff\<close>)+
        show "fallback_check r = Inr ()" if "or_frontier r = [?c]" "or_strategy r = ''single_competitor''" "or_fallback r = None" for r
          by (rule fallback_checks(2)) (simp_all add: that)
      qed (use nob some in simp_all)
      have "optimize_field env f high low default_optimizer_policy = Inr r"
        using r(1) some True c(1) mb b1(1) bo(1) lh(1) by (simp add: optimize_field_def Let_def zeros_candidate)
      then show thesis
        by (rule that) (use r some fair c(1) True in \<open>auto simp: receipt_keeps_def\<close>)
    next
      case False
      have opt: "optimize_field env f high low default_optimizer_policy = (case attempt_field env f default_optimizer_policy 3 high ideal baseline ?bo of
           Inr r \<Rightarrow> Inr r
         | Inl e \<Rightarrow> build_receipt env f default_optimizer_policy high ideal baseline [] baseline ?bo ?bo ''canonical_fallback'' b0 (Some (fallback_of e)))"
        using some False c(1) mb b0(1) bo(1) lh(1) by (simp add: optimize_field_def Let_def split: sum.split)
      show thesis
      proof (cases "attempt_field env f default_optimizer_policy 3 high ideal baseline ?bo")
        case (Inr r)
        note a = attempt_Inr [OF assms(1) some mb c(1) Inr]
        have "receipt_keeps f high r"
          using a some c(1) fair by (auto simp: receipt_keeps_def)
        then show thesis by (rule that [rotated]) (simp add: opt Inr)
      next
        case (Inl e)
        note reason = attempt_errors [OF assms(1) some mb c(1) Inl]
        obtain r where r: "build_receipt env f default_optimizer_policy high ideal baseline [] baseline ?bo ?bo ''canonical_fallback'' b0
            (Some (fallback_of e)) = Inr r"
          "or_selected r = baseline" "or_baseline r = baseline" "or_frontier r = []" "or_fallback r = Some (fallback_of e)"
          "or_selected_objectives r = ?bo" "or_baseline_objectives r = ?bo"
        proof (rule build [OF bo(2) b0(2) _ sized_empty])
          show "fallback_check r = Inr ()" if "or_frontier r = []" "or_selected r = baseline" "or_baseline r = baseline"
            "or_strategy r = ''canonical_fallback''" "or_budget r = b0" "or_fallback r = Some (fallback_of e)" for r
            by (rule fallback_checks(3)) (use that reason b0(3) in auto)
        qed simp_all
        show thesis by (rule that [of r]) (use r reason in \<open>simp_all add: opt Inl fb\<close>)
      qed
    qed
  qed
qed

end
