(* ===== verification/Optimizer_Fields.thy ===== *)
theory Optimizer_Fields
  imports Optimizer_Receipts
begin

section \<open>Which fields exist\<close>

text \<open>
  The constructors of \<open>OptimizationCompetitor\<close> and \<open>OptimizationField.create\<close> on well-formed inputs, with
  the digests that bind a field to its samples. The proofs only use that the contents are small enough
  for the canonical serializer, never the value of a digest.
\<close>

subsection \<open>Competitors\<close>

lemma sample_tuple_digest: "is_digest (sample_tuple_digest values)"
  by (simp add: sample_tuple_digest_def sha256_hex_is_digest)

lemma mk_competitor_Inr:
  assumes "mk_optimization_competitor cid expected samples index d = Inr c"
  shows "competitor_ok c" "oc_id c = cid" "oc_expected c = expected" "oc_samples c = samples" "oc_index c = index"
    "oc_samples_digest c = sample_tuple_digest samples"
proof -
  let ?content = "obj [(''expected_time_ms'', PInt expected), (''samples_digest'', PStr (sample_tuple_digest samples))]"
  obtain dg where dg: "(case d of Some d \<Rightarrow> Inr d | None \<Rightarrow> opt_canonical_digest ?content) = Inr dg"
    and c: "c = \<lparr>oc_id = cid, oc_expected = expected, oc_samples = samples, oc_index = index, oc_distribution = dg,
      oc_samples_digest = sample_tuple_digest samples\<rparr>"
    using assms unfolding mk_optimization_competitor_def by (elim bind_resE) (simp only: sum.inject)
  have "mk_optimization_competitor cid expected samples index (Some dg) = mk_optimization_competitor cid expected samples index d"
    unfolding mk_optimization_competitor_def dg option.case ..
  then show "competitor_ok c" using assms by (simp add: competitor_ok_def c)
  show "oc_id c = cid" "oc_expected c = expected" "oc_samples c = samples" "oc_index c = index"
    "oc_samples_digest c = sample_tuple_digest samples" by (simp_all add: c)
qed

lemma mk_competitor_total:
  assumes "identifier_ok cid" "identifier_namespace cid = ''competitor''" "time_ok expected" "length samples = 4096" "list_all time_ok samples"
    "0 \<le> index"
  obtains c where "mk_optimization_competitor cid expected samples index None = Inr c"
proof -
  have "sized 32 100 100000 (obj [(''expected_time_ms'', PInt expected), (''samples_digest'', PStr (sample_tuple_digest samples))])"
    by (rule sized_obj_list [where c = 1 and n = 770])
      (use assms(3) digest_short [OF sample_tuple_digest] in \<open>auto simp: time_ok_def intro!: sized_str sized_int small_int64\<close>)
  then obtain d where d: "canonical_digest (obj [(''expected_time_ms'', PInt expected), (''samples_digest'', PStr (sample_tuple_digest samples))]) = Inr d"
    "is_digest d" by (rule sized_digest) simp_all
  have ne: "samples \<noteq> []" using assms(4) by auto
  have "Max (set samples) \<in> set samples" using ne by simp
  then have mx: "Max (set samples) \<le> 2000000000" using assms(5) unfolding list_all_iff time_ok_def by blast
  have pos: "\<not> list_ex (\<lambda>v. v \<le> 0) samples" using assms(5) by (auto simp: list_ex_iff list_all_iff time_ok_def)
  have sc: "op_sample_count default_optimizer_policy = 4096" by (simp add: default_optimizer_policy_def)
  have id: "opt_identifier cid ''competitor'' = Inr cid" using assms(1,2) namespaces_ok by (simp add: opt_identifier_Inr)
  have dg: "opt_digest d ''distribution_digest'' = Inr ()" using d(2) by (simp add: opt_digest_Inr)
  have g: "guards
       [(expected \<le> 0, Contract (ContractError ''expected_time_ms must be a positive integer'')),
        (length samples \<noteq> op_sample_count default_optimizer_policy,
          Contract (ContractError ''optimizer competitors require exactly 4096 joint samples'')),
        (list_ex (\<lambda>v. v \<le> 0) samples, Contract (ContractError ''optimizer samples must be positive integer milliseconds'')),
        (2000000000 < expected \<or> 2000000000 < Max (set samples),
          Contract (ContractError ''optimizer time inputs exceed the frozen int32 capacity bound'')),
        (index < 0, Contract (ContractError ''upstream_index must be a nonnegative integer''))] = Inr ()"
    using assms(3,4,6) mx pos sc by (simp add: time_ok_def not_less)
  have "opt_canonical_digest (obj [(''expected_time_ms'', PInt expected), (''samples_digest'', PStr (sample_tuple_digest samples))]) = Inr d"
    using d(1) by (simp add: opt_canonical_digest_Inr)
  then show thesis
    by (intro that) (simp only: mk_optimization_competitor_def id g dg option.case bind_res.simps)
qed

subsection \<open>Fields\<close>

lemma mk_field_Inr: "mk_optimization_field f = Inr f' \<Longrightarrow> f' = f"
  unfolding mk_optimization_field_def by (elim bind_resE) simp

lemma create_field_Inr:
  assumes "create_optimization_field fid source cs pool = Inr f" "list_all competitor_ok cs"
  shows "field_ok f" "of_competitors f = cs" "of_id f = fid" "of_source f = source"
proof -
  obtain seed m pd d where mk: "mk_optimization_field (\<lparr>of_id = fid, of_source = source, of_seed = seed, of_competitors = cs, of_joint = m,
      of_matrix = m, of_pool = pd, of_input = []\<rparr>\<lparr>of_input := d\<rparr>) = Inr f"
    using assms(1) unfolding create_optimization_field_def Let_def by (elim bind_resE) blast
  note f = mk_field_Inr [OF mk]
  show "field_ok f" using mk assms(2) by (simp add: field_ok_def f)
  show "of_competitors f = cs" "of_id f = fid" "of_source f = source" by (simp_all add: f)
qed

lemma field_indices:
  assumes "field_ok f"
  shows "map oc_index (of_competitors f) = map int [0..<length (of_competitors f)]"
  using assms unfolding field_ok_def mk_optimization_field_def
  by (elim conjE bind_resE) (simp only: guards.simps if_Inl_Inr de_Morgan_disj not_not)

lemma seed_int64: "0 \<le> hex_number s mod 2 ^ 63 \<and> int64_ok (hex_number s mod 2 ^ 63)"
proof -
  have h: "0 \<le> n mod 2 ^ 63" "n mod 2 ^ 63 < 9223372036854775808" for n :: int by simp_all
  show ?thesis using h [of "hex_number s"] unfolding int64_ok_def int64_min_def int64_max_def by linarith
qed

lemma sized_competitor:
  assumes "competitor_ok c" "0 \<le> oc_index c" "oc_index c \<le> 12" "is_digest (oc_distribution c)" "is_digest (oc_samples_digest c)" "1 \<le> d"
  shows "sized d 6 5100 (competitor_value c)"
  unfolding competitor_value_def
  by (rule sized_obj_list [where c = 1 and n = 770])
    (use assms identifier_length [OF competitor_okD(1) [OF assms(1)]] competitor_okD(3) [OF assms(1)] digest_short in
      \<open>auto simp: time_ok_def intro!: sized_str sized_int small_int64\<close>)

lemma competitor_digests:
  assumes "competitor_ok c"
  shows "is_digest (oc_distribution c)" "is_digest (oc_samples_digest c)"
proof -
  note mk = assms [unfolded competitor_ok_def]
  show "is_digest (oc_samples_digest c)" using mk_competitor_Inr(6) [OF mk] sample_tuple_digest by simp
  show "is_digest (oc_distribution c)"
    using mk unfolding mk_optimization_competitor_def by (elim bind_resE) (simp add: opt_digest_Inr)
qed

text \<open>Every roster of at most twelve competitors, in order and with distinct identities, makes a field.\<close>

lemma create_field_total:
  assumes "identifier_ok fid" "identifier_namespace fid = ''field''" "is_digest source" "list_all competitor_ok cs" "length cs \<le> 12"
    "distinct (map oc_id cs)" "map oc_index cs = map int [0..<length cs]"
  obtains f where "create_optimization_field fid source cs None = Inr f"
proof -
  have idx: "0 \<le> oc_index c \<and> oc_index c \<le> 12" if c: "c \<in> set cs" for c
  proof -
    have "oc_index c \<in> set (map int [0..<length cs])" unfolding assms(7) [symmetric] using c by simp
    then show ?thesis using assms(5) by auto
  qed
  have comp: "sized d 6 5100 (competitor_value c)" if "c \<in> set cs" "1 \<le> d" for c d
    using that assms(4) idx by (intro sized_competitor) (auto simp: list_all_iff competitor_digests)
  have "sized 32 100 100000 (sample_matrix_value cs)"
    unfolding sample_matrix_value_def
    by (rule sized_seq [where c = 1 and n = 770])
      (use assms(4,5) competitor_digests(2) digest_short in \<open>auto simp: list_all_iff intro!: sized_str\<close>)
  then obtain m where m: "canonical_digest (sample_matrix_value cs) = Inr m" "is_digest m" by (rule sized_digest) simp_all
  define seed where "seed = hex_number (take 16 source) mod 2 ^ 63"
  define f where "f = \<lparr>of_id = fid, of_source = source, of_seed = seed, of_competitors = cs, of_joint = m,
      of_matrix = m, of_pool = source, of_input = []\<rparr>"
  have seed: "0 \<le> seed" "int64_ok seed" using seed_int64 by (simp_all add: seed_def)
  have list: "sized 31 73 61300 (PSeq (map competitor_value cs))"
    by (rule sized_seq [where c = 6 and n = 5100]) (use comp assms(5) in auto)
  have one: "sized 31 73 61300 (PStr s)" if "length s \<le> 128" for s using that by (intro sized_str) simp_all
  have num: "sized 31 73 61300 (PInt seed)" using seed(2) by (intro sized_int) simp_all
  have "sized 32 1000 500000 (field_content f)"
    unfolding field_content_def f_def optimization_field.select_convs
    by (rule sized_obj_list [where c = 73 and n = 61300])
      (use list num one identifier_length [OF assms(1)] digest_short [OF assms(3)] digest_short [OF m(2)] in simp_all)
  then obtain d where d: "canonical_digest (field_content f) = Inr d" "is_digest d" by (rule sized_digest) simp_all
  have content: "field_content (f\<lparr>of_input := d\<rparr>) = field_content f" by (simp add: field_content_def)
  have mk: "mk_optimization_field (f\<lparr>of_input := d\<rparr>) = Inr (f\<lparr>of_input := d\<rparr>)"
    unfolding mk_optimization_field_def content
    using assms namespaces_ok m d seed by (simp add: f_def opt_identifier_Inr [THEN iffD2] opt_digest_Inr [THEN iffD2, of _ _ "()"]
      opt_canonical_digest_Inr [THEN iffD2] max_optimizer_entrants_def)
  have "create_optimization_field fid source cs None = Inr (f\<lparr>of_input := d\<rparr>)"
    unfolding create_optimization_field_def Let_def option.case seed_from_digest_def
    using assms(3,6) m d mk by (simp add: opt_digest_def opt_canonical_digest_def f_def seed_def)
  then show thesis by (rule that)
qed

subsection \<open>The surroundings\<close>

lemma env_exists:
  assumes "length (oe_numpy env) \<le> 100" "oe_kernel env = PNone" "is_digest (oe_source env)"
  obtains d where "env_ok (env\<lparr>oe_artifact := d\<rparr>)"
proof -
  have pol: "sized 31 100 20000 (optimizer_policy_to_dict default_optimizer_policy)"
    unfolding optimizer_policy_to_dict_def
    by (rule sized_obj_list [where c = 1 and n = 200])
      (simp_all add: default_optimizer_policy_def optimizer_version_def sized_int sized_str small_int64)
  have str: "sized 31 100 20000 (PStr s)" if "length s \<le> 128" for s using that by (intro sized_str) simp_all
  have "sized 32 1000 300000 (obj
     [(''schema_version'', PStr ''strathmark-v3-optimizer-implementation-v1''), (''algorithm'', PStr optimizer_version),
      (''policy'', optimizer_policy_to_dict default_optimizer_policy),
      (''numeric_core'', PStr ''numpy-integer-vector-with-sealed-rust-kernel-v1''), (''numpy_version'', PStr (oe_numpy env)),
      (''native_kernel'', oe_kernel env), (''chim_geometry'', PStr ''decimal-jacobi-svd-v1''),
      (''tie_credit'', PStr ''exact-lcm-split-v1''), (''source_sha256'', PStr (oe_source env))])"
    by (rule sized_obj_list [where c = 100 and n = 20000])
      (use assms(1) digest_short [OF assms(3)] in \<open>simp_all add: pol str assms(2) sized_null optimizer_version_def\<close>)
  then obtain d where "implementation_artifact_digest env = Inr d"
    unfolding implementation_artifact_digest_def opt_canonical_digest_Inr by (rule sized_digest) simp_all
  then have "env_ok (env\<lparr>oe_artifact := d\<rparr>)"
    using assms(1) by (simp add: env_ok_def implementation_artifact_digest_def)
  then show thesis by (rule that)
qed

end
