(* ===== verification/Search_Methods.thy ===== *)
theory Search_Methods
  imports Beam_Search
begin

section \<open>The methods of the search and their contracts\<close>

text \<open>
  The optimizer computes the shares of the winners in two ways and the frontier in two ways. Each
  pair has one contract, stated here as a locale; what follows from the contract is proved once, and
  both methods of the code are interpretations.
\<close>

subsection \<open>Credit methods\<close>

locale credit_method =
  fixes credits :: "int list list \<Rightarrow> nat \<Rightarrow> int \<Rightarrow> int list list \<Rightarrow> int list list"
  assumes shares: "samples_ok n samples \<Longrightarrow> list_all (delays_ok n) delays \<Longrightarrow> 0 \<le> scale \<Longrightarrow> scale \<le> 27720
    \<Longrightarrow> credits samples n scale delays = map (sheet_credits n scale samples) delays"
begin

text \<open>A draw gives away its whole credit: the shares of the tied add up to the scale.\<close>

lemma draw_conserves:
  assumes "0 < n" "\<forall>k \<in> {1..n}. int k dvd scale"
  shows "(\<Sum>e < n. draw_share n scale delays row e) = scale"
proof -
  let ?ws = "draw_winners n delays row"
  note w = draw_winners_facts [where n = n and d = delays and row = row] draw_winners_ne [OF assms(1), of delays row]
  have card: "card (set ?ws) = length ?ws" using w(1) by (rule distinct_card)
  have "length ?ws \<le> card {..<n}" unfolding card [symmetric] by (rule card_mono) (use w(2) in auto)
  then have "length ?ws \<in> {1..n}" using w(4) by (cases ?ws) auto
  then have dv: "int (length ?ws) dvd scale" using assms(2) by blast
  have "(\<Sum>e < n. draw_share n scale delays row e) = (\<Sum>e < n. if e \<in> set ?ws then scale div int (length ?ws) else 0)"
    by (simp add: draw_share_def Let_def)
  also have "\<dots> = (\<Sum>e \<in> set ?ws. scale div int (length ?ws))"
    using w(2) by (simp add: sum.inter_restrict [symmetric] Int_absorb1)
  also have "\<dots> = scale" using dv card by simp
  finally show ?thesis .
qed

lemma conserved:
  assumes "samples_ok n samples" "list_all (delays_ok n) delays"
  shows "map sum_list (credits samples n (credit_scale_of n) delays) = map (\<lambda>_. int (length samples) * credit_scale_of n) delays"
proof -
  have n: "0 < n" "n \<le> 12" using assms(1) by (simp_all add: samples_ok_def)
  have all: "\<forall>n \<in> set [0..<13]. \<forall>k \<in> set [1..<n + 1]. int k dvd credit_scale_of n" by code_simp
  have "n \<in> set [0..<13]" using n(2) by simp
  with all have "\<forall>k \<in> set [1..<n + 1]. int k dvd credit_scale_of n" by blast
  then have dv: "\<forall>k \<in> {1..n}. int k dvd credit_scale_of n" by (auto simp: atLeastLessThan_iff simp del: upt_Suc)
  have sc: "0 \<le> credit_scale_of n" "credit_scale_of n \<le> 27720" using credit_scale_range [OF n(2)] by simp_all
  have "sum_list (sheet_credits n (credit_scale_of n) samples d) = int (length samples) * credit_scale_of n" for d
  proof -
    have "sum_list (sheet_credits n (credit_scale_of n) samples d)
        = (\<Sum>e < n. sum_list (map (\<lambda>row. draw_share n (credit_scale_of n) d row e) samples))"
      by (simp add: sheet_credits_def sum_list_distinct_conv_sum_set atLeast0LessThan)
    also have "\<dots> = sum_list (map (\<lambda>row. \<Sum>e < n. draw_share n (credit_scale_of n) d row e) samples)"
      by (induction samples) (simp_all add: sum.distrib)
    also have "\<dots> = int (length samples) * credit_scale_of n"
      unfolding draw_conserves [OF n(1) dv] by (simp add: sum_list_triv)
    finally show ?thesis .
  qed
  then show ?thesis by (simp add: shares [OF assms sc])
qed

end

interpretation vectorized: credit_method
  "\<lambda>samples n scale delays. winner_credits_vectorized (map (finish_times samples) delays)
     (map (\<lambda>d. row_minima (finish_times samples d)) delays) n scale"
  by unfold_locales (simp add: vectorized_shares list_all_iff)

interpretation bitset: credit_method
  "\<lambda>samples n scale delays. fst (projr (winner_credits_bitset samples delays n (length samples) scale empty_cache))"
proof unfold_locales
  fix n samples delays and scale :: int
  assume s: "samples_ok n samples"
  obtain cache' where "winner_credits_bitset samples delays n (length samples) scale empty_cache
      = Inr (map (sheet_credits n scale samples) delays, cache')"
    by (rule winner_credits_bitset_shares [OF s cache_ok_empty]) blast
  then show "fst (projr (winner_credits_bitset samples delays n (length samples) scale empty_cache))
      = map (sheet_credits n scale samples) delays" by simp
qed

subsection \<open>Frontier methods\<close>

locale frontier_method =
  fixes frontier :: "nat \<Rightarrow> nat \<Rightarrow> pareto_item list \<Rightarrow> pareto_item list"
    and admitted :: "nat \<Rightarrow> nat \<Rightarrow> pareto_item list \<Rightarrow> bool"
  assumes exact: "admitted n draws items \<Longrightarrow>
      sort (frontier n draws items) = sort (nondominated (raw_denominators n draws) items)"
    and range: "admitted n draws items \<Longrightarrow> n \<le> 12 \<and> draws \<le> 4096"
begin

lemma frontier_set:
  assumes "admitted n draws items"
  shows "set (frontier n draws items) = {i \<in> set items. \<forall>j \<in> set items. \<not> dominates_raw (snd j) (snd i) (raw_denominators n draws)}"
proof -
  have "set (sort (frontier n draws items)) = set (sort (nondominated (raw_denominators n draws) items))"
    by (simp only: exact [OF assms])
  then show ?thesis by (auto simp: nondominated_def list_ex_iff)
qed

lemma frontier_nonempty:
  assumes "admitted n draws items" "items \<noteq> []"
  shows "frontier n draws items \<noteq> []"
proof
  assume "frontier n draws items = []"
  then have "sort (nondominated (raw_denominators n draws) items) = []" using exact [OF assms(1)] by simp
  then have "length (nondominated (raw_denominators n draws) items) = 0" by (metis length_sort list.size(3))
  then show False using nondominated_nonempty [OF assms(2)] range [OF assms(1)] by simp
qed

end

text \<open>The index fed in batches, as the rounds of the beam search do.\<close>

fun index_add_all :: "pareto_index \<Rightarrow> pareto_item list list \<Rightarrow> opt_error + pareto_index" where
  "index_add_all idx [] = Inr idx"
| "index_add_all idx (batch # batches) = bind_res (index_add idx batch) (\<lambda>idx'. index_add_all idx' batches)"

lemma index_add_all_ok:
  assumes "index_ok n draws base idx" "n \<le> 12" "draws \<le> 4096" "list_all (near_item base) (concat batches)"
    "distinct (map fst (px_items idx @ concat batches))"
  obtains idx' where "index_add_all idx batches = Inr idx'" "index_ok n draws base idx'"
    "px_items idx' = px_items idx @ concat batches"
  using assms(1,4,5)
proof (induction batches arbitrary: idx thesis)
  case Nil
  then show ?case by simp
next
  case (Cons batch batches)
  obtain idx1 where 1: "index_add idx batch = Inr idx1" "index_ok n draws base idx1" "px_items idx1 = px_items idx @ batch"
    by (rule index_add_ok [OF Cons.prems(2) assms(2,3), of batch]) (use Cons.prems(3,4) in auto)
  obtain idx2 where 2: "index_add_all idx1 batches = Inr idx2" "index_ok n draws base idx2" "px_items idx2 = px_items idx1 @ concat batches"
    by (rule Cons.IH [OF _ 1(2)]) (use Cons.prems(3,4) 1(3) in auto)
  show ?case by (rule Cons.prems(1) [OF _ 2(2)]) (simp_all add: 1 2)
qed

interpretation skyline: frontier_method "\<lambda>n draws. raw_skyline (raw_denominators n draws)"
  "\<lambda>n draws items. n \<le> 6 \<and> draws \<le> 4096 \<and> distinct items"
proof unfold_locales
  fix n draws :: nat and items :: "pareto_item list"
  assume a: "n \<le> 6 \<and> draws \<le> 4096 \<and> distinct items"
  show "sort (raw_skyline (raw_denominators n draws) items) = sort (nondominated (raw_denominators n draws) items)"
    by (rule raw_skyline_eq [OF small_field_denominators]) (use a in \<open>simp_all add: raw_denominators_def\<close>)
  show "n \<le> 12 \<and> draws \<le> 4096" using a by simp
qed

interpretation indexed: frontier_method "\<lambda>n draws items. raw_frontier (projr (index_add (new_index n draws) items))"
  "\<lambda>n draws items. n \<le> 12 \<and> draws \<le> 4096 \<and> distinct (map fst items) \<and> (\<exists>base. list_all (near_item base) items)"
proof unfold_locales
  fix n draws :: nat and items :: "pareto_item list"
  assume a: "n \<le> 12 \<and> draws \<le> 4096 \<and> distinct (map fst items) \<and> (\<exists>base. list_all (near_item base) items)"
  then obtain base where base: "list_all (near_item base) items" by blast
  have new: "px_items (new_index n draws) = []" by (simp add: new_index_def Let_def)
  obtain idx where "index_add (new_index n draws) items = Inr idx" "index_ok n draws base idx" "px_items idx = items"
    by (rule index_add_ok [OF new_index_ok [of n draws base] _ _ base]) (use a new in simp_all)
  then show "sort (raw_frontier (projr (index_add (new_index n draws) items))) = sort (nondominated (raw_denominators n draws) items)"
    by (simp add: raw_frontier_eq sort_idem)
  show "n \<le> 12 \<and> draws \<le> 4096" using a by simp
qed

end
