(* ===== verification/Optimizer_Theorems.thy ===== *)
theory Optimizer_Theorems
  imports Optimizer_Outcome Optimizer_Fields Search_Methods
begin

section \<open>The optimizer: what holds of it\<close>

text \<open>
  The properties of domain/optimizer.py, from the canonical sheet to the receipt of a field. The sample
  at the beginning is a field of two competitors built by the constructors, on which the properties of
  fields are applied.
\<close>

subsection \<open>A sample field\<close>

definition sample_competitor :: "string \<Rightarrow> int \<Rightarrow> int \<Rightarrow> optimization_competitor" where
  "sample_competitor cid expected index =
     projr (mk_optimization_competitor cid expected (replicate 4096 expected) index None)"

definition sample_roster :: "optimization_competitor list" where
  "sample_roster = [sample_competitor ''competitor:ann'' 30000 0, sample_competitor ''competitor:bob'' 42500 1]"

definition sample_field :: optimization_field where
  "sample_field = projr (create_optimization_field ''field:final'' zero_digest sample_roster None)"

definition sample_env :: optimizer_env where
  "sample_env = (let env = \<lparr>oe_numpy = ''2.1.0'', oe_kernel = PNone, oe_source = zero_digest, oe_artifact = []\<rparr>
     in env\<lparr>oe_artifact := projr (implementation_artifact_digest env)\<rparr>)"

lemma sample_competitor:
  assumes "identifier_ok cid" "identifier_namespace cid = ''competitor''" "time_ok expected" "0 \<le> index"
  shows "competitor_ok (sample_competitor cid expected index)" "oc_id (sample_competitor cid expected index) = cid"
    "oc_expected (sample_competitor cid expected index) = expected" "oc_index (sample_competitor cid expected index) = index"
proof -
  have draws: "length (replicate 4096 expected) = 4096" "list_all time_ok (replicate 4096 expected)"
    using assms(3) by (simp_all only: length_replicate list_all_iff) (metis in_set_replicate)
  obtain c where "mk_optimization_competitor cid expected (replicate 4096 expected) index None = Inr c"
    by (rule mk_competitor_total [OF assms(1-3) draws assms(4)])
  then have "mk_optimization_competitor cid expected (replicate 4096 expected) index None = Inr (sample_competitor cid expected index)"
    unfolding sample_competitor_def by simp
  from mk_competitor_Inr(1-3,5) [OF this] show "competitor_ok (sample_competitor cid expected index)"
    "oc_id (sample_competitor cid expected index) = cid" "oc_expected (sample_competitor cid expected index) = expected"
    "oc_index (sample_competitor cid expected index) = index" .
qed

lemma sample_ids: "identifier_ok ''competitor:ann''" "identifier_namespace ''competitor:ann'' = ''competitor''"
  "identifier_ok ''competitor:bob''" "identifier_namespace ''competitor:bob'' = ''competitor''"
  "identifier_ok ''field:final''" "identifier_namespace ''field:final'' = ''field''" "is_digest zero_digest"
  by code_simp+

lemma sample_roster: "list_all competitor_ok sample_roster" "map oc_id sample_roster = [''competitor:ann'', ''competitor:bob'']"
  "map oc_expected sample_roster = [30000, 42500]" "map oc_index sample_roster = [0, 1]" "length sample_roster = 2"
  by (simp_all add: sample_roster_def sample_competitor sample_ids time_ok_def)

lemma sample_field: "create_optimization_field ''field:final'' zero_digest sample_roster None = Inr sample_field"
proof -
  obtain f where "create_optimization_field ''field:final'' zero_digest sample_roster None = Inr f"
    by (rule create_field_total [OF sample_ids(5-7) sample_roster(1)]) (simp_all add: sample_roster upt_rec)
  then show ?thesis by (simp add: sample_field_def)
qed

lemmas sample_field_facts = create_field_Inr [OF sample_field sample_roster(1)]

lemma sample_env_ok: "env_ok sample_env"
proof -
  let ?env = "\<lparr>oe_numpy = ''2.1.0'', oe_kernel = PNone, oe_source = zero_digest, oe_artifact = []\<rparr>"
  obtain d where "env_ok (?env\<lparr>oe_artifact := d\<rparr>)" by (rule env_exists [of ?env]) (simp_all add: sample_ids)
  then have d: "implementation_artifact_digest ?env = Inr d" by (simp add: env_ok_def implementation_artifact_digest_def)
  then show ?thesis by (simp add: env_ok_def sample_env_def implementation_artifact_digest_def Let_def)
qed

lemma sample_bounds: "mark_bounds 3 60 = Inr ()"
  by (simp add: mark_bounds_def)

subsection \<open>Fields and their receipts\<close>

text \<open>C4. Every field the constructors accept is answered: under legal bounds optimize_field never raises, whatever
  fails inside the search or the choice, and the sheet it selects is legal (somebody starts at the floor, nobody
  above the ceiling, and no slower competitor starts later); an empty field gets the empty sheet.\<close>

theorem optimize_field_always_answers:
  assumes "field_ok f" "env_ok env" "mark_bounds low high = Inr ()"
  shows "\<exists>r. optimize_field env f high low default_optimizer_policy = Inr r
    \<and> (if of_competitors f = [] then or_selected r = [] \<and> or_fallback r = Some OF_EMPTY_FIELD
       else fair_sheet (map oc_expected (of_competitors f)) low high (or_selected r))"
proof -
  have low: "low = 3" using assms(3) by (simp add: mark_bounds_def split: if_splits)
  obtain r where r: "optimize_field env f high low default_optimizer_policy = Inr r" "receipt_keeps f high r"
    by (rule optimize_field_ok [OF assms])
  show ?thesis by (rule exI [of _ r]) (use r low in \<open>simp add: receipt_keeps_def\<close>)
qed

theorem optimize_field_always_answers_witness:
  "length (of_competitors sample_field) = 2
    \<and> (\<exists>r. optimize_field sample_env sample_field 60 3 default_optimizer_policy = Inr r
         \<and> fair_sheet [30000, 42500] 3 60 (or_selected r))"
proof -
  have "sample_roster \<noteq> []" using sample_roster(5) by auto
  then show ?thesis
    using optimize_field_always_answers [OF sample_field_facts(1) sample_env_ok sample_bounds]
    by (auto simp: sample_field_facts(2) sample_roster(3,5))
qed

text \<open>C5. The optimizer departs from the canonical sheet only for an improvement: a receipt with a fallback reason
  selects the canonical sheet, one without selects a sheet of its frontier that improves meaningfully on the canonical
  sheet (unless there is a single competitor); the objectives it reports are those the evaluation gives for the
  selected and for the canonical sheet.\<close>

theorem optimize_field_only_improves:
  assumes "field_ok f" "env_ok env" "mark_bounds low high = Inr ()" "of_competitors f \<noteq> []"
  shows "\<exists>r ideal. optimize_field env f high low default_optimizer_policy = Inr r
    \<and> canonical_rounded_sheet (map oc_expected (of_competitors f)) low high = Inr (ideal, or_baseline r)
    \<and> evaluate_one (map oc_expected (of_competitors f)) (map oc_samples (of_competitors f)) (or_selected r) (or_baseline r) low
        = Inr (or_selected_objectives r)
    \<and> evaluate_one (map oc_expected (of_competitors f)) (map oc_samples (of_competitors f)) (or_baseline r) (or_baseline r) low
        = Inr (or_baseline_objectives r)
    \<and> (case or_fallback r of
         None \<Rightarrow> or_selected r \<in> fc_marks ` set (or_frontier r)
           \<and> (length (of_competitors f) = 1 \<or> meaningful (or_selected_objectives r) (or_baseline_objectives r))
       | Some reason \<Rightarrow> or_selected r = or_baseline r
           \<and> reason \<in> {OF_NO_VALID_IMPROVEMENT, OF_OPTIMIZER_FAILURE, OF_RANK_INVALID})"
proof -
  let ?e = "map oc_expected (of_competitors f)" and ?c = "map oc_samples (of_competitors f)"
  have lh: "low = 3" "high \<le> 183" using assms(3) by (simp_all add: mark_bounds_def split: if_splits)
  obtain r where r: "optimize_field env f high low default_optimizer_policy = Inr r" "receipt_keeps f high r"
    by (rule optimize_field_ok [OF assms(1-3)])
  note k = r(2) [unfolded receipt_keeps_def]
  from k assms(4) obtain ideal where i: "canonical_rounded_sheet ?e 3 high = Inr (ideal, or_baseline r)" by blast
  note fc = field_columns [OF assms(1,4)]
  have ne: "hd ?c \<noteq> []" using fc(2) by auto
  have times: "list_all time_ok ?e" using fc(1) by (simp add: columns_ok_def)
  obtain i' b' where "canonical_rounded_sheet ?e 3 high = Inr (i', b')" "?e \<noteq> [] \<Longrightarrow> fair_sheet ?e 3 high b'"
    by (rule canonical_sheet_total [OF assms(3) [unfolded lh(1)] times]) blast
  then have fb: "fair_sheet ?e 3 high (or_baseline r)" using i assms(4) by simp
  have fs: "fair_sheet ?e 3 high (or_selected r)" using k assms(4) by simp
  note mb = fair_marks_ok [OF fb lh(2)] and ms = fair_marks_ok [OF fs lh(2)]
  have ev: "evaluate_one ?e ?c (or_selected r) (or_baseline r) low = Inr (or_selected_objectives r)"
    "evaluate_one ?e ?c (or_baseline r) (or_baseline r) low = Inr (or_baseline_objectives r)"
    using evaluate_one_ok(1) [OF fc(1) ne ms mb] evaluate_one_ok(1) [OF fc(1) ne mb mb] k assms(4) lh(1) by simp_all
  have n: "length (of_competitors f) = 1 \<or> 2 \<le> length (of_competitors f)"
  proof -
    have "0 < length (of_competitors f)" using assms(4) by simp
    then show ?thesis by linarith
  qed
  show ?thesis
    by (intro exI [of _ r] exI [of _ ideal]) (use r(1) i ev k n assms(4) lh(1) in \<open>auto split: option.split\<close>)
qed

theorem optimize_field_only_improves_witness:
  "\<exists>r. optimize_field sample_env sample_field 60 3 default_optimizer_policy = Inr r
    \<and> (case or_fallback r of
         None \<Rightarrow> meaningful (or_selected_objectives r) (or_baseline_objectives r)
       | Some reason \<Rightarrow> or_selected r = or_baseline r)"
proof -
  have "of_competitors sample_field \<noteq> []" using sample_field_facts(2) sample_roster(5) by auto
  from optimize_field_only_improves [OF sample_field_facts(1) sample_env_ok sample_bounds this]
  show ?thesis using sample_field_facts(2) sample_roster(5) by (auto split: option.splits)
qed

text \<open>A field is created exactly for an identifier in its namespace, a source digest and a roster of at most twelve
  distinct competitors whose upstream indices are their positions; it then holds that roster unchanged.\<close>

theorem create_field_accepts:
  assumes "list_all competitor_ok cs"
  shows "(\<exists>f. create_optimization_field fid source cs None = Inr f \<and> field_ok f \<and> of_competitors f = cs)
    \<longleftrightarrow> identifier_ok fid \<and> identifier_namespace fid = ''field'' \<and> is_digest source \<and> length cs \<le> 12
      \<and> distinct (map oc_id cs) \<and> map oc_index cs = map int [0..<length cs]" (is "?l \<longleftrightarrow> ?r")
proof
  assume ?l
  then obtain f where c: "create_optimization_field fid source cs None = Inr f" by blast
  note f = create_field_Inr [OF c assms]
  have "map oc_index (of_competitors f) = map int [0..<length (of_competitors f)]"
    by (rule field_indices [OF f(1)])
  then show ?r using field_okD(1-3,7,8) [OF f(1)] f(2-4) by simp
next
  assume r: ?r
  then obtain f where c: "create_optimization_field fid source cs None = Inr f"
    using create_field_total [of fid source cs] assms by blast
  then show ?l using create_field_Inr [OF c assms] by blast
qed

theorem create_field_accepts_witness:
  "(\<exists>f. create_optimization_field ''field:final'' zero_digest sample_roster None = Inr f \<and> of_competitors f = sample_roster)
    \<and> \<not> (\<exists>f. create_optimization_field ''field:final'' zero_digest (rev sample_roster) None = Inr f \<and> field_ok f
           \<and> of_competitors f = rev sample_roster)"
proof -
  have rev: "list_all competitor_ok (rev sample_roster)" using sample_roster(1) by simp
  have "map oc_index (rev sample_roster) \<noteq> map int [0..<length (rev sample_roster)]"
    by (simp add: rev_map [symmetric] sample_roster upt_rec)
  then show ?thesis
    using create_field_accepts [OF sample_roster(1), of "''field:final''" zero_digest]
      create_field_accepts [OF rev, of "''field:final''" zero_digest]
    by (auto simp: sample_ids sample_roster upt_rec)
qed

text \<open>The ceiling of a canonical sheet may be lowered to its highest mark.\<close>

lemma canonical_ceiling:
  assumes "canonical_rounded_sheet expected 3 high = Inr (ideal, baseline)" "mark_bounds 3 high = Inr ()" "list_all time_ok expected"
    "expected \<noteq> []" "\<forall>m \<in> set baseline. m \<le> high'" "high' \<le> high" "3 \<le> high'"
  shows "\<exists>ideal'. canonical_rounded_sheet expected 3 high' = Inr (ideal', baseline)"
proof -
  have mb: "mark_bounds 3 high' = Inr ()" using assms(2,6,7) by (simp add: mark_bounds_def split: if_splits)
  obtain i where i: "canonical_rounded_sheet expected 3 high = Inr (i, map (rounded_mark 3 high expected) expected)"
    by (rule canonical_sheet [OF assms(2-4)]) blast
  obtain i' where i': "canonical_rounded_sheet expected 3 high' = Inr (i', map (rounded_mark 3 high' expected) expected)"
    by (rule canonical_sheet [OF mb assms(3,4)]) blast
  have b: "baseline = map (rounded_mark 3 high expected) expected" using i assms(1) by simp
  have "rounded_mark 3 high' expected v = rounded_mark 3 high expected v" if "v \<in> set expected" for v
  proof -
    have "rounded_mark 3 high expected v \<le> high'" using assms(5) that by (simp add: b)
    then show ?thesis using assms(6) by (auto simp: rounded_mark_def min_def split: if_splits)
  qed
  then show ?thesis using i' b by simp
qed

text \<open>C23. A receipt can be reproduced: the public evaluation of the selected sheet and of the canonical sheet accepts both
  and returns the objectives of the receipt, although it knows the ceiling only from the marks.\<close>

theorem receipt_is_reproducible:
  assumes "field_ok f" "env_ok env" "mark_bounds low high = Inr ()" "of_competitors f \<noteq> []"
  shows "\<exists>r. optimize_field env f high low default_optimizer_policy = Inr r
    \<and> evaluate_sheet f (or_selected r) (or_baseline r) low = Inr (or_selected_objectives r)
    \<and> evaluate_sheet f (or_baseline r) (or_baseline r) low = Inr (or_baseline_objectives r)"
proof -
  let ?e = "map oc_expected (of_competitors f)" and ?c = "map oc_samples (of_competitors f)"
  have lh: "low = 3" "3 \<le> high" "high \<le> 183" using assms(3) by (simp_all add: mark_bounds_def split: if_splits)
  obtain r where r: "optimize_field env f high low default_optimizer_policy = Inr r" "receipt_keeps f high r"
    by (rule optimize_field_ok [OF assms(1-3)])
  note k = r(2) [unfolded receipt_keeps_def]
  from k assms(4) obtain ideal where i: "canonical_rounded_sheet ?e 3 high = Inr (ideal, or_baseline r)" by blast
  note fc = field_columns [OF assms(1,4)]
  have times: "list_all time_ok ?e" using fc(1) by (simp add: columns_ok_def)
  obtain i' b' where "canonical_rounded_sheet ?e 3 high = Inr (i', b')" "?e \<noteq> [] \<Longrightarrow> fair_sheet ?e 3 high b'"
    by (rule canonical_sheet_total [OF assms(3) [unfolded lh(1)] times]) blast
  then have fb: "fair_sheet ?e 3 high (or_baseline r)" using i assms(4) by simp
  have fs: "fair_sheet ?e 3 high (or_selected r)" using k assms(4) by simp
  have ev: "evaluate_sheet f m (or_baseline r) low = Inr (sheet_objectives ?e ?c (or_baseline r) m)" if fm: "fair_sheet ?e 3 high m" for m
  proof -
    define top where "top = Max (set (m @ or_baseline r))"
    have ne: "m @ or_baseline r \<noteq> []" using fm assms(4) by (auto simp: fair_sheet_def)
    have all: "\<forall>x \<in> set (m @ or_baseline r). x \<le> top" by (simp add: top_def)
    have "top \<in> set (m @ or_baseline r)" unfolding top_def by (rule Max_in) (use ne in simp_all)
    then have top: "3 \<le> top" "top \<le> high" using fm fb by (auto simp: fair_sheet_def)
    have mb: "mark_bounds 3 top = Inr ()" using top lh(3) by (simp add: mark_bounds_def)
    have legal: "is_legal ?e m 3 top" using fm all by (simp add: is_legal_fair fair_sheet_def)
    obtain j where j: "canonical_rounded_sheet ?e 3 top = Inr (j, or_baseline r)"
      using canonical_ceiling [OF i assms(3) [unfolded lh(1)] times _ _ top(2,1)] assms(4) all by auto
    have len: "length m = length (of_competitors f)" "length (or_baseline r) = length (of_competitors f)"
      using fm fb by (simp_all add: fair_sheet_def)
    have hne: "hd ?c \<noteq> []" using fc(2) by auto
    have "evaluate_one ?e ?c m (or_baseline r) 3 = Inr (sheet_objectives ?e ?c (or_baseline r) m)"
      by (rule evaluate_one_ok(1) [OF fc(1) hne fair_marks_ok [OF fm lh(3)] fair_marks_ok [OF fb lh(3)]])
    moreover have "(if m @ or_baseline r = [] then low else Max (set (m @ or_baseline r))) = top" by (simp only: ne if_False top_def)
    ultimately show ?thesis
      unfolding evaluate_sheet_def Let_def by (simp only: lh(1)) (simp add: len mb legal j)
  qed
  show ?thesis
    by (rule exI [of _ r]) (use r(1) k assms(4) ev [OF fs] ev [OF fb] in auto)
qed

theorem receipt_is_reproducible_witness:
  "\<exists>r. optimize_field sample_env sample_field 60 3 default_optimizer_policy = Inr r
    \<and> evaluate_sheet sample_field (or_selected r) (or_baseline r) 3 = Inr (or_selected_objectives r)"
proof -
  have "of_competitors sample_field \<noteq> []" using sample_field_facts(2) sample_roster(5) by auto
  from receipt_is_reproducible [OF sample_field_facts(1) sample_env_ok sample_bounds this] show ?thesis by blast
qed

subsection \<open>Sheets\<close>

text \<open>C24. The canonical sheet of a field exists and is legal: the ideal it is written with denotes exactly the floor plus
  the seconds a competitor is faster than the slowest, and every mark is the floor plus that number rounded half to even,
  cut at the ceiling.\<close>

theorem canonical_sheet_rounds_ideal:
  assumes "mark_bounds low high = Inr ()" "list_all time_ok expected" "expected \<noteq> []"
  shows "\<exists>ideal marks. canonical_rounded_sheet expected low high = Inr (ideal, marks)
    \<and> fair_sheet expected low high marks
    \<and> list_all2 (\<lambda>s v. dv (dec_of_string s) = of_int low + of_int (Max (set expected) - v) / 1000) ideal expected
    \<and> list_all2 (\<lambda>m s. m = min high (low + half_even (dv (dec_of_string s) - of_int low))) marks ideal"
proof -
  obtain ideal where c: "canonical_rounded_sheet expected low high = Inr (ideal, map (rounded_mark low high expected) expected)"
    "list_all2 (\<lambda>s v. dv (dec_of_string s) = of_int low + of_int (Max (set expected) - v) / 1000) ideal expected"
    by (rule canonical_sheet [OF assms])
  have "list_all2 (\<lambda>m s. m = min high (low + half_even (dv (dec_of_string s) - of_int low)))
      (map (rounded_mark low high expected) expected) ideal"
    using c(2) by (simp add: list_all2_conv_all_nth rounded_mark_def)
  then show ?thesis using c rounded_sheet_fair [OF assms(1,3)] by blast
qed

theorem canonical_sheet_rounds_ideal_witness:
  "\<exists>ideal. canonical_rounded_sheet [30000, 42500, 41499] 3 60 = Inr (ideal, [15, 3, 4])
    \<and> map (\<lambda>s. dv (dec_of_string s)) ideal = [31 / 2, 3, 4001 / 1000]"
proof -
  have b: "list_all time_ok [30000, 42500, 41499]" "[30000, 42500, 41499 :: int] \<noteq> []" by (simp_all add: time_ok_def)
  have "half_even (25 / 2) = 12" "half_even (1001 / 1000) = 1" by code_simp+
  moreover have "x * 2 = 31 \<Longrightarrow> x - 3 = 25 / 2" "x * 1000 = 4001 \<Longrightarrow> x - 3 = 1001 / 1000" for x :: rat by simp_all
  ultimately have h: "x * 2 = 31 \<Longrightarrow> half_even (x - 3) = 12" "x * 1000 = 4001 \<Longrightarrow> half_even (x - 3) = 1" for x
    by (metis, metis)
  show ?thesis
    using canonical_sheet_rounds_ideal [OF sample_bounds b]
    by (auto simp: list_all2_Cons2 h)
qed

text \<open>C26. The two tests of the code for a legal sheet (the public one on all pairs and the one of the beam search on adjacent
  and tied competitors) accept exactly the fair sheets.\<close>

theorem legality_tests_agree:
  assumes "length marks = length expected" "marks \<noteq> []"
  shows "is_legal expected marks low high = fair_sheet expected low high marks
    \<and> legal_sheet expected low high marks = fair_sheet expected low high marks"
  using is_legal_fair legal_sheet_fair [OF assms] by blast

theorem legality_tests_agree_witness:
  "is_legal [30000, 42500, 42500] [15, 3, 3] 3 60 \<and> legal_sheet [30000, 42500, 42500] 3 60 [15, 3, 3]
    \<and> \<not> is_legal [30000, 42500, 42500] [15, 3, 4] 3 60 \<and> \<not> legal_sheet [30000, 42500, 42500] 3 60 [15, 3, 4]"
proof -
  have f: "fair_sheet [30000, 42500, 42500] 3 60 [15, 3, 3]" "\<not> fair_sheet [30000, 42500, 42500] 3 60 [15, 3, 4]"
    by (auto simp: fair_sheet_def less_Suc_eq numeral_3_eq_3)
  show ?thesis
    using legality_tests_agree [of "[15, 3, 3]" "[30000, 42500, 42500]" 3 60]
      legality_tests_agree [of "[15, 3, 4]" "[30000, 42500, 42500]" 3 60] f by simp
qed

text \<open>C25. The candidates of a small field are all legal sheets within the radius of the canonical sheet, each once, in
  ascending order.\<close>

theorem small_candidates_complete:
  assumes "length baseline = length expected" "expected \<noteq> []"
  shows "set (small_candidates expected baseline low high radius)
      = {m. fair_sheet expected low high m \<and> (\<forall>i < length expected. \<bar>m ! i - baseline ! i\<bar> \<le> radius)}
    \<and> sorted (small_candidates expected baseline low high radius) \<and> distinct (small_candidates expected baseline low high radius)"
  using small_candidates_set [OF assms] small_candidates_order by blast

theorem small_candidates_complete_witness:
  "[14, 3] \<in> set (small_candidates [30000, 42500] [15, 3] 3 60 3) \<and> [15, 4] \<notin> set (small_candidates [30000, 42500] [15, 3] 3 60 3)"
  using small_candidates_complete [of "[15, 3]" "[30000, 42500]" 3 60 3]
  by (auto simp: fair_sheet_def less_Suc_eq numeral_2_eq_2)

subsection \<open>Evaluation\<close>

text \<open>C20. The two methods for the shares of the winners (the vectorised one on finish times, the one on bit masks of pairwise
  comparisons with its cache) both give every entrant the sum over the draws of an equal share among the tied winners.\<close>

theorem winner_credits_agree:
  assumes "samples_ok n samples" "list_all (delays_ok n) delays" "0 \<le> scale" "scale \<le> 27720"
    "cache_ok samples (full_mask (length samples)) cache"
  shows "winner_credits_vectorized (map (finish_times samples) delays) (map (\<lambda>d. row_minima (finish_times samples d)) delays) n scale
      = map (sheet_credits n scale samples) delays
    \<and> (\<exists>cache'. winner_credits_bitset samples delays n (length samples) scale cache
        = Inr (map (sheet_credits n scale samples) delays, cache'))"
proof -
  obtain cache' where "winner_credits_bitset samples delays n (length samples) scale cache
      = Inr (map (sheet_credits n scale samples) delays, cache')"
    by (rule winner_credits_bitset_shares [OF assms(1,5)]) blast
  then show ?thesis using vectorized.shares [OF assms(1-4)] by blast
qed

theorem winner_credits_agree_witness:
  "fst (projr (winner_credits_bitset [[30000, 31000], [40000, 35000]] [[0, 1000], [0, 5000]] 2 2 2 empty_cache))
     = winner_credits_vectorized (map (finish_times [[30000, 31000], [40000, 35000]]) [[0, 1000], [0, 5000]])
         (map (\<lambda>d. row_minima (finish_times [[30000, 31000], [40000, 35000]] d)) [[0, 1000], [0, 5000]]) 2 2"
  using winner_credits_agree [of 2 "[[30000, 31000], [40000, 35000]]" "[[0, 1000], [0, 5000]]" 2 empty_cache]
  by (auto simp: samples_ok_def delays_ok_def time_ok_def cache_ok_empty numeral_2_eq_2)

text \<open>C27. No credit is lost to ties: with the scale of the code (the least common multiple of the numbers up to the number of
  entrants) the credits of a sheet add up to the scale times the number of draws, by either method.\<close>

theorem credits_conserved:
  assumes "samples_ok n samples" "list_all (delays_ok n) delays"
  shows "map sum_list (winner_credits_vectorized (map (finish_times samples) delays)
      (map (\<lambda>d. row_minima (finish_times samples d)) delays) n (credit_scale_of n)) = map (\<lambda>_. int (length samples) * credit_scale_of n) delays
    \<and> map sum_list (fst (projr (winner_credits_bitset samples delays n (length samples) (credit_scale_of n) empty_cache)))
      = map (\<lambda>_. int (length samples) * credit_scale_of n) delays"
  using vectorized.conserved [OF assms] bitset.conserved [OF assms] by blast

theorem credits_conserved_witness:
  "map sum_list (winner_credits_vectorized (map (finish_times [[30000, 31000], [40000, 35000]]) [[0, 1000], [0, 5000]])
     (map (\<lambda>d. row_minima (finish_times [[30000, 31000], [40000, 35000]] d)) [[0, 1000], [0, 5000]]) 2 (credit_scale_of 2)) = [4, 4]"
proof -
  have "credit_scale_of 2 = 2" by code_simp
  then show ?thesis
    using credits_conserved [of 2 "[[30000, 31000], [40000, 35000]]" "[[0, 1000], [0, 5000]]"]
    by (simp add: samples_ok_def delays_ok_def time_ok_def)
qed

text \<open>C21. The evaluation of legal sheets never raises and no array operation leaves its type: whatever the number of sheets, the
  split into batches and threads, the 16, 32 and 64 bit arrays give the objectives over the integers.\<close>

theorem evaluation_is_exact:
  assumes "columns_ok expected columns" "marks_ok (length expected) baseline" "list_all (marks_ok (length expected)) sheets" "distinct sheets"
  shows "\<exists>cache. evaluate_candidates (compile_evaluation_context expected columns baseline) 3 threads sheets empty_cache
    = Inr (map (\<lambda>m. (m, raw_objectives (compile_evaluation_context expected columns baseline) 3 m)) sheets, cache)"
proof -
  let ?ctx = "compile_evaluation_context expected columns baseline"
  have ctx: "context_ok ?ctx" using assms(2) by (intro compiled_context_ok [OF assms(1)]) (simp_all add: marks_ok_def)
  obtain cache where "evaluate_candidates ?ctx 3 threads sheets empty_cache = Inr (map (\<lambda>m. (m, raw_objectives ?ctx 3 m)) sheets, cache)"
    by (rule evaluate_candidates_exact [OF ctx _ assms(4) cache_ok_empty, of threads]) (use assms(3) in simp_all)
  then show ?thesis by blast
qed

theorem evaluation_is_exact_witness:
  "\<exists>cache. evaluate_candidates (compile_evaluation_context [30000, 42500] [[30000, 31000], [42500, 40000]] [15, 3]) 3 True [[15, 3], [14, 3]] empty_cache
    = Inr ([([15, 3], (250000, 0, 3500, 0)), ([14, 3], (2250000, 0, 3500, 1))], cache)"
proof -
  let ?ctx = "compile_evaluation_context [30000, 42500] [[30000, 31000], [42500, 40000]] [15, 3]"
  have "raw_objectives ?ctx 3 [15, 3] = (250000, 0, 3500, 0)" "raw_objectives ?ctx 3 [14, 3] = (2250000, 0, 3500, 1)"
    by code_simp+
  then show ?thesis
    using evaluation_is_exact [of "[30000, 42500]" "[[30000, 31000], [42500, 40000]]" "[15, 3]" "[[15, 3], [14, 3]]" True]
    by (simp add: columns_ok_def marks_ok_def time_ok_def)
qed

subsection \<open>Search and choice\<close>

text \<open>C19. The frontier does not depend on how it is found: the incremental index of the beam search, fed in any batches, ends
  with exactly the sheets no other one dominates, and so does the skyline of small fields; it is never empty.\<close>

theorem frontiers_agree:
  assumes "n \<le> 12" "draws \<le> 4096" "list_all (near_item base) (concat batches)" "distinct (map fst (concat batches))" "concat batches \<noteq> []"
  shows "\<exists>idx. index_add_all (new_index n draws) batches = Inr idx
    \<and> raw_frontier idx = sort (nondominated (raw_denominators n draws) (concat batches)) \<and> raw_frontier idx \<noteq> []
    \<and> (if n \<le> 6 then sort (raw_skyline (raw_denominators n draws) (concat batches)) = raw_frontier idx else True)"
proof -
  have new: "px_items (new_index n draws) = []" by (simp add: new_index_def Let_def)
  obtain idx where idx: "index_add_all (new_index n draws) batches = Inr idx" "index_ok n draws base idx" "px_items idx = concat batches"
    by (rule index_add_all_ok [OF new_index_ok [of n draws base] assms(1-3)]) (use assms(4) new in simp_all)
  have eq: "raw_frontier idx = sort (nondominated (raw_denominators n draws) (concat batches))"
    using raw_frontier_eq [OF idx(2)] idx(3) by simp
  have ne: "raw_frontier idx \<noteq> []"
  proof
    assume "raw_frontier idx = []"
    then have "length (sort (nondominated (raw_denominators n draws) (concat batches))) = 0" by (simp only: eq list.size(3))
    then show False using nondominated_nonempty [OF assms(5,1,2)] by simp
  qed
  have "distinct (concat batches)" using assms(4) by (simp add: distinct_map)
  then have "n \<le> 6 \<Longrightarrow> sort (raw_skyline (raw_denominators n draws) (concat batches)) = raw_frontier idx"
    using skyline.exact [of n draws "concat batches"] assms(2) by (simp add: eq)
  then show ?thesis using idx(1) eq ne by simp
qed

theorem frontiers_agree_witness:
  "\<exists>idx. index_add_all (new_index 2 2) [[([15, 3], (250000, 0, 3500, 0))], [([14, 3], (2250000, 0, 3500, 1)), ([13, 3], (0, 0, 0, 1))]] = Inr idx
    \<and> raw_frontier idx = [([13, 3], (0, 0, 0, 1)), ([15, 3], (250000, 0, 3500, 0))]"
proof -
  have "sort (nondominated (raw_denominators 2 2)
      [([15, 3], (250000, 0, 3500, 0)), ([14, 3], (2250000, 0, 3500, 1)), ([13, 3], (0, 0, 0, 1))])
      = [([13, 3], (0, 0, 0, 1)), ([15, 3], (250000, 0, 3500, 0))]" by code_simp
  then show ?thesis
    using frontiers_agree [of 2 2 0 "[[([15, 3], (250000, 0, 3500, 0))], [([14, 3], (2250000, 0, 3500, 1)), ([13, 3], (0, 0, 0, 1))]]"]
    by (auto simp: near_item_def small_value_def)
qed

text \<open>C18. The beam search ends within its budget and never raises: at most eight rounds per entrant (and no more than the
  policy allows), at most one evaluation plus the beam width per round; every sheet it evaluates is legal, none is evaluated
  twice, each lies at most one second per round from the canonical sheet, and its frontier is that of all of them.\<close>

theorem beam_search_bounded:
  assumes "columns_ok expected columns" "hd columns \<noteq> []" "fair_sheet expected 3 high baseline" "high \<le> 183"
  shows "\<exists>ms r. beam_search expected columns baseline 3 high policy = Inr r
    \<and> map fst (br_evaluated r) = ms \<and> distinct ms \<and> baseline \<in> set ms
    \<and> list_all (fair_sheet expected 3 high) ms \<and> list_all (\<lambda>m. sheet_distance m baseline \<le> int (br_rounds r)) ms
    \<and> br_generated r = length ms \<and> br_rounds r \<le> min (8 * length expected) (op_maximum_rounds policy)
    \<and> length ms \<le> 1 + min (8 * length expected) (op_maximum_rounds policy) * op_beam_width policy
    \<and> br_frontier r = search_frontier (length expected) (length (hd columns)) (br_evaluated r)"
proof -
  obtain ms r where b: "beam_search expected columns baseline 3 high policy = Inr r"
    "br_evaluated r = map (\<lambda>m. (m, raw_objectives (compile_evaluation_context expected columns baseline) 3 m)) ms"
    "distinct ms" "baseline \<in> set ms"
    "\<And>m. m \<in> set ms \<Longrightarrow> fair_sheet expected 3 high m \<and> sheet_distance m baseline \<le> int (br_rounds r)"
    "br_generated r = length ms" "length ms \<le> br_limit r"
    "br_rounds r \<le> min (8 * length expected) (op_maximum_rounds policy)"
    "br_limit r = 1 + min (8 * length expected) (op_maximum_rounds policy) * op_beam_width policy"
    "br_frontier r = search_frontier (length expected) (length (hd columns)) (br_evaluated r)"
    by (rule beam_search_ok [OF assms(1,3,4,2), of policy]) blast
  show ?thesis
    by (rule exI [of _ ms], rule exI [of _ r]) (use b in \<open>simp add: list_all_iff\<close>)
qed

theorem beam_search_bounded_witness:
  "\<exists>r. beam_search [30000, 42500] [[30000, 31000], [42500, 40000]] [15, 3] 3 60 default_optimizer_policy = Inr r \<and> br_rounds r \<le> 16"
proof -
  have "fair_sheet [30000, 42500] 3 60 [15, 3]" by (auto simp: fair_sheet_def less_Suc_eq numeral_2_eq_2)
  then show ?thesis
    using beam_search_bounded [of "[30000, 42500]" "[[30000, 31000], [42500, 40000]]" 60 "[15, 3]" default_optimizer_policy]
    by (auto simp: columns_ok_def time_ok_def)
qed

text \<open>C22. The choice is the improvement farthest from the plane of the anchors: when the geometry exists, the selection either
  fails as a whole for a distance that cannot be written, or it chooses nothing because no sheet of the frontier improves
  meaningfully, or it chooses one of those that do whose distance is the greatest among them.\<close>

theorem choice_is_farthest_improvement:
  "let normalized = normalized_rows (map (\<lambda>p. ov_values (snd p)) frontier);
       improving = filter (\<lambda>i. meaningful (snd (frontier ! i)) bo) [0..<length frontier]
   in case knee_distances normalized (anchor_indices normalized (map fst frontier) baseline) of
        None \<Rightarrow> select_chim frontier baseline bo = Inl (Abort OF_RANK_INVALID)
      | Some knee \<Rightarrow> (case select_chim frontier baseline bo of
          Inl e \<Rightarrow> fallback_of e = OF_OPTIMIZER_FAILURE
        | Inr (None, candidates) \<Rightarrow> improving = []
        | Inr (Some m, candidates) \<Rightarrow> list_ex (\<lambda>i. fst (frontier ! i) = m
            \<and> list_all (\<lambda>j. dv (knee ! j) \<le> dv (knee ! i)) improving) improving)"
proof -
  let ?normalized = "normalized_rows (map (\<lambda>p. ov_values (snd p)) frontier)"
  let ?knees = "knee_distances ?normalized (anchor_indices ?normalized (map fst frontier) baseline)"
  show ?thesis
  proof (cases ?knees)
    case None
    then show ?thesis by (simp add: select_chim_def Let_def)
  next
    case (Some knee)
    show ?thesis
    proof (cases "select_chim frontier baseline bo")
      case (Inl e)
      have "fallback_of e = OF_OPTIMIZER_FAILURE" using Inl select_chim_clean [OF Some] by (cases e) (simp_all add: clean_def fallback_of_def)
      then show ?thesis using Some Inl by (simp add: Let_def)
    next
      case (Inr p)
      obtain choice candidates where p: "p = (choice, candidates)" by (cases p)
      from Inr p have sel: "select_chim frontier baseline bo = Inr (choice, candidates)" by simp
      obtain knee' where k: "?knees = Some knee'" "choice = None \<longleftrightarrow> (\<forall>p \<in> set frontier. \<not> meaningful (snd p) bo)"
        "\<And>m. choice = Some m \<Longrightarrow> \<exists>i < length frontier. fst (frontier ! i) = m \<and> meaningful (snd (frontier ! i)) bo
           \<and> (\<forall>j < length frontier. meaningful (snd (frontier ! j)) bo \<longrightarrow> dv (knee' ! j) \<le> dv (knee' ! i))"
        by (rule select_chim_Inr [OF sel]) blast
      have kk: "knee' = knee" using k(1) Some by simp
      show ?thesis
      proof (cases choice)
        case None
        then have "filter (\<lambda>i. meaningful (snd (frontier ! i)) bo) [0..<length frontier] = []"
          using k(2) by (simp add: filter_empty_conv)
        then show ?thesis using Some Inr p None by (simp add: Let_def)
      next
        case (Some m)
        from k(3) [OF this] obtain i where "i < length frontier" "fst (frontier ! i) = m" "meaningful (snd (frontier ! i)) bo"
          "\<forall>j < length frontier. meaningful (snd (frontier ! j)) bo \<longrightarrow> dv (knee ! j) \<le> dv (knee ! i)" unfolding kk by blast
        then have "list_ex (\<lambda>i. fst (frontier ! i) = m
            \<and> list_all (\<lambda>j. dv (knee ! j) \<le> dv (knee ! i)) (filter (\<lambda>i. meaningful (snd (frontier ! i)) bo) [0..<length frontier]))
            (filter (\<lambda>i. meaningful (snd (frontier ! i)) bo) [0..<length frontier])"
          by (auto simp: list_ex_iff list_all_iff)
        then show ?thesis using k(1) kk Inr p Some by (simp add: Let_def)
      qed
    qed
  qed
qed

end
