(* ===== verification/Spec2Isabelle.thy ===== *)
theory Spec2Isabelle
  imports Event_Store_Theorems Job_Theorems Optimizer_Theorems
begin

text \<open>
  \<^bold>\<open>The STRATHMARK V3 kernel: a model of its code and the theorems about it\<close>

  STRATHMARK computes handicap marks for woodchopping competitions. Its V3 kernel
  (\<open>src/strathmark/v3\<close>) is layered: \<open>contracts\<close> are immutable validated values with one canonical
  serialization, \<open>domain\<close> holds pure rules over them, \<open>application\<close> the requests and services, and
  \<open>infrastructure/sqlite\<close> the two durable stores everything rests on: the event store, which executes
  commands exactly once and appends events to a hash chain, and the work queue, whose workers hold
  leases fenced by a token. All services write through these two stores, so their guarantees are
  the guarantees of the kernel. What is recorded are mark sheets, and the sheets come from the
  optimizer of \<open>domain\<close>. This library models the contracts, the two stores, the rules between them
  and the optimizer from the source, and proves what they promise.

  \<^bold>\<open>Conventions.\<close> A function that may raise is a function into \<open>error + 'a\<close>: \<open>Inl\<close> is the exception,
  \<open>Inr\<close> the value. A validating constructor (\<open>__post_init__\<close>) is the ordered list of its checks
  (\<open>guards\<close>), the first violated one raises. A dataclass is a record, an \<open>Enum\<close> a datatype with its
  wire value, \<open>to_dict\<close> and \<open>from_dict\<close> are functions between the record and the value trees \<open>py\<close>.
  Python's integers are \<open>int\<close>; where the code bounds them to 64 bits the bound is a check of the
  model, and SHA-256 works on 32-bit words. A table of the database is the list of its rows in
  insertion order, a transaction is a function from the state to an error or a new state, so an
  error leaves the state as it was (\<open>BEGIN IMMEDIATE\<close> and rollback), and a history of the system is
  a list of such calls. The wall clock, the key store and the signature scheme are arguments.

  \<^bold>\<open>Parts and theories.\<close>

  \<^item> \<^bold>\<open>Shared language.\<close> \<open>Prelude\<close>: results, ordered checks, closed vocabularies, list facts.
    \<open>Values\<close>: the value trees \<open>py\<close> and the exceptions of \<open>contracts/errors.py\<close>. \<open>Digest\<close>: UTF-8 and
    SHA-256. \<open>Identifiers\<close>: the grammar of \<open>contracts/identifiers.py\<close>.

  \<^item> \<^bold>\<open>Canonical form\<close> (\<open>contracts/canonical.py\<close>). \<open>Canonical\<close>: decimal strings and milliseconds.
    \<open>Canonical_Json\<close>: \<open>_normalize\<close> with its shared item counter, \<open>json.dumps\<close> with sorted keys, the
    byte, item and depth bounds, digests and content-addressed identifiers. \<open>Json\<close>: \<open>json.loads\<close> on
    canonical texts. The lemmas show that canonical bytes determine the content up to the order of
    keys, that canonical decimals determine the number, and that what was written is read back.

  \<^item> \<^bold>\<open>Contracts\<close> (\<open>contracts/*.py\<close>). \<open>Vocabulary\<close>, \<open>Statuses\<close>, \<open>Evidence\<close>, \<open>Commands\<close>, \<open>Events\<close>: the
    enumerations, results, packets, commands and event envelopes. For every class the constructor's
    checks are characterised by a predicate and the dictionary form is shown to be inverted exactly
    on the values that satisfy it. \<open>Lifecycle\<close> (\<open>domain/state_machines.py\<close>): the transition tables of
    every aggregate and \<open>replay\<close>. \<open>Requests\<close> (\<open>application/commands.py\<close>): which events a command may
    append.

  \<^item> \<^bold>\<open>Event store\<close> (\<open>infrastructure/sqlite/event_store.py\<close>, \<open>rolling_restart.py\<close>). \<open>Event_Db\<close>: the
    tables with their constraints. \<open>Rolling_Cursor\<close>: the reaction cursor. \<open>Event_Verify\<close>: the replay
    that verifies a database. \<open>Event_Store\<close>: \<open>execute\<close>, the transaction behind every command.
    \<open>Event_Store_Ops\<close>: deep verification, public operations, reads. The proofs: \<open>Ledger\<close> is the
    abstract ledger (a list of events, no tables); \<open>Ledger_View\<close> shows that the replay accepts exactly
    the storage images of legal ledgers, \<open>Ledger_Append\<close> and \<open>Ledger_Commit\<close> that \<open>execute\<close> keeps this
    and appends to the ledger. \<open>Event_Store_Props\<close> states the contract of the store towards callers as
    a locale, interpreted on \<open>execute\<close>. \<open>Event_Store_Sample\<close> and \<open>Event_Store_Theorems\<close> hold a fresh
    installation with a first command, and the properties.

  \<^item> \<^bold>\<open>Work queue\<close> (\<open>infrastructure/sqlite/jobs.py\<close>, \<open>application/job_ports.py\<close>,
    \<open>application/capacity.py\<close>, \<open>infrastructure/integrity.py\<close>). \<open>Calendar\<close>: instants as canonical strings,
    which the code compares as text, and their numbers of milliseconds. \<open>Capacity\<close>: lanes, kinds, the
    capacity manifest and the admission decisions. \<open>Manifest\<close>: signed manifests over an abstract
    signature scheme. \<open>Job_Contract\<close>: requests, rows, specs, history records. \<open>Job_Queue\<close>: the tables
    and \<open>append_history\<close>, the one place that writes a row together with its signed history record and
    its restart delta. \<open>Job_Ops\<close>: enqueue, the two claims with the reconciliation before them,
    heartbeat, commit, failure, terminal calls, cancellation, the sweep of closed epochs.
    \<open>Job_Replay\<close>: the replay of specs and history that rebuilds and verifies the table.
    The proofs: \<open>Job_Moves\<close> is the specification (the legal changes of one row and the steps of the
    queue), \<open>Job_Runs\<close>, \<open>Job_Simulation\<close> and \<open>Job_Calls\<close> show that every operation is a run of such
    steps; \<open>Job_Invariants\<close>, \<open>Job_Budget\<close>, \<open>Job_Limits\<close>, \<open>Job_Claims\<close> and \<open>Job_Deltas\<close> prove the
    invariants of the steps; \<open>Job_Replayable\<close> and \<open>Job_Rebuild\<close> that a history written by the queue
    replays to the table, and the one move for which it does not. \<open>Job_Sample\<close> and \<open>Job_Theorems\<close> hold
    concrete queues and the properties.

  \<^item> \<^bold>\<open>Handicap optimizer\<close> (\<open>domain/optimizer.py\<close>). \<open>Decimal_Arith\<close>: Python's decimals as a coefficient
    and an exponent, every operation rounded half even to the precision of its context (80 digits in
    the choice, 96 in receipts, 32 and 64 in roundings). \<open>Mark_Sheet\<close>: bounds, the canonical sheet, the
    tests for legal sheets, the candidates of small fields. \<open>Winner_Credit\<close> and \<open>Sheet_Evaluation\<close>: the
    evaluation of batches of sheets; NumPy arrays are lists whose operations wrap at 16, 32 or 64 bits,
    masks are integers with bitwise operations, the eight threads only share the cache of comparison
    masks, so their parts are evaluated in order with the cache threaded through. \<open>Winner_Bits\<close> proves
    the bit-mask method. \<open>Pareto_Front\<close>: skyline and incremental index. \<open>Mark_Search\<close> and \<open>Beam_Search\<close>:
    objectives as decimal texts and the beam search. \<open>Chim_Selection\<close>: the choice of a sheet on the
    frontier (Jacobi rotations, null space, projection, distances), computed as written.
    \<open>Search_Methods\<close> states the contracts of the two credit methods and of the two frontier methods as
    locales with both implementations as interpretations. \<open>Field_Optimizer\<close>: competitors, fields,
    work budgets, receipts and \<open>optimize_field\<close> with its fallback. \<open>Optimizer_Fields\<close>,
    \<open>Optimizer_Receipts\<close> and \<open>Optimizer_Outcome\<close> prove that the constructors accept what they should and
    what \<open>optimize_field\<close> returns; \<open>Optimizer_Theorems\<close> holds a sample field and the properties. The
    version of NumPy, the identity of the native kernel and the digest of the module's own source are
    the record \<open>optimizer_env\<close>.

  \<^bold>\<open>What the theorems show.\<close> The event store: a verified store stays verified under every call, a
  repeated command is answered from its record and changes nothing, a stale expected version is
  never committed, two verified stores with one trusted anchor agree on their history unless
  SHA-256 collides, and the ledger seen by the replay is exactly the ledger. The work queue: a
  worker whose fence has been passed can do nothing any more, rows keep the constraints of their
  table and only advance, a job records a bounded number of transitions, publications and succeeded
  rows correspond one to one, capacity limits hold in every state, a claim leaves nothing overdue
  and takes the first eligible job, and the replay of the history is the table. The optimizer: every
  constructed field gets a receipt with a legal sheet, whatever fails inside; a sheet other than the
  canonical one is a meaningful improvement on the exact frontier of the sheets searched; no array
  operation overflows, the two ways to find winners and frontiers agree, the beam search stays within
  its budget, and a receipt's objectives are those of the public evaluation. (The triggers of
  migration 0005 that would enforce some of this in the database are dropped by migration 0013, so
  the guarantees are those of the code.) Four places where the code does less than it means to are
  stated as theorems too: events of foreign aggregates in a batch issue, receipts inside
  the frozen lists of an issue result, a queued job recorded as stale, and more than 64 overdue jobs.

  \<^bold>\<open>Bounds and fuel.\<close> No definition of the model runs out of fuel in a way a theorem hides: loops
  over rows are structural, the decimal and SHA-256 loops have measures, and the recursion of
  \<open>_normalize\<close> and of the JSON reader is bounded by the depth bound of the source (32) and the
  length of the text, both of which the theorems prove sufficient. The delta bound (64), the
  attempt bound (32) and the lease bounds are those of the source. The rounds of the beam search and
  the 96 sweeps of the Jacobi rotations are the bounds of the source.

  \<^bold>\<open>Not modelled.\<close> Text is restricted to one byte per character in the value trees, where NFC normalization is
  the identity. The constructors of the two stores run migrations and the legacy cutover
  (only \<open>_verify_job_spec_cutover\<close> is modelled); health reports, provider execution audits, rolling
  publications and reactions, restart checkpoints and their recovery, backups, the ECDSA keys and
  their rotation are left out of the stores. Of the optimizer, the native kernel (loaded on Windows
  only), the construction of a field from joint draws, verified receipts and the consequence evaluator
  are left out; convergence of the Jacobi rotations is not claimed, and a distance too long to be
  written makes the choice fail as a whole (\<open>select_chim_unwritable\<close>), which the fallback absorbs. \<open>projections.py\<close> (read models in SQL), \<open>outbox.py\<close>, the
  evidence, epoch and pooling rules of \<open>domain\<close>, the services of \<open>application\<close> above the stores, the
  assessors, the model factory, the HTTP gateway and the earlier engine (\<open>predictor.py\<close>, \<open>ledger.py\<close>
  and the other modules beside \<open>v3\<close>) have no model here; most of them are floating point, SQL or
  calls of services.
\<close>

end
